(* ===== verification/Prelude.thy ===== *)
theory Prelude
  imports
    "HOL-Library.Word"
    "HOL-Library.Multiset"
    "HOL-Library.List_Lexorder"
    "HOL-Library.Char_ord"
begin

text \<open>
  Shared vocabulary of the development: the machine integers, the fixed byte arrays
  (\<open>HashType\<close>, \<open>PubKey\<close>, \<open>Signature\<close>) with their order and their bytes, the error type of
  \<open>src/src/error.rs\<close>, the \<open>Result\<close> type with its sequencing, the checked and saturating
  arithmetic of \<open>usize\<close>, and the slice operations of the standard library the components
  use. The \<open>named_theorems\<close> collections below are filled by the component theories and are
  what their proofs (and the evaluation of concrete inputs) are given.
\<close>

named_theorems usize_simps \<open>checked and saturating arithmetic\<close>
named_theorems threshold_simps \<open>vote thresholds\<close>
named_theorems eval_simps \<open>equations that evaluate a definition on concrete data\<close>

unbundle bit_operations_syntax

type_synonym u8 = "8 word"
type_synonym u16 = "16 word"
type_synonym u32 = "32 word"
type_synonym u64 = "64 word"
type_synonym u128 = "128 word"
type_synonym usize = nat
type_synonym bytes = "u8 list"
type_synonym Nonce = u64


section \<open>Errors and results\<close>

text \<open>
  The variants of \<open>BlossomError\<close>. The \<open>String\<close> payloads are diagnostic text which no
  branch of the code reads back; they are not kept.
\<close>

datatype BlossomError =
    InvalidHex
  | InvalidLength usize usize
  | MissingSecretKey
  | SignatureError
  | InvalidPublicKey
  | InvalidSecretKey
  | KeyMismatch
  | UnknownSender
  | UnknownService
  | EmptyEpochChain
  | InvalidEpochNonce
  | InvalidBlockHash
  | InvalidBlockLastEpoch
  | InvalidBlockNonce Nonce Nonce
  | BlockApplicationStateTooLarge usize usize
  | DuplicateBlock
  | BlockQueueFull
  | ExternalService
  | Io
  | InvalidFrameSize usize
  | InvalidQuorumSize usize
  | InvalidHighAvailabilityNodeCount usize
  | EpochSealed Nonce Nonce Nonce
  | WatermarkNotSealed u64 u64
  | InvalidConfiguration
  | ConsensusParametersMismatch usize usize
  | WireProtocol
  | FailedConsensus

type_synonym 'a result = "BlossomError + 'a"

fun and_then :: "'e + 'a \<Rightarrow> ('a \<Rightarrow> 'e + 'b) \<Rightarrow> 'e + 'b" where
  "and_then (Inl e) f = Inl e"
| "and_then (Inr x) f = f x"

abbreviation Ok :: "'a \<Rightarrow> 'e + 'a" where
  "Ok x \<equiv> Inr x"

abbreviation Err :: "'e \<Rightarrow> 'e + 'a" where
  "Err e \<equiv> Inl e"

definition is_ok :: "'e + 'a \<Rightarrow> bool" where
  "is_ok r = (case r of Inl _ \<Rightarrow> False | Inr _ \<Rightarrow> True)"

fun ok_or :: "'a option \<Rightarrow> 'e \<Rightarrow> 'e + 'a" where
  "ok_or None e = Inl e"
| "ok_or (Some x) e = Inr x"

text \<open>A \<open>for\<close> loop whose body may return early with an error.\<close>

fun try_fold :: "('s \<Rightarrow> 'a \<Rightarrow> 'e + 's) \<Rightarrow> 's \<Rightarrow> 'a list \<Rightarrow> 'e + 's" where
  "try_fold f s [] = Inr s"
| "try_fold f s (x # xs) = and_then (f s x) (\<lambda>s'. try_fold f s' xs)"


section \<open>usize arithmetic\<close>

definition usize_max :: usize where
  "usize_max = 2 ^ 64 - 1"

definition checked_mul :: "usize \<Rightarrow> usize \<Rightarrow> usize option" where
  "checked_mul a b = (if a * b \<le> usize_max then Some (a * b) else None)"

definition checked_add :: "usize \<Rightarrow> usize \<Rightarrow> usize option" where
  "checked_add a b = (if a + b \<le> usize_max then Some (a + b) else None)"

definition saturating_add :: "usize \<Rightarrow> usize \<Rightarrow> usize" where
  "saturating_add a b = min (a + b) usize_max"

definition saturating_sub :: "usize \<Rightarrow> usize \<Rightarrow> usize" where
  "saturating_sub a b = a - b"

definition saturating_mul :: "usize \<Rightarrow> usize \<Rightarrow> usize" where
  "saturating_mul a b = min (a * b) usize_max"

fun unwrap_or :: "'a option \<Rightarrow> 'a \<Rightarrow> 'a" where
  "unwrap_or None d = d"
| "unwrap_or (Some x) d = x"


section \<open>Fixed byte arrays\<close>

text \<open>
  A \<open>[u8; n]\<close> is kept as the word of its bytes read from the most significant one: the
  derived \<open>Ord\<close> of the arrays is the lexicographic order of the bytes, which is the
  unsigned order of these words.
\<close>

definition le_bytes :: "nat \<Rightarrow> 'a::len word \<Rightarrow> bytes" where
  "le_bytes n w = map (\<lambda>i. ucast (drop_bit (8 * i) w)) [0..<n]"

definition be_bytes :: "nat \<Rightarrow> 'a::len word \<Rightarrow> bytes" where
  "be_bytes n w = rev (le_bytes n w)"

abbreviation u16_to_le_bytes :: "u16 \<Rightarrow> bytes" where
  "u16_to_le_bytes \<equiv> le_bytes 2"

abbreviation u32_to_le_bytes :: "u32 \<Rightarrow> bytes" where
  "u32_to_le_bytes \<equiv> le_bytes 4"

abbreviation u64_to_le_bytes :: "u64 \<Rightarrow> bytes" where
  "u64_to_le_bytes \<equiv> le_bytes 8"

abbreviation u128_to_le_bytes :: "u128 \<Rightarrow> bytes" where
  "u128_to_le_bytes \<equiv> le_bytes 16"

definition u64_of_usize :: "usize \<Rightarrow> u64" where
  "u64_of_usize n = of_nat n"

definition u64_from_le_bytes :: "bytes \<Rightarrow> u64" where
  "u64_from_le_bytes bs = foldr (\<lambda>b acc. ucast b OR push_bit 8 acc) bs 0"

definition string_bytes :: "string \<Rightarrow> bytes" where
  "string_bytes s = map (\<lambda>c. of_nat (of_char c)) s"

datatype HashType = HashType "256 word"
datatype PubKey = PubKey "256 word"
datatype Signature = Signature "512 word"

fun hash_as_ref :: "HashType \<Rightarrow> bytes" where
  "hash_as_ref (HashType w) = be_bytes 32 w"

fun pubkey_as_ref :: "PubKey \<Rightarrow> bytes" where
  "pubkey_as_ref (PubKey w) = be_bytes 32 w"

fun signature_as_ref :: "Signature \<Rightarrow> bytes" where
  "signature_as_ref (Signature w) = be_bytes 64 w"

definition default_hash :: HashType where
  "default_hash = HashType 0"

definition new_next :: "Nonce \<Rightarrow> Nonce" where
  "new_next n = n + 1"

instantiation HashType :: linorder
begin

fun less_eq_HashType :: "HashType \<Rightarrow> HashType \<Rightarrow> bool" where
  "HashType a \<le> HashType b \<longleftrightarrow> a \<le> b"

fun less_HashType :: "HashType \<Rightarrow> HashType \<Rightarrow> bool" where
  "HashType a < HashType b \<longleftrightarrow> a < b"

instance
proof
  fix x y z :: HashType
  show "(x < y) = (x \<le> y \<and> \<not> y \<le> x)" by (cases x; cases y) auto
  show "x \<le> x" by (cases x) simp
  show "x \<le> y \<Longrightarrow> y \<le> z \<Longrightarrow> x \<le> z" by (cases x; cases y; cases z) auto
  show "x \<le> y \<Longrightarrow> y \<le> x \<Longrightarrow> x = y" by (cases x; cases y) auto
  show "x \<le> y \<or> y \<le> x" by (cases x; cases y) auto
qed

end

instantiation PubKey :: linorder
begin

fun less_eq_PubKey :: "PubKey \<Rightarrow> PubKey \<Rightarrow> bool" where
  "PubKey a \<le> PubKey b \<longleftrightarrow> a \<le> b"

fun less_PubKey :: "PubKey \<Rightarrow> PubKey \<Rightarrow> bool" where
  "PubKey a < PubKey b \<longleftrightarrow> a < b"

instance
proof
  fix x y z :: PubKey
  show "(x < y) = (x \<le> y \<and> \<not> y \<le> x)" by (cases x; cases y) auto
  show "x \<le> x" by (cases x) simp
  show "x \<le> y \<Longrightarrow> y \<le> z \<Longrightarrow> x \<le> z" by (cases x; cases y; cases z) auto
  show "x \<le> y \<Longrightarrow> y \<le> x \<Longrightarrow> x = y" by (cases x; cases y) auto
  show "x \<le> y \<or> y \<le> x" by (cases x; cases y) auto
qed

end


section \<open>Slices\<close>

definition slice_get :: "'a list \<Rightarrow> usize \<Rightarrow> 'a option" where
  "slice_get xs i = (if i < length xs then Some (xs ! i) else None)"

fun position :: "('a \<Rightarrow> bool) \<Rightarrow> 'a list \<Rightarrow> usize option" where
  "position P [] = None"
| "position P (x # xs) = (if P x then Some 0 else map_option Suc (position P xs))"

definition list_swap :: "'a list \<Rightarrow> usize \<Rightarrow> usize \<Rightarrow> 'a list" where
  "list_swap xs i j = xs[i := xs ! j, j := xs ! i]"

fun windows2_any :: "('a \<Rightarrow> 'a \<Rightarrow> bool) \<Rightarrow> 'a list \<Rightarrow> bool" where
  "windows2_any P (x # y # xs) \<longleftrightarrow> P x y \<or> windows2_any P (y # xs)"
| "windows2_any P xs \<longleftrightarrow> False"

text \<open>Collecting an iterator into a \<open>BTreeSet\<close> and listing it.\<close>

definition btree_collect :: "'a::linorder list \<Rightarrow> 'a list" where
  "btree_collect xs = remdups_adj (sort xs)"


section \<open>Lemmas on results\<close>

lemma and_then_Ok_iff [simp]:
  "and_then r f = Inr y \<longleftrightarrow> (\<exists>x. r = Inr x \<and> f x = Inr y)"
  by (cases r) auto

lemma and_then_Err_iff:
  "and_then r f = Inl e \<longleftrightarrow> r = Inl e \<or> (\<exists>x. r = Inr x \<and> f x = Inl e)"
  by (cases r) auto

lemma ok_or_Ok_iff [simp]: "ok_or m e = Inr x \<longleftrightarrow> m = Some x"
  by (cases m) auto

lemma ok_or_Err_iff [simp]: "ok_or m e = Inl e' \<longleftrightarrow> m = None \<and> e' = e"
  by (cases m) auto

lemma if_Err_Ok_iff [simp]:
  "(if c then Inl e else r) = Inr y \<longleftrightarrow> \<not> c \<and> r = Inr y"
  "(if c then r else Inl e) = Inr y \<longleftrightarrow> c \<and> r = Inr y"
  by auto

lemma is_ok_iff: "is_ok r \<longleftrightarrow> (\<exists>x. r = Inr x)"
  by (cases r) (auto simp: is_ok_def)

lemma is_ok_simps [simp]: "is_ok (Inr x)" "\<not> is_ok (Inl e)"
  by (auto simp: is_ok_def)

lemma try_fold_append [simp]:
  "try_fold f s (xs @ ys) = and_then (try_fold f s xs) (\<lambda>s'. try_fold f s' ys)"
proof (induction xs arbitrary: s)
  case (Cons x xs)
  then show ?case by (cases "f s x") auto
qed simp

lemma try_fold_invariant:
  assumes "try_fold f s xs = Inr s'"
    and "I s"
    and "\<And>s x t. x \<in> set xs \<Longrightarrow> I s \<Longrightarrow> f s x = Inr t \<Longrightarrow> I t"
  shows "I s'"
  using assms by (induction xs arbitrary: s) auto

lemma try_fold_unit: "(\<And>x. x \<in> set xs \<Longrightarrow> f () x = Inr ()) \<Longrightarrow> try_fold f () xs = Inr ()"
  by (induction xs) simp_all


section \<open>Lemmas on usize arithmetic\<close>

lemma checked_mul_Some_iff [usize_simps]:
  "checked_mul a b = Some c \<longleftrightarrow> c = a * b \<and> a * b \<le> usize_max"
  by (auto simp: checked_mul_def)

lemma checked_add_Some_iff [usize_simps]:
  "checked_add a b = Some c \<longleftrightarrow> c = a + b \<and> a + b \<le> usize_max"
  by (auto simp: checked_add_def)

lemma checked_mul_None_iff [usize_simps]: "checked_mul a b = None \<longleftrightarrow> usize_max < a * b"
  by (auto simp: checked_mul_def)

lemma checked_add_None_iff [usize_simps]: "checked_add a b = None \<longleftrightarrow> usize_max < a + b"
  by (auto simp: checked_add_def)

lemma unwrap_or_eq: "unwrap_or m d = (case m of None \<Rightarrow> d | Some x \<Rightarrow> x)"
  by (cases m) auto


section \<open>Lemmas on byte strings\<close>

lemma length_le_bytes [simp]: "length (le_bytes n w) = n"
  by (simp add: le_bytes_def)

lemma length_be_bytes [simp]: "length (be_bytes n w) = n"
  by (simp add: be_bytes_def)

lemma le_bytes_inject:
  fixes v w :: "'a::len word"
  assumes "LENGTH('a) = 8 * n"
  shows "le_bytes n v = le_bytes n w \<longleftrightarrow> v = w"
proof
  assume eq: "le_bytes n v = le_bytes n w"
  show "v = w"
  proof (rule bit_word_eqI)
    fix i
    assume "i < LENGTH('a)"
    then have "i div 8 < n" using assms by auto
    then have "(ucast (drop_bit (8 * (i div 8)) v) :: u8) = ucast (drop_bit (8 * (i div 8)) w)"
      using eq by (metis (no_types, lifting) add_0 le_bytes_def length_map length_upt minus_nat.diff_0
          nth_map nth_upt)
    then have "bit (ucast (drop_bit (8 * (i div 8)) v) :: u8) (i mod 8)
      = bit (ucast (drop_bit (8 * (i div 8)) w) :: u8) (i mod 8)"
      by simp
    then show "bit v i = bit w i"
      by (simp add: bit_simps)
  qed
qed simp

lemma be_bytes_inject:
  fixes v w :: "'a::len word"
  assumes "LENGTH('a) = 8 * n"
  shows "be_bytes n v = be_bytes n w \<longleftrightarrow> v = w"
  by (simp add: be_bytes_def le_bytes_inject [OF assms])

lemma u16_to_le_bytes_inject [simp]: "u16_to_le_bytes v = u16_to_le_bytes w \<longleftrightarrow> v = w"
  by (rule le_bytes_inject) simp

lemma u32_to_le_bytes_inject [simp]: "u32_to_le_bytes v = u32_to_le_bytes w \<longleftrightarrow> v = w"
  by (rule le_bytes_inject) simp

lemma u64_to_le_bytes_inject [simp]: "u64_to_le_bytes v = u64_to_le_bytes w \<longleftrightarrow> v = w"
  by (rule le_bytes_inject) simp

lemma length_hash_as_ref [simp]: "length (hash_as_ref h) = 32"
  by (cases h) simp

lemma length_pubkey_as_ref [simp]: "length (pubkey_as_ref k) = 32"
  by (cases k) simp

lemma length_signature_as_ref [simp]: "length (signature_as_ref s) = 64"
  by (cases s) simp

lemma hash_as_ref_inject [simp]: "hash_as_ref a = hash_as_ref b \<longleftrightarrow> a = b"
  by (cases a; cases b) (simp add: be_bytes_inject)

lemma pubkey_as_ref_inject [simp]: "pubkey_as_ref a = pubkey_as_ref b \<longleftrightarrow> a = b"
  by (cases a; cases b) (simp add: be_bytes_inject)

lemma signature_as_ref_inject [simp]: "signature_as_ref a = signature_as_ref b \<longleftrightarrow> a = b"
  by (cases a; cases b) (simp add: be_bytes_inject)


section \<open>Lemmas on slices\<close>

lemma slice_get_Some_iff [simp]: "slice_get xs i = Some x \<longleftrightarrow> i < length xs \<and> xs ! i = x"
  by (auto simp: slice_get_def)

lemma slice_get_None_iff [simp]: "slice_get xs i = None \<longleftrightarrow> length xs \<le> i"
  by (auto simp: slice_get_def)

lemma position_Some:
  "position P xs = Some i \<Longrightarrow> i < length xs \<and> P (xs ! i) \<and> (\<forall>j<i. \<not> P (xs ! j))"
proof (induction xs arbitrary: i)
  case (Cons x xs)
  then show ?case
    by (cases i) (auto split: if_splits simp: nth_Cons split: nat.splits)
qed simp

lemma position_None: "position P xs = None \<longleftrightarrow> (\<forall>x\<in>set xs. \<not> P x)"
  by (induction xs) auto

lemma position_nth:
  assumes "distinct xs" "i < length xs"
  shows "position (\<lambda>y. y = xs ! i) xs = Some i"
proof -
  have "position (\<lambda>y. y = xs ! i) xs \<noteq> None"
    using assms(2) by (auto simp: position_None)
  then obtain j where j: "position (\<lambda>y. y = xs ! i) xs = Some j" by auto
  then have "j < length xs" "xs ! j = xs ! i" by (auto dest: position_Some)
  then show ?thesis using assms j by (simp add: nth_eq_iff_index_eq)
qed

lemma length_list_swap [simp]: "length (list_swap xs i j) = length xs"
  by (simp add: list_swap_def)

lemma mset_list_swap:
  "i < length xs \<Longrightarrow> j < length xs \<Longrightarrow> mset (list_swap xs i j) = mset xs"
  by (simp add: list_swap_def mset_swap)

lemma set_btree_collect [simp]: "set (btree_collect xs) = set xs"
  by (simp add: btree_collect_def)

lemma sorted_btree_collect [simp]: "sorted (btree_collect xs)"
  by (simp add: btree_collect_def sorted_remdups_adj)

lemma distinct_remdups_adj_sorted: "sorted xs \<Longrightarrow> distinct (remdups_adj xs)"
  by (induction xs rule: remdups_adj.induct) (auto simp: order_le_less)

lemma distinct_btree_collect [simp]: "distinct (btree_collect xs)"
  by (simp add: btree_collect_def distinct_remdups_adj_sorted)

lemma length_btree_collect: "length (btree_collect xs) = card (set xs)"
  by (metis distinct_btree_collect distinct_card set_btree_collect)

lemma btree_collect_eq: "btree_collect xs = sorted_list_of_set (set xs)"
  by (rule sorted_distinct_set_unique) simp_all

lemma btree_collect_cong: "set xs = set ys \<Longrightarrow> btree_collect xs = btree_collect ys"
  by (simp add: btree_collect_eq)

lemma sorted_windows2_any:
  fixes f :: "'a \<Rightarrow> 'b::linorder"
  assumes "sorted_wrt (\<lambda>x y. f x \<le> f y) xs"
  shows "windows2_any (\<lambda>x y. f x = f y) xs \<longleftrightarrow> \<not> distinct (map f xs)"
  using assms
proof (induction xs rule: induct_list012)
  case (3 x y xs)
  have "f x \<in> f ` set (y # xs) \<longleftrightarrow> f x = f y"
  proof
    assume "f x \<in> f ` set (y # xs)"
    then obtain z where "z \<in> set (y # xs)" "f x = f z" by blast
    moreover have "f x \<le> f y" "\<forall>z\<in>set xs. f y \<le> f z" using "3.prems" by simp_all
    ultimately show "f x = f y" by (metis order_antisym set_ConsD)
  qed simp
  moreover have "windows2_any (\<lambda>x y. f x = f y) (y # xs) \<longleftrightarrow> \<not> distinct (map f (y # xs))"
    using "3.prems" by (intro "3.IH"(2)) simp
  ultimately show ?case by auto
qed simp_all

end
