(* ===== verification/Actions.thy ===== *)
theory Actions
  imports Prelude
begin

text \<open>
  Operations with an effect: a function from the state to an outcome and the state it leaves behind. An operation
  returns, fails with an error (Rust's \<open>?\<close>, which keeps every change made so far) or panics. The locale
  \<open>progress\<close> collects, for a reflexive and transitive relation, how the combinators keep every run inside the
  relation; it is interpreted for the relations that the components maintain.
\<close>

datatype 'a outcome = Done 'a | Failed BlossomError | Panicked

type_synonym ('s, 'a) action = "'s \<Rightarrow> 'a outcome \<times> 's"

definition ret :: "'a \<Rightarrow> ('s, 'a) action" where
  "ret x s = (Done x, s)"

definition fail :: "BlossomError \<Rightarrow> ('s, 'a) action" where
  "fail e s = (Failed e, s)"

definition panic :: "('s, 'a) action" where
  "panic s = (Panicked, s)"

definition seq :: "('s, 'a) action \<Rightarrow> ('a \<Rightarrow> ('s, 'b) action) \<Rightarrow> ('s, 'b) action" where
  "seq m f s = (case m s of
     (Done x, s') \<Rightarrow> f x s'
   | (Failed e, s') \<Rightarrow> (Failed e, s')
   | (Panicked, s') \<Rightarrow> (Panicked, s'))"

definition asks :: "('s \<Rightarrow> 'a) \<Rightarrow> ('s, 'a) action" where
  "asks f s = (Done (f s), s)"

definition update :: "('s \<Rightarrow> 's) \<Rightarrow> ('s, unit) action" where
  "update f s = (Done (), f s)"

definition lift_result :: "'a result \<Rightarrow> ('s, 'a) action" where
  "lift_result r = (case r of Inl e \<Rightarrow> fail e | Inr x \<Rightarrow> ret x)"

definition ensure :: "bool \<Rightarrow> BlossomError \<Rightarrow> ('s, unit) action" where
  "ensure c e = (if c then ret () else fail e)"

definition expect :: "'a option \<Rightarrow> BlossomError \<Rightarrow> ('s, 'a) action" where
  "expect x e = lift_result (ok_or x e)"

text \<open>An operation that returns a result beside the state it leaves.\<close>

definition run_result :: "('s \<Rightarrow> 'a result \<times> 's) \<Rightarrow> ('s, 'a) action" where
  "run_result f s = (case f s of (Inl e, s') \<Rightarrow> (Failed e, s') | (Inr x, s') \<Rightarrow> (Done x, s'))"

text \<open>A read of the state that may fail.\<close>

definition asks_result :: "('s \<Rightarrow> 'a result) \<Rightarrow> ('s, 'a) action" where
  "asks_result f s = lift_result (f s) s"

text \<open>An operation on a part of the state.\<close>

definition within :: "('t \<Rightarrow> 's) \<Rightarrow> ('s \<Rightarrow> 't \<Rightarrow> 't) \<Rightarrow> ('s, 'a) action \<Rightarrow> ('t, 'a) action" where
  "within part store m t = (case m (part t) of (r, s') \<Rightarrow> (r, store s' t))"

fun each :: "('a \<Rightarrow> ('s, unit) action) \<Rightarrow> 'a list \<Rightarrow> ('s, unit) action" where
  "each f [] = ret ()"
| "each f (x # xs) = seq (f x) (\<lambda>_. each f xs)"

fun traverse :: "('a \<Rightarrow> ('s, 'b) action) \<Rightarrow> 'a list \<Rightarrow> ('s, 'b list) action" where
  "traverse f [] = ret []"
| "traverse f (x # xs) = seq (f x) (\<lambda>y. seq (traverse f xs) (\<lambda>ys. ret (y # ys)))"

text \<open>The result of an operation as a value: an error is handed to the caller.\<close>

definition attempt :: "('s, 'a) action \<Rightarrow> ('s, 'a result) action" where
  "attempt m s = (case m s of
     (Done x, s') \<Rightarrow> (Done (Inr x), s')
   | (Failed e, s') \<Rightarrow> (Done (Inl e), s')
   | (Panicked, s') \<Rightarrow> (Panicked, s'))"


section \<open>Computation\<close>

named_theorems action_simps

lemma action_eqs [action_simps]:
  "ret x s = (Done x, s)" "fail e s = (Failed e, s)" "panic s = (Panicked, s)"
  "asks g s = (Done (g s), s)" "update h s = (Done (), h s)"
  by (simp_all add: ret_def fail_def panic_def asks_def update_def)

lemma seq_eqs [action_simps]:
  "seq (ret x) f = f x" "seq (fail e) f = fail e" "seq panic f = panic"
  "seq (asks g) f s = f (g s) s" "seq (update h) f' s = f' () (h s)"
  by (auto simp: seq_def action_eqs fun_eq_iff)

lemma lift_eqs [action_simps]:
  "lift_result (Inr x) = ret x" "lift_result (Inl e) = fail e" "ensure True e = ret ()" "ensure False e = fail e"
  "expect (Some x) e = ret x" "expect None e = fail e" "asks_result g s = lift_result (g s) s"
  by (simp_all add: lift_result_def ensure_def expect_def asks_result_def)

lemma seq_Done:
  "seq m f s = (Done y, t) \<longleftrightarrow> (\<exists>x s'. m s = (Done x, s') \<and> f x s' = (Done y, t))"
  by (auto simp: seq_def split: prod.splits outcome.splits)

lemma lift_result_Done: "lift_result r s = (Done x, t) \<longleftrightarrow> r = Ok x \<and> t = s"
  by (cases r) (auto simp: action_simps)

lemma ensure_Done: "ensure c e s = (Done x, t) \<longleftrightarrow> c \<and> t = s"
  by (cases c) (auto simp: action_simps)

lemma expect_Done: "expect v e s = (Done x, t) \<longleftrightarrow> v = Some x \<and> t = s"
  by (cases v) (auto simp: action_simps)

lemma ret_Done: "ret x s = (Done y, t) \<longleftrightarrow> y = x \<and> t = s"
  by (auto simp: action_simps)

lemma asks_Done: "asks g s = (Done y, t) \<longleftrightarrow> y = g s \<and> t = s"
  by (auto simp: action_simps)

lemma update_Done: "update h s = (Done y, t) \<longleftrightarrow> t = h s"
  by (auto simp: action_simps)

lemma asks_result_Done: "asks_result g s = (Done x, t) \<longleftrightarrow> g s = Ok x \<and> t = s"
  by (simp add: asks_result_def lift_result_Done)

lemma fail_not_Done: "fail e s \<noteq> (Done x, t)" "panic s \<noteq> (Done x, t)"
  by (simp_all add: action_simps)

lemma within_Done:
  "within part store m s = (Done x, t) \<longleftrightarrow> (\<exists>s'. m (part s) = (Done x, s') \<and> t = store s' s)"
  by (auto simp: within_def split: prod.splits)

lemma attempt_Done:
  "attempt m s = (Done r, t) \<longleftrightarrow> (\<exists>x. m s = (Done x, t) \<and> r = Inr x) \<or> (\<exists>e. m s = (Failed e, t) \<and> r = Inl e)"
  by (auto simp: attempt_def split: prod.splits outcome.splits)

lemmas Done_simps = seq_Done lift_result_Done ensure_Done expect_Done ret_Done asks_Done update_Done asks_result_Done
  fail_not_Done within_Done attempt_Done


section \<open>Runs inside a relation\<close>

text \<open>From every state with \<open>P\<close>, an operation leads to a state that \<open>R\<close> relates to it, whatever the outcome.\<close>

definition runs_in :: "('s \<Rightarrow> bool) \<Rightarrow> ('s \<Rightarrow> 's \<Rightarrow> bool) \<Rightarrow> ('s, 'a) action \<Rightarrow> bool" where
  "runs_in P R m \<longleftrightarrow> (\<forall>s. P s \<longrightarrow> R s (snd (m s)))"

lemma runs_inD: "runs_in P R m \<Longrightarrow> P s \<Longrightarrow> m s = (r, t) \<Longrightarrow> R s t"
  unfolding runs_in_def by (metis snd_conv)

lemma runs_inI: "(\<And>s r t. P s \<Longrightarrow> m s = (r, t) \<Longrightarrow> R s t) \<Longrightarrow> runs_in P R m"
  unfolding runs_in_def by (metis prod.collapse)

lemma runs_in_within:
  assumes "runs_in Q S m" "\<And>t. P t \<Longrightarrow> Q (part t)" "\<And>t s'. P t \<Longrightarrow> S (part t) s' \<Longrightarrow> R t (store s' t)"
  shows "runs_in P R (within part store m)"
proof (rule runs_inI)
  fix t r u
  assume P: "P t" and "within part store m t = (r, u)"
  then obtain s' where "m (part t) = (r, s')" "u = store s' t" by (auto simp: within_def split: prod.splits)
  then show "R t u" using runs_inD [OF assms(1) assms(2) [OF P]] assms(3) [OF P] by blast
qed

lemma runs_in_mono: "runs_in P R m \<Longrightarrow> (\<And>s t. R s t \<Longrightarrow> S s t) \<Longrightarrow> runs_in P S m"
  by (auto simp: runs_in_def)

locale progress =
  fixes P :: "'s \<Rightarrow> bool" and R :: "'s \<Rightarrow> 's \<Rightarrow> bool"
  assumes refl: "R s s"
    and trans: "R s t \<Longrightarrow> R t u \<Longrightarrow> R s u"
    and stable: "P s \<Longrightarrow> R s t \<Longrightarrow> P t"
begin

lemma runs_ret: "runs_in P R (ret x)"
  by (simp add: runs_in_def action_simps refl)

lemma runs_fail: "runs_in P R (fail e)"
  by (simp add: runs_in_def action_simps refl)

lemma runs_panic: "runs_in P R panic"
  by (simp add: runs_in_def action_simps refl)

lemma runs_asks: "runs_in P R (asks g)"
  by (simp add: runs_in_def action_simps refl)

lemma runs_lift: "runs_in P R (lift_result r)"
  by (cases r) (simp_all add: action_simps runs_ret runs_fail)

lemma runs_ensure: "runs_in P R (ensure c e)"
  by (simp add: ensure_def runs_ret runs_fail)

lemma runs_expect: "runs_in P R (expect v e)"
  by (simp add: expect_def runs_lift)

lemma runs_asks_result: "runs_in P R (asks_result g)"
  using runs_lift by (auto simp: runs_in_def asks_result_def)

lemma runs_update: "(\<And>s. P s \<Longrightarrow> R s (h s)) \<Longrightarrow> runs_in P R (update h)"
  by (simp add: runs_in_def action_simps)

lemma runs_run_result: "(\<And>s. P s \<Longrightarrow> R s (snd (h s))) \<Longrightarrow> runs_in P R (run_result h)"
  by (rule runs_inI) (force simp: run_result_def split: prod.splits sum.splits)

lemma runs_seq:
  assumes "runs_in P R m" "\<And>s x t. P s \<Longrightarrow> m s = (Done x, t) \<Longrightarrow> runs_in P R (f x)"
  shows "runs_in P R (seq m f)"
proof (rule runs_inI)
  fix s r t
  assume P: "P s" and run: "seq m f s = (r, t)"
  obtain o' s' where m: "m s = (o', s')" by (cases "m s")
  then have step: "R s s'" using runs_inD [OF assms(1) P] by blast
  then have P': "P s'" using P stable by blast
  have "R s' t"
  proof (cases o')
    case (Done x)
    then show ?thesis using run m runs_inD [OF assms(2) P'] P by (auto simp: seq_def)
  qed (use run m refl in \<open>auto simp: seq_def\<close>)
  with step show "R s t" by (rule trans)
qed

lemma runs_each: "(\<And>x. x \<in> set xs \<Longrightarrow> runs_in P R (f x)) \<Longrightarrow> runs_in P R (each f xs)"
  by (induction xs) (simp_all add: runs_ret runs_seq)

lemma runs_traverse: "(\<And>x. x \<in> set xs \<Longrightarrow> runs_in P R (f x)) \<Longrightarrow> runs_in P R (traverse f xs)"
  by (induction xs) (simp_all add: runs_ret runs_seq)

lemma runs_attempt: "runs_in P R m \<Longrightarrow> runs_in P R (attempt m)"
  by (rule runs_inI) (auto simp: attempt_def dest: runs_inD split: prod.splits outcome.splits)

lemma runs_if: "(c \<Longrightarrow> runs_in P R m) \<Longrightarrow> (\<not> c \<Longrightarrow> runs_in P R m') \<Longrightarrow> runs_in P R (if c then m else m')"
  by simp

lemma runs_case_option:
  "(x = None \<Longrightarrow> runs_in P R m) \<Longrightarrow> (\<And>y. x = Some y \<Longrightarrow> runs_in P R (f y)) \<Longrightarrow> runs_in P R (case x of None \<Rightarrow> m | Some y \<Rightarrow> f y)"
  by (cases x) simp_all

lemma runs_case_prod: "(\<And>a b. x = (a, b) \<Longrightarrow> runs_in P R (f a b)) \<Longrightarrow> runs_in P R (case x of (a, b) \<Rightarrow> f a b)"
  by (cases x) simp

lemma runs_let: "(\<And>x. x = e \<Longrightarrow> runs_in P R (f x)) \<Longrightarrow> runs_in P R (Let e f)"
  by simp

lemmas runs_intros = runs_ret runs_fail runs_panic runs_asks runs_lift runs_ensure runs_expect runs_asks_result runs_seq
  runs_each runs_traverse runs_attempt runs_if runs_case_option runs_case_prod runs_let

end

end
