(* ===== verification/BTree.thy ===== *)
theory BTree
  imports Prelude
begin

text \<open>
  The ordered maps of the program. \<open>btree_map\<close> models \<open>std::collections::BTreeMap\<close> (and,
  with unit values, \<open>BTreeSet\<close>): a finite map whose iteration is in key order, kept as
  the strictly sorted list of its entries, so that two maps with the same entries are
  equal. \<open>index_tree_ops\<close> is the interface of the third-party \<open>IndexTreeMap\<close>, a parameter
  of every definition that uses one; its documented behaviour (an ordered map whose keys
  also have positions) is the locale \<open>index_tree\<close>.
\<close>

section \<open>Ordered association lists\<close>

fun upd_entry :: "'k::linorder \<Rightarrow> 'v \<Rightarrow> ('k \<times> 'v) list \<Rightarrow> ('k \<times> 'v) list" where
  "upd_entry k v [] = [(k, v)]"
| "upd_entry k v ((k', v') # es) =
    (if k < k' then (k, v) # (k', v') # es
     else if k = k' then (k, v) # es
     else (k', v') # upd_entry k v es)"

definition del_entry :: "'k \<Rightarrow> ('k \<times> 'v) list \<Rightarrow> ('k \<times> 'v) list" where
  "del_entry k es = filter (\<lambda>e. fst e \<noteq> k) es"

abbreviation sorted_entries :: "('k::linorder \<times> 'v) list \<Rightarrow> bool" where
  "sorted_entries es \<equiv> sorted_wrt (<) (map fst es)"

lemma set_map_fst_upd_entry [simp]:
  "fst ` set (upd_entry k v es) = insert k (fst ` set es)"
  by (induction k v es rule: upd_entry.induct) auto

lemma sorted_upd_entry: "sorted_entries es \<Longrightarrow> sorted_entries (upd_entry k v es)"
proof (induction es)
  case (Cons e es)
  obtain k' v' where e: "e = (k', v')" by (cases e)
  have "\<forall>x\<in>fst ` set (upd_entry k v es). k' < x" if "k' < k"
    using Cons.prems that by (auto simp: e)
  with Cons show ?case by (auto simp: e)
qed simp

lemma sorted_filter_entries: "sorted_entries es \<Longrightarrow> sorted_entries (filter P es)"
  by (induction es) auto

lemma map_of_upd_entry: "sorted_entries es \<Longrightarrow> map_of (upd_entry k v es) = (map_of es)(k \<mapsto> v)"
  by (induction es) (auto simp: fun_eq_iff)

lemma map_of_filter_entries:
  assumes "sorted_entries es"
  shows "map_of (filter P es) k =
    (case map_of es k of None \<Rightarrow> None | Some v \<Rightarrow> if P (k, v) then Some v else None)"
  using assms
proof (induction es)
  case (Cons e es)
  have "map_of es (fst e) = None"
    using Cons.prems by (auto simp: map_of_eq_None_iff)
  with Cons show ?case by (auto split: option.splits)
qed simp

lemma sorted_entries_distinct: "sorted_entries es \<Longrightarrow> distinct (map fst es)"
  by (simp add: strict_sorted_iff)


section \<open>BTreeMap\<close>

typedef (overloaded) ('k::linorder, 'v) btree_map =
  "{es :: ('k \<times> 'v) list. sorted_entries es}"
  morphisms bm_entries Abs_btree_map
  by (rule exI [of _ "[]"]) simp

setup_lifting type_definition_btree_map

type_synonym 'k btree_set = "('k, unit) btree_map"

lift_definition bm_empty :: "('k::linorder, 'v) btree_map" is "[]" by simp

lift_definition bm_insert :: "'k::linorder \<Rightarrow> 'v \<Rightarrow> ('k, 'v) btree_map \<Rightarrow> ('k, 'v) btree_map"
  is upd_entry by (rule sorted_upd_entry)

lift_definition bm_remove :: "'k::linorder \<Rightarrow> ('k, 'v) btree_map \<Rightarrow> ('k, 'v) btree_map"
  is del_entry by (simp add: del_entry_def sorted_filter_entries)

lift_definition bm_retain ::
  "('k::linorder \<Rightarrow> 'v \<Rightarrow> bool) \<Rightarrow> ('k, 'v) btree_map \<Rightarrow> ('k, 'v) btree_map"
  is "\<lambda>P. filter (\<lambda>e. P (fst e) (snd e))" by (rule sorted_filter_entries)

lift_definition bm_map :: "('k::linorder \<Rightarrow> 'v \<Rightarrow> 'w) \<Rightarrow> ('k, 'v) btree_map \<Rightarrow> ('k, 'w) btree_map"
  is "\<lambda>f. map (\<lambda>e. (fst e, f (fst e) (snd e)))" by (simp add: comp_def)

definition bm_get :: "('k::linorder, 'v) btree_map \<Rightarrow> 'k \<Rightarrow> 'v option" where
  "bm_get m = map_of (bm_entries m)"

definition bm_keys :: "('k::linorder, 'v) btree_map \<Rightarrow> 'k list" where
  "bm_keys m = map fst (bm_entries m)"

definition bm_values :: "('k::linorder, 'v) btree_map \<Rightarrow> 'v list" where
  "bm_values m = map snd (bm_entries m)"

definition bm_len :: "('k::linorder, 'v) btree_map \<Rightarrow> usize" where
  "bm_len m = length (bm_entries m)"

definition bm_contains :: "('k::linorder, 'v) btree_map \<Rightarrow> 'k \<Rightarrow> bool" where
  "bm_contains m k \<longleftrightarrow> bm_get m k \<noteq> None"

definition bm_is_empty :: "('k::linorder, 'v) btree_map \<Rightarrow> bool" where
  "bm_is_empty m \<longleftrightarrow> bm_entries m = []"

definition bm_of_list :: "('k::linorder \<times> 'v) list \<Rightarrow> ('k, 'v) btree_map" where
  "bm_of_list es = fold (\<lambda>(k, v). bm_insert k v) es bm_empty"

definition bs_of_list :: "'k::linorder list \<Rightarrow> 'k btree_set" where
  "bs_of_list ks = fold (\<lambda>k. bm_insert k ()) ks bm_empty"

text \<open>\<open>entry(k).or_default()\<close> followed by an update of the slot.\<close>

definition bm_entry_update ::
  "'k::linorder \<Rightarrow> 'v \<Rightarrow> ('v \<Rightarrow> 'v) \<Rightarrow> ('k, 'v) btree_map \<Rightarrow> ('k, 'v) btree_map" where
  "bm_entry_update k d f m = bm_insert k (f (unwrap_or (bm_get m k) d)) m"

lemma bm_entries_empty [simp, eval_simps]: "bm_entries bm_empty = []"
  by transfer simp

lemma bm_entries_insert [eval_simps]: "bm_entries (bm_insert k v m) = upd_entry k v (bm_entries m)"
  by transfer simp

lemma bm_entries_remove [eval_simps]: "bm_entries (bm_remove k m) = del_entry k (bm_entries m)"
  by transfer simp

lemma bm_entries_retain [eval_simps]:
  "bm_entries (bm_retain P m) = filter (\<lambda>e. P (fst e) (snd e)) (bm_entries m)"
  by transfer simp

lemma bm_entries_map [eval_simps]:
  "bm_entries (bm_map f m) = map (\<lambda>e. (fst e, f (fst e) (snd e))) (bm_entries m)"
  by transfer simp

lemma sorted_bm_entries [simp]: "sorted_entries (bm_entries m)"
  by transfer simp

lemma bm_entries_inject: "bm_entries m = bm_entries m' \<longleftrightarrow> m = m'"
  by (rule bm_entries_inject)

lemma entry_eq: "(\<lambda>e e'. fst e \<le> fst e' \<and> fst e' \<le> fst e \<and> snd e = snd e') = ((=) :: ('k::linorder \<times> 'v) \<Rightarrow> _)"
  by (auto simp: fun_eq_iff prod_eq_iff)

instantiation btree_map :: (linorder, equal) equal
begin
definition equal_btree_map :: "('a, 'b) btree_map \<Rightarrow> ('a, 'b) btree_map \<Rightarrow> bool" where
  "equal_btree_map m m' \<longleftrightarrow> list_all2 (\<lambda>e e'. fst e \<le> fst e' \<and> fst e' \<le> fst e \<and> snd e = snd e') (bm_entries m) (bm_entries m')"
instance by standard (simp add: equal_btree_map_def entry_eq list.rel_eq bm_entries_inject)
end

lemma bm_get_empty [simp]: "bm_get bm_empty k = None"
  by (simp add: bm_get_def)

lemma bm_get_insert [simp]: "bm_get (bm_insert k v m) = (bm_get m)(k \<mapsto> v)"
  by (simp add: bm_get_def bm_entries_insert map_of_upd_entry)

lemma bm_get_remove [simp]: "bm_get (bm_remove k m) = (bm_get m)(k := None)"
  by (auto simp: bm_get_def bm_entries_remove del_entry_def map_of_filter_entries fun_eq_iff
      split: option.splits)

lemma bm_get_retain [simp]:
  "bm_get (bm_retain P m) k =
    (case bm_get m k of None \<Rightarrow> None | Some v \<Rightarrow> if P k v then Some v else None)"
  by (simp add: bm_get_def bm_entries_retain map_of_filter_entries split: option.splits)

lemma bm_get_map [simp]: "bm_get (bm_map f m) k = map_option (f k) (bm_get m k)"
proof -
  have "map_of (map (\<lambda>e. (fst e, f (fst e) (snd e))) es) k = map_option (f k) (map_of es k)" for es
    by (induction es) auto
  then show ?thesis by (simp add: bm_get_def bm_entries_map)
qed

lemma bm_get_Some_iff: "bm_get m k = Some v \<longleftrightarrow> (k, v) \<in> set (bm_entries m)"
  by (simp add: bm_get_def sorted_entries_distinct)

lemma set_bm_keys: "set (bm_keys m) = dom (bm_get m)"
  by (simp add: bm_keys_def bm_get_def dom_map_of_conv_image_fst)

lemma bm_keys_contains: "k \<in> set (bm_keys m) \<longleftrightarrow> bm_contains m k"
  by (auto simp: set_bm_keys bm_contains_def)

lemma sorted_bm_keys [simp]: "sorted_wrt (<) (bm_keys m)"
  by (simp add: bm_keys_def)

lemma distinct_bm_keys [simp]: "distinct (bm_keys m)"
  using sorted_bm_keys strict_sorted_iff by blast

lemma finite_dom_bm_get [simp]: "finite (dom (bm_get m))"
  by (simp add: set_bm_keys [symmetric])

lemma bm_len_card: "bm_len m = card (dom (bm_get m))"
  by (metis bm_keys_def bm_len_def distinct_bm_keys distinct_card length_map set_bm_keys)

lemma bm_entries_of_get: "bm_entries m = map (\<lambda>k. (k, the (bm_get m k))) (bm_keys m)"
proof -
  have "map (\<lambda>e. (fst e, the (bm_get m (fst e)))) (bm_entries m) = bm_entries m"
  proof (rule map_idI)
    fix e
    assume "e \<in> set (bm_entries m)"
    then have "bm_get m (fst e) = Some (snd e)" by (simp add: bm_get_Some_iff)
    then show "(fst e, the (bm_get m (fst e))) = e" by simp
  qed
  then show ?thesis by (simp add: bm_keys_def comp_def)
qed

lemma bm_eqI:
  assumes "\<And>k. bm_get m k = bm_get m' k"
  shows "m = m'"
proof -
  have get: "bm_get m = bm_get m'" using assms by (rule ext)
  then have "set (bm_keys m) = set (bm_keys m')" by (simp add: set_bm_keys)
  then have "bm_keys m = bm_keys m'"
    by (intro sorted_distinct_set_unique) (simp_all add: strict_sorted_imp_sorted)
  then have "bm_entries m = bm_entries m'"
    using bm_entries_of_get [of m] bm_entries_of_get [of m'] get by simp
  then show ?thesis by (simp add: bm_entries_inject)
qed

lemma btree_set_eqI:
  fixes a b :: "'k::linorder btree_set"
  assumes "bm_keys a = bm_keys b"
  shows "a = b"
  using assms by (intro bm_eqI) (metis (full_types) bm_contains_def bm_keys_contains not_None_eq old.unit.exhaust)

lemma bm_contains_insert [simp]: "bm_contains (bm_insert k v m) k' \<longleftrightarrow> k' = k \<or> bm_contains m k'"
  by (auto simp: bm_contains_def)

lemma bm_contains_remove [simp]: "bm_contains (bm_remove k m) k' \<longleftrightarrow> k' \<noteq> k \<and> bm_contains m k'"
  by (auto simp: bm_contains_def)

lemma bm_contains_empty [simp]: "\<not> bm_contains bm_empty k"
  by (simp add: bm_contains_def)

lemma bm_get_of_list: "bm_get (bm_of_list es) k = map_of (rev es) k"
proof -
  have "bm_get (fold (\<lambda>(k, v). bm_insert k v) es m) k =
    (case map_of (rev es) k of None \<Rightarrow> bm_get m k | Some v \<Rightarrow> Some v)" for m
    by (induction es arbitrary: m) (auto simp: map_add_def split: option.splits)
  then show ?thesis by (simp add: bm_of_list_def split: option.splits)
qed

lemma bs_of_list_fold_contains:
  "bm_contains (fold (\<lambda>k. bm_insert k ()) ks m) k \<longleftrightarrow> k \<in> set ks \<or> bm_contains m k"
  by (induction ks arbitrary: m) auto

lemma bs_of_list_contains [simp]: "bm_contains (bs_of_list ks) k \<longleftrightarrow> k \<in> set ks"
  by (simp add: bs_of_list_def bs_of_list_fold_contains)

lemma dom_bs_of_list [simp]: "dom (bm_get (bs_of_list ks)) = set ks"
  by (auto simp: set_bm_keys [symmetric] bm_keys_contains)

lemma bm_len_bs_of_list: "bm_len (bs_of_list ks) = card (set ks)"
  by (simp add: bm_len_card)

lemma bm_len_insert: "bm_len (bm_insert k v m) = (if bm_contains m k then bm_len m else Suc (bm_len m))"
  by (auto simp: bm_len_card bm_contains_def insert_absorb domI card_insert_if)

lemma bm_is_empty_iff: "bm_is_empty m \<longleftrightarrow> bm_len m = 0"
  by (simp add: bm_is_empty_def bm_len_def)

lemmas bm_eval = bm_get_def bm_keys_def bm_values_def bm_len_def bm_contains_def bm_is_empty_def
  bm_of_list_def bs_of_list_def del_entry_def


section \<open>IndexTreeMap\<close>

record ('m, 'k, 'v) index_tree_ops =
  it_new :: 'm
  it_insert :: "'k \<Rightarrow> 'v \<Rightarrow> 'm \<Rightarrow> 'm"
  it_remove :: "'k \<Rightarrow> 'm \<Rightarrow> 'm"
  it_entries :: "'m \<Rightarrow> ('k \<times> 'v) list"
  it_get :: "'m \<Rightarrow> 'k \<Rightarrow> 'v option"
  it_len :: "'m \<Rightarrow> usize"
  it_get_index_from_key :: "'m \<Rightarrow> 'k \<Rightarrow> usize option"
  it_get_key_from_index :: "'m \<Rightarrow> usize \<Rightarrow> 'k option"

definition it_keys :: "('m, 'k, 'v) index_tree_ops \<Rightarrow> 'm \<Rightarrow> 'k list" where
  "it_keys T m = map fst (it_entries T m)"

definition it_values :: "('m, 'k, 'v) index_tree_ops \<Rightarrow> 'm \<Rightarrow> 'v list" where
  "it_values T m = map snd (it_entries T m)"

definition it_contains_key :: "('m, 'k, 'v) index_tree_ops \<Rightarrow> 'm \<Rightarrow> 'k \<Rightarrow> bool" where
  "it_contains_key T m k \<longleftrightarrow> it_get T m k \<noteq> None"

locale index_tree =
  fixes T :: "('m, 'k::linorder, 'v) index_tree_ops"
  assumes entries_sorted: "sorted_entries (it_entries T m)"
    and entries_new: "it_entries T (it_new T) = []"
    and get_insert: "it_get T (it_insert T k v m) = (it_get T m)(k \<mapsto> v)"
    and get_remove: "it_get T (it_remove T k m) = (it_get T m)(k := None)"
    and get_entries: "it_get T m k = map_of (it_entries T m) k"
    and len_entries: "it_len T m = length (it_entries T m)"
    and index_from_key: "it_get_index_from_key T m k = position (\<lambda>k'. k' = k) (it_keys T m)"
    and key_from_index: "it_get_key_from_index T m i = slice_get (it_keys T m) i"
begin

lemma keys_sorted: "sorted_wrt (<) (it_keys T m)"
  using entries_sorted by (simp add: it_keys_def)

lemma keys_distinct: "distinct (it_keys T m)"
  using keys_sorted strict_sorted_iff by blast

lemma len_keys: "it_len T m = length (it_keys T m)"
  by (simp add: len_entries it_keys_def)

lemma dom_get: "dom (it_get T m) = set (it_keys T m)"
proof -
  have "it_get T m = map_of (it_entries T m)" by (rule ext) (rule get_entries)
  then show ?thesis by (simp add: it_keys_def dom_map_of_conv_image_fst)
qed

lemma contains_key: "it_contains_key T m k \<longleftrightarrow> k \<in> set (it_keys T m)"
  by (auto simp: it_contains_key_def dom_get [symmetric])

lemma get_new: "it_get T (it_new T) k = None"
  by (simp add: get_entries entries_new)

lemma keys_of_inserts:
  "set (it_keys T (fold (\<lambda>k. it_insert T k (f k)) ks m)) = set ks \<union> set (it_keys T m)"
proof (induction ks arbitrary: m)
  case (Cons k ks)
  have "set (it_keys T (it_insert T k (f k) m)) = insert k (set (it_keys T m))"
    by (simp add: dom_get [symmetric] get_insert)
  with Cons show ?case by simp
qed simp

lemma keys_eqI:
  assumes "set (it_keys T m) = set (it_keys T m')"
  shows "it_keys T m = it_keys T m'"
  using keys_sorted [of m] keys_sorted [of m'] assms
  by (intro sorted_distinct_set_unique) (simp_all add: strict_sorted_iff)

lemma keys_collect: "it_keys T m = btree_collect (it_keys T m)"
  using keys_sorted [of m]
  by (intro sorted_distinct_set_unique) (simp_all add: strict_sorted_iff)

end

text \<open>The ordered map with positions given by the sorted entries themselves.\<close>

definition btree_index_tree :: "(('k::linorder, 'v) btree_map, 'k, 'v) index_tree_ops" where
  "btree_index_tree = \<lparr>
     it_new = bm_empty,
     it_insert = bm_insert,
     it_remove = bm_remove,
     it_entries = bm_entries,
     it_get = bm_get,
     it_len = bm_len,
     it_get_index_from_key = (\<lambda>m k. position (\<lambda>k'. k' = k) (bm_keys m)),
     it_get_key_from_index = (\<lambda>m i. slice_get (bm_keys m) i)\<rparr>"

lemma btree_index_tree_simps [simp, eval_simps]:
  "it_new btree_index_tree = bm_empty"
  "it_insert btree_index_tree = bm_insert"
  "it_remove btree_index_tree = bm_remove"
  "it_entries btree_index_tree = bm_entries"
  "it_get btree_index_tree = bm_get"
  "it_len btree_index_tree = bm_len"
  "it_keys btree_index_tree = bm_keys"
  "it_values btree_index_tree = bm_values"
  "it_get_index_from_key btree_index_tree m k = position (\<lambda>k'. k' = k) (bm_keys m)"
  "it_get_key_from_index btree_index_tree m i = slice_get (bm_keys m) i"
  by (simp_all add: btree_index_tree_def it_keys_def bm_keys_def it_values_def bm_values_def fun_eq_iff)

lemma btree_index_tree_laws: "index_tree btree_index_tree"
  by unfold_locales (simp_all, simp_all add: bm_get_def bm_len_def)

interpretation bt: index_tree btree_index_tree
  by (rule btree_index_tree_laws)

end
