(* ===== verification/Voting.thy ===== *)
theory Voting
  imports Prelude
begin

text \<open>
  The contract every vote-counting component relies on: an acceptance rule on sets of
  voters such that any two accepted sets share more voters than the rule tolerates as
  faulty. The lemmas of the locale are what the certificate and agreement proofs use; the
  threshold functions of \<open>algorithm.rs\<close> and \<open>high_availability/parameters.rs\<close> are its two
  interpretations.
\<close>

locale quorum_system =
  fixes members :: "'v set"
    and quorum :: "'v set \<Rightarrow> bool"
    and fault_bound :: nat
  assumes finite_members: "finite members"
    and quorum_members: "quorum S \<Longrightarrow> S \<subseteq> members"
    and quorum_overlap: "quorum S \<Longrightarrow> quorum S' \<Longrightarrow> fault_bound < card (S \<inter> S')"
begin

lemma honest_overlap:
  assumes "quorum S" "quorum S'" "F \<subseteq> members" "card F \<le> fault_bound"
  shows "\<exists>v \<in> S \<inter> S'. v \<notin> F"
proof (rule ccontr)
  assume "\<not> ?thesis"
  then have "S \<inter> S' \<subseteq> F" by blast
  then have "card (S \<inter> S') \<le> card F"
    using assms(3) finite_members by (meson card_mono finite_subset)
  with quorum_overlap [OF assms(1,2)] assms(4) show False by simp
qed

lemma quorum_nonempty: "quorum S \<Longrightarrow> S \<noteq> {}"
  using quorum_overlap [of S S] by auto

text \<open>Two values each supported by an accepted set are equal when the voters outside a
  tolerated set of faulty ones support at most one value.\<close>

lemma agreement:
  assumes "quorum S" "quorum S'"
    and "\<And>v. v \<in> S \<Longrightarrow> supports v a" "\<And>v. v \<in> S' \<Longrightarrow> supports v b"
    and "F \<subseteq> members" "card F \<le> fault_bound"
    and "\<And>v x y. v \<in> members - F \<Longrightarrow> supports v x \<Longrightarrow> supports v y \<Longrightarrow> x = y"
  shows "a = b"
proof -
  obtain v where "v \<in> S" "v \<in> S'" "v \<notin> F"
    using honest_overlap [OF assms(1,2,5,6)] by blast
  moreover have "v \<in> members" using \<open>v \<in> S\<close> quorum_members [OF assms(1)] by blast
  ultimately show ?thesis using assms(3,4,7) by blast
qed

end

lemma card_Int_lower_bound:
  assumes "finite M" "S \<subseteq> M" "S' \<subseteq> M"
  shows "card S + card S' \<le> card M + card (S \<inter> S')"
proof -
  have "card S + card S' = card (S \<union> S') + card (S \<inter> S')"
    using assms by (intro card_Un_Int) (auto intro: finite_subset)
  moreover have "card (S \<union> S') \<le> card M" using assms by (intro card_mono) auto
  ultimately show ?thesis by simp
qed

end
