(* ===== verification/Algorithm.thy ===== *)
theory Algorithm
  imports BTree Voting "HOL-Library.While_Combinator"
begin

text \<open>
  \<open>src/src/algorithm.rs\<close>: the quorum size and the committed consensus parameters, the
  selection of a node's quorums for every round of an epoch, the deterministic shuffle,
  and the supermajority thresholds. This theory holds the definitions and the threshold
  results; the topology of the selected quorums is studied in \<open>AlgorithmTopology\<close>.
\<close>

section \<open>Quorum size and consensus parameters\<close>

text \<open>The private field of \<open>QuorumSize\<close> only takes the values its constructor admits.\<close>

typedef QuorumSize = "{n :: usize. 3 \<le> n \<and> n mod 3 = 0}"
  morphisms quorum_get Abs_QuorumSize
  by (rule exI [of _ 3]) simp

definition QuorumSize_new :: "usize \<Rightarrow> QuorumSize result" where
  "QuorumSize_new value =
    (if value \<ge> 3 \<and> value mod 3 = 0 then Ok (Abs_QuorumSize value)
     else Err (InvalidQuorumSize value))"

definition QuorumSize_DEFAULT :: QuorumSize where
  "QuorumSize_DEFAULT = Abs_QuorumSize 6"

text \<open>The type is computable: its values are compared by their size and built from admitted sizes.\<close>

instantiation QuorumSize :: equal
begin

definition equal_QuorumSize :: "QuorumSize \<Rightarrow> QuorumSize \<Rightarrow> bool" where
  "equal_QuorumSize q q' \<longleftrightarrow> quorum_get q = quorum_get q'"

instance
  by standard (simp add: equal_QuorumSize_def quorum_get_inject)

end

setup_lifting type_definition_QuorumSize

lift_definition admitted_size :: "usize \<Rightarrow> QuorumSize" is "\<lambda>n. if 3 \<le> n \<and> n mod 3 = 0 then n else 3"
  by auto

lemma Abs_admitted: "3 \<le> n \<Longrightarrow> n mod 3 = 0 \<Longrightarrow> Abs_QuorumSize n = admitted_size n"
  by (simp add: admitted_size_def)

lemma QuorumSize_new_code [code]:
  "QuorumSize_new n = (if n \<ge> 3 \<and> n mod 3 = 0 then Ok (admitted_size n) else Err (InvalidQuorumSize n))"
  by (simp add: QuorumSize_new_def Abs_admitted)

lemma QuorumSize_DEFAULT_code [code]: "QuorumSize_DEFAULT = admitted_size 6"
  by (simp add: QuorumSize_DEFAULT_def Abs_admitted)

definition effective :: "QuorumSize \<Rightarrow> usize \<Rightarrow> usize" where
  "effective q validator_count = min (quorum_get q) validator_count"

definition digit_value :: "char \<Rightarrow> nat option" where
  "digit_value c =
    (if of_char c \<ge> (48 :: nat) \<and> of_char c \<le> (57 :: nat) then Some (of_char c - 48) else None)"

fun parse_digits :: "nat \<Rightarrow> string \<Rightarrow> usize option" where
  "parse_digits acc [] = Some acc"
| "parse_digits acc (c # cs) =
    (case digit_value c of
       None \<Rightarrow> None
     | Some d \<Rightarrow> if acc * 10 + d \<le> usize_max then parse_digits (acc * 10 + d) cs else None)"

text \<open>\<open>str::parse::<usize>\<close>: decimal digits after an optional plus sign.\<close>

definition parse_usize :: "string \<Rightarrow> usize option" where
  "parse_usize s =
    (case s of
       [] \<Rightarrow> None
     | c # cs \<Rightarrow>
         if cs = [] \<and> (c = CHR ''+'' \<or> c = CHR ''-'') then None
         else if c = CHR ''+'' then parse_digits 0 cs
         else parse_digits 0 (c # cs))"

definition QuorumSize_from_str :: "string \<Rightarrow> QuorumSize result" where
  "QuorumSize_from_str value =
    (case parse_usize value of
       None \<Rightarrow> Err InvalidConfiguration
     | Some parsed \<Rightarrow> QuorumSize_new parsed)"

definition resolve_startup :: "string option \<Rightarrow> string option \<Rightarrow> QuorumSize result" where
  "resolve_startup cli environment =
    (case (case cli of Some v \<Rightarrow> Some v | None \<Rightarrow> environment) of
       None \<Rightarrow> Ok QuorumSize_DEFAULT
     | Some v \<Rightarrow> QuorumSize_from_str v)"

record ConsensusParameters =
  cp_version :: u16
  cp_quorum_size :: QuorumSize

definition CONSENSUS_PARAMETERS_VERSION :: u16 where
  "CONSENSUS_PARAMETERS_VERSION = 1"

definition CONSENSUS_PARAMETERS_HASH_DOMAIN :: bytes where
  "CONSENSUS_PARAMETERS_HASH_DOMAIN = string_bytes ''blossom/consensus-parameters/v1''"

definition ConsensusParameters_new :: "QuorumSize \<Rightarrow> ConsensusParameters" where
  "ConsensusParameters_new q = \<lparr>cp_version = CONSENSUS_PARAMETERS_VERSION, cp_quorum_size = q\<rparr>"

definition ConsensusParameters_default :: ConsensusParameters where
  "ConsensusParameters_default = ConsensusParameters_new QuorumSize_DEFAULT"

definition ConsensusParameters_validate :: "ConsensusParameters \<Rightarrow> unit result" where
  "ConsensusParameters_validate p =
    (if cp_version p \<noteq> CONSENSUS_PARAMETERS_VERSION then Err InvalidConfiguration
     else and_then (QuorumSize_new (quorum_get (cp_quorum_size p))) (\<lambda>_. Ok ()))"

text \<open>SHA-256 is a parameter: the function from byte strings to digests.\<close>

type_synonym hasher = "bytes \<Rightarrow> HashType"

definition ConsensusParameters_hash :: "hasher \<Rightarrow> ConsensusParameters \<Rightarrow> HashType" where
  "ConsensusParameters_hash sha256 p =
    sha256 (CONSENSUS_PARAMETERS_HASH_DOMAIN
      @ u16_to_le_bytes (cp_version p)
      @ u64_to_le_bytes (u64_of_usize (quorum_get (cp_quorum_size p))))"


section \<open>Rounds of a network\<close>

fun checked_pow_loop :: "usize \<Rightarrow> nat \<Rightarrow> usize \<Rightarrow> usize option" where
  "checked_pow_loop base 0 value = Some value"
| "checked_pow_loop base (Suc e) value =
    (case checked_mul value base of None \<Rightarrow> None | Some v \<Rightarrow> checked_pow_loop base e v)"

definition checked_pow :: "usize \<Rightarrow> usize \<Rightarrow> usize option" where
  "checked_pow base exponent = checked_pow_loop base exponent 1"

definition round_loop_cond :: "usize \<Rightarrow> usize \<Rightarrow> usize \<times> usize \<Rightarrow> bool" where
  "round_loop_cond network_size q = (\<lambda>(base_network_size, exponent).
    case checked_mul base_network_size q of
      None \<Rightarrow> False
    | Some next \<Rightarrow> \<not> next > network_size)"

definition round_loop_body :: "usize \<Rightarrow> usize \<times> usize \<Rightarrow> usize \<times> usize" where
  "round_loop_body q = (\<lambda>(base_network_size, exponent).
    (base_network_size * q, saturating_add exponent 1))"

definition find_round_number_with_size :: "usize \<Rightarrow> QuorumSize \<Rightarrow> usize \<times> usize" where
  "find_round_number_with_size network_size quorum_size =
    (if network_size = 0 then (0, 0)
     else let q = quorum_get quorum_size in
       if network_size \<le> q then (network_size, 1)
       else let (base_network_size, exponent) =
              while (round_loop_cond network_size q) (round_loop_body q) (q, 1);
            multiple = network_size div base_network_size;
            optimal_network_size =
              unwrap_or (checked_mul base_network_size multiple) base_network_size;
            rounds = exponent + (if optimal_network_size > base_network_size then 1 else 0)
          in (optimal_network_size, rounds))"

definition find_round_number :: "usize \<Rightarrow> usize \<times> usize" where
  "find_round_number network_size = find_round_number_with_size network_size QuorumSize_DEFAULT"


section \<open>Deterministic shuffle\<close>

definition xorshift :: "u64 \<Rightarrow> u64" where
  "xorshift state0 =
    (let state1 = state0 XOR push_bit 13 state0;
         state2 = state1 XOR drop_bit 7 state1
     in state2 XOR push_bit 17 state2)"

text \<open>The loop over \<open>i\<close> from \<open>len - 1\<close> down to 1, swapping position \<open>i\<close> with one below it.\<close>

fun shuffle_loop :: "nat \<Rightarrow> u64 \<Rightarrow> 'a list \<Rightarrow> 'a list" where
  "shuffle_loop 0 state indices = indices"
| "shuffle_loop (Suc i) state indices =
    (let state' = xorshift state;
         j = unat state' mod (Suc i + 1)
     in shuffle_loop i state' (list_swap indices (Suc i) j))"

definition shuffle_seed :: "HashType \<Rightarrow> u64" where
  "shuffle_seed seed =
    (let state = u64_from_le_bytes (take 8 (hash_as_ref seed))
     in if state = 0 then 0x9e3779b97f4a7c15 else state)"

definition deterministic_shuffle :: "'a list \<Rightarrow> HashType \<Rightarrow> 'a list" where
  "deterministic_shuffle indices seed =
    shuffle_loop (length indices - 1) (shuffle_seed seed) indices"


section \<open>Quorum selection\<close>

definition member_at ::
  "('m, PubKey, 'n) index_tree_ops \<Rightarrow> 'm \<Rightarrow> usize list \<Rightarrow> usize \<Rightarrow> PubKey option" where
  "member_at T node_map ordered_indices index =
    (case slice_get ordered_indices index of
       None \<Rightarrow> None
     | Some map_index \<Rightarrow> it_get_key_from_index T node_map map_index)"

text \<open>\<open>quorum_member\<close> counts up from the number of members already tried; \<open>remaining\<close> is
  how many iterations of the \<open>for\<close> loop are left.\<close>

fun push_quorum_members_loop ::
  "(usize \<Rightarrow> PubKey option) \<Rightarrow> usize \<Rightarrow> usize \<Rightarrow> usize \<Rightarrow> usize \<Rightarrow> nat \<Rightarrow> PubKey list \<Rightarrow> PubKey list"
where
  "push_quorum_members_loop at first_quorum_member size_multiple offset quorum_member 0 quorum = quorum"
| "push_quorum_members_loop at first_quorum_member size_multiple offset quorum_member (Suc remaining) quorum =
    (case Option.bind (checked_mul quorum_member size_multiple)
            (\<lambda>value. Option.bind (checked_mul value offset)
              (\<lambda>value. checked_add first_quorum_member value)) of
       None \<Rightarrow> quorum
     | Some index \<Rightarrow>
         (case at index of
            Some member \<Rightarrow>
              push_quorum_members_loop at first_quorum_member size_multiple offset
                (quorum_member + 1) remaining (quorum @ [member])
          | None \<Rightarrow> quorum))"

definition push_quorum_members ::
  "('m, PubKey, 'n) index_tree_ops \<Rightarrow> PubKey list \<Rightarrow> 'm \<Rightarrow> usize list \<Rightarrow> usize \<Rightarrow> usize \<Rightarrow> usize
    \<Rightarrow> QuorumSize \<Rightarrow> PubKey list" where
  "push_quorum_members T quorum node_map ordered_indices first_quorum_member size_multiple offset quorum_size =
    push_quorum_members_loop (member_at T node_map ordered_indices)
      first_quorum_member size_multiple offset 0 (quorum_get quorum_size) quorum"

text \<open>The values the head of the round loop computes: the round whose power is the offset,
  the size of the block a quorum lives in, and the multiple of the offset between members.\<close>

definition round_layout :: "usize \<Rightarrow> usize \<Rightarrow> usize \<Rightarrow> usize \<times> usize \<times> usize" where
  "round_layout q optimal_network_size round =
    (let ceiling_network_size =
           unwrap_or (checked_pow q (saturating_add round 1)) (saturating_add optimal_network_size 1)
     in if ceiling_network_size > optimal_network_size
        then let ceiling_network_size' = unwrap_or (checked_pow q round) optimal_network_size
             in (saturating_sub round 1, optimal_network_size,
                 max (optimal_network_size div ceiling_network_size') 1)
        else (round, ceiling_network_size, 1))"

definition round_quorum ::
  "('m, PubKey, 'n) index_tree_ops \<Rightarrow> 'm \<Rightarrow> usize list \<Rightarrow> usize \<Rightarrow> usize \<Rightarrow> QuorumSize \<Rightarrow> usize
    \<Rightarrow> PubKey list" where
  "round_quorum T node_map ordered_indices self_index optimal_network_size quorum_size round0 =
    (let q = quorum_get quorum_size;
         (round, max_network_size, size_multiple) = round_layout q optimal_network_size round0;
         offset = unwrap_or (checked_pow q round) optimal_network_size;
         stride = unwrap_or (checked_mul size_multiple offset) optimal_network_size;
         first_quorum_member =
           unwrap_or (checked_add (self_index - self_index mod max_network_size) (self_index mod stride))
             self_index;
         quorum = push_quorum_members T [] node_map ordered_indices first_quorum_member
                    size_multiple offset quorum_size;
         quorum' =
           (if length ordered_indices \<ge> optimal_network_size
            then case checked_add optimal_network_size first_quorum_member of
                   Some second_segment \<Rightarrow>
                     push_quorum_members T quorum node_map ordered_indices second_segment
                       size_multiple offset quorum_size
                 | None \<Rightarrow> quorum
            else quorum)
     in remdups_adj (sort quorum'))"

definition algorithm_with_size ::
  "('m, PubKey, 'n) index_tree_ops \<Rightarrow> 'm \<Rightarrow> usize list \<Rightarrow> usize \<Rightarrow> usize \<Rightarrow> usize \<Rightarrow> QuorumSize
    \<Rightarrow> PubKey list list" where
  "algorithm_with_size T node_map ordered_indices self_index0 optimal_network_size rounds quorum_size =
    (if it_len T node_map = 0 \<or> optimal_network_size = 0 then []
     else let self_index = (if self_index0 \<ge> optimal_network_size
                            then self_index0 mod optimal_network_size else self_index0)
          in map (round_quorum T node_map ordered_indices self_index optimal_network_size quorum_size)
               [0..<rounds])"

definition select_quorums_from_index_tree_with_size ::
  "('m, PubKey, 'n) index_tree_ops \<Rightarrow> 'm \<Rightarrow> PubKey \<Rightarrow> HashType \<Rightarrow> bool \<Rightarrow> QuorumSize
    \<Rightarrow> PubKey list list" where
  "select_quorums_from_index_tree_with_size T node_map self_key seed shuffle quorum_size =
    (if it_len T node_map = 0 then []
     else case it_get_index_from_key T node_map self_key of
       None \<Rightarrow> []
     | Some self_index \<Rightarrow>
         let (optimal_network_size, rounds) =
               find_round_number_with_size (it_len T node_map) quorum_size
         in if optimal_network_size = 0 \<or> rounds = 0 then []
            else let indices = [0..<it_len T node_map];
                     ordered_indices = (if shuffle then deterministic_shuffle indices seed else indices);
                     self_index' = (if shuffle
                       then unwrap_or (position (\<lambda>index. index = self_index) ordered_indices) self_index
                       else self_index)
                 in algorithm_with_size T node_map ordered_indices self_index'
                      optimal_network_size rounds quorum_size)"

definition select_quorums_with_size ::
  "('m, PubKey, unit) index_tree_ops \<Rightarrow> PubKey list \<Rightarrow> PubKey \<Rightarrow> HashType \<Rightarrow> bool \<Rightarrow> QuorumSize
    \<Rightarrow> PubKey list list" where
  "select_quorums_with_size T nodes self_key seed shuffle quorum_size =
    select_quorums_from_index_tree_with_size T
      (fold (\<lambda>node. it_insert T node ()) nodes (it_new T)) self_key seed shuffle quorum_size"

definition select_prefill_recipients_with_size ::
  "('m, PubKey, unit) index_tree_ops \<Rightarrow> PubKey list \<Rightarrow> PubKey \<Rightarrow> HashType \<Rightarrow> bool \<Rightarrow> QuorumSize
    \<Rightarrow> PubKey list" where
  "select_prefill_recipients_with_size T nodes self_key seed shuffle quorum_size =
    bm_keys (bs_of_list (filter (\<lambda>member. member \<noteq> self_key)
      (concat (select_quorums_with_size T nodes self_key seed shuffle quorum_size))))"


section \<open>Thresholds\<close>

definition supermajority_count :: "usize \<Rightarrow> usize" where
  "supermajority_count tot = tot - tot div 3"

definition has_supermajority :: "usize \<Rightarrow> usize \<Rightarrow> bool" where
  "has_supermajority tot cnt \<longleftrightarrow>
    tot > 0 \<and> cnt \<le> tot \<and> cnt \<ge> supermajority_count tot"

definition distinct_current_validator_count :: "'a::linorder list \<Rightarrow> 'a list \<Rightarrow> usize" where
  "distinct_current_validator_count voters current_validators =
    (let current = bs_of_list current_validators
     in bm_len (bs_of_list (filter (\<lambda>voter. bm_contains current voter) voters)))"

definition has_distinct_supermajority :: "'a::linorder list \<Rightarrow> 'a list \<Rightarrow> bool" where
  "has_distinct_supermajority voters current_validators \<longleftrightarrow>
    (let current = bs_of_list current_validators;
         cnt = bm_len (bs_of_list (filter (\<lambda>voter. bm_contains current voter) voters))
     in has_supermajority (bm_len current) cnt)"

definition byzantine_fault_bound :: "usize \<Rightarrow> usize" where
  "byzantine_fault_bound tot = saturating_sub tot 1 div 3"

definition max_liveness_omissions :: "usize \<Rightarrow> usize" where
  "max_liveness_omissions tot = saturating_sub tot (supermajority_count tot)"

definition min_supermajority_intersection :: "usize \<Rightarrow> usize" where
  "min_supermajority_intersection tot =
    saturating_sub (saturating_mul (supermajority_count tot) 2) tot"

definition supermajority_has_honest_overlap :: "usize \<Rightarrow> bool" where
  "supermajority_has_honest_overlap tot \<longleftrightarrow>
    tot > 0 \<and> min_supermajority_intersection tot > byzantine_fault_bound tot"

definition supermajority_order_statistic :: "'a::linorder list \<Rightarrow> usize \<Rightarrow> 'a option" where
  "supermajority_order_statistic samples tot =
    (let quorum = supermajority_count tot in
     if quorum = 0 then None
     else if length samples < quorum \<or> length samples > tot then None
     else slice_get (sort samples) (quorum - 1))"



section \<open>Quorum size facts\<close>

lemma quorum_get_ge_3: "3 \<le> quorum_get q"
  using quorum_get [of q] by simp

lemma quorum_get_mod_3: "quorum_get q mod 3 = 0"
  using quorum_get [of q] by simp

lemma quorum_get_gt_0 [simp]: "0 < quorum_get q"
  using quorum_get_ge_3 [of q] by simp

lemma quorum_get_Abs: "3 \<le> n \<Longrightarrow> n mod 3 = 0 \<Longrightarrow> quorum_get (Abs_QuorumSize n) = n"
  by (simp add: Abs_QuorumSize_inverse)

lemma quorum_get_DEFAULT [simp]: "quorum_get QuorumSize_DEFAULT = 6"
  by (simp add: QuorumSize_DEFAULT_def quorum_get_Abs)

lemma QuorumSize_new_get [simp]: "QuorumSize_new (quorum_get q) = Ok q"
  by (simp add: QuorumSize_new_def quorum_get_ge_3 quorum_get_mod_3 quorum_get_inverse)

lemma QuorumSize_new_Ok: "QuorumSize_new v = Ok q \<longleftrightarrow> 3 \<le> v \<and> v mod 3 = 0 \<and> quorum_get q = v"
  by (auto simp: QuorumSize_new_def quorum_get_Abs quorum_get_inverse)


section \<open>Threshold arithmetic\<close>

lemma supermajority_count_bounds [threshold_simps]:
  "2 * tot \<le> 3 * supermajority_count tot"
  "3 * supermajority_count tot \<le> 2 * tot + 2"
  "supermajority_count tot \<le> tot"
  by (auto simp: supermajority_count_def)

lemma supermajority_count_pos: "0 < tot \<Longrightarrow> 0 < supermajority_count tot"
  using supermajority_count_bounds(1) [of tot] by simp

lemma byzantine_bound: "0 < tot \<Longrightarrow> 3 * byzantine_fault_bound tot < tot"
  by (simp add: byzantine_fault_bound_def saturating_sub_def)

lemma supermajority_overlap_arith:
  "0 < tot \<Longrightarrow> tot + byzantine_fault_bound tot < 2 * supermajority_count tot"
  using supermajority_count_bounds(1) [of tot] byzantine_bound [of tot] by linarith

lemma min_intersection_exact:
  assumes "2 * tot \<le> usize_max"
  shows "min_supermajority_intersection tot = 2 * supermajority_count tot - tot"
  using supermajority_count_bounds(3) [of tot] assms
  by (simp add: min_supermajority_intersection_def saturating_sub_def saturating_mul_def min_absorb1)

lemma distinct_count_card:
  "distinct_current_validator_count voters current = card (set voters \<inter> set current)"
proof -
  have "set (filter (\<lambda>v. v \<in> set current) voters) = set voters \<inter> set current" by auto
  then show ?thesis
    by (simp add: distinct_current_validator_count_def bm_len_bs_of_list)
qed

lemma has_distinct_supermajority_iff:
  "has_distinct_supermajority voters current \<longleftrightarrow>
    has_supermajority (card (set current)) (card (set voters \<inter> set current))"
  using distinct_count_card [of voters current]
  by (simp add: has_distinct_supermajority_def distinct_current_validator_count_def bm_len_bs_of_list)

text \<open>The supermajorities of a validator list form a quorum system that tolerates
  \<open>byzantine_fault_bound\<close> faulty validators.\<close>

definition supermajority_quorum :: "'a list \<Rightarrow> 'a set \<Rightarrow> bool" where
  "supermajority_quorum validators S \<longleftrightarrow>
    S \<subseteq> set validators \<and> has_supermajority (card (set validators)) (card S)"

interpretation supermajority: quorum_system
  "set validators" "supermajority_quorum validators" "byzantine_fault_bound (card (set validators))"
  for validators
proof
  fix S S'
  assume S: "supermajority_quorum validators S" and S': "supermajority_quorum validators S'"
  have "card S + card S' \<le> card (set validators) + card (S \<inter> S')"
    using S S' by (intro card_Int_lower_bound) (auto simp: supermajority_quorum_def)
  moreover have "card (set validators) + byzantine_fault_bound (card (set validators))
      < 2 * supermajority_count (card (set validators))"
    using S by (intro supermajority_overlap_arith) (simp add: supermajority_quorum_def has_supermajority_def)
  ultimately show "byzantine_fault_bound (card (set validators)) < card (S \<inter> S')"
    using S S' by (simp add: supermajority_quorum_def has_supermajority_def)
qed (auto simp: supermajority_quorum_def)

lemma distinct_supermajority_quorum:
  "has_distinct_supermajority voters validators \<longleftrightarrow>
    supermajority_quorum validators (set voters \<inter> set validators)"
  by (simp add: has_distinct_supermajority_iff supermajority_quorum_def)

lemma order_statistic_eq:
  assumes "0 < supermajority_count tot" "supermajority_count tot \<le> length samples" "length samples \<le> tot"
  shows "supermajority_order_statistic samples tot = Some (sort samples ! (supermajority_count tot - 1))"
  using assms by (simp add: supermajority_order_statistic_def Let_def)

lemma length_filter_le_nth_sorted:
  assumes "sorted xs" "k < length xs"
  shows "k + 1 \<le> length (filter (\<lambda>x. x \<le> xs ! k) xs)"
proof -
  have "{..k} \<subseteq> {i. i < length xs \<and> xs ! i \<le> xs ! k}"
    using assms by (auto intro: sorted_nth_mono)
  then have "card {..k} \<le> card {i. i < length xs \<and> xs ! i \<le> xs ! k}"
    by (rule card_mono [rotated]) simp
  then show ?thesis by (simp add: length_filter_conv_card)
qed

lemma length_filter_less_nth_sorted:
  assumes "sorted xs" "k < length xs"
  shows "length (filter (\<lambda>x. x < xs ! k) xs) \<le> k"
proof -
  have "{i. i < length xs \<and> xs ! i < xs ! k} \<subseteq> {..<k}"
    using assms by (auto simp: not_le [symmetric] dest: sorted_nth_mono)
  then have "card {i. i < length xs \<and> xs ! i < xs ! k} \<le> card {..<k}"
    by (rule card_mono [rotated]) simp
  then show ?thesis by (simp add: length_filter_conv_card)
qed


section \<open>Properties of the thresholds\<close>

text \<open>C11: any two voter lists that reach a distinct supermajority of the same validators share a
  validator outside every set of at most \<open>byzantine_fault_bound\<close> faulty ones, whatever
  duplicates or outsiders the lists contain.\<close>

theorem supermajorities_share_honest_validator:
  assumes "has_distinct_supermajority voters validators" "has_distinct_supermajority voters' validators"
    and "faulty \<subseteq> set validators" "card faulty \<le> byzantine_fault_bound (card (set validators))"
  shows "\<exists>v. v \<in> set voters \<and> v \<in> set voters' \<and> v \<in> set validators \<and> v \<notin> faulty"
  using supermajority.honest_overlap [of validators "set voters \<inter> set validators"
      "set voters' \<inter> set validators" faulty] assms
  by (auto simp: distinct_supermajority_quorum)

theorem supermajorities_share_honest_validator_witness:
  "\<exists>v. v \<in> set [1, 1, 2, 3, 9] \<and> v \<in> set [2, 3, 4 :: nat] \<and> v \<in> set [1, 2, 3, 4] \<and> v \<notin> {3}"
  by (rule supermajorities_share_honest_validator)
    (simp_all add: has_distinct_supermajority_iff has_supermajority_def supermajority_count_def
      byzantine_fault_bound_def saturating_sub_def)

text \<open>The supermajority threshold is the least safe one. For every positive number of
  validators (that does not overflow the doubled count) the reported minimal intersection
  exceeds the Byzantine bound, while two sets of one vote less can be chosen whose
  intersection does not.\<close>

theorem supermajority_threshold_tight:
  assumes "0 < tot" "2 * tot \<le> usize_max"
  shows "supermajority_has_honest_overlap tot
    \<and> (\<exists>S S'. S \<subseteq> {..<tot} \<and> S' \<subseteq> {..<tot} \<and> card S = supermajority_count tot - 1
        \<and> card S' = supermajority_count tot - 1 \<and> card (S \<inter> S') \<le> byzantine_fault_bound tot)"
proof
  show "supermajority_has_honest_overlap tot"
    using supermajority_overlap_arith [OF assms(1)] assms
    by (simp add: supermajority_has_honest_overlap_def min_intersection_exact)
  let ?k = "supermajority_count tot - 1"
  have k: "?k \<le> tot" "0 < supermajority_count tot"
    using supermajority_count_bounds(3) [of tot] supermajority_count_pos [OF assms(1)] by simp_all
  have "{..<?k} \<inter> {tot - ?k..<tot} = {tot - ?k..<?k}" using k by auto
  then have "card ({..<?k} \<inter> {tot - ?k..<tot}) = ?k - (tot - ?k)" by simp
  also have "\<dots> \<le> byzantine_fault_bound tot"
    by (simp add: supermajority_count_def byzantine_fault_bound_def saturating_sub_def)
  finally show "\<exists>S S'. S \<subseteq> {..<tot} \<and> S' \<subseteq> {..<tot} \<and> card S = ?k \<and> card S' = ?k
      \<and> card (S \<inter> S') \<le> byzantine_fault_bound tot"
    using k by (intro exI [of _ "{..<?k}"] exI [of _ "{tot - ?k..<tot}"]) auto
qed

theorem supermajority_threshold_tight_witness:
  "supermajority_has_honest_overlap 6
    \<and> (\<exists>S S'. S \<subseteq> {..<6::nat} \<and> S' \<subseteq> {..<6} \<and> card S = supermajority_count 6 - 1
        \<and> card S' = supermajority_count 6 - 1 \<and> card (S \<inter> S') \<le> byzantine_fault_bound 6)"
  by (rule supermajority_threshold_tight) (simp_all add: usize_max_def)

text \<open>The supermajority order statistic is the slowest sample of the fastest supermajority: a
  result is one of the samples, at least a supermajority of the samples does not exceed it
  and fewer than a supermajority are below it; there is none exactly when the validators are
  none, or the samples are fewer than a supermajority or more than the validators.\<close>

theorem supermajority_order_statistic_spec:
  "case supermajority_order_statistic samples tot of
     Some x \<Rightarrow> x \<in> set samples
       \<and> supermajority_count tot \<le> length (filter (\<lambda>y. y \<le> x) samples)
       \<and> length (filter (\<lambda>y. y < x) samples) < supermajority_count tot
   | None \<Rightarrow> tot = 0 \<or> length samples < supermajority_count tot \<or> tot < length samples"
proof (cases "0 < tot \<and> supermajority_count tot \<le> length samples \<and> length samples \<le> tot")
  case True
  let ?k = "supermajority_count tot - 1" and ?xs = "sort samples"
  have k: "0 < supermajority_count tot" "?k < length ?xs"
    using True supermajority_count_pos [of tot] by auto
  have filter_len: "length (filter P ?xs) = length (filter P samples)" for P
    by (metis filter_sort length_sort)
  have "?xs ! ?k \<in> set samples" using nth_mem [OF k(2)] by simp
  then show ?thesis
    using True k length_filter_le_nth_sorted [OF sorted_sort k(2)]
      length_filter_less_nth_sorted [OF sorted_sort k(2)]
    by (simp add: order_statistic_eq filter_len)
next
  case False
  then show ?thesis
    using supermajority_count_pos [of tot]
    by (auto simp: supermajority_order_statistic_def Let_def supermajority_count_def)
qed

end
