(* ===== verification/Crypto.thy ===== *)
theory Crypto
  imports Algorithm
begin

text \<open>
  \<open>src/src/crypto.rs\<close> and \<open>src/src/hash.rs\<close>. SHA-256 and Ed25519 are third-party code: they
  are the fields of the parameter \<open>crypto\<close>, and what the program relies on of them is stated
  as a hypothesis where it is used. The signing of a \<open>SecretSigner\<close> and the checks around
  verification are the program's. The second half is the theory of byte encodings: an
  encoding is self-delimiting when it can be read off the front of any byte string, and
  concatenations of self-delimiting encodings determine their parts.
\<close>

section \<open>Keys, signatures and hashes\<close>

datatype SecKey = SecKey "256 word"

record crypto =
  sha256 :: hasher
  ed_decodes :: "PubKey \<Rightarrow> bool"
  ed_is_weak :: "PubKey \<Rightarrow> bool"
  ed_verify :: "PubKey \<Rightarrow> bytes \<Rightarrow> Signature \<Rightarrow> bool"
  ed_verify_batch :: "bytes list \<Rightarrow> Signature list \<Rightarrow> PubKey list \<Rightarrow> bool"
  ed_public :: "SecKey \<Rightarrow> PubKey"
  ed_sign :: "SecKey \<Rightarrow> bytes \<Rightarrow> Signature"

definition hash_slices :: "crypto \<Rightarrow> bytes list \<Rightarrow> HashType" where
  "hash_slices E slices = sha256 E (concat slices)"

definition default_signature :: Signature where
  "default_signature = Signature 0"

definition default_pubkey :: PubKey where
  "default_pubkey = PubKey 0"

definition validating_key :: "crypto \<Rightarrow> PubKey \<Rightarrow> PubKey result" where
  "validating_key E public_key =
    (if \<not> ed_decodes E public_key then Err InvalidPublicKey
     else if ed_is_weak E public_key then Err InvalidPublicKey
     else Ok public_key)"

definition signature_verify :: "crypto \<Rightarrow> Signature \<Rightarrow> bytes \<Rightarrow> PubKey \<Rightarrow> unit result" where
  "signature_verify E signature message public_key =
    and_then (validating_key E public_key) (\<lambda>verifying_key.
      if ed_verify E verifying_key message signature then Ok () else Err SignatureError)"

fun collect_results :: "('e + 'a) list \<Rightarrow> 'e + 'a list" where
  "collect_results [] = Ok []"
| "collect_results (r # rs) = and_then r (\<lambda>x. and_then (collect_results rs) (\<lambda>xs. Ok (x # xs)))"

definition verify_batch ::
  "crypto \<Rightarrow> bytes list \<Rightarrow> Signature list \<Rightarrow> PubKey list \<Rightarrow> unit result" where
  "verify_batch E messages signatures public_keys =
    (if length messages \<noteq> length signatures \<or> length signatures \<noteq> length public_keys
     then Err (InvalidLength (length messages) (max (length signatures) (length public_keys)))
     else and_then (collect_results (map (validating_key E) public_keys)) (\<lambda>verifying_keys.
       if ed_verify_batch E messages signatures verifying_keys then Ok () else Err SignatureError))"

text \<open>What Ed25519 promises an honest signer: a signature made with a secret key verifies under
  its public key, which is a valid one.\<close>

definition honest_signatures :: "crypto \<Rightarrow> bool" where
  "honest_signatures E \<longleftrightarrow> (\<forall>secret message.
    ed_decodes E (ed_public E secret) \<and> \<not> ed_is_weak E (ed_public E secret)
    \<and> ed_verify E (ed_public E secret) message (ed_sign E secret message))"

text \<open>What batch verification promises: it accepts only batches whose signatures all verify.\<close>

definition sound_batches :: "crypto \<Rightarrow> bool" where
  "sound_batches E \<longleftrightarrow> (\<forall>messages signatures keys.
    length messages = length signatures \<and> length signatures = length keys
    \<and> ed_verify_batch E messages signatures keys
    \<longrightarrow> (\<forall>i < length keys. ed_verify E (keys ! i) (messages ! i) (signatures ! i)))"

text \<open>A concrete instance of the parameter, for evaluating the definitions on examples.\<close>

definition sample_crypto :: crypto where
  "sample_crypto = \<lparr>
     sha256 = (\<lambda>bs. HashType (of_nat (sum_list (map unat bs) + length bs))),
     ed_decodes = (\<lambda>_. True),
     ed_is_weak = (\<lambda>_. False),
     ed_verify = (\<lambda>k m s. case k of PubKey w \<Rightarrow> s = Signature (ucast w)),
     ed_verify_batch = (\<lambda>ms ss ks. list_all2 (\<lambda>s k. case k of PubKey w \<Rightarrow> s = Signature (ucast w)) ss ks),
     ed_public = (\<lambda>s. case s of SecKey w \<Rightarrow> PubKey w),
     ed_sign = (\<lambda>s m. case s of SecKey w \<Rightarrow> Signature (ucast w))\<rparr>"


section \<open>Signatures\<close>

lemma signature_verify_Ok:
  "signature_verify E s m k = Ok () \<longleftrightarrow> ed_decodes E k \<and> \<not> ed_is_weak E k \<and> ed_verify E k m s"
  by (auto simp: signature_verify_def validating_key_def)

lemma signature_verify_cases:
  "signature_verify E s m k = Ok () \<or> signature_verify E s m k = Err InvalidPublicKey
    \<or> signature_verify E s m k = Err SignatureError"
  by (auto simp: signature_verify_def validating_key_def)

lemma honest_signature_verifies:
  "honest_signatures E \<Longrightarrow> ed_public E secret = k \<Longrightarrow> signature_verify E (ed_sign E secret m) m k = Ok ()"
  by (auto simp: signature_verify_Ok honest_signatures_def)

lemma collect_results_Ok: "collect_results rs = Ok xs \<longleftrightarrow> rs = map Inr xs"
  by (induction rs arbitrary: xs) auto

lemma validating_key_Ok: "validating_key E k = Ok k' \<longleftrightarrow> k' = k \<and> ed_decodes E k \<and> \<not> ed_is_weak E k"
  by (auto simp: validating_key_def)

lemma collect_validating_keys:
  "collect_results (map (validating_key E) ks) = Ok ks'
    \<longleftrightarrow> ks' = ks \<and> (\<forall>k\<in>set ks. ed_decodes E k \<and> \<not> ed_is_weak E k)"
proof (induction ks arbitrary: ks')
  case (Cons k ks)
  then show ?case by (auto simp: validating_key_Ok)
qed auto

lemma verify_batch_sound:
  assumes "sound_batches E" "verify_batch E ms ss ks = Ok ()" "i < length ks"
  shows "signature_verify E (ss ! i) (ms ! i) (ks ! i) = Ok ()"
proof -
  have "length ms = length ss" "length ss = length ks" "ed_verify_batch E ms ss ks"
    "\<forall>k\<in>set ks. ed_decodes E k \<and> \<not> ed_is_weak E k"
    using assms(2) by (auto simp: verify_batch_def collect_validating_keys)
  then show ?thesis
    using assms(1,3) by (simp add: signature_verify_Ok sound_batches_def)
qed

lemma sample_crypto_sel [simp]:
  "ed_decodes sample_crypto k" "\<not> ed_is_weak sample_crypto k"
  "ed_verify sample_crypto (PubKey w) m s \<longleftrightarrow> s = Signature (ucast w)"
  "ed_public sample_crypto (SecKey w) = PubKey w"
  "ed_sign sample_crypto (SecKey w) m = Signature (ucast w)"
  by (simp_all add: sample_crypto_def)

lemma sample_crypto_honest: "honest_signatures sample_crypto"
proof -
  have "ed_verify sample_crypto (ed_public sample_crypto s) m (ed_sign sample_crypto s m)" for s m
    by (cases s) simp
  then show ?thesis by (simp add: honest_signatures_def)
qed

lemma sample_crypto_batches: "sound_batches sample_crypto"
  by (auto simp: sound_batches_def sample_crypto_def list_all2_conv_all_nth)

lemma sample_verify_Ok [simp]:
  "signature_verify sample_crypto (Signature v) m (PubKey w) = Ok () \<longleftrightarrow> v = ucast w"
  by (simp add: signature_verify_Ok)


section \<open>Self-delimiting encodings\<close>

definition delimited :: "('a \<Rightarrow> bool) \<Rightarrow> ('a \<Rightarrow> bytes) \<Rightarrow> bool" where
  "delimited P enc \<longleftrightarrow> (\<forall>a b x y. P a \<longrightarrow> P b \<longrightarrow> enc a @ x = enc b @ y \<longrightarrow> a = b \<and> x = y)"

lemma delimitedD: "delimited P enc \<Longrightarrow> enc a @ x = enc b @ y \<Longrightarrow> P a \<Longrightarrow> P b \<Longrightarrow> a = b \<and> x = y"
  unfolding delimited_def by blast

lemma fixed_width_delimited:
  assumes "\<And>a. length (enc a) = n" "inj enc"
  shows "delimited (\<lambda>_. True) enc"
  using assms by (auto simp: delimited_def dest: injD)

lemma delimited_list:
  assumes "delimited P enc" "length xs = length ys" "\<forall>a\<in>set xs \<union> set ys. P a"
    and "concat (map enc xs) @ x = concat (map enc ys) @ y"
  shows "xs = ys \<and> x = y"
  using assms(2-4)
proof (induction xs ys rule: list_induct2)
  case (Cons a as b bs)
  have "enc a @ (concat (map enc as) @ x) = enc b @ (concat (map enc bs) @ y)"
    using Cons.prems(2) by simp
  then have "a = b" "concat (map enc as) @ x = concat (map enc bs) @ y"
    using delimitedD [OF assms(1)] Cons.prems(1) by auto
  with Cons show ?case by simp
qed simp

lemma delimited_list_to_end:
  assumes "delimited P enc" "\<And>a. enc a \<noteq> []" "\<forall>a\<in>set xs \<union> set ys. P a"
    and "concat (map enc xs) = concat (map enc ys)"
  shows "xs = ys"
  using assms(3,4)
proof (induction xs arbitrary: ys)
  case Nil
  then show ?case using assms(2) by (cases ys) auto
next
  case (Cons a as)
  obtain b bs where ys: "ys = b # bs" using Cons.prems(2) assms(2) by (cases ys) auto
  then have "enc a @ concat (map enc as) = enc b @ concat (map enc bs)" using Cons.prems(2) by simp
  then have "a = b" "concat (map enc as) = concat (map enc bs)"
    using delimitedD [OF assms(1)] Cons.prems(1) ys by auto
  with Cons ys show ?case by simp
qed

lemma append_eq_same_length: "length a = length b \<Longrightarrow> a @ x = b @ y \<longleftrightarrow> a = b \<and> x = y"
  by (rule append_eq_append_conv) simp

lemma u64_of_usize_inject:
  assumes "m \<le> usize_max" "n \<le> usize_max"
  shows "u64_of_usize m = u64_of_usize n \<longleftrightarrow> m = n"
proof
  assume "u64_of_usize m = u64_of_usize n"
  then have "unat (of_nat m :: u64) = unat (of_nat n :: u64)" by (simp add: u64_of_usize_def)
  then show "m = n" using assms by (simp add: unat_of_nat usize_max_def)
qed simp

definition u32_of_usize :: "usize \<Rightarrow> u32" where
  "u32_of_usize n = of_nat n"

lemma u32_of_usize_inject:
  assumes "m < 2 ^ 32" "n < 2 ^ 32"
  shows "u32_of_usize m = u32_of_usize n \<longleftrightarrow> m = n"
proof
  assume "u32_of_usize m = u32_of_usize n"
  then have "unat (of_nat m :: u32) = unat (of_nat n :: u32)" by (simp add: u32_of_usize_def)
  then show "m = n" using assms by (simp add: unat_of_nat)
qed simp

lemma string_bytes_inject [simp]: "string_bytes s = string_bytes t \<longleftrightarrow> s = t"
proof
  assume eq: "string_bytes s = string_bytes t"
  have "inj (\<lambda>c. of_nat (of_char c) :: u8)"
  proof (rule injI)
    fix c d :: char
    assume "(of_nat (of_char c) :: u8) = of_nat (of_char d)"
    then have "unat (of_nat (of_char c) :: u8) = unat (of_nat (of_char d) :: u8)" by simp
    then have "(of_char c :: nat) = of_char d" by (simp add: unat_of_nat)
    then show "c = d" by simp
  qed
  then show "s = t" using eq by (simp add: string_bytes_def inj_map_eq_map)
qed simp

lemma length_string_bytes [simp]: "length (string_bytes s) = length s"
  by (simp add: string_bytes_def)

end
