(* ===== verification/Records.thy ===== *)
theory Records
  imports Crypto
begin

text \<open>
  The signed records a block carries and the identities they are about:
  \<open>src/src/group.rs\<close>, \<open>src/src/node.rs\<close> (identities and signing material), \<open>src/src/encounter.rs\<close>
  (signed evidence of peer behaviour) and \<open>src/src/admission.rs\<close> (signed admissions and
  reconnect votes), with their byte encodings. The lemmas show that the encodings are
  self-delimiting and that signed records verify.
\<close>

section \<open>Groups and identities\<close>

datatype ConsensusGroupId = ConsensusGroupId HashType

fun group_hash :: "ConsensusGroupId \<Rightarrow> HashType" where
  "group_hash (ConsensusGroupId h) = h"

definition group_root :: ConsensusGroupId where
  "group_root = ConsensusGroupId default_hash"

definition GROUP_ID_DOMAIN :: bytes where
  "GROUP_ID_DOMAIN = string_bytes ''blossom-consensus-group:v1:''"

definition group_named :: "crypto \<Rightarrow> string \<Rightarrow> ConsensusGroupId" where
  "group_named E name = ConsensusGroupId (sha256 E (GROUP_ID_DOMAIN @ string_bytes name))"

record NodeIdentity =
  ni_public_key :: PubKey
  ni_secret_key :: "SecKey option"
  ni_protocol :: string
  ni_host :: string
  ni_port :: u16
  ni_shuffle :: bool

datatype NodeType = Validator | Observer | Consort

definition public_only :: "NodeIdentity \<Rightarrow> NodeIdentity" where
  "public_only node = node\<lparr>ni_secret_key := None\<rparr>"

text \<open>A \<open>SecretSigner\<close> holds the expanded form of one secret key; it is identified with it.\<close>

type_synonym SecretSigner = SecKey

definition signer_public_key :: "crypto \<Rightarrow> SecretSigner \<Rightarrow> PubKey" where
  "signer_public_key E signer = ed_public E signer"

definition matches_public_key :: "crypto \<Rightarrow> SecretSigner \<Rightarrow> PubKey \<Rightarrow> bool" where
  "matches_public_key E signer public_key \<longleftrightarrow> signer_public_key E signer = public_key"

definition node_signer :: "crypto \<Rightarrow> NodeIdentity \<Rightarrow> SecretSigner result" where
  "node_signer E node =
    and_then (ok_or (ni_secret_key node) MissingSecretKey) (\<lambda>secret_key.
      if \<not> matches_public_key E secret_key (ni_public_key node) then Err KeyMismatch else Ok secret_key)"

definition node_sign :: "crypto \<Rightarrow> NodeIdentity \<Rightarrow> bytes \<Rightarrow> Signature result" where
  "node_sign E node message = and_then (node_signer E node) (\<lambda>signer. Ok (ed_sign E signer message))"

datatype ServiceKind = Relay | BlockService | ConsensusService | Engine | AddressBook

record Service =
  sv_kind :: ServiceKind
  sv_public_key :: PubKey
  sv_protocol :: string
  sv_host :: string
  sv_port :: u16


section \<open>Encounter records\<close>

datatype EncounterPhase =
  PhaseDispatch | PhaseVerification | PhaseProposal | PhaseCommit | PhaseEpochStarted | PhaseCatchUp

datatype EncounterOutcome = MissingSignature | InvalidSignature

fun phase_byte :: "EncounterPhase \<Rightarrow> u8" where
  "phase_byte PhaseDispatch = 1"
| "phase_byte PhaseVerification = 2"
| "phase_byte PhaseProposal = 3"
| "phase_byte PhaseCommit = 4"
| "phase_byte PhaseEpochStarted = 5"
| "phase_byte PhaseCatchUp = 6"

fun outcome_byte :: "EncounterOutcome \<Rightarrow> u8" where
  "outcome_byte MissingSignature = 1"
| "outcome_byte InvalidSignature = 2"

record EncounterRecordBody =
  eb_observer :: PubKey
  eb_subject :: PubKey
  eb_last_epoch :: HashType
  eb_nonce :: Nonce
  eb_round :: u8
  eb_phase :: EncounterPhase
  eb_outcome :: EncounterOutcome
  eb_evidence_hash :: "HashType option"
  eb_observed_at_micros :: u128

record EncounterRecord =
  er_body :: EncounterRecordBody
  er_signature :: Signature

definition ENCOUNTER_RECORD_DOMAIN :: bytes where
  "ENCOUNTER_RECORD_DOMAIN = string_bytes ''blossom-encounter-record:v1''"

definition ENCOUNTER_BODY_ENCODED_LEN :: usize where
  "ENCOUNTER_BODY_ENCODED_LEN =
    length ENCOUNTER_RECORD_DOMAIN + 32 + 32 + 32 + 8 + 1 + 1 + 1 + 1 + 32 + 16"

definition ENCOUNTER_RECORD_ENCODED_LEN :: usize where
  "ENCOUNTER_RECORD_ENCODED_LEN = ENCOUNTER_BODY_ENCODED_LEN + 64"

definition evidence_bytes :: "HashType option \<Rightarrow> bytes" where
  "evidence_bytes evidence =
    (case evidence of
       Some hash \<Rightarrow> 1 # hash_as_ref hash
     | None \<Rightarrow> 0 # hash_as_ref default_hash)"

definition encounter_body_bytes :: "EncounterRecordBody \<Rightarrow> bytes" where
  "encounter_body_bytes b =
    ENCOUNTER_RECORD_DOMAIN
    @ pubkey_as_ref (eb_observer b)
    @ pubkey_as_ref (eb_subject b)
    @ hash_as_ref (eb_last_epoch b)
    @ u64_to_le_bytes (eb_nonce b)
    @ [eb_round b]
    @ [phase_byte (eb_phase b)]
    @ [outcome_byte (eb_outcome b)]
    @ evidence_bytes (eb_evidence_hash b)
    @ u128_to_le_bytes (eb_observed_at_micros b)"

definition encounter_body_hash :: "crypto \<Rightarrow> EncounterRecordBody \<Rightarrow> HashType" where
  "encounter_body_hash E b = sha256 E (encounter_body_bytes b)"

definition encounter_record_bytes :: "EncounterRecord \<Rightarrow> bytes" where
  "encounter_record_bytes r = encounter_body_bytes (er_body r) @ signature_as_ref (er_signature r)"

definition encounter_signed ::
  "crypto \<Rightarrow> EncounterRecordBody \<Rightarrow> SecretSigner \<Rightarrow> EncounterRecord result" where
  "encounter_signed E body signer =
    (if eb_observer body \<noteq> signer_public_key E signer then Err KeyMismatch
     else Ok \<lparr>er_body = body, er_signature = ed_sign E signer (hash_as_ref (encounter_body_hash E body))\<rparr>)"

definition encounter_verify :: "crypto \<Rightarrow> EncounterRecord \<Rightarrow> unit result" where
  "encounter_verify E r =
    signature_verify E (er_signature r) (hash_as_ref (encounter_body_hash E (er_body r)))
      (eb_observer (er_body r))"


section \<open>Node admissions and reconnect votes\<close>

record NodeAdmissionBody =
  ab_node :: NodeIdentity
  ab_service :: Service
  ab_last_epoch :: HashType
  ab_nonce :: Nonce

record NodeAdmission =
  na_body :: NodeAdmissionBody
  na_signature :: Signature

record ReconnectVoteBody =
  rv_voter :: PubKey
  rv_candidate :: PubKey
  rv_admission_hash :: HashType
  rv_catchup_epoch :: HashType
  rv_catchup_nonce :: Nonce

record ReconnectVote =
  rv_body :: ReconnectVoteBody
  rv_signature :: Signature

definition NODE_ADMISSION_DOMAIN :: bytes where
  "NODE_ADMISSION_DOMAIN = string_bytes ''blossom-node-admission:v1''"

definition RECONNECT_VOTE_DOMAIN :: bytes where
  "RECONNECT_VOTE_DOMAIN = string_bytes ''blossom-reconnect-vote:v1''"

fun service_kind_byte :: "ServiceKind \<Rightarrow> u8" where
  "service_kind_byte Relay = 1"
| "service_kind_byte BlockService = 2"
| "service_kind_byte ConsensusService = 3"
| "service_kind_byte Engine = 4"
| "service_kind_byte AddressBook = 5"

definition append_str :: "string \<Rightarrow> bytes" where
  "append_str value = u32_to_le_bytes (u32_of_usize (length value)) @ string_bytes value"

definition encoded_str_len :: "string \<Rightarrow> usize" where
  "encoded_str_len value = 4 + length value"

definition validate_consensus_service_binding :: "NodeIdentity \<Rightarrow> Service \<Rightarrow> unit result" where
  "validate_consensus_service_binding node service =
    (if sv_kind service \<noteq> ConsensusService then Err WireProtocol
     else if sv_public_key service \<noteq> ni_public_key node
        \<or> sv_protocol service \<noteq> ni_protocol node
        \<or> sv_host service \<noteq> ni_host node
        \<or> sv_port service \<noteq> ni_port node then Err KeyMismatch
     else Ok ())"

definition admission_body_new ::
  "NodeIdentity \<Rightarrow> Service \<Rightarrow> HashType \<Rightarrow> Nonce \<Rightarrow> NodeAdmissionBody result" where
  "admission_body_new node0 service last_epoch nonce =
    (let node = public_only node0 in
     and_then (validate_consensus_service_binding node service) (\<lambda>_.
       Ok \<lparr>ab_node = node, ab_service = service, ab_last_epoch = last_epoch, ab_nonce = nonce\<rparr>))"

definition admission_body_for_consensus_service ::
  "Service \<Rightarrow> HashType \<Rightarrow> Nonce \<Rightarrow> NodeAdmissionBody result" where
  "admission_body_for_consensus_service service last_epoch nonce =
    admission_body_new
      \<lparr>ni_public_key = sv_public_key service, ni_secret_key = None, ni_protocol = sv_protocol service,
       ni_host = sv_host service, ni_port = sv_port service, ni_shuffle = True\<rparr>
      service last_epoch nonce"

definition admission_body_bytes :: "NodeAdmissionBody \<Rightarrow> bytes" where
  "admission_body_bytes b =
    NODE_ADMISSION_DOMAIN
    @ pubkey_as_ref (ni_public_key (ab_node b))
    @ append_str (ni_protocol (ab_node b))
    @ append_str (ni_host (ab_node b))
    @ u16_to_le_bytes (ni_port (ab_node b))
    @ [if ni_shuffle (ab_node b) then 1 else 0]
    @ [service_kind_byte (sv_kind (ab_service b))]
    @ pubkey_as_ref (sv_public_key (ab_service b))
    @ append_str (sv_protocol (ab_service b))
    @ append_str (sv_host (ab_service b))
    @ u16_to_le_bytes (sv_port (ab_service b))
    @ hash_as_ref (ab_last_epoch b)
    @ u64_to_le_bytes (ab_nonce b)"

definition admission_body_encoded_len :: "NodeAdmissionBody \<Rightarrow> usize" where
  "admission_body_encoded_len b =
    length NODE_ADMISSION_DOMAIN + 32
    + encoded_str_len (ni_protocol (ab_node b)) + encoded_str_len (ni_host (ab_node b))
    + 2 + 1 + 1 + 32
    + encoded_str_len (sv_protocol (ab_service b)) + encoded_str_len (sv_host (ab_service b))
    + 2 + 32 + 8"

definition admission_body_hash :: "crypto \<Rightarrow> NodeAdmissionBody \<Rightarrow> HashType" where
  "admission_body_hash E b = sha256 E (admission_body_bytes b)"

definition admission_signed ::
  "crypto \<Rightarrow> NodeAdmissionBody \<Rightarrow> SecretSigner \<Rightarrow> NodeAdmission result" where
  "admission_signed E body signer =
    (if \<not> matches_public_key E signer (ni_public_key (ab_node body)) then Err KeyMismatch
     else Ok \<lparr>na_body = body, na_signature = ed_sign E signer (admission_body_bytes body)\<rparr>)"

definition admission_verify :: "crypto \<Rightarrow> NodeAdmission \<Rightarrow> unit result" where
  "admission_verify E a =
    and_then (validate_consensus_service_binding (ab_node (na_body a)) (ab_service (na_body a))) (\<lambda>_.
      signature_verify E (na_signature a) (admission_body_bytes (na_body a))
        (ni_public_key (ab_node (na_body a))))"

definition reconnect_vote_for_admission ::
  "crypto \<Rightarrow> PubKey \<Rightarrow> NodeAdmission \<Rightarrow> HashType \<Rightarrow> Nonce \<Rightarrow> ReconnectVoteBody" where
  "reconnect_vote_for_admission E voter admission catchup_epoch catchup_nonce =
    \<lparr>rv_voter = voter,
     rv_candidate = ni_public_key (ab_node (na_body admission)),
     rv_admission_hash = admission_body_hash E (na_body admission),
     rv_catchup_epoch = catchup_epoch,
     rv_catchup_nonce = catchup_nonce\<rparr>"

definition reconnect_vote_bytes :: "ReconnectVoteBody \<Rightarrow> bytes" where
  "reconnect_vote_bytes b =
    RECONNECT_VOTE_DOMAIN
    @ pubkey_as_ref (rv_voter b)
    @ pubkey_as_ref (rv_candidate b)
    @ hash_as_ref (rv_admission_hash b)
    @ hash_as_ref (rv_catchup_epoch b)
    @ u64_to_le_bytes (rv_catchup_nonce b)"

definition reconnect_vote_signed ::
  "crypto \<Rightarrow> ReconnectVoteBody \<Rightarrow> SecretSigner \<Rightarrow> ReconnectVote result" where
  "reconnect_vote_signed E body signer =
    (if \<not> matches_public_key E signer (rv_voter body) then Err KeyMismatch
     else Ok \<lparr>rv_body = body, rv_signature = ed_sign E signer (reconnect_vote_bytes body)\<rparr>)"

definition reconnect_vote_verify :: "crypto \<Rightarrow> ReconnectVote \<Rightarrow> unit result" where
  "reconnect_vote_verify E v =
    signature_verify E (rv_signature v) (reconnect_vote_bytes (rv_body v)) (rv_voter (rv_body v))"


section \<open>Encodings of the records\<close>

lemma phase_byte_inject [simp]: "phase_byte a = phase_byte b \<longleftrightarrow> a = b"
  by (cases a; cases b) simp_all

lemma outcome_byte_inject [simp]: "outcome_byte a = outcome_byte b \<longleftrightarrow> a = b"
  by (cases a; cases b) simp_all

lemma service_kind_byte_inject [simp]: "service_kind_byte a = service_kind_byte b \<longleftrightarrow> a = b"
  by (cases a; cases b) simp_all

lemma length_evidence_bytes [simp]: "length (evidence_bytes e) = 33"
  by (simp add: evidence_bytes_def split: option.splits)

lemma evidence_bytes_inject [simp]: "evidence_bytes a = evidence_bytes b \<longleftrightarrow> a = b"
  by (simp add: evidence_bytes_def split: option.splits)

lemma u128_to_le_bytes_inject [simp]: "u128_to_le_bytes v = u128_to_le_bytes w \<longleftrightarrow> v = w"
  by (rule le_bytes_inject) simp

lemma encounter_body_encoded_len: "length (encounter_body_bytes b) = ENCOUNTER_BODY_ENCODED_LEN"
  by (simp add: encounter_body_bytes_def ENCOUNTER_BODY_ENCODED_LEN_def)

lemma encounter_record_encoded_len: "length (encounter_record_bytes r) = ENCOUNTER_RECORD_ENCODED_LEN"
  by (simp add: encounter_record_bytes_def ENCOUNTER_RECORD_ENCODED_LEN_def encounter_body_encoded_len)

lemma encounter_body_bytes_inject: "encounter_body_bytes a = encounter_body_bytes b \<longleftrightarrow> a = b"
  by (auto simp: encounter_body_bytes_def append_eq_same_length)

lemma encounter_record_bytes_inject: "encounter_record_bytes a = encounter_record_bytes b \<longleftrightarrow> a = b"
  by (auto simp: encounter_record_bytes_def append_eq_same_length encounter_body_encoded_len
      encounter_body_bytes_inject)

lemma encounter_records_delimited: "delimited (\<lambda>_. True) encounter_record_bytes"
  by (rule fixed_width_delimited [of _ ENCOUNTER_RECORD_ENCODED_LEN])
    (auto simp: encounter_record_encoded_len encounter_record_bytes_inject inj_def)

text \<open>Strings are prefixed with a 32-bit length: the encoding determines them below 4 GiB.\<close>

definition short_string :: "string \<Rightarrow> bool" where
  "short_string s \<longleftrightarrow> length s < 2 ^ 32"

lemma append_str_delimited: "delimited short_string append_str"
  unfolding delimited_def append_str_def short_string_def
proof (intro allI impI)
  fix a b :: string and x y
  assume short: "length a < 2 ^ 32" "length b < 2 ^ 32"
    and eq: "(u32_to_le_bytes (u32_of_usize (length a)) @ string_bytes a) @ x
      = (u32_to_le_bytes (u32_of_usize (length b)) @ string_bytes b) @ y"
  then have "u32_of_usize (length a) = u32_of_usize (length b)" "string_bytes a @ x = string_bytes b @ y"
    by (simp_all add: append_eq_same_length)
  moreover have "length a = length b" using calculation(1) short by (simp add: u32_of_usize_inject)
  ultimately show "a = b \<and> x = y" by (simp add: append_eq_same_length)
qed

lemma length_append_str: "length (append_str s) = encoded_str_len s"
  by (simp add: append_str_def encoded_str_len_def)

lemma admission_body_len: "length (admission_body_bytes b) = admission_body_encoded_len b"
  by (simp add: admission_body_bytes_def admission_body_encoded_len_def length_append_str)

text \<open>The secret key of an identity is not encoded; admissions carry public identities.\<close>

definition encodable_admission_body :: "NodeAdmissionBody \<Rightarrow> bool" where
  "encodable_admission_body b \<longleftrightarrow> ni_secret_key (ab_node b) = None
    \<and> short_string (ni_protocol (ab_node b)) \<and> short_string (ni_host (ab_node b))
    \<and> short_string (sv_protocol (ab_service b)) \<and> short_string (sv_host (ab_service b))"

lemma admission_body_delimited: "delimited encodable_admission_body admission_body_bytes"
  unfolding delimited_def
proof (intro allI impI)
  fix a b :: NodeAdmissionBody and x y
  assume enc: "encodable_admission_body a" "encodable_admission_body b"
    and eq: "admission_body_bytes a @ x = admission_body_bytes b @ y"
  note str = delimitedD [OF append_str_delimited]
  have short: "short_string (ni_protocol (ab_node c))" "short_string (ni_host (ab_node c))"
    "short_string (sv_protocol (ab_service c))" "short_string (sv_host (ab_service c))"
    if "c = a \<or> c = b" for c
    using enc that by (auto simp: encodable_admission_body_def)
  from eq have 1: "ni_public_key (ab_node a) = ni_public_key (ab_node b)"
    and r1: "append_str (ni_protocol (ab_node a)) @ append_str (ni_host (ab_node a))
      @ u16_to_le_bytes (ni_port (ab_node a)) @ [if ni_shuffle (ab_node a) then 1 else 0]
      @ [service_kind_byte (sv_kind (ab_service a))] @ pubkey_as_ref (sv_public_key (ab_service a))
      @ append_str (sv_protocol (ab_service a)) @ append_str (sv_host (ab_service a))
      @ u16_to_le_bytes (sv_port (ab_service a)) @ hash_as_ref (ab_last_epoch a)
      @ u64_to_le_bytes (ab_nonce a) @ x
    = append_str (ni_protocol (ab_node b)) @ append_str (ni_host (ab_node b))
      @ u16_to_le_bytes (ni_port (ab_node b)) @ [if ni_shuffle (ab_node b) then 1 else 0]
      @ [service_kind_byte (sv_kind (ab_service b))] @ pubkey_as_ref (sv_public_key (ab_service b))
      @ append_str (sv_protocol (ab_service b)) @ append_str (sv_host (ab_service b))
      @ u16_to_le_bytes (sv_port (ab_service b)) @ hash_as_ref (ab_last_epoch b)
      @ u64_to_le_bytes (ab_nonce b) @ y"
    by (simp_all add: admission_body_bytes_def append_eq_same_length)
  note s1 = str [OF r1 short(1) short(1)] 
  note s2 = str [OF conjunct2 [OF s1] short(2) short(2)]
  from s2 have 2: "ni_port (ab_node a) = ni_port (ab_node b)" "ni_shuffle (ab_node a) = ni_shuffle (ab_node b)"
    "sv_kind (ab_service a) = sv_kind (ab_service b)"
    "sv_public_key (ab_service a) = sv_public_key (ab_service b)"
    and r2: "append_str (sv_protocol (ab_service a)) @ append_str (sv_host (ab_service a))
      @ u16_to_le_bytes (sv_port (ab_service a)) @ hash_as_ref (ab_last_epoch a)
      @ u64_to_le_bytes (ab_nonce a) @ x
    = append_str (sv_protocol (ab_service b)) @ append_str (sv_host (ab_service b))
      @ u16_to_le_bytes (sv_port (ab_service b)) @ hash_as_ref (ab_last_epoch b)
      @ u64_to_le_bytes (ab_nonce b) @ y"
    by (auto simp: append_eq_same_length split: if_splits)
  note s3 = str [OF r2 short(3) short(3)]
  note s4 = str [OF conjunct2 [OF s3] short(4) short(4)]
  from s4 have 3: "sv_port (ab_service a) = sv_port (ab_service b)" "ab_last_epoch a = ab_last_epoch b"
    "ab_nonce a = ab_nonce b" "x = y"
    by (auto simp: append_eq_same_length)
  have "ab_node a = ab_node b" "ab_service a = ab_service b"
    using 1 2 3 s1 s2 s3 s4 enc by (auto simp: encodable_admission_body_def)
  then show "a = b \<and> x = y" using 3 by simp
qed

definition admission_bytes :: "NodeAdmission \<Rightarrow> bytes" where
  "admission_bytes a = admission_body_bytes (na_body a) @ signature_as_ref (na_signature a)"

lemma admissions_delimited: "delimited (\<lambda>a. encodable_admission_body (na_body a)) admission_bytes"
  unfolding delimited_def
proof (intro allI impI)
  fix a b :: NodeAdmission and x y
  assume "encodable_admission_body (na_body a)" "encodable_admission_body (na_body b)"
    "admission_bytes a @ x = admission_bytes b @ y"
  then show "a = b \<and> x = y"
    using delimitedD [OF admission_body_delimited, of "na_body a" "signature_as_ref (na_signature a) @ x"
        "na_body b" "signature_as_ref (na_signature b) @ y"]
    by (auto simp: admission_bytes_def append_eq_same_length)
qed


section \<open>Signed records verify\<close>

lemma encounter_signed_verifies:
  assumes "honest_signatures E" "encounter_signed E body signer = Ok r"
  shows "encounter_verify E r = Ok ()"
  using assms by (auto simp: encounter_signed_def encounter_verify_def signer_public_key_def
      honest_signature_verifies)

lemma admission_signed_verifies:
  assumes "honest_signatures E" "admission_body_new node service epoch nonce = Ok body"
    and "admission_signed E body signer = Ok a"
  shows "admission_verify E a = Ok ()"
  using assms by (auto simp: admission_signed_def admission_verify_def matches_public_key_def
      signer_public_key_def honest_signature_verifies admission_body_new_def Let_def)

lemma reconnect_vote_signed_verifies:
  assumes "honest_signatures E" "reconnect_vote_signed E body signer = Ok v"
  shows "reconnect_vote_verify E v = Ok ()"
  using assms by (auto simp: reconnect_vote_signed_def reconnect_vote_verify_def matches_public_key_def
      signer_public_key_def honest_signature_verifies)

end
