(* ===== verification/Block.thy ===== *)
theory Block
  imports Records "HOL-Library.Product_Lexorder"
begin

text \<open>
  \<open>src/src/block.rs\<close>: transactions (with the slots of the \<open>filtered-transactions\<close> feature; a build
  without it only has transactions with no slot and the transparent view), blocks, their
  canonical bytes and hashes, sealing, signing and integrity checks, and the fair ordering
  of the blocks of an epoch.
\<close>

section \<open>Transactions\<close>

datatype FilteredDeliveryPolicy = Direct | Gossip

fun delivery_policy_byte :: "FilteredDeliveryPolicy \<Rightarrow> u8" where
  "delivery_policy_byte Direct = 1"
| "delivery_policy_byte Gossip = 2"

datatype FilteredPayloadView = Transparent | Full | Tombstone

record FilteredTransactionSlot =
  fs_key_hash :: HashType
  fs_kind :: u16
  fs_targets :: "PubKey list"
  fs_payload_commitment :: HashType
  fs_payload_len :: u64
  fs_delivery_policy :: FilteredDeliveryPolicy

record Transaction =
  tx_hash :: HashType
  tx_payload :: bytes
  tx_filtered_slot :: "FilteredTransactionSlot option"
  tx_filtered_view :: FilteredPayloadView

definition FILTERED_TRANSACTION_SLOT_DOMAIN :: bytes where
  "FILTERED_TRANSACTION_SLOT_DOMAIN = string_bytes ''blossom-filtered-transaction-slot:v1''"

definition slot_bytes :: "FilteredTransactionSlot \<Rightarrow> bytes" where
  "slot_bytes s =
    FILTERED_TRANSACTION_SLOT_DOMAIN
    @ hash_as_ref (fs_key_hash s)
    @ u16_to_le_bytes (fs_kind s)
    @ u32_to_le_bytes (u32_of_usize (length (fs_targets s)))
    @ concat (map pubkey_as_ref (fs_targets s))
    @ hash_as_ref (fs_payload_commitment s)
    @ u64_to_le_bytes (fs_payload_len s)
    @ [delivery_policy_byte (fs_delivery_policy s)]"

definition slot_encoded_len :: "FilteredTransactionSlot \<Rightarrow> usize" where
  "slot_encoded_len s =
    length FILTERED_TRANSACTION_SLOT_DOMAIN + 32 + 2 + 4 + length (fs_targets s) * 32 + 32 + 8 + 1"

definition slot_hash :: "crypto \<Rightarrow> FilteredTransactionSlot \<Rightarrow> HashType" where
  "slot_hash E s = sha256 E (slot_bytes s)"

definition targets_are_sorted :: "FilteredTransactionSlot \<Rightarrow> bool" where
  "targets_are_sorted s \<longleftrightarrow> \<not> windows2_any (\<lambda>a b. \<not> a \<le> b) (fs_targets s)"

definition targets_are_unique :: "FilteredTransactionSlot \<Rightarrow> bool" where
  "targets_are_unique s \<longleftrightarrow> \<not> windows2_any (\<lambda>a b. a = b) (fs_targets s)"

definition slot_validate :: "FilteredTransactionSlot \<Rightarrow> unit result" where
  "slot_validate s =
    (if fs_targets s = [] then Err WireProtocol
     else if \<not> targets_are_sorted s then Err WireProtocol
     else if \<not> targets_are_unique s then Err WireProtocol
     else Ok ())"

definition normalize_targets :: "FilteredTransactionSlot \<Rightarrow> FilteredTransactionSlot" where
  "normalize_targets s = s\<lparr>fs_targets := remdups_adj (sort (fs_targets s))\<rparr>"

definition slot_new ::
  "HashType \<Rightarrow> u16 \<Rightarrow> PubKey list \<Rightarrow> HashType \<Rightarrow> u64 \<Rightarrow> FilteredDeliveryPolicy
    \<Rightarrow> FilteredTransactionSlot result" where
  "slot_new key_hash kind targets payload_commitment payload_len delivery_policy =
    (let slot = normalize_targets
       \<lparr>fs_key_hash = key_hash, fs_kind = kind, fs_targets = targets,
        fs_payload_commitment = payload_commitment, fs_payload_len = payload_len,
        fs_delivery_policy = delivery_policy\<rparr>
     in and_then (slot_validate slot) (\<lambda>_. Ok slot))"

definition slot_for_payload ::
  "crypto \<Rightarrow> HashType \<Rightarrow> u16 \<Rightarrow> PubKey list \<Rightarrow> bytes \<Rightarrow> FilteredDeliveryPolicy
    \<Rightarrow> FilteredTransactionSlot result" where
  "slot_for_payload E key_hash kind targets payload delivery_policy =
    slot_new key_hash kind targets (sha256 E payload) (u64_of_usize (length payload)) delivery_policy"

text \<open>Binary search in the targets: on a validated (sorted) slot this is membership.\<close>

definition is_target :: "FilteredTransactionSlot \<Rightarrow> PubKey \<Rightarrow> bool" where
  "is_target s public_key \<longleftrightarrow> public_key \<in> set (fs_targets s)"

definition transaction_new :: "crypto \<Rightarrow> bytes \<Rightarrow> Transaction" where
  "transaction_new E bytes =
    \<lparr>tx_hash = sha256 E bytes, tx_payload = bytes, tx_filtered_slot = None, tx_filtered_view = Transparent\<rparr>"

definition from_filtered_parts ::
  "HashType \<Rightarrow> FilteredTransactionSlot \<Rightarrow> bytes \<Rightarrow> FilteredPayloadView \<Rightarrow> Transaction" where
  "from_filtered_parts hash slot payload filtered_view =
    \<lparr>tx_hash = hash, tx_payload = payload, tx_filtered_slot = Some slot, tx_filtered_view = filtered_view\<rparr>"

definition filtered_full ::
  "crypto \<Rightarrow> HashType \<Rightarrow> u16 \<Rightarrow> PubKey list \<Rightarrow> bytes \<Rightarrow> FilteredDeliveryPolicy \<Rightarrow> Transaction result" where
  "filtered_full E key_hash kind targets payload delivery_policy =
    and_then (slot_for_payload E key_hash kind targets payload delivery_policy) (\<lambda>slot.
      Ok (from_filtered_parts (slot_hash E slot) slot payload Full))"

definition filtered_tombstone :: "crypto \<Rightarrow> FilteredTransactionSlot \<Rightarrow> Transaction result" where
  "filtered_tombstone E slot0 =
    (let slot = normalize_targets slot0 in
     and_then (slot_validate slot) (\<lambda>_. Ok (from_filtered_parts (slot_hash E slot) slot [] Tombstone)))"

definition materialize_tx_for :: "Transaction \<Rightarrow> PubKey \<Rightarrow> Transaction" where
  "materialize_tx_for tx viewer =
    (case tx_filtered_slot tx of
       None \<Rightarrow> tx
     | Some slot \<Rightarrow>
         if tx_filtered_view tx = Full \<and> \<not> is_target slot viewer
         then from_filtered_parts (tx_hash tx) slot [] Tombstone
         else tx)"

definition canonical_payload_encoded_len :: "Transaction \<Rightarrow> usize" where
  "canonical_payload_encoded_len tx =
    (case tx_filtered_slot tx of
       Some slot \<Rightarrow> slot_encoded_len slot
     | None \<Rightarrow> length (tx_payload tx))"

definition canonical_payload :: "Transaction \<Rightarrow> bytes" where
  "canonical_payload tx =
    (case tx_filtered_slot tx of
       Some slot \<Rightarrow> slot_bytes slot
     | None \<Rightarrow> tx_payload tx)"

definition validate_filtered_integrity :: "crypto \<Rightarrow> Transaction \<Rightarrow> unit result" where
  "validate_filtered_integrity E tx =
    (case (tx_filtered_slot tx, tx_filtered_view tx) of
       (None, Transparent) \<Rightarrow> Ok ()
     | (None, _) \<Rightarrow> Err WireProtocol
     | (Some slot, Transparent) \<Rightarrow> and_then (slot_validate slot) (\<lambda>_. Err WireProtocol)
     | (Some slot, Tombstone) \<Rightarrow> and_then (slot_validate slot) (\<lambda>_.
         if tx_hash tx \<noteq> slot_hash E slot then Err InvalidBlockHash
         else if tx_payload tx \<noteq> [] then Err WireProtocol
         else Ok ())
     | (Some slot, Full) \<Rightarrow> and_then (slot_validate slot) (\<lambda>_.
         if tx_hash tx \<noteq> slot_hash E slot then Err InvalidBlockHash
         else if u64_of_usize (length (tx_payload tx)) \<noteq> fs_payload_len slot then Err InvalidBlockHash
         else if sha256 E (tx_payload tx) \<noteq> fs_payload_commitment slot then Err InvalidBlockHash
         else Ok ()))"


section \<open>Blocks\<close>

record BlockBody =
  bb_validator :: PubKey
  bb_last_epoch :: HashType
  bb_nonce :: Nonce
  bb_created :: u128
  bb_dispatched :: u128
  bb_merkle_root :: HashType
  bb_application_state :: bytes
  bb_encounter_records :: "EncounterRecord list"
  bb_node_admissions :: "NodeAdmission list"
  bb_txs :: "Transaction list"

record Block =
  block_hash :: HashType
  block_signature :: Signature
  block_body :: BlockBody

definition BLOCK_APPLICATION_STATE_MAX_BYTES :: usize where
  "BLOCK_APPLICATION_STATE_MAX_BYTES = 8 * 1024"

definition validate_application_state_len :: "usize \<Rightarrow> unit result" where
  "validate_application_state_len len =
    (if len > BLOCK_APPLICATION_STATE_MAX_BYTES
     then Err (BlockApplicationStateTooLarge BLOCK_APPLICATION_STATE_MAX_BYTES len)
     else Ok ())"

definition set_application_state :: "BlockBody \<Rightarrow> bytes \<Rightarrow> BlockBody result" where
  "set_application_state b bytes =
    and_then (validate_application_state_len (length bytes)) (\<lambda>_. Ok (b\<lparr>bb_application_state := bytes\<rparr>))"

text \<open>The slices of the body in the order the code feeds them to the encoder, to the hasher and
  to the ordering seed.\<close>

definition body_slices :: "BlockBody \<Rightarrow> bytes list" where
  "body_slices b =
    [pubkey_as_ref (bb_validator b),
     hash_as_ref (bb_last_epoch b),
     u64_to_le_bytes (bb_nonce b),
     u128_to_le_bytes (bb_created b),
     u128_to_le_bytes (bb_dispatched b),
     hash_as_ref (bb_merkle_root b),
     u64_to_le_bytes (u64_of_usize (length (bb_application_state b))),
     bb_application_state b,
     u64_to_le_bytes (u64_of_usize (length (bb_encounter_records b)))]
    @ map encounter_record_bytes (bb_encounter_records b)
    @ [u64_to_le_bytes (u64_of_usize (length (bb_node_admissions b)))]
    @ map admission_bytes (bb_node_admissions b)
    @ concat (map (\<lambda>tx.
        [hash_as_ref (tx_hash tx),
         u64_to_le_bytes (u64_of_usize (canonical_payload_encoded_len tx)),
         canonical_payload tx]) (bb_txs b))"

definition body_to_bytes :: "BlockBody \<Rightarrow> bytes" where
  "body_to_bytes b = concat (body_slices b)"

definition body_encoded_len :: "BlockBody \<Rightarrow> usize" where
  "body_encoded_len b =
    32 + 32 + 8 + 16 + 16 + 32 + 8 + length (bb_application_state b)
    + 8 + sum_list (map (\<lambda>_. ENCOUNTER_RECORD_ENCODED_LEN) (bb_encounter_records b))
    + 8 + sum_list (map (\<lambda>a. admission_body_encoded_len (na_body a) + 64) (bb_node_admissions b))
    + sum_list (map (\<lambda>tx. 32 + 8 + canonical_payload_encoded_len tx) (bb_txs b))"

definition body_hash :: "crypto \<Rightarrow> BlockBody \<Rightarrow> HashType" where
  "body_hash E b = hash_slices E (body_slices b)"

definition compute_merkle_root :: "crypto \<Rightarrow> BlockBody \<Rightarrow> HashType" where
  "compute_merkle_root E b = hash_slices E (map (\<lambda>tx. hash_as_ref (tx_hash tx)) (bb_txs b))"

text \<open>The single pass that feeds both hashers: the accumulators are what each has absorbed.\<close>

definition hash_and_merkle_root :: "crypto \<Rightarrow> BlockBody \<Rightarrow> HashType \<times> HashType" where
  "hash_and_merkle_root E b =
    (let prefix = concat
           ([pubkey_as_ref (bb_validator b), hash_as_ref (bb_last_epoch b), u64_to_le_bytes (bb_nonce b),
             u128_to_le_bytes (bb_created b), u128_to_le_bytes (bb_dispatched b),
             hash_as_ref (bb_merkle_root b),
             u64_to_le_bytes (u64_of_usize (length (bb_application_state b))),
             bb_application_state b,
             u64_to_le_bytes (u64_of_usize (length (bb_encounter_records b)))]
            @ map encounter_record_bytes (bb_encounter_records b)
            @ [u64_to_le_bytes (u64_of_usize (length (bb_node_admissions b)))]
            @ map admission_bytes (bb_node_admissions b));
         (body_hasher, merkle_hasher) =
           fold (\<lambda>tx (body_acc, merkle_acc).
             (body_acc @ hash_as_ref (tx_hash tx)
                @ u64_to_le_bytes (u64_of_usize (canonical_payload_encoded_len tx))
                @ canonical_payload tx,
              merkle_acc @ hash_as_ref (tx_hash tx))) (bb_txs b) (prefix, [])
     in (sha256 E body_hasher, sha256 E merkle_hasher))"

definition seal :: "crypto \<Rightarrow> Block \<Rightarrow> Block" where
  "seal E b =
    (let body = (block_body b)\<lparr>bb_merkle_root := compute_merkle_root E (block_body b)\<rparr>
     in b\<lparr>block_body := body, block_hash := body_hash E body\<rparr>)"

definition sign_with :: "crypto \<Rightarrow> Block \<Rightarrow> SecretSigner \<Rightarrow> Block" where
  "sign_with E b signer =
    (let sealed = seal E (b\<lparr>block_body := (block_body b)\<lparr>bb_validator := signer_public_key E signer\<rparr>\<rparr>)
     in sealed\<lparr>block_signature := ed_sign E signer (hash_as_ref (block_hash sealed))\<rparr>)"

definition seal_unsigned :: "crypto \<Rightarrow> Block \<Rightarrow> PubKey \<Rightarrow> Block" where
  "seal_unsigned E b validator =
    (seal E (b\<lparr>block_body := (block_body b)\<lparr>bb_validator := validator\<rparr>\<rparr>))\<lparr>block_signature := default_signature\<rparr>"

definition validate_encounter_records :: "crypto \<Rightarrow> BlockBody \<Rightarrow> unit result" where
  "validate_encounter_records E b =
    try_fold (\<lambda>_ record.
      if eb_observer (er_body record) \<noteq> bb_validator b then Err UnknownSender
      else encounter_verify E record) () (bb_encounter_records b)"

definition validate_node_admissions :: "crypto \<Rightarrow> BlockBody \<Rightarrow> unit result" where
  "validate_node_admissions E b =
    try_fold (\<lambda>_ admission. admission_verify E admission) () (bb_node_admissions b)"

definition validate_transactions :: "crypto \<Rightarrow> BlockBody \<Rightarrow> unit result" where
  "validate_transactions E b =
    try_fold (\<lambda>_ tx. validate_filtered_integrity E tx) () (bb_txs b)"

definition verify_unsigned_integrity_with_hash :: "crypto \<Rightarrow> Block \<Rightarrow> HashType \<Rightarrow> unit result" where
  "verify_unsigned_integrity_with_hash E b expected_hash =
    and_then (validate_application_state_len (length (bb_application_state (block_body b)))) (\<lambda>_.
    and_then (validate_encounter_records E (block_body b)) (\<lambda>_.
    and_then (validate_node_admissions E (block_body b)) (\<lambda>_.
    and_then (validate_transactions E (block_body b)) (\<lambda>_.
      let (body_hash, merkle_root) = hash_and_merkle_root E (block_body b) in
      if block_hash b \<noteq> expected_hash \<or> body_hash \<noteq> expected_hash then Err InvalidBlockHash
      else if bb_merkle_root (block_body b) \<noteq> merkle_root then Err InvalidBlockHash
      else Ok ()))))"

definition verify_integrity_with_hash :: "crypto \<Rightarrow> Block \<Rightarrow> HashType \<Rightarrow> unit result" where
  "verify_integrity_with_hash E b expected_hash =
    and_then (verify_unsigned_integrity_with_hash E b expected_hash) (\<lambda>_.
      signature_verify E (block_signature b) (hash_as_ref (block_hash b)) (bb_validator (block_body b)))"

definition verify_integrity :: "crypto \<Rightarrow> Block \<Rightarrow> unit result" where
  "verify_integrity E b = verify_integrity_with_hash E b (block_hash b)"

definition verify_signature :: "crypto \<Rightarrow> Block \<Rightarrow> unit result" where
  "verify_signature E b =
    signature_verify E (block_signature b) (hash_as_ref (body_hash E (block_body b)))
      (bb_validator (block_body b))"

definition materialize_for :: "Block \<Rightarrow> PubKey \<Rightarrow> Block" where
  "materialize_for b viewer =
    b\<lparr>block_body := (block_body b)\<lparr>bb_txs := map (\<lambda>tx. materialize_tx_for tx viewer) (bb_txs (block_body b))\<rparr>\<rparr>"


section \<open>Fair ordering\<close>

definition FAIR_BLOCK_ORDER_SEED_DOMAIN :: bytes where
  "FAIR_BLOCK_ORDER_SEED_DOMAIN = string_bytes ''blossom.fair-block-order.seed.v1''"

definition FAIR_BLOCK_ORDER_KEY_DOMAIN :: bytes where
  "FAIR_BLOCK_ORDER_KEY_DOMAIN = string_bytes ''blossom.fair-block-order.key.v1''"

definition MODULO_CHUNK_BYTES :: usize where
  "MODULO_CHUNK_BYTES = 9 * 128"

text \<open>The buffered loop of \<open>update_modulo_seed\<close>: \<open>chunk\<close> is the filled part of the buffer and
  \<open>hashed\<close> what the hasher has absorbed.\<close>

fun modulo_seed_loop :: "u64 \<Rightarrow> bytes \<Rightarrow> u64 \<Rightarrow> bytes \<Rightarrow> bytes \<Rightarrow> bytes \<times> u64" where
  "modulo_seed_loop modulus [] byte_index chunk hashed =
    (if length chunk > 0 then hashed @ chunk else hashed, byte_index)"
| "modulo_seed_loop modulus (byte # rest) byte_index chunk hashed =
    (let chunk' = chunk @ u64_to_le_bytes (byte_index mod modulus) @ [byte];
         byte_index' = byte_index + 1
     in if length chunk' = MODULO_CHUNK_BYTES
        then modulo_seed_loop modulus rest byte_index' [] (hashed @ chunk')
        else modulo_seed_loop modulus rest byte_index' chunk' hashed)"

definition update_modulo_seed :: "u64 \<Rightarrow> bytes \<Rightarrow> bytes \<times> u64 \<Rightarrow> bytes \<times> u64" where
  "update_modulo_seed modulus bytes = (\<lambda>(hashed, byte_index).
    modulo_seed_loop modulus bytes byte_index [] hashed)"

definition update_fair_order_seed :: "u64 \<Rightarrow> Block \<Rightarrow> bytes \<times> u64 \<Rightarrow> bytes \<times> u64" where
  "update_fair_order_seed modulus b st =
    fold (update_modulo_seed modulus) (body_slices (block_body b))
      (update_modulo_seed modulus (signature_as_ref (block_signature b))
        (update_modulo_seed modulus (hash_as_ref (block_hash b)) st))"

definition saturating_add_u64 :: "u64 \<Rightarrow> u64 \<Rightarrow> u64" where
  "saturating_add_u64 a b = (if unat a + unat b \<le> usize_max then a + b else - 1)"

definition fair_order_transaction_count :: "(HashType, Block) btree_map \<Rightarrow> u64" where
  "fair_order_transaction_count blocks =
    fold (\<lambda>b acc. saturating_add_u64 acc (u64_of_usize (length (bb_txs (block_body b)))))
      (bm_values blocks) 0"

definition fair_block_order_seed :: "crypto \<Rightarrow> (HashType, Block) btree_map \<Rightarrow> HashType" where
  "fair_block_order_seed E blocks =
    (let transaction_count = fair_order_transaction_count blocks;
         modulus = max transaction_count 1;
         (hashed, byte_index) =
           fold (\<lambda>(h, b) st. update_fair_order_seed modulus b (update_modulo_seed modulus (hash_as_ref h) st))
             (bm_entries blocks)
             (FAIR_BLOCK_ORDER_SEED_DOMAIN @ u64_to_le_bytes transaction_count
                @ u64_to_le_bytes (u64_of_usize (bm_len blocks)), 0)
     in sha256 E hashed)"

definition fair_block_order_key :: "crypto \<Rightarrow> HashType \<Rightarrow> u64 \<Rightarrow> HashType \<Rightarrow> Block \<Rightarrow> HashType" where
  "fair_block_order_key E seed transaction_count h b =
    sha256 E (FAIR_BLOCK_ORDER_KEY_DOMAIN
      @ hash_as_ref seed
      @ u64_to_le_bytes transaction_count
      @ hash_as_ref h
      @ hash_as_ref (block_hash b)
      @ pubkey_as_ref (bb_validator (block_body b))
      @ u64_to_le_bytes (u64_of_usize (length (bb_txs (block_body b)))))"

definition fair_ordered_blocks :: "crypto \<Rightarrow> (HashType, Block) btree_map \<Rightarrow> (HashType \<times> Block) list" where
  "fair_ordered_blocks E blocks =
    (let seed = fair_block_order_seed E blocks;
         transaction_count = fair_order_transaction_count blocks;
         ordered = map (\<lambda>(h, b). (fair_block_order_key E seed transaction_count h b, h, b)) (bm_entries blocks)
     in map (\<lambda>(key, h, b). (h, b)) (sort_key (\<lambda>(key, h, b). (key, h)) ordered))"

definition fair_ordered_block_commitments ::
  "crypto \<Rightarrow> (HashType, Block) btree_map \<Rightarrow> HashType list" where
  "fair_ordered_block_commitments E blocks =
    (let seed = fair_block_order_seed E blocks;
         transaction_count = fair_order_transaction_count blocks;
         commitments = map (\<lambda>(h, b). (fair_block_order_key E seed transaction_count h b, h)) (bm_entries blocks)
     in map fst (sort commitments))"



section \<open>Encodings of transactions and blocks\<close>

lemma delivery_policy_byte_inject [simp]: "delivery_policy_byte a = delivery_policy_byte b \<longleftrightarrow> a = b"
  by (cases a; cases b) simp_all

lemma length_concat_pubkeys [simp]: "length (concat (map pubkey_as_ref ks)) = length ks * 32"
  by (induction ks) simp_all

lemma slot_bytes_len: "length (slot_bytes s) = slot_encoded_len s"
  by (simp add: slot_bytes_def slot_encoded_len_def)

lemma canonical_payload_len: "length (canonical_payload tx) = canonical_payload_encoded_len tx"
  by (simp add: canonical_payload_def canonical_payload_encoded_len_def slot_bytes_len split: option.splits)

lemma length_admission_bytes [simp]: "length (admission_bytes a) = admission_body_encoded_len (na_body a) + 64"
  by (simp add: admission_bytes_def admission_body_len)

lemma length_concat_tx_slices:
  "length (concat (concat (map (\<lambda>tx. [hash_as_ref (tx_hash tx), u64_to_le_bytes (f tx), canonical_payload tx]) txs)))
    = sum_list (map (\<lambda>tx. 32 + 8 + canonical_payload_encoded_len tx) txs)"
  by (induction txs) (simp_all add: canonical_payload_len)

lemma body_to_bytes_len: "length (body_to_bytes b) = body_encoded_len b"
proof -
  have "length (concat (map encounter_record_bytes rs)) = sum_list (map (\<lambda>_. ENCOUNTER_RECORD_ENCODED_LEN) rs)" for rs
    by (induction rs) (simp_all add: encounter_record_encoded_len)
  moreover have "length (concat (map admission_bytes as))
      = sum_list (map (\<lambda>a. admission_body_encoded_len (na_body a) + 64) as)" for as
    by (induction as) simp_all
  ultimately show ?thesis
    by (simp add: body_to_bytes_def body_slices_def body_encoded_len_def length_concat_tx_slices
        del: length_concat)
qed

lemma body_hash_to_bytes: "body_hash E b = sha256 E (body_to_bytes b)"
  by (simp add: body_hash_def hash_slices_def body_to_bytes_def)

lemma hash_fold_accumulators:
  "fold (\<lambda>tx (body_acc, merkle_acc). (body_acc @ f tx @ g tx @ h tx, merkle_acc @ f tx)) txs (p, m)
    = (p @ concat (concat (map (\<lambda>tx. [f tx, g tx, h tx]) txs)), m @ concat (map f txs))"
  by (induction txs arbitrary: p m) simp_all

lemma hash_and_merkle_root_eq: "hash_and_merkle_root E b = (body_hash E b, compute_merkle_root E b)"
  unfolding hash_and_merkle_root_def Let_def hash_fold_accumulators
  by (simp add: body_hash_def hash_slices_def body_slices_def compute_merkle_root_def)


section \<open>The modulo stream of the ordering seed\<close>

fun modulo_entries :: "u64 \<Rightarrow> bytes \<Rightarrow> u64 \<Rightarrow> bytes" where
  "modulo_entries m [] i = []"
| "modulo_entries m (b # bs) i = u64_to_le_bytes (i mod m) @ [b] @ modulo_entries m bs (i + 1)"

lemma modulo_seed_loop_eq:
  "modulo_seed_loop m bs i chunk hashed = (hashed @ chunk @ modulo_entries m bs i, i + of_nat (length bs))"
  by (induction m bs i chunk hashed rule: modulo_seed_loop.induct) (simp_all add: Let_def)

lemma update_modulo_seed_eq:
  "update_modulo_seed m bs (hashed, i) = (hashed @ modulo_entries m bs i, i + of_nat (length bs))"
  by (simp add: update_modulo_seed_def modulo_seed_loop_eq)

lemma modulo_entries_append:
  "modulo_entries m (as @ bs) i = modulo_entries m as i @ modulo_entries m bs (i + of_nat (length as))"
  by (induction as arbitrary: i) (simp_all add: ac_simps)

lemma fold_update_modulo_seed:
  "fold (update_modulo_seed m) slices (hashed, i)
    = (hashed @ modulo_entries m (concat slices) i, i + of_nat (length (concat slices)))"
  by (induction slices arbitrary: hashed i)
    (simp_all add: update_modulo_seed_eq modulo_entries_append ac_simps)


section \<open>What the block hash commits to\<close>

definition committed_tx :: "Transaction \<Rightarrow> HashType \<times> bytes" where
  "committed_tx tx = (tx_hash tx, canonical_payload tx)"

definition committed_tx_bytes :: "HashType \<times> bytes \<Rightarrow> bytes" where
  "committed_tx_bytes = (\<lambda>(h, p). hash_as_ref h @ u64_to_le_bytes (u64_of_usize (length p)) @ p)"

text \<open>Bodies whose collections fit the address space and whose strings are below 4 GiB.\<close>

definition encodable_body :: "BlockBody \<Rightarrow> bool" where
  "encodable_body b \<longleftrightarrow>
    length (bb_application_state b) \<le> usize_max
    \<and> length (bb_encounter_records b) \<le> usize_max
    \<and> length (bb_node_admissions b) \<le> usize_max
    \<and> list_all (\<lambda>a. encodable_admission_body (na_body a)) (bb_node_admissions b)
    \<and> list_all (\<lambda>tx. length (canonical_payload tx) \<le> usize_max) (bb_txs b)"

lemma committed_tx_delimited: "delimited (\<lambda>(h, p). length p \<le> usize_max) committed_tx_bytes"
  unfolding delimited_def
proof (intro allI impI)
  fix a b :: "HashType \<times> bytes" and x y
  assume small: "case a of (h, p) \<Rightarrow> length p \<le> usize_max" "case b of (h, p) \<Rightarrow> length p \<le> usize_max"
    and eq: "committed_tx_bytes a @ x = committed_tx_bytes b @ y"
  from eq have parts: "fst a = fst b" "u64_of_usize (length (snd a)) = u64_of_usize (length (snd b))"
    "snd a @ x = snd b @ y"
    by (simp_all add: committed_tx_bytes_def case_prod_beta append_eq_same_length)
  have "length (snd a) = length (snd b)"
    using parts(2) small by (simp add: u64_of_usize_inject case_prod_beta)
  with parts show "a = b \<and> x = y" by (simp add: append_eq_same_length prod_eq_iff)
qed

lemma committed_tx_bytes_nonempty: "committed_tx_bytes a \<noteq> []"
proof -
  have "length (committed_tx_bytes a) = 40 + length (snd a)"
    by (simp add: committed_tx_bytes_def case_prod_beta)
  then show ?thesis by auto
qed

lemma tx_slices_bytes:
  "concat (concat (map (\<lambda>tx. [hash_as_ref (tx_hash tx),
      u64_to_le_bytes (u64_of_usize (canonical_payload_encoded_len tx)), canonical_payload tx]) txs))
    = concat (map committed_tx_bytes (map committed_tx txs))"
  by (induction txs) (simp_all add: committed_tx_def committed_tx_bytes_def canonical_payload_len)

lemma body_to_bytes_inject:
  assumes "encodable_body a" "encodable_body b" "body_to_bytes a = body_to_bytes b"
  shows "a\<lparr>bb_txs := []\<rparr> = b\<lparr>bb_txs := []\<rparr> \<and> map committed_tx (bb_txs a) = map committed_tx (bb_txs b)"
proof -
  note enc = assms(1,2) [unfolded encodable_body_def list_all_iff]
  from assms(3) have head: "bb_validator a = bb_validator b" "bb_last_epoch a = bb_last_epoch b"
    "bb_nonce a = bb_nonce b" "bb_created a = bb_created b" "bb_dispatched a = bb_dispatched b"
    "bb_merkle_root a = bb_merkle_root b"
    "u64_of_usize (length (bb_application_state a)) = u64_of_usize (length (bb_application_state b))"
    and r1: "bb_application_state a
      @ u64_to_le_bytes (u64_of_usize (length (bb_encounter_records a)))
      @ concat (map encounter_record_bytes (bb_encounter_records a))
      @ u64_to_le_bytes (u64_of_usize (length (bb_node_admissions a)))
      @ concat (map admission_bytes (bb_node_admissions a))
      @ concat (map committed_tx_bytes (map committed_tx (bb_txs a)))
    = bb_application_state b
      @ u64_to_le_bytes (u64_of_usize (length (bb_encounter_records b)))
      @ concat (map encounter_record_bytes (bb_encounter_records b))
      @ u64_to_le_bytes (u64_of_usize (length (bb_node_admissions b)))
      @ concat (map admission_bytes (bb_node_admissions b))
      @ concat (map committed_tx_bytes (map committed_tx (bb_txs b)))"
    by (simp_all add: body_to_bytes_def body_slices_def tx_slices_bytes append_eq_same_length del: map_map)
  have "length (bb_application_state a) = length (bb_application_state b)"
    using head(7) enc by (simp add: u64_of_usize_inject)
  with r1 have app: "bb_application_state a = bb_application_state b"
    and encs: "u64_of_usize (length (bb_encounter_records a)) = u64_of_usize (length (bb_encounter_records b))"
    and r2: "concat (map encounter_record_bytes (bb_encounter_records a))
      @ (u64_to_le_bytes (u64_of_usize (length (bb_node_admissions a)))
      @ concat (map admission_bytes (bb_node_admissions a))
      @ concat (map committed_tx_bytes (map committed_tx (bb_txs a))))
    = concat (map encounter_record_bytes (bb_encounter_records b))
      @ (u64_to_le_bytes (u64_of_usize (length (bb_node_admissions b)))
      @ concat (map admission_bytes (bb_node_admissions b))
      @ concat (map committed_tx_bytes (map committed_tx (bb_txs b))))"
    by (simp_all add: append_eq_same_length)
  have "length (bb_encounter_records a) = length (bb_encounter_records b)"
    using encs enc by (simp add: u64_of_usize_inject)
  note d1 = delimited_list [OF encounter_records_delimited this _ r2]
  then have adms: "u64_of_usize (length (bb_node_admissions a)) = u64_of_usize (length (bb_node_admissions b))"
    and r3: "concat (map admission_bytes (bb_node_admissions a))
      @ concat (map committed_tx_bytes (map committed_tx (bb_txs a)))
    = concat (map admission_bytes (bb_node_admissions b))
      @ concat (map committed_tx_bytes (map committed_tx (bb_txs b)))"
    by (simp_all add: append_eq_same_length)
  have "length (bb_node_admissions a) = length (bb_node_admissions b)"
    using adms enc by (simp add: u64_of_usize_inject)
  note d2 = delimited_list [OF admissions_delimited this _ r3]
  have "bb_node_admissions a = bb_node_admissions b
    \<and> concat (map committed_tx_bytes (map committed_tx (bb_txs a)))
      = concat (map committed_tx_bytes (map committed_tx (bb_txs b)))"
    using d2 enc by blast
  moreover have "map committed_tx (bb_txs a) = map committed_tx (bb_txs b)"
    by (rule delimited_list_to_end [OF committed_tx_delimited committed_tx_bytes_nonempty])
      (use enc calculation in \<open>auto simp: committed_tx_def\<close>)
  ultimately show ?thesis using head app d1 by simp
qed

lemma integrity_Ok_iff:
  "verify_unsigned_integrity_with_hash E b h = Ok () \<longleftrightarrow>
    length (bb_application_state (block_body b)) \<le> BLOCK_APPLICATION_STATE_MAX_BYTES
    \<and> validate_encounter_records E (block_body b) = Ok ()
    \<and> validate_node_admissions E (block_body b) = Ok ()
    \<and> validate_transactions E (block_body b) = Ok ()
    \<and> block_hash b = h \<and> body_hash E (block_body b) = h
    \<and> bb_merkle_root (block_body b) = compute_merkle_root E (block_body b)"
  by (auto simp: verify_unsigned_integrity_with_hash_def validate_application_state_len_def
      hash_and_merkle_root_eq not_less)

lemma try_fold_unit_Ok: "try_fold (\<lambda>_. f) () xs = Ok () \<longleftrightarrow> (\<forall>x\<in>set xs. f x = Ok ())"
  by (induction xs) auto

lemma validate_transactions_Ok:
  "validate_transactions E b = Ok () \<longleftrightarrow> (\<forall>tx\<in>set (bb_txs b). validate_filtered_integrity E tx = Ok ())"
  by (simp add: validate_transactions_def try_fold_unit_Ok)

lemma validate_encounter_records_Ok:
  "validate_encounter_records E b = Ok () \<longleftrightarrow>
    (\<forall>r\<in>set (bb_encounter_records b). eb_observer (er_body r) = bb_validator b \<and> encounter_verify E r = Ok ())"
  by (auto simp: validate_encounter_records_def try_fold_unit_Ok)

lemma materialize_tx_committed [simp]:
  "committed_tx (materialize_tx_for tx viewer) = committed_tx tx"
  "tx_hash (materialize_tx_for tx viewer) = tx_hash tx"
  "canonical_payload (materialize_tx_for tx viewer) = canonical_payload tx"
  "canonical_payload_encoded_len (materialize_tx_for tx viewer) = canonical_payload_encoded_len tx"
  by (auto simp: materialize_tx_for_def committed_tx_def canonical_payload_def from_filtered_parts_def
      canonical_payload_encoded_len_def split: option.splits)

lemma materialize_tx_valid:
  "validate_filtered_integrity E tx = Ok () \<Longrightarrow> validate_filtered_integrity E (materialize_tx_for tx viewer) = Ok ()"
  by (auto simp: materialize_tx_for_def validate_filtered_integrity_def from_filtered_parts_def
      split: option.splits FilteredPayloadView.splits)

lemma materialize_tx_hides:
  assumes "validate_filtered_integrity E tx = Ok ()"
  shows "case tx_filtered_slot (materialize_tx_for tx viewer) of None \<Rightarrow> True
    | Some slot \<Rightarrow> is_target slot viewer \<or> tx_payload (materialize_tx_for tx viewer) = []"
  using assms by (cases "tx_filtered_slot tx"; cases "tx_filtered_view tx")
    (auto simp: materialize_tx_for_def validate_filtered_integrity_def from_filtered_parts_def)

lemma body_slices_committed:
  assumes "a\<lparr>bb_txs := []\<rparr> = b\<lparr>bb_txs := []\<rparr>" "map committed_tx (bb_txs a) = map committed_tx (bb_txs b)"
  shows "body_to_bytes a = body_to_bytes b"
proof -
  have fields: "bb_validator a = bb_validator b" "bb_last_epoch a = bb_last_epoch b" "bb_nonce a = bb_nonce b"
    "bb_created a = bb_created b" "bb_dispatched a = bb_dispatched b" "bb_merkle_root a = bb_merkle_root b"
    "bb_application_state a = bb_application_state b" "bb_encounter_records a = bb_encounter_records b"
    "bb_node_admissions a = bb_node_admissions b"
    using assms(1) by (cases a; cases b; simp)+
  then show ?thesis
    using assms(2) by (simp add: body_to_bytes_def body_slices_def tx_slices_bytes del: map_map)
qed


section \<open>Sample blocks\<close>

definition sample_body :: "PubKey \<Rightarrow> Transaction list \<Rightarrow> BlockBody" where
  "sample_body k txs = \<lparr>bb_validator = k, bb_last_epoch = default_hash, bb_nonce = 1, bb_created = 5,
     bb_dispatched = 0, bb_merkle_root = default_hash, bb_application_state = [7],
     bb_encounter_records = [], bb_node_admissions = [], bb_txs = txs\<rparr>"

definition sample_block :: "PubKey \<Rightarrow> Transaction list \<Rightarrow> Block" where
  "sample_block k txs = \<lparr>block_hash = default_hash, block_signature = default_signature,
     block_body = sample_body k txs\<rparr>"

definition sample_slot :: FilteredTransactionSlot where
  "sample_slot = \<lparr>fs_key_hash = default_hash, fs_kind = 3, fs_targets = [PubKey 4],
     fs_payload_commitment = sha256 sample_crypto [1, 2], fs_payload_len = 2, fs_delivery_policy = Direct\<rparr>"

definition sample_filtered_tx :: Transaction where
  "sample_filtered_tx = from_filtered_parts (slot_hash sample_crypto sample_slot) sample_slot [1, 2] Full"

lemma sample_filtered_tx_valid: "validate_filtered_integrity sample_crypto sample_filtered_tx = Ok ()"
  by (simp add: sample_filtered_tx_def from_filtered_parts_def validate_filtered_integrity_def
      slot_validate_def sample_slot_def targets_are_sorted_def targets_are_unique_def u64_of_usize_def)

lemma sample_payload_small: "length (canonical_payload sample_filtered_tx) \<le> usize_max"
  unfolding canonical_payload_len
  by (simp add: canonical_payload_encoded_len_def sample_filtered_tx_def from_filtered_parts_def
      slot_encoded_len_def sample_slot_def FILTERED_TRANSACTION_SLOT_DOMAIN_def usize_max_def)

lemma sealed_body:
  "block_body (sign_with E b signer) = (block_body b)\<lparr>bb_validator := signer_public_key E signer,
     bb_merkle_root := compute_merkle_root E (block_body b)\<rparr>"
  "block_hash (sign_with E b signer) = body_hash E (block_body (sign_with E b signer))"
  "block_signature (sign_with E b signer) = ed_sign E signer (hash_as_ref (block_hash (sign_with E b signer)))"
  by (simp_all add: sign_with_def seal_def Let_def compute_merkle_root_def)

lemma sign_with_integrity:
  assumes "honest_signatures E"
    and "length (bb_application_state (block_body b)) \<le> BLOCK_APPLICATION_STATE_MAX_BYTES"
    and "\<forall>r\<in>set (bb_encounter_records (block_body b)).
      eb_observer (er_body r) = signer_public_key E signer \<and> encounter_verify E r = Ok ()"
    and "\<forall>a\<in>set (bb_node_admissions (block_body b)). admission_verify E a = Ok ()"
    and "\<forall>tx\<in>set (bb_txs (block_body b)). validate_filtered_integrity E tx = Ok ()"
  shows "verify_integrity E (sign_with E b signer) = Ok ()"
proof -
  let ?b = "sign_with E b signer"
  have "verify_unsigned_integrity_with_hash E ?b (block_hash ?b) = Ok ()"
    using assms(2-5) unfolding integrity_Ok_iff
    by (simp add: sealed_body validate_encounter_records_Ok validate_node_admissions_def try_fold_unit_Ok
        validate_transactions_Ok compute_merkle_root_def)
  moreover have "signature_verify E (block_signature ?b) (hash_as_ref (block_hash ?b))
      (bb_validator (block_body ?b)) = Ok ()"
    unfolding sealed_body(3) using honest_signature_verifies [OF assms(1)]
    by (simp add: sealed_body(1) signer_public_key_def)
  ultimately show ?thesis by (simp add: verify_integrity_def verify_integrity_with_hash_def)
qed


definition entry_order_key ::
  "crypto \<Rightarrow> (HashType, Block) btree_map \<Rightarrow> HashType \<times> Block \<Rightarrow> HashType" where
  "entry_order_key E blocks = (\<lambda>(h, b). fair_block_order_key E (fair_block_order_seed E blocks)
    (fair_order_transaction_count blocks) h b)"


section \<open>Properties of blocks\<close>

text \<open>C12: the block hash commits to the block: two blocks that pass the integrity check under the same
  hash have, unless their two encodings collide under SHA-256, the same validator, epoch,
  nonce, times, Merkle root, application state, encounter records and admissions, and
  transaction by transaction the same identifier and canonical payload.\<close>

theorem block_hash_commits_to_body:
  assumes "verify_unsigned_integrity_with_hash E a h = Ok ()" "verify_unsigned_integrity_with_hash E b h = Ok ()"
    and "encodable_body (block_body a)" "encodable_body (block_body b)"
    and "sha256 E (body_to_bytes (block_body a)) = sha256 E (body_to_bytes (block_body b))
      \<Longrightarrow> body_to_bytes (block_body a) = body_to_bytes (block_body b)"
  shows "(block_body a)\<lparr>bb_txs := []\<rparr> = (block_body b)\<lparr>bb_txs := []\<rparr>
    \<and> map committed_tx (bb_txs (block_body a)) = map committed_tx (bb_txs (block_body b))"
  using assms by (intro body_to_bytes_inject) (auto simp: integrity_Ok_iff body_hash_to_bytes)

theorem block_hash_commits_to_body_witness:
  "let a = sign_with sample_crypto (sample_block (PubKey 9) [sample_filtered_tx]) (SecKey 4);
       b = materialize_for a (PubKey 5)
   in (block_body a)\<lparr>bb_txs := []\<rparr> = (block_body b)\<lparr>bb_txs := []\<rparr>
    \<and> map committed_tx (bb_txs (block_body a)) = map committed_tx (bb_txs (block_body b))"
proof -
  let ?a = "sign_with sample_crypto (sample_block (PubKey 9) [sample_filtered_tx]) (SecKey 4)"
  let ?b = "materialize_for ?a (PubKey 5)"
  have bytes: "body_to_bytes (block_body ?b) = body_to_bytes (block_body ?a)"
    by (rule body_slices_committed) (simp_all add: materialize_for_def)
  have "verify_integrity sample_crypto ?a = Ok ()"
    by (rule sign_with_integrity [OF sample_crypto_honest])
      (simp_all add: sample_block_def sample_body_def BLOCK_APPLICATION_STATE_MAX_BYTES_def
        sample_filtered_tx_valid)
  then have a: "verify_unsigned_integrity_with_hash sample_crypto ?a (block_hash ?a) = Ok ()"
    by (simp add: verify_integrity_def verify_integrity_with_hash_def)
  have b: "verify_unsigned_integrity_with_hash sample_crypto ?b (block_hash ?a) = Ok ()"
    using a bytes materialize_tx_valid unfolding integrity_Ok_iff body_hash_to_bytes
    by (auto simp: materialize_for_def validate_encounter_records_def validate_node_admissions_def
        validate_transactions_Ok compute_merkle_root_def comp_def)
  have "encodable_body (block_body ?a)" "encodable_body (block_body ?b)"
    using sample_payload_small
    by (simp_all add: sealed_body materialize_for_def sample_block_def sample_body_def encodable_body_def
        usize_max_def)
  then show ?thesis
    unfolding Let_def by (intro block_hash_commits_to_body [OF a b]) (simp_all only: bytes)
qed

text \<open>Signing a block makes it pass the integrity check: with an application state within the
  limit, encounter records signed by the signer, admissions that verify and well-formed
  transactions, the signed block has the signer as validator, verifies under its own hash and
  its signature verifies.\<close>

theorem signed_block_verifies:
  assumes "honest_signatures E"
    and "length (bb_application_state (block_body b)) \<le> BLOCK_APPLICATION_STATE_MAX_BYTES"
    and "\<forall>r\<in>set (bb_encounter_records (block_body b)).
      eb_observer (er_body r) = signer_public_key E signer \<and> encounter_verify E r = Ok ()"
    and "\<forall>a\<in>set (bb_node_admissions (block_body b)). admission_verify E a = Ok ()"
    and "\<forall>tx\<in>set (bb_txs (block_body b)). validate_filtered_integrity E tx = Ok ()"
  shows "verify_integrity E (sign_with E b signer) = Ok ()
    \<and> verify_signature E (sign_with E b signer) = Ok ()
    \<and> bb_validator (block_body (sign_with E b signer)) = signer_public_key E signer"
  using sign_with_integrity [OF assms]
  by (simp add: verify_integrity_def verify_integrity_with_hash_def verify_signature_def sealed_body)

theorem signed_block_verifies_witness:
  "verify_integrity sample_crypto (sign_with sample_crypto (sample_block (PubKey 9) [sample_filtered_tx]) (SecKey 4)) = Ok ()"
  using signed_block_verifies [OF sample_crypto_honest, of "sample_block (PubKey 9) [sample_filtered_tx]" "SecKey 4"]
  by (simp add: sample_block_def sample_body_def BLOCK_APPLICATION_STATE_MAX_BYTES_def sample_filtered_tx_valid)

text \<open>The local view a node materializes for a viewer keeps the block valid: hash and signature are
  unchanged, a block that verifies still verifies, and no filtered payload is left visible to a
  viewer outside its targets.\<close>

theorem materialized_view_verifies:
  assumes "verify_integrity E b = Ok ()"
  shows "verify_integrity E (materialize_for b viewer) = Ok ()
    \<and> block_hash (materialize_for b viewer) = block_hash b
    \<and> list_all (\<lambda>tx. case tx_filtered_slot tx of
          None \<Rightarrow> True
        | Some slot \<Rightarrow> is_target slot viewer \<or> tx_payload tx = []) (bb_txs (block_body (materialize_for b viewer)))"
proof -
  have bytes: "body_to_bytes (block_body (materialize_for b viewer)) = body_to_bytes (block_body b)"
    by (rule body_slices_committed) (simp_all add: materialize_for_def)
  have ok: "verify_unsigned_integrity_with_hash E b (block_hash b) = Ok ()"
    using assms by (simp add: verify_integrity_def verify_integrity_with_hash_def)
  then have "verify_unsigned_integrity_with_hash E (materialize_for b viewer) (block_hash b) = Ok ()"
    using bytes materialize_tx_valid unfolding integrity_Ok_iff body_hash_to_bytes
    by (auto simp: materialize_for_def validate_encounter_records_def validate_node_admissions_def
        validate_transactions_Ok compute_merkle_root_def comp_def)
  then have "verify_integrity E (materialize_for b viewer) = Ok ()"
    using assms by (simp add: verify_integrity_def verify_integrity_with_hash_def) (simp add: materialize_for_def)
  moreover have "case tx_filtered_slot (materialize_tx_for tx viewer) of None \<Rightarrow> True
      | Some slot \<Rightarrow> is_target slot viewer \<or> tx_payload (materialize_tx_for tx viewer) = []"
    if "tx \<in> set (bb_txs (block_body b))" for tx
    using ok that by (intro materialize_tx_hides [of E]) (simp add: integrity_Ok_iff validate_transactions_Ok)
  ultimately show ?thesis by (auto simp: materialize_for_def list_all_iff)
qed

theorem materialized_view_verifies_witness:
  "verify_integrity sample_crypto (materialize_for
     (sign_with sample_crypto (sample_block (PubKey 9) [sample_filtered_tx]) (SecKey 4)) (PubKey 5)) = Ok ()"
proof -
  have "verify_integrity sample_crypto
      (sign_with sample_crypto (sample_block (PubKey 9) [sample_filtered_tx]) (SecKey 4)) = Ok ()"
    by (rule sign_with_integrity [OF sample_crypto_honest])
      (simp_all add: sample_block_def sample_body_def BLOCK_APPLICATION_STATE_MAX_BYTES_def
        sample_filtered_tx_valid)
  from materialized_view_verifies [OF this, of "PubKey 5"] show ?thesis by simp
qed

text \<open>C40: a filtered transaction is not bound to its payload by the block: replacing every filtered
  transaction of a valid block by a transparent one that carries the bytes of the slot as its
  payload gives another block with the same hash and signature that passes the integrity check.\<close>

theorem transparent_substitute_verifies:
  assumes "verify_integrity E b = Ok ()"
  shows "verify_integrity E (b\<lparr>block_body := (block_body b)\<lparr>bb_txs := map (\<lambda>tx.
      \<lparr>tx_hash = tx_hash tx, tx_payload = canonical_payload tx, tx_filtered_slot = None,
       tx_filtered_view = Transparent\<rparr>) (bb_txs (block_body b))\<rparr>\<rparr>) = Ok ()"
    (is "verify_integrity E ?b = Ok ()")
proof -
  have "body_to_bytes (block_body ?b) = body_to_bytes (block_body b)"
    by (rule body_slices_committed) (simp_all add: committed_tx_def canonical_payload_def)
  moreover have "verify_unsigned_integrity_with_hash E b (block_hash b) = Ok ()"
    using assms by (simp add: verify_integrity_def verify_integrity_with_hash_def)
  ultimately have "verify_unsigned_integrity_with_hash E ?b (block_hash b) = Ok ()"
    unfolding integrity_Ok_iff body_hash_to_bytes
    by (auto simp: validate_encounter_records_def validate_node_admissions_def
        validate_transactions_Ok compute_merkle_root_def comp_def validate_filtered_integrity_def)
  then show ?thesis using assms by (simp add: verify_integrity_def verify_integrity_with_hash_def)
qed

theorem transparent_substitute_verifies_witness:
  "verify_integrity sample_crypto ((sign_with sample_crypto (sample_block (PubKey 9) [sample_filtered_tx]) (SecKey 4))
     \<lparr>block_body := (block_body (sign_with sample_crypto (sample_block (PubKey 9) [sample_filtered_tx]) (SecKey 4)))
       \<lparr>bb_txs := [\<lparr>tx_hash = tx_hash sample_filtered_tx, tx_payload = slot_bytes sample_slot,
         tx_filtered_slot = None, tx_filtered_view = Transparent\<rparr>]\<rparr>\<rparr>) = Ok ()"
proof -
  let ?b = "sign_with sample_crypto (sample_block (PubKey 9) [sample_filtered_tx]) (SecKey 4)"
  have "verify_integrity sample_crypto ?b = Ok ()"
    by (rule sign_with_integrity [OF sample_crypto_honest])
      (simp_all add: sample_block_def sample_body_def BLOCK_APPLICATION_STATE_MAX_BYTES_def
        sample_filtered_tx_valid)
  moreover have "bb_txs (block_body ?b) = [sample_filtered_tx]"
    "canonical_payload sample_filtered_tx = slot_bytes sample_slot"
    by (simp_all add: sealed_body sample_block_def sample_body_def canonical_payload_def
        sample_filtered_tx_def from_filtered_parts_def)
  ultimately show ?thesis using transparent_substitute_verifies [of sample_crypto ?b] by simp
qed

text \<open>C23: fair ordering rearranges the blocks of an epoch and nothing else, the ordered blocks are sorted by
  their ordering keys (ties by block hash), and the separately computed list of commitments is
  the keys of the ordered blocks in the same order.\<close>

theorem fair_ordering_spec:
  "mset (fair_ordered_blocks E blocks) = mset (bm_entries blocks)
    \<and> sorted (map (\<lambda>e. (entry_order_key E blocks e, fst e)) (fair_ordered_blocks E blocks))
    \<and> fair_ordered_block_commitments E blocks
        = map (entry_order_key E blocks) (fair_ordered_blocks E blocks)"
proof -
  let ?seed = "fair_block_order_seed E blocks" and ?n = "fair_order_transaction_count blocks"
  let ?f = "\<lambda>(h, b). (fair_block_order_key E ?seed ?n h b, h, b)"
  let ?k = "\<lambda>(key :: HashType, h :: HashType, b :: Block). (key, h)"
  let ?drop = "\<lambda>(key :: HashType, h :: HashType, b :: Block). (h, b)"
  let ?sorted = "sort_key ?k (map ?f (bm_entries blocks))"
  have fair: "fair_ordered_blocks E blocks = map ?drop ?sorted"
    by (simp add: fair_ordered_blocks_def Let_def)
  have elem: "x = ?f (?drop x)" if "x \<in> set ?sorted" for x
    using that by auto
  have drop_f: "?drop (?f e) = e" for e by (cases e) simp
  have "mset (map ?drop ?sorted) = image_mset ?drop (mset (map ?f (bm_entries blocks)))" by simp
  also have "\<dots> = mset (map (\<lambda>e. ?drop (?f e)) (bm_entries blocks))"
    by (simp add: multiset.map_comp comp_def)
  also have "\<dots> = mset (bm_entries blocks)" by (simp only: drop_f list.map_ident)
  finally have perm: "mset (fair_ordered_blocks E blocks) = mset (bm_entries blocks)" by (simp only: fair)
  have keys: "map (\<lambda>e. (entry_order_key E blocks e, fst e)) (fair_ordered_blocks E blocks) = map ?k ?sorted"
    unfolding fair map_map
  proof (rule map_cong [OF refl])
    fix x
    assume "x \<in> set ?sorted"
    then show "((\<lambda>e. (entry_order_key E blocks e, fst e)) \<circ> ?drop) x = ?k x"
      by (auto simp: entry_order_key_def)
  qed
  then have srt: "sorted (map (\<lambda>e. (entry_order_key E blocks e, fst e)) (fair_ordered_blocks E blocks))" by simp
  have "sort (map (\<lambda>(h, b). (fair_block_order_key E ?seed ?n h b, h)) (bm_entries blocks)) = map ?k ?sorted"
    by (rule properties_for_sort)
      (simp_all add: multiset.map_comp comp_def case_prod_beta')
  then have "fair_ordered_block_commitments E blocks = map fst (map ?k ?sorted)"
    by (simp add: fair_ordered_block_commitments_def Let_def)
  also have "\<dots> = map (entry_order_key E blocks) (fair_ordered_blocks E blocks)"
    unfolding keys [symmetric] by simp
  finally show ?thesis using perm srt by blast
qed

end
