(* ===== verification/Membership.thy ===== *)
theory Membership
  imports Block "HOL-Library.Product_Lexorder"
begin

text \<open>
  \<open>src/src/membership.rs\<close>: the registry of committed members and its operations, membership leases, and the
  transition of the verifier set at an epoch boundary from the encounter records and admissions
  of the committed blocks.
\<close>

section \<open>Members\<close>

datatype MemberCapability = CapClient | CapRelay | CapValidator

fun capability_rank :: "MemberCapability \<Rightarrow> nat" where
  "capability_rank CapClient = 0"
| "capability_rank CapRelay = 1"
| "capability_rank CapValidator = 2"

lemma capability_rank_inject [simp]: "capability_rank a = capability_rank b \<longleftrightarrow> a = b"
  by (cases a; cases b) simp_all

instantiation MemberCapability :: linorder
begin
definition less_eq_MemberCapability :: "MemberCapability \<Rightarrow> MemberCapability \<Rightarrow> bool" where
  "less_eq_MemberCapability a b \<longleftrightarrow> capability_rank a \<le> capability_rank b"
definition less_MemberCapability :: "MemberCapability \<Rightarrow> MemberCapability \<Rightarrow> bool" where
  "less_MemberCapability a b \<longleftrightarrow> capability_rank a < capability_rank b"
instance
  by standard (auto simp: less_eq_MemberCapability_def less_MemberCapability_def dest: antisym)
end

datatype MemberStatus = StatusActive | StatusSuspended | StatusRevoked

record MemberRecord =
  mr_identity :: NodeIdentity
  mr_capabilities :: "MemberCapability btree_set"
  mr_generation :: u64
  mr_status :: MemberStatus

definition member_new :: "NodeIdentity \<Rightarrow> MemberCapability list \<Rightarrow> u64 \<Rightarrow> MemberRecord result" where
  "member_new identity capabilities0 generation =
    (if generation = 0 then Err InvalidConfiguration
     else let capabilities = bs_of_list capabilities0
          in if bm_is_empty capabilities then Err InvalidConfiguration
             else Ok \<lparr>mr_identity = public_only identity, mr_capabilities = capabilities,
                      mr_generation = generation, mr_status = StatusActive\<rparr>)"

definition mr_public_key :: "MemberRecord \<Rightarrow> PubKey" where
  "mr_public_key r = ni_public_key (mr_identity r)"

definition is_active_with :: "MemberRecord \<Rightarrow> MemberCapability \<Rightarrow> bool" where
  "is_active_with r capability \<longleftrightarrow> mr_status r = StatusActive \<and> bm_contains (mr_capabilities r) capability"

type_synonym MemberSet = "(PubKey, MemberRecord) btree_map"

text \<open>The bootstrap record of a verifier; its construction cannot fail.\<close>

definition bootstrap_member :: "NodeIdentity \<Rightarrow> MemberRecord" where
  "bootstrap_member identity = \<lparr>mr_identity = public_only identity,
    mr_capabilities = bs_of_list [CapRelay, CapValidator], mr_generation = 1, mr_status = StatusActive\<rparr>"

definition from_verifiers :: "('m, PubKey, NodeIdentity) index_tree_ops \<Rightarrow> 'm \<Rightarrow> MemberSet" where
  "from_verifiers T verifiers =
    bm_of_list (map (\<lambda>identity. (mr_public_key (bootstrap_member identity), bootstrap_member identity))
      (it_values T verifiers))"

definition active_with :: "MemberSet \<Rightarrow> MemberCapability \<Rightarrow> MemberRecord list" where
  "active_with members capability = filter (\<lambda>r. is_active_with r capability) (bm_values members)"

definition active_validators :: "('m, PubKey, NodeIdentity) index_tree_ops \<Rightarrow> MemberSet \<Rightarrow> 'm" where
  "active_validators T members =
    fold (\<lambda>r verifiers. it_insert T (mr_public_key r) (mr_identity r) verifiers) (active_with members CapValidator)
      (it_new T)"

text \<open>The two loops of \<open>sync_legacy_validators\<close>.\<close>

definition suspend_missing :: "('m, PubKey, NodeIdentity) index_tree_ops \<Rightarrow> 'm \<Rightarrow> MemberRecord \<Rightarrow> MemberRecord" where
  "suspend_missing T verifiers r =
    (if bm_contains (mr_capabilities r) CapValidator \<and> \<not> it_contains_key T verifiers (mr_public_key r)
     then r\<lparr>mr_status := StatusSuspended\<rparr> else r)"

definition sync_verifier :: "NodeIdentity \<Rightarrow> MemberSet \<Rightarrow> MemberSet" where
  "sync_verifier identity members =
    bm_insert (ni_public_key identity)
      (case bm_get members (ni_public_key identity) of
         Some r \<Rightarrow>
           let r' = r\<lparr>mr_identity := public_only identity,
                 mr_capabilities := bm_insert CapValidator () (mr_capabilities r)\<rparr>
           in if mr_status r \<noteq> StatusRevoked then r'\<lparr>mr_status := StatusActive\<rparr> else r'
       | None \<Rightarrow> bootstrap_member identity) members"

definition sync_legacy_validators :: "('m, PubKey, NodeIdentity) index_tree_ops \<Rightarrow> 'm \<Rightarrow> MemberSet \<Rightarrow> MemberSet" where
  "sync_legacy_validators T verifiers members =
    fold sync_verifier (it_values T verifiers) (bm_map (\<lambda>_. suspend_missing T verifiers) members)"


section \<open>Operations on the registry\<close>

datatype MemberOperation =
    OpAdd MemberRecord
  | OpRevoke PubKey u64
  | OpSuspend PubKey u64
  | OpRotateKey PubKey MemberRecord

definition reject_validator_capability_grant :: "MemberRecord \<Rightarrow> unit result" where
  "reject_validator_capability_grant r =
    (if bm_contains (mr_capabilities r) CapValidator then Err InvalidConfiguration else Ok ())"

definition saturating_succ :: "u64 \<Rightarrow> u64" where
  "saturating_succ n = (if n = - 1 then n else n + 1)"

definition require_next_member_generation :: "MemberRecord \<Rightarrow> u64 \<Rightarrow> unit result" where
  "require_next_member_generation r generation =
    (if generation \<noteq> saturating_succ (mr_generation r) then Err InvalidConfiguration else Ok ())"

fun member_apply :: "MemberSet \<Rightarrow> MemberOperation \<Rightarrow> MemberSet result" where
  "member_apply members (OpAdd r) =
    (if bm_contains members (mr_public_key r) \<or> mr_status r \<noteq> StatusActive then Err InvalidConfiguration
     else and_then (reject_validator_capability_grant r) (\<lambda>_.
       and_then (member_new (mr_identity r) (bm_keys (mr_capabilities r)) (mr_generation r)) (\<lambda>validated.
         Ok (bm_insert (mr_public_key validated) validated members))))"
| "member_apply members (OpRevoke public_key generation) =
    and_then (ok_or (bm_get members public_key) UnknownSender) (\<lambda>r.
    and_then (require_next_member_generation r generation) (\<lambda>_.
      Ok (bm_insert public_key (r\<lparr>mr_generation := generation, mr_status := StatusRevoked\<rparr>) members)))"
| "member_apply members (OpSuspend public_key generation) =
    and_then (ok_or (bm_get members public_key) UnknownSender) (\<lambda>r.
    and_then (require_next_member_generation r generation) (\<lambda>_.
      if mr_status r = StatusRevoked then Err InvalidConfiguration
      else Ok (bm_insert public_key (r\<lparr>mr_generation := generation, mr_status := StatusSuspended\<rparr>) members)))"
| "member_apply members (OpRotateKey old_public_key new_record) =
    (if bm_contains members (mr_public_key new_record) then Err InvalidConfiguration
     else and_then (reject_validator_capability_grant new_record) (\<lambda>_.
       and_then (ok_or (bm_get members old_public_key) UnknownSender) (\<lambda>old.
       and_then (require_next_member_generation old (mr_generation new_record)) (\<lambda>_.
       and_then (member_new (mr_identity new_record) (bm_keys (mr_capabilities new_record)) (mr_generation new_record))
         (\<lambda>validated.
         Ok (bm_insert (mr_public_key validated) validated
           (bm_insert old_public_key (old\<lparr>mr_generation := mr_generation new_record, mr_status := StatusRevoked\<rparr>)
             members)))))))"

definition validate_operation :: "MemberSet \<Rightarrow> MemberOperation \<Rightarrow> unit result" where
  "validate_operation members operation = and_then (member_apply members operation) (\<lambda>_. Ok ())"

record CommittedMemberOperation =
  co_group_id :: ConsensusGroupId
  co_parent_epoch_hash :: HashType
  co_operation :: MemberOperation

record MembershipLeaseStatement =
  ls_group_id :: ConsensusGroupId
  ls_epoch_hash :: HashType
  ls_epoch_nonce :: Nonce
  ls_member_set_hash :: HashType
  ls_challenge :: "256 word"
  ls_issued_at_unix_millis :: u64
  ls_valid_for_millis :: u64

text \<open>The Borsh encodings of member operations, member sets and lease statements are a parameter.\<close>

record member_codec =
  borsh_operation :: "CommittedMemberOperation \<Rightarrow> bytes option"
  borsh_operation_from_slice :: "bytes \<Rightarrow> CommittedMemberOperation option"
  borsh_member_set :: "MemberSet \<Rightarrow> bytes option"
  borsh_lease :: "MembershipLeaseStatement \<Rightarrow> bytes option"

definition MEMBER_OPERATION_PREFIX :: bytes where
  "MEMBER_OPERATION_PREFIX = string_bytes ''BLOSSOM-MEMBER-1''"

definition MEMBER_SET_HASH_DOMAIN :: bytes where
  "MEMBER_SET_HASH_DOMAIN = string_bytes ''blossom/member-set/v1''"

definition member_set_hash :: "crypto \<Rightarrow> member_codec \<Rightarrow> MemberSet \<Rightarrow> HashType result" where
  "member_set_hash E B members =
    and_then (ok_or (borsh_member_set B members) WireProtocol) (\<lambda>bytes. Ok (sha256 E (MEMBER_SET_HASH_DOMAIN @ bytes)))"

definition operation_to_transaction :: "crypto \<Rightarrow> member_codec \<Rightarrow> CommittedMemberOperation \<Rightarrow> Transaction result" where
  "operation_to_transaction E B operation =
    and_then (ok_or (borsh_operation B operation) WireProtocol) (\<lambda>encoded.
      Ok (transaction_new E (MEMBER_OPERATION_PREFIX @ encoded)))"

definition operation_from_transaction :: "member_codec \<Rightarrow> Transaction \<Rightarrow> CommittedMemberOperation option result" where
  "operation_from_transaction B tx =
    (let n = length MEMBER_OPERATION_PREFIX in
     if take n (tx_payload tx) \<noteq> MEMBER_OPERATION_PREFIX then Ok None
     else and_then (ok_or (borsh_operation_from_slice B (drop n (tx_payload tx))) WireProtocol) (\<lambda>operation.
       Ok (Some operation)))"

text \<open>One transaction of a committed block; operations that are malformed, belong elsewhere or fail are skipped.\<close>

definition apply_member_transaction ::
  "member_codec \<Rightarrow> ConsensusGroupId \<Rightarrow> HashType \<Rightarrow> Transaction \<Rightarrow> MemberSet \<Rightarrow> MemberSet" where
  "apply_member_transaction B group_id parent_epoch_hash tx members =
    (case operation_from_transaction B tx of
       Inr (Some operation) \<Rightarrow>
         if co_group_id operation \<noteq> group_id \<or> co_parent_epoch_hash operation \<noteq> parent_epoch_hash then members
         else (case member_apply members (co_operation operation) of Inl _ \<Rightarrow> members | Inr members' \<Rightarrow> members')
     | _ \<Rightarrow> members)"

definition apply_committed_member_operations ::
  "member_codec \<Rightarrow> MemberSet \<Rightarrow> (HashType, Block) btree_map \<Rightarrow> ConsensusGroupId \<Rightarrow> HashType \<Rightarrow> MemberSet" where
  "apply_committed_member_operations B previous blocks group_id parent_epoch_hash =
    fold (\<lambda>block members. fold (apply_member_transaction B group_id parent_epoch_hash) (bb_txs (block_body block)) members)
      (bm_values blocks) previous"

definition apply_epoch_member_registry_transition ::
  "('m, PubKey, NodeIdentity) index_tree_ops \<Rightarrow> member_codec \<Rightarrow> MemberSet \<Rightarrow> 'm \<Rightarrow> (HashType, Block) btree_map
    \<Rightarrow> ConsensusGroupId \<Rightarrow> HashType \<Rightarrow> MemberSet \<times> 'm" where
  "apply_epoch_member_registry_transition T B previous legacy_verifiers blocks group_id parent_epoch_hash =
    (let baseline = sync_legacy_validators T legacy_verifiers
           (if bm_is_empty previous then from_verifiers T legacy_verifiers else previous);
         nxt = apply_committed_member_operations B baseline blocks group_id parent_epoch_hash;
         validators = active_validators T nxt
     in if it_len T validators = 0 then (baseline, active_validators T baseline) else (nxt, validators))"


section \<open>Leases\<close>

definition MAX_MEMBERSHIP_LEASE_MILLIS :: u64 where
  "MAX_MEMBERSHIP_LEASE_MILLIS = 30000"

definition MEMBERSHIP_LEASE_DOMAIN :: bytes where
  "MEMBERSHIP_LEASE_DOMAIN = string_bytes ''blossom/membership-lease/v1''"

definition expires_at_unix_millis :: "MembershipLeaseStatement \<Rightarrow> u64 result" where
  "expires_at_unix_millis s =
    (if ls_issued_at_unix_millis s = 0 \<or> ls_valid_for_millis s = 0
       \<or> ls_valid_for_millis s > MAX_MEMBERSHIP_LEASE_MILLIS then Err FailedConsensus
     else if unat (ls_issued_at_unix_millis s) + unat (ls_valid_for_millis s) < 2 ^ 64
     then Ok (ls_issued_at_unix_millis s + ls_valid_for_millis s) else Err FailedConsensus)"

definition remaining_validity_at :: "MembershipLeaseStatement \<Rightarrow> u64 \<Rightarrow> u64 result" where
  "remaining_validity_at s now_unix_millis =
    and_then (expires_at_unix_millis s) (\<lambda>expires_at.
      if expires_at \<le> now_unix_millis \<or> expires_at > saturating_add_u64 now_unix_millis MAX_MEMBERSHIP_LEASE_MILLIS
      then Err FailedConsensus else Ok (expires_at - now_unix_millis))"

definition lease_signing_bytes :: "member_codec \<Rightarrow> MembershipLeaseStatement \<Rightarrow> bytes result" where
  "lease_signing_bytes B s =
    and_then (ok_or (borsh_lease B s) WireProtocol) (\<lambda>encoded. Ok (MEMBERSHIP_LEASE_DOMAIN @ encoded))"

record MembershipLeaseVote =
  lv_statement :: MembershipLeaseStatement
  lv_validator :: PubKey
  lv_signature :: Signature

definition lease_vote_signed ::
  "crypto \<Rightarrow> member_codec \<Rightarrow> MembershipLeaseStatement \<Rightarrow> SecretSigner \<Rightarrow> MembershipLeaseVote result" where
  "lease_vote_signed E B statement signer =
    and_then (lease_signing_bytes B statement) (\<lambda>bytes.
      Ok \<lparr>lv_statement = statement, lv_validator = signer_public_key E signer, lv_signature = ed_sign E signer bytes\<rparr>)"

definition lease_vote_verify :: "crypto \<Rightarrow> member_codec \<Rightarrow> MembershipLeaseVote \<Rightarrow> unit result" where
  "lease_vote_verify E B v =
    and_then (lease_signing_bytes B (lv_statement v)) (\<lambda>bytes. signature_verify E (lv_signature v) bytes (lv_validator v))"

record MembershipLeaseCertificate =
  lc_statement :: MembershipLeaseStatement
  lc_signatures :: "(PubKey, Signature) btree_map"

definition lease_from_votes ::
  "crypto \<Rightarrow> member_codec \<Rightarrow> MembershipLeaseStatement \<Rightarrow> MembershipLeaseVote list \<Rightarrow> MembershipLeaseCertificate result" where
  "lease_from_votes E B statement votes =
    and_then (try_fold (\<lambda>signatures v.
        if lv_statement v \<noteq> statement then Err InvalidConfiguration
        else and_then (lease_vote_verify E B v) (\<lambda>_.
          if bm_contains signatures (lv_validator v) then Err InvalidConfiguration
          else Ok (bm_insert (lv_validator v) (lv_signature v) signatures))) bm_empty votes) (\<lambda>signatures.
      Ok \<lparr>lc_statement = statement, lc_signatures = signatures\<rparr>)"

definition lease_certificate_verify ::
  "crypto \<Rightarrow> member_codec \<Rightarrow> ('m, PubKey, NodeIdentity) index_tree_ops \<Rightarrow> u64 \<Rightarrow> MembershipLeaseCertificate \<Rightarrow> 'm
    \<Rightarrow> unit result" where
  "lease_certificate_verify E B T now_unix_millis c validators =
    and_then (remaining_validity_at (lc_statement c) now_unix_millis) (\<lambda>_.
     if bm_len (lc_signatures c) < supermajority_count (it_len T validators) then Err FailedConsensus
     else and_then (lease_signing_bytes B (lc_statement c)) (\<lambda>message.
       try_fold (\<lambda>_ (validator, signature).
         if \<not> it_contains_key T validators validator then Err UnknownSender
         else signature_verify E signature message validator) () (bm_entries (lc_signatures c))))"


section \<open>Removal of verifiers\<close>

record ConsensusNodeRemovalPolicy =
  rp_enabled :: bool
  rp_min_remaining_verifiers :: usize
  rp_max_removals_per_epoch :: usize
  rp_required_observers :: "usize option"

definition removal_policy_default :: ConsensusNodeRemovalPolicy where
  "removal_policy_default = \<lparr>rp_enabled = False, rp_min_remaining_verifiers = 1, rp_max_removals_per_epoch = 1,
    rp_required_observers = None\<rparr>"

definition removal_policy_supermajority :: ConsensusNodeRemovalPolicy where
  "removal_policy_supermajority = \<lparr>rp_enabled = True, rp_min_remaining_verifiers = 1, rp_max_removals_per_epoch = 1,
    rp_required_observers = None\<rparr>"

definition required_observers_for :: "ConsensusNodeRemovalPolicy \<Rightarrow> usize \<Rightarrow> usize" where
  "required_observers_for policy verifier_count =
    (let supermajority = supermajority_count verifier_count
     in max (unwrap_or (rp_required_observers policy) supermajority) supermajority)"

record ConsensusNodeRemovalDecision =
  rd_subject :: PubKey
  rd_observer_count :: usize
  rd_required_observers :: usize
  rd_missing_signature_count :: usize
  rd_invalid_signature_count :: usize

record ConsensusNodeRemovalPlan =
  rm_decisions :: "ConsensusNodeRemovalDecision list"
  rm_retained_verifier_count :: usize

definition encounter_counts ::
  "crypto \<Rightarrow> ('m, PubKey, NodeIdentity) index_tree_ops \<Rightarrow> 'm \<Rightarrow> HashType \<Rightarrow> Nonce \<Rightarrow> Block \<Rightarrow> EncounterRecord \<Rightarrow> bool" where
  "encounter_counts E T verifiers last_epoch nonce block r \<longleftrightarrow>
    \<not> (eb_last_epoch (er_body r) \<noteq> last_epoch
       \<or> eb_nonce (er_body r) \<noteq> nonce
       \<or> eb_observer (er_body r) \<noteq> bb_validator (block_body block)
       \<or> eb_observer (er_body r) = eb_subject (er_body r)
       \<or> \<not> it_contains_key T verifiers (eb_observer (er_body r))
       \<or> \<not> it_contains_key T verifiers (eb_subject (er_body r))
       \<or> \<not> is_ok (encounter_verify E r))"

type_synonym removal_evidence = "(PubKey, (PubKey, EncounterOutcome) btree_map) btree_map"

definition add_encounter :: "EncounterRecord \<Rightarrow> removal_evidence \<Rightarrow> removal_evidence" where
  "add_encounter r evidence =
    (let body = er_body r;
         subject_evidence = unwrap_or (bm_get evidence (eb_subject body)) bm_empty;
         existing = unwrap_or (bm_get subject_evidence (eb_observer body)) (eb_outcome body);
         outcome = (if existing = MissingSignature \<and> eb_outcome body = InvalidSignature then InvalidSignature else existing)
     in bm_insert (eb_subject body) (bm_insert (eb_observer body) outcome subject_evidence) evidence)"

definition removal_evidence_of ::
  "crypto \<Rightarrow> ('m, PubKey, NodeIdentity) index_tree_ops \<Rightarrow> 'm \<Rightarrow> (HashType, Block) btree_map \<Rightarrow> HashType \<Rightarrow> Nonce
    \<Rightarrow> removal_evidence" where
  "removal_evidence_of E T verifiers committed_blocks last_epoch nonce =
    fold (\<lambda>block evidence.
      if \<not> it_contains_key T verifiers (bb_validator (block_body block)) then evidence
      else fold (\<lambda>r evidence. if encounter_counts E T verifiers last_epoch nonce block r then add_encounter r evidence
                 else evidence) (bb_encounter_records (block_body block)) evidence)
    (bm_values committed_blocks) bm_empty"

definition removal_candidate :: "usize \<Rightarrow> PubKey \<times> (PubKey, EncounterOutcome) btree_map \<Rightarrow> ConsensusNodeRemovalDecision option" where
  "removal_candidate required_observers entry =
    (case entry of (subject, observer_outcomes) \<Rightarrow>
      let observer_count = bm_len observer_outcomes in
      if observer_count < required_observers then None
      else Some \<lparr>rd_subject = subject, rd_observer_count = observer_count, rd_required_observers = required_observers,
        rd_missing_signature_count = length (filter (\<lambda>x. x = MissingSignature) (bm_values observer_outcomes)),
        rd_invalid_signature_count = length (filter (\<lambda>x. x = InvalidSignature) (bm_values observer_outcomes))\<rparr>)"

definition removal_order :: "ConsensusNodeRemovalDecision \<Rightarrow> int \<times> int \<times> PubKey" where
  "removal_order d = (- int (rd_observer_count d), - int (rd_invalid_signature_count d), rd_subject d)"

definition derive_consensus_node_removal_plan ::
  "crypto \<Rightarrow> ('m, PubKey, NodeIdentity) index_tree_ops \<Rightarrow> 'm \<Rightarrow> (HashType, Block) btree_map \<Rightarrow> HashType \<Rightarrow> Nonce
    \<Rightarrow> ConsensusNodeRemovalPolicy \<Rightarrow> ConsensusNodeRemovalPlan" where
  "derive_consensus_node_removal_plan E T verifiers committed_blocks last_epoch nonce policy =
    (let verifier_count = it_len T verifiers;
         nothing = \<lparr>rm_decisions = [], rm_retained_verifier_count = verifier_count\<rparr>
     in if \<not> rp_enabled policy \<or> verifier_count = 0 \<or> rp_max_removals_per_epoch policy = 0 then nothing
        else let required_observers = required_observers_for policy verifier_count
             in if required_observers = 0 then nothing
                else let candidates = sort_key removal_order (List.map_filter (removal_candidate required_observers)
                           (bm_entries (removal_evidence_of E T verifiers committed_blocks last_epoch nonce)));
                         removal_budget = min (saturating_sub verifier_count (rp_min_remaining_verifiers policy))
                           (rp_max_removals_per_epoch policy);
                         decisions = take removal_budget candidates
                     in \<lparr>rm_decisions = decisions,
                         rm_retained_verifier_count = saturating_sub verifier_count (length decisions)\<rparr>)"


section \<open>Admission of verifiers\<close>

record ConsensusNodeAdmissionDecision =
  ad_node :: NodeIdentity
  ad_admission_hash :: HashType
  ad_observer_count :: usize
  ad_required_observers :: usize

record ConsensusNodeAdmissionPlan =
  ap_admitted :: "NodeIdentity list"
  ap_decisions :: "ConsensusNodeAdmissionDecision list"
  ap_required_observers :: usize

record PendingNodeAdmission =
  pa_node :: NodeIdentity
  pa_admission_hash :: HashType
  pa_observers :: "PubKey btree_set"

type_synonym admission_evidence = "(HashType, PendingNodeAdmission) btree_map"

text \<open>One admission of a block: its hash is marked as seen in the block before the check for active
  verifiers.\<close>

definition observe_admission ::
  "crypto \<Rightarrow> ('m, PubKey, NodeIdentity) index_tree_ops \<Rightarrow> 'm \<Rightarrow> HashType \<Rightarrow> Nonce \<Rightarrow> PubKey \<Rightarrow> NodeAdmission
    \<Rightarrow> HashType btree_set \<times> admission_evidence \<Rightarrow> HashType btree_set \<times> admission_evidence" where
  "observe_admission E T verifiers last_epoch nonce observer admission state =
    (case state of (observed_in_block, evidence) \<Rightarrow>
      let body = na_body admission in
      if ab_last_epoch body \<noteq> last_epoch \<or> ab_nonce body \<noteq> nonce \<or> \<not> is_ok (admission_verify E admission) then state
      else let admission_hash = admission_body_hash E body in
        if bm_contains observed_in_block admission_hash then state
        else let observed = bm_insert admission_hash () observed_in_block; node = ab_node body in
          if it_contains_key T verifiers (ni_public_key node) then (observed, evidence)
          else let pending = unwrap_or (bm_get evidence admission_hash)
                     \<lparr>pa_node = node, pa_admission_hash = admission_hash, pa_observers = bm_empty\<rparr>
               in (observed, bm_insert admission_hash
                    (pending\<lparr>pa_observers := bm_insert observer () (pa_observers pending)\<rparr>) evidence))"

definition admission_evidence_of ::
  "crypto \<Rightarrow> ('m, PubKey, NodeIdentity) index_tree_ops \<Rightarrow> 'm \<Rightarrow> (HashType, Block) btree_map \<Rightarrow> HashType \<Rightarrow> Nonce
    \<Rightarrow> admission_evidence" where
  "admission_evidence_of E T verifiers committed_blocks last_epoch nonce =
    fold (\<lambda>block evidence.
      let observer = bb_validator (block_body block) in
      if \<not> it_contains_key T verifiers observer then evidence
      else snd (fold (observe_admission E T verifiers last_epoch nonce observer) (bb_node_admissions (block_body block))
        (bm_empty, evidence)))
    (bm_values committed_blocks) bm_empty"

definition admission_decision_precedes :: "ConsensusNodeAdmissionDecision \<Rightarrow> ConsensusNodeAdmissionDecision \<Rightarrow> bool" where
  "admission_decision_precedes left right \<longleftrightarrow>
    ad_observer_count left > ad_observer_count right
    \<or> ad_observer_count left = ad_observer_count right \<and> ad_admission_hash right > ad_admission_hash left"

definition decide_admission ::
  "usize \<Rightarrow> PendingNodeAdmission \<Rightarrow> (PubKey, ConsensusNodeAdmissionDecision) btree_map
    \<Rightarrow> (PubKey, ConsensusNodeAdmissionDecision) btree_map" where
  "decide_admission required_observers pending decisions_by_key =
    (let observer_count = bm_len (pa_observers pending) in
     if observer_count < required_observers then decisions_by_key
     else let decision = \<lparr>ad_node = pa_node pending, ad_admission_hash = pa_admission_hash pending,
                ad_observer_count = observer_count, ad_required_observers = required_observers\<rparr>;
              public_key = ni_public_key (ad_node decision)
          in bm_insert public_key
               (case bm_get decisions_by_key public_key of
                  Some existing \<Rightarrow> if admission_decision_precedes decision existing then decision else existing
                | None \<Rightarrow> decision) decisions_by_key)"

definition derive_consensus_node_admission_plan ::
  "crypto \<Rightarrow> ('m, PubKey, NodeIdentity) index_tree_ops \<Rightarrow> 'm \<Rightarrow> (HashType, Block) btree_map \<Rightarrow> HashType \<Rightarrow> Nonce
    \<Rightarrow> ConsensusNodeAdmissionPlan" where
  "derive_consensus_node_admission_plan E T verifiers committed_blocks last_epoch nonce =
    (let required_observers = supermajority_count (it_len T verifiers) in
     if it_len T verifiers = 0
     then \<lparr>ap_admitted = [], ap_decisions = [], ap_required_observers = required_observers\<rparr>
     else let decisions = bm_values (fold (decide_admission required_observers)
                (bm_values (admission_evidence_of E T verifiers committed_blocks last_epoch nonce)) bm_empty)
          in \<lparr>ap_admitted = map ad_node decisions, ap_decisions = decisions, ap_required_observers = required_observers\<rparr>)"

definition apply_consensus_node_removal_plan ::
  "('m, PubKey, NodeIdentity) index_tree_ops \<Rightarrow> 'm \<Rightarrow> ConsensusNodeRemovalPlan \<Rightarrow> 'm" where
  "apply_consensus_node_removal_plan T verifiers plan =
    snd (fold (\<lambda>subject (removed, verifiers).
      if bm_contains removed subject then (removed, verifiers)
      else (bm_insert subject () removed, it_remove T subject verifiers))
    (map rd_subject (rm_decisions plan)) (bm_empty, verifiers))"

definition apply_consensus_node_admission_plan ::
  "('m, PubKey, NodeIdentity) index_tree_ops \<Rightarrow> 'm \<Rightarrow> ConsensusNodeAdmissionPlan \<Rightarrow> 'm" where
  "apply_consensus_node_admission_plan T verifiers plan =
    fold (\<lambda>node. it_insert T (ni_public_key node) node) (ap_admitted plan) verifiers"

definition apply_epoch_membership_transition ::
  "crypto \<Rightarrow> ('m, PubKey, NodeIdentity) index_tree_ops \<Rightarrow> 'm \<Rightarrow> (HashType, Block) btree_map \<Rightarrow> HashType \<Rightarrow> Nonce
    \<Rightarrow> ConsensusNodeRemovalPolicy \<Rightarrow> 'm \<times> ConsensusNodeRemovalPlan" where
  "apply_epoch_membership_transition E T verifiers committed_blocks last_epoch nonce policy =
    (let plan = derive_consensus_node_removal_plan E T verifiers committed_blocks last_epoch nonce policy;
         next_verifiers = apply_consensus_node_removal_plan T verifiers plan;
         admission_plan = derive_consensus_node_admission_plan E T verifiers committed_blocks last_epoch nonce
     in (apply_consensus_node_admission_plan T next_verifiers admission_plan, plan))"


section \<open>Evidence for removals\<close>

lemma add_encounter_observer:
  assumes "bm_get (add_encounter r evidence) s = Some m" "bm_contains m v"
  shows "s = eb_subject (er_body r) \<and> v = eb_observer (er_body r) \<or> (\<exists>m'. bm_get evidence s = Some m' \<and> bm_contains m' v)"
  using assms by (cases "bm_get evidence s") (auto simp: add_encounter_def Let_def split: if_splits)

lemma removal_evidence_sound:
  assumes "bm_get (removal_evidence_of E T verifiers blocks last_epoch nonce) s = Some m" "bm_contains m v"
  shows "\<exists>block \<in> set (bm_values blocks). \<exists>r \<in> set (bb_encounter_records (block_body block)).
    encounter_counts E T verifiers last_epoch nonce block r \<and> eb_subject (er_body r) = s \<and> eb_observer (er_body r) = v"
proof -
  define Q where "Q = (\<lambda>s v. \<exists>block \<in> set (bm_values blocks). \<exists>r \<in> set (bb_encounter_records (block_body block)).
    encounter_counts E T verifiers last_epoch nonce block r \<and> eb_subject (er_body r) = s \<and> eb_observer (er_body r) = v)"
  define P where "P = (\<lambda>evidence :: removal_evidence. \<forall>s m v. bm_get evidence s = Some m \<longrightarrow> bm_contains m v \<longrightarrow> Q s v)"
  have inner: "P (fold (\<lambda>r evidence. if encounter_counts E T verifiers last_epoch nonce block r then add_encounter r evidence
      else evidence) rs evidence)"
    if "block \<in> set (bm_values blocks)" "set rs \<subseteq> set (bb_encounter_records (block_body block))" "P evidence" for block rs evidence
    using that(2,3)
  proof (induction rs arbitrary: evidence)
    case (Cons r rs)
    have "P (add_encounter r evidence)" if "encounter_counts E T verifiers last_epoch nonce block r"
      unfolding P_def
    proof (intro allI impI)
      fix s m v assume "bm_get (add_encounter r evidence) s = Some m" "bm_contains m v"
      from add_encounter_observer [OF this] show "Q s v"
        using Cons.prems that \<open>block \<in> set (bm_values blocks)\<close> unfolding P_def Q_def by auto
    qed
    then show ?case using Cons by simp
  qed simp
  have "P (removal_evidence_of E T verifiers blocks last_epoch nonce)"
    unfolding removal_evidence_of_def
    by (rule fold_invariant [where Q = "\<lambda>block. block \<in> set (bm_values blocks)"])
      (simp_all add: inner, simp add: P_def)
  then show ?thesis using assms unfolding P_def Q_def by blast
qed

lemma removal_decision:
  assumes "d \<in> set (rm_decisions (derive_consensus_node_removal_plan E T verifiers blocks last_epoch nonce policy))"
  obtains m where "bm_get (removal_evidence_of E T verifiers blocks last_epoch nonce) (rd_subject d) = Some m"
    "supermajority_count (it_len T verifiers) \<le> bm_len m" "0 < it_len T verifiers"
proof -
  let ?required = "required_observers_for policy (it_len T verifiers)"
  obtain subject m where "(subject, m) \<in> set (bm_entries (removal_evidence_of E T verifiers blocks last_epoch nonce))"
    "removal_candidate ?required (subject, m) = Some d" "it_len T verifiers \<noteq> 0"
    using assms
    by (force simp: derive_consensus_node_removal_plan_def Let_def List.map_filter_def split: if_splits dest!: in_set_takeD)
  moreover have "supermajority_count (it_len T verifiers) \<le> ?required"
    by (simp add: required_observers_for_def Let_def)
  ultimately show ?thesis
    using that by (auto simp: removal_candidate_def Let_def bm_get_Some_iff split: if_splits)
qed

text \<open>C5: a faulty minority cannot have a verifier removed. Whenever the committed blocks lead to the removal of a
  verifier and at most a third of the verifiers lie, some honest verifier put into its own block a
  verified record, for exactly this epoch, of an encounter with the removed one.\<close>

theorem removal_needs_honest_observer:
  fixes T :: "('m, PubKey, NodeIdentity) index_tree_ops"
  assumes "index_tree T"
    and "d \<in> set (rm_decisions (derive_consensus_node_removal_plan E T verifiers blocks last_epoch nonce policy))"
    and "card byzantine \<le> byzantine_fault_bound (it_len T verifiers)" "finite byzantine"
  shows "\<exists>block \<in> set (bm_values blocks). \<exists>r \<in> set (bb_encounter_records (block_body block)).
    bb_validator (block_body block) \<in> set (it_keys T verifiers) - byzantine
    \<and> eb_observer (er_body r) = bb_validator (block_body block) \<and> eb_subject (er_body r) = rd_subject d
    \<and> eb_last_epoch (er_body r) = last_epoch \<and> eb_nonce (er_body r) = nonce \<and> encounter_verify E r = Ok ()"
proof -
  obtain m where m: "bm_get (removal_evidence_of E T verifiers blocks last_epoch nonce) (rd_subject d) = Some m"
    "supermajority_count (it_len T verifiers) \<le> bm_len m" "0 < it_len T verifiers"
    by (rule removal_decision [OF assms(2)])
  have "byzantine_fault_bound (it_len T verifiers) < supermajority_count (it_len T verifiers)"
    using m(3) by (simp add: byzantine_fault_bound_def supermajority_count_def saturating_sub_def)
  then have "card byzantine < card (set (bm_keys m))"
    using m(2) assms(3) by (simp add: bm_len_card set_bm_keys)
  then have "\<not> set (bm_keys m) \<subseteq> byzantine" using assms(4) card_mono by (metis not_less)
  then obtain v where v: "v \<notin> byzantine" "bm_contains m v" by (auto simp: bm_keys_contains [symmetric])
  obtain block r where "block \<in> set (bm_values blocks)" "r \<in> set (bb_encounter_records (block_body block))"
    "encounter_counts E T verifiers last_epoch nonce block r" "eb_subject (er_body r) = rd_subject d" "eb_observer (er_body r) = v"
    using removal_evidence_sound [OF m(1) v(2)] by blast
  then show ?thesis
    using v(1) index_tree.contains_key [OF assms(1)]
    by (intro bexI [of _ block] bexI [of _ r]) (auto simp: encounter_counts_def is_ok_def split: sum.splits)
qed


section \<open>Evidence for admissions\<close>

definition sponsors ::
  "crypto \<Rightarrow> ('m, PubKey, NodeIdentity) index_tree_ops \<Rightarrow> 'm \<Rightarrow> HashType \<Rightarrow> Nonce \<Rightarrow> Block \<Rightarrow> NodeAdmission \<Rightarrow> bool" where
  "sponsors E T verifiers last_epoch nonce block a \<longleftrightarrow>
    it_contains_key T verifiers (bb_validator (block_body block)) \<and> a \<in> set (bb_node_admissions (block_body block))
    \<and> ab_last_epoch (na_body a) = last_epoch \<and> ab_nonce (na_body a) = nonce \<and> is_ok (admission_verify E a)
    \<and> \<not> it_contains_key T verifiers (ni_public_key (ab_node (na_body a)))"

definition pending_ok ::
  "crypto \<Rightarrow> ('m, PubKey, NodeIdentity) index_tree_ops \<Rightarrow> 'm \<Rightarrow> (HashType, Block) btree_map \<Rightarrow> HashType \<Rightarrow> Nonce
    \<Rightarrow> HashType \<Rightarrow> PendingNodeAdmission \<Rightarrow> bool" where
  "pending_ok E T verifiers blocks last_epoch nonce h p \<longleftrightarrow>
    (\<exists>block \<in> set (bm_values blocks). \<exists>a. sponsors E T verifiers last_epoch nonce block a
      \<and> admission_body_hash E (na_body a) = h \<and> ab_node (na_body a) = pa_node p)
    \<and> (\<forall>v. bm_contains (pa_observers p) v \<longrightarrow>
        (\<exists>block \<in> set (bm_values blocks). \<exists>a. sponsors E T verifiers last_epoch nonce block a
          \<and> admission_body_hash E (na_body a) = h \<and> bb_validator (block_body block) = v))"

lemma observe_admission_ok:
  assumes block: "block \<in> set (bm_values blocks)" "it_contains_key T verifiers (bb_validator (block_body block))"
    and a: "a \<in> set (bb_node_admissions (block_body block))"
    and state: "\<And>h p. bm_get (snd state) h = Some p \<Longrightarrow> pending_ok E T verifiers blocks last_epoch nonce h p"
    and get: "bm_get (snd (observe_admission E T verifiers last_epoch nonce (bb_validator (block_body block)) a state)) h = Some p"
  shows "pending_ok E T verifiers blocks last_epoch nonce h p"
proof (cases "snd (observe_admission E T verifiers last_epoch nonce (bb_validator (block_body block)) a state) = snd state")
  case True
  then show ?thesis using state get by simp
next
  case False
  define v where "v = bb_validator (block_body block)"
  define hash where "hash = admission_body_hash E (na_body a)"
  define pending where "pending = unwrap_or (bm_get (snd state) hash)
      \<lparr>pa_node = ab_node (na_body a), pa_admission_hash = hash, pa_observers = bm_empty\<rparr>"
  have s: "sponsors E T verifiers last_epoch nonce block a"
    and new: "snd (observe_admission E T verifiers last_epoch nonce v a state)
      = bm_insert hash (pending\<lparr>pa_observers := bm_insert v () (pa_observers pending)\<rparr>) (snd state)"
    using False block a
    by (auto simp: observe_admission_def Let_def sponsors_def pending_def hash_def v_def split: prod.splits if_splits)
  show ?thesis
  proof (cases "h = hash")
    case False
    then show ?thesis using get new state by (simp add: v_def)
  next
    case True
    then have p: "p = pending\<lparr>pa_observers := bm_insert v () (pa_observers pending)\<rparr>" using get new by (simp add: v_def)
    have "pending_ok E T verifiers blocks last_epoch nonce hash pending"
      using state [of hash] block s by (cases "bm_get (snd state) hash") (auto simp: pending_def pending_ok_def hash_def)
    then show ?thesis using s block True by (auto simp: p pending_ok_def v_def hash_def)
  qed
qed

lemma admission_evidence_sound:
  assumes "bm_get (admission_evidence_of E T verifiers blocks last_epoch nonce) h = Some p"
  shows "pending_ok E T verifiers blocks last_epoch nonce h p"
proof -
  define P where "P = (\<lambda>evidence. \<forall>h p. bm_get evidence h = Some p \<longrightarrow> pending_ok E T verifiers blocks last_epoch nonce h p)"
  have inner: "P (snd (fold (observe_admission E T verifiers last_epoch nonce (bb_validator (block_body block))) as state))"
    if "block \<in> set (bm_values blocks)" "it_contains_key T verifiers (bb_validator (block_body block))"
      "set as \<subseteq> set (bb_node_admissions (block_body block))" "P (snd state)" for block as state
    using that(3,4)
  proof (induction as arbitrary: state)
    case (Cons a as)
    have "P (snd (observe_admission E T verifiers last_epoch nonce (bb_validator (block_body block)) a state))"
      unfolding P_def
    proof (intro allI impI)
      fix h p
      assume get: "bm_get (snd (observe_admission E T verifiers last_epoch nonce (bb_validator (block_body block)) a state)) h = Some p"
      show "pending_ok E T verifiers blocks last_epoch nonce h p"
        by (rule observe_admission_ok [OF that(1,2) _ _ get]) (use Cons.prems in \<open>auto simp: P_def\<close>)
    qed
    then show ?case using Cons.IH Cons.prems(1) by simp
  qed simp
  have "P (admission_evidence_of E T verifiers blocks last_epoch nonce)"
    unfolding admission_evidence_of_def Let_def
  proof (rule fold_invariant [where Q = "\<lambda>block. block \<in> set (bm_values blocks)"])
    show "P bm_empty" by (simp add: P_def)
  qed (simp_all add: inner)
  then show ?thesis using assms by (simp add: P_def)
qed

lemma decided_admission:
  assumes "bm_get (fold (decide_admission n) ps bm_empty) k = Some d"
  shows "\<exists>p \<in> set ps. ad_node d = pa_node p \<and> n \<le> bm_len (pa_observers p) \<and> k = ni_public_key (ad_node d)"
proof -
  define P where "P = (\<lambda>m :: (PubKey, ConsensusNodeAdmissionDecision) btree_map. \<forall>k d. bm_get m k = Some d \<longrightarrow>
    (\<exists>p \<in> set ps. ad_node d = pa_node p \<and> n \<le> bm_len (pa_observers p) \<and> k = ni_public_key (ad_node d)))"
  have "P (fold (decide_admission n) ps bm_empty)"
  proof (rule fold_invariant [where Q = "\<lambda>p. p \<in> set ps"])
    show "P bm_empty" by (simp add: P_def)
    fix p m assume "p \<in> set ps" "P m"
    then show "P (decide_admission n p m)"
      unfolding P_def by (auto simp: decide_admission_def Let_def split: option.splits if_splits)
  qed
  then show ?thesis using assms by (simp add: P_def)
qed

lemma admitted_node:
  assumes "node \<in> set (ap_admitted (derive_consensus_node_admission_plan E T verifiers blocks last_epoch nonce))"
  obtains h p where "pending_ok E T verifiers blocks last_epoch nonce h p" "node = pa_node p"
    "supermajority_count (it_len T verifiers) \<le> bm_len (pa_observers p)" "0 < it_len T verifiers"
proof -
  let ?n = "supermajority_count (it_len T verifiers)"
  let ?ps = "bm_values (admission_evidence_of E T verifiers blocks last_epoch nonce)"
  obtain d where "d \<in> set (bm_values (fold (decide_admission ?n) ?ps bm_empty))" "node = ad_node d" "it_len T verifiers \<noteq> 0"
    using assms by (auto simp: derive_consensus_node_admission_plan_def Let_def split: if_splits)
  then obtain k where "bm_get (fold (decide_admission ?n) ?ps bm_empty) k = Some d" by (auto simp: bm_values_def bm_get_Some_iff)
  from decided_admission [OF this] obtain p where p: "p \<in> set ?ps" "ad_node d = pa_node p" "?n \<le> bm_len (pa_observers p)"
    by blast
  then obtain h where "bm_get (admission_evidence_of E T verifiers blocks last_epoch nonce) h = Some p"
    by (auto simp: bm_values_def bm_get_Some_iff)
  from admission_evidence_sound [OF this] show ?thesis
    using that p \<open>node = ad_node d\<close> \<open>it_len T verifiers \<noteq> 0\<close> by simp
qed

text \<open>C6: a faulty minority cannot bring in a verifier. Whenever a node is admitted, at most a third of the verifiers
  lie and the admission bodies of the committed blocks are free of hash collisions, some honest verifier carried
  in its own block an admission for exactly this epoch that the admitted node signed, and the node was not
  already a verifier.\<close>

theorem admission_needs_honest_sponsor:
  fixes T :: "('m, PubKey, NodeIdentity) index_tree_ops"
  assumes "index_tree T"
    and "node \<in> set (ap_admitted (derive_consensus_node_admission_plan E T verifiers blocks last_epoch nonce))"
    and "card byzantine \<le> byzantine_fault_bound (it_len T verifiers)" "finite byzantine"
    and "inj_on (admission_body_hash E) (na_body ` (\<Union>block \<in> set (bm_values blocks). set (bb_node_admissions (block_body block))))"
  shows "\<exists>block \<in> set (bm_values blocks). \<exists>a \<in> set (bb_node_admissions (block_body block)).
    bb_validator (block_body block) \<in> set (it_keys T verifiers) - byzantine
    \<and> ab_node (na_body a) = node \<and> ni_public_key node \<notin> set (it_keys T verifiers)
    \<and> ab_last_epoch (na_body a) = last_epoch \<and> ab_nonce (na_body a) = nonce \<and> admission_verify E a = Ok ()"
proof -
  obtain h p where p: "pending_ok E T verifiers blocks last_epoch nonce h p" "node = pa_node p"
    "supermajority_count (it_len T verifiers) \<le> bm_len (pa_observers p)" "0 < it_len T verifiers"
    by (rule admitted_node [OF assms(2)])
  have "byzantine_fault_bound (it_len T verifiers) < supermajority_count (it_len T verifiers)"
    using p(4) by (simp add: byzantine_fault_bound_def supermajority_count_def saturating_sub_def)
  then have "card byzantine < card (set (bm_keys (pa_observers p)))"
    using p(3) assms(3) by (simp add: bm_len_card set_bm_keys)
  then have "\<not> set (bm_keys (pa_observers p)) \<subseteq> byzantine" using assms(4) card_mono by (metis not_less)
  then obtain v where v: "v \<notin> byzantine" "bm_contains (pa_observers p) v" by (auto simp: bm_keys_contains [symmetric])
  obtain block a where a: "block \<in> set (bm_values blocks)" "sponsors E T verifiers last_epoch nonce block a"
    "admission_body_hash E (na_body a) = h" "bb_validator (block_body block) = v"
    using p(1) v(2) unfolding pending_ok_def by blast
  obtain block' a' where a': "block' \<in> set (bm_values blocks)" "sponsors E T verifiers last_epoch nonce block' a'"
    "admission_body_hash E (na_body a') = h" "ab_node (na_body a') = node"
    using p(1,2) unfolding pending_ok_def by blast
  have "na_body a = na_body a'"
    by (rule inj_onD [OF assms(5)]) (use a a' in \<open>auto simp: sponsors_def\<close>)
  then show ?thesis
    using a a'(4) v(1) index_tree.contains_key [OF assms(1)]
    by (intro bexI [of _ block] bexI [of _ a]) (auto simp: sponsors_def is_ok_def split: sum.splits)
qed


section \<open>The transition of the verifier set\<close>

lemma distinct_map_filter:
  assumes "\<And>e d. f e = Some d \<Longrightarrow> g d = fst e" "distinct (map fst es)"
  shows "distinct (map g (List.map_filter f es))"
  using assms(2)
proof (induction es)
  case (Cons e es)
  have "g ` set (List.map_filter f es) \<subseteq> fst ` set es"
  proof
    fix x assume "x \<in> g ` set (List.map_filter f es)"
    then obtain e d where "e \<in> set es" "f e = Some d" "x = g d" by (auto simp: List.map_filter_def)
    then show "x \<in> fst ` set es" using assms(1) by simp
  qed
  then show ?case using Cons assms(1) [of e] by (auto simp: map_filter_simps split: option.splits)
qed (simp add: map_filter_simps)

lemma removal_subjects_distinct:
  "distinct (map rd_subject (rm_decisions (derive_consensus_node_removal_plan E T verifiers blocks last_epoch nonce policy)))"
proof -
  have "rd_subject d = fst e" if "removal_candidate n e = Some d" for n e d
    using that by (auto simp: removal_candidate_def Let_def split: if_splits prod.splits)
  then have "distinct (map rd_subject (List.map_filter (removal_candidate n)
      (bm_entries (removal_evidence_of E T verifiers blocks last_epoch nonce))))" for n
    by (rule distinct_map_filter) (simp_all add: sorted_entries_distinct)
  then have "distinct (map rd_subject (sort_key removal_order (List.map_filter (removal_candidate n)
      (bm_entries (removal_evidence_of E T verifiers blocks last_epoch nonce)))))" for n
    by (simp add: distinct_map)
  then show ?thesis
    by (simp add: derive_consensus_node_removal_plan_def Let_def take_map [symmetric])
qed

lemma removal_subjects_known:
  assumes "index_tree T" "d \<in> set (rm_decisions (derive_consensus_node_removal_plan E T verifiers blocks last_epoch nonce policy))"
  shows "rd_subject d \<in> set (it_keys T verifiers)"
proof -
  obtain m where m: "bm_get (removal_evidence_of E T verifiers blocks last_epoch nonce) (rd_subject d) = Some m"
    "supermajority_count (it_len T verifiers) \<le> bm_len m" "0 < it_len T verifiers"
    by (rule removal_decision [OF assms(2)])
  then have "0 < bm_len m" using supermajority_count_pos [OF m(3)] by simp
  then have "bm_keys m \<noteq> []" by (simp add: bm_len_def bm_keys_def)
  then obtain v where "bm_contains m v" by (metis bm_keys_contains list.set_sel(1))
  from removal_evidence_sound [OF m(1) this] show ?thesis
    using index_tree.contains_key [OF assms(1)] by (auto simp: encounter_counts_def)
qed

lemma applied_removals:
  assumes "index_tree T"
  shows "set (it_keys T (apply_consensus_node_removal_plan T verifiers plan))
    = set (it_keys T verifiers) - rd_subject ` set (rm_decisions plan)"
proof -
  have "it_get T (snd (fold (\<lambda>subject (removed, verifiers). if bm_contains removed subject then (removed, verifiers)
      else (bm_insert subject () removed, it_remove T subject verifiers)) ks (R, m))) k
    = (if k \<in> set ks \<and> \<not> bm_contains R k then None else it_get T m k)" for ks R m k
    by (induction ks arbitrary: R m) (auto simp: index_tree.get_remove [OF assms])
  then show ?thesis
    by (auto simp: apply_consensus_node_removal_plan_def index_tree.dom_get [OF assms, symmetric] split: if_splits)
qed

lemma applied_admissions:
  assumes "index_tree T"
  shows "set (it_keys T (apply_consensus_node_admission_plan T verifiers plan))
    = ni_public_key ` set (ap_admitted plan) \<union> set (it_keys T verifiers)"
proof -
  have "set (it_keys T (fold (\<lambda>node. it_insert T (ni_public_key node) node) ns m)) = ni_public_key ` set ns \<union> set (it_keys T m)"
    for ns m
    by (induction ns arbitrary: m) (auto simp: index_tree.dom_get [OF assms, symmetric] index_tree.get_insert [OF assms])
  then show ?thesis by (simp add: apply_consensus_node_admission_plan_def)
qed

text \<open>C4: the verifier set of the next epoch is the current one without the removed verifiers and with the
  admitted nodes. Removed verifiers were current ones, admitted nodes were not, so a removal is never undone by an
  admission of the same epoch; no more verifiers are removed than the policy allows, and the required minimum
  of current verifiers stays.\<close>

theorem membership_transition_spec:
  fixes T :: "('m, PubKey, NodeIdentity) index_tree_ops"
  assumes "index_tree T" "rp_min_remaining_verifiers policy \<le> it_len T verifiers"
    and "apply_epoch_membership_transition E T verifiers blocks last_epoch nonce policy = (nxt, plan)"
    and removed_def: "removed = rd_subject ` set (rm_decisions plan)"
    and admitted_def: "admitted = ni_public_key ` set (ap_admitted (derive_consensus_node_admission_plan E T verifiers blocks last_epoch nonce))"
  shows "set (it_keys T nxt) = set (it_keys T verifiers) - removed \<union> admitted
    \<and> removed \<subseteq> set (it_keys T verifiers) \<and> admitted \<inter> set (it_keys T verifiers) = {}
    \<and> card removed \<le> rp_max_removals_per_epoch policy
    \<and> card (set (it_keys T verifiers) - removed) = rm_retained_verifier_count plan
    \<and> rp_min_remaining_verifiers policy \<le> rm_retained_verifier_count plan"
proof -
  note tree = index_tree.contains_key [OF assms(1)] index_tree.len_keys [OF assms(1)] index_tree.keys_distinct [OF assms(1)]
  have plan: "plan = derive_consensus_node_removal_plan E T verifiers blocks last_epoch nonce policy"
    and nxt: "nxt = apply_consensus_node_admission_plan T (apply_consensus_node_removal_plan T verifiers plan)
      (derive_consensus_node_admission_plan E T verifiers blocks last_epoch nonce)"
    using assms(3) by (auto simp: apply_epoch_membership_transition_def Let_def)
  have known: "removed \<subseteq> set (it_keys T verifiers)"
    unfolding removed_def plan using removal_subjects_known [OF assms(1)] by blast
  have fresh: "admitted \<inter> set (it_keys T verifiers) = {}"
    unfolding admitted_def using tree(1)
    by (fastforce elim!: admitted_node simp: pending_ok_def sponsors_def)
  have card: "card removed = length (rm_decisions plan)"
    unfolding removed_def plan using distinct_card [OF removal_subjects_distinct] by simp
  have "length (rm_decisions plan) \<le> min (saturating_sub (it_len T verifiers) (rp_min_remaining_verifiers policy))
      (rp_max_removals_per_epoch policy)"
    and "rm_retained_verifier_count plan = saturating_sub (it_len T verifiers) (length (rm_decisions plan))"
    by (auto simp: plan derive_consensus_node_removal_plan_def Let_def saturating_sub_def)
  moreover have "card (set (it_keys T verifiers) - removed) = it_len T verifiers - card removed"
    using known tree(2,3) by (simp add: card_Diff_subset finite_subset distinct_card)
  ultimately show ?thesis
    using known fresh card assms(2) unfolding nxt applied_admissions [OF assms(1)] applied_removals [OF assms(1)]
    by (auto simp: removed_def admitted_def saturating_sub_def)
qed


section \<open>Registry operations\<close>

definition member_extends :: "MemberRecord \<Rightarrow> MemberRecord \<Rightarrow> bool" where
  "member_extends r r' \<longleftrightarrow> mr_identity r' = mr_identity r \<and> mr_capabilities r' = mr_capabilities r
    \<and> mr_generation r \<le> mr_generation r' \<and> (mr_status r' = mr_status r \<or> mr_status r' \<noteq> StatusActive)
    \<and> (mr_status r = StatusRevoked \<longrightarrow> mr_status r' = StatusRevoked)"

definition registry_extends :: "MemberSet \<Rightarrow> MemberSet \<Rightarrow> bool" where
  "registry_extends a b \<longleftrightarrow>
    (\<forall>k r. bm_get a k = Some r \<longrightarrow> (\<exists>r'. bm_get b k = Some r' \<and> member_extends r r'))
    \<and> (\<forall>k r'. bm_get a k = None \<longrightarrow> bm_get b k = Some r' \<longrightarrow> \<not> bm_contains (mr_capabilities r') CapValidator)"

lemma member_extends_refl: "member_extends r r"
  by (simp add: member_extends_def)

lemma member_extends_trans: "member_extends a b \<Longrightarrow> member_extends b c \<Longrightarrow> member_extends a c"
  by (auto simp: member_extends_def)

lemma registry_extends_refl: "registry_extends a a"
  by (simp add: registry_extends_def member_extends_refl)

lemma registry_extendsD:
  assumes "registry_extends a b"
  shows "bm_get a k = Some r \<Longrightarrow> \<exists>r'. bm_get b k = Some r' \<and> member_extends r r'"
    and "bm_get a k = None \<Longrightarrow> bm_get b k = Some r' \<Longrightarrow> \<not> bm_contains (mr_capabilities r') CapValidator"
  using assms unfolding registry_extends_def by blast+

lemma registry_extends_trans:
  assumes "registry_extends a b" "registry_extends b c"
  shows "registry_extends a c"
  unfolding registry_extends_def
proof (intro conjI allI impI)
  fix k r assume "bm_get a k = Some r"
  then show "\<exists>r'. bm_get c k = Some r' \<and> member_extends r r'"
    using registry_extendsD(1) [OF assms(1)] registry_extendsD(1) [OF assms(2)] member_extends_trans by blast
next
  fix k r' assume k: "bm_get a k = None" "bm_get c k = Some r'"
  show "\<not> bm_contains (mr_capabilities r') CapValidator"
  proof (cases "bm_get b k")
    case None
    then show ?thesis using registry_extendsD(2) [OF assms(2) _ k(2)] by blast
  next
    case (Some r)
    then show ?thesis
      using registry_extendsD(2) [OF assms(1) k(1) Some] registry_extendsD(1) [OF assms(2) Some] k(2)
      by (auto simp: member_extends_def)
  qed
qed

lemma registry_extends_insert:
  assumes "\<And>r. bm_get a k = Some r \<Longrightarrow> member_extends r x"
    and "bm_get a k = None \<Longrightarrow> \<not> bm_contains (mr_capabilities x) CapValidator"
  shows "registry_extends a (bm_insert k x a)"
  using assms by (auto simp: registry_extends_def member_extends_refl)

lemma saturating_succ_ge: "n \<le> saturating_succ n"
proof (cases "n = - 1")
  case False
  then have "1 + n \<noteq> 0" by (metis add.commute eq_neg_iff_add_eq_0)
  then have "unat (n + 1) = Suc (unat n)" using unatSuc [of n] by (simp add: add.commute)
  then show ?thesis using False by (simp add: saturating_succ_def word_le_nat_alt)
qed (simp add: saturating_succ_def)

lemma member_new_Ok:
  "member_new identity capabilities generation = Ok r \<Longrightarrow> mr_public_key r = ni_public_key identity
    \<and> mr_capabilities r = bs_of_list capabilities \<and> mr_status r = StatusActive"
  by (auto simp: member_new_def Let_def mr_public_key_def public_only_def split: if_splits)

lemma fresh_record:
  assumes "reject_validator_capability_grant r = Ok ()" "member_new (mr_identity r) (bm_keys (mr_capabilities r)) generation = Ok x"
  shows "mr_public_key x = mr_public_key r" "\<not> bm_contains (mr_capabilities x) CapValidator"
  using assms member_new_Ok [OF assms(2)]
  by (auto simp: reject_validator_capability_grant_def bm_keys_contains mr_public_key_def split: if_splits)

lemma updated_record:
  assumes "require_next_member_generation r generation = Ok ()" "status \<noteq> StatusActive"
    "mr_status r = StatusRevoked \<Longrightarrow> status = StatusRevoked"
  shows "member_extends r (r\<lparr>mr_generation := generation, mr_status := status\<rparr>)"
  using assms by (auto simp: member_extends_def require_next_member_generation_def saturating_succ_ge split: if_splits)

lemma apply_extends: "member_apply members operation = Ok members' \<Longrightarrow> registry_extends members members'"
proof (induction members operation rule: member_apply.induct)
  case (1 members r)
  then obtain x where x: "\<not> bm_contains members (mr_public_key r)" "reject_validator_capability_grant r = Ok ()"
    "member_new (mr_identity r) (bm_keys (mr_capabilities r)) (mr_generation r) = Ok x"
    "members' = bm_insert (mr_public_key x) x members"
    by (auto split: if_splits)
  show ?case
    unfolding x(4) using x(1) fresh_record [OF x(2,3)] by (intro registry_extends_insert) (auto simp: bm_contains_def)
next
  case (2 members k generation)
  then show ?case by (auto intro!: registry_extends_insert updated_record)
next
  case (3 members k generation)
  then show ?case by (auto split: if_splits intro!: registry_extends_insert updated_record)
next
  case (4 members k r)
  then obtain old x where x: "\<not> bm_contains members (mr_public_key r)" "reject_validator_capability_grant r = Ok ()"
    "bm_get members k = Some old" "require_next_member_generation old (mr_generation r) = Ok ()"
    "member_new (mr_identity r) (bm_keys (mr_capabilities r)) (mr_generation r) = Ok x"
    "members' = bm_insert (mr_public_key x) x
      (bm_insert k (old\<lparr>mr_generation := mr_generation r, mr_status := StatusRevoked\<rparr>) members)"
    by (auto split: if_splits)
  have "registry_extends members (bm_insert k (old\<lparr>mr_generation := mr_generation r, mr_status := StatusRevoked\<rparr>) members)"
    using x(3,4) by (auto intro!: registry_extends_insert updated_record)
  moreover have "registry_extends (bm_insert k (old\<lparr>mr_generation := mr_generation r, mr_status := StatusRevoked\<rparr>) members) members'"
    unfolding x(6) using x(1,3) fresh_record [OF x(2,5)]
    by (intro registry_extends_insert) (auto simp: bm_contains_def split: if_splits)
  ultimately show ?case by (rule registry_extends_trans)
qed

lemma committed_operations_extend:
  "registry_extends members (apply_committed_member_operations B members blocks group_id parent)"
proof -
  have tx: "registry_extends m (apply_member_transaction B group_id parent tx m)" for tx m
    by (auto simp: apply_member_transaction_def registry_extends_refl dest: apply_extends split: sum.splits option.splits)
  have txs: "registry_extends m (fold (apply_member_transaction B group_id parent) txs m)" for txs m
    by (induction txs arbitrary: m) (auto simp: registry_extends_refl intro: registry_extends_trans [OF tx])
  have "registry_extends m (fold (\<lambda>block members. fold (apply_member_transaction B group_id parent) (bb_txs (block_body block)) members)
      blocks' m)" for blocks' m
    by (induction blocks' arbitrary: m) (auto simp: registry_extends_refl intro: registry_extends_trans [OF txs])
  then show ?thesis by (simp add: apply_committed_member_operations_def)
qed

lemma active_validator_keys:
  assumes "index_tree T"
  shows "set (it_keys T (active_validators T members)) =
    {mr_public_key r |r k. bm_get members k = Some r \<and> is_active_with r CapValidator}"
proof -
  have "set (it_keys T (fold (\<lambda>r m. it_insert T (mr_public_key r) (mr_identity r) m) rs m)) = mr_public_key ` set rs \<union> set (it_keys T m)"
    for rs m
    by (induction rs arbitrary: m) (auto simp: index_tree.dom_get [OF assms, symmetric] index_tree.get_insert [OF assms])
  moreover have "it_keys T (it_new T) = []" by (simp add: it_keys_def index_tree.entries_new [OF assms])
  ultimately show ?thesis
    by (auto simp: active_validators_def active_with_def bm_values_def bm_get_Some_iff) force
qed

text \<open>C19: the operations that blocks commit never make a validator: whatever transactions the blocks carry, the
  active validators afterwards are among those before, no generation goes back, and a revoked record stays
  revoked.\<close>

theorem operations_never_grant_validators:
  fixes T :: "('m, PubKey, NodeIdentity) index_tree_ops"
  assumes "index_tree T"
  shows "set (it_keys T (active_validators T (apply_committed_member_operations B members blocks group_id parent)))
      \<subseteq> set (it_keys T (active_validators T members))
    \<and> registry_extends members (apply_committed_member_operations B members blocks group_id parent)"
proof
  show ext: "registry_extends members (apply_committed_member_operations B members blocks group_id parent)"
    by (rule committed_operations_extend)
  show "set (it_keys T (active_validators T (apply_committed_member_operations B members blocks group_id parent)))
      \<subseteq> set (it_keys T (active_validators T members))"
  proof
    fix v
    assume "v \<in> set (it_keys T (active_validators T (apply_committed_member_operations B members blocks group_id parent)))"
    then obtain k r' where r': "bm_get (apply_committed_member_operations B members blocks group_id parent) k = Some r'"
      "is_active_with r' CapValidator" "v = mr_public_key r'" by (auto simp: active_validator_keys [OF assms])
    then obtain r where r: "bm_get members k = Some r" using registry_extendsD(2) [OF ext _ r'(1)]
      by (cases "bm_get members k") (auto simp: is_active_with_def)
    then have "is_active_with r CapValidator" "v = mr_public_key r"
      using registry_extendsD(1) [OF ext r] r' by (auto simp: is_active_with_def mr_public_key_def member_extends_def)
    then show "v \<in> set (it_keys T (active_validators T members))" using r by (auto simp: active_validator_keys [OF assms])
  qed
qed


section \<open>Synchronisation with the verifier set\<close>

lemma fold_sync_verifier_get:
  assumes "bm_get members k = Some r" "k \<in> ni_public_key ` set ids"
  shows "\<exists>r'. bm_get (fold sync_verifier ids members) k = Some r' \<and>
    mr_status r' = (if mr_status r = StatusRevoked then StatusRevoked else StatusActive)"
proof -
  have keep: "\<exists>r'. bm_get (fold sync_verifier ids members) k = Some r' \<and>
      mr_status r' = (if k \<in> ni_public_key ` set ids \<and> mr_status r \<noteq> StatusRevoked then StatusActive else mr_status r)"
    if "bm_get members k = Some r" for ids members r
    using that
  proof (induction ids arbitrary: members r)
    case (Cons i ids)
    show ?case
    proof (cases "ni_public_key i = k")
      case True
      then obtain r1 where r1: "bm_get (sync_verifier i members) k = Some r1"
        "mr_status r1 = (if mr_status r = StatusRevoked then StatusRevoked else StatusActive)"
        using Cons.prems by (auto simp: sync_verifier_def Let_def)
      then show ?thesis using Cons.IH [OF r1(1)] True by auto
    next
      case False
      then have "bm_get (sync_verifier i members) k = Some r" using Cons.prems by (simp add: sync_verifier_def)
      then show ?thesis using Cons.IH False by auto
    qed
  qed simp
  show ?thesis using keep [OF assms(1), of ids] assms(2) by auto
qed

lemma fold_sync_verifier_other:
  "k \<notin> ni_public_key ` set ids \<Longrightarrow> bm_get (fold sync_verifier ids members) k = bm_get members k"
  by (induction ids arbitrary: members) (auto simp: sync_verifier_def)

text \<open>C37: revocation does not survive a round trip through the verifier set. A revoked record that a
  synchronisation finds among the verifiers stays revoked; but one synchronisation without
  it resets the record to suspended, and the next one with it makes the member active again.\<close>

theorem revoked_validator_returns:
  fixes T :: "('m, PubKey, NodeIdentity) index_tree_ops"
  assumes "index_tree T"
    and "bm_get members k = Some r" "mr_status r = StatusRevoked"
    and "bm_contains (mr_capabilities r) CapValidator" "mr_public_key r = k"
    and "k \<notin> set (it_keys T without)" "k \<notin> ni_public_key ` set (it_values T without)"
    and "k \<in> set (it_keys T with_k)" "k \<in> ni_public_key ` set (it_values T with_k)"
  shows "map_option mr_status (bm_get (sync_legacy_validators T with_k members) k) = Some StatusRevoked
    \<and> map_option mr_status (bm_get (sync_legacy_validators T with_k (sync_legacy_validators T without members)) k)
        = Some StatusActive"
proof
  note contains = index_tree.contains_key [OF assms(1)]
  have "bm_get (bm_map (\<lambda>_. suspend_missing T with_k) members) k = Some r"
    using assms by (simp add: suspend_missing_def contains)
  from fold_sync_verifier_get [OF this assms(9)] show "map_option mr_status
      (bm_get (sync_legacy_validators T with_k members) k) = Some StatusRevoked"
    using assms(3) by (auto simp: sync_legacy_validators_def)
  have "bm_get (sync_legacy_validators T without members) k = Some (r\<lparr>mr_status := StatusSuspended\<rparr>)"
    using assms by (simp add: sync_legacy_validators_def fold_sync_verifier_other suspend_missing_def contains)
  then have "bm_get (bm_map (\<lambda>_. suspend_missing T with_k) (sync_legacy_validators T without members)) k
      = Some (r\<lparr>mr_status := StatusSuspended\<rparr>)"
    using assms(5,8) by (simp add: suspend_missing_def contains mr_public_key_def)
  from fold_sync_verifier_get [OF this assms(9)] show "map_option mr_status
      (bm_get (sync_legacy_validators T with_k (sync_legacy_validators T without members)) k) = Some StatusActive"
    by (auto simp: sync_legacy_validators_def)
qed


section \<open>Certificates from votes\<close>

lemma votes_of_signers:
  assumes "lease_signing_bytes B s = Ok m"
  shows "collect_results (map (lease_vote_signed E B s) signers) =
    Ok (map (\<lambda>k. \<lparr>lv_statement = s, lv_validator = signer_public_key E k, lv_signature = ed_sign E k m\<rparr>) signers)"
  using assms by (induction signers) (simp_all add: lease_vote_signed_def)

lemma signatures_of_votes:
  assumes "honest_signatures E" "lease_signing_bytes B s = Ok m"
    and "distinct (map (signer_public_key E) signers)" "\<forall>k \<in> set signers. \<not> bm_contains signatures (signer_public_key E k)"
  shows "try_fold (\<lambda>signatures v.
        if lv_statement v \<noteq> s then Err InvalidConfiguration
        else and_then (lease_vote_verify E B v) (\<lambda>_.
          if bm_contains signatures (lv_validator v) then Err InvalidConfiguration
          else Ok (bm_insert (lv_validator v) (lv_signature v) signatures))) signatures
      (map (\<lambda>k. \<lparr>lv_statement = s, lv_validator = signer_public_key E k, lv_signature = ed_sign E k m\<rparr>) signers)
    = Ok (fold (\<lambda>k. bm_insert (signer_public_key E k) (ed_sign E k m)) signers signatures)"
  using assms(3,4)
proof (induction signers arbitrary: signatures)
  case (Cons k signers)
  have "lease_vote_verify E B \<lparr>lv_statement = s, lv_validator = signer_public_key E k, lv_signature = ed_sign E k m\<rparr> = Ok ()"
    using assms(1,2) by (simp add: lease_vote_verify_def signature_verify_Ok honest_signatures_def signer_public_key_def)
  moreover have "\<forall>j \<in> set signers. \<not> bm_contains (bm_insert (signer_public_key E k) (ed_sign E k m) signatures) (signer_public_key E j)"
    using Cons.prems by (auto simp: bm_contains_def image_iff)
  ultimately show ?case using Cons by simp
qed simp

lemma collected_signatures:
  "bm_get (fold (\<lambda>k. bm_insert (f k) (g k)) ks m) v = Some x \<Longrightarrow> bm_get m v = Some x \<or> (\<exists>k \<in> set ks. f k = v \<and> g k = x)"
  by (induction ks arbitrary: m) (fastforce split: if_splits)+

lemma collected_keys: "set (bm_keys (fold (\<lambda>k. bm_insert (f k) (g k)) ks m)) = f ` set ks \<union> set (bm_keys m)"
  by (induction ks arbitrary: m) (auto simp: bm_keys_contains bm_contains_def split: if_splits)

text \<open>C22: a membership lease can be had: when a supermajority of the validators sign the same statement,
  their votes combine into a certificate and the certificate verifies at every time at which the
  statement has validity left.\<close>

theorem lease_votes_certify:
  fixes T :: "('m, PubKey, NodeIdentity) index_tree_ops"
  assumes "honest_signatures E" "index_tree T"
    and "lease_signing_bytes B s = Ok m" "remaining_validity_at s now = Ok left"
    and "distinct (map (signer_public_key E) signers)" "signer_public_key E ` set signers \<subseteq> set (it_keys T validators)"
    and "supermajority_count (it_len T validators) \<le> length signers"
  shows "and_then (collect_results (map (lease_vote_signed E B s) signers)) (\<lambda>votes.
    and_then (lease_from_votes E B s votes) (\<lambda>c. lease_certificate_verify E B T now c validators)) = Ok ()"
proof -
  let ?sigs = "fold (\<lambda>k. bm_insert (signer_public_key E k) (ed_sign E k m)) signers bm_empty"
  have cert: "lease_from_votes E B s (map (\<lambda>k. \<lparr>lv_statement = s, lv_validator = signer_public_key E k,
      lv_signature = ed_sign E k m\<rparr>) signers) = Ok \<lparr>lc_statement = s, lc_signatures = ?sigs\<rparr>"
    using signatures_of_votes [OF assms(1,3,5), of bm_empty] by (simp add: lease_from_votes_def bm_contains_def)
  have "bm_len ?sigs = length signers"
    using assms(5) collected_keys [of "signer_public_key E" "\<lambda>k. ed_sign E k m" signers bm_empty]
    by (simp add: bm_len_card set_bm_keys [symmetric] distinct_map card_image distinct_card bm_keys_def)
  moreover have "try_fold (\<lambda>_ (v, x). if \<not> it_contains_key T validators v then Err UnknownSender
      else signature_verify E x m v) () (bm_entries ?sigs) = Ok ()"
  proof (rule try_fold_unit)
    fix e assume "e \<in> set (bm_entries ?sigs)"
    then have "bm_get ?sigs (fst e) = Some (snd e)" by (simp add: bm_get_Some_iff)
    from collected_signatures [OF this] obtain k where "k \<in> set signers" "e = (signer_public_key E k, ed_sign E k m)"
      by auto
    then show "(case e of (v, x) \<Rightarrow> if \<not> it_contains_key T validators v then Err UnknownSender
        else signature_verify E x m v) = Ok ()"
      using assms(1,6) by (auto simp: index_tree.contains_key [OF assms(2)] signature_verify_Ok honest_signatures_def
          signer_public_key_def)
  qed
  ultimately show ?thesis
    using assms(3,4,7) by (simp add: votes_of_signers cert lease_certificate_verify_def)
qed


section \<open>An epoch with four verifiers\<close>

text \<open>Three of four verifiers report the fourth one missing and sponsor the same newcomer.\<close>

definition group_crypto :: crypto where
  "group_crypto = sample_crypto\<lparr>sha256 := \<lambda>_. HashType 1\<rparr>"

definition group_node :: "256 word \<Rightarrow> NodeIdentity" where
  "group_node k = \<lparr>ni_public_key = PubKey k, ni_secret_key = None, ni_protocol = ''tcp'', ni_host = ''h'',
    ni_port = 1, ni_shuffle = False\<rparr>"

definition group_verifiers :: "256 word list \<Rightarrow> (PubKey, NodeIdentity) btree_map" where
  "group_verifiers ks = bm_of_list (map (\<lambda>k. (PubKey k, group_node k)) ks)"

definition group_encounter :: "256 word \<Rightarrow> EncounterRecord" where
  "group_encounter k = \<lparr>er_body = \<lparr>eb_observer = PubKey k, eb_subject = PubKey 4, eb_last_epoch = HashType 2, eb_nonce = 3,
    eb_round = 0, eb_phase = PhaseCommit, eb_outcome = MissingSignature, eb_evidence_hash = None,
    eb_observed_at_micros = 5\<rparr>, er_signature = Signature (ucast k)\<rparr>"

definition group_admission :: NodeAdmission where
  "group_admission = \<lparr>na_body = \<lparr>ab_node = group_node 5,
    ab_service = \<lparr>sv_kind = ConsensusService, sv_public_key = PubKey 5, sv_protocol = ''tcp'', sv_host = ''h'', sv_port = 1\<rparr>,
    ab_last_epoch = HashType 2, ab_nonce = 3\<rparr>, na_signature = Signature 5\<rparr>"

definition group_block :: "256 word \<Rightarrow> Block" where
  "group_block k = \<lparr>block_hash = HashType k, block_signature = Signature 0,
    block_body = \<lparr>bb_validator = PubKey k, bb_last_epoch = HashType 2, bb_nonce = 3, bb_created = 5, bb_dispatched = 0,
      bb_merkle_root = HashType 1, bb_application_state = [], bb_encounter_records = [group_encounter k],
      bb_node_admissions = [group_admission], bb_txs = []\<rparr>\<rparr>"

definition group_blocks :: "(HashType, Block) btree_map" where
  "group_blocks = bm_of_list (map (\<lambda>k. (HashType k, group_block k)) [1, 2, 3])"

definition group_codec :: member_codec where
  "group_codec = \<lparr>borsh_operation = \<lambda>_. None, borsh_operation_from_slice = \<lambda>_. None, borsh_member_set = \<lambda>_. None,
    borsh_lease = \<lambda>_. Some []\<rparr>"

definition group_lease :: MembershipLeaseStatement where
  "group_lease = \<lparr>ls_group_id = ConsensusGroupId (HashType 7), ls_epoch_hash = HashType 2, ls_epoch_nonce = 3,
    ls_member_set_hash = HashType 1, ls_challenge = 9, ls_issued_at_unix_millis = 1000, ls_valid_for_millis = 500\<rparr>"

lemma group_removal:
  "map rd_subject (rm_decisions (derive_consensus_node_removal_plan group_crypto btree_index_tree
    (group_verifiers [1, 2, 3, 4]) group_blocks (HashType 2) 3 removal_policy_supermajority)) = [PubKey 4]"
  by code_simp

lemma group_removed:
  "rd_subject ` set (rm_decisions (derive_consensus_node_removal_plan group_crypto btree_index_tree
    (group_verifiers [1, 2, 3, 4]) group_blocks (HashType 2) 3 removal_policy_supermajority)) = {PubKey 4}"
  using arg_cong [OF group_removal, of set] by simp

lemma group_blocks_values: "bm_values group_blocks = map group_block [1, 2, 3]"
  by code_simp

lemma group_admitted:
  "ap_admitted (derive_consensus_node_admission_plan group_crypto btree_index_tree
    (group_verifiers [1, 2, 3, 4]) group_blocks (HashType 2) 3) = [group_node 5]"
  by code_simp

lemma group_len: "bm_len (group_verifiers [1, 2, 3, 4]) = 4" "bm_keys (group_verifiers [1, 2, 3, 4]) = map PubKey [1, 2, 3, 4]"
  by code_simp+

theorem removal_needs_honest_observer_witness:
  "\<exists>block \<in> set (bm_values group_blocks). \<exists>r \<in> set (bb_encounter_records (block_body block)).
    bb_validator (block_body block) \<in> set (bm_keys (group_verifiers [1, 2, 3, 4])) - {PubKey 1}
    \<and> eb_subject (er_body r) = PubKey 4 \<and> encounter_verify group_crypto r = Ok ()"
proof -
  obtain d where d: "d \<in> set (rm_decisions (derive_consensus_node_removal_plan group_crypto btree_index_tree
      (group_verifiers [1, 2, 3, 4]) group_blocks (HashType 2) 3 removal_policy_supermajority))" "rd_subject d = PubKey 4"
    using group_removed by blast
  have "card {PubKey 1} \<le> byzantine_fault_bound (it_len btree_index_tree (group_verifiers [1, 2, 3, 4]))"
    by (simp add: group_len byzantine_fault_bound_def saturating_sub_def)
  from removal_needs_honest_observer [OF btree_index_tree_laws d(1) this] show ?thesis using d(2) by auto
qed

theorem admission_needs_honest_sponsor_witness:
  "\<exists>block \<in> set (bm_values group_blocks). \<exists>a \<in> set (bb_node_admissions (block_body block)).
    bb_validator (block_body block) \<in> set (bm_keys (group_verifiers [1, 2, 3, 4])) - {PubKey 1}
    \<and> ab_node (na_body a) = group_node 5 \<and> admission_verify group_crypto a = Ok ()"
proof -
  have "inj_on (admission_body_hash group_crypto)
      (na_body ` (\<Union>block \<in> set (bm_values group_blocks). set (bb_node_admissions (block_body block))))"
    by (rule inj_on_subset [of _ "{na_body group_admission}"])
      (auto simp: group_blocks_values group_block_def)
  moreover have "card {PubKey 1} \<le> byzantine_fault_bound (it_len btree_index_tree (group_verifiers [1, 2, 3, 4]))"
    by (simp add: group_len byzantine_fault_bound_def saturating_sub_def)
  moreover have "group_node 5 \<in> set (ap_admitted (derive_consensus_node_admission_plan group_crypto btree_index_tree
      (group_verifiers [1, 2, 3, 4]) group_blocks (HashType 2) 3))" by (simp add: group_admitted)
  ultimately show ?thesis
    using admission_needs_honest_sponsor [OF btree_index_tree_laws, of "group_node 5" group_crypto
        "group_verifiers [1, 2, 3, 4]" group_blocks "HashType 2" 3 "{PubKey 1}"] by auto
qed

theorem membership_transition_spec_witness:
  "set (bm_keys (fst (apply_epoch_membership_transition group_crypto btree_index_tree (group_verifiers [1, 2, 3, 4])
    group_blocks (HashType 2) 3 removal_policy_supermajority))) = {PubKey 1, PubKey 2, PubKey 3, PubKey 5}"
proof -
  let ?r = "apply_epoch_membership_transition group_crypto btree_index_tree (group_verifiers [1, 2, 3, 4])
    group_blocks (HashType 2) 3 removal_policy_supermajority"
  have "snd ?r = derive_consensus_node_removal_plan group_crypto btree_index_tree
      (group_verifiers [1, 2, 3, 4]) group_blocks (HashType 2) 3 removal_policy_supermajority"
    by (simp add: apply_epoch_membership_transition_def Let_def)
  then have removed: "{PubKey 4} = rd_subject ` set (rm_decisions (snd ?r))"
    using group_removed by (simp only:)
  have admitted: "{PubKey 5} = ni_public_key ` set (ap_admitted (derive_consensus_node_admission_plan group_crypto
      btree_index_tree (group_verifiers [1, 2, 3, 4]) group_blocks (HashType 2) 3))"
    by (simp add: group_admitted group_node_def)
  have "rp_min_remaining_verifiers removal_policy_supermajority
      \<le> it_len btree_index_tree (group_verifiers [1, 2, 3, 4])" by (simp add: removal_policy_supermajority_def group_len)
  note spec = membership_transition_spec [OF btree_index_tree_laws this prod.collapse [symmetric] removed admitted]
  show ?thesis using conjunct1 [OF spec] by (auto simp: group_len)
qed

theorem operations_never_grant_validators_witness:
  "set (bm_keys (active_validators btree_index_tree (apply_committed_member_operations group_codec
      (from_verifiers btree_index_tree (group_verifiers [1, 2])) group_blocks (ConsensusGroupId (HashType 7)) (HashType 2))))
    \<subseteq> set (bm_keys (active_validators btree_index_tree (from_verifiers btree_index_tree (group_verifiers [1, 2]))))"
  using operations_never_grant_validators [OF btree_index_tree_laws, of group_codec] by simp

theorem revoked_validator_returns_witness:
  "map_option mr_status (bm_get (sync_legacy_validators btree_index_tree (group_verifiers [1, 2])
    (sync_legacy_validators btree_index_tree (group_verifiers [2])
      (bm_insert (PubKey 1) (bootstrap_member (group_node 1)\<lparr>mr_status := StatusRevoked\<rparr>) bm_empty))) (PubKey 1))
    = Some StatusActive"
proof -
  have v: "bm_keys (group_verifiers [2]) = [PubKey 2]" "bm_values (group_verifiers [2]) = [group_node 2]"
    "bm_keys (group_verifiers [1, 2]) = [PubKey 1, PubKey 2]" "bm_values (group_verifiers [1, 2]) = [group_node 1, group_node 2]"
    by code_simp+
  have "bm_contains (mr_capabilities (bootstrap_member (group_node 1))) CapValidator"
    "mr_public_key (bootstrap_member (group_node 1)\<lparr>mr_status := StatusRevoked\<rparr>) = PubKey 1"
    by code_simp+
  then show ?thesis
    using revoked_validator_returns [OF btree_index_tree_laws, of
        "bm_insert (PubKey 1) (bootstrap_member (group_node 1)\<lparr>mr_status := StatusRevoked\<rparr>) bm_empty" "PubKey 1"
        "bootstrap_member (group_node 1)\<lparr>mr_status := StatusRevoked\<rparr>" "group_verifiers [2]" "group_verifiers [1, 2]"]
    by (simp add: v group_node_def)
qed

theorem lease_votes_certify_witness:
  "and_then (collect_results (map (lease_vote_signed sample_crypto group_codec group_lease) [SecKey 1, SecKey 2, SecKey 3]))
    (\<lambda>votes. and_then (lease_from_votes sample_crypto group_codec group_lease votes)
      (\<lambda>c. lease_certificate_verify sample_crypto group_codec btree_index_tree 1200 c (group_verifiers [1, 2, 3, 4]))) = Ok ()"
proof (rule lease_votes_certify [OF sample_crypto_honest btree_index_tree_laws])
  show "lease_signing_bytes group_codec group_lease = Ok (MEMBERSHIP_LEASE_DOMAIN @ [])"
    by (simp add: lease_signing_bytes_def group_codec_def)
  show "remaining_validity_at group_lease 1200 = Ok 300"
    by (simp add: remaining_validity_at_def expires_at_unix_millis_def group_lease_def MAX_MEMBERSHIP_LEASE_MILLIS_def
        saturating_add_u64_def)
qed (auto simp: group_len signer_public_key_def supermajority_count_def)

end
