(* ===== verification/RoundSkip.thy ===== *)
theory RoundSkip
  imports Crypto
begin

text \<open>
  \<open>src/src/round_skip.rs\<close>: the policy for assisting future rounds, the manifests that say
  where the carried blocks are held, and the votes and certificates that let an epoch skip
  a round.
\<close>

section \<open>Assistance policy\<close>

datatype FutureRoundAssistKind = RoundChangeSkip | DataBearing

record FutureRoundAssistInput =
  fa_kind :: FutureRoundAssistKind
  fa_last_certified_round :: "usize option"
  fa_target_round :: usize
  fa_skip_certificates :: usize
  fa_first_fanout_completed :: bool
  fa_local_block_in_candidate :: bool
  fa_local_block_replicated :: bool
  fa_parent_data_replicated :: bool
  fa_parent_data_repairable :: bool
  fa_holds_unreplicated_parent_data :: bool
  fa_future_body_validated :: bool

datatype FutureRoundAssistDecision =
  Assist | AssistDroppingLocalBlock | BufferForCertificates | BufferForRepair
  | ServeDataBeforeAssist | RejectDataVoteUntilValidated

definition future_round_assist_decision :: "FutureRoundAssistInput \<Rightarrow> FutureRoundAssistDecision" where
  "future_round_assist_decision input =
    (let next_uncertified_round =
           (case fa_last_certified_round input of None \<Rightarrow> 0 | Some round \<Rightarrow> saturating_add round 1);
         skipped_rounds = saturating_sub (fa_target_round input) next_uncertified_round
     in if fa_skip_certificates input < skipped_rounds then BufferForCertificates
        else if fa_local_block_in_candidate input \<and> \<not> fa_first_fanout_completed input
        then AssistDroppingLocalBlock
        else if fa_local_block_in_candidate input \<and> \<not> fa_local_block_replicated input
        then ServeDataBeforeAssist
        else if \<not> fa_parent_data_replicated input \<and> \<not> fa_parent_data_repairable input
        then BufferForRepair
        else if \<not> fa_parent_data_replicated input \<and> fa_parent_data_repairable input
          \<and> fa_holds_unreplicated_parent_data input
        then ServeDataBeforeAssist
        else if fa_kind input = DataBearing \<and> \<not> fa_future_body_validated input
        then RejectDataVoteUntilValidated
        else Assist)"

definition checked_sub :: "usize \<Rightarrow> usize \<Rightarrow> usize option" where
  "checked_sub a b = (if b \<le> a then Some (a - b) else None)"

definition skipped_round_assist_decision :: "usize \<Rightarrow> FutureRoundAssistDecision" where
  "skipped_round_assist_decision round =
    future_round_assist_decision
      \<lparr>fa_kind = RoundChangeSkip,
       fa_last_certified_round = checked_sub round 1,
       fa_target_round = saturating_add round 1,
       fa_skip_certificates = 1,
       fa_first_fanout_completed = (round > 0),
       fa_local_block_in_candidate = (round = 0),
       fa_local_block_replicated = (round > 0),
       fa_parent_data_replicated = True,
       fa_parent_data_repairable = True,
       fa_holds_unreplicated_parent_data = False,
       fa_future_body_validated = False\<rparr>"


section \<open>Dissemination manifests\<close>

record DataDisseminationManifest =
  dm_last_epoch :: HashType
  dm_nonce :: Nonce
  dm_first_fanout_round :: u8
  dm_last_certified_round :: "u8 option"
  dm_certified_blocks_hash :: HashType
  dm_carried_blocks :: "HashType btree_set"
  dm_dropped_local_blocks :: "HashType btree_set"
  dm_source_nodes :: "PubKey btree_set"
  dm_replica_holders :: "(HashType, PubKey btree_set) btree_map"

record DataDisseminationManifestValidation =
  dv_carried_blocks :: usize
  dv_dropped_local_blocks :: usize
  dv_min_replicas_per_block :: usize

definition first_fanout_completed :: "DataDisseminationManifest \<Rightarrow> bool" where
  "first_fanout_completed m =
    (case dm_last_certified_round m of None \<Rightarrow> False | Some round \<Rightarrow> round \<ge> dm_first_fanout_round m)"

definition carried_block_replica_count :: "DataDisseminationManifest \<Rightarrow> HashType \<Rightarrow> usize" where
  "carried_block_replica_count m block =
    (case bm_get (dm_replica_holders m) block of Some holders \<Rightarrow> bm_len holders | None \<Rightarrow> 0)"

definition local_block_decision :: "DataDisseminationManifest \<Rightarrow> HashType \<Rightarrow> FutureRoundAssistDecision" where
  "local_block_decision m local_block =
    (if bm_contains (dm_dropped_local_blocks m) local_block then AssistDroppingLocalBlock
     else if \<not> bm_contains (dm_carried_blocks m) local_block then Assist
     else if \<not> first_fanout_completed m then AssistDroppingLocalBlock
     else if carried_block_replica_count m local_block = 0 then ServeDataBeforeAssist
     else Assist)"

definition byzantine_safe_replica_threshold :: "usize \<Rightarrow> usize" where
  "byzantine_safe_replica_threshold fault_bound = saturating_add fault_bound 1"

definition every_carried_block_has_replica_threshold :: "DataDisseminationManifest \<Rightarrow> usize \<Rightarrow> bool" where
  "every_carried_block_has_replica_threshold m min_replicas0 =
    (let min_replicas = max min_replicas0 1
     in list_all (\<lambda>block. carried_block_replica_count m block \<ge> min_replicas) (bm_keys (dm_carried_blocks m)))"

definition every_carried_block_has_replica :: "DataDisseminationManifest \<Rightarrow> bool" where
  "every_carried_block_has_replica m = every_carried_block_has_replica_threshold m 1"

definition every_carried_block_has_byzantine_safe_replica :: "DataDisseminationManifest \<Rightarrow> usize \<Rightarrow> bool" where
  "every_carried_block_has_byzantine_safe_replica m fault_bound =
    every_carried_block_has_replica_threshold m (byzantine_safe_replica_threshold fault_bound)"

definition can_reconstruct_from_threshold ::
  "DataDisseminationManifest \<Rightarrow> PubKey btree_set \<Rightarrow> usize \<Rightarrow> bool" where
  "can_reconstruct_from_threshold m sources min_sources0 =
    (let min_sources_per_block = max min_sources0 1
     in bm_is_empty (dm_carried_blocks m)
        \<or> list_all (\<lambda>block.
            case bm_get (dm_replica_holders m) block of
              None \<Rightarrow> False
            | Some holders \<Rightarrow>
                length (filter (bm_contains sources) (bm_keys holders)) \<ge> min_sources_per_block)
          (bm_keys (dm_carried_blocks m)))"

definition can_reconstruct_from :: "DataDisseminationManifest \<Rightarrow> PubKey btree_set \<Rightarrow> bool" where
  "can_reconstruct_from m sources = can_reconstruct_from_threshold m sources 1"

definition can_reconstruct_from_byzantine_safe_sources ::
  "DataDisseminationManifest \<Rightarrow> PubKey btree_set \<Rightarrow> usize \<Rightarrow> bool" where
  "can_reconstruct_from_byzantine_safe_sources m sources fault_bound =
    can_reconstruct_from_threshold m sources (byzantine_safe_replica_threshold fault_bound)"

definition validate_availability ::
  "DataDisseminationManifest \<Rightarrow> PubKey list \<Rightarrow> usize \<Rightarrow> DataDisseminationManifestValidation result" where
  "validate_availability m current0 min_replicas0 =
    (let min_replicas_per_block = max min_replicas0 1;
         current_validators = bs_of_list current0
     in if list_ex (\<lambda>source. \<not> bm_contains current_validators source) (bm_keys (dm_source_nodes m))
        then Err WireProtocol
        else if list_ex (bm_contains (dm_dropped_local_blocks m)) (bm_keys (dm_carried_blocks m))
        then Err WireProtocol
        else if list_ex (\<lambda>block. \<not> bm_contains (dm_carried_blocks m) block) (bm_keys (dm_replica_holders m))
        then Err WireProtocol
        else if list_ex (\<lambda>holders. list_ex (\<lambda>holder.
              \<not> bm_contains (dm_source_nodes m) holder \<or> \<not> bm_contains current_validators holder)
            (bm_keys holders)) (bm_values (dm_replica_holders m))
        then Err WireProtocol
        else if \<not> every_carried_block_has_replica_threshold m min_replicas_per_block
        then Err WireProtocol
        else Ok \<lparr>dv_carried_blocks = bm_len (dm_carried_blocks m),
                 dv_dropped_local_blocks = bm_len (dm_dropped_local_blocks m),
                 dv_min_replicas_per_block = min_replicas_per_block\<rparr>)"

definition full_data_holders :: "DataDisseminationManifest \<Rightarrow> PubKey btree_set" where
  "full_data_holders m =
    (if bm_is_empty (dm_carried_blocks m) then dm_source_nodes m
     else bs_of_list (filter (\<lambda>source.
        list_all (\<lambda>block.
          case bm_get (dm_replica_holders m) block of
            None \<Rightarrow> False
          | Some holders \<Rightarrow> bm_contains holders source) (bm_keys (dm_carried_blocks m)))
        (bm_keys (dm_source_nodes m))))"

definition ROUND_SKIP_MANIFEST_HASH_DOMAIN :: bytes where
  "ROUND_SKIP_MANIFEST_HASH_DOMAIN = string_bytes ''blossom.round-skip.manifest.v1''"

definition hash_set_bytes :: "HashType btree_set \<Rightarrow> bytes" where
  "hash_set_bytes hashes =
    u64_to_le_bytes (u64_of_usize (bm_len hashes)) @ concat (map hash_as_ref (bm_keys hashes))"

definition pubkey_set_bytes :: "PubKey btree_set \<Rightarrow> bytes" where
  "pubkey_set_bytes keys =
    u64_to_le_bytes (u64_of_usize (bm_len keys)) @ concat (map pubkey_as_ref (bm_keys keys))"

definition replica_map_bytes :: "(HashType, PubKey btree_set) btree_map \<Rightarrow> bytes" where
  "replica_map_bytes replica_holders =
    u64_to_le_bytes (u64_of_usize (bm_len replica_holders))
    @ concat (map (\<lambda>(block, holders). hash_as_ref block @ pubkey_set_bytes holders) (bm_entries replica_holders))"

definition manifest_bytes :: "DataDisseminationManifest \<Rightarrow> bytes" where
  "manifest_bytes m =
    ROUND_SKIP_MANIFEST_HASH_DOMAIN
    @ hash_as_ref (dm_last_epoch m)
    @ u64_to_le_bytes (dm_nonce m)
    @ [dm_first_fanout_round m]
    @ (case dm_last_certified_round m of Some round \<Rightarrow> [1] @ [round] | None \<Rightarrow> [0])
    @ hash_as_ref (dm_certified_blocks_hash m)
    @ hash_set_bytes (dm_carried_blocks m)
    @ hash_set_bytes (dm_dropped_local_blocks m)
    @ pubkey_set_bytes (dm_source_nodes m)
    @ replica_map_bytes (dm_replica_holders m)"

definition manifest_hash :: "crypto \<Rightarrow> DataDisseminationManifest \<Rightarrow> HashType" where
  "manifest_hash E m = sha256 E (manifest_bytes m)"


section \<open>Votes and certificates\<close>

record RoundSkipVote =
  sv_voter :: PubKey
  sv_last_epoch :: HashType
  sv_nonce :: Nonce
  sv_from_round :: u8
  sv_to_round :: u8
  sv_manifest_hash :: HashType
  sv_signature :: Signature

record RoundSkipCertificate =
  sc_last_epoch :: HashType
  sc_nonce :: Nonce
  sc_from_round :: u8
  sc_to_round :: u8
  sc_manifest_hash :: HashType
  sc_votes :: "RoundSkipVote list"

record RoundSkipCertificateValidation =
  scv_valid_distinct_votes :: usize
  scv_required_votes :: usize

definition ROUND_SKIP_VOTE_SIGNATURE_DOMAIN :: bytes where
  "ROUND_SKIP_VOTE_SIGNATURE_DOMAIN = string_bytes ''blossom.round-skip.vote.v1''"

definition vote_signing_bytes ::
  "PubKey \<Rightarrow> HashType \<Rightarrow> Nonce \<Rightarrow> u8 \<Rightarrow> u8 \<Rightarrow> HashType \<Rightarrow> bytes" where
  "vote_signing_bytes voter last_epoch nonce from_round to_round manifest =
    ROUND_SKIP_VOTE_SIGNATURE_DOMAIN
    @ pubkey_as_ref voter
    @ hash_as_ref last_epoch
    @ u64_to_le_bytes nonce
    @ [from_round]
    @ [to_round]
    @ hash_as_ref manifest"

definition vote_signing_hash :: "crypto \<Rightarrow> RoundSkipVote \<Rightarrow> HashType" where
  "vote_signing_hash E v =
    sha256 E (vote_signing_bytes (sv_voter v) (sv_last_epoch v) (sv_nonce v) (sv_from_round v)
      (sv_to_round v) (sv_manifest_hash v))"

definition vote_sign_with ::
  "crypto \<Rightarrow> PubKey \<Rightarrow> SecKey \<Rightarrow> HashType \<Rightarrow> Nonce \<Rightarrow> u8 \<Rightarrow> u8 \<Rightarrow> HashType \<Rightarrow> RoundSkipVote" where
  "vote_sign_with E voter signer last_epoch nonce from_round to_round manifest =
    \<lparr>sv_voter = voter, sv_last_epoch = last_epoch, sv_nonce = nonce, sv_from_round = from_round,
     sv_to_round = to_round, sv_manifest_hash = manifest,
     sv_signature = ed_sign E signer (hash_as_ref (sha256 E
       (vote_signing_bytes voter last_epoch nonce from_round to_round manifest)))\<rparr>"

definition vote_verify_signature :: "crypto \<Rightarrow> RoundSkipVote \<Rightarrow> unit result" where
  "vote_verify_signature E v =
    signature_verify E (sv_signature v) (hash_as_ref (vote_signing_hash E v)) (sv_voter v)"

definition matches_certificate :: "RoundSkipVote \<Rightarrow> RoundSkipCertificate \<Rightarrow> bool" where
  "matches_certificate v c \<longleftrightarrow>
    sv_last_epoch v = sc_last_epoch c
    \<and> sv_nonce v = sc_nonce c
    \<and> sv_from_round v = sc_from_round c
    \<and> sv_to_round v = sc_to_round c
    \<and> sv_manifest_hash v = sc_manifest_hash c"

definition valid_voters :: "crypto \<Rightarrow> RoundSkipCertificate \<Rightarrow> PubKey list \<Rightarrow> PubKey btree_set" where
  "valid_voters E c current_validators =
    (let current = bs_of_list current_validators
     in bs_of_list (map sv_voter
          (filter (\<lambda>v. is_ok (vote_verify_signature E v))
            (filter (\<lambda>v. bm_contains current (sv_voter v))
              (filter (\<lambda>v. matches_certificate v c) (sc_votes c))))))"

definition valid_vote_count :: "crypto \<Rightarrow> RoundSkipCertificate \<Rightarrow> PubKey list \<Rightarrow> usize" where
  "valid_vote_count E c current_validators =
    distinct_current_validator_count (bm_keys (valid_voters E c current_validators)) current_validators"

definition required_votes :: "RoundSkipCertificate \<Rightarrow> PubKey list \<Rightarrow> usize" where
  "required_votes c current_validators = supermajority_count (length current_validators)"

definition reaches_supermajority :: "crypto \<Rightarrow> RoundSkipCertificate \<Rightarrow> PubKey list \<Rightarrow> bool" where
  "reaches_supermajority E c current_validators =
    has_supermajority (length current_validators) (valid_vote_count E c current_validators)"

definition validate_against_epoch ::
  "crypto \<Rightarrow> RoundSkipCertificate \<Rightarrow> PubKey list \<Rightarrow> HashType \<Rightarrow> Nonce
    \<Rightarrow> RoundSkipCertificateValidation result" where
  "validate_against_epoch E c current_validators expected_last_epoch expected_nonce =
    (if sc_to_round c \<le> sc_from_round c then Err WireProtocol
     else if sc_last_epoch c \<noteq> expected_last_epoch \<or> sc_nonce c \<noteq> expected_nonce then Err WireProtocol
     else let valid_distinct_votes = valid_vote_count E c current_validators;
              required = required_votes c current_validators
          in if \<not> has_supermajority (length current_validators) valid_distinct_votes then Err WireProtocol
             else Ok \<lparr>scv_valid_distinct_votes = valid_distinct_votes, scv_required_votes = required\<rparr>)"

definition validate_against_epoch_and_manifest ::
  "crypto \<Rightarrow> RoundSkipCertificate \<Rightarrow> PubKey list \<Rightarrow> HashType \<Rightarrow> Nonce \<Rightarrow> DataDisseminationManifest \<Rightarrow> usize
    \<Rightarrow> RoundSkipCertificateValidation result" where
  "validate_against_epoch_and_manifest E c current_validators expected_last_epoch expected_nonce m min_replicas =
    (if sc_manifest_hash c \<noteq> manifest_hash E m then Err WireProtocol
     else and_then (validate_availability m current_validators min_replicas) (\<lambda>_.
       validate_against_epoch E c current_validators expected_last_epoch expected_nonce))"


section \<open>Certificates\<close>

lemma valid_voters_contains:
  "bm_contains (valid_voters E c vs) k \<longleftrightarrow> k \<in> set vs \<and>
    (\<exists>v \<in> set (sc_votes c). sv_voter v = k \<and> matches_certificate v c \<and> vote_verify_signature E v = Ok ())"
  by (auto simp: valid_voters_def is_ok_iff)

lemma valid_vote_count_card:
  "valid_vote_count E c vs = card {k \<in> set vs. \<exists>v \<in> set (sc_votes c).
    sv_voter v = k \<and> matches_certificate v c \<and> vote_verify_signature E v = Ok ()}"
proof -
  have "set (bm_keys (valid_voters E c vs)) \<inter> set vs = {k \<in> set vs. \<exists>v \<in> set (sc_votes c).
      sv_voter v = k \<and> matches_certificate v c \<and> vote_verify_signature E v = Ok ()}"
    by (auto simp: bm_keys_contains valid_voters_contains)
  then show ?thesis by (simp add: valid_vote_count_def distinct_count_card)
qed

lemma validated_certificate_quorum:
  assumes "validate_against_epoch E c vs epoch nonce = Ok r" "distinct vs"
  shows "supermajority_quorum vs {k \<in> set vs. \<exists>v \<in> set (sc_votes c).
      sv_voter v = k \<and> matches_certificate v c \<and> vote_verify_signature E v = Ok ()}"
    and "sc_last_epoch c = epoch" "sc_nonce c = nonce" "sc_from_round c < sc_to_round c"
  using assms distinct_card [OF assms(2)]
  by (auto simp: validate_against_epoch_def Let_def supermajority_quorum_def valid_vote_count_card not_le)


section \<open>Manifests\<close>

lemma availability_Ok:
  assumes "validate_availability m vs min_replicas = Ok r"
  shows "\<And>k. bm_contains (dm_source_nodes m) k \<Longrightarrow> k \<in> set vs"
    and "\<And>b. bm_contains (dm_carried_blocks m) b \<Longrightarrow> \<not> bm_contains (dm_dropped_local_blocks m) b"
    and "\<And>b holders k. bm_get (dm_replica_holders m) b = Some holders \<Longrightarrow> bm_contains holders k
      \<Longrightarrow> k \<in> set vs \<and> bm_contains (dm_source_nodes m) k"
    and "\<And>b. bm_contains (dm_carried_blocks m) b \<Longrightarrow> max min_replicas 1 \<le> carried_block_replica_count m b"
proof -
  have vals: "holders \<in> set (bm_values (dm_replica_holders m))"
    if "bm_get (dm_replica_holders m) b = Some holders" for b holders
    using that by (force simp: bm_values_def bm_get_Some_iff)
  note unfolded = assms [unfolded validate_availability_def Let_def if_Err_Ok_iff not_not list_ex_iff]
  show "\<And>k. bm_contains (dm_source_nodes m) k \<Longrightarrow> k \<in> set vs"
    using unfolded by (auto simp: bm_keys_contains)
  show "\<And>b. bm_contains (dm_carried_blocks m) b \<Longrightarrow> \<not> bm_contains (dm_dropped_local_blocks m) b"
    using unfolded by (auto simp: bm_keys_contains)
  show "\<And>b holders k. bm_get (dm_replica_holders m) b = Some holders \<Longrightarrow> bm_contains holders k
      \<Longrightarrow> k \<in> set vs \<and> bm_contains (dm_source_nodes m) k"
    using unfolded vals by (metis bm_keys_contains bs_of_list_contains)
  show "\<And>b. bm_contains (dm_carried_blocks m) b \<Longrightarrow> max min_replicas 1 \<le> carried_block_replica_count m b"
    using unfolded by (auto simp: every_carried_block_has_replica_threshold_def list_all_iff bm_keys_contains)
qed

lemma hash_set_delimited: "delimited (\<lambda>s. bm_len s \<le> usize_max) hash_set_bytes"
  unfolding delimited_def
proof (intro allI impI)
  fix a b :: "HashType btree_set" and x y
  assume small: "bm_len a \<le> usize_max" "bm_len b \<le> usize_max" and eq: "hash_set_bytes a @ x = hash_set_bytes b @ y"
  from eq have len: "u64_of_usize (bm_len a) = u64_of_usize (bm_len b)"
    and rest: "concat (map hash_as_ref (bm_keys a)) @ x = concat (map hash_as_ref (bm_keys b)) @ y"
    by (simp_all add: hash_set_bytes_def append_eq_same_length)
  have "length (bm_keys a) = length (bm_keys b)"
    using len small by (simp add: u64_of_usize_inject bm_len_def bm_keys_def)
  moreover have "delimited (\<lambda>_. True) hash_as_ref"
    by (rule fixed_width_delimited [of _ 32]) (auto simp: inj_def)
  ultimately have "bm_keys a = bm_keys b \<and> x = y" using rest delimited_list by blast
  then show "a = b \<and> x = y" by (simp add: btree_set_eqI)
qed

lemma pubkey_set_delimited: "delimited (\<lambda>s. bm_len s \<le> usize_max) pubkey_set_bytes"
  unfolding delimited_def
proof (intro allI impI)
  fix a b :: "PubKey btree_set" and x y
  assume small: "bm_len a \<le> usize_max" "bm_len b \<le> usize_max"
    and eq: "pubkey_set_bytes a @ x = pubkey_set_bytes b @ y"
  from eq have len: "u64_of_usize (bm_len a) = u64_of_usize (bm_len b)"
    and rest: "concat (map pubkey_as_ref (bm_keys a)) @ x = concat (map pubkey_as_ref (bm_keys b)) @ y"
    by (simp_all add: pubkey_set_bytes_def append_eq_same_length)
  have "length (bm_keys a) = length (bm_keys b)"
    using len small by (simp add: u64_of_usize_inject bm_len_def bm_keys_def)
  moreover have "delimited (\<lambda>_. True) pubkey_as_ref"
    by (rule fixed_width_delimited [of _ 32]) (auto simp: inj_def)
  ultimately have "bm_keys a = bm_keys b \<and> x = y" using rest delimited_list by blast
  then show "a = b \<and> x = y" by (simp add: btree_set_eqI)
qed

definition small_replica_map :: "(HashType, PubKey btree_set) btree_map \<Rightarrow> bool" where
  "small_replica_map r \<longleftrightarrow> bm_len r \<le> usize_max \<and> (\<forall>(b, holders) \<in> set (bm_entries r). bm_len holders \<le> usize_max)"

lemma replica_map_delimited: "delimited small_replica_map replica_map_bytes"
  unfolding delimited_def
proof (intro allI impI)
  fix a b :: "(HashType, PubKey btree_set) btree_map" and x y
  let ?enc = "\<lambda>(block, holders). hash_as_ref block @ pubkey_set_bytes holders"
  let ?P = "\<lambda>(block::HashType, holders::PubKey btree_set). bm_len holders \<le> usize_max"
  assume small: "small_replica_map a" "small_replica_map b" and eq: "replica_map_bytes a @ x = replica_map_bytes b @ y"
  from eq have len: "u64_of_usize (bm_len a) = u64_of_usize (bm_len b)"
    and rest: "concat (map ?enc (bm_entries a)) @ x = concat (map ?enc (bm_entries b)) @ y"
    by (simp_all add: replica_map_bytes_def append_eq_same_length)
  have same: "length (bm_entries a) = length (bm_entries b)"
    using len small by (simp add: u64_of_usize_inject bm_len_def small_replica_map_def)
  have "delimited ?P ?enc"
    unfolding delimited_def
    by (clarsimp simp: append_eq_same_length) (metis delimitedD [OF pubkey_set_delimited])
  moreover have "\<forall>e \<in> set (bm_entries a) \<union> set (bm_entries b). ?P e"
    using small by (auto simp: small_replica_map_def)
  ultimately have "bm_entries a = bm_entries b \<and> x = y" using same rest by (intro delimited_list)
  then show "a = b \<and> x = y" by (simp add: bm_entries_inject)
qed

definition small_manifest :: "DataDisseminationManifest \<Rightarrow> bool" where
  "small_manifest m \<longleftrightarrow> bm_len (dm_carried_blocks m) \<le> usize_max \<and> bm_len (dm_dropped_local_blocks m) \<le> usize_max
    \<and> bm_len (dm_source_nodes m) \<le> usize_max \<and> small_replica_map (dm_replica_holders m)"

lemma manifest_bytes_inject:
  assumes "small_manifest a" "small_manifest b" and eq: "manifest_bytes a = manifest_bytes b"
  shows "a = b"
proof -
  note small = assms(1,2) [unfolded small_manifest_def]
  have head: "dm_last_epoch a = dm_last_epoch b" "dm_nonce a = dm_nonce b"
    "dm_first_fanout_round a = dm_first_fanout_round b" "dm_last_certified_round a = dm_last_certified_round b"
    "dm_certified_blocks_hash a = dm_certified_blocks_hash b"
    and rest: "hash_set_bytes (dm_carried_blocks a) @ hash_set_bytes (dm_dropped_local_blocks a)
        @ pubkey_set_bytes (dm_source_nodes a) @ replica_map_bytes (dm_replica_holders a) @ []
      = hash_set_bytes (dm_carried_blocks b) @ hash_set_bytes (dm_dropped_local_blocks b)
        @ pubkey_set_bytes (dm_source_nodes b) @ replica_map_bytes (dm_replica_holders b) @ []"
    using eq by (auto simp: manifest_bytes_def append_eq_same_length split: option.splits)
  have 1: "dm_carried_blocks a = dm_carried_blocks b"
    and rest1: "hash_set_bytes (dm_dropped_local_blocks a)
        @ pubkey_set_bytes (dm_source_nodes a) @ replica_map_bytes (dm_replica_holders a) @ []
      = hash_set_bytes (dm_dropped_local_blocks b)
        @ pubkey_set_bytes (dm_source_nodes b) @ replica_map_bytes (dm_replica_holders b) @ []"
    using delimitedD [OF hash_set_delimited rest] small by auto
  have 2: "dm_dropped_local_blocks a = dm_dropped_local_blocks b"
    and rest2: "pubkey_set_bytes (dm_source_nodes a) @ replica_map_bytes (dm_replica_holders a) @ []
      = pubkey_set_bytes (dm_source_nodes b) @ replica_map_bytes (dm_replica_holders b) @ []"
    using delimitedD [OF hash_set_delimited rest1] small by auto
  have 3: "dm_source_nodes a = dm_source_nodes b"
    and rest3: "replica_map_bytes (dm_replica_holders a) @ [] = replica_map_bytes (dm_replica_holders b) @ []"
    using delimitedD [OF pubkey_set_delimited rest2] small by auto
  have 4: "dm_replica_holders a = dm_replica_holders b"
    using delimitedD [OF replica_map_delimited rest3] small by auto
  show ?thesis using head 1 2 3 4 by (cases a; cases b) simp
qed

lemma holders_survive:
  assumes "validate_availability m vs (byzantine_safe_replica_threshold f) = Ok r" "f < usize_max"
    and "bm_contains (dm_carried_blocks m) b" "finite F" "card F \<le> f"
  obtains holders k where "bm_get (dm_replica_holders m) b = Some holders" "bm_contains holders k" "k \<in> set vs" "k \<notin> F"
proof -
  have "Suc f \<le> carried_block_replica_count m b"
    using availability_Ok(4) [OF assms(1,3)] assms(2)
    by (simp add: byzantine_safe_replica_threshold_def saturating_add_def)
  then obtain holders where h: "bm_get (dm_replica_holders m) b = Some holders" and "Suc f \<le> bm_len holders"
    by (auto simp: carried_block_replica_count_def split: option.splits)
  then have "\<not> dom (bm_get holders) \<subseteq> F"
    using assms(4,5) card_mono [of F "dom (bm_get holders)"] by (auto simp: bm_len_card)
  then obtain k where "k \<in> dom (bm_get holders)" "k \<notin> F" by blast
  then have "bm_contains holders k" "k \<notin> F" by (auto simp: bm_contains_def)
  with h show ?thesis using that availability_Ok(3) [OF assms(1)] by blast
qed


section \<open>Examples\<close>

definition sample_manifest :: DataDisseminationManifest where
  "sample_manifest =
    \<lparr>dm_last_epoch = HashType 5, dm_nonce = 9, dm_first_fanout_round = 0, dm_last_certified_round = Some 0,
     dm_certified_blocks_hash = HashType 6, dm_carried_blocks = bs_of_list [HashType 7],
     dm_dropped_local_blocks = bm_empty, dm_source_nodes = bs_of_list [PubKey 1, PubKey 2],
     dm_replica_holders = bm_of_list [(HashType 7, bs_of_list [PubKey 1, PubKey 2])]\<rparr>"

definition sample_vote :: "256 word \<Rightarrow> RoundSkipVote" where
  "sample_vote k = vote_sign_with sample_crypto (PubKey k) (SecKey k) (HashType 5) 9 0 1
    (manifest_hash sample_crypto sample_manifest)"

definition sample_certificate :: "256 word list \<Rightarrow> RoundSkipCertificate" where
  "sample_certificate ks =
    \<lparr>sc_last_epoch = HashType 5, sc_nonce = 9, sc_from_round = 0, sc_to_round = 1,
     sc_manifest_hash = manifest_hash sample_crypto sample_manifest, sc_votes = map sample_vote ks\<rparr>"

definition sample_validators :: "PubKey list" where
  "sample_validators = [PubKey 1, PubKey 2, PubKey 3, PubKey 4]"

lemma sample_manifest_available:
  "validate_availability sample_manifest sample_validators 2 =
    Ok \<lparr>dv_carried_blocks = 1, dv_dropped_local_blocks = 0, dv_min_replicas_per_block = 2\<rparr>"
  by (simp add: validate_availability_def sample_manifest_def sample_validators_def Let_def
      every_carried_block_has_replica_threshold_def carried_block_replica_count_def bm_eval eval_simps)

lemma sample_vote_sel:
  "sv_voter (sample_vote k) = PubKey k" "vote_verify_signature sample_crypto (sample_vote k) = Ok ()"
  "matches_certificate (sample_vote k) (sample_certificate ks)" "sc_votes (sample_certificate ks) = map sample_vote ks"
  by (simp_all add: sample_vote_def vote_sign_with_def vote_verify_signature_def matches_certificate_def
      sample_certificate_def)

lemma sample_certificate_valid:
  assumes "ks \<in> {[1, 2, 3], [2, 3, 4]}"
  shows "is_ok (validate_against_epoch_and_manifest sample_crypto (sample_certificate ks) sample_validators
    (HashType 5) 9 sample_manifest 2)"
proof -
  have "{k \<in> set sample_validators. \<exists>v \<in> set (sc_votes (sample_certificate ks)).
      sv_voter v = k \<and> matches_certificate v (sample_certificate ks)
      \<and> vote_verify_signature sample_crypto v = Ok ()} = PubKey ` set ks"
    using assms by (auto simp: sample_validators_def sample_vote_sel)
  moreover have "card (PubKey ` set ks) = 3" using assms by auto
  ultimately have "valid_vote_count sample_crypto (sample_certificate ks) sample_validators = 3"
    by (simp add: valid_vote_count_card)
  then have "is_ok (validate_against_epoch sample_crypto (sample_certificate ks) sample_validators (HashType 5) 9)"
    by (simp add: validate_against_epoch_def) (simp add: sample_certificate_def sample_validators_def
        has_supermajority_def supermajority_count_def)
  moreover have "sc_manifest_hash (sample_certificate ks) = manifest_hash sample_crypto sample_manifest"
    by (simp add: sample_certificate_def)
  ultimately show ?thesis
    by (simp add: validate_against_epoch_and_manifest_def sample_manifest_available)
qed


section \<open>Properties\<close>



text \<open>C21: a validated manifest survives the faults it is dimensioned for. When availability was
  validated with the Byzantine-safe replica threshold of the validator set, the current validators outside any
  set of at most \<open>byzantine_fault_bound\<close> faulty ones still hold every carried block, and no
  carried block is among the dropped ones.\<close>

theorem validated_manifest_reconstructs:
  assumes "validate_availability m vs (byzantine_safe_replica_threshold (byzantine_fault_bound (length vs))) = Ok r"
    and "length vs \<le> usize_max" "finite F" "card F \<le> byzantine_fault_bound (length vs)"
  shows "can_reconstruct_from m (bs_of_list (filter (\<lambda>k. k \<notin> F) vs))
    \<and> (\<forall>b. bm_contains (dm_carried_blocks m) b \<longrightarrow> \<not> bm_contains (dm_dropped_local_blocks m) b)"
proof -
  have small: "byzantine_fault_bound (length vs) < usize_max"
    using assms(2) by (auto simp: byzantine_fault_bound_def saturating_sub_def usize_max_def)
  have "case bm_get (dm_replica_holders m) b of None \<Rightarrow> False
      | Some holders \<Rightarrow> max 1 1 \<le> length (filter (bm_contains (bs_of_list (filter (\<lambda>k. k \<notin> F) vs))) (bm_keys holders))"
    if b: "bm_contains (dm_carried_blocks m) b" for b
  proof -
    obtain holders k where h: "bm_get (dm_replica_holders m) b = Some holders"
      and k: "bm_contains holders k" "k \<in> set vs" "k \<notin> F"
      using holders_survive [OF assms(1) small b assms(3,4)] .
    have "k \<in> set (filter (bm_contains (bs_of_list (filter (\<lambda>k. k \<notin> F) vs))) (bm_keys holders))"
      using k by (simp add: bm_keys_contains)
    then have "0 < length (filter (bm_contains (bs_of_list (filter (\<lambda>k. k \<notin> F) vs))) (bm_keys holders))"
      by (rule length_pos_if_in_set)
    then show ?thesis by (simp only: h option.case max.idem One_nat_def Suc_le_eq)
  qed
  then show ?thesis
    using availability_Ok(2) [OF assms(1)]
    by (simp only: can_reconstruct_from_def can_reconstruct_from_threshold_def list_all_iff Ball_def bm_keys_contains Let_def)
      blast
qed

theorem validated_manifest_reconstructs_witness:
  "can_reconstruct_from sample_manifest (bs_of_list (filter (\<lambda>k. k \<notin> {PubKey 2}) sample_validators))"
proof -
  have n: "length sample_validators = 4" by (simp add: sample_validators_def)
  have "byzantine_safe_replica_threshold (byzantine_fault_bound (length sample_validators)) = 2"
    by (simp add: n byzantine_fault_bound_def saturating_sub_def byzantine_safe_replica_threshold_def
        saturating_add_def usize_max_def)
  then show ?thesis
    using sample_manifest_available
    by (intro conjunct1 [OF validated_manifest_reconstructs]) (simp_all add: n usize_max_def byzantine_fault_bound_def saturating_sub_def)
qed

text \<open>A node assists a future round without reservation exactly when the rounds
  between its last certified one and the target are covered by skip certificates, its own block (if it is a
  candidate) has completed the first fan-out and is replicated, the parent data is replicated,
  or repairable without this node being the only holder, and a data-bearing vote has a validated body;
  a missing certificate is reported before anything else. The single-round skip of a round is always granted, dropping
  the local block only in the first round.\<close>

theorem assist_decision_spec:
  "(future_round_assist_decision i = Assist \<longleftrightarrow>
      fa_target_round i \<le> (case fa_last_certified_round i of None \<Rightarrow> 0 | Some r \<Rightarrow> min (r + 1) usize_max)
        + fa_skip_certificates i
      \<and> (fa_local_block_in_candidate i \<longrightarrow> fa_first_fanout_completed i \<and> fa_local_block_replicated i)
      \<and> (fa_parent_data_replicated i \<or> fa_parent_data_repairable i \<and> \<not> fa_holds_unreplicated_parent_data i)
      \<and> (fa_kind i = DataBearing \<longrightarrow> fa_future_body_validated i))
    \<and> (future_round_assist_decision i = BufferForCertificates \<longleftrightarrow>
      fa_skip_certificates i + (case fa_last_certified_round i of None \<Rightarrow> 0 | Some r \<Rightarrow> min (r + 1) usize_max)
        < fa_target_round i)
    \<and> skipped_round_assist_decision n = (if n = 0 then AssistDroppingLocalBlock else Assist)"
proof -
  have "future_round_assist_decision i = Assist \<longleftrightarrow>
      fa_target_round i \<le> (case fa_last_certified_round i of None \<Rightarrow> 0 | Some r \<Rightarrow> min (r + 1) usize_max)
        + fa_skip_certificates i
      \<and> (fa_local_block_in_candidate i \<longrightarrow> fa_first_fanout_completed i \<and> fa_local_block_replicated i)
      \<and> (fa_parent_data_replicated i \<or> fa_parent_data_repairable i \<and> \<not> fa_holds_unreplicated_parent_data i)
      \<and> (fa_kind i = DataBearing \<longrightarrow> fa_future_body_validated i)"
    by (auto simp: future_round_assist_decision_def Let_def saturating_add_def saturating_sub_def split: option.splits)
  moreover have "future_round_assist_decision i = BufferForCertificates \<longleftrightarrow>
      fa_skip_certificates i + (case fa_last_certified_round i of None \<Rightarrow> 0 | Some r \<Rightarrow> min (r + 1) usize_max)
        < fa_target_round i"
    by (auto simp: future_round_assist_decision_def Let_def saturating_add_def saturating_sub_def split: option.splits)
  moreover have "skipped_round_assist_decision n = (if n = 0 then AssistDroppingLocalBlock else Assist)"
    by (auto simp: skipped_round_assist_decision_def future_round_assist_decision_def Let_def checked_sub_def
        saturating_add_def saturating_sub_def split: option.splits)
  ultimately show ?thesis by blast
qed

theorem assist_decision_spec_witness:
  "future_round_assist_decision
    \<lparr>fa_kind = DataBearing, fa_last_certified_round = Some 2, fa_target_round = 5, fa_skip_certificates = 2,
     fa_first_fanout_completed = True, fa_local_block_in_candidate = True, fa_local_block_replicated = True,
     fa_parent_data_replicated = False, fa_parent_data_repairable = True,
     fa_holds_unreplicated_parent_data = False, fa_future_body_validated = True\<rparr> = Assist"
  by (simp add: assist_decision_spec usize_max_def)

end
