(* ===== verification/Messages.thy ===== *)
theory Messages
  imports Block RoundSkip
begin

text \<open>
  \<open>src/src/blossom.rs\<close> and \<open>src/src/messages.rs\<close>: the records of the consensus messages, the bytes that their
  signatures cover, signature trees and the checks on message bodies. Borsh, which encodes the
  bodies of the round-skip messages for signing, is a parameter.
\<close>

section \<open>Kinds and headers\<close>

datatype MSGKey =
    KeyDispatch | KeyEchoResponse | KeyEchoRequest | KeyEchoReDispatch | KeyVerification | KeyProposal | KeyCommit
  | KeyEpochStarted | KeyRoundSkipVote | KeyRoundSkipCertificate | KeyReconcileAppraisal | KeyReconcileRequest
  | KeyReconcileResponse | KeyReconcileCommit | KeyTrustedAcknowledgement

fun signature_tag :: "MSGKey \<Rightarrow> u8" where
  "signature_tag KeyDispatch = 0"
| "signature_tag KeyEchoResponse = 1"
| "signature_tag KeyEchoRequest = 2"
| "signature_tag KeyEchoReDispatch = 3"
| "signature_tag KeyVerification = 4"
| "signature_tag KeyProposal = 5"
| "signature_tag KeyCommit = 6"
| "signature_tag KeyEpochStarted = 7"
| "signature_tag KeyRoundSkipVote = 8"
| "signature_tag KeyRoundSkipCertificate = 9"
| "signature_tag KeyReconcileAppraisal = 10"
| "signature_tag KeyReconcileRequest = 11"
| "signature_tag KeyReconcileResponse = 12"
| "signature_tag KeyReconcileCommit = 13"
| "signature_tag KeyTrustedAcknowledgement = 14"

record Header =
  hd_sender :: PubKey
  hd_last_epoch :: HashType
  hd_nonce :: Nonce
  hd_round :: u8
  hd_signature :: Signature

definition MESSAGE_SIGNATURE_DOMAIN :: bytes where
  "MESSAGE_SIGNATURE_DOMAIN = string_bytes ''blossom.message-signature.v1''"

definition signature_context :: "PubKey \<Rightarrow> HashType \<Rightarrow> Nonce \<Rightarrow> u8 \<Rightarrow> MSGKey \<Rightarrow> bytes" where
  "signature_context sender last_epoch nonce round kind =
    MESSAGE_SIGNATURE_DOMAIN @ [signature_tag kind] @ pubkey_as_ref sender @ hash_as_ref last_epoch
    @ u64_to_le_bytes nonce @ [round]"

definition signature_hash_for_bytes ::
  "crypto \<Rightarrow> PubKey \<Rightarrow> HashType \<Rightarrow> Nonce \<Rightarrow> u8 \<Rightarrow> MSGKey \<Rightarrow> bytes \<Rightarrow> HashType" where
  "signature_hash_for_bytes E sender last_epoch nonce round kind body_bytes =
    sha256 E (signature_context sender last_epoch nonce round kind @ body_bytes)"

definition header_signature_hash :: "crypto \<Rightarrow> Header \<Rightarrow> MSGKey \<Rightarrow> bytes \<Rightarrow> HashType" where
  "header_signature_hash E h kind body_bytes =
    signature_hash_for_bytes E (hd_sender h) (hd_last_epoch h) (hd_nonce h) (hd_round h) kind body_bytes"

definition header_verify_signature :: "crypto \<Rightarrow> Header \<Rightarrow> MSGKey \<Rightarrow> bytes \<Rightarrow> unit result" where
  "header_verify_signature E h kind body_bytes =
    signature_verify E (hd_signature h) (hash_as_ref (header_signature_hash E h kind body_bytes)) (hd_sender h)"


section \<open>Sets of blocks\<close>

type_synonym hash_set = "HashType btree_set"
type_synonym block_map = "(HashType, Block) btree_map"

text \<open>\<open>DoHash\<close> of a map hashes its keys; \<open>update_signing_hash\<close> feeds the number of entries and the entries.\<close>

definition map_hash :: "crypto \<Rightarrow> (HashType, 'v) btree_map \<Rightarrow> HashType" where
  "map_hash E m = hash_slices E (map hash_as_ref (bm_keys m))"

definition key_set_signing_bytes :: "hash_set \<Rightarrow> bytes" where
  "key_set_signing_bytes s = u64_to_le_bytes (u64_of_usize (bm_len s)) @ concat (map hash_as_ref (bm_keys s))"

definition block_map_signing_bytes :: "crypto \<Rightarrow> block_map \<Rightarrow> bytes" where
  "block_map_signing_bytes E blocks =
    u64_to_le_bytes (u64_of_usize (bm_len blocks))
    @ concat (map (\<lambda>(hash, block). hash_as_ref hash @ hash_as_ref (block_hash block)
        @ hash_as_ref (body_hash E (block_body block)) @ signature_as_ref (block_signature block)) (bm_entries blocks))"


section \<open>Signature trees\<close>

type_synonym StSignatures = "(PubKey \<times> Signature) list"
type_synonym SignaturesForHash = "StSignatures \<times> hash_set"
type_synonym SignatureTree = "(HashType, SignaturesForHash) btree_map"

definition BATCH_SIGNATURE_VERIFY_THRESHOLD :: usize where
  "BATCH_SIGNATURE_VERIFY_THRESHOLD = 4"

definition tree_insert :: "crypto \<Rightarrow> PubKey \<Rightarrow> Signature \<Rightarrow> hash_set \<Rightarrow> SignatureTree \<Rightarrow> SignatureTree" where
  "tree_insert E signed_by signature blocks tree =
    (let key = map_hash E blocks in
     bm_insert key (case bm_get tree key of
         Some (signatures, known) \<Rightarrow> (signatures @ [(signed_by, signature)], known)
       | None \<Rightarrow> ([(signed_by, signature)], blocks)) tree)"

text \<open>The messages, signatures and keys that the batched check collects, in the order of the tree.\<close>

definition tree_signatures :: "SignatureTree \<Rightarrow> (HashType \<times> PubKey \<times> Signature) list" where
  "tree_signatures tree = concat (map (\<lambda>(blocks_hash, signatures, _). map (Pair blocks_hash) signatures) (bm_entries tree))"

definition tree_verify_batched :: "crypto \<Rightarrow> SignatureTree \<Rightarrow> bool" where
  "tree_verify_batched E tree =
    (if list_ex (\<lambda>(blocks_hash, _, blocks). map_hash E blocks \<noteq> blocks_hash) (bm_entries tree) then False
     else is_ok (verify_batch E
       (map (\<lambda>(h, _, _). hash_as_ref h) (tree_signatures tree))
       (map (\<lambda>(_, _, s). s) (tree_signatures tree))
       (map (\<lambda>(_, k, _). k) (tree_signatures tree))))"

definition tree_verify :: "crypto \<Rightarrow> SignatureTree \<Rightarrow> bool" where
  "tree_verify E tree =
    (let signature_count = sum_list (map (\<lambda>(signatures, _). length signatures) (bm_values tree)) in
     if signature_count \<ge> BATCH_SIGNATURE_VERIFY_THRESHOLD then tree_verify_batched E tree
     else list_all (\<lambda>(blocks_hash, signatures, blocks).
       map_hash E blocks = blocks_hash
       \<and> list_all (\<lambda>(pub_key, signature). is_ok (signature_verify E signature (hash_as_ref blocks_hash) pub_key)) signatures)
       (bm_entries tree))"


section \<open>Message bodies\<close>

record DispatchBody =
  db_blocks :: block_map
  db_blocks_hash :: HashType
  db_signature_tree :: SignatureTree
  db_signature_tree_hash :: HashType

definition dispatch_body_default :: "crypto \<Rightarrow> DispatchBody" where
  "dispatch_body_default E = \<lparr>db_blocks = bm_empty, db_blocks_hash = map_hash E (bm_empty :: block_map),
    db_signature_tree = bm_empty, db_signature_tree_hash = map_hash E (bm_empty :: SignatureTree)\<rparr>"

definition dispatch_validate :: "crypto \<Rightarrow> DispatchBody \<Rightarrow> unit result" where
  "dispatch_validate E b =
    (if map_hash E (db_blocks b) \<noteq> db_blocks_hash b then Err WireProtocol
     else if map_hash E (db_signature_tree b) \<noteq> db_signature_tree_hash b then Err WireProtocol
     else Ok ())"

definition block_check :: "crypto \<Rightarrow> bool \<Rightarrow> HashType \<Rightarrow> Block \<Rightarrow> bool" where
  "block_check E verify_signatures hash block =
    (if verify_signatures then is_ok (verify_integrity_with_hash E block hash)
     else is_ok (verify_unsigned_integrity_with_hash E block hash))"

definition verify_body_with_signature_checks ::
  "crypto \<Rightarrow> DispatchBody \<Rightarrow> block_map \<Rightarrow> bool \<Rightarrow> block_map \<times> HashType \<times> SignatureTree \<times> HashType" where
  "verify_body_with_signature_checks E b already_verified_blocks verify_signatures =
    (if \<not> is_ok (dispatch_validate E b) then (bm_empty, default_hash, bm_empty, default_hash)
     else let accepted_blocks = bm_retain (\<lambda>sent_hash block.
                \<not> bm_contains already_verified_blocks sent_hash \<and> block_check E verify_signatures sent_hash block) (db_blocks b);
              signature_tree = (if verify_signatures
                then (if tree_verify E (db_signature_tree b) then db_signature_tree b else bm_empty)
                else if map_hash E (db_signature_tree b) = db_signature_tree_hash b then db_signature_tree b else bm_empty)
          in (accepted_blocks, map_hash E accepted_blocks, signature_tree, map_hash E signature_tree))"

definition dispatch_signing_bytes :: "DispatchBody \<Rightarrow> bytes" where
  "dispatch_signing_bytes b = hash_as_ref (db_blocks_hash b) @ hash_as_ref (db_signature_tree_hash b)"

record Dispatch =
  di_header :: Header
  di_body :: DispatchBody

definition add_blocks :: "block_map \<Rightarrow> block_map \<Rightarrow> block_map" where
  "add_blocks pending_blocks blocks =
    fold (\<lambda>(hash, block) pending. if bb_txs (block_body block) \<noteq> [] then bm_insert hash block pending else pending)
      (bm_entries blocks) pending_blocks"

record EchoResponseBody =
  ec_sender :: PubKey
  ec_blocks_hash :: HashType
  ec_signature_tree_hash :: HashType

definition echo_response_signing_bytes :: "EchoResponseBody \<Rightarrow> bytes" where
  "echo_response_signing_bytes b =
    pubkey_as_ref (ec_sender b) @ hash_as_ref (ec_blocks_hash b) @ hash_as_ref (ec_signature_tree_hash b)"

record EchoResponse =
  es_header :: Header
  es_body :: EchoResponseBody

record EchoRequest =
  eq_header :: Header
  eq_requested_blocks :: hash_set

record EchoReDispatch =
  re_header :: Header
  re_redispatched_blocks :: block_map

record VerificationBody =
  vb_blocks_hash :: HashType
  vb_blocks :: hash_set

definition verification_validate :: "crypto \<Rightarrow> VerificationBody \<Rightarrow> unit result" where
  "verification_validate E b = (if map_hash E (vb_blocks b) \<noteq> vb_blocks_hash b then Err WireProtocol else Ok ())"

definition verification_signing_bytes :: "VerificationBody \<Rightarrow> bytes" where
  "verification_signing_bytes b = hash_as_ref (vb_blocks_hash b) @ key_set_signing_bytes (vb_blocks b)"

record Verification =
  vf_header :: Header
  vf_body :: VerificationBody

record TrustedAcknowledgement =
  ta_header :: Header
  ta_body :: VerificationBody

record ProposalBody =
  pb_consensus :: bool
  pb_approved_blocks :: "hash_set option"
  pb_approved_hash :: "HashType option"
  pb_verif :: "StSignatures option"
  pb_signature_tree :: "hash_set option"
  pb_signature_tree_hash :: "HashType option"

definition proposal_validate :: "crypto \<Rightarrow> ProposalBody \<Rightarrow> unit result" where
  "proposal_validate E b =
    (if \<not> pb_consensus b then Ok ()
     else and_then (ok_or (pb_approved_blocks b) WireProtocol) (\<lambda>approved_blocks.
       and_then (ok_or (pb_approved_hash b) WireProtocol) (\<lambda>approved_hash.
       if map_hash E approved_blocks \<noteq> approved_hash then Err WireProtocol
       else case (pb_signature_tree b, pb_signature_tree_hash b) of
           (Some signature_tree, Some signature_tree_hash) \<Rightarrow>
             if map_hash E signature_tree \<noteq> signature_tree_hash then Err WireProtocol else Ok ()
         | _ \<Rightarrow> Ok ())))"

definition bool_byte :: "bool \<Rightarrow> u8" where
  "bool_byte b = (if b then 1 else 0)"

definition opt_bytes :: "('a \<Rightarrow> bytes) \<Rightarrow> 'a option \<Rightarrow> bytes" where
  "opt_bytes f x = (case x of Some y \<Rightarrow> 1 # f y | None \<Rightarrow> [0])"

definition signatures_bytes :: "StSignatures \<Rightarrow> bytes" where
  "signatures_bytes vs =
    u64_to_le_bytes (u64_of_usize (length vs)) @ concat (map (\<lambda>(k, s). pubkey_as_ref k @ signature_as_ref s) vs)"

definition proposal_signing_bytes :: "ProposalBody \<Rightarrow> bytes" where
  "proposal_signing_bytes b =
    [bool_byte (pb_consensus b)]
    @ (if \<not> pb_consensus b then []
       else opt_bytes key_set_signing_bytes (pb_approved_blocks b)
         @ opt_bytes hash_as_ref (pb_approved_hash b)
         @ opt_bytes signatures_bytes (pb_verif b)
         @ opt_bytes key_set_signing_bytes (pb_signature_tree b)
         @ opt_bytes hash_as_ref (pb_signature_tree_hash b))"

record Proposal =
  pr_header :: Header
  pr_body :: ProposalBody

record CommitBody =
  cb_consensus :: bool
  cb_signature_tree_insert :: "SignatureTree option"
  cb_epoch_hash :: "HashType option"
  cb_epoch_signature :: "Signature option"

definition commit_signing_bytes :: "CommitBody \<Rightarrow> bytes" where
  "commit_signing_bytes b =
    [bool_byte (cb_consensus b)]
    @ opt_bytes (\<lambda>tree. u64_to_le_bytes (u64_of_usize (bm_len tree)) @ concat (map hash_as_ref (bm_keys tree)))
        (cb_signature_tree_insert b)
    @ (case (cb_epoch_hash b, cb_epoch_signature b) of
         (Some epoch_hash, Some epoch_signature) \<Rightarrow> 1 # hash_as_ref epoch_hash @ signature_as_ref epoch_signature
       | _ \<Rightarrow> [0])"

record Commit =
  cm_header :: Header
  cm_body :: CommitBody

text \<open>The body of an \<open>EpochStarted\<close> message has no fields.\<close>

record EpochStarted =
  et_header :: Header

definition epoch_started_signing_bytes :: bytes where
  "epoch_started_signing_bytes = [0]"

record RoundSkipVoteBody =
  kb_vote :: RoundSkipVote
  kb_manifest :: DataDisseminationManifest

record RoundSkipVoteMessage =
  km_header :: Header
  km_body :: RoundSkipVoteBody

record RoundSkipCertificateBody =
  kc_certificate :: RoundSkipCertificate
  kc_manifest :: DataDisseminationManifest

record RoundSkipCertificateMessage =
  kd_header :: Header
  kd_body :: RoundSkipCertificateBody

record skip_codec =
  borsh_skip_vote :: "RoundSkipVoteBody \<Rightarrow> bytes option"
  borsh_skip_certificate :: "RoundSkipCertificateBody \<Rightarrow> bytes option"

definition skip_vote_signing_bytes :: "skip_codec \<Rightarrow> RoundSkipVoteBody \<Rightarrow> bytes" where
  "skip_vote_signing_bytes B b = unwrap_or (borsh_skip_vote B b) []"

definition skip_certificate_signing_bytes :: "skip_codec \<Rightarrow> RoundSkipCertificateBody \<Rightarrow> bytes" where
  "skip_certificate_signing_bytes B b = unwrap_or (borsh_skip_certificate B b) []"

record ReconcileAppraisalBody =
  ra_blocks_hash :: HashType
  ra_blocks :: hash_set
  ra_manifest_hash :: HashType

definition reconcile_appraisal_signing_bytes :: "ReconcileAppraisalBody \<Rightarrow> bytes" where
  "reconcile_appraisal_signing_bytes b =
    hash_as_ref (ra_blocks_hash b) @ key_set_signing_bytes (ra_blocks b) @ hash_as_ref (ra_manifest_hash b)"

record ReconcileAppraisal =
  rca_header :: Header
  rca_body :: ReconcileAppraisalBody

record ReconcileRequestBody =
  rr_blocks_hash :: HashType
  rr_missing_blocks :: hash_set

definition reconcile_request_signing_bytes :: "ReconcileRequestBody \<Rightarrow> bytes" where
  "reconcile_request_signing_bytes b = hash_as_ref (rr_blocks_hash b) @ key_set_signing_bytes (rr_missing_blocks b)"

record ReconcileRequest =
  rcr_header :: Header
  rcr_body :: ReconcileRequestBody

record ReconcileResponseBody =
  rs_response_hash :: HashType
  rs_response_blocks :: block_map

definition reconcile_response_signing_bytes :: "crypto \<Rightarrow> ReconcileResponseBody \<Rightarrow> bytes" where
  "reconcile_response_signing_bytes E b =
    hash_as_ref (rs_response_hash b) @ block_map_signing_bytes E (rs_response_blocks b)"

record ReconcileResponse =
  rcs_header :: Header
  rcs_body :: ReconcileResponseBody

record ReconcileCommitBody =
  rc_blocks_hash :: HashType
  rc_epoch_hash :: HashType
  rc_signatures :: StSignatures

definition reconcile_commit_signing_bytes :: "ReconcileCommitBody \<Rightarrow> bytes" where
  "reconcile_commit_signing_bytes b =
    hash_as_ref (rc_blocks_hash b) @ hash_as_ref (rc_epoch_hash b) @ signatures_bytes (rc_signatures b)"

record ReconcileCommit =
  rcc_header :: Header
  rcc_body :: ReconcileCommitBody


section \<open>The message envelope\<close>

datatype Msg =
    MsgDispatch Dispatch | MsgEchoResponse EchoResponse | MsgEchoRequest EchoRequest | MsgEchoReDispatch EchoReDispatch
  | MsgVerification Verification | MsgProposal Proposal | MsgCommit Commit | MsgEpochStarted EpochStarted
  | MsgRoundSkipVote RoundSkipVoteMessage | MsgRoundSkipCertificate RoundSkipCertificateMessage
  | MsgReconcileAppraisal ReconcileAppraisal | MsgReconcileRequest ReconcileRequest
  | MsgReconcileResponse ReconcileResponse | MsgReconcileCommit ReconcileCommit
  | MsgOk | MsgFail | MsgTrustedAcknowledgement TrustedAcknowledgement

text \<open>\<open>BlossomMessage::kind\<close>, \<open>header\<close> and \<open>body_hash\<close> of the messages that implement the trait.\<close>

fun message_header :: "Msg \<Rightarrow> (MSGKey \<times> Header) option" where
  "message_header (MsgDispatch m) = Some (KeyDispatch, di_header m)"
| "message_header (MsgEchoResponse m) = Some (KeyEchoResponse, es_header m)"
| "message_header (MsgEchoRequest m) = Some (KeyEchoRequest, eq_header m)"
| "message_header (MsgEchoReDispatch m) = Some (KeyEchoReDispatch, re_header m)"
| "message_header (MsgVerification m) = Some (KeyVerification, vf_header m)"
| "message_header (MsgProposal m) = Some (KeyProposal, pr_header m)"
| "message_header (MsgCommit m) = Some (KeyCommit, cm_header m)"
| "message_header (MsgEpochStarted m) = Some (KeyEpochStarted, et_header m)"
| "message_header (MsgRoundSkipVote m) = Some (KeyRoundSkipVote, km_header m)"
| "message_header (MsgRoundSkipCertificate m) = Some (KeyRoundSkipCertificate, kd_header m)"
| "message_header (MsgReconcileAppraisal m) = Some (KeyReconcileAppraisal, rca_header m)"
| "message_header (MsgReconcileRequest m) = Some (KeyReconcileRequest, rcr_header m)"
| "message_header (MsgReconcileResponse m) = Some (KeyReconcileResponse, rcs_header m)"
| "message_header (MsgReconcileCommit m) = Some (KeyReconcileCommit, rcc_header m)"
| "message_header (MsgTrustedAcknowledgement m) = Some (KeyTrustedAcknowledgement, ta_header m)"
| "message_header MsgOk = None"
| "message_header MsgFail = None"

definition commit_body_hash :: "CommitBody \<Rightarrow> HashType" where
  "commit_body_hash b =
    (case cb_epoch_hash b of
       Some h \<Rightarrow> h
     | None \<Rightarrow> (case cb_signature_tree_insert b of
         None \<Rightarrow> default_hash
       | Some tree \<Rightarrow> (case bm_keys tree of [] \<Rightarrow> default_hash | k # _ \<Rightarrow> k)))"


section \<open>What a message signature covers\<close>

lemma signature_tag_inject [simp]: "signature_tag a = signature_tag b \<longleftrightarrow> a = b"
  by (cases a; cases b) simp_all

lemma signature_context_inject:
  "signature_context s e n r k @ x = signature_context s' e' n' r' k' @ y
    \<longleftrightarrow> s = s' \<and> e = e' \<and> n = n' \<and> r = r' \<and> k = k' \<and> x = y"
  by (auto simp: signature_context_def append_eq_append_conv)

lemma signature_hash_binds:
  assumes "header_signature_hash E h k x = header_signature_hash E h' k' y"
    and "inj_on (sha256 E) {signature_context (hd_sender h) (hd_last_epoch h) (hd_nonce h) (hd_round h) k @ x,
      signature_context (hd_sender h') (hd_last_epoch h') (hd_nonce h') (hd_round h') k' @ y}"
  shows "k = k' \<and> x = y \<and> h\<lparr>hd_signature := s\<rparr> = h'\<lparr>hd_signature := s\<rparr>"
proof -
  have "signature_context (hd_sender h) (hd_last_epoch h) (hd_nonce h) (hd_round h) k @ x =
      signature_context (hd_sender h') (hd_last_epoch h') (hd_nonce h') (hd_round h') k' @ y"
    using assms unfolding header_signature_hash_def signature_hash_for_bytes_def inj_on_def by blast
  then show ?thesis unfolding signature_context_inject by (cases h, cases h') simp
qed

lemma key_set_signing_delimited: "delimited (\<lambda>s. bm_len s \<le> usize_max) key_set_signing_bytes"
proof -
  have "key_set_signing_bytes = hash_set_bytes" by (simp add: fun_eq_iff key_set_signing_bytes_def hash_set_bytes_def)
  then show ?thesis using hash_set_delimited by simp
qed

lemma verification_signing_inject:
  assumes "verification_signing_bytes a = verification_signing_bytes b" "bm_len (vb_blocks a) \<le> usize_max" "bm_len (vb_blocks b) \<le> usize_max"
  shows "a = b"
proof -
  have "key_set_signing_bytes (vb_blocks a) @ [] = key_set_signing_bytes (vb_blocks b) @ []" "vb_blocks_hash a = vb_blocks_hash b"
    using assms(1) by (auto simp: verification_signing_bytes_def)
  then show ?thesis using delimitedD [OF key_set_signing_delimited _ assms(2,3)] by auto
qed


section \<open>Signature trees\<close>

lemma tree_signatures_entry:
  assumes "bm_get tree h = Some (signatures, blocks)" "(k, s) \<in> set signatures"
  shows "(h, k, s) \<in> set (tree_signatures tree)"
  using assms by (force simp: tree_signatures_def bm_get_Some_iff)

lemma batched_signature:
  assumes "sound_batches E" "tree_verify_batched E tree" "(h, k, s) \<in> set (tree_signatures tree)"
  shows "signature_verify E s (hash_as_ref h) k = Ok ()"
proof -
  let ?sigs = "tree_signatures tree"
  have ok: "verify_batch E (map (\<lambda>(h, _, _). hash_as_ref h) ?sigs) (map (\<lambda>(_, _, s). s) ?sigs) (map (\<lambda>(_, k, _). k) ?sigs) = Ok ()"
    using assms(2) by (auto simp: tree_verify_batched_def is_ok_iff split: if_splits)
  obtain i where i: "i < length ?sigs" "?sigs ! i = (h, k, s)" using assms(3) by (metis in_set_conv_nth)
  then show ?thesis using verify_batch_sound [OF assms(1) ok, of i] by simp
qed

text \<open>C25: a signature tree that passes its check holds only sets of blocks filed under their own hash and only
  signatures that verify for that hash under their keys, on the single and on the batched path.\<close>

theorem signature_tree_sound:
  assumes "sound_batches E" "tree_verify E tree" "bm_get tree h = Some (signatures, blocks)" "(k, s) \<in> set signatures"
  shows "map_hash E blocks = h \<and> signature_verify E s (hash_as_ref h) k = Ok ()"
proof (cases "tree_verify_batched E tree")
  case True
  then have "list_all (\<lambda>(h, _, blocks). map_hash E blocks = h) (bm_entries tree)"
    by (auto simp: tree_verify_batched_def list_ex_iff list_all_iff split: if_splits)
  then have "map_hash E blocks = h" using assms(3) by (auto simp: list_all_iff bm_get_Some_iff)
  then show ?thesis using batched_signature [OF assms(1) True tree_signatures_entry [OF assms(3,4)]] by simp
next
  case False
  then show ?thesis
    using assms(2-4) by (fastforce simp: tree_verify_def Let_def list_all_iff bm_get_Some_iff is_ok_iff split: if_splits)
qed

theorem signature_tree_sound_witness:
  "signature_verify sample_crypto (Signature 3) (hash_as_ref (map_hash sample_crypto (bm_empty :: hash_set))) (PubKey 3) = Ok ()"
proof -
  let ?b = "bm_empty :: hash_set"
  let ?t = "fold (\<lambda>k. tree_insert sample_crypto (PubKey k) (Signature (ucast k)) ?b) [1, 2, 3, 4] bm_empty"
  have v: "tree_verify sample_crypto ?t" by code_simp
  have g: "bm_get ?t (map_hash sample_crypto ?b) = Some (map (\<lambda>k. (PubKey k, Signature (ucast k))) [1, 2, 3, 4], ?b)"
    by (simp add: tree_insert_def Let_def)
  have "(PubKey 3, Signature 3) \<in> set (map (\<lambda>k. (PubKey k, Signature (ucast k))) [1, 2, 3, 4])" by simp
  then show ?thesis by (rule conjunct2 [OF signature_tree_sound [OF sample_crypto_batches v g]])
qed

end
