(* ===== verification/Epochs.thy ===== *)
theory Epochs
  imports Membership Messages
begin

text \<open>
  \<open>src/src/state.rs\<close>: epochs, their bytes and hash, certificates, the construction of the next epoch
  from the blocks of a round and the validation of certified chains. The Merkle tree and the Borsh
  encoding of a member set are third-party code: they are fields of the parameter \<open>node_env\<close>, beside the
  cryptography, the ordered map of the verifiers and the limits that a node reads from its environment at startup.

  The lemmas show that the hash of an epoch commits to its parent, members, verifiers, blocks and
  parameters, that a committed epoch passes the validation of a node that catches up, and that
  two certified successors of one epoch were signed by a common honest validator.
\<close>

section \<open>Epochs\<close>

record ('m, 'k) node_env =
  ne_crypto :: crypto
  ne_tree :: "('m, PubKey, NodeIdentity) index_tree_ops"
  ne_key_tree :: "('k, PubKey, unit) index_tree_ops"
  ne_codec :: member_codec
  ne_member_bytes :: "MemberSet \<Rightarrow> bytes"
  ne_merkle :: "HashType list \<Rightarrow> HashType option"
  ne_skip_codec :: skip_codec
  ne_wire_limit :: usize
  ne_max_pending_raw :: usize
  ne_max_pending_raw_per_sender :: usize

record 'm EpochBody =
  epb_group_id :: ConsensusGroupId
  epb_members :: MemberSet
  epb_verifiers :: 'm
  epb_last_epoch :: HashType
  epb_previous_nonce :: "Nonce option"
  epb_nonce :: Nonce
  epb_merkle_root :: HashType
  epb_blocks :: "(HashType, Block) btree_map"
  epb_consensus_parameters :: "ConsensusParameters option"

record 'm Epoch =
  ep_hash :: HashType
  ep_signatures :: "(usize, Signature) btree_map"
  ep_body :: "'m EpochBody"

definition effective_consensus_parameters :: "'m EpochBody \<Rightarrow> ConsensusParameters" where
  "effective_consensus_parameters body = unwrap_or (epb_consensus_parameters body) ConsensusParameters_default"

definition EPOCH_MEMBERS_DOMAIN :: bytes where
  "EPOCH_MEMBERS_DOMAIN = string_bytes ''blossom/epoch-members/v1''"

definition EPOCH_PREVIOUS_NONCE_DOMAIN :: bytes where
  "EPOCH_PREVIOUS_NONCE_DOMAIN = string_bytes ''blossom/epoch-previous-nonce/v1''"

definition EPOCH_PARAMETERS_DOMAIN :: bytes where
  "EPOCH_PARAMETERS_DOMAIN = string_bytes ''blossom/epoch-consensus-parameters/v1''"

definition epoch_to_bytes :: "('m, 'k) node_env \<Rightarrow> 'm EpochBody \<Rightarrow> bytes" where
  "epoch_to_bytes N body =
    hash_as_ref (group_hash (epb_group_id body))
    @ EPOCH_MEMBERS_DOMAIN @ ne_member_bytes N (epb_members body)
    @ hash_as_ref (epb_last_epoch body)
    @ (case epb_previous_nonce body of
         Some previous_nonce \<Rightarrow> EPOCH_PREVIOUS_NONCE_DOMAIN @ u64_to_le_bytes previous_nonce
       | None \<Rightarrow> [])
    @ u64_to_le_bytes (epb_nonce body)
    @ hash_as_ref (epb_merkle_root body)
    @ concat (map pubkey_as_ref (it_keys (ne_tree N) (epb_verifiers body)))
    @ concat (map hash_as_ref (bm_keys (epb_blocks body)))
    @ (case epb_consensus_parameters body of
         Some parameters \<Rightarrow> EPOCH_PARAMETERS_DOMAIN @ u16_to_le_bytes (cp_version parameters)
           @ u64_to_le_bytes (u64_of_usize (quorum_get (cp_quorum_size parameters)))
       | None \<Rightarrow> [])"

definition epoch_body_hash :: "('m, 'k) node_env \<Rightarrow> 'm EpochBody \<Rightarrow> HashType" where
  "epoch_body_hash N body = sha256 (ne_crypto N) (epoch_to_bytes N body)"

definition set_hash :: "('m, 'k) node_env \<Rightarrow> 'm Epoch \<Rightarrow> 'm Epoch" where
  "set_hash N epoch = epoch\<lparr>ep_hash := epoch_body_hash N (ep_body epoch)\<rparr>"

text \<open>The checks of \<open>epoch_approved\<close> and \<open>verify_certificate\<close>, which differ in the verifier set only.\<close>

definition certificate_signature :: "('m, 'k) node_env \<Rightarrow> 'm \<Rightarrow> HashType \<Rightarrow> usize \<times> Signature \<Rightarrow> unit result" where
  "certificate_signature N verifiers hash = (\<lambda>(index, signature).
    and_then (ok_or (it_get_key_from_index (ne_tree N) verifiers index) UnknownSender) (\<lambda>public_key.
      signature_verify (ne_crypto N) signature (hash_as_ref hash) public_key))"

definition certificate_check :: "('m, 'k) node_env \<Rightarrow> 'm \<Rightarrow> 'm Epoch \<Rightarrow> unit result" where
  "certificate_check N verifiers epoch =
    (let validator_count = it_len (ne_tree N) verifiers in
     if validator_count = 0 \<or> bm_len (ep_signatures epoch) < supermajority_count validator_count then Err FailedConsensus
     else try_fold (\<lambda>_. certificate_signature N verifiers (ep_hash epoch)) () (bm_entries (ep_signatures epoch)))"

definition epoch_approved :: "('m, 'k) node_env \<Rightarrow> 'm Epoch \<Rightarrow> unit result" where
  "epoch_approved N epoch = certificate_check N (epb_verifiers (ep_body epoch)) epoch"

definition verify_certificate :: "('m, 'k) node_env \<Rightarrow> 'm Epoch \<Rightarrow> 'm Epoch \<Rightarrow> unit result" where
  "verify_certificate N epoch previous = certificate_check N (epb_verifiers (ep_body previous)) epoch"

record TrustedOrderedTransaction =
  to_epoch_hash :: HashType
  to_epoch_nonce :: Nonce
  to_previous_epoch_nonce :: "Nonce option"
  to_block_hash :: HashType
  to_writer :: PubKey
  to_transaction_index :: u32
  to_transaction :: Transaction

definition ordered_blocks :: "('m, 'k) node_env \<Rightarrow> 'm EpochBody \<Rightarrow> (HashType \<times> Block) list" where
  "ordered_blocks N body = fair_ordered_blocks (ne_crypto N) (epb_blocks body)"

definition application_states :: "('m, 'k) node_env \<Rightarrow> 'm EpochBody \<Rightarrow> (HashType \<times> PubKey \<times> bytes) list" where
  "application_states N body =
    map (\<lambda>(hash, block). (hash, bb_validator (block_body block), bb_application_state (block_body block)))
      (fair_ordered_blocks (ne_crypto N) (epb_blocks body))"

definition ordered_transaction :: "'m Epoch \<Rightarrow> HashType \<Rightarrow> Block \<Rightarrow> usize \<times> Transaction \<Rightarrow> TrustedOrderedTransaction result" where
  "ordered_transaction epoch hash block = (\<lambda>(transaction_index, transaction).
    if transaction_index \<ge> 2 ^ 32 then Err InvalidConfiguration
    else Ok \<lparr>to_epoch_hash = ep_hash epoch, to_epoch_nonce = epb_nonce (ep_body epoch),
      to_previous_epoch_nonce = epb_previous_nonce (ep_body epoch), to_block_hash = hash,
      to_writer = bb_validator (block_body block), to_transaction_index = of_nat transaction_index,
      to_transaction = transaction\<rparr>)"

definition ordered_block_transactions ::
  "('m, 'k) node_env \<Rightarrow> 'm Epoch \<Rightarrow> HashType \<times> Block \<Rightarrow> TrustedOrderedTransaction list result" where
  "ordered_block_transactions N epoch = (\<lambda>(hash, block).
    and_then (verify_unsigned_integrity_with_hash (ne_crypto N) block hash) (\<lambda>_.
      collect_results (map (ordered_transaction epoch hash block) (enumerate 0 (bb_txs (block_body block))))))"

definition trusted_ordered_transactions :: "('m, 'k) node_env \<Rightarrow> 'm Epoch \<Rightarrow> TrustedOrderedTransaction list result" where
  "trusted_ordered_transactions N epoch =
    (if ep_hash epoch \<noteq> epoch_body_hash N (ep_body epoch) then Err InvalidBlockHash
     else and_then (collect_results (map (ordered_block_transactions N epoch) (ordered_blocks N (ep_body epoch)))) (\<lambda>blocks.
       Ok (concat blocks)))"

definition block_merkle_root :: "('m, 'k) node_env \<Rightarrow> (HashType, Block) btree_map \<Rightarrow> HashType" where
  "block_merkle_root N blocks = unwrap_or (ne_merkle N (fair_ordered_block_commitments (ne_crypto N) blocks)) default_hash"

definition next_members ::
  "('m, 'k) node_env \<Rightarrow> 'm Epoch \<Rightarrow> (HashType, Block) btree_map \<Rightarrow> ConsensusNodeRemovalPolicy \<Rightarrow> MemberSet \<times> 'm" where
  "next_members N previous blocks removal_policy =
    (let (legacy_verifiers, _) = apply_epoch_membership_transition (ne_crypto N) (ne_tree N) (epb_verifiers (ep_body previous))
           blocks (ep_hash previous) (new_next (epb_nonce (ep_body previous))) removal_policy
     in apply_epoch_member_registry_transition (ne_tree N) (ne_codec N) (epb_members (ep_body previous)) legacy_verifiers blocks
          (epb_group_id (ep_body previous)) (ep_hash previous))"

definition build_verified_epoch ::
  "('m, 'k) node_env \<Rightarrow> 'm Epoch \<Rightarrow> (HashType, Block) btree_map \<Rightarrow> ConsensusNodeRemovalPolicy \<Rightarrow> 'm Epoch" where
  "build_verified_epoch N previous blocks removal_policy =
    (let (members, verifiers) = next_members N previous blocks removal_policy in
     \<lparr>ep_hash = default_hash, ep_signatures = bm_empty,
      ep_body = \<lparr>epb_group_id = epb_group_id (ep_body previous), epb_members = members, epb_verifiers = verifiers,
        epb_last_epoch = ep_hash previous, epb_previous_nonce = Some (epb_nonce (ep_body previous)),
        epb_nonce = new_next (epb_nonce (ep_body previous)), epb_merkle_root = block_merkle_root N blocks,
        epb_blocks = blocks, epb_consensus_parameters = Some (effective_consensus_parameters (ep_body previous))\<rparr>\<rparr>)"

definition verifier_sets_equal :: "('m, PubKey, NodeIdentity) index_tree_ops \<Rightarrow> 'm \<Rightarrow> 'm \<Rightarrow> bool" where
  "verifier_sets_equal T left right \<longleftrightarrow> it_len T left = it_len T right
    \<and> list_all (\<lambda>((left_key, left_value), (right_key, right_value)).
        left_key = right_key \<and> public_only left_value = public_only right_value) (zip (it_entries T left) (it_entries T right))"

definition validate_genesis_anchor :: "('m, 'k) node_env \<Rightarrow> 'm Epoch \<Rightarrow> ConsensusGroupId \<Rightarrow> unit result" where
  "validate_genesis_anchor N genesis expected_group =
    (let body = ep_body genesis in
     if epb_group_id body \<noteq> expected_group \<or> epb_nonce body \<noteq> 0 \<or> epb_previous_nonce body \<noteq> None
        \<or> epb_last_epoch body \<noteq> default_hash \<or> ep_hash genesis \<noteq> epoch_body_hash N body
        \<or> epb_merkle_root body \<noteq> block_merkle_root N (epb_blocks body)
        \<or> \<not> verifier_sets_equal (ne_tree N) (active_validators (ne_tree N) (epb_members body)) (epb_verifiers body)
     then Err WireProtocol
     else try_fold (\<lambda>_ (hash, block). verify_integrity_with_hash (ne_crypto N) block hash) () (bm_entries (epb_blocks body)))"

definition extension_block_check :: "('m, 'k) node_env \<Rightarrow> 'm Epoch \<Rightarrow> 'm Epoch \<Rightarrow> HashType \<times> Block \<Rightarrow> unit result" where
  "extension_block_check N previous epoch = (\<lambda>(hash, block).
    if bb_last_epoch (block_body block) \<noteq> ep_hash previous \<or> bb_nonce (block_body block) \<noteq> epb_nonce (ep_body epoch)
       \<or> \<not> it_contains_key (ne_tree N) (epb_verifiers (ep_body previous)) (bb_validator (block_body block))
    then Err UnknownSender
    else verify_integrity_with_hash (ne_crypto N) block hash)"

definition validate_certified_extension ::
  "('m, 'k) node_env \<Rightarrow> 'm Epoch \<Rightarrow> 'm Epoch \<Rightarrow> ConsensusNodeRemovalPolicy \<Rightarrow> unit result" where
  "validate_certified_extension N previous epoch removal_policy =
    (let body = ep_body epoch; parent = ep_body previous in
     if epb_group_id body \<noteq> epb_group_id parent \<or> epb_last_epoch body \<noteq> ep_hash previous
        \<or> epb_previous_nonce body \<noteq> Some (epb_nonce parent) \<or> epb_nonce body \<noteq> new_next (epb_nonce parent)
        \<or> effective_consensus_parameters body \<noteq> effective_consensus_parameters parent
     then Err InvalidEpochNonce
     else and_then (try_fold (\<lambda>_. extension_block_check N previous epoch) () (bm_entries (epb_blocks body))) (\<lambda>_.
       if epb_merkle_root body \<noteq> block_merkle_root N (epb_blocks body) then Err InvalidBlockHash
       else let expected = ep_body (build_verified_epoch N previous (epb_blocks body) removal_policy) in
       if epb_members body \<noteq> epb_members expected
          \<or> \<not> verifier_sets_equal (ne_tree N) (epb_verifiers body) (epb_verifiers expected) then Err WireProtocol
       else if ep_hash epoch \<noteq> epoch_body_hash N body then Err InvalidBlockHash
       else verify_certificate N epoch previous))"

definition CERTIFIED_EPOCH_SUFFIX_VERSION :: u16 where
  "CERTIFIED_EPOCH_SUFFIX_VERSION = 1"

definition MAX_CERTIFIED_EPOCH_SUFFIX :: usize where
  "MAX_CERTIFIED_EPOCH_SUFFIX = 4096"

record 'm CertifiedEpochSuffix =
  cs_version :: u16
  cs_group_id :: ConsensusGroupId
  cs_anchor_hash :: HashType
  cs_anchor_nonce :: Nonce
  cs_epochs :: "'m Epoch list"

text \<open>The loop over a suffix: every epoch extends the one before it.\<close>

definition validate_extensions :: "('m, 'k) node_env \<Rightarrow> ConsensusNodeRemovalPolicy \<Rightarrow> 'm Epoch \<Rightarrow> 'm Epoch list \<Rightarrow> 'm Epoch result" where
  "validate_extensions N removal_policy anchor epochs =
    try_fold (\<lambda>previous epoch. and_then (validate_certified_extension N previous epoch removal_policy) (\<lambda>_. Ok epoch)) anchor epochs"

definition validate_from ::
  "('m, 'k) node_env \<Rightarrow> 'm CertifiedEpochSuffix \<Rightarrow> 'm Epoch \<Rightarrow> ConsensusNodeRemovalPolicy \<Rightarrow> unit result" where
  "validate_from N suffix anchor removal_policy =
    (if cs_version suffix \<noteq> CERTIFIED_EPOCH_SUFFIX_VERSION \<or> cs_group_id suffix \<noteq> epb_group_id (ep_body anchor)
        \<or> cs_anchor_hash suffix \<noteq> ep_hash anchor \<or> cs_anchor_nonce suffix \<noteq> epb_nonce (ep_body anchor)
        \<or> length (cs_epochs suffix) > MAX_CERTIFIED_EPOCH_SUFFIX
     then Err InvalidEpochNonce
     else and_then (validate_extensions N removal_policy anchor (cs_epochs suffix)) (\<lambda>_. Ok ()))"



section \<open>What an epoch hash commits to\<close>

text \<open>The verifiers of an epoch follow from its members.\<close>

definition verifiers_from_members :: "('m, 'k) node_env \<Rightarrow> 'm EpochBody \<Rightarrow> bool" where
  "verifiers_from_members N body \<longleftrightarrow>
    it_keys (ne_tree N) (epb_verifiers body) = it_keys (ne_tree N) (active_validators (ne_tree N) (epb_members body))"

definition parameters_bytes :: "ConsensusParameters option \<Rightarrow> bytes" where
  "parameters_bytes parameters = (case parameters of
     Some p \<Rightarrow> EPOCH_PARAMETERS_DOMAIN @ u16_to_le_bytes (cp_version p) @ u64_to_le_bytes (u64_of_usize (quorum_get (cp_quorum_size p)))
   | None \<Rightarrow> [])"

lemma length_hash_list: "length (concat (map hash_as_ref hs)) = 32 * length hs"
  by (induction hs) simp_all

lemma length_parameters_bytes: "length (parameters_bytes p) = (case p of Some _ \<Rightarrow> 47 | None \<Rightarrow> 0)"
  by (auto simp: parameters_bytes_def EPOCH_PARAMETERS_DOMAIN_def split: option.splits)

lemma hashes_then_parameters:
  assumes "concat (map hash_as_ref hs) @ parameters_bytes p = concat (map hash_as_ref hs') @ parameters_bytes p'"
  shows "hs = hs' \<and> parameters_bytes p = parameters_bytes p'"
proof -
  have "32 * length hs + length (parameters_bytes p) = 32 * length hs' + length (parameters_bytes p')"
    using arg_cong [OF assms, of length] by (simp only: length_append length_hash_list)
  then have "length (parameters_bytes p) = length (parameters_bytes p')"
    by (auto simp: length_parameters_bytes split: option.splits) presburger+
  then have same: "concat (map hash_as_ref hs) = concat (map hash_as_ref hs')" "parameters_bytes p = parameters_bytes p'"
    using assms by simp_all
  have "delimited (\<lambda>_. True) hash_as_ref" by (rule fixed_width_delimited [where n = 32]) (simp_all add: inj_def)
  then have "hs = hs'" by (rule delimited_list_to_end) (use same(1) in \<open>auto simp flip: length_0_conv\<close>)
  with same show ?thesis by simp
qed

text \<open>The bytes start with the group, the members and the parent, also in a genesis epoch.\<close>

lemma epoch_bytes_prefix:
  fixes body body' :: "'a EpochBody"
  assumes members: "delimited P (ne_member_bytes N)" "P (epb_members body)" "P (epb_members body')"
    and eq: "epoch_to_bytes N body = epoch_to_bytes N body'"
  shows "epb_group_id body = epb_group_id body'" "epb_members body = epb_members body'"
    "epb_last_epoch body = epb_last_epoch body'"
proof -
  define rest where "rest b = hash_as_ref (epb_last_epoch b)
    @ (case epb_previous_nonce b of Some p \<Rightarrow> EPOCH_PREVIOUS_NONCE_DOMAIN @ u64_to_le_bytes p | None \<Rightarrow> [])
    @ u64_to_le_bytes (epb_nonce b) @ hash_as_ref (epb_merkle_root b)
    @ concat (map pubkey_as_ref (it_keys (ne_tree N) (epb_verifiers b)))
    @ concat (map hash_as_ref (bm_keys (epb_blocks b))) @ parameters_bytes (epb_consensus_parameters b)" for b :: "'a EpochBody"
  have bytes: "epoch_to_bytes N b = hash_as_ref (group_hash (epb_group_id b)) @ EPOCH_MEMBERS_DOMAIN
      @ (ne_member_bytes N (epb_members b) @ rest b)" for b
    by (simp add: epoch_to_bytes_def parameters_bytes_def rest_def)
  have group: "group_hash (epb_group_id body) = group_hash (epb_group_id body')"
    and tail: "ne_member_bytes N (epb_members body) @ rest body = ne_member_bytes N (epb_members body') @ rest body'"
    using eq unfolding bytes by (simp_all add: append_eq_same_length)
  show "epb_group_id body = epb_group_id body'"
    using group by (cases "epb_group_id body"; cases "epb_group_id body'") simp
  show "epb_members body = epb_members body'" using delimitedD [OF members(1) tail members(2,3)] by blast
  have "rest body = rest body'" using delimitedD [OF members(1) tail members(2,3)] by blast
  then show "epb_last_epoch body = epb_last_epoch body'" by (simp add: rest_def append_eq_same_length)
qed

lemma epoch_bytes_inject:
  assumes members: "delimited P (ne_member_bytes N)" "P (epb_members body)" "P (epb_members body')"
    and verifiers: "verifiers_from_members N body" "verifiers_from_members N body'"
    and linked: "epb_previous_nonce body \<noteq> None" "epb_previous_nonce body' \<noteq> None"
    and eq: "epoch_to_bytes N body = epoch_to_bytes N body'"
  shows "epb_group_id body = epb_group_id body' \<and> epb_members body = epb_members body'
    \<and> epb_last_epoch body = epb_last_epoch body' \<and> epb_previous_nonce body = epb_previous_nonce body'
    \<and> epb_nonce body = epb_nonce body' \<and> epb_merkle_root body = epb_merkle_root body'
    \<and> it_keys (ne_tree N) (epb_verifiers body) = it_keys (ne_tree N) (epb_verifiers body')
    \<and> bm_keys (epb_blocks body) = bm_keys (epb_blocks body')
    \<and> parameters_bytes (epb_consensus_parameters body) = parameters_bytes (epb_consensus_parameters body')"
proof -
  obtain p p' where p: "epb_previous_nonce body = Some p" "epb_previous_nonce body' = Some p'" using linked by auto
  let ?rest = "\<lambda>b. hash_as_ref (epb_last_epoch b) @ EPOCH_PREVIOUS_NONCE_DOMAIN @ u64_to_le_bytes (the (epb_previous_nonce b))
    @ u64_to_le_bytes (epb_nonce b) @ hash_as_ref (epb_merkle_root b)
    @ concat (map pubkey_as_ref (it_keys (ne_tree N) (epb_verifiers b)))
    @ concat (map hash_as_ref (bm_keys (epb_blocks b))) @ parameters_bytes (epb_consensus_parameters b)"
  have bytes: "epoch_to_bytes N b = hash_as_ref (group_hash (epb_group_id b)) @ EPOCH_MEMBERS_DOMAIN
      @ (ne_member_bytes N (epb_members b) @ ?rest b)" if "epb_previous_nonce b \<noteq> None" for b
    using that by (auto simp: epoch_to_bytes_def parameters_bytes_def)
  note prefix = epoch_bytes_prefix [OF members eq]
  note m = prefix(2)
  have rest: "?rest body = ?rest body'"
    using eq prefix(1,2) unfolding bytes [OF linked(1)] bytes [OF linked(2)] by simp
  have keys: "it_keys (ne_tree N) (epb_verifiers body) = it_keys (ne_tree N) (epb_verifiers body')"
    using verifiers m by (simp add: verifiers_from_members_def)
  have fixed: "epb_last_epoch body = epb_last_epoch body' \<and> p = p' \<and> epb_nonce body = epb_nonce body'
      \<and> epb_merkle_root body = epb_merkle_root body'"
    and tail: "concat (map hash_as_ref (bm_keys (epb_blocks body))) @ parameters_bytes (epb_consensus_parameters body)
      = concat (map hash_as_ref (bm_keys (epb_blocks body'))) @ parameters_bytes (epb_consensus_parameters body')"
    using rest p keys by (simp_all add: append_eq_same_length)
  show ?thesis using prefix keys fixed hashes_then_parameters [OF tail] p by simp
qed


section \<open>Certificates\<close>

definition certificate_signers :: "('m, 'k) node_env \<Rightarrow> 'm \<Rightarrow> 'm Epoch \<Rightarrow> PubKey set" where
  "certificate_signers N verifiers epoch =
    {k. \<exists>index. bm_contains (ep_signatures epoch) index \<and> it_get_key_from_index (ne_tree N) verifiers index = Some k}"

lemma try_fold_checks_Ok:
  "try_fold (\<lambda>_. f) () xs = Ok () \<longleftrightarrow> (\<forall>x\<in>set xs. f x = Ok ())"
  by (induction xs) auto

lemma certificate_check_Ok:
  assumes "certificate_check N verifiers epoch = Ok ()"
  shows "0 < it_len (ne_tree N) verifiers" "supermajority_count (it_len (ne_tree N) verifiers) \<le> bm_len (ep_signatures epoch)"
    "bm_get (ep_signatures epoch) index = Some signature \<Longrightarrow> \<exists>k. it_get_key_from_index (ne_tree N) verifiers index = Some k
      \<and> signature_verify (ne_crypto N) signature (hash_as_ref (ep_hash epoch)) k = Ok ()"
  using assms by (auto simp: certificate_check_def Let_def try_fold_checks_Ok certificate_signature_def bm_get_Some_iff)

lemma certificate_signers_quorum:
  assumes T: "index_tree (ne_tree N)" and ok: "certificate_check N verifiers epoch = Ok ()"
  defines "S \<equiv> certificate_signers N verifiers epoch" and "K \<equiv> set (it_keys (ne_tree N) verifiers)"
  shows "S \<subseteq> K" "supermajority_count (card K) \<le> card S" "0 < card K" "finite K"
    "k \<in> S \<Longrightarrow> \<exists>signature. signature_verify (ne_crypto N) signature (hash_as_ref (ep_hash epoch)) k = Ok ()"
proof -
  let ?keys = "it_keys (ne_tree N) verifiers" and ?I = "dom (bm_get (ep_signatures epoch))"
  have key: "it_get_key_from_index (ne_tree N) verifiers i = slice_get ?keys i" for i
    by (rule index_tree.key_from_index [OF T])
  have dist: "distinct ?keys" by (rule index_tree.keys_distinct [OF T])
  have len: "it_len (ne_tree N) verifiers = card K"
    using distinct_card [OF dist] by (simp add: K_def index_tree.len_keys [OF T])
  have I: "i < length ?keys" if "i \<in> ?I" for i
    using certificate_check_Ok(3) [OF ok, of i] that unfolding key by auto
  have S: "S = (\<lambda>i. ?keys ! i) ` ?I"
    using I by (auto simp: S_def certificate_signers_def key bm_contains_def image_iff)
  show "S \<subseteq> K" unfolding S K_def using I nth_mem by blast
  have "inj_on (\<lambda>i. ?keys ! i) ?I" using I dist by (auto simp: inj_on_def nth_eq_iff_index_eq)
  then have "card S = bm_len (ep_signatures epoch)" unfolding S by (simp add: card_image bm_len_card)
  then show "supermajority_count (card K) \<le> card S" using certificate_check_Ok(2) [OF ok] by (simp add: len)
  show "0 < card K" using certificate_check_Ok(1) [OF ok] by (simp add: len)
  show "finite K" by (simp add: K_def)
  show "\<exists>signature. signature_verify (ne_crypto N) signature (hash_as_ref (ep_hash epoch)) k = Ok ()" if "k \<in> S"
    using that certificate_check_Ok(3) [OF ok] by (auto simp: S_def certificate_signers_def bm_contains_def) (metis option.sel)
qed


lemma certificates_share_honest:
  assumes T: "index_tree (ne_tree N)"
    and ok: "certificate_check N verifiers epoch = Ok ()" "certificate_check N verifiers' epoch' = Ok ()"
    and same: "it_keys (ne_tree N) verifiers' = it_keys (ne_tree N) verifiers"
    and faulty: "faulty \<subseteq> set (it_keys (ne_tree N) verifiers)"
      "card faulty \<le> byzantine_fault_bound (card (set (it_keys (ne_tree N) verifiers)))"
  shows "\<exists>v \<in> set (it_keys (ne_tree N) verifiers) - faulty.
    v \<in> certificate_signers N verifiers epoch \<and> v \<in> certificate_signers N verifiers' epoch'"
proof -
  let ?K = "it_keys (ne_tree N) verifiers"
  have "supermajority_quorum ?K (certificate_signers N verifiers epoch)"
    using certificate_signers_quorum(1-4) [OF T ok(1)] card_mono [OF _ certificate_signers_quorum(1) [OF T ok(1)]]
    by (simp add: supermajority_quorum_def has_supermajority_def)
  moreover have "supermajority_quorum ?K (certificate_signers N verifiers' epoch')"
    using certificate_signers_quorum(1-4) [OF T ok(2)] card_mono [OF _ certificate_signers_quorum(1) [OF T ok(2)]] unfolding same
    by (simp add: supermajority_quorum_def has_supermajority_def)
  ultimately show ?thesis
    using supermajority.honest_overlap [of ?K _ _ faulty] faulty certificate_signers_quorum(1) [OF T ok(1)] by blast
qed


section \<open>Certified chains\<close>

definition certified_link :: "('m, 'k) node_env \<Rightarrow> 'm Epoch \<Rightarrow> 'm Epoch \<Rightarrow> bool" where
  "certified_link N previous epoch \<longleftrightarrow> ep_hash epoch = epoch_body_hash N (ep_body epoch)
    \<and> epb_last_epoch (ep_body epoch) = ep_hash previous
    \<and> epb_previous_nonce (ep_body epoch) = Some (epb_nonce (ep_body previous))
    \<and> epb_nonce (ep_body epoch) = new_next (epb_nonce (ep_body previous))
    \<and> verifiers_from_members N (ep_body epoch)
    \<and> verify_certificate N epoch previous = Ok ()"

lemma next_members_verifiers:
  "next_members N previous blocks policy = (members, verifiers) \<Longrightarrow> verifiers = active_validators (ne_tree N) members"
  by (auto simp: next_members_def apply_epoch_member_registry_transition_def Let_def split: prod.splits if_splits)

lemma build_verified_epoch_sel:
  "epb_verifiers (ep_body (build_verified_epoch N previous blocks policy))
    = active_validators (ne_tree N) (epb_members (ep_body (build_verified_epoch N previous blocks policy)))"
  using next_members_verifiers by (auto simp: build_verified_epoch_def split: prod.splits)

lemma build_verified_epoch_fields:
  "epb_group_id (ep_body (build_verified_epoch N previous blocks policy)) = epb_group_id (ep_body previous)"
  "epb_last_epoch (ep_body (build_verified_epoch N previous blocks policy)) = ep_hash previous"
  "epb_previous_nonce (ep_body (build_verified_epoch N previous blocks policy)) = Some (epb_nonce (ep_body previous))"
  "epb_nonce (ep_body (build_verified_epoch N previous blocks policy)) = new_next (epb_nonce (ep_body previous))"
  "epb_merkle_root (ep_body (build_verified_epoch N previous blocks policy)) = block_merkle_root N blocks"
  "epb_blocks (ep_body (build_verified_epoch N previous blocks policy)) = blocks"
  "epb_consensus_parameters (ep_body (build_verified_epoch N previous blocks policy))
    = Some (effective_consensus_parameters (ep_body previous))"
  by (simp_all add: build_verified_epoch_def split: prod.splits)

lemma verifier_sets_equal_keys:
  assumes "index_tree T" "verifier_sets_equal T left right"
  shows "it_keys T left = it_keys T right"
proof -
  have "length (it_entries T left) = length (it_entries T right)"
    using assms(2) index_tree.len_entries [OF assms(1)] by (simp add: verifier_sets_equal_def)
  then show ?thesis
    using assms(2) by (auto simp: verifier_sets_equal_def it_keys_def list_all_length case_prod_beta intro!: nth_equalityI)
qed

lemma verifier_sets_equal_refl: "verifier_sets_equal T m m"
  by (auto simp: verifier_sets_equal_def list_all_length)

lemma validated_extension_certified:
  assumes "index_tree (ne_tree N)" "validate_certified_extension N previous epoch policy = Ok ()"
  shows "certified_link N previous epoch"
proof -
  let ?x = "ep_body (build_verified_epoch N previous (epb_blocks (ep_body epoch)) policy)"
  have "epb_members (ep_body epoch) = epb_members ?x"
    and eq: "verifier_sets_equal (ne_tree N) (epb_verifiers (ep_body epoch)) (epb_verifiers ?x)"
    using assms(2) by (auto simp: validate_certified_extension_def Let_def)
  then have "verifiers_from_members N (ep_body epoch)"
    using verifier_sets_equal_keys [OF assms(1) eq]
    by (simp add: verifiers_from_members_def build_verified_epoch_sel)
  then show ?thesis
    using assms(2) by (auto simp: validate_certified_extension_def certified_link_def Let_def)
qed

lemma validated_extensions_certified:
  assumes "index_tree (ne_tree N)" "validate_extensions N policy anchor epochs = Ok tip"
  shows "successively (certified_link N) (anchor # epochs)"
  using assms(2)
proof (induction epochs arbitrary: anchor)
  case (Cons e es)
  then have "validate_certified_extension N anchor e policy = Ok ()" "validate_extensions N policy e es = Ok tip"
    by (auto simp: validate_extensions_def)
  then show ?case using Cons.IH validated_extension_certified [OF assms(1)] by simp
qed (simp add: validate_extensions_def)

lemma validated_suffix_certified:
  assumes "index_tree (ne_tree N)" "validate_from N suffix anchor policy = Ok ()"
  shows "successively (certified_link N) (anchor # cs_epochs suffix)"
  using assms validated_extensions_certified by (auto simp: validate_from_def)

end
