(* ===== verification/Votes.thy ===== *)
theory Votes
  imports Messages
begin

text \<open>
  The vote counters of \<open>src/src/state.rs\<close>: verifications, proposals, trusted acknowledgements and trusted
  confirmations. Every counter keeps the last message of each sender and a map from hashes to
  the number of senders whose last message is for that hash; the tallies are shown to
  agree with the messages, and the decisions taken from them to be exactly those the messages
  call for.
\<close>

section \<open>Counters\<close>

text \<open>\<open>decrement_count_u8\<close> and \<open>decrement_count_u32\<close>, at the width of the counter.\<close>

definition decrement_count :: "(HashType, 'a::len word) btree_map \<Rightarrow> HashType \<Rightarrow> (HashType, 'a word) btree_map" where
  "decrement_count counts hash =
    (case bm_get counts hash of
       Some n \<Rightarrow> if n > 1 then bm_insert hash (n - 1) counts else bm_remove hash counts
     | None \<Rightarrow> counts)"

record VerifCount =
  vc_verifications :: "(PubKey, Verification) btree_map"
  vc_count :: "(HashType, u8) btree_map"
  vc_quorum :: u32
  vc_supermajority :: u32

definition init_verifications :: "u32 \<Rightarrow> VerifCount" where
  "init_verifications quorum = \<lparr>vc_verifications = bm_empty, vc_count = bm_empty, vc_quorum = quorum,
    vc_supermajority = of_nat (supermajority_count (unat quorum))\<rparr>"

definition verif_record :: "VerifCount \<Rightarrow> Verification \<Rightarrow> VerifCount" where
  "verif_record c v =
    (let sender = hd_sender (vf_header v);
         blocks_hash = vb_blocks_hash (vf_body v);
         count1 = (case bm_get (vc_verifications c) sender of
             Some previous \<Rightarrow> decrement_count (vc_count c) (vb_blocks_hash (vf_body previous))
           | None \<Rightarrow> vc_count c)
     in c\<lparr>vc_verifications := bm_insert sender v (vc_verifications c),
         vc_count := bm_insert blocks_hash (unwrap_or (bm_get count1 blocks_hash) 0 + 1) count1\<rparr>)"

definition verif_consensus_hash :: "VerifCount \<Rightarrow> HashType option" where
  "verif_consensus_hash c =
    map_option fst (List.find (\<lambda>(hash, n). ucast n \<ge> vc_supermajority c) (bm_entries (vc_count c)))"

definition saturating_sub_u32 :: "u32 \<Rightarrow> u32 \<Rightarrow> u32" where
  "saturating_sub_u32 a b = (if b \<le> a then a - b else 0)"

definition saturating_add_u32 :: "u32 \<Rightarrow> u32 \<Rightarrow> u32" where
  "saturating_add_u32 a b = (if unat a + unat b < 2 ^ 32 then a + b else - 1)"

definition consensus_is_still_possible :: "VerifCount \<Rightarrow> bool" where
  "consensus_is_still_possible c =
    (if verif_consensus_hash c \<noteq> None then True
     else let received = u32_of_usize (bm_len (vc_verifications c));
              remaining = saturating_sub_u32 (vc_quorum c) received
          in if bm_is_empty (vc_count c) then remaining \<ge> vc_supermajority c
             else list_ex (\<lambda>n. saturating_add_u32 (ucast n) remaining \<ge> vc_supermajority c) (bm_values (vc_count c)))"

record PropCount =
  pc_proposals :: "(PubKey, Proposal) btree_map"
  pc_count :: "(HashType, u32) btree_map"
  pc_quorum :: u32
  pc_supermajority :: u32

definition init_proposals :: "u32 \<Rightarrow> PropCount" where
  "init_proposals quorum = \<lparr>pc_proposals = bm_empty, pc_count = bm_empty, pc_quorum = quorum,
    pc_supermajority = of_nat (supermajority_count (unat quorum))\<rparr>"

definition prop_record :: "PropCount \<Rightarrow> Proposal \<Rightarrow> PropCount" where
  "prop_record c p =
    (let sender = hd_sender (pr_header p);
         count1 = (case Option.bind (bm_get (pc_proposals c) sender) (\<lambda>previous. pb_approved_hash (pr_body previous)) of
             Some previous_hash \<Rightarrow> decrement_count (pc_count c) previous_hash
           | None \<Rightarrow> pc_count c)
     in c\<lparr>pc_proposals := bm_insert sender p (pc_proposals c),
         pc_count := (case pb_approved_hash (pr_body p) of
             Some hash \<Rightarrow> bm_insert hash (unwrap_or (bm_get count1 hash) 0 + 1) count1
           | None \<Rightarrow> count1)\<rparr>)"

text \<open>The loop over the counts returns at the first one that reaches the supermajority; \<open>still_possible\<close> is
  the flag it carries.\<close>

fun prop_consensus_loop :: "u32 \<Rightarrow> u32 \<Rightarrow> bool \<Rightarrow> u32 list \<Rightarrow> bool option" where
  "prop_consensus_loop supermajority remaining still_possible [] = (if still_possible then None else Some False)"
| "prop_consensus_loop supermajority remaining still_possible (n # ns) =
    (if n \<ge> supermajority then Some True
     else prop_consensus_loop supermajority remaining (still_possible \<or> n + remaining \<ge> supermajority) ns)"

definition prop_consensus :: "PropCount \<Rightarrow> bool option" where
  "prop_consensus c =
    (let len = u32_of_usize (bm_len (pc_proposals c)) in
     if len < pc_supermajority c then None
     else prop_consensus_loop (pc_supermajority c) (pc_quorum c - len) False (bm_values (pc_count c)))"

record TrustedAcknowledgementCount =
  tac_acknowledgements :: "(PubKey, TrustedAcknowledgement) btree_map"
  tac_count :: "(HashType, u32) btree_map"
  tac_quorum :: u32
  tac_supermajority :: u32

definition init_trusted_acknowledgements :: "u32 \<Rightarrow> TrustedAcknowledgementCount" where
  "init_trusted_acknowledgements quorum = \<lparr>tac_acknowledgements = bm_empty, tac_count = bm_empty, tac_quorum = quorum,
    tac_supermajority = of_nat (supermajority_count (unat quorum))\<rparr>"

definition ack_validate_update :: "TrustedAcknowledgementCount \<Rightarrow> TrustedAcknowledgement \<Rightarrow> bool result" where
  "ack_validate_update c a =
    (case bm_get (tac_acknowledgements c) (hd_sender (ta_header a)) of
       Some previous \<Rightarrow>
         if \<not> list_all (\<lambda>hash. bm_contains (vb_blocks (ta_body a)) hash) (bm_keys (vb_blocks (ta_body previous)))
         then Err WireProtocol
         else Ok (vb_blocks_hash (ta_body previous) \<noteq> vb_blocks_hash (ta_body a))
     | None \<Rightarrow> Ok True)"

definition checked_succ_u32 :: "u32 \<Rightarrow> u32 option" where
  "checked_succ_u32 n = (if n = - 1 then None else Some (n + 1))"

text \<open>\<open>count.entry(hash).or_default()\<close> followed by a checked increment: on overflow the entry stays as it is.\<close>

definition count_vote :: "(HashType, u32) btree_map \<Rightarrow> HashType \<Rightarrow> bool result \<times> (HashType, u32) btree_map" where
  "count_vote counts hash =
    (case checked_succ_u32 (unwrap_or (bm_get counts hash) 0) of
       None \<Rightarrow> (Err InvalidConfiguration, counts)
     | Some n \<Rightarrow> (Ok True, bm_insert hash n counts))"

definition ack_record ::
  "TrustedAcknowledgementCount \<Rightarrow> TrustedAcknowledgement \<Rightarrow> bool result \<times> TrustedAcknowledgementCount" where
  "ack_record c a =
    (case ack_validate_update c a of
       Inl e \<Rightarrow> (Err e, c)
     | Inr False \<Rightarrow> (Ok False, c)
     | Inr True \<Rightarrow>
         let sender = hd_sender (ta_header a);
             count1 = (case bm_get (tac_acknowledgements c) sender of
                 Some previous \<Rightarrow> decrement_count (tac_count c) (vb_blocks_hash (ta_body previous))
               | None \<Rightarrow> tac_count c);
             (r, count2) = count_vote count1 (vb_blocks_hash (ta_body a))
         in (r, c\<lparr>tac_acknowledgements := bm_insert sender a (tac_acknowledgements c), tac_count := count2\<rparr>))"

definition ack_consensus_hash :: "TrustedAcknowledgementCount \<Rightarrow> HashType option" where
  "ack_consensus_hash c = map_option fst (List.find (\<lambda>(hash, n). n \<ge> tac_supermajority c) (bm_entries (tac_count c)))"

definition ack_consensus_body :: "TrustedAcknowledgementCount \<Rightarrow> VerificationBody option" where
  "ack_consensus_body c = Option.bind (ack_consensus_hash c) (\<lambda>hash.
    map_option ta_body (List.find (\<lambda>a. vb_blocks_hash (ta_body a) = hash) (bm_values (tac_acknowledgements c))))"

record TrustedConfirmationCount =
  tcc_confirmations :: "(PubKey, Verification) btree_map"
  tcc_count :: "(HashType, u32) btree_map"
  tcc_quorum :: u32
  tcc_supermajority :: u32

definition init_trusted_confirmations :: "u32 \<Rightarrow> TrustedConfirmationCount" where
  "init_trusted_confirmations quorum = \<lparr>tcc_confirmations = bm_empty, tcc_count = bm_empty, tcc_quorum = quorum,
    tcc_supermajority = of_nat (supermajority_count (unat quorum))\<rparr>"

definition confirmation_validate_update :: "TrustedConfirmationCount \<Rightarrow> Verification \<Rightarrow> bool result" where
  "confirmation_validate_update c v =
    (case bm_get (tcc_confirmations c) (hd_sender (vf_header v)) of
       Some previous \<Rightarrow>
         if vb_blocks_hash (vf_body previous) \<noteq> vb_blocks_hash (vf_body v) \<or> vb_blocks (vf_body previous) \<noteq> vb_blocks (vf_body v)
         then Err WireProtocol else Ok False
     | None \<Rightarrow> Ok True)"

definition confirmation_record ::
  "TrustedConfirmationCount \<Rightarrow> Verification \<Rightarrow> bool result \<times> TrustedConfirmationCount" where
  "confirmation_record c v =
    (case confirmation_validate_update c v of
       Inl e \<Rightarrow> (Err e, c)
     | Inr False \<Rightarrow> (Ok False, c)
     | Inr True \<Rightarrow>
         let (r, count2) = count_vote (tcc_count c) (vb_blocks_hash (vf_body v))
         in (r, c\<lparr>tcc_confirmations := bm_insert (hd_sender (vf_header v)) v (tcc_confirmations c), tcc_count := count2\<rparr>))"

definition confirmation_consensus_hash :: "TrustedConfirmationCount \<Rightarrow> HashType option" where
  "confirmation_consensus_hash c =
    map_option fst (List.find (\<lambda>(hash, n). n \<ge> tcc_supermajority c) (bm_entries (tcc_count c)))"


section \<open>Tallies\<close>

definition voters :: "(PubKey \<rightharpoonup> HashType) \<Rightarrow> HashType \<Rightarrow> PubKey set" where
  "voters votes h = {k. votes k = Some h}"

text \<open>A tally of votes: the count of a hash is the number of its voters, and hashes without voters have no entry.\<close>

definition tally_ok :: "(PubKey \<rightharpoonup> HashType) \<Rightarrow> (HashType, 'a::len word) btree_map \<Rightarrow> bool" where
  "tally_ok votes counts \<longleftrightarrow> finite (dom votes) \<and> card (dom votes) < 2 ^ LENGTH('a)
    \<and> (\<forall>h. bm_get counts h = (if voters votes h = {} then None else Some (of_nat (card (voters votes h)))))"

lemma voters_subset: "voters votes h \<subseteq> dom votes"
  by (auto simp: voters_def)

lemma tally_voters:
  assumes "tally_ok votes (counts :: (HashType, 'a::len word) btree_map)"
  shows "finite (voters votes h)" "card (voters votes h) < 2 ^ LENGTH('a)"
  using assms card_mono [OF _ voters_subset [of votes h]] finite_subset [OF voters_subset]
  by (auto simp: tally_ok_def intro: le_less_trans)

lemma unat_of_nat_small: "n < 2 ^ LENGTH('a) \<Longrightarrow> unat (of_nat n :: 'a::len word) = n"
  by (simp add: unat_of_nat take_bit_nat_eq_self)

lemma tally_get:
  assumes "tally_ok votes (counts :: (HashType, 'a::len word) btree_map)" "bm_get counts h = Some n"
  shows "unat n = card (voters votes h)" "voters votes h \<noteq> {}"
  using assms tally_voters(2) [OF assms(1), of h]
  by (auto simp: tally_ok_def unat_of_nat_small split: if_splits)

lemma tally_empty: "tally_ok Map.empty bm_empty"
  by (simp add: tally_ok_def voters_def)

lemma tally_add:
  assumes "tally_ok votes (counts :: (HashType, 'a::len word) btree_map)" "votes k = None" "card (dom votes) + 1 < 2 ^ LENGTH('a)"
  shows "tally_ok (votes(k \<mapsto> h)) (bm_insert h (unwrap_or (bm_get counts h) 0 + 1) counts)"
proof -
  have k: "k \<notin> voters votes h" using assms(2) by (simp add: voters_def)
  have "voters (votes(k \<mapsto> h)) h' = (if h' = h then insert k (voters votes h) else voters votes h')" for h'
    using assms(2) by (auto simp: voters_def)
  moreover have "unwrap_or (bm_get counts h) 0 = of_nat (card (voters votes h))"
    using assms(1) by (auto simp: tally_ok_def)
  moreover have "card (dom (votes(k \<mapsto> h))) = card (dom votes) + 1"
    using assms(1,2) by (simp add: tally_ok_def domIff)
  ultimately show ?thesis
    using assms(1,3) k tally_voters(1) [OF assms(1), of h] by (simp add: tally_ok_def)
qed

lemma tally_drop:
  assumes "tally_ok votes (counts :: (HashType, 'a::len word) btree_map)" "votes k = Some h"
  shows "tally_ok (votes(k := None)) (decrement_count counts h)"
proof -
  have k: "k \<in> voters votes h" using assms(2) by (simp add: voters_def)
  have fin: "finite (voters votes h)" and bound: "card (voters votes h) < 2 ^ LENGTH('a)" by (rule tally_voters [OF assms(1)])+
  have get: "bm_get counts h = Some (of_nat (card (voters votes h)))"
    using assms(1) k by (auto simp: tally_ok_def)
  have voters': "voters (votes(k := None)) h' = (if h' = h then voters votes h - {k} else voters votes h')" for h'
    using assms(2) by (auto simp: voters_def)
  have "unat (of_nat (card (voters votes h)) :: 'a word) = card (voters votes h)" using bound by (simp add: unat_of_nat_small)
  then have one: "(of_nat (card (voters votes h)) :: 'a word) > 1 \<longleftrightarrow> 1 < card (voters votes h)"
    by (cases "LENGTH('a) = 1") (use bound in \<open>auto simp: word_less_nat_alt\<close>)
  have "card (dom (votes(k := None))) \<le> card (dom votes)" using assms(1) by (intro card_mono) (auto simp: tally_ok_def)
  then have dom': "finite (dom (votes(k := None)))" "card (dom (votes(k := None))) < 2 ^ LENGTH('a)"
    using assms(1) by (auto simp: tally_ok_def intro: le_less_trans)
  show ?thesis
  proof (cases "1 < card (voters votes h)")
    case True
    then have "(of_nat (card (voters votes h)) :: 'a word) - 1 = of_nat (card (voters votes h - {k}))"
      using k card_Diff_singleton [OF k] by (simp add: of_nat_diff)
    moreover have "card (voters votes h - {k}) \<noteq> 0" using True card_Diff_singleton [OF k] by simp
    then have "voters votes h - {k} \<noteq> {}" by (metis card.empty)
    ultimately show ?thesis
      using assms(1) dom' True one by (auto simp: tally_ok_def decrement_count_def get voters')
  next
    case False
    then have "card (voters votes h) = 1" using k fin card_gt_0_iff [of "voters votes h"] by fastforce
    then have "voters votes h = {k}" using k by (auto simp: card_1_singleton_iff)
    then show ?thesis
      using assms(1) dom' False one by (auto simp: tally_ok_def decrement_count_def get voters')
  qed
qed

text \<open>With a supermajority of the possible voters required, at most one hash can win, and the search finds it.\<close>

lemma supermajority_unique:
  assumes "finite Q" "dom votes \<subseteq> Q" "supermajority_count (card Q) \<le> card (voters votes h)"
    "supermajority_count (card Q) \<le> card (voters votes h')" "0 < card Q"
  shows "h = h'"
proof (rule ccontr)
  assume "h \<noteq> h'"
  then have "voters votes h \<inter> voters votes h' = {}" by (auto simp: voters_def)
  moreover have "finite (voters votes h)" "finite (voters votes h')"
    using assms(1,2) voters_subset [of votes] by (meson finite_subset order_trans)+
  ultimately have "card (voters votes h) + card (voters votes h') = card (voters votes h \<union> voters votes h')"
    by (simp add: card_Un_disjoint)
  also have "\<dots> \<le> card Q" using assms(1,2) voters_subset [of votes h] voters_subset [of votes h'] by (intro card_mono) auto
  finally show False using assms(3-5) by (simp add: supermajority_count_def)
qed

lemma find_SomeD: "List.find P xs = Some x \<Longrightarrow> x \<in> set xs \<and> P x"
  by (auto simp: find_Some_iff)

lemma bm_values_iff: "v \<in> set (bm_values m) \<longleftrightarrow> (\<exists>k. bm_get m k = Some v)"
  by (force simp: bm_values_def bm_get_Some_iff)

lemma tally_winner:
  assumes "tally_ok votes (counts :: (HashType, 'a::len word) btree_map)" "finite Q" "dom votes \<subseteq> Q" "0 < card Q"
    and "\<And>n :: 'a word. P n \<longleftrightarrow> supermajority_count (card Q) \<le> unat n"
  shows "map_option fst (List.find (\<lambda>(hash, n). P n) (bm_entries counts)) = Some h
    \<longleftrightarrow> supermajority_count (card Q) \<le> card (voters votes h)"
proof
  assume "map_option fst (List.find (\<lambda>(hash, n). P n) (bm_entries counts)) = Some h"
  then obtain n where "(h, n) \<in> set (bm_entries counts)" "P n" by (auto dest!: find_SomeD)
  then show "supermajority_count (card Q) \<le> card (voters votes h)"
    using tally_get(1) [OF assms(1)] by (simp add: assms(5) bm_get_Some_iff)
next
  assume h: "supermajority_count (card Q) \<le> card (voters votes h)"
  then have "voters votes h \<noteq> {}" using assms(4) supermajority_count_pos [of "card Q"] by auto
  then have get: "bm_get counts h = Some (of_nat (card (voters votes h)))" using assms(1) by (simp add: tally_ok_def)
  then have "P (of_nat (card (voters votes h)))" using tally_get(1) [OF assms(1) get] h by (simp add: assms(5))
  then obtain e where e: "List.find (\<lambda>(hash, n). P n) (bm_entries counts) = Some e"
    using get by (cases "List.find (\<lambda>(hash, n). P n) (bm_entries counts)") (auto simp: find_None_iff bm_get_Some_iff)
  have "e \<in> set (bm_entries counts)" "P (snd e)" using find_SomeD [OF e] by auto
  then have "supermajority_count (card Q) \<le> card (voters votes (fst e))"
    using tally_get(1) [OF assms(1), of "fst e" "snd e"] by (simp add: assms(5) bm_get_Some_iff)
  then show "map_option fst (List.find (\<lambda>(hash, n). P n) (bm_entries counts)) = Some h"
    using supermajority_unique [OF assms(2,3) h _ assms(4)] e by simp
qed


section \<open>Verifications\<close>

abbreviation verifier :: "Verification \<Rightarrow> PubKey" where
  "verifier v \<equiv> hd_sender (vf_header v)"

abbreviation verified_hash :: "Verification \<Rightarrow> HashType" where
  "verified_hash v \<equiv> vb_blocks_hash (vf_body v)"

definition verif_votes :: "VerifCount \<Rightarrow> PubKey \<rightharpoonup> HashType" where
  "verif_votes c k = map_option verified_hash (bm_get (vc_verifications c) k)"

text \<open>The last vote of every sender of a sequence of verifications.\<close>

definition last_votes :: "Verification list \<Rightarrow> PubKey \<rightharpoonup> HashType" where
  "last_votes vs = fold (\<lambda>v votes. votes(verifier v \<mapsto> verified_hash v)) vs Map.empty"

definition verif_ok :: "PubKey set \<Rightarrow> VerifCount \<Rightarrow> bool" where
  "verif_ok Q c \<longleftrightarrow> finite Q \<and> 0 < card Q \<and> card Q \<le> 255 \<and> tally_ok (verif_votes c) (vc_count c) \<and> dom (verif_votes c) \<subseteq> Q
    \<and> vc_quorum c = of_nat (card Q) \<and> vc_supermajority c = of_nat (supermajority_count (card Q))"

lemma verif_record_ok:
  assumes "verif_ok Q c" "verifier v \<in> Q"
  shows "verif_ok Q (verif_record c v)" "verif_votes (verif_record c v) = (verif_votes c)(verifier v \<mapsto> verified_hash v)"
proof -
  let ?k = "verifier v"
  show votes: "verif_votes (verif_record c v) = (verif_votes c)(?k \<mapsto> verified_hash v)"
    by (auto simp: verif_votes_def verif_record_def Let_def fun_eq_iff)
  define count1 where "count1 = (case bm_get (vc_verifications c) ?k of
    Some previous \<Rightarrow> decrement_count (vc_count c) (verified_hash previous) | None \<Rightarrow> vc_count c)"
  have one: "tally_ok ((verif_votes c)(?k := None)) count1"
    using assms(1) tally_drop [of "verif_votes c" "vc_count c" ?k]
    by (auto simp: verif_ok_def count1_def verif_votes_def fun_upd_idem split: option.splits)
  define D where "D = dom ((verif_votes c)(?k := None))"
  have D: "insert ?k D \<subseteq> Q" "?k \<notin> D" "finite D" "finite Q" "card Q \<le> 255"
    using assms one by (auto simp: verif_ok_def D_def tally_ok_def)
  have "card D + 1 = card (insert ?k D)" using D(2,3) by simp
  also have "\<dots> \<le> card Q" by (rule card_mono [OF D(4,1)])
  finally have "card (dom ((verif_votes c)(?k := None))) + 1 < 2 ^ LENGTH(8)" using D(5) unfolding D_def by simp
  from tally_add [where k = ?k and h = "verified_hash v", OF one _ this] have "tally_ok (verif_votes (verif_record c v)) (vc_count (verif_record c v))"
    unfolding votes by (simp add: verif_record_def Let_def count1_def)
  then show "verif_ok Q (verif_record c v)"
    using assms unfolding verif_ok_def votes by (simp add: verif_record_def Let_def)
qed

lemma verif_fold_ok:
  assumes "verif_ok Q c" "verifier ` set vs \<subseteq> Q"
  shows "verif_ok Q (fold (\<lambda>v c. verif_record c v) vs c)
    \<and> verif_votes (fold (\<lambda>v c. verif_record c v) vs c) = fold (\<lambda>v votes. votes(verifier v \<mapsto> verified_hash v)) vs (verif_votes c)"
  using assms by (induction vs arbitrary: c) (simp_all add: verif_record_ok)

lemma verif_init_ok:
  assumes "finite Q" "0 < card Q" "card Q \<le> 255"
  shows "verif_ok Q (init_verifications (of_nat (card Q)))" "verif_votes (init_verifications (of_nat (card Q))) = Map.empty"
proof -
  show votes: "verif_votes (init_verifications (of_nat (card Q))) = Map.empty"
    by (simp add: fun_eq_iff verif_votes_def init_verifications_def)
  show "verif_ok Q (init_verifications (of_nat (card Q)))"
    using assms tally_empty unfolding verif_ok_def votes by (simp add: init_verifications_def unat_of_nat_small)
qed

lemma unat_u8: "unat (n :: u8) < 256"
  using unsigned_less [of n] by simp

lemma unat_widened: "unat (ucast (n :: u8) :: u32) = unat n"
  using unat_u8 [of n] by (simp add: unsigned_ucast_eq take_bit_nat_eq_self)

lemma verif_winner:
  assumes "verif_ok Q c"
  shows "verif_consensus_hash c = Some h \<longleftrightarrow> supermajority_count (card Q) \<le> card (voters (verif_votes c) h)"
proof -
  have "supermajority_count (card Q) < 2 ^ LENGTH(32)"
    using assms supermajority_count_bounds(3) [of "card Q"] by (simp add: verif_ok_def)
  then have "ucast n \<ge> vc_supermajority c \<longleftrightarrow> supermajority_count (card Q) \<le> unat n" for n :: u8
    using assms by (simp add: verif_ok_def word_le_nat_alt unat_of_nat_small unat_widened)
  from tally_winner [OF _ _ _ _ this, of "verif_votes c" "vc_count c"] show ?thesis
    using assms by (simp add: verif_ok_def verif_consensus_hash_def)
qed

text \<open>A round of verifications agrees on a set of blocks exactly when it should. Whatever sequence of verifications
  the members of a quorum of at most 255 send, repeats and changes of mind included, the counter reports a hash if and
  only if the last verifications of a supermajority of the quorum are for that hash.\<close>

theorem verification_consensus_spec:
  assumes "finite Q" "0 < card Q" "card Q \<le> 255" "verifier ` set vs \<subseteq> Q"
  shows "verif_consensus_hash (fold (\<lambda>v c. verif_record c v) vs (init_verifications (of_nat (card Q)))) = Some h
    \<longleftrightarrow> supermajority_count (card Q) \<le> card {k. last_votes vs k = Some h}"
  using verif_winner [of Q "fold (\<lambda>v c. verif_record c v) vs (init_verifications (of_nat (card Q)))" h]
    verif_fold_ok [OF verif_init_ok(1) [OF assms(1-3)] assms(4)] verif_init_ok(2) [OF assms(1-3)]
  by (simp add: last_votes_def voters_def)

definition ballot :: "HashType \<Rightarrow> PubKey \<Rightarrow> Verification" where
  "ballot h k = \<lparr>vf_header = \<lparr>hd_sender = k, hd_last_epoch = default_hash, hd_nonce = 0, hd_round = 0,
      hd_signature = default_signature\<rparr>, vf_body = \<lparr>vb_blocks_hash = h, vb_blocks = bm_empty\<rparr>\<rparr>"

theorem verification_consensus_spec_witness:
  "verif_consensus_hash (fold (\<lambda>v c. verif_record c v)
      [ballot (HashType 5) (PubKey 1), ballot (HashType 6) (PubKey 2), ballot (HashType 5) (PubKey 2)]
      (init_verifications (of_nat (card {PubKey 1, PubKey 2, PubKey 3})))) = Some (HashType 5)"
proof -
  let ?vs = "[ballot (HashType 5) (PubKey 1), ballot (HashType 6) (PubKey 2), ballot (HashType 5) (PubKey 2)]"
  have "{k. last_votes ?vs k = Some (HashType 5)} = {PubKey 1, PubKey 2}" by (auto simp: last_votes_def ballot_def)
  then show ?thesis
    using verification_consensus_spec [of "{PubKey 1, PubKey 2, PubKey 3}" ?vs "HashType 5"]
    by (simp add: ballot_def supermajority_count_def)
qed

lemma verif_counts:
  assumes "verif_ok Q c"
  shows "u32_of_usize (bm_len (vc_verifications c)) = of_nat (card (dom (verif_votes c)))"
    "unat (saturating_sub_u32 (vc_quorum c) (of_nat (card (dom (verif_votes c))))) = card (Q - dom (verif_votes c))"
    "unat (vc_supermajority c) = supermajority_count (card Q)"
proof -
  let ?D = "dom (verif_votes c)"
  have D: "?D \<subseteq> Q" "finite Q" "card Q \<le> 255" using assms by (auto simp: verif_ok_def)
  then have le: "card ?D \<le> card Q" "card (Q - ?D) = card Q - card ?D"
    using card_mono card_Diff_subset finite_subset by metis+
  have "dom (bm_get (vc_verifications c)) = ?D" by (auto simp: verif_votes_def)
  then show "u32_of_usize (bm_len (vc_verifications c)) = of_nat (card ?D)" by (simp add: u32_of_usize_def bm_len_card)
  show "unat (saturating_sub_u32 (vc_quorum c) (of_nat (card ?D))) = card (Q - ?D)"
    using assms D le by (simp add: verif_ok_def saturating_sub_u32_def word_le_nat_alt unat_of_nat_small unat_sub)
  show "unat (vc_supermajority c) = supermajority_count (card Q)"
    using assms D supermajority_count_bounds(3) [of "card Q"] by (simp add: verif_ok_def unat_of_nat_small)
qed

text \<open>The code's answer in terms of the votes.\<close>

lemma still_possible_iff:
  assumes "verif_ok Q c"
  shows "consensus_is_still_possible c \<longleftrightarrow>
    (\<exists>h. supermajority_count (card Q) \<le> card (voters (verif_votes c) h) + card (Q - dom (verif_votes c)))"
proof -
  note ok = assms [unfolded verif_ok_def]
  let ?R = "card (Q - dom (verif_votes c))" and ?sm = "supermajority_count (card Q)"
  define remaining where "remaining = saturating_sub_u32 (vc_quorum c) (u32_of_usize (bm_len (vc_verifications c)))"
  have R: "unat remaining = ?R" using verif_counts(1,2) [OF assms] by (simp add: remaining_def)
  have bound: "?R \<le> 255" using ok card_mono [of Q "Q - dom (verif_votes c)"] by simp
  have small: "unat n + ?R < 2 ^ 32" for n :: u8 using unat_u8 [of n] bound by simp
  have sum: "saturating_add_u32 (ucast n) remaining \<ge> vc_supermajority c \<longleftrightarrow> ?sm \<le> unat n + ?R" for n :: u8
    using R verif_counts(3) [OF assms] small [of n]
    by (simp add: saturating_add_u32_def unat_widened word_le_nat_alt unat_word_ariths)
  have counted: "bm_get (vc_count c) h = Some n \<Longrightarrow> unat n = card (voters (verif_votes c) h)" for h n
    using tally_get(1) ok by blast
  have code: "consensus_is_still_possible c \<longleftrightarrow> verif_consensus_hash c \<noteq> None \<or> (bm_is_empty (vc_count c) \<and> ?sm \<le> ?R)
      \<or> (\<exists>h n. bm_get (vc_count c) h = Some n \<and> ?sm \<le> unat n + ?R)"
  proof -
    have none: "bm_is_empty (vc_count c) \<Longrightarrow> bm_get (vc_count c) h = None" for h by (simp add: bm_is_empty_def bm_get_def)
    have any: "list_ex (\<lambda>n. saturating_add_u32 (ucast n) remaining \<ge> vc_supermajority c) (bm_values (vc_count c))
        \<longleftrightarrow> (\<exists>h n. bm_get (vc_count c) h = Some n \<and> ?sm \<le> unat n + ?R)"
      unfolding list_ex_iff sum bm_values_iff Bex_def by blast
    have "remaining \<ge> vc_supermajority c \<longleftrightarrow> ?sm \<le> ?R"
      unfolding word_le_nat_alt R verif_counts(3) [OF assms] ..
    then show ?thesis unfolding consensus_is_still_possible_def Let_def remaining_def [symmetric] any using none by auto
  qed
  show ?thesis
  proof
    assume "consensus_is_still_possible c"
    then consider h where "verif_consensus_hash c = Some h" | "?sm \<le> ?R" | h n where "bm_get (vc_count c) h = Some n" "?sm \<le> unat n + ?R"
      unfolding code by auto
    then show "\<exists>h. ?sm \<le> card (voters (verif_votes c) h) + ?R"
      using verif_winner [OF assms] counted by cases (auto intro: trans_le_add1 trans_le_add2)
  next
    assume "\<exists>h. ?sm \<le> card (voters (verif_votes c) h) + ?R"
    then obtain h where h: "?sm \<le> card (voters (verif_votes c) h) + ?R" ..
    show "consensus_is_still_possible c"
    proof (cases "bm_get (vc_count c) h")
      case (Some n)
      then show ?thesis using h unfolding code counted [OF Some, symmetric] by blast
    next
      case None
      then have R: "?sm \<le> ?R" using h ok by (auto simp: tally_ok_def split: if_splits)
      show ?thesis
      proof (cases "bm_is_empty (vc_count c)")
        case False
        then obtain e where "e \<in> set (bm_entries (vc_count c))" unfolding bm_is_empty_def by (meson list.set_sel(1))
        then have "bm_get (vc_count c) (fst e) = Some (snd e)" by (simp add: bm_get_Some_iff)
        then show ?thesis unfolding code using R trans_le_add2 by blast
      qed (use R code in simp)
    qed
  qed
qed

lemma fold_ballots:
  "fold (\<lambda>v votes. votes(verifier v \<mapsto> verified_hash v)) (map (ballot h) ks) m = (\<lambda>k. if k \<in> set ks then Some h else m k)"
  by (induction ks arbitrary: m) (auto simp: ballot_def fun_eq_iff)

lemma fold_votes_other:
  "k \<notin> verifier ` set ws \<Longrightarrow> fold (\<lambda>v votes. votes(verifier v \<mapsto> verified_hash v)) ws m k = m k"
  by (induction ws arbitrary: m) auto

text \<open>The counter gives up on a round exactly when it is lost. A supermajority is reported as still possible if and
  only if some votes by members that have not voted yet would complete one.\<close>

theorem still_possible_exact:
  assumes "finite Q" "0 < card Q" "card Q \<le> 255" "verifier ` set vs \<subseteq> Q"
    and "c = fold (\<lambda>v c. verif_record c v) vs (init_verifications (of_nat (card Q)))"
  shows "consensus_is_still_possible c \<longleftrightarrow>
    (\<exists>ws. distinct (map verifier ws) \<and> verifier ` set ws \<subseteq> Q - verifier ` set vs
      \<and> verif_consensus_hash (fold (\<lambda>v c. verif_record c v) ws c) \<noteq> None)"
proof -
  have ok: "verif_ok Q c" and votes: "verif_votes c = last_votes vs"
    using verif_fold_ok [OF verif_init_ok(1) [OF assms(1-3)] assms(4)] verif_init_ok(2) [OF assms(1-3)]
    unfolding assms(5) by (simp_all add: last_votes_def)
  have "dom (fold (\<lambda>v votes. votes(verifier v \<mapsto> verified_hash v)) vs m) = verifier ` set vs \<union> dom m" for m
    by (induction vs arbitrary: m) auto
  then have dom: "dom (verif_votes c) = verifier ` set vs" unfolding votes last_votes_def by simp
  let ?R = "Q - verifier ` set vs" and ?sm = "supermajority_count (card Q)"
  have run: "verif_ok Q (fold (\<lambda>v c. verif_record c v) ws c)"
    "verif_votes (fold (\<lambda>v c. verif_record c v) ws c) = fold (\<lambda>v votes. votes(verifier v \<mapsto> verified_hash v)) ws (verif_votes c)"
    if "verifier ` set ws \<subseteq> ?R" for ws
    using verif_fold_ok [OF ok, of ws] that by auto
  show ?thesis
  proof
    assume "consensus_is_still_possible c"
    then obtain h where h: "?sm \<le> card (voters (verif_votes c) h) + card ?R" using still_possible_iff [OF ok] dom by auto
    obtain ks where ks: "set ks = ?R" "distinct ks" using assms(1) finite_distinct_list [of ?R] by auto
    let ?ws = "map (ballot h) ks"
    have ws: "verifier ` set ?ws = ?R" "distinct (map verifier ?ws)" using ks by (simp_all add: image_image ballot_def comp_def)
    have "voters (verif_votes (fold (\<lambda>v c. verif_record c v) ?ws c)) h = voters (verif_votes c) h \<union> ?R"
      using run(2) [of ?ws] ws ks by (auto simp: fold_ballots voters_def)
    moreover have "voters (verif_votes c) h \<inter> ?R = {}" using voters_subset [of "verif_votes c" h] dom by auto
    moreover have "finite (voters (verif_votes c) h)" using finite_subset [OF voters_subset, of "verif_votes c" h] dom by simp
    ultimately have "?sm \<le> card (voters (verif_votes (fold (\<lambda>v c. verif_record c v) ?ws c)) h)"
      using h assms(1) by (simp add: card_Un_disjoint)
    then show "\<exists>ws. distinct (map verifier ws) \<and> verifier ` set ws \<subseteq> ?R
        \<and> verif_consensus_hash (fold (\<lambda>v c. verif_record c v) ws c) \<noteq> None"
      using verif_winner [OF run(1) [of ?ws]] ws by (intro exI [of _ ?ws]) auto
  next
    assume "\<exists>ws. distinct (map verifier ws) \<and> verifier ` set ws \<subseteq> ?R
        \<and> verif_consensus_hash (fold (\<lambda>v c. verif_record c v) ws c) \<noteq> None"
    then obtain ws h where ws: "verifier ` set ws \<subseteq> ?R" "verif_consensus_hash (fold (\<lambda>v c. verif_record c v) ws c) = Some h"
      by auto
    have "voters (verif_votes (fold (\<lambda>v c. verif_record c v) ws c)) h \<subseteq> voters (verif_votes c) h \<union> ?R"
    proof
      fix k assume "k \<in> voters (verif_votes (fold (\<lambda>v c. verif_record c v) ws c)) h"
      then show "k \<in> voters (verif_votes c) h \<union> ?R"
        using ws(1) fold_votes_other [of k ws "verif_votes c"] by (cases "k \<in> verifier ` set ws") (auto simp: voters_def run(2))
    qed
    then have "card (voters (verif_votes (fold (\<lambda>v c. verif_record c v) ws c)) h) \<le> card (voters (verif_votes c) h \<union> ?R)"
      using assms(1) finite_subset [OF voters_subset, of "verif_votes c" h] dom by (intro card_mono) auto
    also have "\<dots> \<le> card (voters (verif_votes c) h) + card ?R" by (rule card_Un_le)
    finally have "?sm \<le> card (voters (verif_votes c) h) + card (Q - dom (verif_votes c))"
      using verif_winner [OF run(1) [OF ws(1)], of h] ws(2) unfolding dom by linarith
    then show "consensus_is_still_possible c" using still_possible_iff [OF ok] by blast
  qed
qed

theorem still_possible_exact_witness:
  "\<not> consensus_is_still_possible (fold (\<lambda>v c. verif_record c v)
      [ballot (HashType 5) (PubKey 1), ballot (HashType 6) (PubKey 2), ballot (HashType 7) (PubKey 3)]
      (init_verifications (of_nat (card {PubKey 1, PubKey 2, PubKey 3}))))"
proof -
  let ?vs = "[ballot (HashType 5) (PubKey 1), ballot (HashType 6) (PubKey 2), ballot (HashType 7) (PubKey 3)]"
    and ?Q = "{PubKey 1, PubKey 2, PubKey 3}"
  have senders: "verifier ` set ?vs = ?Q" by (simp add: ballot_def)
  have finite: "finite ?Q" and card: "0 < card ?Q" "card ?Q \<le> 255" by simp_all
  let ?c = "fold (\<lambda>v c. verif_record c v) ?vs (init_verifications (of_nat (card ?Q)))"
  have ok: "verif_ok ?Q ?c" and votes: "verif_votes ?c = last_votes ?vs"
    using verif_fold_ok [OF verif_init_ok(1), of ?Q ?vs] verif_init_ok(2) [of ?Q] by (simp_all add: last_votes_def ballot_def)
  have "card (voters (last_votes ?vs) h)
      \<le> card {if h = HashType 5 then PubKey 1 else if h = HashType 6 then PubKey 2 else PubKey 3}" for h
    by (rule card_mono) (auto simp: voters_def last_votes_def ballot_def split: if_splits)
  then have "card (voters (last_votes ?vs) h) \<le> 1" for h by simp
  moreover have "supermajority_count (card ?Q) = 2" by (simp add: supermajority_count_def)
  ultimately have "verif_consensus_hash ?c \<noteq> Some h" for h
    using verif_winner [OF ok, of h] unfolding votes by (metis Suc_1 not_less_eq_eq One_nat_def)
  then have "verif_consensus_hash ?c = None" by (cases "verif_consensus_hash ?c") auto
  moreover have "verifier ` set ws \<subseteq> ?Q - verifier ` set ?vs \<Longrightarrow> ws = []" for ws unfolding senders by simp
  ultimately show ?thesis
    unfolding still_possible_exact [OF finite card eq_refl [OF senders] refl] by (metis fold_simps(1))
qed

end
