(* ===== verification/Register.thy ===== *)
theory Register
  imports Messages
begin

text \<open>
  \<open>src/src/register.rs\<close>: the matrix of dispatches and echoes that a node keeps for a quorum, the status it
  derives for every node of the quorum, and the queue of the matrices of the rounds.
\<close>

section \<open>The matrix\<close>

datatype Status =
    DispatchReceived | DispatchPending | DispatchVoid | EchoReceived | EchoVoid
  | NodePassed | NodePending | NodeVoid | NodeSelf | Void

record MessageMatrix =
  mx_matrix :: "Status list list"
  mx_message_matrix :: "Msg option list list"
  mx_quorum_nodes :: "PubKey list"
  mx_node_status :: "Status list"
  mx_self_key :: PubKey
  mx_self_index :: usize

definition matrix_new :: "PubKey list \<Rightarrow> PubKey \<Rightarrow> MessageMatrix" where
  "matrix_new quorum self_key =
    (let self_index = unwrap_or (position (\<lambda>k. k = self_key) quorum) 0; n = length quorum in
     \<lparr>mx_matrix = map (\<lambda>receiver_index. map (\<lambda>sender_index.
          if sender_index = receiver_index then NodeSelf
          else if receiver_index = self_index then DispatchVoid else EchoVoid) [0..<n]) [0..<n],
      mx_message_matrix = replicate n (replicate n None),
      mx_quorum_nodes = quorum,
      mx_node_status = replicate n NodeVoid,
      mx_self_key = self_key,
      mx_self_index = self_index\<rparr>)"

definition matrix_axis_status :: "usize \<Rightarrow> bool \<Rightarrow> usize \<Rightarrow> Status" where
  "matrix_axis_status n dispatch_received count_for_supermajority =
    (if n \<ge> count_for_supermajority then (if dispatch_received then NodePassed else NodePending)
     else if dispatch_received then NodePending else NodeVoid)"

fun axis_cell :: "Status \<Rightarrow> bool \<times> usize \<Rightarrow> bool \<times> usize" where
  "axis_cell DispatchReceived (dispatch_received, n) = (True, n + 1)"
| "axis_cell EchoReceived (dispatch_received, n) = (dispatch_received, n + 1)"
| "axis_cell NodeSelf (dispatch_received, n) = (dispatch_received, n + 1)"
| "axis_cell _ (dispatch_received, n) = (dispatch_received, n)"

definition column_axis :: "MessageMatrix \<Rightarrow> usize \<Rightarrow> bool \<times> usize" where
  "column_axis m index =
    fold (\<lambda>(row_index, row) (dispatch_received, n).
      axis_cell (row ! index)
        (if row_index = mx_self_index m \<and> index = mx_self_index m then True else dispatch_received, n))
      (enumerate 0 (mx_matrix m)) (False, 0)"

definition node_axes_status :: "MessageMatrix \<Rightarrow> usize \<Rightarrow> Status" where
  "node_axes_status m index =
    (let count_for_supermajority = supermajority_count (length (mx_quorum_nodes m));
         (column_received, column_count) = column_axis m index;
         column_status = matrix_axis_status column_count column_received count_for_supermajority;
         (dispatch_received, row_count) = fold axis_cell (mx_matrix m ! index) (column_received, 0);
         row_status = matrix_axis_status row_count dispatch_received count_for_supermajority
     in if column_status = NodePassed \<and> row_status = NodePassed then NodePassed
        else if column_status = NodePending \<or> row_status = NodePending then NodePending
        else NodeVoid)"

definition update_status :: "MessageMatrix \<Rightarrow> usize \<Rightarrow> usize \<Rightarrow> MessageMatrix" where
  "update_status m0 sender receiver =
    fold (\<lambda>index m. m\<lparr>mx_node_status := (mx_node_status m)[index := node_axes_status m index]\<rparr>) [sender, receiver] m0"

definition matrix_status :: "MessageMatrix \<Rightarrow> bool" where
  "matrix_status m \<longleftrightarrow>
    length (filter (\<lambda>s. s = NodePassed) (mx_node_status m)) \<ge> supermajority_count (length (mx_quorum_nodes m))"

definition find_key_index :: "MessageMatrix \<Rightarrow> PubKey \<Rightarrow> usize option" where
  "find_key_index m pubkey = position (\<lambda>k. k = pubkey) (mx_quorum_nodes m)"

definition update_cell ::
  "MessageMatrix \<Rightarrow> bool \<Rightarrow> PubKey \<Rightarrow> PubKey \<Rightarrow> Status \<Rightarrow> Msg option \<Rightarrow> bool \<times> MessageMatrix" where
  "update_cell m is_valid sender receiver status msg =
    (case find_key_index m sender of
       None \<Rightarrow> (False, m)
     | Some sender_index \<Rightarrow> (case find_key_index m receiver of
         None \<Rightarrow> (False, m)
       | Some receiver_index \<Rightarrow>
           let m1 = m\<lparr>mx_matrix := (mx_matrix m)[receiver_index :=
                      (mx_matrix m ! receiver_index)[sender_index := if is_valid then status else Void]],
                  mx_message_matrix := (mx_message_matrix m)[sender_index :=
                      (mx_message_matrix m ! sender_index)[receiver_index := msg]]\<rparr>;
               m2 = update_status m1 sender_index receiver_index
           in (matrix_status m2, m2)))"

definition matrix_update :: "MessageMatrix \<Rightarrow> bool \<Rightarrow> Msg \<Rightarrow> bool \<times> MessageMatrix" where
  "matrix_update m is_valid msg =
    (case msg of
       MsgDispatch d \<Rightarrow> update_cell m is_valid (hd_sender (di_header d)) (mx_self_key m) DispatchReceived (Some msg)
     | MsgEchoReDispatch d \<Rightarrow> update_cell m is_valid (hd_sender (re_header d)) (mx_self_key m) DispatchReceived (Some msg)
     | MsgEchoResponse r \<Rightarrow> update_cell m is_valid (ec_sender (es_body r)) (hd_sender (es_header r)) EchoReceived (Some msg)
     | _ \<Rightarrow> (False, m))"

definition update_dispatch_received :: "MessageMatrix \<Rightarrow> bool \<Rightarrow> PubKey \<Rightarrow> bool \<times> MessageMatrix" where
  "update_dispatch_received m is_valid sender = update_cell m is_valid sender (mx_self_key m) DispatchReceived None"


section \<open>The queue of matrices\<close>

record QuorumQueue =
  qq_queue :: "MessageMatrix list"
  qq_length :: usize
  qq_position :: usize

definition queue_new :: "PubKey list list \<Rightarrow> PubKey \<Rightarrow> QuorumQueue" where
  "queue_new quorum_peers self_key =
    (let queue = map (\<lambda>quorum. matrix_new quorum self_key) quorum_peers
     in \<lparr>qq_queue = queue, qq_length = length queue, qq_position = 0\<rparr>)"

definition next_matrix :: "QuorumQueue \<Rightarrow> QuorumQueue" where
  "next_matrix q = (if qq_position q + 1 < qq_length q then q\<lparr>qq_position := qq_position q + 1\<rparr> else q)"

definition get_current_matrix :: "QuorumQueue \<Rightarrow> MessageMatrix option" where
  "get_current_matrix q = slice_get (qq_queue q) (qq_position q)"

definition queue_update_matrix :: "QuorumQueue \<Rightarrow> bool \<Rightarrow> Msg \<Rightarrow> bool \<times> QuorumQueue" where
  "queue_update_matrix q is_valid msg =
    (case get_current_matrix q of
       None \<Rightarrow> (False, q)
     | Some m \<Rightarrow> (case matrix_update m is_valid msg of (passed, m') \<Rightarrow>
         (passed, q\<lparr>qq_queue := (qq_queue q)[qq_position q := m']\<rparr>)))"

definition queue_get_status :: "QuorumQueue \<Rightarrow> usize \<Rightarrow> bool" where
  "queue_get_status q index = (case slice_get (qq_queue q) index of None \<Rightarrow> False | Some m \<Rightarrow> matrix_status m)"

definition get_current_matrix_status :: "QuorumQueue \<Rightarrow> bool" where
  "get_current_matrix_status q = (case get_current_matrix q of None \<Rightarrow> False | Some m \<Rightarrow> matrix_status m)"


section \<open>Well-formed matrices\<close>

definition counted :: "Status \<Rightarrow> bool" where
  "counted s \<longleftrightarrow> s = DispatchReceived \<or> s = EchoReceived \<or> s = NodeSelf"

definition matrix_wf :: "PubKey list \<Rightarrow> MessageMatrix \<Rightarrow> bool" where
  "matrix_wf quorum m \<longleftrightarrow> mx_quorum_nodes m = quorum
    \<and> length (mx_matrix m) = length quorum \<and> (\<forall>row \<in> set (mx_matrix m). length row = length quorum)
    \<and> length (mx_message_matrix m) = length quorum \<and> (\<forall>row \<in> set (mx_message_matrix m). length row = length quorum)
    \<and> length (mx_node_status m) = length quorum
    \<and> (\<forall>i < length quorum. mx_node_status m ! i = NodeVoid \<or> mx_node_status m ! i = node_axes_status m i)"

lemma axis_cell_fold: "snd (fold axis_cell cells (d, n)) = n + length (filter counted cells)"
proof (induction cells arbitrary: d n)
  case (Cons c cells)
  then show ?case by (cases c) (simp_all add: counted_def)
qed simp

lemma column_axis_count: "snd (column_axis m i) = length (filter (\<lambda>row. counted (row ! i)) (mx_matrix m))"
proof -
  have "snd (fold (\<lambda>(row_index, row) (d, n). axis_cell (row ! i) (if row_index = s \<and> i = s then True else d, n))
      (enumerate k rows) (d, n)) = n + length (filter (\<lambda>row. counted (row ! i)) rows)" for rows k d n s
  proof (induction rows arbitrary: k d n)
    case (Cons row rows)
    then show ?case by (cases "row ! i") (simp_all add: counted_def)
  qed simp
  then show ?thesis by (simp add: column_axis_def)
qed

lemma axes_passed:
  assumes "node_axes_status m i = NodePassed"
  shows "supermajority_count (length (mx_quorum_nodes m)) \<le> length (filter (\<lambda>row. counted (row ! i)) (mx_matrix m))
    \<and> supermajority_count (length (mx_quorum_nodes m)) \<le> length (filter counted (mx_matrix m ! i))"
  using assms column_axis_count [of m i] axis_cell_fold [of "mx_matrix m ! i" "fst (column_axis m i)" 0]
  by (auto simp: node_axes_status_def matrix_axis_status_def Let_def split: prod.splits if_splits)

lemma axes_frame:
  "node_axes_status (m\<lparr>mx_node_status := s\<rparr>) i = node_axes_status m i"
  "column_axis (m\<lparr>mx_node_status := s\<rparr>) i = column_axis m i"
  by (simp_all add: node_axes_status_def column_axis_def)

lemma axes_update_other:
  assumes "i \<noteq> sender" "i \<noteq> receiver" "receiver < length (mx_matrix m)"
  shows "node_axes_status (m\<lparr>mx_matrix := (mx_matrix m)[receiver := (mx_matrix m ! receiver)[sender := c]],
      mx_message_matrix := x\<rparr>) i = node_axes_status m i"
proof -
  let ?rows = "(mx_matrix m)[receiver := (mx_matrix m ! receiver)[sender := c]]"
  have "enumerate 0 ?rows = map (\<lambda>(j, row). (j, if j = receiver then row[sender := c] else row)) (enumerate 0 (mx_matrix m))"
    by (rule nth_equalityI) (auto simp: nth_enumerate_eq nth_list_update)
  then have "column_axis (m\<lparr>mx_matrix := ?rows, mx_message_matrix := x\<rparr>) i = column_axis m i"
    unfolding column_axis_def
    by (auto simp: fold_map comp_def case_prod_beta nth_list_update_neq assms(1) [symmetric] intro!: fold_cong)
  then show ?thesis using assms(2) by (simp add: node_axes_status_def)
qed

lemma update_status_nth:
  assumes "sender < length (mx_node_status m)" "receiver < length (mx_node_status m)"
  shows "mx_node_status (update_status m sender receiver) =
    (mx_node_status m)[sender := node_axes_status m sender, receiver := node_axes_status m receiver]"
    "mx_matrix (update_status m sender receiver) = mx_matrix m"
    "mx_message_matrix (update_status m sender receiver) = mx_message_matrix m"
    "mx_quorum_nodes (update_status m sender receiver) = mx_quorum_nodes m"
    "node_axes_status (update_status m sender receiver) i = node_axes_status m i"
  by (simp_all add: update_status_def axes_frame)

lemma matrix_wf_new: "matrix_wf quorum (matrix_new quorum self_key)"
  by (auto simp: matrix_wf_def matrix_new_def Let_def)

lemma matrix_wf_cell: "matrix_wf quorum m \<Longrightarrow> matrix_wf quorum (snd (update_cell m is_valid sender receiver status msg))"
proof (cases "find_key_index m sender"; cases "find_key_index m receiver")
  fix s r
  assume wf: "matrix_wf quorum m" and idx: "find_key_index m sender = Some s" "find_key_index m receiver = Some r"
  let ?m1 = "m\<lparr>mx_matrix := (mx_matrix m)[r := (mx_matrix m ! r)[s := if is_valid then status else Void]],
    mx_message_matrix := (mx_message_matrix m)[s := (mx_message_matrix m ! s)[r := msg]]\<rparr>"
  have bounds: "s < length quorum" "r < length quorum"
    using wf idx by (auto simp: matrix_wf_def find_key_index_def position_Some)
  then have st: "s < length (mx_node_status ?m1)" "r < length (mx_node_status ?m1)" "r < length (mx_matrix m)"
    using wf by (simp_all add: matrix_wf_def)
  have upd: "snd (update_cell m is_valid sender receiver status msg) = update_status ?m1 s r"
    using idx by (simp add: update_cell_def Let_def)
  have "mx_node_status (update_status ?m1 s r) ! i = NodeVoid \<or>
      mx_node_status (update_status ?m1 s r) ! i = node_axes_status (update_status ?m1 s r) i" if "i < length quorum" for i
    using that wf st axes_update_other [where i = i and sender = s and receiver = r and m = m and c = "if is_valid then status else Void"]
    unfolding update_status_nth [OF st(1,2)] matrix_wf_def by (auto simp: nth_list_update)
  moreover have "length ((mx_matrix m ! r)[s := if is_valid then status else Void]) = length quorum"
    "length ((mx_message_matrix m ! s)[r := msg]) = length quorum"
    using wf bounds by (auto simp: matrix_wf_def)
  ultimately show ?thesis
    using wf unfolding upd matrix_wf_def update_status_nth [OF st(1,2)]
    by (auto dest!: subsetD [OF set_update_subset_insert])
qed (simp_all add: update_cell_def)

lemma matrix_wf_update: "matrix_wf quorum m \<Longrightarrow> matrix_wf quorum (snd (matrix_update m is_valid msg))"
  by (cases msg) (simp_all add: matrix_update_def matrix_wf_cell)

text \<open>C26: whatever messages a node records, the matrix of its quorum reports success only when a supermajority of the
  quorum's nodes each have a supermajority in their column and a supermajority in their row of
  dispatches, echoes or the diagonal.\<close>

theorem matrix_success_needs_supermajorities:
  assumes "m = fold (\<lambda>(is_valid, msg) m. snd (matrix_update m is_valid msg)) msgs (matrix_new quorum self_key)"
    and "matrix_status m"
  shows "\<exists>S \<subseteq> {0..<length quorum}. supermajority_count (length quorum) \<le> card S
    \<and> (\<forall>i \<in> S. supermajority_count (length quorum) \<le> length (filter (\<lambda>row. counted (row ! i)) (mx_matrix m))
      \<and> supermajority_count (length quorum) \<le> length (filter counted (mx_matrix m ! i)))"
proof -
  have wf: "matrix_wf quorum m"
    unfolding assms(1) by (rule fold_invariant [where Q = "\<lambda>_. True"]) (auto simp: matrix_wf_new matrix_wf_update)
  let ?S = "{i. i < length quorum \<and> mx_node_status m ! i = NodePassed}"
  have "card ?S = length (filter (\<lambda>s. s = NodePassed) (mx_node_status m))"
    using wf by (simp add: matrix_wf_def length_filter_conv_card)
  then have "supermajority_count (length quorum) \<le> card ?S"
    using assms(2) wf by (simp add: matrix_status_def matrix_wf_def)
  moreover have "node_axes_status m i = NodePassed" if "i \<in> ?S" for i
    using that wf by (auto simp: matrix_wf_def)
  moreover have "mx_quorum_nodes m = quorum" using wf by (simp add: matrix_wf_def)
  ultimately show ?thesis using axes_passed [of m] by (intro exI [of _ ?S]) auto
qed

definition echo_from :: "256 word \<Rightarrow> 256 word \<Rightarrow> Msg" where
  "echo_from sender receiver = MsgEchoResponse \<lparr>es_header = \<lparr>hd_sender = PubKey receiver, hd_last_epoch = default_hash,
      hd_nonce = 1, hd_round = 0, hd_signature = default_signature\<rparr>,
    es_body = \<lparr>ec_sender = PubKey sender, ec_blocks_hash = default_hash, ec_signature_tree_hash = default_hash\<rparr>\<rparr>"

definition dispatch_from :: "256 word \<Rightarrow> Msg" where
  "dispatch_from sender = MsgEchoReDispatch \<lparr>re_header = \<lparr>hd_sender = PubKey sender, hd_last_epoch = default_hash,
      hd_nonce = 1, hd_round = 0, hd_signature = default_signature\<rparr>, re_redispatched_blocks = bm_empty\<rparr>"

lemmas matrix_eval = matrix_update_def update_cell_def find_key_index_def update_status_def node_axes_status_def
  column_axis_def matrix_axis_status_def supermajority_count_def Let_def

definition pair_matrix :: "Status list list \<Rightarrow> Msg option list list \<Rightarrow> Status list \<Rightarrow> MessageMatrix" where
  "pair_matrix cells msgs status = \<lparr>mx_matrix = cells, mx_message_matrix = msgs, mx_quorum_nodes = [PubKey 1, PubKey 2],
    mx_node_status = status, mx_self_key = PubKey 1, mx_self_index = 0\<rparr>"

lemma pair_new: "matrix_new [PubKey 1, PubKey 2] (PubKey 1) = pair_matrix [[NodeSelf, DispatchVoid], [EchoVoid, NodeSelf]]
    [[None, None], [None, None]] [NodeVoid, NodeVoid]"
  by (simp add: matrix_new_def pair_matrix_def numeral_2_eq_2)

lemma pair_dispatched: "snd (matrix_update (pair_matrix [[NodeSelf, DispatchVoid], [EchoVoid, NodeSelf]]
      [[None, None], [None, None]] [NodeVoid, NodeVoid]) True (dispatch_from 2))
    = pair_matrix [[NodeSelf, DispatchReceived], [EchoVoid, NodeSelf]] [[None, None], [Some (dispatch_from 2), None]]
        [NodePending, NodePending]"
  by (simp add: matrix_eval pair_matrix_def dispatch_from_def)

lemma pair_echoed: "snd (matrix_update (pair_matrix [[NodeSelf, DispatchReceived], [EchoVoid, NodeSelf]]
      [[None, None], [Some (dispatch_from 2), None]] [NodePending, NodePending]) True (echo_from 1 2))
    = pair_matrix [[NodeSelf, DispatchReceived], [EchoReceived, NodeSelf]]
        [[None, Some (echo_from 1 2)], [Some (dispatch_from 2), None]] [NodePassed, NodePassed]"
  by (simp add: matrix_eval pair_matrix_def echo_from_def)

theorem matrix_success_needs_supermajorities_witness:
  "let m = fold (\<lambda>(is_valid, msg) m. snd (matrix_update m is_valid msg))
      [(True, dispatch_from 2), (True, echo_from 1 2)] (matrix_new [PubKey 1, PubKey 2] (PubKey 1))
   in \<exists>S \<subseteq> {0..<2}. 2 \<le> card S \<and> (\<forall>i \<in> S. 2 \<le> length (filter (\<lambda>row. counted (row ! i)) (mx_matrix m)))"
proof -
  let ?m = "fold (\<lambda>(is_valid, msg) m. snd (matrix_update m is_valid msg))
      [(True, dispatch_from 2), (True, echo_from 1 2)] (matrix_new [PubKey 1, PubKey 2] (PubKey 1))"
  have m: "?m = pair_matrix [[NodeSelf, DispatchReceived], [EchoReceived, NodeSelf]]
        [[None, Some (echo_from 1 2)], [Some (dispatch_from 2), None]] [NodePassed, NodePassed]"
    by (simp add: pair_new pair_dispatched pair_echoed)
  have "matrix_status ?m" unfolding m by (simp add: matrix_status_def pair_matrix_def supermajority_count_def)
  moreover have "length [PubKey 1, PubKey 2] = 2" "supermajority_count 2 = 2" by (simp_all add: supermajority_count_def)
  ultimately obtain S where "S \<subseteq> {0..<2}" "2 \<le> card S"
    "\<forall>i \<in> S. 2 \<le> length (filter (\<lambda>row. counted (row ! i)) (mx_matrix ?m))"
    using matrix_success_needs_supermajorities [OF refl, of _ "[PubKey 1, PubKey 2]"] by metis
  then show ?thesis unfolding Let_def by blast
qed

end
