(* ===== verification/Wire.thy ===== *)
theory Wire
  imports Messages
begin

text \<open>
  \<open>src/src/wire.rs\<close>: the hand-written codec of the hot path. \<open>append_*\<close> writes a dispatch or a block, \<open>take_*\<close>
  reads it back, \<open>scan_*\<close> checks a payload without building it, and \<open>*_wire_len\<close> computes sizes
  ahead of time. A reader takes the bytes that are left and returns a value and the rest. The
  largest frame, which an environment variable configures, is the parameter \<open>mx\<close>. The other
  requests are Borsh encodings and are not part of this theory.
\<close>

section \<open>Readers\<close>

type_synonym 'a reader = "bytes \<Rightarrow> ('a \<times> bytes) result"

definition preturn :: "'a \<Rightarrow> 'a reader" where
  "preturn x input = Ok (x, input)"

definition pbind :: "'a reader \<Rightarrow> ('a \<Rightarrow> 'b reader) \<Rightarrow> 'b reader" where
  "pbind p f input = and_then (p input) (\<lambda>(x, rest). f x rest)"

definition perr :: "BlossomError \<Rightarrow> 'a reader" where
  "perr e input = Err e"

fun prepeat :: "nat \<Rightarrow> 'a reader \<Rightarrow> 'a list reader" where
  "prepeat 0 p = preturn []"
| "prepeat (Suc n) p = pbind p (\<lambda>x. pbind (prepeat n p) (\<lambda>xs. preturn (x # xs)))"

definition take_exact :: "usize \<Rightarrow> bytes reader" where
  "take_exact len input = (if length input < len then Err WireProtocol else Ok (take len input, drop len input))"

definition ensure_empty :: "unit reader" where
  "ensure_empty input = (if input \<noteq> [] then Err WireProtocol else Ok ((), input))"

text \<open>The number of bytes left, for the capacity checks.\<close>

definition remaining :: "usize reader" where
  "remaining input = Ok (length input, input)"

definition word_from_le_bytes :: "bytes \<Rightarrow> 'a::len word" where
  "word_from_le_bytes bs = foldr (\<lambda>b acc. ucast b OR push_bit 8 acc) bs 0"

definition take_hash :: "HashType reader" where
  "take_hash = pbind (take_exact 32) (\<lambda>bs. preturn (HashType (word_from_le_bytes (rev bs))))"

definition take_pubkey :: "PubKey reader" where
  "take_pubkey = pbind (take_exact 32) (\<lambda>bs. preturn (PubKey (word_from_le_bytes (rev bs))))"

definition take_signature :: "Signature reader" where
  "take_signature = pbind (take_exact 64) (\<lambda>bs. preturn (Signature (word_from_le_bytes (rev bs))))"

definition take_u8 :: "u8 reader" where
  "take_u8 = pbind (take_exact 1) (\<lambda>bs. preturn (hd bs))"

definition take_u16 :: "u16 reader" where
  "take_u16 = pbind (take_exact 2) (\<lambda>bs. preturn (word_from_le_bytes bs))"

definition take_u32 :: "u32 reader" where
  "take_u32 = pbind (take_exact 4) (\<lambda>bs. preturn (word_from_le_bytes bs))"

definition take_u64 :: "u64 reader" where
  "take_u64 = pbind (take_exact 8) (\<lambda>bs. preturn (word_from_le_bytes bs))"

definition take_u128 :: "u128 reader" where
  "take_u128 = pbind (take_exact 16) (\<lambda>bs. preturn (word_from_le_bytes bs))"

definition take_len :: "usize \<Rightarrow> usize reader" where
  "take_len mx = pbind take_u32 (\<lambda>w. let len = unat w in if len > mx then perr (InvalidFrameSize len) else preturn len)"

definition append_len :: "usize \<Rightarrow> bytes" where
  "append_len len = u32_to_le_bytes (u32_of_usize len)"

definition checked_sum :: "usize list \<Rightarrow> usize result" where
  "checked_sum parts = try_fold (\<lambda>total part. ok_or (checked_add total part) WireProtocol) 0 parts"

definition wire_mul :: "usize \<Rightarrow> usize \<Rightarrow> usize result" where
  "wire_mul left right = ok_or (checked_mul left right) WireProtocol"


section \<open>Headers\<close>

definition header_wire_len :: usize where
  "header_wire_len = 32 + 32 + 8 + 1 + 64"

definition append_header :: "Header \<Rightarrow> bytes" where
  "append_header h = pubkey_as_ref (hd_sender h) @ hash_as_ref (hd_last_epoch h) @ u64_to_le_bytes (hd_nonce h)
    @ [hd_round h] @ signature_as_ref (hd_signature h)"

definition take_header :: "Header reader" where
  "take_header =
    pbind take_pubkey (\<lambda>sender. pbind take_hash (\<lambda>last_epoch. pbind take_u64 (\<lambda>nonce. pbind take_u8 (\<lambda>round.
    pbind take_signature (\<lambda>signature.
      preturn \<lparr>hd_sender = sender, hd_last_epoch = last_epoch, hd_nonce = nonce, hd_round = round,
               hd_signature = signature\<rparr>)))))"


section \<open>Signature trees\<close>

definition signature_tree_wire_len :: "SignatureTree \<Rightarrow> usize result" where
  "signature_tree_wire_len tree =
    and_then (try_fold (\<lambda>total (signatures, blocks).
        and_then (wire_mul (length signatures) (32 + 64)) (\<lambda>signatures_len.
        and_then (wire_mul (bm_len blocks) 32) (\<lambda>blocks_len.
          checked_sum [total, 32, 4, signatures_len, 4, blocks_len]))) 0 (bm_values tree)) (\<lambda>entries_len.
      checked_sum [4, entries_len])"

definition append_tree_entry :: "HashType \<times> SignaturesForHash \<Rightarrow> bytes" where
  "append_tree_entry = (\<lambda>(blocks_hash, signatures, blocks).
    hash_as_ref blocks_hash @ append_len (length signatures)
    @ concat (map (\<lambda>(pubkey, signature). pubkey_as_ref pubkey @ signature_as_ref signature) signatures)
    @ append_len (bm_len blocks) @ concat (map hash_as_ref (bm_keys blocks)))"

definition append_signature_tree :: "SignatureTree \<Rightarrow> bytes" where
  "append_signature_tree tree = append_len (bm_len tree) @ concat (map append_tree_entry (bm_entries tree))"

definition take_signed :: "(PubKey \<times> Signature) reader" where
  "take_signed = pbind take_pubkey (\<lambda>pubkey. pbind take_signature (\<lambda>signature. preturn (pubkey, signature)))"

definition take_tree_entry :: "usize \<Rightarrow> (HashType \<times> SignaturesForHash) reader" where
  "take_tree_entry mx =
    pbind take_hash (\<lambda>blocks_hash.
    pbind (take_len mx) (\<lambda>signature_count. pbind (prepeat signature_count take_signed) (\<lambda>signatures.
    pbind (take_len mx) (\<lambda>block_count. pbind (prepeat block_count take_hash) (\<lambda>hashes.
      preturn (blocks_hash, signatures, bs_of_list hashes))))))"

definition take_signature_tree :: "usize \<Rightarrow> SignatureTree reader" where
  "take_signature_tree mx =
    pbind (take_len mx) (\<lambda>entry_count. pbind (prepeat entry_count (take_tree_entry mx)) (\<lambda>entries.
      preturn (bm_of_list entries)))"

definition scan_tree_entry_hash :: "crypto \<Rightarrow> usize \<Rightarrow> HashType reader" where
  "scan_tree_entry_hash E mx =
    pbind take_hash (\<lambda>blocks_hash.
    pbind (take_len mx) (\<lambda>signature_count. pbind (prepeat signature_count take_signed) (\<lambda>_.
    pbind (take_len mx) (\<lambda>block_count. pbind (prepeat block_count take_hash) (\<lambda>hashes.
      if map_hash E (bs_of_list hashes) \<noteq> blocks_hash then perr WireProtocol else preturn blocks_hash)))))"

definition scan_signature_tree_hash :: "crypto \<Rightarrow> usize \<Rightarrow> HashType reader" where
  "scan_signature_tree_hash E mx =
    pbind (take_len mx) (\<lambda>entry_count. pbind (prepeat entry_count (scan_tree_entry_hash E mx)) (\<lambda>tree_keys.
      preturn (map_hash E (bs_of_list tree_keys))))"

definition scan_signature_tree :: "usize \<Rightarrow> unit reader" where
  "scan_signature_tree mx =
    pbind (take_len mx) (\<lambda>entry_count.
    pbind (prepeat entry_count (
      pbind take_hash (\<lambda>_.
      pbind (take_len mx) (\<lambda>signature_count. pbind (prepeat signature_count take_signed) (\<lambda>_.
      pbind (take_len mx) (\<lambda>block_count. prepeat block_count take_hash)))))) (\<lambda>_. preturn ()))"


section \<open>Encounter records\<close>

definition append_encounter_record :: "EncounterRecord \<Rightarrow> bytes" where
  "append_encounter_record r =
    (let b = er_body r in
     pubkey_as_ref (eb_observer b) @ pubkey_as_ref (eb_subject b) @ hash_as_ref (eb_last_epoch b)
     @ u64_to_le_bytes (eb_nonce b) @ [eb_round b] @ [phase_byte (eb_phase b)] @ [outcome_byte (eb_outcome b)]
     @ (case eb_evidence_hash b of Some hash \<Rightarrow> 1 # hash_as_ref hash | None \<Rightarrow> 0 # hash_as_ref default_hash)
     @ u128_to_le_bytes (eb_observed_at_micros b) @ signature_as_ref (er_signature r))"

definition take_encounter_phase :: "EncounterPhase reader" where
  "take_encounter_phase = pbind take_u8 (\<lambda>phase.
    if phase = 1 then preturn PhaseDispatch else if phase = 2 then preturn PhaseVerification
    else if phase = 3 then preturn PhaseProposal else if phase = 4 then preturn PhaseCommit
    else if phase = 5 then preturn PhaseEpochStarted else if phase = 6 then preturn PhaseCatchUp
    else perr WireProtocol)"

definition take_encounter_outcome :: "EncounterOutcome reader" where
  "take_encounter_outcome = pbind take_u8 (\<lambda>outcome.
    if outcome = 1 then preturn MissingSignature else if outcome = 2 then preturn InvalidSignature
    else perr WireProtocol)"

definition take_encounter_record :: "EncounterRecord reader" where
  "take_encounter_record =
    pbind take_pubkey (\<lambda>observer. pbind take_pubkey (\<lambda>subject. pbind take_hash (\<lambda>last_epoch. pbind take_u64 (\<lambda>nonce.
    pbind take_u8 (\<lambda>round. pbind take_encounter_phase (\<lambda>phase. pbind take_encounter_outcome (\<lambda>outcome.
    pbind take_u8 (\<lambda>flag.
    pbind (if flag = 0 then pbind take_hash (\<lambda>_. preturn None)
           else if flag = 1 then pbind take_hash (\<lambda>hash. preturn (Some hash))
           else perr WireProtocol) (\<lambda>evidence_hash.
    pbind take_u128 (\<lambda>observed_at_micros. pbind take_signature (\<lambda>signature.
      preturn \<lparr>er_body = \<lparr>eb_observer = observer, eb_subject = subject, eb_last_epoch = last_epoch, eb_nonce = nonce,
                 eb_round = round, eb_phase = phase, eb_outcome = outcome, eb_evidence_hash = evidence_hash,
                 eb_observed_at_micros = observed_at_micros\<rparr>,
               er_signature = signature\<rparr>)))))))))))"

text \<open>The scan feeds the hasher instead of building the record; it returns the bytes it feeds.\<close>

definition scan_encounter_record :: "bytes reader" where
  "scan_encounter_record =
    pbind take_pubkey (\<lambda>observer. pbind take_pubkey (\<lambda>subject. pbind take_hash (\<lambda>last_epoch. pbind take_u64 (\<lambda>nonce.
    pbind take_u8 (\<lambda>round. pbind take_encounter_phase (\<lambda>phase. pbind take_encounter_outcome (\<lambda>outcome.
    pbind take_u8 (\<lambda>flag.
    pbind (if flag = 0 then pbind take_hash (\<lambda>_. preturn (0, default_hash))
           else if flag = 1 then pbind take_hash (\<lambda>hash. preturn (1, hash))
           else perr WireProtocol) (\<lambda>(evidence_flag, evidence_hash).
    pbind take_u128 (\<lambda>observed_at_micros. pbind take_signature (\<lambda>signature.
      preturn (ENCOUNTER_RECORD_DOMAIN @ pubkey_as_ref observer @ pubkey_as_ref subject @ hash_as_ref last_epoch
        @ u64_to_le_bytes nonce @ [round] @ [phase_byte phase] @ [outcome_byte outcome] @ [evidence_flag]
        @ hash_as_ref evidence_hash @ u128_to_le_bytes observed_at_micros @ signature_as_ref signature))))))))))))"


section \<open>Transactions\<close>

definition filtered_slot_wire_len :: "FilteredTransactionSlot \<Rightarrow> usize result" where
  "filtered_slot_wire_len slot =
    and_then (wire_mul (length (fs_targets slot)) 32) (\<lambda>targets_len. checked_sum [32, 2, 4, targets_len, 32, 8, 1])"

definition append_filtered_slot :: "FilteredTransactionSlot \<Rightarrow> bytes" where
  "append_filtered_slot slot =
    hash_as_ref (fs_key_hash slot) @ u16_to_le_bytes (fs_kind slot) @ append_len (length (fs_targets slot))
    @ concat (map pubkey_as_ref (fs_targets slot)) @ hash_as_ref (fs_payload_commitment slot)
    @ u64_to_le_bytes (fs_payload_len slot) @ [case fs_delivery_policy slot of Direct \<Rightarrow> 1 | Gossip \<Rightarrow> 2]"

definition take_filtered_slot :: "usize \<Rightarrow> FilteredTransactionSlot reader" where
  "take_filtered_slot mx =
    pbind take_hash (\<lambda>key_hash. pbind take_u16 (\<lambda>kind. pbind (take_len mx) (\<lambda>target_count.
    pbind remaining (\<lambda>left. if target_count > left div 32 then perr WireProtocol else
    pbind (prepeat target_count take_pubkey) (\<lambda>targets.
    pbind take_hash (\<lambda>payload_commitment. pbind take_u64 (\<lambda>payload_len.
    pbind (pbind take_u8 (\<lambda>policy. if policy = 1 then preturn Direct else if policy = 2 then preturn Gossip
           else perr WireProtocol)) (\<lambda>delivery_policy.
      let slot = \<lparr>fs_key_hash = key_hash, fs_kind = kind, fs_targets = targets, fs_payload_commitment = payload_commitment,
                  fs_payload_len = payload_len, fs_delivery_policy = delivery_policy\<rparr>
      in (case slot_validate slot of Inl e \<Rightarrow> perr e | Inr _ \<Rightarrow> preturn slot)))))))))"

definition append_filtered_tx_metadata :: "Transaction \<Rightarrow> bytes" where
  "append_filtered_tx_metadata tx =
    (case (tx_filtered_slot tx, tx_filtered_view tx) of
       (Some slot, Full) \<Rightarrow> 1 # append_filtered_slot slot
     | (Some slot, Tombstone) \<Rightarrow> 2 # append_filtered_slot slot
     | _ \<Rightarrow> [0])"

definition from_parts :: "HashType \<Rightarrow> bytes \<Rightarrow> Transaction" where
  "from_parts hash payload = \<lparr>tx_hash = hash, tx_payload = payload, tx_filtered_slot = None, tx_filtered_view = Transparent\<rparr>"

definition take_transaction_with_metadata :: "usize \<Rightarrow> HashType \<Rightarrow> bytes \<Rightarrow> Transaction reader" where
  "take_transaction_with_metadata mx hash payload =
    pbind take_u8 (\<lambda>tag.
      if tag = 0 then preturn (from_parts hash payload)
      else if tag = 1 then pbind (take_filtered_slot mx) (\<lambda>slot. preturn (from_filtered_parts hash slot payload Full))
      else if tag = 2 then pbind (take_filtered_slot mx) (\<lambda>slot. preturn (from_filtered_parts hash slot payload Tombstone))
      else perr WireProtocol)"

definition scan_slot_checks :: "crypto \<Rightarrow> HashType \<Rightarrow> bytes \<Rightarrow> FilteredPayloadView \<Rightarrow> FilteredTransactionSlot \<Rightarrow> bytes reader" where
  "scan_slot_checks E hash payload view slot =
    (if hash \<noteq> slot_hash E slot then perr InvalidBlockHash
     else if view = Tombstone \<and> payload \<noteq> [] then perr WireProtocol
     else if view = Full \<and> u64_of_usize (length payload) \<noteq> fs_payload_len slot then perr InvalidBlockHash
     else if view = Full \<and> sha256 E payload \<noteq> fs_payload_commitment slot then perr InvalidBlockHash
     else preturn (hash_as_ref hash @ u64_to_le_bytes (u64_of_usize (slot_encoded_len slot)) @ slot_bytes slot))"

definition scan_transaction_metadata :: "crypto \<Rightarrow> usize \<Rightarrow> HashType \<Rightarrow> bytes \<Rightarrow> bytes reader" where
  "scan_transaction_metadata E mx hash payload =
    pbind take_u8 (\<lambda>tag.
      if tag = 0 then preturn (hash_as_ref hash @ u64_to_le_bytes (u64_of_usize (length payload)) @ payload)
      else if tag = 1 then pbind (take_filtered_slot mx) (scan_slot_checks E hash payload Full)
      else if tag = 2 then pbind (take_filtered_slot mx) (scan_slot_checks E hash payload Tombstone)
      else perr WireProtocol)"

definition transaction_wire_len :: "Transaction \<Rightarrow> usize result" where
  "transaction_wire_len tx =
    and_then (checked_sum [32, 4, length (tx_payload tx)]) (\<lambda>base.
    and_then (case tx_filtered_slot tx of None \<Rightarrow> Ok 0 | Some slot \<Rightarrow> filtered_slot_wire_len slot) (\<lambda>slot_len.
      checked_sum [base, 1, slot_len]))"

definition append_transaction :: "Transaction \<Rightarrow> bytes" where
  "append_transaction tx =
    hash_as_ref (tx_hash tx) @ append_len (length (tx_payload tx)) @ tx_payload tx @ append_filtered_tx_metadata tx"

definition take_transaction :: "usize \<Rightarrow> Transaction reader" where
  "take_transaction mx =
    pbind take_hash (\<lambda>hash. pbind (take_len mx) (\<lambda>tx_len. pbind (take_exact tx_len) (\<lambda>bytes.
      take_transaction_with_metadata mx hash bytes)))"

definition scan_transaction :: "crypto \<Rightarrow> usize \<Rightarrow> (bytes \<times> bytes) reader" where
  "scan_transaction E mx =
    pbind take_hash (\<lambda>hash. pbind (take_len mx) (\<lambda>tx_len. pbind (take_exact tx_len) (\<lambda>payload.
    pbind (scan_transaction_metadata E mx hash payload) (\<lambda>fed. preturn (fed, hash_as_ref hash)))))"


section \<open>Blocks\<close>

definition block_body_wire_len :: "BlockBody \<Rightarrow> usize result" where
  "block_body_wire_len b =
    and_then (wire_mul (length (bb_encounter_records b)) ENCOUNTER_RECORD_ENCODED_LEN) (\<lambda>encounters_len.
    and_then (try_fold (\<lambda>total tx. and_then (transaction_wire_len tx) (\<lambda>len. checked_sum [total, len])) 0 (bb_txs b)) (\<lambda>txs_len.
      checked_sum [32, 32, 8, 16, 16, 32, 4, length (bb_application_state b), 4, encounters_len, 4, 4, txs_len]))"

definition append_block_body :: "BlockBody \<Rightarrow> bytes" where
  "append_block_body b =
    pubkey_as_ref (bb_validator b) @ hash_as_ref (bb_last_epoch b) @ u64_to_le_bytes (bb_nonce b)
    @ u128_to_le_bytes (bb_created b) @ u128_to_le_bytes (bb_dispatched b) @ hash_as_ref (bb_merkle_root b)
    @ append_len (length (bb_application_state b)) @ bb_application_state b
    @ append_len (length (bb_encounter_records b)) @ concat (map append_encounter_record (bb_encounter_records b))
    @ append_len (length (bb_node_admissions b))
    @ append_len (length (bb_txs b)) @ concat (map append_transaction (bb_txs b))"

definition take_block_body :: "usize \<Rightarrow> BlockBody reader" where
  "take_block_body mx =
    pbind take_pubkey (\<lambda>validator. pbind take_hash (\<lambda>last_epoch. pbind take_u64 (\<lambda>nonce. pbind take_u128 (\<lambda>created.
    pbind take_u128 (\<lambda>dispatched. pbind take_hash (\<lambda>merkle_root.
    pbind (take_len mx) (\<lambda>application_state_len. pbind (take_exact application_state_len) (\<lambda>application_state.
    (case validate_application_state_len (length application_state) of Inl e \<Rightarrow> perr e | Inr _ \<Rightarrow>
    pbind (take_len mx) (\<lambda>encounter_count. pbind remaining (\<lambda>left.
    if encounter_count > left div ENCOUNTER_RECORD_ENCODED_LEN then perr WireProtocol else
    pbind (prepeat encounter_count take_encounter_record) (\<lambda>encounter_records.
    pbind (take_len mx) (\<lambda>admission_count. if admission_count \<noteq> 0 then perr WireProtocol else
    pbind (take_len mx) (\<lambda>tx_count. pbind remaining (\<lambda>left.
    if tx_count > left div (32 + 4) then perr WireProtocol else
    pbind (prepeat tx_count (take_transaction mx)) (\<lambda>txs.
    pbind ensure_empty (\<lambda>_.
      preturn \<lparr>bb_validator = validator, bb_last_epoch = last_epoch, bb_nonce = nonce, bb_created = created,
               bb_dispatched = dispatched, bb_merkle_root = merkle_root, bb_application_state = application_state,
               bb_encounter_records = encounter_records, bb_node_admissions = [], bb_txs = txs\<rparr>)))))))))))))))))"

record ScannedBlockBody =
  sn_body_hash :: HashType
  sn_merkle_root :: HashType
  sn_computed_merkle_root :: HashType
  sn_last_epoch :: HashType
  sn_nonce :: Nonce
  sn_transaction_count :: usize

definition scan_block_body :: "crypto \<Rightarrow> usize \<Rightarrow> ScannedBlockBody reader" where
  "scan_block_body E mx =
    pbind take_pubkey (\<lambda>validator. pbind take_hash (\<lambda>last_epoch. pbind take_u64 (\<lambda>nonce. pbind take_u128 (\<lambda>created.
    pbind take_u128 (\<lambda>dispatched. pbind take_hash (\<lambda>merkle_root.
    pbind (take_len mx) (\<lambda>application_state_len.
    if application_state_len > BLOCK_APPLICATION_STATE_MAX_BYTES then perr WireProtocol else
    pbind (take_exact application_state_len) (\<lambda>application_state.
    pbind (take_len mx) (\<lambda>encounter_count. pbind remaining (\<lambda>left.
    if encounter_count > left div ENCOUNTER_RECORD_ENCODED_LEN then perr WireProtocol else
    pbind (prepeat encounter_count scan_encounter_record) (\<lambda>encounters.
    pbind (take_len mx) (\<lambda>admission_count. if admission_count \<noteq> 0 then perr WireProtocol else
    pbind (take_len mx) (\<lambda>transaction_count. pbind remaining (\<lambda>left.
    if transaction_count > left div (32 + 4) then perr WireProtocol else
    pbind (prepeat transaction_count (scan_transaction E mx)) (\<lambda>txs.
    pbind ensure_empty (\<lambda>_.
      preturn \<lparr>sn_body_hash = sha256 E (pubkey_as_ref validator @ hash_as_ref last_epoch @ u64_to_le_bytes nonce
                 @ u128_to_le_bytes created @ u128_to_le_bytes dispatched @ hash_as_ref merkle_root
                 @ u64_to_le_bytes (u64_of_usize (length application_state)) @ application_state
                 @ u64_to_le_bytes (u64_of_usize encounter_count) @ concat encounters
                 @ u64_to_le_bytes (u64_of_usize admission_count) @ concat (map fst txs)),
               sn_merkle_root = merkle_root, sn_computed_merkle_root = sha256 E (concat (map snd txs)),
               sn_last_epoch = last_epoch, sn_nonce = nonce, sn_transaction_count = transaction_count\<rparr>))))))))))))))))"

definition block_wire_len :: "Block \<Rightarrow> usize result" where
  "block_wire_len b = and_then (block_body_wire_len (block_body b)) (\<lambda>body_len. checked_sum [32, 64, body_len])"

definition append_block :: "Block \<Rightarrow> bytes" where
  "append_block b = hash_as_ref (block_hash b) @ signature_as_ref (block_signature b) @ append_block_body (block_body b)"

definition take_block :: "usize \<Rightarrow> Block reader" where
  "take_block mx =
    pbind take_hash (\<lambda>hash. pbind take_signature (\<lambda>signature. pbind (take_block_body mx) (\<lambda>body.
      preturn \<lparr>block_hash = hash, block_signature = signature, block_body = body\<rparr>)))"

definition scan_block :: "crypto \<Rightarrow> usize \<Rightarrow> (HashType \<times> ScannedBlockBody) reader" where
  "scan_block E mx =
    pbind take_hash (\<lambda>hash. pbind take_signature (\<lambda>_. pbind (scan_block_body E mx) (\<lambda>body. preturn (hash, body))))"


section \<open>Dispatches\<close>

definition block_hot_wire_supported :: "Block \<Rightarrow> bool" where
  "block_hot_wire_supported b \<longleftrightarrow> bb_node_admissions (block_body b) = []"

definition dispatch_hot_wire_supported :: "Dispatch \<Rightarrow> bool" where
  "dispatch_hot_wire_supported d \<longleftrightarrow> list_all block_hot_wire_supported (bm_values (db_blocks (di_body d)))"

definition dispatch_wire_len :: "Dispatch \<Rightarrow> usize result" where
  "dispatch_wire_len d =
    and_then (try_fold (\<lambda>total block. and_then (block_wire_len block) (\<lambda>len. checked_sum [total, 32, 4, len])) 0
      (bm_values (db_blocks (di_body d)))) (\<lambda>blocks_len.
    and_then (signature_tree_wire_len (db_signature_tree (di_body d))) (\<lambda>tree_len.
      checked_sum [header_wire_len, 32, 32, 4, blocks_len, tree_len]))"

definition append_dispatch_block :: "HashType \<times> Block \<Rightarrow> bytes" where
  "append_dispatch_block = (\<lambda>(hash, block). hash_as_ref hash @ append_len (length (append_block block)) @ append_block block)"

definition append_dispatch :: "Dispatch \<Rightarrow> bytes" where
  "append_dispatch d =
    append_header (di_header d) @ hash_as_ref (db_blocks_hash (di_body d)) @ hash_as_ref (db_signature_tree_hash (di_body d))
    @ append_len (bm_len (db_blocks (di_body d)))
    @ concat (map append_dispatch_block (bm_entries (db_blocks (di_body d))))
    @ append_signature_tree (db_signature_tree (di_body d))"

text \<open>A payload of known length is read by a reader of its own, which has to use all of it.\<close>

definition pnested :: "'a reader \<Rightarrow> bytes \<Rightarrow> 'a reader" where
  "pnested p payload input = and_then (p payload) (\<lambda>(x, rest). if rest \<noteq> [] then Err WireProtocol else Ok (x, input))"

definition take_dispatch_block :: "usize \<Rightarrow> (HashType \<times> Block) reader" where
  "take_dispatch_block mx =
    pbind take_hash (\<lambda>hash. pbind (take_len mx) (\<lambda>block_len. pbind (take_exact block_len) (\<lambda>payload.
    pbind (pnested (take_block mx) payload) (\<lambda>block. preturn (hash, block)))))"

definition take_dispatch :: "usize \<Rightarrow> Dispatch reader" where
  "take_dispatch mx =
    pbind take_header (\<lambda>header. pbind take_hash (\<lambda>blocks_hash. pbind take_hash (\<lambda>signature_tree_hash.
    pbind (take_len mx) (\<lambda>block_count. pbind (prepeat block_count (take_dispatch_block mx)) (\<lambda>blocks.
    pbind (take_signature_tree mx) (\<lambda>signature_tree.
      preturn \<lparr>di_header = header, di_body = \<lparr>db_blocks = bm_of_list blocks, db_blocks_hash = blocks_hash,
        db_signature_tree = signature_tree, db_signature_tree_hash = signature_tree_hash\<rparr>\<rparr>))))))"

definition scan_hot_dispatch_payload :: "usize \<Rightarrow> bytes \<Rightarrow> (Header \<times> HashType \<times> HashType \<times> usize) result" where
  "scan_hot_dispatch_payload mx payload =
    and_then ((
      pbind take_header (\<lambda>header. pbind take_hash (\<lambda>blocks_hash. pbind take_hash (\<lambda>signature_tree_hash.
      pbind (take_len mx) (\<lambda>block_count.
      pbind (prepeat block_count (pbind take_hash (\<lambda>_. pbind (take_len mx) take_exact))) (\<lambda>_.
      pbind (scan_signature_tree mx) (\<lambda>_. pbind ensure_empty (\<lambda>_.
        preturn (header, blocks_hash, signature_tree_hash, block_count))))))))) payload) (\<lambda>(x, _). Ok x)"

record TrustedHotDispatchScan =
  hs_header :: Header
  hs_blocks_hash :: HashType
  hs_signature_tree_hash :: HashType
  hs_block_count :: usize
  hs_block_hashes :: hash_set
  hs_transaction_count :: usize

definition scan_dispatch_block :: "crypto \<Rightarrow> usize \<Rightarrow> Header \<Rightarrow> (HashType \<times> usize) reader" where
  "scan_dispatch_block E mx header =
    pbind take_hash (\<lambda>sent_hash. pbind (take_len mx) (\<lambda>block_len. pbind (take_exact block_len) (\<lambda>payload.
    pbind (pnested (scan_block E mx) payload) (\<lambda>(hash, scanned).
      if hash \<noteq> sent_hash \<or> sn_body_hash scanned \<noteq> sent_hash then perr InvalidBlockHash
      else if sn_last_epoch scanned \<noteq> hd_last_epoch header then perr InvalidBlockLastEpoch
      else if sn_nonce scanned \<noteq> hd_nonce header then perr (InvalidBlockNonce (hd_nonce header) (sn_nonce scanned))
      else if sn_merkle_root scanned \<noteq> sn_computed_merkle_root scanned then perr InvalidBlockHash
      else preturn (sent_hash, sn_transaction_count scanned)))))"

definition scan_trusted_reader :: "crypto \<Rightarrow> usize \<Rightarrow> TrustedHotDispatchScan reader" where
  "scan_trusted_reader E mx =
    pbind take_header (\<lambda>header. pbind take_hash (\<lambda>blocks_hash. pbind take_hash (\<lambda>signature_tree_hash.
    pbind (take_len mx) (\<lambda>block_count. pbind (prepeat block_count (scan_dispatch_block E mx header)) (\<lambda>scanned.
    let block_hashes = bs_of_list (map fst scanned) in
    if map_hash E block_hashes \<noteq> blocks_hash then perr WireProtocol else
    pbind (scan_signature_tree_hash E mx) (\<lambda>actual_tree_hash.
    if actual_tree_hash \<noteq> signature_tree_hash then perr WireProtocol else
    pbind ensure_empty (\<lambda>_.
      preturn \<lparr>hs_header = header, hs_blocks_hash = blocks_hash, hs_signature_tree_hash = signature_tree_hash,
        hs_block_count = block_count, hs_block_hashes = block_hashes,
        hs_transaction_count = fold (\<lambda>(_, n) total. saturating_add total n) scanned 0\<rparr>)))))))"

definition scan_trusted_hot_dispatch_payload :: "crypto \<Rightarrow> usize \<Rightarrow> bytes \<Rightarrow> TrustedHotDispatchScan result" where
  "scan_trusted_hot_dispatch_payload E mx payload = and_then (scan_trusted_reader E mx payload) (\<lambda>(scan, _). Ok scan)"

record HotDispatch =
  hx_header :: Header
  hx_blocks_hash :: HashType
  hx_signature_tree_hash :: HashType
  hx_block_count :: usize
  hx_payload :: bytes

definition take_hot_dispatch :: "usize \<Rightarrow> bytes \<Rightarrow> HotDispatch result" where
  "take_hot_dispatch mx payload =
    and_then (scan_hot_dispatch_payload mx payload) (\<lambda>(header, blocks_hash, signature_tree_hash, block_count).
      Ok \<lparr>hx_header = header, hx_blocks_hash = blocks_hash, hx_signature_tree_hash = signature_tree_hash,
           hx_block_count = block_count, hx_payload = payload\<rparr>)"

definition hot_verify_signature :: "crypto \<Rightarrow> HotDispatch \<Rightarrow> unit result" where
  "hot_verify_signature E d =
    header_verify_signature E (hx_header d) KeyDispatch
      (hash_as_ref (hx_blocks_hash d) @ hash_as_ref (hx_signature_tree_hash d))"

definition to_dispatch :: "usize \<Rightarrow> HotDispatch \<Rightarrow> Dispatch result" where
  "to_dispatch mx d =
    and_then (pbind (take_dispatch mx) (\<lambda>dispatch. pbind ensure_empty (\<lambda>_. preturn dispatch)) (hx_payload d))
      (\<lambda>(dispatch, _). Ok dispatch)"

definition scan_trusted :: "crypto \<Rightarrow> usize \<Rightarrow> HotDispatch \<Rightarrow> TrustedHotDispatchScan result" where
  "scan_trusted E mx d = scan_trusted_hot_dispatch_payload E mx (hx_payload d)"

definition HOT_WIRE_MAGIC :: bytes where
  "HOT_WIRE_MAGIC = string_bytes ''BLSM''"

definition append_hot_prefix :: "u8 \<Rightarrow> bytes" where
  "append_hot_prefix kind = HOT_WIRE_MAGIC @ [1, kind]"

definition hot_wire_payload :: "bytes \<Rightarrow> (u8 \<times> bytes) option result" where
  "hot_wire_payload bytes =
    (let n = length HOT_WIRE_MAGIC in
     if take n bytes \<noteq> HOT_WIRE_MAGIC then Ok None
     else if length bytes < n + 2 then Err WireProtocol
     else if bytes ! n \<noteq> 1 then Err WireProtocol
     else Ok (Some (bytes ! (n + 1), drop (n + 2) bytes)))"


section \<open>Reading back what was written\<close>

text \<open>A reader reads an encoding when it takes exactly these bytes off any input, and yields the value.\<close>

definition reads :: "'a reader \<Rightarrow> bytes \<Rightarrow> 'a \<Rightarrow> bool" where
  "reads p bs x \<longleftrightarrow> (\<forall>rest. p (bs @ rest) = Ok (x, rest))"

lemma readsD: "reads p bs x \<Longrightarrow> p (bs @ rest) = Ok (x, rest)"
  by (simp add: reads_def)

lemma read_step: "reads p bs x \<Longrightarrow> pbind p f (bs @ rest) = f x rest"
  by (simp add: pbind_def readsD)

lemma preturn_apply [simp]: "preturn x input = Ok (x, input)"
  by (simp add: preturn_def)

lemma perr_apply [simp]: "perr e input = Err e"
  by (simp add: perr_def)

lemma pbind_preturn [simp]: "pbind (preturn x) f = f x"
  by (rule ext) (simp add: pbind_def)

lemma pbind_perr [simp]: "pbind (perr e) f = perr e"
  by (rule ext) (simp add: pbind_def)

lemma pbind_assoc [simp]: "pbind (pbind p f) g = pbind p (\<lambda>x. pbind (f x) g)"
proof (rule ext)
  fix input
  show "pbind (pbind p f) g input = pbind p (\<lambda>x. pbind (f x) g) input" by (cases "p input") (auto simp: pbind_def)
qed

lemma remaining_step [simp]: "pbind remaining f input = f (length input) input"
  by (simp add: pbind_def remaining_def)

lemma pbind_ensure_empty [simp]: "pbind ensure_empty f input = (if input = [] then f () [] else Err WireProtocol)"
  by (simp add: pbind_def ensure_empty_def)

lemma reads_repeat_values:
  assumes "\<And>x. x \<in> set xs \<Longrightarrow> reads p (enc x) (f x)"
  shows "reads (prepeat (length xs) p) (concat (map enc xs)) (map f xs)"
  using assms
proof (induction xs)
  case Nil
  then show ?case by (simp add: reads_def)
next
  case (Cons x xs)
  then have "reads p (enc x) (f x)" "reads (prepeat (length xs) p) (concat (map enc xs)) (map f xs)" by simp_all
  then show ?case by (simp add: reads_def pbind_def)
qed

lemmas reads_repeat = reads_repeat_values [where f = "\<lambda>x. x", unfolded list.map_ident]

lemma reads_exact: "reads (take_exact (length bs)) bs bs"
  by (simp add: reads_def take_exact_def)

lemma word_from_le_bytes_segment:
  "k \<le> n \<Longrightarrow> word_from_le_bytes (map (\<lambda>i. ucast (drop_bit (8 * i) w)) [k..<n])
    = take_bit (8 * (n - k)) (drop_bit (8 * k) (w :: 'a::len word))"
proof (induction "n - k" arbitrary: k)
  case 0
  then show ?case by (simp add: word_from_le_bytes_def)
next
  case (Suc d)
  then have k: "k < n" "d = n - Suc k" by simp_all
  let ?rest = "word_from_le_bytes (map (\<lambda>i. ucast (drop_bit (8 * i) w)) [Suc k..<n]) :: 'a word"
  have "word_from_le_bytes (map (\<lambda>i. ucast (drop_bit (8 * i) w)) [k..<n])
      = ucast (ucast (drop_bit (8 * k) w) :: u8) OR push_bit 8 ?rest"
    using k(1) by (simp add: upt_conv_Cons word_from_le_bytes_def)
  also have "?rest = take_bit (8 * (n - Suc k)) (drop_bit (8 * Suc k) w)" using Suc(1) [OF k(2)] k(1) by simp
  also have "ucast (ucast (drop_bit (8 * k) w) :: u8) OR push_bit 8 (take_bit (8 * (n - Suc k)) (drop_bit (8 * Suc k) w))
      = take_bit (8 * (n - k)) (drop_bit (8 * k) w)"
    using k(1) by (auto simp: bit_eq_iff bit_simps)
  finally show ?case .
qed

lemma word_from_le_bytes_eq:
  assumes "LENGTH('a) \<le> 8 * n"
  shows "word_from_le_bytes (le_bytes n w) = (w :: 'a::len word)"
proof -
  have "word_from_le_bytes (le_bytes n w) = take_bit (8 * n) w"
    using word_from_le_bytes_segment [of 0 n w] by (simp add: le_bytes_def)
  then show ?thesis using assms by (simp add: take_bit_word_eq_self)
qed

lemma reads_fixed:
  assumes "length bs = n" "f bs = x"
  shows "reads (pbind (take_exact n) (\<lambda>bs. preturn (f bs))) bs x"
  using assms by (auto simp: reads_def pbind_def take_exact_def)

lemma reads_hash: "reads take_hash (hash_as_ref h) h"
  unfolding take_hash_def by (rule reads_fixed) (cases h; simp add: be_bytes_def word_from_le_bytes_eq)+

lemma reads_pubkey: "reads take_pubkey (pubkey_as_ref k) k"
  unfolding take_pubkey_def by (rule reads_fixed) (cases k; simp add: be_bytes_def word_from_le_bytes_eq)+

lemma reads_signature: "reads take_signature (signature_as_ref s) s"
  unfolding take_signature_def by (rule reads_fixed) (cases s; simp add: be_bytes_def word_from_le_bytes_eq)+

lemma reads_u8: "reads take_u8 [b] b"
  unfolding take_u8_def by (rule reads_fixed) simp_all

lemma reads_u16: "reads take_u16 (u16_to_le_bytes w) w"
  unfolding take_u16_def by (rule reads_fixed) (simp_all add: word_from_le_bytes_eq)

lemma reads_u32: "reads take_u32 (u32_to_le_bytes w) w"
  unfolding take_u32_def by (rule reads_fixed) (simp_all add: word_from_le_bytes_eq)

lemma reads_u64: "reads take_u64 (u64_to_le_bytes w) w"
  unfolding take_u64_def by (rule reads_fixed) (simp_all add: word_from_le_bytes_eq)

lemma reads_u128: "reads take_u128 (u128_to_le_bytes w) w"
  unfolding take_u128_def by (rule reads_fixed) (simp_all add: word_from_le_bytes_eq)

lemma reads_len:
  assumes "n \<le> mx" "mx < 2 ^ 32"
  shows "reads (take_len mx) (append_len n) n"
proof -
  have "unat (u32_of_usize n) = n" using assms by (simp add: u32_of_usize_def unat_of_nat)
  then show ?thesis
    using assms reads_u32 [of "u32_of_usize n"] by (simp add: reads_def take_len_def append_len_def pbind_def)
qed

lemmas read_steps = read_step [OF reads_hash] read_step [OF reads_pubkey] read_step [OF reads_signature]
  read_step [OF reads_u8, simplified] read_step [OF reads_u16] read_step [OF reads_u64] read_step [OF reads_u128]

lemma reads_header: "reads take_header (append_header h) h"
  unfolding reads_def take_header_def append_header_def by (simp add: read_steps)

lemma reads_signed: "reads take_signed (case e of (k, s) \<Rightarrow> pubkey_as_ref k @ signature_as_ref s) e"
  unfolding reads_def take_signed_def by (cases e) (simp add: read_steps)

lemma bm_keys_eqI: "dom (bm_get m) = dom (bm_get m') \<Longrightarrow> bm_keys m = bm_keys m'"
  by (intro sorted_distinct_set_unique) (simp_all add: strict_sorted_imp_sorted set_bm_keys)

lemma bs_of_keys: "bs_of_list (bm_keys s) = s"
  by (rule btree_set_eqI, rule bm_keys_eqI) (simp add: set_bm_keys)

lemma bm_of_entries: "bm_of_list (bm_entries m) = m"
proof (rule bm_eqI)
  fix k
  have "distinct (map fst (bm_entries m))" by (rule sorted_entries_distinct) simp
  then have "map_of (rev (bm_entries m)) = map_of (bm_entries m)"
    by (subst map_of_inject_set) (simp_all flip: rev_map)
  then show "bm_get (bm_of_list (bm_entries m)) k = bm_get m k" unfolding bm_get_of_list by (simp add: bm_get_def)
qed

text \<open>Sizes for which the length fields are exact and the capacity checks pass.\<close>

definition tree_fits :: "usize \<Rightarrow> SignatureTree \<Rightarrow> bool" where
  "tree_fits mx tree \<longleftrightarrow> bm_len tree \<le> mx
    \<and> list_all (\<lambda>(signatures, blocks). length signatures \<le> mx \<and> bm_len blocks \<le> mx) (bm_values tree)"

definition tx_fits :: "usize \<Rightarrow> Transaction \<Rightarrow> bool" where
  "tx_fits mx tx \<longleftrightarrow> length (tx_payload tx) \<le> mx
    \<and> (case (tx_filtered_slot tx, tx_filtered_view tx) of
         (None, Transparent) \<Rightarrow> True
       | (Some slot, Full) \<Rightarrow> length (fs_targets slot) \<le> mx \<and> slot_validate slot = Ok ()
       | (Some slot, Tombstone) \<Rightarrow> length (fs_targets slot) \<le> mx \<and> slot_validate slot = Ok ()
       | _ \<Rightarrow> False)"

definition body_fits :: "usize \<Rightarrow> BlockBody \<Rightarrow> bool" where
  "body_fits mx b \<longleftrightarrow> bb_node_admissions b = []
    \<and> length (bb_application_state b) \<le> min mx BLOCK_APPLICATION_STATE_MAX_BYTES
    \<and> length (bb_encounter_records b) \<le> mx \<and> length (bb_txs b) \<le> mx \<and> list_all (tx_fits mx) (bb_txs b)"

lemma reads_tree_entry:
  assumes "length signatures \<le> mx" "bm_len blocks \<le> mx" "mx < 2 ^ 32"
  shows "reads (take_tree_entry mx) (append_tree_entry (blocks_hash, signatures, blocks)) (blocks_hash, signatures, blocks)"
proof -
  have "reads (prepeat (length (bm_keys blocks)) take_hash) (concat (map hash_as_ref (bm_keys blocks))) (bm_keys blocks)"
    by (rule reads_repeat) (rule reads_hash)
  then have keys: "reads (prepeat (bm_len blocks) take_hash) (concat (map hash_as_ref (bm_keys blocks))) (bm_keys blocks)"
    by (simp add: bm_len_def bm_keys_def)
  note signed = reads_repeat [of signatures take_signed "\<lambda>(k, s). pubkey_as_ref k @ signature_as_ref s", OF reads_signed]
  show ?thesis
    unfolding reads_def take_tree_entry_def append_tree_entry_def
    by (simp add: read_steps read_step [OF reads_len [OF assms(1,3)]] read_step [OF reads_len [OF assms(2,3)]]
        read_step [OF keys] read_step [OF signed] bs_of_keys)
qed

lemma reads_signature_tree:
  assumes "tree_fits mx tree" "mx < 2 ^ 32"
  shows "reads (take_signature_tree mx) (append_signature_tree tree) tree"
proof -
  have "reads (take_tree_entry mx) (append_tree_entry e) e" if "e \<in> set (bm_entries tree)" for e
  proof (cases e)
    case (fields blocks_hash signatures blocks)
    then have "(signatures, blocks) \<in> set (bm_values tree)" using that by (force simp: bm_values_def)
    then show ?thesis using reads_tree_entry assms fields by (auto simp: tree_fits_def list_all_iff)
  qed
  then have entries: "reads (prepeat (bm_len tree) (take_tree_entry mx)) (concat (map append_tree_entry (bm_entries tree))) (bm_entries tree)"
    using reads_repeat [of "bm_entries tree"] by (simp add: bm_len_def)
  have len: "bm_len tree \<le> mx" using assms by (simp add: tree_fits_def)
  show ?thesis
    unfolding reads_def take_signature_tree_def append_signature_tree_def
    by (simp add: read_step [OF reads_len [OF len assms(2)]] read_step [OF entries] bm_of_entries)
qed

lemma reads_encounter_phase: "reads take_encounter_phase [phase_byte p] p"
  unfolding reads_def take_encounter_phase_def by (cases p) (simp_all add: read_steps)

lemma reads_encounter_outcome: "reads take_encounter_outcome [outcome_byte p] p"
  unfolding reads_def take_encounter_outcome_def by (cases p) (simp_all add: read_steps)

lemma reads_encounter_record: "reads take_encounter_record (append_encounter_record r) r"
  unfolding reads_def take_encounter_record_def append_encounter_record_def Let_def
  by (cases "eb_evidence_hash (er_body r)")
    (simp_all add: read_steps read_step [OF reads_encounter_phase, simplified]
      read_step [OF reads_encounter_outcome, simplified])

lemma reads_filtered_slot:
  assumes "length (fs_targets slot) \<le> mx" "slot_validate slot = Ok ()" "mx < 2 ^ 32"
  shows "reads (take_filtered_slot mx) (append_filtered_slot slot) slot"
proof -
  note targets = reads_repeat [of "fs_targets slot" take_pubkey pubkey_as_ref, OF reads_pubkey]
  have slot: "slot = \<lparr>fs_key_hash = fs_key_hash slot, fs_kind = fs_kind slot, fs_targets = fs_targets slot,
    fs_payload_commitment = fs_payload_commitment slot, fs_payload_len = fs_payload_len slot, fs_delivery_policy = p\<rparr>"
    if "fs_delivery_policy slot = p" for p using that by simp
  show ?thesis
    unfolding reads_def take_filtered_slot_def append_filtered_slot_def
    using assms(2) slot by (cases "fs_delivery_policy slot")
      (simp_all add: read_steps read_step [OF reads_len [OF assms(1,3)]] read_step [OF targets] flip: slot)
qed

lemma reads_transaction:
  assumes "tx_fits mx tx" "mx < 2 ^ 32"
  shows "reads (take_transaction mx) (append_transaction tx) tx"
proof -
  have "length (tx_payload tx) \<le> mx" using assms by (simp add: tx_fits_def)
  note head = read_step [OF reads_len [OF this assms(2)]] read_step [OF reads_exact]
  show ?thesis
  proof (cases "tx_filtered_slot tx")
    case None
    then have "tx_filtered_view tx = Transparent" using assms by (cases "tx_filtered_view tx") (simp_all add: tx_fits_def)
    with None show ?thesis
      unfolding reads_def take_transaction_def append_transaction_def take_transaction_with_metadata_def
        append_filtered_tx_metadata_def
      by (simp add: head read_steps from_parts_def)
  next
    case (Some slot)
    then have fits: "length (fs_targets slot) \<le> mx" "slot_validate slot = Ok ()" "tx_filtered_view tx \<noteq> Transparent"
      using assms by (cases "tx_filtered_view tx"; simp add: tx_fits_def)+
    note slot = read_step [OF reads_filtered_slot [OF fits(1,2) assms(2)]]
    show ?thesis
      unfolding reads_def take_transaction_def append_transaction_def take_transaction_with_metadata_def
        append_filtered_tx_metadata_def
      using fits(3) Some by (cases "tx_filtered_view tx") (simp_all add: head read_steps slot from_filtered_parts_def)
  qed
qed


subsection \<open>Blocks and their capacity checks\<close>

lemma length_append_len [simp]: "length (append_len n) = 4"
  by (simp add: append_len_def)

lemma length_append_encounter [simp]: "length (append_encounter_record r) = 220"
  by (simp add: append_encounter_record_def Let_def split: option.splits)

lemma length_append_encounters [simp]: "length (concat (map append_encounter_record rs)) = 220 * length rs"
  by (induction rs) simp_all

lemma length_append_transactions: "36 * length txs \<le> length (concat (map append_transaction txs))"
  by (induction txs) (simp_all add: append_transaction_def)

text \<open>A record takes 220 bytes on the wire, and the reader asks for room for records of 247 bytes.\<close>

definition encounters_have_room :: "BlockBody \<Rightarrow> bool" where
  "encounters_have_room b \<longleftrightarrow> length (bb_encounter_records b) * ENCOUNTER_RECORD_ENCODED_LEN
    \<le> 220 * length (bb_encounter_records b) + 8 + length (concat (map append_transaction (bb_txs b)))"

lemma take_block_body_append:
  assumes "body_fits mx b" "mx < 2 ^ 32"
  shows "take_block_body mx (append_block_body b) = (if encounters_have_room b then Ok (b, []) else Err WireProtocol)"
proof -
  let ?txs = "concat (map append_transaction (bb_txs b))"
  have fits: "bb_node_admissions b = []" "length (bb_application_state b) \<le> mx"
    "\<not> BLOCK_APPLICATION_STATE_MAX_BYTES < length (bb_application_state b)"
    "length (bb_encounter_records b) \<le> mx" "length (bb_txs b) \<le> mx" "list_all (tx_fits mx) (bb_txs b)"
    using assms by (auto simp: body_fits_def)
  note len = read_step [OF reads_len [OF fits(2) assms(2)]] read_step [OF reads_len [OF fits(4) assms(2)]]
    read_step [OF reads_len [OF fits(5) assms(2)]] read_step [OF reads_len [of 0 mx, OF _ assms(2)], simplified]
  note encounters = reads_repeat [of "bb_encounter_records b" take_encounter_record append_encounter_record,
      OF reads_encounter_record]
  have "reads (prepeat (length (bb_txs b)) (take_transaction mx)) ?txs (bb_txs b)"
    using fits(6) reads_transaction assms(2) by (intro reads_repeat) (auto simp: list_all_iff)
  note txs = read_step [OF this, of _ "[]", simplified]
  have capacity: "\<not> length ?txs div 36 < length (bb_txs b)"
    using length_append_transactions [of "bb_txs b"] by (metis div_less_iff_less_mult linorder_not_less mult.commute zero_less_numeral)
  have room: "(220 * length (bb_encounter_records b) + (4 + (4 + length ?txs))) div ENCOUNTER_RECORD_ENCODED_LEN
      < length (bb_encounter_records b) \<longleftrightarrow> \<not> encounters_have_room b"
    using div_less_iff_less_mult [of ENCOUNTER_RECORD_ENCODED_LEN] ENCOUNTER_RECORD_ENCODED_LEN_def
    by (simp add: encounters_have_room_def not_le ac_simps del: length_concat)
  show ?thesis
    unfolding take_block_body_def append_block_body_def
    using fits(1,3) capacity room
    by (simp add: read_steps len read_step [OF reads_exact] read_step [OF encounters] txs validate_application_state_len_def)
qed


lemma take_block_append:
  assumes "body_fits mx (block_body b)" "mx < 2 ^ 32"
  shows "take_block mx (append_block b) = (if encounters_have_room (block_body b) then Ok (b, []) else Err WireProtocol)"
  unfolding take_block_def append_block_def
  by (simp add: read_steps) (simp add: pbind_def take_block_body_append [OF assms])


subsection \<open>Dispatches\<close>

lemma repeat_stops:
  assumes "\<And>x. x \<in> set xs \<Longrightarrow> reads p (enc x) x \<or> (\<forall>rest. p (enc x @ rest) = Err e)"
    and "\<exists>x\<in>set xs. \<not> reads p (enc x) x"
  shows "prepeat (length xs) p (concat (map enc xs) @ rest) = Err e"
  using assms
proof (induction xs)
  case (Cons x xs)
  show ?case
  proof (cases "reads p (enc x) x")
    case True
    then have "prepeat (length xs) p (concat (map enc xs) @ rest) = Err e" using Cons by auto
    with True show ?thesis by (simp add: read_step) (simp add: pbind_def)
  next
    case False
    then have "p (enc x @ (concat (map enc xs) @ rest)) = Err e" using Cons.prems(1) [of x] by simp
    then show ?thesis by (simp add: pbind_def)
  qed
qed simp

definition dispatch_fits :: "usize \<Rightarrow> Dispatch \<Rightarrow> bool" where
  "dispatch_fits mx d \<longleftrightarrow> bm_len (db_blocks (di_body d)) \<le> mx \<and> tree_fits mx (db_signature_tree (di_body d))
    \<and> list_all (\<lambda>b. body_fits mx (block_body b) \<and> length (append_block b) \<le> mx) (bm_values (db_blocks (di_body d)))"

lemma take_dispatch_block_append:
  assumes "body_fits mx (block_body b)" "length (append_block b) \<le> mx" "mx < 2 ^ 32"
  shows "take_dispatch_block mx (append_dispatch_block (hash, b) @ rest)
    = (if encounters_have_room (block_body b) then Ok ((hash, b), rest) else Err WireProtocol)"
  unfolding take_dispatch_block_def append_dispatch_block_def
  by (simp add: read_steps read_step [OF reads_len [OF assms(2,3)]] read_step [OF reads_exact])
    (simp add: pbind_def pnested_def take_block_append [OF assms(1,3)])

lemma repeat_dispatch_blocks:
  assumes "list_all (\<lambda>b. body_fits mx (block_body b) \<and> length (append_block b) \<le> mx) (map snd entries)" "mx < 2 ^ 32"
  shows "prepeat (length entries) (take_dispatch_block mx) (concat (map append_dispatch_block entries) @ rest)
    = (if list_all (\<lambda>(_, b). encounters_have_room (block_body b)) entries then Ok (entries, rest) else Err WireProtocol)"
proof -
  note step = take_dispatch_block_append [OF _ _ assms(2)]
  have one: "take_dispatch_block mx (append_dispatch_block e @ rest)
      = (if encounters_have_room (block_body (snd e)) then Ok (e, rest) else Err WireProtocol)"
    if "e \<in> set entries" for e rest
    using step [of "snd e" "fst e"] assms(1) that by (auto simp: list_all_iff)
  show ?thesis
  proof (cases "list_all (\<lambda>(_, b). encounters_have_room (block_body b)) entries")
    case True
    then have "reads (take_dispatch_block mx) (append_dispatch_block e) e" if "e \<in> set entries" for e
      using one that by (auto simp: reads_def list_all_iff)
    then show ?thesis using True readsD [OF reads_repeat [of entries]] by simp
  next
    case False
    then obtain e where "e \<in> set entries" "\<not> encounters_have_room (block_body (snd e))" by (auto simp: list_all_iff)
    then have "\<exists>x\<in>set entries. \<not> reads (take_dispatch_block mx) (append_dispatch_block x) x"
      using one by (auto simp: reads_def intro!: bexI [of _ e])
    then have "prepeat (length entries) (take_dispatch_block mx) (concat (map append_dispatch_block entries) @ rest) = Err WireProtocol"
      using one by (intro repeat_stops) (auto simp: reads_def)
    with False show ?thesis by simp
  qed
qed

lemma reads_skipped_block:
  assumes "length (append_block (snd e)) \<le> mx" "mx < 2 ^ 32"
  shows "reads (pbind take_hash (\<lambda>_. pbind (take_len mx) take_exact)) (append_dispatch_block e) (append_block (snd e))"
  unfolding reads_def append_dispatch_block_def
  by (cases e) (use assms in \<open>simp add: read_steps read_step [OF reads_len] readsD [OF reads_exact]\<close>)

lemma reads_skipped_tree_entry:
  assumes "length (fst (snd e)) \<le> mx" "bm_len (snd (snd e)) \<le> mx" "mx < 2 ^ 32"
  shows "reads (pbind take_hash (\<lambda>_. pbind (take_len mx) (\<lambda>signature_count. pbind (prepeat signature_count take_signed) (\<lambda>_.
      pbind (take_len mx) (\<lambda>block_count. prepeat block_count take_hash))))) (append_tree_entry e) (bm_keys (snd (snd e)))"
proof (cases e)
  case (fields blocks_hash signatures blocks)
  have "reads (prepeat (length (bm_keys blocks)) take_hash) (concat (map hash_as_ref (bm_keys blocks))) (bm_keys blocks)"
    by (rule reads_repeat) (rule reads_hash)
  then have keys: "reads (prepeat (bm_len blocks) take_hash) (concat (map hash_as_ref (bm_keys blocks))) (bm_keys blocks)"
    by (simp add: bm_len_def bm_keys_def)
  note signed = reads_repeat [of signatures take_signed "\<lambda>(k, s). pubkey_as_ref k @ signature_as_ref s", OF reads_signed]
  have "length signatures \<le> mx" "bm_len blocks \<le> mx" using assms fields by simp_all
  note len = this [THEN reads_len, OF assms(3), THEN read_step]
  show ?thesis
    unfolding reads_def append_tree_entry_def fields
    by (simp add: read_steps len read_step [OF signed] readsD [OF keys])
qed

lemma reads_skipped_tree:
  assumes "tree_fits mx tree" "mx < 2 ^ 32"
  shows "reads (scan_signature_tree mx) (append_signature_tree tree) ()"
proof -
  have len: "bm_len tree \<le> mx" using assms by (simp add: tree_fits_def)
  have "length (fst (snd e)) \<le> mx \<and> bm_len (snd (snd e)) \<le> mx" if "e \<in> set (bm_entries tree)" for e
    using assms(1) that by (auto simp: tree_fits_def list_all_iff bm_values_def)
  then have "reads (prepeat (bm_len tree) (pbind take_hash (\<lambda>_. pbind (take_len mx) (\<lambda>signature_count.
      pbind (prepeat signature_count take_signed) (\<lambda>_. pbind (take_len mx) (\<lambda>block_count. prepeat block_count take_hash))))))
      (concat (map append_tree_entry (bm_entries tree))) (map (\<lambda>e. bm_keys (snd (snd e))) (bm_entries tree))"
    using reads_skipped_tree_entry assms(2) unfolding bm_len_def by (intro reads_repeat_values) blast
  note entries = read_step [OF this]
  show ?thesis
    unfolding reads_def scan_signature_tree_def append_signature_tree_def
    by (simp add: read_step [OF reads_len [OF len assms(2)]] entries)
qed

definition hot_dispatch_of :: "Dispatch \<Rightarrow> HotDispatch" where
  "hot_dispatch_of d = \<lparr>hx_header = di_header d, hx_blocks_hash = db_blocks_hash (di_body d),
    hx_signature_tree_hash = db_signature_tree_hash (di_body d), hx_block_count = bm_len (db_blocks (di_body d)),
    hx_payload = append_dispatch d\<rparr>"

lemma take_hot_dispatch_append:
  assumes "dispatch_fits mx d" "mx < 2 ^ 32"
  shows "take_hot_dispatch mx (append_dispatch d) = Ok (hot_dispatch_of d)"
proof -
  let ?blocks = "db_blocks (di_body d)" and ?tree = "db_signature_tree (di_body d)"
  have fits: "bm_len ?blocks \<le> mx" "tree_fits mx ?tree"
    "\<And>e. e \<in> set (bm_entries ?blocks) \<Longrightarrow> length (append_block (snd e)) \<le> mx"
    using assms(1) by (auto simp: dispatch_fits_def list_all_iff bm_values_def)
  have "reads (prepeat (bm_len ?blocks) (pbind take_hash (\<lambda>_. pbind (take_len mx) take_exact)))
      (concat (map append_dispatch_block (bm_entries ?blocks))) (map (\<lambda>e. append_block (snd e)) (bm_entries ?blocks))"
    using reads_skipped_block fits(3) assms(2) unfolding bm_len_def by (intro reads_repeat_values) blast
  note blocks = read_step [OF this]
  note tree = read_step [OF reads_skipped_tree [OF fits(2) assms(2)], of _ "[]", simplified]
  show ?thesis
    unfolding take_hot_dispatch_def scan_hot_dispatch_payload_def append_dispatch_def
    by (simp add: read_steps read_step [OF reads_header] read_step [OF reads_len [OF fits(1) assms(2)]] blocks tree
        hot_dispatch_of_def append_dispatch_def)
qed

text \<open>C28: the hot codec. A dispatch that the encoder writes passes the shallow scan of the receiver, and decoding gives
  back exactly the dispatch when every block leaves room for its encounter records under
  the decoder's capacity check; otherwise decoding fails with a protocol error, and nothing else can happen.\<close>

theorem hot_dispatch_roundtrip:
  assumes "dispatch_fits mx d" "mx < 2 ^ 32"
  shows "and_then (take_hot_dispatch mx (append_dispatch d)) (to_dispatch mx) =
    (if list_all (\<lambda>b. encounters_have_room (block_body b)) (bm_values (db_blocks (di_body d))) then Ok d else Err WireProtocol)"
proof -
  let ?blocks = "db_blocks (di_body d)" and ?tree = "db_signature_tree (di_body d)"
  have fits: "bm_len ?blocks \<le> mx" "tree_fits mx ?tree"
    "list_all (\<lambda>b. body_fits mx (block_body b) \<and> length (append_block b) \<le> mx) (map snd (bm_entries ?blocks))"
    using assms(1) by (auto simp: dispatch_fits_def bm_values_def)
  note tree = read_step [OF reads_signature_tree [OF fits(2) assms(2)], of _ "[]", simplified]
  have room: "list_all (\<lambda>(_, b). encounters_have_room (block_body b)) (bm_entries ?blocks)
      \<longleftrightarrow> list_all (\<lambda>b. encounters_have_room (block_body b)) (bm_values ?blocks)"
    by (auto simp: list_all_iff bm_values_def)
  have blocks: "pbind (prepeat (bm_len ?blocks) (take_dispatch_block mx)) f
      (concat (map append_dispatch_block (bm_entries ?blocks)) @ rest)
    = (if list_all (\<lambda>b. encounters_have_room (block_body b)) (bm_values ?blocks) then f (bm_entries ?blocks) rest
       else Err WireProtocol)" for f :: "(HashType \<times> Block) list \<Rightarrow> Dispatch reader" and rest
    unfolding pbind_def bm_len_def repeat_dispatch_blocks [OF fits(3) assms(2)] room by simp
  show ?thesis
    unfolding take_hot_dispatch_append [OF assms] and_then.simps to_dispatch_def hot_dispatch_of_def take_dispatch_def
    by (simp add: append_dispatch_def read_steps read_step [OF reads_header] read_step [OF reads_len [OF fits(1) assms(2)]]
        blocks tree bm_of_entries)
qed


section \<open>The streaming scan and the decoder\<close>

text \<open>A scan is sound for a decoder when every input it accepts is decoded, with the same rest and a related value.\<close>

definition scans :: "('a \<Rightarrow> 'b \<Rightarrow> bool) \<Rightarrow> 'a reader \<Rightarrow> 'b reader \<Rightarrow> bool" where
  "scans R p q \<longleftrightarrow> (\<forall>input y rest. q input = Ok (y, rest) \<longrightarrow> (\<exists>x. p input = Ok (x, rest) \<and> R x y))"

lemma scansD: "scans R p q \<Longrightarrow> q input = Ok (y, rest) \<Longrightarrow> \<exists>x. p input = Ok (x, rest) \<and> R x y"
  unfolding scans_def by blast

lemma scans_bind:
  assumes "scans R p q" "\<And>x y. R x y \<Longrightarrow> scans S (f x) (g y)"
  shows "scans S (pbind p f) (pbind q g)"
  unfolding scans_def
proof (intro allI impI)
  fix input z rest assume "pbind q g input = Ok (z, rest)"
  then obtain y mid where y: "q input = Ok (y, mid)" "g y mid = Ok (z, rest)" by (auto simp: pbind_def)
  then obtain x where x: "p input = Ok (x, mid)" "R x y" using scansD [OF assms(1)] by blast
  then obtain w where "f x mid = Ok (w, rest)" "S w z" using scansD [OF assms(2) [OF x(2)] y(2)] by blast
  then show "\<exists>w. pbind p f input = Ok (w, rest) \<and> S w z" using x(1) by (auto simp: pbind_def)
qed

lemma scans_same: "(\<And>x. scans S (f x) (g x)) \<Longrightarrow> scans S (pbind p f) (pbind p g)"
  by (rule scans_bind [where R = "(=)"]) (auto simp: scans_def)

lemma scans_return: "R x y \<Longrightarrow> scans R (preturn x) (preturn y)"
  by (simp add: scans_def)

lemma scans_err: "scans R p (perr e)"
  by (simp add: scans_def)

lemma scans_if: "(c \<Longrightarrow> scans R p p') \<Longrightarrow> (\<not> c \<Longrightarrow> scans R q q') \<Longrightarrow> scans R (if c then p else q) (if c then p' else q')"
  by simp

lemma scans_guard: "(\<not> c \<Longrightarrow> scans R p q) \<Longrightarrow> scans R p (if c then perr e else q)"
  by (simp add: scans_err)

lemma scans_repeat: "scans R p q \<Longrightarrow> scans (\<lambda>xs ys. list_all2 R xs ys \<and> length xs = n) (prepeat n p) (prepeat n q)"
proof (induction n)
  case (Suc n)
  then show ?case
    by (auto intro!: scans_bind [where R = R] scans_bind [where R = "\<lambda>xs ys. list_all2 R xs ys \<and> length xs = n"] scans_return)
qed (simp add: scans_return)

lemma scans_nested: "scans R p q \<Longrightarrow> scans R (pnested p payload) (pnested q payload)"
  by (fastforce simp: scans_def pnested_def split: if_splits)

lemma scans_encounter: "scans (\<lambda>r fed. fed = encounter_record_bytes r) take_encounter_record scan_encounter_record"
  unfolding take_encounter_record_def scan_encounter_record_def
  apply (intro scans_same)
  subgoal for observer subject last_epoch nonce round phase outcome flag
    by (rule scans_bind [where R = "\<lambda>e (evidence_flag, evidence_hash). evidence_bytes e = evidence_flag # hash_as_ref evidence_hash"])
      (auto intro!: scans_same scans_return scans_err
        simp: evidence_bytes_def encounter_record_bytes_def encounter_body_bytes_def)
  done

lemma scans_slot:
  "scans (\<lambda>slot slot'. slot = slot' \<and> slot_validate slot = Ok ()) (take_filtered_slot mx) (take_filtered_slot mx)"
proof -
  have "slot_validate slot = Ok ()" if "take_filtered_slot mx input = Ok (slot, rest)" for input slot rest
    using that unfolding take_filtered_slot_def
    by (auto simp: pbind_def Let_def split: if_splits sum.splits)
  then show ?thesis by (auto simp: scans_def)
qed

definition tx_scanned :: "crypto \<Rightarrow> Transaction \<Rightarrow> bytes \<times> bytes \<Rightarrow> bool" where
  "tx_scanned E tx = (\<lambda>(fed, key).
    fed = hash_as_ref (tx_hash tx) @ u64_to_le_bytes (u64_of_usize (canonical_payload_encoded_len tx)) @ canonical_payload tx
    \<and> key = hash_as_ref (tx_hash tx) \<and> validate_filtered_integrity E tx = Ok ())"

lemma scans_slot_checks:
  assumes "slot_validate slot = Ok ()" "view \<noteq> Transparent"
  shows "scans (\<lambda>tx fed. tx_scanned E tx (fed, hash_as_ref hash))
    (preturn (from_filtered_parts hash slot payload view)) (scan_slot_checks E hash payload view slot)"
  unfolding scan_slot_checks_def
  by (intro scans_guard scans_return) (cases view; use assms in \<open>simp add: tx_scanned_def from_filtered_parts_def
    canonical_payload_def canonical_payload_encoded_len_def validate_filtered_integrity_def\<close>)

lemma scans_transaction: "scans (tx_scanned E) (take_transaction mx) (scan_transaction E mx)"
proof -
  have transparent: "tx_scanned E (from_parts hash payload)
      (hash_as_ref hash @ u64_to_le_bytes (u64_of_usize (length payload)) @ payload, hash_as_ref hash)" for hash payload
    by (simp add: tx_scanned_def from_parts_def canonical_payload_def canonical_payload_encoded_len_def
        validate_filtered_integrity_def)
  have "scans (\<lambda>tx fed. tx_scanned E tx (fed, hash_as_ref hash))
      (take_transaction_with_metadata mx hash payload) (scan_transaction_metadata E mx hash payload)" for hash payload
    unfolding take_transaction_with_metadata_def scan_transaction_metadata_def
    by (intro scans_same scans_if scans_err scans_bind [OF scans_slot])
      (auto intro!: scans_return scans_slot_checks transparent)
  then show ?thesis
    unfolding take_transaction_def scan_transaction_def
    by (intro scans_same) (auto simp: scans_def pbind_def)
qed

definition body_scanned :: "crypto \<Rightarrow> BlockBody \<Rightarrow> ScannedBlockBody \<Rightarrow> bool" where
  "body_scanned E b s \<longleftrightarrow> sn_body_hash s = body_hash E b \<and> sn_merkle_root s = bb_merkle_root b
    \<and> sn_computed_merkle_root s = compute_merkle_root E b \<and> sn_last_epoch s = bb_last_epoch b \<and> sn_nonce s = bb_nonce b
    \<and> sn_transaction_count s = length (bb_txs b) \<and> bb_node_admissions b = []
    \<and> validate_application_state_len (length (bb_application_state b)) = Ok () \<and> validate_transactions E b = Ok ()"

lemma take_exact_length: "take_exact n input = Ok (bs, rest) \<Longrightarrow> length bs = n"
  by (auto simp: take_exact_def split: if_splits)

lemma scans_exact: "scans (\<lambda>x y. x = y \<and> length x = n) (take_exact n) (take_exact n)"
  using take_exact_length by (auto simp: scans_def)

lemma scanned_txs:
  assumes "list_all2 (tx_scanned E) txs ys"
  shows "concat (map fst ys) = concat (concat (map (\<lambda>tx. [hash_as_ref (tx_hash tx),
        u64_to_le_bytes (u64_of_usize (canonical_payload_encoded_len tx)), canonical_payload tx]) txs))"
    and "concat (map snd ys) = concat (map (\<lambda>tx. hash_as_ref (tx_hash tx)) txs)"
    and "\<forall>tx\<in>set txs. validate_filtered_integrity E tx = Ok ()"
  using assms by (induction rule: list_all2_induct) (auto simp: tx_scanned_def)

lemma scanned_encounters:
  "list_all2 (\<lambda>r fed. fed = encounter_record_bytes r) rs fs \<Longrightarrow> concat fs = concat (map encounter_record_bytes rs)"
  by (induction rule: list_all2_induct) simp_all

lemma scans_block_body: "scans (body_scanned E) (take_block_body mx) (scan_block_body E mx)"
proof -
  have scanned: "body_scanned E \<lparr>bb_validator = validator, bb_last_epoch = last_epoch, bb_nonce = nonce, bb_created = created,
        bb_dispatched = dispatched, bb_merkle_root = merkle_root, bb_application_state = state,
        bb_encounter_records = records, bb_node_admissions = [], bb_txs = txs\<rparr>
      \<lparr>sn_body_hash = sha256 E (pubkey_as_ref validator @ hash_as_ref last_epoch @ u64_to_le_bytes nonce
          @ u128_to_le_bytes created @ u128_to_le_bytes dispatched @ hash_as_ref merkle_root
          @ u64_to_le_bytes (u64_of_usize (length state)) @ state
          @ u64_to_le_bytes (u64_of_usize encounter_count) @ concat fed
          @ u64_to_le_bytes (u64_of_usize 0) @ concat (map fst ys)),
        sn_merkle_root = merkle_root, sn_computed_merkle_root = sha256 E (concat (map snd ys)),
        sn_last_epoch = last_epoch, sn_nonce = nonce, sn_transaction_count = count\<rparr>"
    if "list_all2 (\<lambda>r fed. fed = encounter_record_bytes r) records fed" "length records = encounter_count"
      "list_all2 (tx_scanned E) txs ys" "length txs = count" "\<not> length state > BLOCK_APPLICATION_STATE_MAX_BYTES"
    for validator last_epoch nonce created dispatched merkle_root state records fed encounter_count txs ys count
    using that scanned_txs [OF that(3)] scanned_encounters [OF that(1)]
    by (simp add: body_scanned_def body_hash_def hash_slices_def body_slices_def compute_merkle_root_def
        validate_application_state_len_def validate_transactions_def try_fold_unit)
  show ?thesis
    unfolding take_block_body_def scan_block_body_def
    apply (rule scans_same)+
    apply (rule scans_guard, rule scans_bind [OF scans_exact])
    apply (clarsimp simp: validate_application_state_len_def)
    apply (rule scans_same)+
    apply (rule scans_if [OF scans_err], rule scans_bind [OF scans_repeat [OF scans_encounter]])
    apply (rule scans_same, rule scans_if [OF scans_err])
    apply (rule scans_same)+
    apply (rule scans_if [OF scans_err], rule scans_bind [OF scans_repeat [OF scans_transaction]])
    apply (rule scans_same, rule scans_return)
    apply (elim conjE)
    apply (simp only: not_not)
    apply (rule scanned; assumption?)
    done
qed


lemma keys_of_list: "bm_keys (bm_of_list es) = bm_keys (bs_of_list (map fst es))"
proof (rule bm_keys_eqI)
  have "bm_get (bm_of_list es) = map_of (rev es)" by (rule ext) (rule bm_get_of_list)
  then show "dom (bm_get (bm_of_list es)) = dom (bm_get (bs_of_list (map fst es)))" by (simp add: dom_map_of_conv_image_fst)
qed

lemma get_of_list: "bm_get (bm_of_list es) k = Some v \<Longrightarrow> (k, v) \<in> set es"
  by (auto simp: bm_get_of_list dest: map_of_SomeD)

lemma map_hash_keys: "bm_keys m = bm_keys m' \<Longrightarrow> map_hash E m = map_hash E m'"
  by (simp add: map_hash_def)

lemma scans_tree:
  "scans (\<lambda>tree hash. hash = map_hash E tree \<and> (\<forall>h signatures blocks. bm_get tree h = Some (signatures, blocks) \<longrightarrow> map_hash E blocks = h))
    (take_signature_tree mx) (scan_signature_tree_hash E mx)"
proof -
  let ?R = "\<lambda>(h, signatures, blocks) h'. h' = h \<and> map_hash E blocks = h"
  have "scans ?R (take_tree_entry mx) (scan_tree_entry_hash E mx)"
    unfolding take_tree_entry_def scan_tree_entry_hash_def
    by (intro scans_same scans_guard scans_return) simp
  note entries = scans_repeat [OF this]
  have scanned: "keys = map fst es" "(h, signatures, blocks) \<in> set es \<Longrightarrow> map_hash E blocks = h"
    if "list_all2 ?R es keys" for es :: "(HashType \<times> SignaturesForHash) list" and keys h signatures blocks
    using that by (induction rule: list_all2_induct) auto
  show ?thesis
    unfolding take_signature_tree_def scan_signature_tree_hash_def
    by (intro scans_same scans_bind [OF entries] scans_return)
      (auto intro!: map_hash_keys dest!: get_of_list dest: scanned simp: keys_of_list)
qed

definition block_scanned :: "crypto \<Rightarrow> Header \<Rightarrow> HashType \<Rightarrow> Block \<Rightarrow> bool" where
  "block_scanned E header h b \<longleftrightarrow> bb_last_epoch (block_body b) = hd_last_epoch header \<and> bb_nonce (block_body b) = hd_nonce header
    \<and> verify_unsigned_integrity_with_hash E b h = validate_encounter_records E (block_body b)"

lemma block_scannedI:
  assumes "body_scanned E (block_body b) s" "block_hash b = h" "sn_body_hash s = h" "sn_last_epoch s = hd_last_epoch header"
    "sn_nonce s = hd_nonce header" "sn_merkle_root s = sn_computed_merkle_root s"
  shows "block_scanned E header h b"
  using assms by (cases "validate_encounter_records E (block_body b)")
    (auto simp: block_scanned_def body_scanned_def verify_unsigned_integrity_with_hash_def hash_and_merkle_root_eq
      validate_node_admissions_def)

lemma scans_dispatch_block:
  "scans (\<lambda>(h, b) (h', n). h' = h \<and> block_scanned E header h b) (take_dispatch_block mx) (scan_dispatch_block E mx header)"
proof -
  have "scans (\<lambda>b (h, s). h = block_hash b \<and> body_scanned E (block_body b) s) (take_block mx) (scan_block E mx)"
    unfolding take_block_def scan_block_def
    by (intro scans_same scans_bind [OF scans_block_body] scans_return) simp
  note block = scans_nested [OF this]
  show ?thesis
    unfolding take_dispatch_block_def scan_dispatch_block_def
    apply (rule scans_same)+
    by (rule scans_bind [OF block]) (auto intro!: scans_guard scans_return intro: block_scannedI)
qed

text \<open>C29: the streaming scan that a trusted receiver runs instead of decoding. Whatever payload it accepts also decodes, to a
  dispatch with the header, the hashes and exactly the block hashes that the scan reports; the
  dispatch passes its own validation, every entry of its signature tree is under the hash of
  its set, and every block belongs to the header's epoch and nonce and passes the unsigned integrity
  check, up to the signatures of its encounter records, which the scan leaves to the decoder.\<close>

theorem scan_trusted_agrees:
  assumes "scan_trusted E mx hot = Ok s"
  shows "\<exists>d. to_dispatch mx hot = Ok d \<and> di_header d = hs_header s
    \<and> db_blocks_hash (di_body d) = hs_blocks_hash s \<and> db_signature_tree_hash (di_body d) = hs_signature_tree_hash s
    \<and> bm_keys (db_blocks (di_body d)) = bm_keys (hs_block_hashes s)
    \<and> dispatch_validate E (di_body d) = Ok ()
    \<and> (\<forall>h signatures blocks. bm_get (db_signature_tree (di_body d)) h = Some (signatures, blocks) \<longrightarrow> map_hash E blocks = h)
    \<and> (\<forall>h b. bm_get (db_blocks (di_body d)) h = Some b \<longrightarrow> block_scanned E (hs_header s) h b)"
proof -
  let ?R = "\<lambda>d s. di_header d = hs_header s
    \<and> db_blocks_hash (di_body d) = hs_blocks_hash s \<and> db_signature_tree_hash (di_body d) = hs_signature_tree_hash s
    \<and> bm_keys (db_blocks (di_body d)) = bm_keys (hs_block_hashes s)
    \<and> dispatch_validate E (di_body d) = Ok ()
    \<and> (\<forall>h signatures blocks. bm_get (db_signature_tree (di_body d)) h = Some (signatures, blocks) \<longrightarrow> map_hash E blocks = h)
    \<and> (\<forall>h b. bm_get (db_blocks (di_body d)) h = Some b \<longrightarrow> block_scanned E (hs_header s) h b)"
  have keys: "map fst es = map fst ys" "\<forall>(h, b)\<in>set es. block_scanned E header h b"
    if "list_all2 (\<lambda>(h, b) (h', n). h' = h \<and> block_scanned E header h b) es ys"
    for es and ys :: "(HashType \<times> usize) list" and header
    using that by (induction rule: list_all2_induct) auto
  have "scans ?R (pbind (take_dispatch mx) (\<lambda>dispatch. pbind ensure_empty (\<lambda>_. preturn dispatch))) (scan_trusted_reader E mx)"
    unfolding take_dispatch_def scan_trusted_reader_def pbind_assoc pbind_preturn Let_def
    apply (rule scans_same)+
    apply (rule scans_bind [OF scans_repeat [OF scans_dispatch_block]])
    apply (rule scans_guard, rule scans_bind [OF scans_tree], rule scans_guard, rule scans_same, rule scans_return)
    apply (elim conjE, frule keys(1), drule keys(2))
    apply (auto simp: keys_of_list dispatch_validate_def map_hash_def dest!: get_of_list)
    done
  then show ?thesis
    using assms scansD by (fastforce simp: scan_trusted_def scan_trusted_hot_dispatch_payload_def to_dispatch_def)
qed


section \<open>Lengths ahead of time\<close>

lemma checked_sum_from:
  "try_fold (\<lambda>total part. ok_or (checked_add total part) WireProtocol) a parts = Ok n \<Longrightarrow> n = a + sum_list parts"
proof (induction parts arbitrary: a)
  case (Cons x parts)
  then have "n = (a + x) + sum_list parts" by (intro Cons.IH) (auto simp: usize_simps)
  then show ?case by simp
qed simp

lemma checked_sum_Ok: "checked_sum parts = Ok n \<Longrightarrow> n = sum_list parts"
  unfolding checked_sum_def using checked_sum_from [of 0] by simp

lemma wire_mul_Ok: "wire_mul a b = Ok n \<Longrightarrow> n = a * b"
  by (auto simp: wire_mul_def usize_simps)

lemma try_fold_sum:
  fixes n :: nat
  assumes "\<And>total x r. x \<in> set xs \<Longrightarrow> f total x = Ok r \<Longrightarrow> r = total + g x"
  shows "try_fold f a xs = Ok n \<Longrightarrow> n = a + sum_list (map g xs)"
  using assms
proof (induction xs arbitrary: a)
  case (Cons x xs)
  then obtain r where r: "f a x = Ok r" "try_fold f r xs = Ok n" by auto
  have "r = a + g x" by (rule Cons.prems(2) [OF _ r(1)]) simp
  moreover have "n = r + sum_list (map g xs)"
  proof (rule Cons.IH [OF r(2)])
    show "y \<in> set xs \<Longrightarrow> f total y = Ok q \<Longrightarrow> q = total + g y" for total y q by (rule Cons.prems(2)) simp_all
  qed
  ultimately show ?case by simp
qed simp

lemma length_concat_const:
  assumes "\<And>x. length (f x) = n"
  shows "length (concat (map f xs)) = n * length xs"
  by (induction xs) (simp_all add: assms)

lemma tree_wire_len: "signature_tree_wire_len tree = Ok n \<Longrightarrow> n = length (append_signature_tree tree)"
proof -
  assume "signature_tree_wire_len tree = Ok n"
  then obtain m where fold: "try_fold (\<lambda>total (signatures, blocks).
        and_then (wire_mul (length signatures) (32 + 64)) (\<lambda>signatures_len.
        and_then (wire_mul (bm_len blocks) 32) (\<lambda>blocks_len.
          checked_sum [total, 32, 4, signatures_len, 4, blocks_len]))) 0 (bm_values tree) = Ok m" and n: "checked_sum [4, m] = Ok n"
    by (auto simp: signature_tree_wire_len_def)
  have "m = 0 + sum_list (map (\<lambda>(signatures, blocks). 40 + 96 * length signatures + 32 * bm_len blocks) (bm_values tree))"
    by (rule try_fold_sum [OF _ fold]) (auto dest!: checked_sum_Ok wire_mul_Ok)
  moreover have "length (append_tree_entry e) = (case snd e of (signatures, blocks) \<Rightarrow> 40 + 96 * length signatures + 32 * bm_len blocks)" for e
    using length_concat_const [of "\<lambda>(pubkey, signature). pubkey_as_ref pubkey @ signature_as_ref signature" 96 "fst (snd e)"]
      length_concat_const [of hash_as_ref 32 "bm_keys (snd (snd e))"]
    by (cases e) (simp add: append_tree_entry_def bm_len_def bm_keys_def case_prod_beta del: length_concat)
  ultimately show ?thesis
    using checked_sum_Ok [OF n] by (simp add: append_signature_tree_def length_concat bm_values_def comp_def)
qed

definition tx_on_wire :: "Transaction \<Rightarrow> bool" where
  "tx_on_wire tx \<longleftrightarrow> (tx_filtered_slot tx = None \<longleftrightarrow> tx_filtered_view tx = Transparent)"

lemma slot_wire_len: "filtered_slot_wire_len slot = Ok n \<Longrightarrow> n = length (append_filtered_slot slot)"
  by (auto simp: filtered_slot_wire_len_def append_filtered_slot_def dest!: checked_sum_Ok wire_mul_Ok)

lemma tx_wire_len:
  assumes "transaction_wire_len tx = Ok n" "tx_on_wire tx"
  shows "n = length (append_transaction tx)"
  using assms by (cases "tx_filtered_slot tx"; cases "tx_filtered_view tx")
    (auto simp: transaction_wire_len_def append_transaction_def append_filtered_tx_metadata_def tx_on_wire_def
      dest!: checked_sum_Ok slot_wire_len)

lemma block_wire_len_Ok:
  assumes "block_wire_len b = Ok n" "list_all tx_on_wire (bb_txs (block_body b))" "bb_node_admissions (block_body b) = []"
  shows "n = length (append_block b) + 27 * length (bb_encounter_records (block_body b))"
proof -
  obtain m t r where sums: "wire_mul (length (bb_encounter_records (block_body b))) ENCOUNTER_RECORD_ENCODED_LEN = Ok r"
    and txs: "try_fold (\<lambda>total tx. and_then (transaction_wire_len tx) (\<lambda>len. checked_sum [total, len])) 0 (bb_txs (block_body b)) = Ok t"
    and "checked_sum [32, 32, 8, 16, 16, 32, 4, length (bb_application_state (block_body b)), 4, r, 4, 4, t] = Ok m"
    and "checked_sum [32, 64, m] = Ok n"
    using assms(1) by (auto simp: block_wire_len_def block_body_wire_len_def)
  moreover have "t = 0 + sum_list (map (\<lambda>tx. length (append_transaction tx)) (bb_txs (block_body b)))"
    by (rule try_fold_sum [OF _ txs]) (use assms(2) in \<open>auto simp: list_all_iff dest!: checked_sum_Ok tx_wire_len\<close>)
  moreover have "r = 247 * length (bb_encounter_records (block_body b))"
    using wire_mul_Ok [OF sums] by (simp add: ENCOUNTER_RECORD_ENCODED_LEN_def ENCOUNTER_BODY_ENCODED_LEN_def ENCOUNTER_RECORD_DOMAIN_def)
  ultimately show ?thesis
    using length_append_encounters [of "bb_encounter_records (block_body b)"]
    by (auto simp: append_block_def append_block_body_def length_concat comp_def assms(3) dest!: checked_sum_Ok)
qed

text \<open>C39: the length that is computed ahead of the encoding. It is the length of the encoding plus 27 bytes for every
  encounter record: exact for dispatches without records, and an overestimate for all others.\<close>

theorem dispatch_wire_len_spec:
  assumes "dispatch_wire_len d = Ok n" "dispatch_hot_wire_supported d"
    and "list_all (\<lambda>b. list_all tx_on_wire (bb_txs (block_body b))) (bm_values (db_blocks (di_body d)))"
  shows "n = length (append_dispatch d)
    + 27 * sum_list (map (\<lambda>b. length (bb_encounter_records (block_body b))) (bm_values (db_blocks (di_body d))))"
proof -
  let ?bs = "bm_values (db_blocks (di_body d))"
  obtain m t where blocks: "try_fold (\<lambda>total block. and_then (block_wire_len block) (\<lambda>len. checked_sum [total, 32, 4, len])) 0 ?bs = Ok m"
    and "signature_tree_wire_len (db_signature_tree (di_body d)) = Ok t"
    and "checked_sum [header_wire_len, 32, 32, 4, m, t] = Ok n"
    using assms(1) by (auto simp: dispatch_wire_len_def)
  moreover have "m = 0 + sum_list (map (\<lambda>b. 36 + length (append_block b) + 27 * length (bb_encounter_records (block_body b))) ?bs)"
    by (rule try_fold_sum [OF _ blocks])
      (use assms(2,3) in \<open>auto simp: list_all_iff dispatch_hot_wire_supported_def block_hot_wire_supported_def
        dest!: checked_sum_Ok block_wire_len_Ok\<close>)
  moreover have sums: "sum_list (map (\<lambda>e. 36 + f e + 27 * g e) es) = sum_list (map (\<lambda>e. 36 + f e) es) + 27 * sum_list (map g es)"
    for f g :: "HashType \<times> Block \<Rightarrow> nat" and es
    by (induction es) simp_all
  ultimately show ?thesis
    by (auto simp: append_dispatch_def append_header_def header_wire_len_def append_dispatch_block_def length_concat comp_def
        bm_values_def case_prod_beta sums dest!: checked_sum_Ok tree_wire_len)
qed

section \<open>Encounter records on the wire\<close>

text \<open>C38: a block that carries encounter records and no transactions is written by the encoder and refused by every
  decoder of the codec. The capacity check divides the bytes left by the length of a record in its
  signing form, which has 27 bytes of domain prefix that are not sent.\<close>

theorem encounter_block_rejected:
  assumes "body_fits mx (block_body b)" "mx < 2 ^ 32" "bb_encounter_records (block_body b) \<noteq> []" "bb_txs (block_body b) = []"
  shows "block_hot_wire_supported b \<and> take_block mx (append_block b) = Err WireProtocol"
proof -
  have "\<not> encounters_have_room (block_body b)"
    using assms(3,4) by (cases "bb_encounter_records (block_body b)") (simp_all add: encounters_have_room_def
      ENCOUNTER_RECORD_ENCODED_LEN_def ENCOUNTER_BODY_ENCODED_LEN_def ENCOUNTER_RECORD_DOMAIN_def)
  then show ?thesis
    using take_block_append [OF assms(1,2)] assms(1) by (simp add: block_hot_wire_supported_def body_fits_def)
qed

definition sample_record :: EncounterRecord where
  "sample_record = \<lparr>er_body = \<lparr>eb_observer = PubKey 1, eb_subject = PubKey 2, eb_last_epoch = HashType 3, eb_nonce = 4,
    eb_round = 0, eb_phase = PhaseCommit, eb_outcome = MissingSignature, eb_evidence_hash = None,
    eb_observed_at_micros = 5\<rparr>, er_signature = Signature 6\<rparr>"

definition sample_wire_block :: "EncounterRecord list \<Rightarrow> Transaction list \<Rightarrow> Block" where
  "sample_wire_block records txs = \<lparr>block_hash = HashType 7, block_signature = Signature 8,
    block_body = \<lparr>bb_validator = PubKey 1, bb_last_epoch = HashType 3, bb_nonce = 4, bb_created = 9, bb_dispatched = 10,
      bb_merkle_root = HashType 11, bb_application_state = [1, 2], bb_encounter_records = records, bb_node_admissions = [],
      bb_txs = txs\<rparr>\<rparr>"

lemma sample_block_fits: "body_fits 1000 (block_body (sample_wire_block [sample_record] []))"
  "body_fits 1000 (block_body (sample_wire_block [] [from_parts (HashType 12) [3, 4, 5]]))"
  by (simp_all add: sample_wire_block_def body_fits_def tx_fits_def from_parts_def BLOCK_APPLICATION_STATE_MAX_BYTES_def)

theorem encounter_block_rejected_witness:
  "take_block 1000 (append_block (sample_wire_block [sample_record] [])) = Err WireProtocol"
  using encounter_block_rejected [OF sample_block_fits(1)] by (simp add: sample_wire_block_def)

definition sample_wire_dispatch :: Dispatch where
  "sample_wire_dispatch = \<lparr>di_header = \<lparr>hd_sender = PubKey 1, hd_last_epoch = HashType 3, hd_nonce = 4, hd_round = 0,
      hd_signature = Signature 13\<rparr>,
    di_body = \<lparr>db_blocks = bm_insert (HashType 7) (sample_wire_block [] [from_parts (HashType 12) [3, 4, 5]]) bm_empty,
      db_blocks_hash = HashType 14, db_signature_tree = bm_empty, db_signature_tree_hash = HashType 15\<rparr>\<rparr>"

theorem hot_dispatch_roundtrip_witness:
  "and_then (take_hot_dispatch 1000 (append_dispatch sample_wire_dispatch)) (to_dispatch 1000) = Ok sample_wire_dispatch"
proof -
  let ?b = "sample_wire_block [] [from_parts (HashType 12) [3, 4, 5]]"
  have blocks: "bm_values (db_blocks (di_body sample_wire_dispatch)) = [?b]" "bm_len (db_blocks (di_body sample_wire_dispatch)) = 1"
    by (simp_all add: sample_wire_dispatch_def bm_values_def bm_len_def bm_entries_insert)
  have "tree_fits 1000 (db_signature_tree (di_body sample_wire_dispatch))"
    by (simp add: sample_wire_dispatch_def tree_fits_def bm_values_def bm_len_def)
  moreover have "length (append_block ?b) \<le> 1000"
    by (simp add: append_block_def append_block_body_def sample_wire_block_def append_transaction_def from_parts_def
        append_filtered_tx_metadata_def)
  ultimately have "dispatch_fits 1000 sample_wire_dispatch"
    using blocks sample_block_fits(2) by (simp add: dispatch_fits_def)
  moreover have "encounters_have_room (block_body ?b)" by (simp add: encounters_have_room_def sample_wire_block_def)
  ultimately show ?thesis using hot_dispatch_roundtrip [of 1000 sample_wire_dispatch] blocks by simp
qed


definition flat_crypto :: crypto where
  "flat_crypto = sample_crypto\<lparr>sha256 := \<lambda>_. HashType 1\<rparr>"

definition flat_block :: Block where
  "flat_block = \<lparr>block_hash = HashType 1, block_signature = Signature 8,
    block_body = \<lparr>bb_validator = PubKey 1, bb_last_epoch = HashType 3, bb_nonce = 4, bb_created = 9, bb_dispatched = 10,
      bb_merkle_root = HashType 1, bb_application_state = [], bb_encounter_records = [], bb_node_admissions = [],
      bb_txs = []\<rparr>\<rparr>"

definition flat_dispatch :: Dispatch where
  "flat_dispatch = \<lparr>di_header = \<lparr>hd_sender = PubKey 1, hd_last_epoch = HashType 3, hd_nonce = 4, hd_round = 0,
      hd_signature = Signature 13\<rparr>,
    di_body = \<lparr>db_blocks = bm_insert (HashType 1) flat_block bm_empty,
      db_blocks_hash = HashType 1, db_signature_tree = bm_empty, db_signature_tree_hash = HashType 1\<rparr>\<rparr>"

lemma flat_scan_block:
  "scan_block flat_crypto 1000 (append_block flat_block) = Ok ((HashType 1, \<lparr>sn_body_hash = HashType 1, sn_merkle_root = HashType 1,
    sn_computed_merkle_root = HashType 1, sn_last_epoch = HashType 3, sn_nonce = 4, sn_transaction_count = 0\<rparr>), [])"
proof -
  note zero = read_step [OF reads_len [of 0 1000], simplified] read_step [OF reads_len [of 0 1000], of _ "[]", simplified]
  show ?thesis
    unfolding scan_block_def scan_block_body_def append_block_def append_block_body_def flat_block_def
    by (simp add: read_steps zero read_step [OF reads_exact [of "[]"], simplified] flat_crypto_def
        del: hash_as_ref.simps pubkey_as_ref.simps signature_as_ref.simps) (simp add: pbind_def)
qed

theorem scan_trusted_agrees_witness:
  "\<exists>s d. scan_trusted flat_crypto 1000 (hot_dispatch_of flat_dispatch) = Ok s
    \<and> to_dispatch 1000 (hot_dispatch_of flat_dispatch) = Ok d \<and> bm_keys (db_blocks (di_body d)) = bm_keys (hs_block_hashes s)"
proof -
  let ?h = "di_header flat_dispatch"
  have hash: "map_hash flat_crypto m = HashType 1" for m :: "(HashType, 'v) btree_map"
    by (simp add: map_hash_def hash_slices_def flat_crypto_def)
  have fit: "length (append_block flat_block) \<le> 1000"
    by (simp add: append_block_def append_block_body_def flat_block_def)
  have block: "reads (scan_dispatch_block flat_crypto 1000 ?h) (append_dispatch_block (HashType 1, flat_block)) (HashType 1, 0)"
    unfolding reads_def scan_dispatch_block_def append_dispatch_block_def using fit
    by (simp add: read_steps read_step [OF reads_len] read_step [OF reads_exact] del: hash_as_ref.simps)
      (simp add: pbind_def pnested_def flat_scan_block flat_dispatch_def)
  have blocks: "bm_entries (db_blocks (di_body flat_dispatch)) = [(HashType 1, flat_block)]"
    by (simp add: flat_dispatch_def bm_entries_insert)
  have tree: "append_signature_tree (db_signature_tree (di_body flat_dispatch)) = append_len 0"
    by (simp add: append_signature_tree_def flat_dispatch_def bm_len_def)
  have fields: "db_blocks_hash (di_body flat_dispatch) = HashType 1" "db_signature_tree_hash (di_body flat_dispatch) = HashType 1"
    "bm_len (db_blocks (di_body flat_dispatch)) = Suc 0"
    using blocks by (simp_all add: flat_dispatch_def bm_len_def)
  have one: "pbind (take_len 1000) f (append_len (Suc 0) @ rest) = f (Suc 0) rest" for f :: "usize \<Rightarrow> TrustedHotDispatchScan reader" and rest
    by (rule read_step [OF reads_len]) simp_all
  have zero: "scan_signature_tree_hash flat_crypto 1000 (append_len 0) = Ok (HashType 1, [])"
    unfolding scan_signature_tree_hash_def by (simp add: hash read_step [OF reads_len [of 0 1000], of _ "[]", simplified])
  obtain s where "scan_trusted flat_crypto 1000 (hot_dispatch_of flat_dispatch) = Ok s"
    unfolding scan_trusted_def scan_trusted_hot_dispatch_payload_def scan_trusted_reader_def hot_dispatch_of_def append_dispatch_def
    by (simp add: read_step [OF reads_header] read_steps fields one blocks tree read_step [OF block] hash del: hash_as_ref.simps)
      (simp add: pbind_def zero ensure_empty_def)
  with scan_trusted_agrees [OF this] show ?thesis by blast
qed


theorem dispatch_wire_len_spec_witness:
  "\<exists>n. dispatch_wire_len flat_dispatch = Ok n \<and> n = length (append_dispatch flat_dispatch)"
proof -
  have vals: "bm_values (db_blocks (di_body flat_dispatch)) = [flat_block]"
    by (simp add: flat_dispatch_def bm_values_def bm_entries_insert)
  have "\<exists>n. dispatch_wire_len flat_dispatch = Ok n" unfolding dispatch_wire_len_def vals
    by (simp add: flat_dispatch_def flat_block_def block_wire_len_def block_body_wire_len_def checked_sum_def wire_mul_def
        checked_add_def checked_mul_def usize_max_def signature_tree_wire_len_def bm_values_def header_wire_len_def)
  then obtain n where n: "dispatch_wire_len flat_dispatch = Ok n" ..
  then show ?thesis
    using dispatch_wire_len_spec [OF n] vals
    by (simp add: dispatch_hot_wire_supported_def block_hot_wire_supported_def flat_block_def)
qed

end
