(* ===== verification/Quorum.thy ===== *)
theory Quorum
  imports Votes Register Wire
begin

text \<open>
  \<open>src/src/state.rs\<close>: the transient state of one round of a quorum (\<open>TempQuorum\<close>) and of one epoch (\<open>TempConsensus\<close>). The
  fields that are only initialised (\<open>verified_signature_trees\<close>, \<open>pending_blocks\<close>, \<open>processed_txs\<close>,
  \<open>last_signature_tree\<close>, \<open>round_status\<close>, the message log) are left out, and of the timers only the transaction
  counter, which the code maintains, is kept. Hash maps are ordered maps here, as their order is never
  observed.
\<close>

section \<open>Rounds and epochs in progress\<close>

datatype PendingDispatch = Decoded Dispatch | Hot HotDispatch

fun sender_and_signature :: "PendingDispatch \<Rightarrow> PubKey \<times> Signature" where
  "sender_and_signature (Decoded d) = (hd_sender (di_header d), hd_signature (di_header d))"
| "sender_and_signature (Hot d) = (hd_sender (hx_header d), hd_signature (hx_header d))"

definition pending_sender :: "PendingDispatch \<Rightarrow> PubKey" where
  "pending_sender d = fst (sender_and_signature d)"

fun raw_payload_len :: "PendingDispatch \<Rightarrow> usize option" where
  "raw_payload_len (Decoded _) = None"
| "raw_payload_len (Hot d) = Some (length (hx_payload d))"

record TempQuorum =
  tq_dispatch_status :: "bool option"
  tq_received_dispatches :: "PubKey list"
  tq_received_dispatch_identities :: "(PubKey, Signature \<times> HashType) btree_map"
  tq_pending_dispatches :: "PendingDispatch list"
  tq_verified_signature_tree_hashes :: hash_set
  tq_verified_blocks :: block_map
  tq_equivocating_validators :: "PubKey btree_set"
  tq_verified_blocks_hash :: "HashType option"
  tq_local_dispatch :: "Dispatch option"
  tq_dispatch_retry :: bool
  tq_trusted_acknowledgements :: TrustedAcknowledgementCount
  tq_trusted_confirmations :: TrustedConfirmationCount
  tq_pending_trusted_acknowledgements :: "(PubKey, TrustedAcknowledgement) btree_map"
  tq_pending_trusted_confirmations :: "(PubKey, Verification) btree_map"
  tq_last_trusted_acknowledgement_hash :: "HashType option"
  tq_trusted_acknowledgement_retry :: "HashType option"
  tq_trusted_confirmation_retry :: "HashType option"
  tq_verifications :: VerifCount
  tq_verification_sent :: bool
  tq_verification_retry :: bool
  tq_proposals :: PropCount
  tq_proposal_sent :: bool
  tq_proposal_retry :: bool
  tq_pending_proposals :: "(PubKey, Proposal) btree_map"
  tq_pending_commits :: "(PubKey, Commit) btree_map"
  tq_local_commit :: "Commit option"
  tq_commit_senders :: "PubKey btree_set"
  tq_commit_true_senders :: "PubKey btree_set"
  tq_epoch_signatures :: "(PubKey, Signature) btree_map"
  tq_commit_sent :: bool
  tq_epoch_started_senders :: "PubKey btree_set"
  tq_verified_tx :: usize
  tq_msg_matrix :: MessageMatrix

definition init_quorum :: "u32 \<Rightarrow> PubKey list \<Rightarrow> PubKey \<Rightarrow> TempQuorum" where
  "init_quorum quorum peers self_key = \<lparr>tq_dispatch_status = None, tq_received_dispatches = [],
    tq_received_dispatch_identities = bm_empty, tq_pending_dispatches = [], tq_verified_signature_tree_hashes = bm_empty,
    tq_verified_blocks = bm_empty, tq_equivocating_validators = bm_empty, tq_verified_blocks_hash = None,
    tq_local_dispatch = None, tq_dispatch_retry = False,
    tq_trusted_acknowledgements = init_trusted_acknowledgements quorum,
    tq_trusted_confirmations = init_trusted_confirmations quorum, tq_pending_trusted_acknowledgements = bm_empty,
    tq_pending_trusted_confirmations = bm_empty, tq_last_trusted_acknowledgement_hash = None,
    tq_trusted_acknowledgement_retry = None, tq_trusted_confirmation_retry = None,
    tq_verifications = init_verifications quorum, tq_verification_sent = False, tq_verification_retry = False,
    tq_proposals = init_proposals quorum, tq_proposal_sent = False, tq_proposal_retry = False, tq_pending_proposals = bm_empty,
    tq_pending_commits = bm_empty, tq_local_commit = None, tq_commit_senders = bm_empty, tq_commit_true_senders = bm_empty,
    tq_epoch_signatures = bm_empty, tq_commit_sent = False, tq_epoch_started_senders = bm_empty, tq_verified_tx = 0,
    tq_msg_matrix = matrix_new peers self_key\<rparr>"

type_synonym RoundSkipKey = "u8 \<times> u8 \<times> HashType"

record TempConsensus =
  tc_self_key :: PubKey
  tc_round :: u8
  tc_peers :: "(PubKey, NodeType) btree_map list"
  tc_quorum :: "(u8, TempQuorum) btree_map"
  tc_round_skip_votes :: "(RoundSkipKey, (PubKey, RoundSkipVote) btree_map) btree_map"
  tc_round_skip_certificates :: "(RoundSkipKey, RoundSkipCertificate) btree_map"
  tc_round_skip_manifests :: "(HashType, DataDisseminationManifest) btree_map"

definition init_consensus :: "(PubKey, NodeType) btree_map list \<Rightarrow> PubKey \<Rightarrow> TempConsensus" where
  "init_consensus peers self_key = \<lparr>tc_self_key = self_key, tc_round = 0, tc_peers = peers, tc_quorum = bm_empty,
    tc_round_skip_votes = bm_empty, tc_round_skip_certificates = bm_empty, tc_round_skip_manifests = bm_empty\<rparr>"

definition is_peer_member_of_round :: "TempConsensus \<Rightarrow> PubKey \<Rightarrow> u8 \<Rightarrow> bool" where
  "is_peer_member_of_round c sender round =
    (if unat round \<ge> length (tc_peers c) then False else bm_contains (tc_peers c ! unat round) sender)"

definition round_peers :: "TempConsensus \<Rightarrow> u8 \<Rightarrow> PubKey list" where
  "round_peers c round = (if unat round \<ge> length (tc_peers c) then [] else bm_keys (tc_peers c ! unat round))"

definition peers_with_us :: "TempConsensus \<Rightarrow> u8 \<Rightarrow> PubKey list" where
  "peers_with_us c round = btree_collect (tc_self_key c # round_peers c round)"


section \<open>Verified blocks\<close>

definition record_verified_block :: "HashType \<Rightarrow> Block \<Rightarrow> TempQuorum \<Rightarrow> bool \<times> TempQuorum" where
  "record_verified_block hash block q =
    (let validator = bb_validator (block_body block) in
     if bm_contains (tq_equivocating_validators q) validator \<or> bm_contains (tq_verified_blocks q) hash then (False, q)
     else case List.find (\<lambda>(existing_hash, existing). bb_validator (block_body existing) = validator \<and> existing_hash \<noteq> hash)
            (bm_entries (tq_verified_blocks q)) of
       Some (conflicting_hash, _) \<Rightarrow>
         (False, q\<lparr>tq_verified_blocks := bm_remove conflicting_hash (tq_verified_blocks q),
                   tq_verified_tx := (case bm_get (tq_verified_blocks q) conflicting_hash of
                       Some removed \<Rightarrow> saturating_sub (tq_verified_tx q) (length (bb_txs (block_body removed)))
                     | None \<Rightarrow> tq_verified_tx q),
                   tq_equivocating_validators := bm_insert validator () (tq_equivocating_validators q)\<rparr>)
     | None \<Rightarrow>
         (True, q\<lparr>tq_verified_tx := tq_verified_tx q + length (bb_txs (block_body block)),
                  tq_verified_blocks := bm_insert hash block (tq_verified_blocks q)\<rparr>))"

definition equivocators :: "TempQuorum \<Rightarrow> PubKey btree_set" where
  "equivocators q =
    snd (fold (\<lambda>(hash, block) (first_hash_by_validator, equivocating).
      let validator = bb_validator (block_body block) in
      (bm_insert validator hash first_hash_by_validator,
       case bm_get first_hash_by_validator validator of
         Some existing_hash \<Rightarrow> if existing_hash \<noteq> hash then bm_insert validator () equivocating else equivocating
       | None \<Rightarrow> equivocating)) (bm_entries (tq_verified_blocks q)) (bm_empty, tq_equivocating_validators q))"

definition canonical_verified_blocks :: "TempQuorum \<Rightarrow> block_map" where
  "canonical_verified_blocks q =
    bm_retain (\<lambda>_ block. \<not> bm_contains (equivocators q) (bb_validator (block_body block))) (tq_verified_blocks q)"

definition verified_blocks :: "TempQuorum \<Rightarrow> hash_set" where
  "verified_blocks q = bs_of_list (bm_keys (canonical_verified_blocks q))"

definition verified_blocks_hash :: "crypto \<Rightarrow> TempQuorum \<Rightarrow> HashType" where
  "verified_blocks_hash E q = map_hash E (canonical_verified_blocks q)"

definition refresh_verified_blocks_hash :: "crypto \<Rightarrow> TempQuorum \<Rightarrow> TempQuorum" where
  "refresh_verified_blocks_hash E q = q\<lparr>tq_verified_blocks_hash := Some (verified_blocks_hash E q)\<rparr>"

definition clear_verified_blocks :: "TempQuorum \<Rightarrow> TempQuorum" where
  "clear_verified_blocks q = q\<lparr>tq_verified_blocks := bm_empty, tq_equivocating_validators := bm_empty,
    tq_verified_blocks_hash := None, tq_verified_tx := 0\<rparr>"

definition record_blocks :: "(HashType \<times> Block) list \<Rightarrow> TempQuorum \<Rightarrow> TempQuorum" where
  "record_blocks blocks q = fold (\<lambda>(hash, block) q. snd (record_verified_block hash block q)) blocks q"

definition has_complete_dispatch_set :: "TempQuorum \<Rightarrow> bool" where
  "has_complete_dispatch_set q \<longleftrightarrow> tq_dispatch_status q = Some True
    \<and> saturating_add (length (tq_received_dispatches q)) 1 \<ge> length (mx_quorum_nodes (tq_msg_matrix q))"

definition has_trusted_dispatch_quorum :: "TempQuorum \<Rightarrow> bool" where
  "has_trusted_dispatch_quorum q \<longleftrightarrow> tq_dispatch_status q = Some True
    \<and> saturating_add (length (tq_received_dispatches q)) 1 \<ge> supermajority_count (length (mx_quorum_nodes (tq_msg_matrix q)))"

definition trusted_candidate_blocks :: "TempQuorum \<Rightarrow> VerificationBody \<Rightarrow> block_map option" where
  "trusted_candidate_blocks q body =
    (let verified = canonical_verified_blocks q;
         found = map (\<lambda>hash. map_option (Pair hash) (bm_get verified hash)) (bm_keys (vb_blocks body))
     in if list_ex (\<lambda>entry. entry = None) found then None else Some (bm_of_list (map the found)))"


section \<open>Pending messages\<close>

definition pending_raw_dispatch_bytes :: "TempQuorum \<Rightarrow> usize" where
  "pending_raw_dispatch_bytes q = fold (\<lambda>n total. saturating_add total n) (List.map_filter raw_payload_len (tq_pending_dispatches q)) 0"

definition pending_raw_dispatch_bytes_for_sender :: "TempQuorum \<Rightarrow> PubKey \<Rightarrow> usize" where
  "pending_raw_dispatch_bytes_for_sender q sender =
    fold (\<lambda>n total. saturating_add total n)
      (List.map_filter raw_payload_len (filter (\<lambda>d. pending_sender d = sender) (tq_pending_dispatches q))) 0"

definition try_push_pending_dispatch :: "PendingDispatch \<Rightarrow> usize \<Rightarrow> usize \<Rightarrow> TempQuorum \<Rightarrow> unit result \<times> TempQuorum" where
  "try_push_pending_dispatch d max_raw max_raw_per_sender q =
    (let pushed = (Ok (), q\<lparr>tq_pending_dispatches := tq_pending_dispatches q @ [d]\<rparr>) in
     if list_ex (\<lambda>pending. sender_and_signature pending = sender_and_signature d) (tq_pending_dispatches q)
     then (Err WireProtocol, q)
     else case raw_payload_len d of
       None \<Rightarrow> pushed
     | Some len \<Rightarrow>
         (case checked_add (pending_raw_dispatch_bytes q) len of
            None \<Rightarrow> (Err WireProtocol, q)
          | Some next_raw \<Rightarrow>
              if next_raw > max_raw then (Err WireProtocol, q)
              else case checked_add (pending_raw_dispatch_bytes_for_sender q (pending_sender d)) len of
                None \<Rightarrow> (Err WireProtocol, q)
              | Some next_sender \<Rightarrow> if next_sender > max_raw_per_sender then (Err WireProtocol, q) else pushed))"

text \<open>The loop of \<open>verify_with_signature_checks\<close> over the pending dispatches: what it has processed, the blocks it
  accepted and the signature trees it has verified.\<close>

definition decode_pending :: "usize \<Rightarrow> PendingDispatch \<Rightarrow> Dispatch result" where
  "decode_pending mx pending = (case pending of Decoded d \<Rightarrow> Ok d | Hot raw \<Rightarrow> to_dispatch mx raw)"

definition acceptable_block :: "crypto \<Rightarrow> bool \<Rightarrow> block_map \<Rightarrow> Header \<Rightarrow> HashType \<Rightarrow> Block \<Rightarrow> bool" where
  "acceptable_block E verify_signatures verified header sent_hash block \<longleftrightarrow>
    \<not> bm_contains verified sent_hash
    \<and> bb_last_epoch (block_body block) = hd_last_epoch header \<and> bb_nonce (block_body block) = hd_nonce header
    \<and> block_check E verify_signatures sent_hash block"

type_synonym verify_acc = "(PubKey \<times> Signature) list \<times> (HashType \<times> Block) list \<times> hash_set"

definition verify_pending :: "crypto \<Rightarrow> usize \<Rightarrow> bool \<Rightarrow> block_map \<Rightarrow> PendingDispatch \<Rightarrow> verify_acc \<Rightarrow> verify_acc" where
  "verify_pending E mx verify_signatures verified pending = (\<lambda>(processed, candidates, tree_hashes).
    case decode_pending mx pending of
      Inl _ \<Rightarrow> (sender_and_signature pending # processed, candidates, tree_hashes)
    | Inr d \<Rightarrow>
        let tree_hash = db_signature_tree_hash (di_body d);
            (tree_ok, tree_hashes') =
              (if verify_signatures then
                 (if bm_contains tree_hashes tree_hash then (True, tree_hashes)
                  else if tree_verify E (db_signature_tree (di_body d)) then (True, bm_insert tree_hash () tree_hashes)
                  else (False, tree_hashes))
               else (map_hash E (db_signature_tree (di_body d)) = tree_hash, tree_hashes));
            accepted = (if tree_ok then filter (\<lambda>(hash, block). acceptable_block E verify_signatures verified (di_header d) hash block)
                          (bm_entries (db_blocks (di_body d))) else [])
        in ((hd_sender (di_header d), hd_signature (di_header d)) # processed, candidates @ accepted, tree_hashes'))"

definition verify_with_signature_checks :: "crypto \<Rightarrow> usize \<Rightarrow> bool \<Rightarrow> TempQuorum \<Rightarrow> TempQuorum" where
  "verify_with_signature_checks E mx verify_signatures q =
    (let (processed, candidates, tree_hashes) = fold (verify_pending E mx verify_signatures (tq_verified_blocks q))
           (tq_pending_dispatches q) ([], [], tq_verified_signature_tree_hashes q);
         q' = q\<lparr>tq_verified_signature_tree_hashes := tree_hashes,
                tq_pending_dispatches := filter (\<lambda>d. sender_and_signature d \<notin> set processed) (tq_pending_dispatches q)\<rparr>
     in refresh_verified_blocks_hash E (record_blocks candidates q'))"

text \<open>\<open>activate_pending_trusted_messages\<close>: the senders whose candidate is available now, then each recorded in turn.\<close>

definition activate_acknowledgement :: "PubKey \<Rightarrow> TempQuorum \<Rightarrow> unit result \<times> TempQuorum" where
  "activate_acknowledgement sender q =
    (case bm_get (tq_pending_trusted_acknowledgements q) sender of
       None \<Rightarrow> (Ok (), q)
     | Some acknowledgement \<Rightarrow>
         let q1 = q\<lparr>tq_pending_trusted_acknowledgements := bm_remove sender (tq_pending_trusted_acknowledgements q)\<rparr>;
             (r, counts) = ack_record (tq_trusted_acknowledgements q1) acknowledgement
         in (and_then r (\<lambda>_. Ok ()), q1\<lparr>tq_trusted_acknowledgements := counts\<rparr>))"

definition activate_confirmation :: "PubKey \<Rightarrow> TempQuorum \<Rightarrow> unit result \<times> TempQuorum" where
  "activate_confirmation sender q =
    (case bm_get (tq_pending_trusted_confirmations q) sender of
       None \<Rightarrow> (Ok (), q)
     | Some confirmation \<Rightarrow>
         let q1 = q\<lparr>tq_pending_trusted_confirmations := bm_remove sender (tq_pending_trusted_confirmations q)\<rparr>;
             (r, counts) = confirmation_record (tq_trusted_confirmations q1) confirmation
         in (and_then r (\<lambda>_. Ok ()), q1\<lparr>tq_trusted_confirmations := counts\<rparr>))"

text \<open>A loop that stops at the first error and keeps the state it has reached.\<close>

fun each_until_error :: "('a \<Rightarrow> 's \<Rightarrow> unit result \<times> 's) \<Rightarrow> 'a list \<Rightarrow> 's \<Rightarrow> unit result \<times> 's" where
  "each_until_error f [] s = (Ok (), s)"
| "each_until_error f (x # xs) s = (case f x s of (Inl e, s') \<Rightarrow> (Err e, s') | (Inr _, s') \<Rightarrow> each_until_error f xs s')"

definition activate_pending_trusted_messages :: "TempQuorum \<Rightarrow> unit result \<times> TempQuorum" where
  "activate_pending_trusted_messages q =
    (let acknowledgement_senders = map fst (filter (\<lambda>(_, a). trusted_candidate_blocks q (ta_body a) \<noteq> None)
           (bm_entries (tq_pending_trusted_acknowledgements q)))
     in case each_until_error activate_acknowledgement acknowledgement_senders q of
       (Inl e, q1) \<Rightarrow> (Err e, q1)
     | (Inr _, q1) \<Rightarrow>
         let confirmation_senders = map fst (filter (\<lambda>(_, c). trusted_candidate_blocks q1 (vf_body c) \<noteq> None)
               (bm_entries (tq_pending_trusted_confirmations q1)))
         in each_until_error activate_confirmation confirmation_senders q1)"


section \<open>Which blocks a round carries\<close>

abbreviation author :: "Block \<Rightarrow> PubKey" where
  "author b \<equiv> bb_validator (block_body b)"

text \<open>The hashes that a validator has blocks under in a list, and validators with more than one.\<close>

definition hashes_by :: "(HashType \<times> Block) list \<Rightarrow> PubKey \<Rightarrow> HashType set" where
  "hashes_by bs v = {h. \<exists>b. (h, b) \<in> set bs \<and> author b = v}"

definition equivocated :: "(HashType \<times> Block) list \<Rightarrow> PubKey \<Rightarrow> bool" where
  "equivocated bs v \<longleftrightarrow> (\<exists>h \<in> hashes_by bs v. \<exists>h' \<in> hashes_by bs v. h \<noteq> h')"

text \<open>A hash names the block of one validator.\<close>

definition hashes_name_authors :: "(HashType \<times> Block) list \<Rightarrow> bool" where
  "hashes_name_authors bs \<longleftrightarrow> (\<forall>h b b'. (h, b) \<in> set bs \<longrightarrow> (h, b') \<in> set bs \<longrightarrow> author b = author b')"

definition blocks_ok :: "(HashType \<times> Block) list \<Rightarrow> TempQuorum \<Rightarrow> bool" where
  "blocks_ok bs q \<longleftrightarrow> (\<forall>v. bm_contains (tq_equivocating_validators q) v \<longleftrightarrow> equivocated bs v)
    \<and> (\<forall>h. bm_get (tq_verified_blocks q) h
        = (case map_of bs h of None \<Rightarrow> None | Some b \<Rightarrow> if equivocated bs (author b) then None else Some b))"

lemma find_entry_Some:
  "List.find P (bm_entries m) = Some (h, b) \<Longrightarrow> bm_get m h = Some b \<and> P (h, b)"
  by (auto simp: find_Some_iff bm_get_Some_iff in_set_conv_nth)

lemma find_entry_None: "List.find P (bm_entries m) = None \<longleftrightarrow> (\<forall>h b. bm_get m h = Some b \<longrightarrow> \<not> P (h, b))"
  by (auto simp: find_None_iff bm_get_Some_iff)

lemma blocks_ok_single:
  assumes "blocks_ok bs q" "bm_get (tq_verified_blocks q) h = Some b" "bm_get (tq_verified_blocks q) h' = Some b'" "author b = author b'"
  shows "h = h'"
proof -
  have "map_of bs h = Some b" "map_of bs h' = Some b'" "\<not> equivocated bs (author b)"
    using assms by (auto simp: blocks_ok_def split: option.splits if_splits)
  then show ?thesis using assms(4) by (auto simp: equivocated_def hashes_by_def dest!: map_of_SomeD)
qed

lemma equivocated_snoc:
  "equivocated (bs @ [(h, b)]) v \<longleftrightarrow> equivocated bs v \<or> (author b = v \<and> (\<exists>h' \<in> hashes_by bs v. h' \<noteq> h))"
  unfolding equivocated_def hashes_by_def by auto

lemma blocks_ok_get:
  assumes "blocks_ok bs q" "hashes_name_authors bs" "h \<in> hashes_by bs v" "\<not> equivocated bs v"
  shows "\<exists>b. bm_get (tq_verified_blocks q) h = Some b \<and> author b = v"
proof -
  obtain b where b: "(h, b) \<in> set bs" "author b = v" using assms(3) by (auto simp: hashes_by_def)
  then obtain b' where b': "map_of bs h = Some b'" by (metis map_of_eq_None_iff not_None_eq image_eqI fst_conv)
  then have "author b' = v" using b assms(2) map_of_SomeD unfolding hashes_name_authors_def by metis
  then show ?thesis using b' assms(1,4) by (simp add: blocks_ok_def)
qed

lemma blocks_ok_from_get:
  assumes "blocks_ok bs q" "bm_get (tq_verified_blocks q) h = Some b"
  shows "map_of bs h = Some b" "h \<in> hashes_by bs (author b)" "\<not> equivocated bs (author b)"
  using assms by (auto simp: blocks_ok_def hashes_by_def split: option.splits if_splits dest!: map_of_SomeD)

lemma map_of_snoc: "map_of (bs @ [(h, b)]) k = (case map_of bs k of None \<Rightarrow> if k = h then Some b else None | Some c \<Rightarrow> Some c)"
  by (simp add: map_add_def split: option.splits)

lemma record_blocks_ok:
  assumes ok: "blocks_ok bs q" and names: "hashes_name_authors (bs @ [(h, b)])"
  shows "blocks_ok (bs @ [(h, b)]) (snd (record_verified_block h b q))"
proof -
  have names': "hashes_name_authors bs" using names unfolding hashes_name_authors_def set_append by blast
  have named: "map_of bs h = Some b' \<Longrightarrow> author b' = author b" for b'
    using names map_of_SomeD [of bs h b'] unfolding hashes_name_authors_def set_append list.set by blast
  have eq: "bm_contains (tq_equivocating_validators q) v \<longleftrightarrow> equivocated bs v" for v using ok by (simp add: blocks_ok_def)
  note get = ok [unfolded blocks_ok_def, THEN conjunct2, rule_format]
  let ?find = "List.find (\<lambda>(existing_hash, existing). author existing = author b \<and> existing_hash \<noteq> h) (bm_entries (tq_verified_blocks q))"
  consider (known) "equivocated bs (author b)" | (again) b' where "\<not> equivocated bs (author b)" "bm_get (tq_verified_blocks q) h = Some b'"
    | (conflict) h' b' where "\<not> equivocated bs (author b)" "bm_get (tq_verified_blocks q) h = None" "?find = Some (h', b')"
    | (fresh) "\<not> equivocated bs (author b)" "bm_get (tq_verified_blocks q) h = None" "?find = None"
    by (cases "equivocated bs (author b)"; cases "bm_get (tq_verified_blocks q) h"; cases ?find) auto
  then show ?thesis
  proof cases
    case known
    then have q: "snd (record_verified_block h b q) = q" using eq by (simp add: record_verified_block_def)
    have new: "equivocated (bs @ [(h, b)]) v \<longleftrightarrow> equivocated bs v" for v using known by (auto simp: equivocated_snoc)
    have "bm_get (tq_verified_blocks q) k = (case map_of (bs @ [(h, b)]) k of None \<Rightarrow> None
        | Some c \<Rightarrow> if equivocated bs (author c) then None else Some c)" for k
      using get [of k] known unfolding map_of_snoc by (auto split: option.splits)
    then show ?thesis unfolding blocks_ok_def q new using eq by blast
  next
    case again
    then have q: "snd (record_verified_block h b q) = q" using eq by (simp add: record_verified_block_def bm_contains_def)
    have h: "map_of bs h = Some b'" "author b' = author b"
      using blocks_ok_from_get(1) [OF ok again(2)] named by auto
    have "h'' = h" if "h'' \<in> hashes_by bs (author b)" for h''
      using that again(1) blocks_ok_from_get(2) [OF ok again(2)] h(2) by (auto simp: equivocated_def)
    then have new: "equivocated (bs @ [(h, b)]) v \<longleftrightarrow> equivocated bs v" for v by (auto simp: equivocated_snoc)
    have "map_of (bs @ [(h, b)]) k = map_of bs k" for k using h(1) unfolding map_of_snoc by (auto split: option.splits)
    then show ?thesis using ok unfolding q blocks_ok_def new by simp
  next
    case conflict
    have h': "bm_get (tq_verified_blocks q) h' = Some b'" "author b' = author b" "h' \<noteq> h"
      using find_entry_Some [OF conflict(3)] by auto
    have new: "equivocated (bs @ [(h, b)]) v \<longleftrightarrow> equivocated bs v \<or> v = author b" for v
      using blocks_ok_from_get(2) [OF ok h'(1)] h'(2,3) by (auto simp: equivocated_snoc)
    have only: "k = h'" if "map_of bs k = Some c" "author c = author b" for k c
    proof -
      have "k \<in> hashes_by bs (author b)" using that map_of_SomeD [OF that(1)] by (auto simp: hashes_by_def)
      then show ?thesis using conflict(1) blocks_ok_from_get(2) [OF ok h'(1)] h'(2) by (auto simp: equivocated_def)
    qed
    have none: "map_of bs h = None" using only named h'(3) by (cases "map_of bs h") auto
    have q': "tq_verified_blocks (snd (record_verified_block h b q)) = bm_remove h' (tq_verified_blocks q)"
      "tq_equivocating_validators (snd (record_verified_block h b q)) = bm_insert (author b) () (tq_equivocating_validators q)"
      unfolding record_verified_block_def Let_def using conflict eq by (simp_all add: bm_contains_def)
    have "bm_get (bm_remove h' (tq_verified_blocks q)) k = (case map_of (bs @ [(h, b)]) k of None \<Rightarrow> None
        | Some c \<Rightarrow> if equivocated bs (author c) \<or> author c = author b then None else Some c)" for k
    proof (cases "map_of bs k")
      case None
      then show ?thesis using get [of k] unfolding map_of_snoc by simp
    next
      case (Some c)
      then show ?thesis
        using get [of k] only [OF Some] blocks_ok_from_get(1) [OF ok h'(1)] h'(2) unfolding map_of_snoc by auto
    qed
    then show ?thesis unfolding blocks_ok_def q' new bm_contains_insert using eq by blast
  next
    case fresh
    have only: "k = h" if "k \<in> hashes_by bs (author b)" for k
      using blocks_ok_get [OF ok names' that fresh(1)] fresh(3) by (auto simp: find_entry_None)
    have none: "map_of bs h = None" using get [of h] fresh(1,2) named by (auto split: option.splits)
    have new: "equivocated (bs @ [(h, b)]) v \<longleftrightarrow> equivocated bs v" for v using only by (auto simp: equivocated_snoc)
    have q': "tq_verified_blocks (snd (record_verified_block h b q)) = bm_insert h b (tq_verified_blocks q)"
      "tq_equivocating_validators (snd (record_verified_block h b q)) = tq_equivocating_validators q"
      unfolding record_verified_block_def Let_def using fresh eq by (simp_all add: bm_contains_def)
    have "bm_get (bm_insert h b (tq_verified_blocks q)) k = (case map_of (bs @ [(h, b)]) k of None \<Rightarrow> None
        | Some c \<Rightarrow> if equivocated bs (author c) then None else Some c)" for k
      using get [of k] none fresh(1) unfolding map_of_snoc by (auto split: option.splits)
    then show ?thesis unfolding blocks_ok_def q' new using eq by blast
  qed
qed


lemma fold_distinct_authors:
  assumes "distinct (map (\<lambda>e. author (snd e)) es)" "\<forall>e\<in>set es. \<not> bm_contains first (author (snd e))"
  shows "snd (fold (\<lambda>(hash, block) (first_hash_by_validator, equivocating).
      let validator = author block in
      (bm_insert validator hash first_hash_by_validator,
       case bm_get first_hash_by_validator validator of
         Some existing_hash \<Rightarrow> if existing_hash \<noteq> hash then bm_insert validator () equivocating else equivocating
       | None \<Rightarrow> equivocating)) es (first, eqs)) = eqs"
  using assms
proof (induction es arbitrary: first)
  case (Cons e es)
  then have "bm_get first (author (snd e)) = None" by (simp add: bm_contains_def)
  moreover have "\<forall>d\<in>set es. \<not> bm_contains (bm_insert (author (snd e)) (fst e) first) (author (snd d))"
    using Cons.prems by (auto simp: image_iff)
  ultimately show ?case using Cons by (simp add: case_prod_beta Let_def)
qed simp

lemma canonical_of_ok:
  assumes "blocks_ok bs q"
  shows "canonical_verified_blocks q = tq_verified_blocks q"
proof -
  let ?es = "bm_entries (tq_verified_blocks q)"
  have same: "e = d" if "e \<in> set ?es" "d \<in> set ?es" "author (snd e) = author (snd d)" for e d
  proof -
    have get: "bm_get (tq_verified_blocks q) (fst e) = Some (snd e)" "bm_get (tq_verified_blocks q) (fst d) = Some (snd d)"
      using that(1,2) by (simp_all add: bm_get_Some_iff)
    have "fst e = fst d" by (rule blocks_ok_single [OF assms get that(3)])
    then show ?thesis using get by (simp add: prod_eq_iff)
  qed
  have "distinct (map fst ?es)" by (metis bm_keys_def distinct_bm_keys)
  then have "distinct ?es" by (simp add: distinct_map)
  then have "distinct (map (\<lambda>e. author (snd e)) ?es)"
    unfolding distinct_map inj_on_def using same by blast
  then have eq: "equivocators q = tq_equivocating_validators q"
    unfolding equivocators_def by (rule fold_distinct_authors) simp
  have "\<not> bm_contains (tq_equivocating_validators q) (author b)" if "bm_get (tq_verified_blocks q) h = Some b" for h b
    using blocks_ok_from_get(3) [OF assms that] assms by (simp add: blocks_ok_def)
  then show ?thesis
    unfolding canonical_verified_blocks_def eq by (intro bm_eqI) (auto split: option.splits)
qed

lemma record_blocks_snoc: "record_blocks (bs @ [(h, b)]) q = snd (record_verified_block h b (record_blocks bs q))"
  by (simp add: record_blocks_def)

lemma record_blocks_all_ok:
  assumes "hashes_name_authors bs" "tq_verified_blocks q = bm_empty" "tq_equivocating_validators q = bm_empty"
  shows "blocks_ok bs (record_blocks bs q)"
  using assms(1)
proof (induction bs rule: rev_induct)
  case Nil
  then show ?case using assms(2,3) by (simp add: blocks_ok_def record_blocks_def equivocated_def hashes_by_def)
next
  case (snoc e bs)
  obtain h b where e: "e = (h, b)" by (cases e)
  have "hashes_name_authors bs" using snoc.prems unfolding hashes_name_authors_def set_append by blast
  then show ?case using record_blocks_ok [OF snoc.IH] snoc.prems by (simp add: e record_blocks_snoc)
qed


definition authored :: "256 word \<Rightarrow> Block" where
  "authored v = \<lparr>block_hash = HashType 1, block_signature = Signature 8,
    block_body = \<lparr>bb_validator = PubKey v, bb_last_epoch = HashType 3, bb_nonce = 4, bb_created = 9, bb_dispatched = 10,
      bb_merkle_root = HashType 1, bb_application_state = [], bb_encounter_records = [], bb_node_admissions = [],
      bb_txs = []\<rparr>\<rparr>"


end
