(* ===== verification/State.thy ===== *)
theory State
  imports Actions Epochs Quorum
begin

text \<open>
  \<open>src/src/state.rs\<close>: the local state of a node, that is its chain of epochs and the transient state of the
  epochs in progress. \<open>get_mut_consensus\<close> and \<open>get_mut_quorum\<close>, which create the state they hand out, are the
  operations \<open>on_consensus\<close> and \<open>on_quorum\<close> that run an operation on it; their panic on the default hash is the
  outcome \<open>Panicked\<close>. The lemmas show that the chain only grows, by certified epochs when the node verifies, and that the
  state of the epoch in progress survives until the chain grows.
\<close>

section \<open>The local state\<close>

record PrefillDispatchRecord =
  pf_sender :: PubKey
  pf_round :: u8
  pf_blocks_hash :: HashType
  pf_blocks :: block_map

type_synonym EpochNonce = "HashType \<times> Nonce"

record 'm LocalState =
  lst_self_node :: NodeIdentity
  lst_epochchain :: "'m Epoch list"
  lst_consensus :: "(EpochNonce, TempConsensus) btree_map"
  lst_prefill_dispatches :: "(EpochNonce, (PubKey, PrefillDispatchRecord) btree_map) btree_map"
  lst_removal_policy :: ConsensusNodeRemovalPolicy

definition local_state_new :: "NodeIdentity \<Rightarrow> 'm Epoch \<Rightarrow> ConsensusNodeRemovalPolicy \<Rightarrow> 'm LocalState" where
  "local_state_new self_node genesis policy = \<lparr>lst_self_node = self_node, lst_epochchain = [genesis],
    lst_consensus = bm_empty, lst_prefill_dispatches = bm_empty, lst_removal_policy = policy\<rparr>"

definition last_opt :: "'a list \<Rightarrow> 'a option" where
  "last_opt xs = (if xs = [] then None else Some (last xs))"

definition chain_tip :: "'m LocalState \<Rightarrow> 'm Epoch option" where
  "chain_tip s = last_opt (lst_epochchain s)"

definition get_consensus :: "HashType \<Rightarrow> Nonce \<Rightarrow> 'm LocalState \<Rightarrow> TempConsensus option" where
  "get_consensus epoch nonce s = bm_get (lst_consensus s) (epoch, nonce)"

definition get_quorum :: "HashType \<Rightarrow> Nonce \<Rightarrow> u8 \<Rightarrow> 'm LocalState \<Rightarrow> TempQuorum option" where
  "get_quorum epoch nonce round s = Option.bind (get_consensus epoch nonce s) (\<lambda>c. bm_get (tc_quorum c) round)"

definition peers_in_consensus :: "('m, 'k) node_env \<Rightarrow> 'm LocalState \<Rightarrow> HashType \<Rightarrow> (PubKey, NodeType) btree_map list" where
  "peers_in_consensus N s epoch_hash =
    (case chain_tip s of
       None \<Rightarrow> []
     | Some last_epoch \<Rightarrow>
         let self_key = ni_public_key (lst_self_node s);
             peer_rounds = select_quorums_from_index_tree_with_size (ne_tree N) (epb_verifiers (ep_body last_epoch)) self_key
               epoch_hash (ni_shuffle (lst_self_node s)) (cp_quorum_size (effective_consensus_parameters (ep_body last_epoch)))
         in map (\<lambda>round. bm_of_list (map (\<lambda>peer. (peer, Validator)) (filter (\<lambda>peer. peer \<noteq> self_key) round))) peer_rounds)"

definition put_consensus :: "EpochNonce \<Rightarrow> TempConsensus \<Rightarrow> 'm LocalState \<Rightarrow> 'm LocalState" where
  "put_consensus key c s = s\<lparr>lst_consensus := bm_insert key c (lst_consensus s)\<rparr>"

definition touch_consensus :: "('m, 'k) node_env \<Rightarrow> HashType \<Rightarrow> Nonce \<Rightarrow> ('m LocalState, unit) action" where
  "touch_consensus N epoch nonce =
    (if epoch = default_hash \<and> unat nonce > 1 then panic
     else update (\<lambda>s. if bm_contains (lst_consensus s) (epoch, nonce) then s
       else put_consensus (epoch, nonce) (init_consensus (peers_in_consensus N s epoch) (ni_public_key (lst_self_node s))) s))"

definition on_consensus ::
  "('m, 'k) node_env \<Rightarrow> HashType \<Rightarrow> Nonce \<Rightarrow> (TempConsensus, 'a) action \<Rightarrow> ('m LocalState, 'a) action" where
  "on_consensus N epoch nonce m =
    seq (touch_consensus N epoch nonce) (\<lambda>_.
      within (\<lambda>s. the (get_consensus epoch nonce s)) (put_consensus (epoch, nonce)) m)"

definition put_quorum :: "u8 \<Rightarrow> TempQuorum \<Rightarrow> TempConsensus \<Rightarrow> TempConsensus" where
  "put_quorum round q c = c\<lparr>tc_quorum := bm_insert round q (tc_quorum c)\<rparr>"

definition touch_quorum :: "u8 \<Rightarrow> TempConsensus \<Rightarrow> TempConsensus" where
  "touch_quorum round c =
    (if bm_contains (tc_quorum c) round then c
     else let peers = peers_with_us c round
          in put_quorum round (init_quorum (u32_of_usize (length peers)) peers (tc_self_key c)) c)"

definition on_quorum ::
  "('m, 'k) node_env \<Rightarrow> HashType \<Rightarrow> Nonce \<Rightarrow> u8 \<Rightarrow> (TempQuorum, 'a) action \<Rightarrow> ('m LocalState, 'a) action" where
  "on_quorum N epoch nonce round m =
    on_consensus N epoch nonce (seq (update (touch_quorum round)) (\<lambda>_.
      within (\<lambda>c. the (bm_get (tc_quorum c) round)) (put_quorum round) m))"


section \<open>Prefill dispatches\<close>

definition record_prefill_dispatch :: "Dispatch \<Rightarrow> 'm LocalState \<Rightarrow> usize result \<times> 'm LocalState" where
  "record_prefill_dispatch dispatch s =
    (let header = di_header dispatch; body = di_body dispatch; key = (hd_last_epoch header, hd_nonce header);
         records = unwrap_or (bm_get (lst_prefill_dispatches s) key) bm_empty;
         put = (\<lambda>records. s\<lparr>lst_prefill_dispatches := bm_insert key records (lst_prefill_dispatches s)\<rparr>)
     in case bm_get records (hd_sender header) of
       Some existing \<Rightarrow> if pf_blocks_hash existing = db_blocks_hash body then (Ok (bm_len (pf_blocks existing)), put records)
         else (Err WireProtocol, put records)
     | None \<Rightarrow> (Ok (bm_len (db_blocks body)), put (bm_insert (hd_sender header)
         \<lparr>pf_sender = hd_sender header, pf_round = hd_round header, pf_blocks_hash = db_blocks_hash body,
          pf_blocks = db_blocks body\<rparr> records)))"

definition prefill_dispatches :: "HashType \<Rightarrow> Nonce \<Rightarrow> 'm LocalState \<Rightarrow> (PubKey, PrefillDispatchRecord) btree_map option" where
  "prefill_dispatches epoch nonce s = bm_get (lst_prefill_dispatches s) (epoch, nonce)"

text \<open>Recording blocks while counting those that are new.\<close>

definition record_counting :: "(HashType \<times> Block) list \<Rightarrow> TempQuorum \<Rightarrow> usize \<times> TempQuorum" where
  "record_counting blocks q =
    fold (\<lambda>(hash, block) (inserted, q). case record_verified_block hash block q of
        (new, q') \<Rightarrow> (if new then inserted + 1 else inserted, q')) blocks (0, q)"

definition prefill_blocks :: "HashType \<Rightarrow> Nonce \<Rightarrow> (PubKey, PrefillDispatchRecord) btree_map \<Rightarrow> (HashType \<times> Block) list" where
  "prefill_blocks epoch nonce records =
    filter (\<lambda>(hash, block). bb_last_epoch (block_body block) = epoch \<and> bb_nonce (block_body block) = nonce)
      (concat (map (\<lambda>record. bm_entries (pf_blocks record)) (bm_values records)))"

definition seed_prefill_dispatches_into_quorum ::
  "('m, 'k) node_env \<Rightarrow> HashType \<Rightarrow> Nonce \<Rightarrow> u8 \<Rightarrow> ('m LocalState, usize) action" where
  "seed_prefill_dispatches_into_quorum N epoch nonce round =
    (if round = 0 then ret 0
     else seq (asks (prefill_dispatches epoch nonce)) (\<lambda>records.
       case records of
         None \<Rightarrow> ret 0
       | Some records \<Rightarrow>
           on_quorum N epoch nonce round (\<lambda>q.
             case record_counting (prefill_blocks epoch nonce records) q of (inserted, q') \<Rightarrow>
               (Done inserted, if inserted > 0 then refresh_verified_blocks_hash (ne_crypto N) q' else q'))))"


section \<open>Advancing the epoch\<close>

definition enter_next_round :: "crypto \<Rightarrow> u8 \<Rightarrow> block_map \<Rightarrow> TempConsensus \<Rightarrow> TempConsensus" where
  "enter_next_round E next_round carried_blocks c =
    (let c' = touch_quorum next_round c;
         q = refresh_verified_blocks_hash E (record_blocks (bm_entries carried_blocks) (the (bm_get (tc_quorum c') next_round)))
     in (put_quorum next_round q c')\<lparr>tc_round := next_round\<rparr>)"

definition certificate_shares ::
  "('m, 'k) node_env \<Rightarrow> 'm Epoch \<Rightarrow> TempQuorum \<Rightarrow> (usize, Signature) btree_map" where
  "certificate_shares N last_epoch q =
    fold (\<lambda>(validator, signature) shares.
      case it_get_index_from_key (ne_tree N) (epb_verifiers (ep_body last_epoch)) validator of
        Some index \<Rightarrow> bm_insert index signature shares
      | None \<Rightarrow> shares) (bm_entries (tq_epoch_signatures q)) bm_empty"

definition empty_successor :: "('m, 'k) node_env \<Rightarrow> 'm Epoch \<Rightarrow> 'm Epoch" where
  "empty_successor N last_epoch =
    (let body = ep_body last_epoch in
     \<lparr>ep_hash = default_hash, ep_signatures = bm_empty,
      ep_body = \<lparr>epb_group_id = epb_group_id body, epb_members = epb_members body, epb_verifiers = epb_verifiers body,
        epb_last_epoch = ep_hash last_epoch, epb_previous_nonce = Some (epb_nonce body), epb_nonce = new_next (epb_nonce body),
        epb_merkle_root = default_hash, epb_blocks = bm_empty,
        epb_consensus_parameters = Some (effective_consensus_parameters body)\<rparr>\<rparr>)"

definition push_epoch :: "'m Epoch \<Rightarrow> 'm LocalState \<Rightarrow> 'm LocalState" where
  "push_epoch epoch s = s\<lparr>
    lst_consensus := bm_retain (\<lambda>(_, nonce) _. nonce + 1 \<ge> epb_nonce (ep_body epoch)) (lst_consensus s),
    lst_epochchain := lst_epochchain s @ [epoch]\<rparr>"

definition commit_epoch ::
  "('m, 'k) node_env \<Rightarrow> 'm Epoch \<Rightarrow> TempConsensus \<Rightarrow> u8 \<Rightarrow> bool \<Rightarrow> ('m LocalState, bool) action" where
  "commit_epoch N last_epoch c round consensus =
    (if \<not> consensus then seq (update (push_epoch (set_hash N (empty_successor N last_epoch)))) (\<lambda>_. ret True)
     else case bm_get (tc_quorum c) round of
       None \<Rightarrow> panic
     | Some q \<Rightarrow>
         seq (asks lst_removal_policy) (\<lambda>policy.
           let new_epoch = (set_hash N (build_verified_epoch N last_epoch (canonical_verified_blocks q) policy))
                 \<lparr>ep_signatures := certificate_shares N last_epoch q\<rparr>
           in if is_ok (verify_certificate N new_epoch last_epoch)
              then seq (update (push_epoch new_epoch)) (\<lambda>_. ret True)
              else ret False))"

definition advance_epoch ::
  "('m, 'k) node_env \<Rightarrow> HashType \<Rightarrow> Nonce \<Rightarrow> u8 \<Rightarrow> bool \<Rightarrow> ('m LocalState, bool) action" where
  "advance_epoch N proposed_last_epoch_hash proposed_new_epoch_nonce current_round consensus =
    seq (asks (\<lambda>s. (chain_tip s, get_consensus proposed_last_epoch_hash proposed_new_epoch_nonce s))) (\<lambda>(tip, current).
      case tip of
        None \<Rightarrow> ret False
      | Some last_epoch \<Rightarrow>
          if ep_hash last_epoch \<noteq> proposed_last_epoch_hash
             \<or> new_next (epb_nonce (ep_body last_epoch)) \<noteq> proposed_new_epoch_nonce then ret False
          else case current of
            None \<Rightarrow> ret False
          | Some c0 \<Rightarrow>
              let key = (proposed_last_epoch_hash, proposed_new_epoch_nonce);
                  c = (case bm_get (tc_quorum c0) current_round of
                      Some q \<Rightarrow> if \<not> consensus then put_quorum current_round (clear_verified_blocks q) c0 else c0
                    | None \<Rightarrow> c0)
              in if length (tc_peers c) > unat current_round + 1
                 then let carried_blocks = (case bm_get (tc_quorum c) current_round of
                        Some q \<Rightarrow> canonical_verified_blocks q | None \<Rightarrow> bm_empty)
                      in seq (update (put_consensus key (enter_next_round (ne_crypto N) (current_round + 1) carried_blocks c)))
                           (\<lambda>_. ret True)
                 else seq (update (put_consensus key c)) (\<lambda>_. commit_epoch N last_epoch c current_round consensus))"

text \<open>The target of the epoch in progress: its parent is the tip, its nonce the next one.\<close>

definition at_target :: "HashType \<Rightarrow> Nonce \<Rightarrow> 'm LocalState \<Rightarrow> 'm Epoch result" where
  "at_target last_epoch nonce s =
    and_then (ok_or (chain_tip s) EmptyEpochChain) (\<lambda>tip.
      if ep_hash tip \<noteq> last_epoch \<or> new_next (epb_nonce (ep_body tip)) \<noteq> nonce then Err InvalidEpochNonce else Ok tip)"

definition prepare_verified_epoch ::
  "('m, 'k) node_env \<Rightarrow> HashType \<Rightarrow> Nonce \<Rightarrow> u8 \<Rightarrow> 'm LocalState \<Rightarrow> 'm Epoch option result" where
  "prepare_verified_epoch N last_epoch nonce current_round s =
    and_then (at_target last_epoch nonce s) (\<lambda>previous.
      and_then (ok_or (get_consensus last_epoch nonce s) FailedConsensus) (\<lambda>consensus.
        if length (tc_peers consensus) > unat current_round + 1 then Ok None
        else and_then (ok_or (bm_get (tc_quorum consensus) current_round) FailedConsensus) (\<lambda>q.
          Ok (Some (set_hash N (build_verified_epoch N previous (canonical_verified_blocks q) (lst_removal_policy s)))))))"

definition confirmed_body :: "crypto \<Rightarrow> hash_set \<Rightarrow> VerificationBody" where
  "confirmed_body E confirmed_blocks = \<lparr>vb_blocks_hash = map_hash E confirmed_blocks, vb_blocks = confirmed_blocks\<rparr>"

definition prepare_trusted_epoch ::
  "('m, 'k) node_env \<Rightarrow> HashType \<Rightarrow> Nonce \<Rightarrow> u8 \<Rightarrow> hash_set \<Rightarrow> 'm LocalState \<Rightarrow> 'm Epoch result" where
  "prepare_trusted_epoch N last_epoch nonce current_round confirmed_blocks s =
    and_then (at_target last_epoch nonce s) (\<lambda>previous.
      and_then (ok_or (get_consensus last_epoch nonce s) FailedConsensus) (\<lambda>consensus.
        if length (tc_peers consensus) > unat current_round + 1 then Err FailedConsensus
        else and_then (ok_or (bm_get (tc_quorum consensus) current_round) FailedConsensus) (\<lambda>q.
          and_then (ok_or (trusted_candidate_blocks q (confirmed_body (ne_crypto N) confirmed_blocks)) InvalidConfiguration) (\<lambda>blocks.
            Ok (set_hash N (build_verified_epoch N previous blocks (lst_removal_policy s)))))))"

definition advance_trusted_round ::
  "('m, 'k) node_env \<Rightarrow> HashType \<Rightarrow> Nonce \<Rightarrow> u8 \<Rightarrow> hash_set \<Rightarrow> ('m LocalState, bool) action" where
  "advance_trusted_round N last_epoch nonce current_round confirmed_blocks =
    seq (asks_result (at_target last_epoch nonce)) (\<lambda>_.
      seq (asks_result (\<lambda>s. ok_or (get_consensus last_epoch nonce s) FailedConsensus)) (\<lambda>c.
        if length (tc_peers c) \<le> unat current_round + 1 then ret False
        else seq (expect (bm_get (tc_quorum c) current_round) FailedConsensus) (\<lambda>current.
          seq (expect (trusted_candidate_blocks current (confirmed_body (ne_crypto N) confirmed_blocks)) InvalidConfiguration)
            (\<lambda>carried_blocks.
              if current_round = - 1 then fail InvalidConfiguration
              else seq (update (put_consensus (last_epoch, nonce)
                     (enter_next_round (ne_crypto N) (current_round + 1) carried_blocks c))) (\<lambda>_. ret True)))))"

definition install_trusted_epoch :: "('m, 'k) node_env \<Rightarrow> 'm Epoch \<Rightarrow> ('m LocalState, bool) action" where
  "install_trusted_epoch N epoch =
    seq (asks_result (\<lambda>s. ok_or (chain_tip s) EmptyEpochChain)) (\<lambda>current.
      if epb_last_epoch (ep_body epoch) \<noteq> ep_hash current
         \<or> epb_previous_nonce (ep_body epoch) \<noteq> Some (epb_nonce (ep_body current))
         \<or> epb_nonce (ep_body epoch) \<noteq> new_next (epb_nonce (ep_body current))
         \<or> ep_hash epoch \<noteq> epoch_body_hash N (ep_body epoch)
      then fail InvalidConfiguration
      else seq (update (push_epoch epoch)) (\<lambda>_. ret True))"


section \<open>Accepting dispatches\<close>

definition verify_header :: "('m, 'k) node_env \<Rightarrow> Header \<Rightarrow> ('m LocalState, bool) action" where
  "verify_header N header =
    on_consensus N (hd_last_epoch header) (hd_nonce header) (asks (\<lambda>c. is_peer_member_of_round c (hd_sender header) (hd_round header)))"

definition received_dispatch :: "PubKey \<Rightarrow> Signature \<times> HashType \<Rightarrow> TempQuorum \<Rightarrow> TempQuorum" where
  "received_dispatch sender identity q =
    q\<lparr>tq_received_dispatch_identities := bm_insert sender identity (tq_received_dispatch_identities q),
      tq_received_dispatches := tq_received_dispatches q @ [sender]\<rparr>"

definition try_accept_into_state :: "('m, 'k) node_env \<Rightarrow> Dispatch \<Rightarrow> ('m LocalState, unit) action" where
  "try_accept_into_state N dispatch =
    (let header = di_header dispatch; sender = hd_sender header;
         identity = (hd_signature header, db_blocks_hash (di_body dispatch))
     in on_quorum N (hd_last_epoch header) (hd_nonce header) (hd_round header)
       (seq (asks (\<lambda>q. bm_get (tq_received_dispatch_identities q) sender)) (\<lambda>recorded.
         case recorded of
           Some known \<Rightarrow> if known = identity then ret () else fail WireProtocol
         | None \<Rightarrow>
             seq (run_result (try_push_pending_dispatch (Decoded dispatch) (ne_max_pending_raw N) (ne_max_pending_raw_per_sender N)))
               (\<lambda>_. update (\<lambda>q. received_dispatch sender identity
                 (q\<lparr>tq_msg_matrix := snd (matrix_update (tq_msg_matrix q) True (MsgDispatch dispatch))\<rparr>))))))"



section \<open>The node's own votes\<close>

text \<open>The commit that the node itself cast in a round, with the topology it was cast in and the senders counted so far.\<close>

type_synonym consensus_vote = "(PubKey, NodeType) btree_map list \<times> PubKey set \<times> Commit"

definition consensus_vote :: "TempConsensus \<Rightarrow> u8 \<Rightarrow> consensus_vote option" where
  "consensus_vote c round = Option.bind (bm_get (tc_quorum c) round)
    (\<lambda>q. map_option (\<lambda>m. (tc_peers c, {v. bm_contains (tq_commit_senders q) v}, m)) (tq_local_commit q))"

fun same_vote :: "consensus_vote option \<Rightarrow> consensus_vote option \<Rightarrow> bool" where
  "same_vote None v' = (v' = None)"
| "same_vote (Some (peers, senders, m)) v' = (\<exists>senders'. v' = Some (peers, senders', m) \<and> senders \<subseteq> senders')"

lemma same_vote_refl: "same_vote v v"
  by (cases v) auto

lemma same_vote_trans: "same_vote u v \<Longrightarrow> same_vote v w \<Longrightarrow> same_vote u w"
  by (cases u) fastforce+

definition keeps_commits :: "TempQuorum \<Rightarrow> TempQuorum \<Rightarrow> bool" where
  "keeps_commits q q' \<longleftrightarrow> tq_local_commit q' = tq_local_commit q
    \<and> {v. bm_contains (tq_commit_senders q) v} \<subseteq> {v. bm_contains (tq_commit_senders q') v}"

definition keeps_votes :: "TempConsensus \<Rightarrow> TempConsensus \<Rightarrow> bool" where
  "keeps_votes c c' \<longleftrightarrow> (\<forall>round. same_vote (consensus_vote c round) (consensus_vote c' round))"

interpretation kq: progress "\<lambda>_. True" keeps_commits
  by unfold_locales (auto simp: keeps_commits_def)

interpretation kc: progress "\<lambda>_. True" keeps_votes
proof
  show "keeps_votes s s" for s by (simp add: keeps_votes_def same_vote_refl)
  show "keeps_votes s u" if "keeps_votes s t" "keeps_votes t u" for s t u
    using that same_vote_trans unfolding keeps_votes_def by blast
qed simp

lemma keeps_commits_same:
  "tq_local_commit q' = tq_local_commit q \<Longrightarrow> tq_commit_senders q' = tq_commit_senders q \<Longrightarrow> keeps_commits q q'"
  by (simp add: keeps_commits_def)

lemma consensus_vote_put:
  "consensus_vote (put_quorum round q c) round' =
    (if round' = round then map_option (\<lambda>m. (tc_peers c, {v. bm_contains (tq_commit_senders q) v}, m)) (tq_local_commit q)
     else consensus_vote c round')"
  by (simp add: consensus_vote_def put_quorum_def)

lemma consensus_vote_touch: "consensus_vote (touch_quorum round c) round' = consensus_vote c round'"
proof (cases "bm_contains (tc_quorum c) round")
  case False
  then have "consensus_vote c round = None" by (simp add: consensus_vote_def bm_contains_def)
  then show ?thesis using False by (simp add: touch_quorum_def consensus_vote_put Let_def init_quorum_def)
qed (simp add: touch_quorum_def)

lemma consensus_vote_same: "tc_peers c' = tc_peers c \<Longrightarrow> tc_quorum c' = tc_quorum c \<Longrightarrow> consensus_vote c' round = consensus_vote c round"
  by (simp add: consensus_vote_def)

lemma keeps_votes_same: "tc_peers c' = tc_peers c \<Longrightarrow> tc_quorum c' = tc_quorum c \<Longrightarrow> keeps_votes c c'"
  unfolding keeps_votes_def using consensus_vote_same [of c' c] by (simp add: same_vote_refl)

lemma keeps_votes_touch: "keeps_votes c (touch_quorum round c)"
  by (simp add: keeps_votes_def consensus_vote_touch same_vote_refl)

lemma keeps_votes_put:
  assumes "bm_get (tc_quorum c) round = Some q" "keeps_commits q q'"
  shows "keeps_votes c (put_quorum round q' c)"
proof -
  have "same_vote (consensus_vote c round) (consensus_vote (put_quorum round q' c) round)"
    using assms by (cases "tq_local_commit q") (auto simp: put_quorum_def consensus_vote_def keeps_commits_def)
  then show ?thesis by (simp add: keeps_votes_def consensus_vote_put same_vote_refl)
qed

lemma touched_quorum: "\<exists>q. bm_get (tc_quorum (touch_quorum round c)) round = Some q"
  by (auto simp: touch_quorum_def put_quorum_def Let_def bm_contains_def)

named_theorems commit_fields

lemma commit_fields_record [commit_fields]:
  "tq_commit_senders (snd (record_verified_block hash block q)) = tq_commit_senders q"
  "tq_local_commit (snd (record_verified_block hash block q)) = tq_local_commit q"
  by (auto simp: record_verified_block_def Let_def split: option.splits)

lemma commit_fields_blocks [commit_fields]:
  "tq_commit_senders (record_blocks blocks q) = tq_commit_senders q"
  "tq_local_commit (record_blocks blocks q) = tq_local_commit q"
  by (induction blocks rule: rev_induct) (auto simp: record_blocks_def commit_fields)

lemma commit_fields_hash [commit_fields]:
  "tq_commit_senders (refresh_verified_blocks_hash E q) = tq_commit_senders q"
  "tq_local_commit (refresh_verified_blocks_hash E q) = tq_local_commit q"
  "tq_commit_senders (clear_verified_blocks q) = tq_commit_senders q"
  "tq_local_commit (clear_verified_blocks q) = tq_local_commit q"
  by (simp_all add: refresh_verified_blocks_hash_def clear_verified_blocks_def)

lemma record_counting_snoc:
  "snd (record_counting (bs @ [(h, b)]) q) = snd (record_verified_block h b (snd (record_counting bs q)))"
  by (simp add: record_counting_def split: prod.splits)

lemma commit_fields_counting [commit_fields]:
  "tq_commit_senders (snd (record_counting blocks q)) = tq_commit_senders q
    \<and> tq_local_commit (snd (record_counting blocks q)) = tq_local_commit q"
proof (induction blocks rule: rev_induct)
  case (snoc b bs)
  then show ?case by (cases b) (simp add: record_counting_snoc commit_fields)
qed (simp add: record_counting_def)

lemma keeps_votes_next_round: "keeps_votes c (enter_next_round E next_round carried c)"
proof -
  obtain q where q: "bm_get (tc_quorum (touch_quorum next_round c)) next_round = Some q" using touched_quorum by blast
  let ?c = "put_quorum next_round (refresh_verified_blocks_hash E (record_blocks (bm_entries carried) q)) (touch_quorum next_round c)"
  have "keeps_votes (touch_quorum next_round c) ?c"
    using q by (intro keeps_votes_put keeps_commits_same) (simp_all add: commit_fields)
  then have "keeps_votes c ?c" using keeps_votes_touch kc.trans by blast
  moreover have "keeps_votes ?c (enter_next_round E next_round carried c)"
    using q by (intro keeps_votes_same) (simp_all add: enter_next_round_def Let_def)
  ultimately show ?thesis by (rule kc.trans)
qed


section \<open>The chain only grows\<close>

definition extends_by :: "('a \<Rightarrow> 'a \<Rightarrow> bool) \<Rightarrow> 'a list \<Rightarrow> 'a list \<Rightarrow> bool" where
  "extends_by L xs ys \<longleftrightarrow> (\<exists>ext. ys = xs @ ext \<and> (ext \<noteq> [] \<longrightarrow> xs \<noteq> [] \<and> successively L (last xs # ext)))"

lemma extends_by_refl: "extends_by L xs xs"
  by (simp add: extends_by_def)

lemma extends_by_trans:
  assumes "extends_by L xs ys" "extends_by L ys zs"
  shows "extends_by L xs zs"
proof -
  obtain e where e: "ys = xs @ e" "e \<noteq> [] \<longrightarrow> xs \<noteq> [] \<and> successively L (last xs # e)"
    using assms(1) unfolding extends_by_def by blast
  obtain f where f: "zs = ys @ f" "f \<noteq> [] \<longrightarrow> ys \<noteq> [] \<and> successively L (last ys # f)"
    using assms(2) unfolding extends_by_def by blast
  have "e @ f \<noteq> [] \<Longrightarrow> xs \<noteq> [] \<and> successively L (last xs # e @ f)"
    using e f by (cases "e = []"; cases f)
      (auto simp: successively_append_iff successively_Cons simp flip: append_Cons)
  then show ?thesis using e(1) f(1) by (auto simp: extends_by_def)
qed

lemma extends_by_antisym: "extends_by L xs ys \<Longrightarrow> extends_by L ys xs \<Longrightarrow> ys = xs"
  by (auto simp: extends_by_def)

lemma extends_by_snoc: "xs \<noteq> [] \<Longrightarrow> L (last xs) x \<Longrightarrow> extends_by L xs (xs @ [x])"
  by (auto simp: extends_by_def)

text \<open>The relation between a local state and its later states: the chain grows by linked epochs, no vote of the node
  appears, and until the chain grows every vote is kept.\<close>

definition node_vote :: "'m LocalState \<Rightarrow> EpochNonce \<Rightarrow> u8 \<Rightarrow> consensus_vote option" where
  "node_vote s key round = Option.bind (bm_get (lst_consensus s) key) (\<lambda>c. consensus_vote c round)"

definition grows :: "('m Epoch \<Rightarrow> 'm Epoch \<Rightarrow> bool) \<Rightarrow> 'm LocalState \<Rightarrow> 'm LocalState \<Rightarrow> bool" where
  "grows L s t \<longleftrightarrow> lst_self_node t = lst_self_node s \<and> lst_removal_policy t = lst_removal_policy s
    \<and> extends_by L (lst_epochchain s) (lst_epochchain t)
    \<and> (\<forall>key round. lst_epochchain t = lst_epochchain s \<or> node_vote t key round \<noteq> None
        \<longrightarrow> same_vote (node_vote s key round) (node_vote t key round))"

lemma growsD:
  assumes "grows L s t"
  shows "lst_self_node t = lst_self_node s" "lst_removal_policy t = lst_removal_policy s"
    "extends_by L (lst_epochchain s) (lst_epochchain t)"
    "lst_epochchain t = lst_epochchain s \<Longrightarrow> same_vote (node_vote s key round) (node_vote t key round)"
    "node_vote t key round \<noteq> None \<Longrightarrow> same_vote (node_vote s key round) (node_vote t key round)"
  using assms unfolding grows_def by blast+

lemma same_vote_None: "same_vote u None \<longleftrightarrow> u = None"
  by (cases u) auto

interpretation gr: progress "\<lambda>_. True" "grows L" for L
proof
  show "grows L s s" for s by (simp add: grows_def extends_by_refl same_vote_refl)
  show "grows L s u" if st: "grows L s t" and tu: "grows L t u" for s t u
  proof -
    have "same_vote (node_vote s key round) (node_vote u key round)"
      if "lst_epochchain u = lst_epochchain s \<or> node_vote u key round \<noteq> None" for key round
    proof (cases "node_vote u key round = None")
      case True
      then have "lst_epochchain u = lst_epochchain s" using that by blast
      then have "lst_epochchain t = lst_epochchain s" "lst_epochchain u = lst_epochchain t"
        using extends_by_antisym [OF growsD(3) [OF st]] growsD(3) [OF tu] by simp_all
      then show ?thesis using growsD(4) [OF st] growsD(4) [OF tu] same_vote_trans by blast
    next
      case False
      then have ut: "same_vote (node_vote t key round) (node_vote u key round)" using growsD(5) [OF tu] by blast
      then have "node_vote t key round \<noteq> None" using False by (cases "node_vote t key round") auto
      then show ?thesis using growsD(5) [OF st] ut same_vote_trans by blast
    qed
    then show ?thesis
      using growsD(1-3) [OF st] growsD(1-3) [OF tu] extends_by_trans unfolding grows_def by metis
  qed
qed simp

lemma grows_same_chain:
  assumes "lst_self_node t = lst_self_node s" "lst_removal_policy t = lst_removal_policy s"
    "lst_epochchain t = lst_epochchain s" "\<And>key round. same_vote (node_vote s key round) (node_vote t key round)"
  shows "grows L s t"
  using assms by (simp add: grows_def extends_by_refl)

lemma grows_put:
  "bm_get (lst_consensus s) key = Some c \<Longrightarrow> keeps_votes c c' \<Longrightarrow> grows L s (put_consensus key c' s)"
  by (rule grows_same_chain) (auto simp: put_consensus_def node_vote_def keeps_votes_def same_vote_refl)

lemma runs_touch_consensus: "runs_in (\<lambda>_. True) (grows L) (touch_consensus N epoch nonce)"
  unfolding touch_consensus_def
proof (intro gr.runs_intros gr.runs_update)
  fix s :: "'a LocalState"
  show "grows L s (if bm_contains (lst_consensus s) (epoch, nonce) then s
    else put_consensus (epoch, nonce) (init_consensus (peers_in_consensus N s epoch) (ni_public_key (lst_self_node s))) s)"
    by (rule grows_same_chain)
      (auto simp: put_consensus_def node_vote_def bm_contains_def consensus_vote_def init_consensus_def same_vote_refl)
qed

lemma touched_consensus:
  "touch_consensus N epoch nonce s = (Done x, t) \<Longrightarrow> \<exists>c. get_consensus epoch nonce t = Some c"
  by (auto simp: touch_consensus_def get_consensus_def put_consensus_def action_simps bm_contains_def split: if_splits)

lemma runs_on_consensus:
  assumes "runs_in (\<lambda>_. True) keeps_votes m"
  shows "runs_in (\<lambda>_. True) (grows L) (on_consensus N epoch nonce m)"
proof (rule runs_inI)
  fix s r t
  assume "on_consensus N epoch nonce m s = (r, t)"
  then consider (touch) r' where "touch_consensus N epoch nonce s = (r', t)"
    | (run) x u c' where "touch_consensus N epoch nonce s = (Done x, u)" "m (the (get_consensus epoch nonce u)) = (r, c')"
        "t = put_consensus (epoch, nonce) c' u"
    by (auto simp: on_consensus_def seq_def within_def split: prod.splits outcome.splits)
  then show "grows L s t"
  proof cases
    case touch
    then show ?thesis using runs_inD [OF runs_touch_consensus] by auto
  next
    case run
    obtain c where c: "get_consensus epoch nonce u = Some c" using touched_consensus [OF run(1)] by blast
    have "grows L s u" using runs_inD [OF runs_touch_consensus _ run(1)] by simp
    moreover have "keeps_votes c c'" using runs_inD [OF assms] run(2) c by simp
    ultimately show ?thesis
      using grows_put [of u "(epoch, nonce)" c c' L] c run(3) gr.trans by (auto simp: get_consensus_def)
  qed
qed

lemma runs_on_quorum:
  assumes "runs_in (\<lambda>_. True) keeps_commits m"
  shows "runs_in (\<lambda>_. True) (grows L) (on_quorum N epoch nonce round m)"
  unfolding on_quorum_def
proof (intro runs_on_consensus runs_inI)
  fix c r c'
  assume "seq (update (touch_quorum round)) (\<lambda>_. within (\<lambda>c. the (bm_get (tc_quorum c) round)) (put_quorum round) m) c = (r, c')"
  then obtain q' where m: "m (the (bm_get (tc_quorum (touch_quorum round c)) round)) = (r, q')"
    and c': "c' = put_quorum round q' (touch_quorum round c)"
    by (auto simp: action_simps within_def split: prod.splits)
  obtain q where q: "bm_get (tc_quorum (touch_quorum round c)) round = Some q" using touched_quorum by blast
  then have "keeps_commits q q'" using runs_inD [OF assms] m by simp
  then have "keeps_votes (touch_quorum round c) c'" unfolding c' by (rule keeps_votes_put [OF q])
  then show "keeps_votes c c'" using keeps_votes_touch kc.trans by blast
qed

lemma runs_seed: "runs_in (\<lambda>_. True) (grows L) (seed_prefill_dispatches_into_quorum N epoch nonce round)"
  unfolding seed_prefill_dispatches_into_quorum_def
proof (intro gr.runs_intros runs_on_quorum runs_inI)
  fix records q r q'
  assume run: "(case record_counting (prefill_blocks epoch nonce records) q of
      (inserted, q') \<Rightarrow> (Done inserted, if 0 < inserted then refresh_verified_blocks_hash (ne_crypto N) q' else q')) = (r, q')"
  show "keeps_commits q q'"
    using run by (intro keeps_commits_same) (auto simp: case_prod_beta commit_fields)
qed

lemma built_epoch_certified:
  assumes "verify_certificate N ((set_hash N (build_verified_epoch N previous blocks policy))\<lparr>ep_signatures := shares\<rparr>) previous = Ok ()"
  shows "certified_link N previous ((set_hash N (build_verified_epoch N previous blocks policy))\<lparr>ep_signatures := shares\<rparr>)"
  using assms by (simp add: certified_link_def set_hash_def build_verified_epoch_fields verifiers_from_members_def build_verified_epoch_sel)

lemma grows_push:
  assumes "chain_tip s = Some tip" "L tip epoch"
  shows "grows L s (push_epoch epoch s)"
proof -
  have "lst_epochchain s \<noteq> []" "last (lst_epochchain s) = tip"
    using assms(1) by (auto simp: chain_tip_def last_opt_def split: if_splits)
  then have "extends_by L (lst_epochchain s) (lst_epochchain (push_epoch epoch s))"
    using assms(2) by (simp add: push_epoch_def extends_by_snoc)
  moreover have "node_vote (push_epoch epoch s) key round \<noteq> None \<Longrightarrow> node_vote (push_epoch epoch s) key round = node_vote s key round"
    for key round by (cases "bm_get (lst_consensus s) key") (auto simp: node_vote_def push_epoch_def split: if_splits)
  moreover have "lst_epochchain (push_epoch epoch s) \<noteq> lst_epochchain s" by (simp add: push_epoch_def)
  ultimately show ?thesis by (auto simp: grows_def same_vote_refl) (simp_all add: push_epoch_def)
qed

lemma commit_epoch_grows:
  assumes "chain_tip s = Some tip" "commit_epoch N tip c round True s = (r, t)"
  shows "grows (certified_link N) s t"
proof (cases "bm_get (tc_quorum c) round")
  case None
  then show ?thesis using assms(2) by (simp add: commit_epoch_def action_simps gr.refl)
next
  case (Some q)
  let ?e = "(set_hash N (build_verified_epoch N tip (canonical_verified_blocks q) (lst_removal_policy s)))
    \<lparr>ep_signatures := certificate_shares N tip q\<rparr>"
  show ?thesis
  proof (cases "verify_certificate N ?e tip = Ok ()")
    case True
    then have "t = push_epoch ?e s" using assms(2) Some by (simp add: commit_epoch_def action_simps Let_def)
    then show ?thesis using grows_push [where L = "certified_link N", OF assms(1) built_epoch_certified [OF True]] by simp
  next
    case False
    then have "\<not> is_ok (verify_certificate N ?e tip)" by (auto simp: is_ok_iff)
    then have "t = s" using assms(2) Some by (simp add: commit_epoch_def action_simps Let_def)
    then show ?thesis by (simp add: gr.refl)
  qed
qed

lemma runs_advance_epoch:
  "runs_in (\<lambda>_. True) (grows (certified_link N)) (advance_epoch N last_epoch nonce round True)"
proof (rule runs_inI)
  fix s r t
  assume run: "advance_epoch N last_epoch nonce round True s = (r, t)"
  show "grows (certified_link N) s t"
  proof (cases "chain_tip s = None \<or> get_consensus last_epoch nonce s = None")
    case True
    then have "t = s" using run by (auto simp: advance_epoch_def action_simps split: option.splits if_splits)
    then show ?thesis by (simp add: gr.refl)
  next
    case False
    then obtain tip c where tip: "chain_tip s = Some tip" and c: "get_consensus last_epoch nonce s = Some c" by auto
    let ?key = "(last_epoch, nonce)"
    have unchanged: "(case bm_get (tc_quorum c) round of None \<Rightarrow> c
        | Some q \<Rightarrow> if \<not> True then put_quorum round (clear_verified_blocks q) c else c) = c" by (simp split: option.splits)
    have get: "bm_get (lst_consensus s) ?key = Some c" using c by (simp add: get_consensus_def)
    have same: "grows (certified_link N) s (put_consensus ?key c s)" using grows_put [OF get kc.refl] .
    have tip': "chain_tip (put_consensus ?key c s) = Some tip" using tip by (simp add: chain_tip_def put_consensus_def)
    show ?thesis
    proof (cases "ep_hash tip \<noteq> last_epoch \<or> new_next (epb_nonce (ep_body tip)) \<noteq> nonce")
      case True
      then have "t = s" using run tip c by (auto simp: advance_epoch_def action_simps)
      then show ?thesis by (simp add: gr.refl)
    next
      case here: False
      show ?thesis
      proof (cases "length (tc_peers c) > unat round + 1")
        case True
        then obtain carried where "t = put_consensus ?key (enter_next_round (ne_crypto N) (round + 1) carried c) s"
          using run tip c here by (auto simp: advance_epoch_def action_simps Let_def unchanged)
        then show ?thesis using grows_put [OF get keeps_votes_next_round] by simp
      next
        case False
        then have "commit_epoch N tip c round True (put_consensus ?key c s) = (r, t)"
          using run tip c here by (auto simp: advance_epoch_def action_simps Let_def unchanged)
        then show ?thesis using gr.trans [OF same commit_epoch_grows [OF tip']] by simp
      qed
    qed
  qed
qed

end
