(* ===== verification/TrustedLog.thy ===== *)
theory TrustedLog
  imports Epochs
begin

text \<open>
  \<open>src/src/trusted_log.rs\<close>: the durable log of a trusted node: its epochs, the confirmations it has locked and the block it
  is about to write. The tables of the log store are kept decoded: the store returns the bytes that were
  written, and Borsh, which encodes them, is third-party code. A transaction runs on the tables and is
  applied as a whole; whether the store accepts the write is an input.
\<close>

section \<open>Locks and tables\<close>

record TrustedRoundId =
  ti_group_id :: ConsensusGroupId
  ti_previous_epoch_hash :: HashType
  ti_previous_epoch_nonce :: Nonce
  ti_nonce :: Nonce
  ti_round :: u8

record TrustedRoundLock =
  tk_round_id :: TrustedRoundId
  tk_verification :: Verification
  tk_blocks :: block_map

definition candidate_hash :: "TrustedRoundLock \<Rightarrow> HashType" where
  "candidate_hash lock = vb_blocks_hash (vf_body (tk_verification lock))"

text \<open>The writers of a set of blocks are distinct.\<close>

definition block_keys :: "block_map \<Rightarrow> hash_set" where
  "block_keys blocks = bs_of_list (bm_keys blocks)"

fun writers_check :: "(HashType \<times> Block \<Rightarrow> bool) \<Rightarrow> crypto \<Rightarrow> PubKey list \<Rightarrow> (HashType \<times> Block) list \<Rightarrow> unit result" where
  "writers_check ok E writers [] = Ok ()"
| "writers_check ok E writers ((hash, block) # blocks) =
    (if \<not> ok (hash, block) \<or> bb_validator (block_body block) \<in> set writers then Err InvalidConfiguration
     else and_then (verify_unsigned_integrity_with_hash E block hash) (\<lambda>_.
       writers_check ok E (bb_validator (block_body block) # writers) blocks))"

definition lock_validate :: "crypto \<Rightarrow> PubKey \<Rightarrow> TrustedRoundLock \<Rightarrow> unit result" where
  "lock_validate E self_public_key lock =
    (let header = vf_header (tk_verification lock); body = vf_body (tk_verification lock); round_id = tk_round_id lock in
     if hd_sender header \<noteq> self_public_key \<or> hd_signature header \<noteq> default_signature
        \<or> hd_last_epoch header \<noteq> ti_previous_epoch_hash round_id \<or> hd_nonce header \<noteq> ti_nonce round_id
        \<or> hd_round header \<noteq> ti_round round_id \<or> ti_nonce round_id \<noteq> new_next (ti_previous_epoch_nonce round_id)
     then Err InvalidConfiguration
     else if vb_blocks body \<noteq> block_keys (tk_blocks lock) \<or> vb_blocks_hash body \<noteq> map_hash E (block_keys (tk_blocks lock))
     then Err InvalidConfiguration
     else writers_check (\<lambda>(_, block). bb_last_epoch (block_body block) = ti_previous_epoch_hash round_id
            \<and> bb_nonce (block_body block) = ti_nonce round_id) E [] (bm_entries (tk_blocks lock)))"

text \<open>The Borsh bytes of a round identity are the key of its lock; the identity itself stands for them.\<close>

type_synonym round_key = "HashType \<times> HashType \<times> Nonce \<times> Nonce \<times> u8"

definition round_id_key :: "TrustedRoundId \<Rightarrow> round_key" where
  "round_id_key i = (group_hash (ti_group_id i), ti_previous_epoch_hash i, ti_previous_epoch_nonce i, ti_nonce i, ti_round i)"

record TrustedLogManifest =
  tm_format_version :: u16
  tm_group_id :: ConsensusGroupId
  tm_self_public_key :: PubKey
  tm_genesis_hash :: HashType
  tm_consensus_parameters :: ConsensusParameters
  tm_removal_policy :: ConsensusNodeRemovalPolicy

record 'm log_tables =
  lt_manifest :: "TrustedLogManifest option"
  lt_head :: "(Nonce \<times> HashType) option"
  lt_epochs :: "(Nonce, 'm Epoch) btree_map"
  lt_round_locks :: "(round_key, TrustedRoundLock) btree_map"
  lt_local_blocks :: "(Nonce, Block) btree_map"

record 'm TrustedEpochLog =
  tl_tables :: "'m log_tables"
  tl_manifest :: TrustedLogManifest
  tl_removal_policy :: ConsensusNodeRemovalPolicy

record TrustedLogHead =
  th_nonce :: Nonce
  th_hash :: HashType
  th_epoch_count :: usize
  th_pending_round_lock :: bool


section \<open>Trusted chains\<close>

definition validate_trusted_extension ::
  "('m, 'k) node_env \<Rightarrow> 'm Epoch \<Rightarrow> 'm Epoch \<Rightarrow> ConsensusNodeRemovalPolicy \<Rightarrow> unit result" where
  "validate_trusted_extension N previous epoch removal_policy =
    (let body = ep_body epoch; parent = ep_body previous in
     if epb_group_id body \<noteq> epb_group_id parent \<or> epb_last_epoch body \<noteq> ep_hash previous
        \<or> epb_previous_nonce body \<noteq> Some (epb_nonce parent) \<or> epb_nonce body \<noteq> new_next (epb_nonce parent)
        \<or> effective_consensus_parameters body \<noteq> effective_consensus_parameters parent
        \<or> ep_hash epoch \<noteq> epoch_body_hash N body
     then Err InvalidConfiguration
     else and_then (writers_check (\<lambda>(_, block). bb_last_epoch (block_body block) = ep_hash previous
            \<and> bb_nonce (block_body block) = epb_nonce body
            \<and> it_contains_key (ne_tree N) (epb_verifiers parent) (bb_validator (block_body block)))
            (ne_crypto N) [] (bm_entries (epb_blocks body))) (\<lambda>_.
       if epb_merkle_root body \<noteq> block_merkle_root N (epb_blocks body) then Err InvalidConfiguration
       else let (expected_verifiers, _) = apply_epoch_membership_transition (ne_crypto N) (ne_tree N) (epb_verifiers parent)
                  (epb_blocks body) (ep_hash previous) (epb_nonce body) removal_policy
            in if it_keys (ne_tree N) expected_verifiers \<noteq> it_keys (ne_tree N) (epb_verifiers body)
                  \<or> it_values (ne_tree N) expected_verifiers \<noteq> it_values (ne_tree N) (epb_verifiers body)
               then Err InvalidConfiguration else Ok ()))"

definition validate_trusted_suffix ::
  "('m, 'k) node_env \<Rightarrow> ConsensusNodeRemovalPolicy \<Rightarrow> 'm Epoch \<Rightarrow> 'm Epoch list \<Rightarrow> 'm Epoch result" where
  "validate_trusted_suffix N removal_policy previous epochs =
    try_fold (\<lambda>previous epoch. and_then (validate_trusted_extension N previous epoch removal_policy) (\<lambda>_. Ok epoch)) previous epochs"

definition validate_trusted_chain :: "('m, 'k) node_env \<Rightarrow> 'm Epoch list \<Rightarrow> ConsensusNodeRemovalPolicy \<Rightarrow> unit result" where
  "validate_trusted_chain N chain removal_policy =
    (case chain of
       [] \<Rightarrow> Err EmptyEpochChain
     | genesis # epochs \<Rightarrow>
         if epb_previous_nonce (ep_body genesis) \<noteq> None \<or> ep_hash genesis \<noteq> epoch_body_hash N (ep_body genesis)
         then Err InvalidConfiguration
         else and_then (ConsensusParameters_validate (effective_consensus_parameters (ep_body genesis))) (\<lambda>_.
           and_then (validate_trusted_suffix N removal_policy genesis epochs) (\<lambda>_. Ok ())))"


section \<open>Transactions\<close>

text \<open>A transaction reads the tables and returns the tables it writes, or nothing when it writes none.\<close>

definition transact ::
  "unit result \<Rightarrow> ('m log_tables \<Rightarrow> ('a \<times> 'm log_tables option) result) \<Rightarrow> 'm TrustedEpochLog \<Rightarrow> 'a result \<times> 'm TrustedEpochLog" where
  "transact persisted operation log =
    (case operation (tl_tables log) of
       Inl e \<Rightarrow> (Err e, log)
     | Inr (x, None) \<Rightarrow> (Ok x, log)
     | Inr (x, Some tables) \<Rightarrow> (case persisted of Inl e \<Rightarrow> (Err e, log) | Inr _ \<Rightarrow> (Ok x, log\<lparr>tl_tables := tables\<rparr>)))"

definition read_head :: "'m log_tables \<Rightarrow> (Nonce \<times> HashType) result" where
  "read_head tables = ok_or (lt_head tables) InvalidConfiguration"

definition write_head :: "'m Epoch \<Rightarrow> 'm log_tables \<Rightarrow> 'm log_tables" where
  "write_head epoch tables = tables\<lparr>lt_head := Some (epb_nonce (ep_body epoch), ep_hash epoch)\<rparr>"

definition head_epoch :: "'m log_tables \<Rightarrow> 'm Epoch result" where
  "head_epoch tables =
    and_then (read_head tables) (\<lambda>(nonce, expected_hash).
      and_then (ok_or (bm_get (lt_epochs tables) nonce) InvalidConfiguration) (\<lambda>epoch.
        if epb_nonce (ep_body epoch) \<noteq> nonce \<or> ep_hash epoch \<noteq> expected_hash then Err InvalidConfiguration else Ok epoch))"

definition load_head_epoch :: "'m TrustedEpochLog \<Rightarrow> 'm Epoch result" where
  "load_head_epoch log = head_epoch (tl_tables log)"

definition log_head :: "'m TrustedEpochLog \<Rightarrow> TrustedLogHead result" where
  "log_head log =
    and_then (read_head (tl_tables log)) (\<lambda>(nonce, hash).
      Ok \<lparr>th_nonce = nonce, th_hash = hash, th_epoch_count = bm_len (lt_epochs (tl_tables log)),
        th_pending_round_lock = (\<not> bm_is_empty (lt_round_locks (tl_tables log)))\<rparr>)"

definition seed_tables :: "TrustedLogManifest \<Rightarrow> 'm Epoch list \<Rightarrow> 'm log_tables \<Rightarrow> 'm log_tables" where
  "seed_tables manifest chain tables =
    write_head (last chain) (tables\<lparr>lt_manifest := Some manifest,
      lt_epochs := fold (\<lambda>epoch. bm_insert (epb_nonce (ep_body epoch)) epoch) chain (lt_epochs tables)\<rparr>)"

definition load_chain :: "('m, 'k) node_env \<Rightarrow> 'm TrustedEpochLog \<Rightarrow> 'm Epoch list result" where
  "load_chain N log =
    (let chain = bm_values (lt_epochs (tl_tables log)) in
     and_then (validate_trusted_chain N chain (tl_removal_policy log)) (\<lambda>_.
       and_then (read_head (tl_tables log)) (\<lambda>head.
         if head \<noteq> (epb_nonce (ep_body (last chain)), ep_hash (last chain)) then Err InvalidConfiguration else Ok chain)))"

definition log_manifest :: "PubKey \<Rightarrow> 'm Epoch \<Rightarrow> ConsensusNodeRemovalPolicy \<Rightarrow> TrustedLogManifest" where
  "log_manifest self_public_key genesis removal_policy = \<lparr>tm_format_version = 1,
    tm_group_id = epb_group_id (ep_body genesis), tm_self_public_key = self_public_key, tm_genesis_hash = ep_hash genesis,
    tm_consensus_parameters = effective_consensus_parameters (ep_body genesis), tm_removal_policy = removal_policy\<rparr>"

text \<open>\<open>open\<close>: the tables found on disk are loaded, empty tables are seeded.\<close>

definition log_open ::
  "('m, 'k) node_env \<Rightarrow> unit result \<Rightarrow> 'm log_tables \<Rightarrow> PubKey \<Rightarrow> 'm Epoch list \<Rightarrow> ConsensusNodeRemovalPolicy
    \<Rightarrow> ('m TrustedEpochLog \<times> 'm Epoch list) result" where
  "log_open N persisted tables self_public_key seed removal_policy =
    and_then (validate_trusted_chain N seed removal_policy) (\<lambda>_.
      let genesis = hd seed; manifest = log_manifest self_public_key genesis removal_policy;
          log = \<lparr>tl_tables = tables, tl_manifest = manifest, tl_removal_policy = removal_policy\<rparr>
      in and_then (case lt_manifest tables of
             Some committed \<Rightarrow> if committed \<noteq> manifest then Err InvalidConfiguration
               else and_then (load_chain N log) (\<lambda>chain. Ok (log, chain))
           | None \<Rightarrow> and_then persisted (\<lambda>_. Ok (log\<lparr>tl_tables := seed_tables manifest seed tables\<rparr>, seed))) (\<lambda>(log, recovered).
        and_then (validate_trusted_chain N recovered removal_policy) (\<lambda>_.
          if ep_hash (hd recovered) \<noteq> ep_hash genesis then Err InvalidConfiguration else Ok (log, recovered))))"


section \<open>Confirmation locks\<close>

definition same_target :: "TrustedRoundId \<Rightarrow> TrustedRoundId \<Rightarrow> bool" where
  "same_target i j \<longleftrightarrow> ti_group_id i = ti_group_id j \<and> ti_previous_epoch_hash i = ti_previous_epoch_hash j
    \<and> ti_previous_epoch_nonce i = ti_previous_epoch_nonce j \<and> ti_nonce i = ti_nonce j"

text \<open>The locks that the log already holds, checked one by one.\<close>

definition existing_lock_check :: "crypto \<Rightarrow> PubKey \<Rightarrow> TrustedRoundId \<Rightarrow> TrustedRoundLock \<Rightarrow> unit result" where
  "existing_lock_check E self_public_key round_id existing =
    and_then (lock_validate E self_public_key existing) (\<lambda>_.
      if \<not> same_target (tk_round_id existing) round_id then Err InvalidConfiguration else Ok ())"

definition lock_blocks :: "TrustedRoundLock \<Rightarrow> hash_set" where
  "lock_blocks lock = vb_blocks (vf_body (tk_verification lock))"

definition precedes_lock :: "TrustedRoundLock \<Rightarrow> TrustedRoundLock \<Rightarrow> bool" where
  "precedes_lock existing lock \<longleftrightarrow>
    ti_round (tk_round_id existing) \<noteq> - 1 \<and> ti_round (tk_round_id existing) + 1 = ti_round (tk_round_id lock)
    \<and> list_all (bm_contains (lock_blocks lock)) (bm_keys (lock_blocks existing))"

definition lock_transaction ::
  "('m, 'k) node_env \<Rightarrow> TrustedLogManifest \<Rightarrow> TrustedRoundLock \<Rightarrow> 'm log_tables \<Rightarrow> (unit \<times> 'm log_tables option) result" where
  "lock_transaction N manifest lock tables =
    (let round_id = tk_round_id lock; key = round_id_key round_id; existing_locks = bm_values (lt_round_locks tables) in
     and_then (head_epoch tables) (\<lambda>head.
       if ti_group_id round_id \<noteq> tm_group_id manifest \<or> ti_previous_epoch_nonce round_id \<noteq> epb_nonce (ep_body head)
          \<or> ti_previous_epoch_hash round_id \<noteq> ep_hash head \<or> ti_nonce round_id \<noteq> new_next (epb_nonce (ep_body head))
       then Err InvalidConfiguration
       else if list_ex (\<lambda>block. \<not> it_contains_key (ne_tree N) (epb_verifiers (ep_body head)) (bb_validator (block_body block)))
                 (bm_values (tk_blocks lock))
       then Err UnknownSender
       else and_then (try_fold (\<lambda>_. existing_lock_check (ne_crypto N) (tm_self_public_key manifest) round_id) () existing_locks) (\<lambda>_.
         if ti_round round_id > 0 \<and> \<not> list_ex (\<lambda>existing. precedes_lock existing lock) existing_locks
         then Err InvalidConfiguration
         else if list_ex (\<lambda>existing. ti_round (tk_round_id existing) > ti_round round_id) existing_locks
         then Err InvalidConfiguration
         else case bm_get (lt_round_locks tables) key of
             Some existing \<Rightarrow>
               if candidate_hash existing \<noteq> candidate_hash lock \<or> lock_blocks existing \<noteq> lock_blocks lock
               then Err InvalidConfiguration else Ok ((), None)
           | None \<Rightarrow> Ok ((), Some (tables\<lparr>lt_round_locks := bm_insert key lock (lt_round_locks tables)\<rparr>)))))"

definition lock_round ::
  "('m, 'k) node_env \<Rightarrow> unit result \<Rightarrow> TrustedRoundLock \<Rightarrow> 'm TrustedEpochLog \<Rightarrow> unit result \<times> 'm TrustedEpochLog" where
  "lock_round N persisted lock log =
    (case lock_validate (ne_crypto N) (tm_self_public_key (tl_manifest log)) lock of
       Inl e \<Rightarrow> (Err e, log)
     | Inr _ \<Rightarrow> transact persisted (lock_transaction N (tl_manifest log) lock) log)"

definition round_lock :: "crypto \<Rightarrow> TrustedRoundId \<Rightarrow> 'm TrustedEpochLog \<Rightarrow> TrustedRoundLock option result" where
  "round_lock E round_id log =
    (case bm_get (lt_round_locks (tl_tables log)) (round_id_key round_id) of
       None \<Rightarrow> Ok None
     | Some lock \<Rightarrow>
         and_then (lock_validate E (tm_self_public_key (tl_manifest log)) lock) (\<lambda>_.
           if tk_round_id lock \<noteq> round_id then Err InvalidConfiguration else Ok (Some lock)))"

definition round_locks :: "crypto \<Rightarrow> 'm TrustedEpochLog \<Rightarrow> TrustedRoundLock list result" where
  "round_locks E log =
    and_then (collect_results (map (\<lambda>lock. and_then (lock_validate E (tm_self_public_key (tl_manifest log)) lock) (\<lambda>_. Ok lock))
      (bm_values (lt_round_locks (tl_tables log))))) (\<lambda>locks.
        Ok (sort_key (\<lambda>lock. ti_round (tk_round_id lock)) locks))"


section \<open>The pending local block\<close>

definition local_block_transaction ::
  "('m, 'k) node_env \<Rightarrow> TrustedLogManifest \<Rightarrow> Block \<Rightarrow> 'm log_tables \<Rightarrow> (unit \<times> 'm log_tables option) result" where
  "local_block_transaction N manifest block tables =
    and_then (head_epoch tables) (\<lambda>head.
      if \<not> it_contains_key (ne_tree N) (epb_verifiers (ep_body head)) (tm_self_public_key manifest) then Err UnknownSender
      else if bb_last_epoch (block_body block) \<noteq> ep_hash head \<or> bb_nonce (block_body block) \<noteq> new_next (epb_nonce (ep_body head))
      then Err InvalidConfiguration
      else case bm_get (lt_local_blocks tables) (bb_nonce (block_body block)) of
          Some existing \<Rightarrow> if block_hash existing \<noteq> block_hash block then Err DuplicateBlock else Ok ((), None)
        | None \<Rightarrow> Ok ((), Some (tables\<lparr>lt_local_blocks := bm_insert (bb_nonce (block_body block)) block (lt_local_blocks tables)\<rparr>)))"

definition persist_local_block ::
  "('m, 'k) node_env \<Rightarrow> unit result \<Rightarrow> Block \<Rightarrow> 'm TrustedEpochLog \<Rightarrow> unit result \<times> 'm TrustedEpochLog" where
  "persist_local_block N persisted block log =
    (if bb_validator (block_body block) \<noteq> tm_self_public_key (tl_manifest log) then (Err UnknownSender, log)
     else case verify_unsigned_integrity_with_hash (ne_crypto N) block (block_hash block) of
       Inl e \<Rightarrow> (Err e, log)
     | Inr _ \<Rightarrow> transact persisted (local_block_transaction N (tl_manifest log) block) log)"

definition pending_local_block :: "crypto \<Rightarrow> 'm TrustedEpochLog \<Rightarrow> Block option result" where
  "pending_local_block E log =
    and_then (load_head_epoch log) (\<lambda>head.
      let expected_nonce = new_next (epb_nonce (ep_body head)) in
      case bm_get (lt_local_blocks (tl_tables log)) expected_nonce of
        None \<Rightarrow> Ok None
      | Some block \<Rightarrow>
          if bb_validator (block_body block) \<noteq> tm_self_public_key (tl_manifest log)
             \<or> bb_last_epoch (block_body block) \<noteq> ep_hash head \<or> bb_nonce (block_body block) \<noteq> expected_nonce
          then Err InvalidConfiguration
          else and_then (verify_unsigned_integrity_with_hash E block (block_hash block)) (\<lambda>_. Ok (Some block)))"


section \<open>Appending epochs\<close>

definition insert_epoch :: "'m Epoch \<Rightarrow> (Nonce, 'm Epoch) btree_map \<Rightarrow> (Nonce, 'm Epoch) btree_map result" where
  "insert_epoch epoch epochs =
    (case bm_get epochs (epb_nonce (ep_body epoch)) of
       Some existing \<Rightarrow> if ep_hash existing \<noteq> ep_hash epoch then Err InvalidConfiguration else Ok epochs
     | None \<Rightarrow> Ok (bm_insert (epb_nonce (ep_body epoch)) epoch epochs))"

text \<open>A local block that the appended epochs did not commit is sealed again for the next epoch.\<close>

definition resealed_block :: "crypto \<Rightarrow> PubKey \<Rightarrow> 'm Epoch \<Rightarrow> Block \<Rightarrow> Block" where
  "resealed_block E self_public_key head block =
    seal_unsigned E (block\<lparr>block_body := (block_body block)\<lparr>bb_last_epoch := ep_hash head,
      bb_nonce := new_next (epb_nonce (ep_body head)), bb_dispatched := 0\<rparr>\<rparr>) self_public_key"

definition retry_local_block ::
  "crypto \<Rightarrow> PubKey \<Rightarrow> 'm Epoch list \<Rightarrow> (Nonce, Block) btree_map \<Rightarrow> (Nonce, Block) btree_map result" where
  "retry_local_block E self_public_key epochs local_blocks =
    (let head = last epochs;
         stale = filter (\<lambda>(nonce, _). nonce \<le> epb_nonce (ep_body head)) (bm_entries local_blocks)
     in case stale of
       [] \<Rightarrow> Ok local_blocks
     | [(nonce, block)] \<Rightarrow>
         let remaining = bm_remove nonce local_blocks in
         if list_ex (\<lambda>epoch. epb_nonce (ep_body epoch) = nonce \<and> bm_contains (epb_blocks (ep_body epoch)) (block_hash block)) epochs
         then Ok remaining
         else let retry = resealed_block E self_public_key head block; key = bb_nonce (block_body retry) in
         (case bm_get remaining key of
            Some existing \<Rightarrow> if block_hash existing \<noteq> block_hash retry then Err DuplicateBlock else Ok remaining
          | None \<Rightarrow> Ok (bm_insert key retry remaining))
     | _ \<Rightarrow> Err InvalidConfiguration)"

definition lock_agrees :: "crypto \<Rightarrow> TrustedLogManifest \<Rightarrow> Nonce \<times> HashType \<Rightarrow> 'm Epoch \<Rightarrow> TrustedRoundLock \<Rightarrow> unit result" where
  "lock_agrees E manifest = (\<lambda>(current_nonce, current_hash) first lock.
    let round_id = tk_round_id lock in
    if ti_group_id round_id \<noteq> tm_group_id manifest \<or> ti_previous_epoch_hash round_id \<noteq> current_hash
       \<or> ti_previous_epoch_nonce round_id \<noteq> current_nonce \<or> ti_nonce round_id \<noteq> epb_nonce (ep_body first)
       \<or> \<not> list_all (bm_contains (epb_blocks (ep_body first))) (bm_keys (lock_blocks lock))
    then Err InvalidConfiguration else Ok ())"

definition final_lock_agrees :: "TrustedRoundId option \<Rightarrow> 'm Epoch \<Rightarrow> (round_key, TrustedRoundLock) btree_map \<Rightarrow> unit result" where
  "final_lock_agrees round_id first locks =
    (case round_id of
       None \<Rightarrow> Ok ()
     | Some i \<Rightarrow>
         and_then (ok_or (bm_get locks (round_id_key i)) InvalidConfiguration) (\<lambda>final_lock.
           if lock_blocks final_lock \<noteq> block_keys (epb_blocks (ep_body first)) then Err InvalidConfiguration else Ok ()))"

definition append_epochs_transaction ::
  "crypto \<Rightarrow> TrustedLogManifest \<Rightarrow> 'm Epoch list \<Rightarrow> TrustedRoundId option \<Rightarrow> 'm log_tables \<Rightarrow> (unit \<times> 'm log_tables option) result" where
  "append_epochs_transaction E manifest epochs round_id tables =
    (let head = last epochs; first = hd epochs; self = tm_self_public_key manifest; locks = lt_round_locks tables in
     and_then (read_head tables) (\<lambda>(current_nonce, current_hash).
       if current_nonce = epb_nonce (ep_body head) \<and> current_hash = ep_hash head then Ok ((), None)
       else if epb_last_epoch (ep_body first) \<noteq> current_hash \<or> epb_previous_nonce (ep_body first) \<noteq> Some current_nonce
       then Err InvalidConfiguration
       else and_then (try_fold (\<lambda>stored epoch. insert_epoch epoch stored) (lt_epochs tables) epochs) (\<lambda>stored.
         and_then (retry_local_block E self epochs (lt_local_blocks tables)) (\<lambda>local_blocks.
           and_then (try_fold (\<lambda>_. lock_validate E self) () (bm_values locks)) (\<lambda>_.
             and_then (try_fold (\<lambda>_. lock_agrees E manifest (current_nonce, current_hash) first) () (bm_values locks)) (\<lambda>_.
               and_then (final_lock_agrees round_id first locks) (\<lambda>_.
                 Ok ((), Some (write_head head (tables\<lparr>lt_epochs := stored, lt_local_blocks := local_blocks,
                   lt_round_locks := bm_empty\<rparr>))))))))))"

definition append_validated_epochs ::
  "crypto \<Rightarrow> unit result \<Rightarrow> 'm Epoch list \<Rightarrow> TrustedRoundId option \<Rightarrow> 'm TrustedEpochLog \<Rightarrow> unit result \<times> 'm TrustedEpochLog" where
  "append_validated_epochs E persisted epochs round_id log =
    (if epochs = [] then (Err InvalidConfiguration, log)
     else transact persisted (append_epochs_transaction E (tl_manifest log) epochs round_id) log)"

definition append_epoch ::
  "('m, 'k) node_env \<Rightarrow> unit result \<Rightarrow> 'm Epoch \<Rightarrow> TrustedRoundId option \<Rightarrow> 'm TrustedEpochLog \<Rightarrow> unit result \<times> 'm TrustedEpochLog" where
  "append_epoch N persisted epoch round_id log =
    (case and_then (load_head_epoch log) (\<lambda>previous. validate_trusted_extension N previous epoch (tl_removal_policy log)) of
       Inl e \<Rightarrow> (Err e, log)
     | Inr _ \<Rightarrow> append_validated_epochs (ne_crypto N) persisted [epoch] round_id log)"

definition append_suffix ::
  "('m, 'k) node_env \<Rightarrow> unit result \<Rightarrow> 'm Epoch list \<Rightarrow> 'm TrustedEpochLog \<Rightarrow> unit result \<times> 'm TrustedEpochLog" where
  "append_suffix N persisted epochs log =
    (if epochs = [] then (Ok (), log)
     else case and_then (load_head_epoch log) (\<lambda>head. validate_trusted_suffix N (tl_removal_policy log) head epochs) of
       Inl e \<Rightarrow> (Err e, log)
     | Inr _ \<Rightarrow> append_validated_epochs (ne_crypto N) persisted epochs None log)"

end
