(* ===== verification/AddressBook.thy ===== *)
theory AddressBook
  imports Membership
begin

text \<open>
  \<open>src/src/address_book.rs\<close>: the services a node can reach and the signed records that announce them. Borsh, which
  encodes a record for signing, is a parameter; the JSON file of the services is not modelled. The lemmas show what a
  record must satisfy to be applied and how the book changes, and that pruning forgets the generation of a tombstone.
\<close>

section \<open>Services\<close>

fun service_kind_rank :: "ServiceKind \<Rightarrow> nat" where
  "service_kind_rank Relay = 0"
| "service_kind_rank BlockService = 1"
| "service_kind_rank ConsensusService = 2"
| "service_kind_rank Engine = 3"
| "service_kind_rank ServiceKind.AddressBook = 4"

lemma service_kind_rank_inject: "service_kind_rank a = service_kind_rank b \<longleftrightarrow> a = b"
  by (cases a; cases b) simp_all

instantiation ServiceKind :: linorder
begin

definition less_eq_ServiceKind :: "ServiceKind \<Rightarrow> ServiceKind \<Rightarrow> bool" where
  "a \<le> b \<longleftrightarrow> service_kind_rank a \<le> service_kind_rank b"

definition less_ServiceKind :: "ServiceKind \<Rightarrow> ServiceKind \<Rightarrow> bool" where
  "a < b \<longleftrightarrow> service_kind_rank a < service_kind_rank b"

instance
  by standard (auto simp: less_eq_ServiceKind_def less_ServiceKind_def service_kind_rank_inject)

end

record ServiceRecordBody =
  srb_group_id :: ConsensusGroupId
  srb_owner :: PubKey
  srb_service_kind :: ServiceKind
  srb_protocol :: string
  srb_host :: string
  srb_port :: u16
  srb_generation :: u64
  srb_expires_at_unix_millis :: u64
  srb_tombstone :: bool

record SignedServiceRecord =
  ssr_body :: ServiceRecordBody
  ssr_signature :: Signature

definition SERVICE_RECORD_DOMAIN :: bytes where
  "SERVICE_RECORD_DOMAIN = string_bytes ''blossom/signed-service-record/v1''"

definition MAX_SERVICE_RECORD_LIFETIME_MILLIS :: u64 where
  "MAX_SERVICE_RECORD_LIFETIME_MILLIS = 24 * 60 * 60 * 1000"

definition MAX_SERVICE_HOST_BYTES :: usize where
  "MAX_SERVICE_HOST_BYTES = 2 ^ 10"

definition MAX_SERVICE_PROTOCOL_BYTES :: usize where
  "MAX_SERVICE_PROTOCOL_BYTES = 64"

definition record_service :: "ServiceRecordBody \<Rightarrow> Service" where
  "record_service b = \<lparr>sv_kind = srb_service_kind b, sv_public_key = srb_owner b, sv_protocol = srb_protocol b,
    sv_host = srb_host b, sv_port = srb_port b\<rparr>"

type_synonym service_codec = "ServiceRecordBody \<Rightarrow> bytes option"

definition service_signing_bytes :: "service_codec \<Rightarrow> ServiceRecordBody \<Rightarrow> bytes result" where
  "service_signing_bytes B b = and_then (ok_or (B b) WireProtocol) (\<lambda>encoded. Ok (SERVICE_RECORD_DOMAIN @ encoded))"

definition validate_shape :: "ServiceRecordBody \<Rightarrow> unit result" where
  "validate_shape b =
    (if srb_generation b = 0 \<or> srb_expires_at_unix_millis b = 0 \<or> srb_protocol b = [] 
        \<or> length (srb_protocol b) > MAX_SERVICE_PROTOCOL_BYTES \<or> srb_host b = [] \<or> length (srb_host b) > MAX_SERVICE_HOST_BYTES
        \<or> srb_port b = 0
     then Err InvalidConfiguration else Ok ())"

definition service_record_signed ::
  "crypto \<Rightarrow> service_codec \<Rightarrow> ServiceRecordBody \<Rightarrow> SecretSigner \<Rightarrow> SignedServiceRecord result" where
  "service_record_signed E B b signer =
    and_then (validate_shape b) (\<lambda>_.
      if signer_public_key E signer \<noteq> srb_owner b then Err KeyMismatch
      else and_then (service_signing_bytes B b) (\<lambda>bytes. Ok \<lparr>ssr_body = b, ssr_signature = ed_sign E signer bytes\<rparr>))"

definition signed_tombstone ::
  "crypto \<Rightarrow> service_codec \<Rightarrow> ServiceRecordBody \<Rightarrow> SecretSigner \<Rightarrow> SignedServiceRecord result" where
  "signed_tombstone E B b signer = service_record_signed E B (b\<lparr>srb_tombstone := True\<rparr>) signer"

definition service_record_verify :: "crypto \<Rightarrow> service_codec \<Rightarrow> SignedServiceRecord \<Rightarrow> unit result" where
  "service_record_verify E B r =
    and_then (validate_shape (ssr_body r)) (\<lambda>_.
      and_then (service_signing_bytes B (ssr_body r)) (\<lambda>bytes.
        signature_verify E (ssr_signature r) bytes (srb_owner (ssr_body r))))"


section \<open>The book\<close>

record AddressBook =
  ab_services :: "(ServiceKind \<times> PubKey, Service) btree_map"
  ab_signed_records :: "(HashType \<times> ServiceKind \<times> PubKey, SignedServiceRecord) btree_map"

definition book_new :: AddressBook where
  "book_new = \<lparr>ab_services = bm_empty, ab_signed_records = bm_empty\<rparr>"

definition book_add :: "Service \<Rightarrow> AddressBook \<Rightarrow> Service option \<times> AddressBook" where
  "book_add service book =
    (let key = (sv_kind service, sv_public_key service) in
     (bm_get (ab_services book) key, book\<lparr>ab_services := bm_insert key service (ab_services book)\<rparr>))"

definition extend_services :: "Service list \<Rightarrow> AddressBook \<Rightarrow> AddressBook" where
  "extend_services services book = fold (\<lambda>service book. snd (book_add service book)) services book"

definition from_services :: "Service list \<Rightarrow> AddressBook" where
  "from_services services = extend_services services book_new"

definition record_is_active :: "MemberRecord \<Rightarrow> bool" where
  "record_is_active r \<longleftrightarrow> mr_status r = StatusActive"

definition service_authorized :: "ServiceKind \<Rightarrow> MemberRecord \<Rightarrow> bool" where
  "service_authorized kind member =
    (case kind of
       Relay \<Rightarrow> is_active_with member CapRelay
     | ConsensusService \<Rightarrow> is_active_with member CapValidator
     | _ \<Rightarrow> record_is_active member)"

definition record_key :: "ServiceRecordBody \<Rightarrow> HashType \<times> ServiceKind \<times> PubKey" where
  "record_key b = (group_hash (srb_group_id b), srb_service_kind b, srb_owner b)"

definition install_record :: "SignedServiceRecord \<Rightarrow> AddressBook \<Rightarrow> AddressBook" where
  "install_record r book =
    (let b = ssr_body r; service_key = (srb_service_kind b, srb_owner b) in
     book\<lparr>ab_services := (if srb_tombstone b then bm_remove service_key (ab_services book)
            else bm_insert service_key (record_service b) (ab_services book)),
          ab_signed_records := bm_insert (record_key b) r (ab_signed_records book)\<rparr>)"

definition apply_signed_record ::
  "crypto \<Rightarrow> service_codec \<Rightarrow> SignedServiceRecord \<Rightarrow> ConsensusGroupId \<Rightarrow> MemberSet \<Rightarrow> u64 \<Rightarrow> AddressBook
    \<Rightarrow> Service option result \<times> AddressBook" where
  "apply_signed_record E B r expected_group members now_unix_millis book =
    (let b = ssr_body r;
         check = and_then (service_record_verify E B r) (\<lambda>_.
           if srb_group_id b \<noteq> expected_group then Err InvalidConfiguration
           else and_then (ok_or (bm_get members (srb_owner b)) UnknownSender) (\<lambda>member.
           if \<not> service_authorized (srb_service_kind b) member then Err UnknownSender
           else if srb_expires_at_unix_millis b \<le> now_unix_millis
              \<or> srb_expires_at_unix_millis b > saturating_add_u64 now_unix_millis MAX_SERVICE_RECORD_LIFETIME_MILLIS
           then Err InvalidConfiguration
           else case bm_get (ab_signed_records book) (record_key b) of
               Some current \<Rightarrow> if srb_generation (ssr_body current) \<ge> srb_generation b then Err InvalidConfiguration else Ok ()
             | None \<Rightarrow> Ok ()))
     in case check of
          Inl e \<Rightarrow> (Err e, book)
        | Inr _ \<Rightarrow> (Ok (bm_get (ab_services book) (srb_service_kind b, srb_owner b)), install_record r book))"

definition active_signed_records :: "ConsensusGroupId \<Rightarrow> u64 \<Rightarrow> AddressBook \<Rightarrow> SignedServiceRecord list" where
  "active_signed_records group_id now_unix_millis book =
    filter (\<lambda>r. srb_group_id (ssr_body r) = group_id \<and> \<not> srb_tombstone (ssr_body r)
      \<and> srb_expires_at_unix_millis (ssr_body r) > now_unix_millis) (bm_values (ab_signed_records book))"

definition active_signed_services :: "ConsensusGroupId \<Rightarrow> u64 \<Rightarrow> AddressBook \<Rightarrow> Service list" where
  "active_signed_services group_id now_unix_millis book =
    map (\<lambda>r. record_service (ssr_body r)) (active_signed_records group_id now_unix_millis book)"

definition prune_expired_signed_records :: "u64 \<Rightarrow> AddressBook \<Rightarrow> AddressBook" where
  "prune_expired_signed_records now_unix_millis book =
    fold (\<lambda>(key, r) book. book\<lparr>ab_signed_records := bm_remove key (ab_signed_records book),
        ab_services := bm_remove (srb_service_kind (ssr_body r), srb_owner (ssr_body r)) (ab_services book)\<rparr>)
      (filter (\<lambda>(_, r). srb_expires_at_unix_millis (ssr_body r) \<le> now_unix_millis) (bm_entries (ab_signed_records book))) book"

definition book_service :: "ServiceKind \<Rightarrow> AddressBook \<Rightarrow> Service option" where
  "book_service kind book = map_option snd (List.find (\<lambda>((service_kind, _), _). service_kind = kind) (bm_entries (ab_services book)))"

definition service_for :: "ServiceKind \<Rightarrow> PubKey \<Rightarrow> AddressBook \<Rightarrow> Service option" where
  "service_for kind public_key book = bm_get (ab_services book) (kind, public_key)"

definition services_for_kind :: "ServiceKind \<Rightarrow> AddressBook \<Rightarrow> Service list" where
  "services_for_kind kind book = map snd (filter (\<lambda>((service_kind, _), _). service_kind = kind) (bm_entries (ab_services book)))"

definition remove_service :: "ServiceKind \<Rightarrow> PubKey \<Rightarrow> AddressBook \<Rightarrow> Service option \<times> AddressBook" where
  "remove_service kind public_key book =
    (bm_get (ab_services book) (kind, public_key), book\<lparr>ab_services := bm_remove (kind, public_key) (ab_services book)\<rparr>)"

definition remove_kind :: "ServiceKind \<Rightarrow> AddressBook \<Rightarrow> Service option \<times> AddressBook" where
  "remove_kind kind book =
    (case List.find (\<lambda>(service_kind, _). service_kind = kind) (bm_keys (ab_services book)) of
       None \<Rightarrow> (None, book)
     | Some key \<Rightarrow> (bm_get (ab_services book) key, book\<lparr>ab_services := bm_remove key (ab_services book)\<rparr>))"

section \<open>What a record changes\<close>

text \<open>
  A record is applied exactly when it verifies, names the group, its owner is a member that may offer the service, it
  expires within the allowed lifetime and its generation advances. Every other record leaves the book as it was.
\<close>

definition record_acceptable ::
  "crypto \<Rightarrow> service_codec \<Rightarrow> SignedServiceRecord \<Rightarrow> ConsensusGroupId \<Rightarrow> MemberSet \<Rightarrow> u64 \<Rightarrow> AddressBook \<Rightarrow> bool" where
  "record_acceptable E B r gid members now_unix_millis book \<longleftrightarrow>
    service_record_verify E B r = Ok () \<and> srb_group_id (ssr_body r) = gid
    \<and> (\<exists>member. bm_get members (srb_owner (ssr_body r)) = Some member
          \<and> service_authorized (srb_service_kind (ssr_body r)) member)
    \<and> now_unix_millis < srb_expires_at_unix_millis (ssr_body r)
    \<and> srb_expires_at_unix_millis (ssr_body r) \<le> saturating_add_u64 now_unix_millis MAX_SERVICE_RECORD_LIFETIME_MILLIS
    \<and> (\<forall>current. bm_get (ab_signed_records book) (record_key (ssr_body r)) = Some current
          \<longrightarrow> srb_generation (ssr_body current) < srb_generation (ssr_body r))"

lemma apply_signed_record_accepts:
  "record_acceptable E B r gid members now book
    \<Longrightarrow> apply_signed_record E B r gid members now book
        = (Ok (service_for (srb_service_kind (ssr_body r)) (srb_owner (ssr_body r)) book), install_record r book)"
  by (auto simp: apply_signed_record_def record_acceptable_def service_for_def Let_def not_le split: option.splits)

lemma apply_signed_record_rejects:
  "\<not> record_acceptable E B r gid members now book
    \<Longrightarrow> \<exists>e. apply_signed_record E B r gid members now book = (Err e, book)"
  by (auto simp: apply_signed_record_def record_acceptable_def Let_def not_le not_less
      split: option.splits sum.splits)

lemma installed_service:
  "service_for kind owner (install_record r book) =
    (if kind = srb_service_kind (ssr_body r) \<and> owner = srb_owner (ssr_body r)
     then if srb_tombstone (ssr_body r) then None else Some (record_service (ssr_body r))
     else service_for kind owner book)"
  by (auto simp: service_for_def install_record_def Let_def)

lemma installed_record:
  "bm_get (ab_signed_records (install_record r book)) key =
    (if key = record_key (ssr_body r) then Some r else bm_get (ab_signed_records book) key)"
  by (auto simp: install_record_def Let_def)

text \<open>C31: A signed service record is applied exactly when it verifies, belongs to the group, its owner is an active
  member with the capability the service needs, it expires after now and within the maximum lifetime, and its generation
  exceeds the one held. It then replaces the held record and the endpoint of its owner (a tombstone removes it) and no
  other; a record that is not applied changes nothing.\<close>
theorem apply_signed_record_spec:
  "case apply_signed_record E B r gid members now book of
     (Inl _, book') \<Rightarrow> \<not> record_acceptable E B r gid members now book \<and> book' = book
   | (Inr previous, book') \<Rightarrow> record_acceptable E B r gid members now book
       \<and> previous = service_for (srb_service_kind (ssr_body r)) (srb_owner (ssr_body r)) book
       \<and> (\<forall>kind owner. service_for kind owner book' =
            (if kind = srb_service_kind (ssr_body r) \<and> owner = srb_owner (ssr_body r)
             then if srb_tombstone (ssr_body r) then None else Some (record_service (ssr_body r))
             else service_for kind owner book))
       \<and> (\<forall>key. bm_get (ab_signed_records book') key =
            (if key = record_key (ssr_body r) then Some r else bm_get (ab_signed_records book) key))"
proof (cases "record_acceptable E B r gid members now book")
  case True
  then show ?thesis by (simp add: apply_signed_record_accepts installed_service installed_record)
next
  case False
  from apply_signed_record_rejects [OF this] False show ?thesis by auto
qed

section \<open>Pruning\<close>

definition unexpired :: "u64 \<Rightarrow> SignedServiceRecord \<Rightarrow> bool" where
  "unexpired now r \<longleftrightarrow> now < srb_expires_at_unix_millis (ssr_body r)"

lemma fold_pruned_records:
  "bm_get (ab_signed_records (fold (\<lambda>(key, r) book. book\<lparr>ab_signed_records := bm_remove key (ab_signed_records book),
        ab_services := bm_remove (srb_service_kind (ssr_body r), srb_owner (ssr_body r)) (ab_services book)\<rparr>) entries book)) k
    = (if k \<in> fst ` set entries then None else bm_get (ab_signed_records book) k)"
  by (induction entries arbitrary: book) auto

lemma pruned_records:
  "bm_get (ab_signed_records (prune_expired_signed_records now book)) k =
    (case bm_get (ab_signed_records book) k of
       Some r \<Rightarrow> if unexpired now r then Some r else None
     | None \<Rightarrow> None)"
proof -
  have "k \<in> fst ` set (filter (\<lambda>(_, r). srb_expires_at_unix_millis (ssr_body r) \<le> now) (bm_entries (ab_signed_records book)))
    \<longleftrightarrow> (\<exists>r. bm_get (ab_signed_records book) k = Some r \<and> \<not> unexpired now r)"
    by (force simp: unexpired_def bm_get_Some_iff not_less)
  then show ?thesis
    by (simp only: prune_expired_signed_records_def fold_pruned_records) (auto split: option.splits)
qed

text \<open>C36: Pruning forgets the generation it prunes. A record that the book refuses as not newer than the one held (a
  tombstone, say) is applied again once the held record has expired and been pruned, so a withdrawn endpoint comes back
  while its own record lasts.\<close>
theorem pruned_generation_replays:
  assumes "bm_get (ab_signed_records book) (record_key (ssr_body r)) = Some newer"
    and "srb_generation (ssr_body r) \<le> srb_generation (ssr_body newer)"
    and "srb_expires_at_unix_millis (ssr_body newer) \<le> now"
    and "record_acceptable E B r gid members now book_new"
    and "\<not> srb_tombstone (ssr_body r)"
  shows "(\<exists>e. apply_signed_record E B r gid members now book = (Err e, book))
    \<and> is_ok (fst (apply_signed_record E B r gid members now (prune_expired_signed_records now book)))
    \<and> service_for (srb_service_kind (ssr_body r)) (srb_owner (ssr_body r))
        (snd (apply_signed_record E B r gid members now (prune_expired_signed_records now book)))
      = Some (record_service (ssr_body r))"
proof -
  have "\<not> record_acceptable E B r gid members now book"
    using assms(1,2) by (auto simp: record_acceptable_def not_less)
  moreover have "record_acceptable E B r gid members now (prune_expired_signed_records now book)"
    using assms(1,3,4) by (auto simp: record_acceptable_def pruned_records unexpired_def)
  ultimately show ?thesis
    using assms(5) apply_signed_record_rejects by (simp add: apply_signed_record_accepts installed_service)
qed

definition relay_record :: "u64 \<Rightarrow> u64 \<Rightarrow> bool \<Rightarrow> SignedServiceRecord" where
  "relay_record generation expires tombstone =
    \<lparr>ssr_body = \<lparr>srb_group_id = group_root, srb_owner = PubKey 1, srb_service_kind = Engine, srb_protocol = ''tcp'',
       srb_host = ''a'', srb_port = 1, srb_generation = generation, srb_expires_at_unix_millis = expires,
       srb_tombstone = tombstone\<rparr>,
     ssr_signature = Signature 1\<rparr>"

definition engine_members :: MemberSet where
  "engine_members = bm_insert (PubKey 1) \<lparr>mr_identity = group_node 1, mr_capabilities = bm_empty, mr_generation = 1,
    mr_status = StatusActive\<rparr> bm_empty"

definition withdrawn_book :: AddressBook where
  "withdrawn_book = install_record (relay_record 2 20 True) book_new"

theorem pruned_generation_replays_witness:
  "service_for Engine (PubKey 1) (snd (apply_signed_record sample_crypto (\<lambda>_. Some []) (relay_record 1 90 False) group_root
      engine_members 30 (prune_expired_signed_records 30 withdrawn_book)))
    = Some (record_service (ssr_body (relay_record 1 90 False)))"
proof -
  have "record_acceptable sample_crypto (\<lambda>_. Some []) (relay_record 1 90 False) group_root engine_members 30 book_new"
    by (simp add: record_acceptable_def service_record_verify_def validate_shape_def relay_record_def engine_members_def
        service_signing_bytes_def service_authorized_def record_is_active_def book_new_def MAX_SERVICE_PROTOCOL_BYTES_def
        MAX_SERVICE_HOST_BYTES_def MAX_SERVICE_RECORD_LIFETIME_MILLIS_def saturating_add_u64_def usize_max_def)
  then show ?thesis
    using pruned_generation_replays [of withdrawn_book "relay_record 1 90 False" "relay_record 2 20 True" 30 sample_crypto
        "\<lambda>_. Some []" group_root engine_members]
    by (simp add: withdrawn_book_def installed_record relay_record_def record_key_def)
qed

end
