(* ===== verification/LocalBlock.thy ===== *)
theory LocalBlock
  imports Block
begin

text \<open>
  \<open>src/src/local_block.rs\<close>: the block a node is building and the bounded queue of the blocks it has closed. The
  specification of the queue is a pool of blocks by nonce; the queue implements it as long as blocks are closed in the
  order of their nonces. The time at which a default block is created is an input.
\<close>

section \<open>The block under construction and its queue\<close>

record LocalBlock =
  lb_build_block :: Block
  lb_block_deque :: "Block list"
  lb_block_cap :: usize
  lb_application_state :: bytes
  lb_encounter_records :: "EncounterRecord list"
  lb_node_admissions :: "NodeAdmission list"

definition block_default :: "u128 \<Rightarrow> Block" where
  "block_default now_micros = \<lparr>block_hash = default_hash, block_signature = default_signature,
    block_body = \<lparr>bb_validator = default_pubkey, bb_last_epoch = default_hash, bb_nonce = 0, bb_created = now_micros,
      bb_dispatched = 0, bb_merkle_root = default_hash, bb_application_state = [], bb_encounter_records = [],
      bb_node_admissions = [], bb_txs = []\<rparr>\<rparr>"

definition local_block_new :: "u128 \<Rightarrow> usize \<Rightarrow> LocalBlock" where
  "local_block_new now_micros block_cap = \<lparr>lb_build_block = block_default now_micros, lb_block_deque = [],
    lb_block_cap = block_cap, lb_application_state = [], lb_encounter_records = [], lb_node_admissions = []\<rparr>"

definition lb_set_application_state :: "LocalBlock \<Rightarrow> bytes \<Rightarrow> unit result \<times> LocalBlock" where
  "lb_set_application_state q bytes =
    (case validate_application_state_len (length bytes) of
       Inl e \<Rightarrow> (Err e, q)
     | Inr _ \<Rightarrow> (Ok (), q\<lparr>lb_application_state := bytes\<rparr>))"

definition add_encounter_record :: "crypto \<Rightarrow> LocalBlock \<Rightarrow> EncounterRecord \<Rightarrow> HashType result \<times> LocalBlock" where
  "add_encounter_record E q record =
    (case encounter_verify E record of
       Inl e \<Rightarrow> (Err e, q)
     | Inr _ \<Rightarrow> (Ok (encounter_body_hash E (er_body record)),
         q\<lparr>lb_encounter_records := lb_encounter_records q @ [record]\<rparr>))"

definition take_encounter_records :: "LocalBlock \<Rightarrow> EncounterRecord list \<times> LocalBlock" where
  "take_encounter_records q = (lb_encounter_records q, q\<lparr>lb_encounter_records := []\<rparr>)"

definition add_node_admission :: "crypto \<Rightarrow> LocalBlock \<Rightarrow> NodeAdmission \<Rightarrow> HashType result \<times> LocalBlock" where
  "add_node_admission E q admission =
    (case admission_verify E admission of
       Inl e \<Rightarrow> (Err e, q)
     | Inr _ \<Rightarrow> (Ok (admission_body_hash E (na_body admission)),
         q\<lparr>lb_node_admissions := lb_node_admissions q @ [admission]\<rparr>))"

definition take_node_admissions :: "LocalBlock \<Rightarrow> NodeAdmission list \<times> LocalBlock" where
  "take_node_admissions q = (lb_node_admissions q, q\<lparr>lb_node_admissions := []\<rparr>)"

definition add_transaction :: "LocalBlock \<Rightarrow> Transaction \<Rightarrow> HashType \<times> LocalBlock" where
  "add_transaction q tx =
    (tx_hash tx, q\<lparr>lb_build_block := (lb_build_block q)\<lparr>block_body :=
      (block_body (lb_build_block q))\<lparr>bb_txs := bb_txs (block_body (lb_build_block q)) @ [tx]\<rparr>\<rparr>\<rparr>)"

abbreviation nonce_of :: "Block \<Rightarrow> Nonce" where
  "nonce_of b \<equiv> bb_nonce (block_body b)"

definition ensure_enqueueable :: "LocalBlock \<Rightarrow> Block \<Rightarrow> unit result" where
  "ensure_enqueueable q block =
    (if list_ex (\<lambda>queued. nonce_of queued = nonce_of block) (lb_block_deque q) then Err DuplicateBlock
     else if length (lb_block_deque q) \<ge> lb_block_cap q then Err BlockQueueFull
     else Ok ())"

definition close_block ::
  "crypto \<Rightarrow> u128 \<Rightarrow> LocalBlock \<Rightarrow> SecKey \<Rightarrow> HashType \<Rightarrow> Nonce \<Rightarrow> HashType result \<times> LocalBlock" where
  "close_block E now_micros q secret_key last_epoch nonce =
    (let body = (block_body (lb_build_block q))\<lparr>bb_last_epoch := last_epoch, bb_nonce := nonce,
           bb_application_state := lb_application_state q, bb_encounter_records := lb_encounter_records q,
           bb_node_admissions := lb_node_admissions q\<rparr>;
         signed = sign_with E ((lb_build_block q)\<lparr>block_body := body\<rparr>) secret_key;
         q1 = q\<lparr>lb_build_block := signed\<rparr>
     in case ensure_enqueueable q1 signed of
          Inl e \<Rightarrow> (Err e, q1)
        | Inr _ \<Rightarrow> (Ok (block_hash signed),
            q1\<lparr>lb_build_block := block_default now_micros, lb_block_deque := lb_block_deque q @ [signed],
              lb_encounter_records := [], lb_node_admissions := []\<rparr>))"

definition enqueue_preverified_block :: "LocalBlock \<Rightarrow> Block \<Rightarrow> HashType result \<times> LocalBlock" where
  "enqueue_preverified_block q block =
    (case ensure_enqueueable q block of
       Inl e \<Rightarrow> (Err e, q)
     | Inr _ \<Rightarrow> (Ok (block_hash block), q\<lparr>lb_block_deque := lb_block_deque q @ [block]\<rparr>))"

definition enqueue_block :: "crypto \<Rightarrow> LocalBlock \<Rightarrow> Block \<Rightarrow> HashType result \<times> LocalBlock" where
  "enqueue_block E q block =
    (case verify_integrity E block of Inl e \<Rightarrow> (Err e, q) | Inr _ \<Rightarrow> enqueue_preverified_block q block)"

definition reconcile_durable_pending_block :: "LocalBlock \<Rightarrow> Block option \<Rightarrow> unit result \<times> LocalBlock" where
  "reconcile_durable_pending_block q block =
    (let q1 = q\<lparr>lb_block_deque := []\<rparr> in
     case block of
       None \<Rightarrow> (Ok (), q1)
     | Some b \<Rightarrow> (case enqueue_preverified_block q1 b of (r, q2) \<Rightarrow> (and_then r (\<lambda>_. Ok ()), q2)))"

text \<open>The loop of \<open>dequeue_block\<close> over the deque; every turn either returns or drops the front block.\<close>

fun dequeue_loop :: "PubKey option \<Rightarrow> HashType \<Rightarrow> Nonce \<Rightarrow> Block list \<Rightarrow> Block option result \<times> Block list" where
  "dequeue_loop validator last_epoch nonce [] = (Ok None, [])"
| "dequeue_loop validator last_epoch nonce (block # deque) =
    (if nonce_of block < nonce then dequeue_loop validator last_epoch nonce deque
     else if nonce_of block > nonce then (Err (InvalidBlockNonce nonce (nonce_of block)), block # deque)
     else if bb_last_epoch (block_body block) \<noteq> last_epoch then (Err InvalidBlockLastEpoch, block # deque)
     else if (case validator of None \<Rightarrow> False | Some v \<Rightarrow> bb_validator (block_body block) \<noteq> v)
     then (Err UnknownSender, block # deque)
     else (Ok (Some block), deque))"

definition dequeue_block ::
  "LocalBlock \<Rightarrow> PubKey option \<Rightarrow> HashType \<Rightarrow> Nonce \<Rightarrow> u8 \<Rightarrow> Block option result \<times> LocalBlock" where
  "dequeue_block q validator last_epoch nonce round =
    (case dequeue_loop validator last_epoch nonce (lb_block_deque q) of (r, deque) \<Rightarrow> (r, q\<lparr>lb_block_deque := deque\<rparr>))"

definition contains_nonce :: "LocalBlock \<Rightarrow> Nonce \<Rightarrow> bool" where
  "contains_nonce q nonce \<longleftrightarrow> list_ex (\<lambda>block. nonce_of block = nonce) (lb_block_deque q)"


section \<open>The specification: a pool of blocks by nonce\<close>

type_synonym block_pool = "Nonce \<rightharpoonup> Block"

definition pool_of :: "LocalBlock \<Rightarrow> block_pool" where
  "pool_of q = map_of (map (\<lambda>b. (nonce_of b, b)) (lb_block_deque q))"

definition pool_from :: "Nonce \<Rightarrow> block_pool \<Rightarrow> block_pool" where
  "pool_from nonce pool = (\<lambda>k. if nonce \<le> k then pool k else None)"

definition pool_take :: "PubKey option \<Rightarrow> HashType \<Rightarrow> Nonce \<Rightarrow> block_pool \<Rightarrow> Block option result \<times> block_pool" where
  "pool_take validator last_epoch nonce pool0 =
    (let pool = pool_from nonce pool0 in
     case pool nonce of
       Some block \<Rightarrow>
         if bb_last_epoch (block_body block) \<noteq> last_epoch then (Err InvalidBlockLastEpoch, pool)
         else if (case validator of None \<Rightarrow> False | Some v \<Rightarrow> bb_validator (block_body block) \<noteq> v)
         then (Err UnknownSender, pool)
         else (Ok (Some block), pool(nonce := None))
     | None \<Rightarrow>
         if dom pool = {} then (Ok None, pool)
         else (Err (InvalidBlockNonce nonce (Min (dom pool))), pool))"

definition pool_put :: "usize \<Rightarrow> Block \<Rightarrow> block_pool \<Rightarrow> HashType result \<times> block_pool" where
  "pool_put block_cap block pool =
    (if nonce_of block \<in> dom pool then (Err DuplicateBlock, pool)
     else if block_cap \<le> card (dom pool) then (Err BlockQueueFull, pool)
     else (Ok (block_hash block), pool(nonce_of block \<mapsto> block)))"

definition in_order :: "LocalBlock \<Rightarrow> bool" where
  "in_order q \<longleftrightarrow> sorted_wrt (<) (map nonce_of (lb_block_deque q)) \<and> length (lb_block_deque q) \<le> lb_block_cap q"

abbreviation deque_pool :: "Block list \<Rightarrow> block_pool" where
  "deque_pool deque \<equiv> map_of (map (\<lambda>b. (nonce_of b, b)) deque)"

lemma dom_deque_pool: "dom (deque_pool deque) = nonce_of ` set deque"
  by (simp add: dom_map_of_conv_image_fst image_image)

lemma deque_pool_above:
  assumes "\<forall>b \<in> set deque. nonce \<le> nonce_of b"
  shows "pool_from nonce (deque_pool deque) = deque_pool deque"
proof
  fix k
  show "pool_from nonce (deque_pool deque) k = deque_pool deque k"
  proof (cases "k \<in> nonce_of ` set deque")
    case False
    then have "deque_pool deque k = None" using dom_deque_pool [of deque] by blast
    then show ?thesis by (simp add: pool_from_def)
  qed (use assms in \<open>auto simp: pool_from_def\<close>)
qed

lemma dequeue_loop_refines:
  assumes "sorted_wrt (<) (map nonce_of deque)"
  shows "pool_take validator last_epoch nonce (deque_pool deque) =
      (fst (dequeue_loop validator last_epoch nonce deque), deque_pool (snd (dequeue_loop validator last_epoch nonce deque)))
    \<and> sorted_wrt (<) (map nonce_of (snd (dequeue_loop validator last_epoch nonce deque)))
    \<and> length (snd (dequeue_loop validator last_epoch nonce deque)) \<le> length deque"
  using assms
proof (induction validator last_epoch nonce deque rule: dequeue_loop.induct)
  case (2 validator last_epoch nonce block deque)
  have above: "\<forall>b \<in> set deque. nonce_of block < nonce_of b" using "2.prems" unfolding list.map sorted_wrt.simps by simp
  show ?case
  proof (cases "nonce_of block < nonce")
    case True
    then have "pool_from nonce (deque_pool (block # deque)) = pool_from nonce (deque_pool deque)"
      by (auto simp: pool_from_def fun_eq_iff)
    then have "pool_take validator last_epoch nonce (deque_pool (block # deque)) = pool_take validator last_epoch nonce (deque_pool deque)"
      unfolding pool_take_def by (rule arg_cong)
    moreover have "dequeue_loop validator last_epoch nonce (block # deque) = dequeue_loop validator last_epoch nonce deque"
      using True by simp
    moreover have "sorted_wrt (<) (map nonce_of deque)" using "2.prems" by simp
    ultimately show ?thesis using "2.IH" [OF True] by (simp only:) (metis le_SucI length_Cons)
  next
    case False
    then have "pool_from nonce (deque_pool (block # deque)) = deque_pool (block # deque)"
      using above by (intro deque_pool_above) auto
    note take = pool_take_def [of validator last_epoch nonce "deque_pool (block # deque)", unfolded this]
    show ?thesis
    proof (cases "nonce_of block = nonce")
      case True
      have "nonce \<notin> nonce_of ` set deque" using above True by force
      then have "(deque_pool deque)(nonce := None) = deque_pool deque" using dom_deque_pool [of deque] by (auto simp: fun_upd_idem_iff)
      then show ?thesis unfolding take using True "2.prems" False by (auto simp: Let_def)
    next
      case False
      then have gt: "nonce < nonce_of block" using \<open>\<not> nonce_of block < nonce\<close> by simp
      then have none: "deque_pool (block # deque) nonce = None" using above dom_deque_pool [of "block # deque"] by force
      have "Min (dom (deque_pool (block # deque))) = nonce_of block"
        unfolding dom_deque_pool using above by (intro Min_eqI) (auto simp: less_imp_le)
      then show ?thesis unfolding take none Let_def using gt "2.prems" by auto
    qed
  qed
qed (simp add: pool_take_def pool_from_def Let_def)

lemma enqueue_refines:
  assumes "in_order q" "\<forall>k \<in> dom (pool_of q). k < nonce_of block"
  shows "pool_put (lb_block_cap q) block (pool_of q)
      = (fst (enqueue_preverified_block q block), pool_of (snd (enqueue_preverified_block q block)))
    \<and> in_order (snd (enqueue_preverified_block q block))"
proof -
  let ?deque = "lb_block_deque q"
  have nonces: "distinct (map nonce_of ?deque)" using assms(1) strict_sorted_iff by (auto simp: in_order_def)
  have less: "\<forall>b \<in> set ?deque. nonce_of b < nonce_of block" using assms(2) by (simp add: pool_of_def dom_deque_pool)
  then have "nonce_of block \<notin> dom (deque_pool ?deque)" unfolding dom_deque_pool by auto
  then have fresh: "deque_pool ?deque (nonce_of block) = None" unfolding domIff by blast
  have "card (dom (deque_pool ?deque)) = length ?deque"
    unfolding dom_deque_pool using distinct_card [OF nonces] by simp
  moreover have "deque_pool (?deque @ [block]) = (deque_pool ?deque)(nonce_of block \<mapsto> block)"
    using fresh by (auto simp: map_add_def fun_eq_iff split: option.splits)
  moreover have "\<not> list_ex (\<lambda>queued. nonce_of queued = nonce_of block) ?deque" using less by (auto simp: list_ex_iff)
  ultimately show ?thesis
    using assms(1) less fresh
    by (auto simp: pool_put_def enqueue_preverified_block_def ensure_enqueueable_def pool_of_def in_order_def sorted_wrt_append)
qed

lemma dequeue_refines:
  assumes "in_order q"
  shows "pool_take validator last_epoch nonce (pool_of q)
      = (fst (dequeue_block q validator last_epoch nonce round), pool_of (snd (dequeue_block q validator last_epoch nonce round)))
    \<and> in_order (snd (dequeue_block q validator last_epoch nonce round))"
  using dequeue_loop_refines [of "lb_block_deque q" validator last_epoch nonce] assms
  by (auto simp: in_order_def pool_of_def dequeue_block_def split: prod.splits)

text \<open>What a client of the queue relies on, and what follows for it: the block put under the highest nonce
  is the one taken for that nonce.\<close>

locale block_source =
  fixes ok :: "'q \<Rightarrow> bool" and pool :: "'q \<Rightarrow> block_pool" and cap :: "'q \<Rightarrow> usize"
    and put :: "'q \<Rightarrow> Block \<Rightarrow> HashType result \<times> 'q"
    and take_for :: "'q \<Rightarrow> PubKey option \<Rightarrow> HashType \<Rightarrow> Nonce \<Rightarrow> Block option result \<times> 'q"
  assumes put_refines: "ok q \<Longrightarrow> \<forall>k \<in> dom (pool q). k < nonce_of block \<Longrightarrow>
      pool_put (cap q) block (pool q) = (fst (put q block), pool (snd (put q block))) \<and> ok (snd (put q block))"
    and take_refines: "ok q \<Longrightarrow> pool_take validator last_epoch nonce (pool q)
      = (fst (take_for q validator last_epoch nonce), pool (snd (take_for q validator last_epoch nonce)))
      \<and> ok (snd (take_for q validator last_epoch nonce))"
begin

lemma put_take:
  assumes "ok q" "\<forall>k \<in> dom (pool q). k < nonce_of block" "fst (put q block) = Ok h"
  shows "fst (take_for (snd (put q block)) (Some (bb_validator (block_body block))) (bb_last_epoch (block_body block))
      (nonce_of block)) = Ok (Some block)
    \<and> pool (snd (take_for (snd (put q block)) (Some (bb_validator (block_body block))) (bb_last_epoch (block_body block))
      (nonce_of block))) = Map.empty"
proof -
  have put: "pool_put (cap q) block (pool q) = (Ok h, pool (snd (put q block)))" "ok (snd (put q block))"
    using put_refines [OF assms(1,2)] assms(3) by auto
  then have "pool (snd (put q block)) = (pool q)(nonce_of block \<mapsto> block)"
    by (auto simp: pool_put_def split: if_splits)
  moreover have "pool_from (nonce_of block) ((pool q)(nonce_of block \<mapsto> block)) = [nonce_of block \<mapsto> block]"
  proof
    fix k
    have "pool q k = None" if "nonce_of block \<le> k" using assms(2) that by (metis domI leD option.exhaust)
    then show "pool_from (nonce_of block) ((pool q)(nonce_of block \<mapsto> block)) k = [nonce_of block \<mapsto> block] k"
      by (auto simp: pool_from_def)
  qed
  ultimately show ?thesis
    using take_refines [OF put(2), of "Some (bb_validator (block_body block))" "bb_last_epoch (block_body block)" "nonce_of block"]
    by (simp add: pool_take_def)
qed

end

interpretation lb: block_source in_order pool_of lb_block_cap enqueue_preverified_block
  "\<lambda>q validator last_epoch nonce. dequeue_block q validator last_epoch nonce 0"
  by unfold_locales (rule enqueue_refines, assumption+, rule dequeue_refines)

text \<open>C27: as long as blocks are queued in the order of their nonces, the queue implements a pool of blocks by nonce.
  Taking the block for a nonce answers as the pool does, on every branch: it discards exactly
  the blocks below the nonce and keeps a block that cannot be used. Queueing a block with a higher nonce than those in
  the queue answers as putting it into the pool.\<close>

theorem local_block_refines_pool:
  assumes "in_order q"
  shows "pool_take validator last_epoch nonce (pool_of q)
      = (fst (dequeue_block q validator last_epoch nonce round), pool_of (snd (dequeue_block q validator last_epoch nonce round)))
    \<and> in_order (snd (dequeue_block q validator last_epoch nonce round))
    \<and> ((\<forall>k \<in> dom (pool_of q). k < nonce_of block) \<longrightarrow>
        pool_put (lb_block_cap q) block (pool_of q)
          = (fst (enqueue_preverified_block q block), pool_of (snd (enqueue_preverified_block q block)))
        \<and> in_order (snd (enqueue_preverified_block q block)))"
  using dequeue_refines [OF assms] enqueue_refines [OF assms] by blast

theorem local_block_refines_pool_witness:
  "let q = (local_block_new 0 2)\<lparr>lb_block_deque := [(block_default 1)\<lparr>block_body := (block_body (block_default 1))\<lparr>bb_nonce := 3\<rparr>\<rparr>]\<rparr>
   in pool_take None default_hash 4 (pool_of q) = (Ok None, pool_of (snd (dequeue_block q None default_hash 4 0)))
    \<and> lb_block_deque (snd (dequeue_block q None default_hash 4 0)) = []"
proof -
  let ?q = "(local_block_new 0 2)\<lparr>lb_block_deque := [(block_default 1)\<lparr>block_body := (block_body (block_default 1))\<lparr>bb_nonce := 3\<rparr>\<rparr>]\<rparr>"
  have "in_order ?q" by (simp add: in_order_def local_block_new_def)
  from local_block_refines_pool [OF this, of None default_hash 4 0] show ?thesis
    by (simp add: Let_def dequeue_block_def)
qed

end
