(* ===== verification/Runtime.thy ===== *)
theory Runtime
  imports State TrustedLog AddressBook LocalBlock
begin

text \<open>
  \<open>src/src/runtime.rs\<close> and \<open>runtime/core.rs\<close>: the state of one node, its construction, the helpers that its
  handlers share and the membership leases. A handler runs as one step on the state: the locks of the source protect the
  same fields, but that it releases them between reads and writes is not modelled. The results of writing to disk and the
  readings of the clock are inputs of a step (\<open>io\<close>). Telemetry, the connection pool and the latency map, which
  consensus never reads, are left out.
\<close>

section \<open>Configuration and state\<close>

datatype RuntimeMode = ConsensusMode | OverlayMode

datatype TrustMode = Verified | Trusted | HighAvailability

definition is_trusted :: "TrustMode \<Rightarrow> bool" where
  "is_trusted mode \<longleftrightarrow> mode = Trusted"

definition is_high_availability :: "TrustMode \<Rightarrow> bool" where
  "is_high_availability mode \<longleftrightarrow> mode = HighAvailability"

record EpochTarget =
  tg_group_id :: ConsensusGroupId
  tg_last_epoch :: HashType
  tg_nonce :: Nonce

record EpochStartedRetry =
  sr_message :: EpochStarted
  sr_pending_validators :: "PubKey btree_set"
  sr_last_failures :: "(PubKey, string) btree_map"

record PrefillDispatchRetry =
  pd_dispatch :: Dispatch
  pd_pending_recipients :: "PubKey btree_set"
  pd_last_failures :: "(PubKey, string) btree_map"

instantiation MSGKey :: linorder
begin

definition less_eq_MSGKey :: "MSGKey \<Rightarrow> MSGKey \<Rightarrow> bool" where
  "a \<le> b \<longleftrightarrow> signature_tag a \<le> signature_tag b"

definition less_MSGKey :: "MSGKey \<Rightarrow> MSGKey \<Rightarrow> bool" where
  "a < b \<longleftrightarrow> signature_tag a < signature_tag b"

instance
proof
  fix a b :: MSGKey
  show "a \<le> b \<Longrightarrow> b \<le> a \<Longrightarrow> a = b"
    unfolding less_eq_MSGKey_def using signature_tag_inject [of a b] by (auto dest: order.antisym)
qed (auto simp: less_eq_MSGKey_def less_MSGKey_def less_le signature_tag_inject)

end

type_synonym FutureRoundMessageKey = "HashType \<times> Nonce \<times> u8 \<times> MSGKey \<times> HashType"

record MembershipLeaseWatermark =
  wm_statement_hash :: HashType
  wm_expires_at_unix_millis :: u64

text \<open>The instant until which a view is valid is a reading of the monotonic clock, in milliseconds.\<close>

record VerifiedMembershipView =
  mv_group_id :: ConsensusGroupId
  mv_epoch_hash :: HashType
  mv_epoch_nonce :: u64
  mv_lease_expires_at_unix_millis :: u64
  mv_valid_until :: nat
  mv_members :: MemberSet
  mv_relays :: "(PubKey, Service) btree_map"

record 'm NodeRuntime =
  nr_group_id :: ConsensusGroupId
  nr_state :: "'m LocalState"
  nr_future_round_messages :: "(FutureRoundMessageKey, Msg list) btree_map"
  nr_epoch_started_hints :: "(PubKey, EpochTarget) btree_map"
  nr_epoch_started_retry :: "EpochStartedRetry option"
  nr_prefill_dispatch_retry :: "PrefillDispatchRetry option"
  nr_local_blocks :: LocalBlock
  nr_accepted_local_blocks :: "(Nonce, HashType) btree_map"
  nr_address_book :: AddressBook
  nr_signer :: "SecretSigner option"
  nr_trust_mode :: TrustMode
  nr_mode :: RuntimeMode
  nr_block_cap :: usize
  nr_consensus_parameters :: ConsensusParameters
  nr_removal_policy :: ConsensusNodeRemovalPolicy
  nr_snapshot_path :: bool
  nr_trusted_epoch_log :: "'m TrustedEpochLog option"
  nr_epoch_commit :: Nonce
  nr_verified_membership :: VerifiedMembershipView
  nr_membership_lease_watermarks :: "(256 word, MembershipLeaseWatermark) btree_map"

text \<open>What a step reads from outside: one reading of each clock, the creation time of a new block, and the results of
  writing blocks, the snapshot and the trusted log. With no path configured a write is the result \<open>Ok ()\<close>.\<close>

record io =
  io_now_unix_millis :: u64
  io_instant :: nat
  io_created :: u128
  io_put_block :: "Block \<Rightarrow> unit result"
  io_block_by_hash :: "HashType \<Rightarrow> Block option result"
  io_snapshot :: "unit result"
  io_log :: "unit result"

type_synonym ('m, 'a) step = "('m NodeRuntime, 'a) action"

definition on_state :: "('m LocalState, 'a) action \<Rightarrow> ('m, 'a) step" where
  "on_state m = within nr_state (\<lambda>s n. n\<lparr>nr_state := s\<rparr>) m"

definition on_blocks :: "(LocalBlock, 'a) action \<Rightarrow> ('m, 'a) step" where
  "on_blocks m = within nr_local_blocks (\<lambda>b n. n\<lparr>nr_local_blocks := b\<rparr>) m"

definition on_log :: "('m TrustedEpochLog \<Rightarrow> unit result \<times> 'm TrustedEpochLog) \<Rightarrow> ('m, unit) step" where
  "on_log f n =
    (case nr_trusted_epoch_log n of
       None \<Rightarrow> (Done (), n)
     | Some log \<Rightarrow> (case f log of
         (Inl e, log') \<Rightarrow> (Failed e, n\<lparr>nr_trusted_epoch_log := Some log'\<rparr>)
       | (Inr _, log') \<Rightarrow> (Done (), n\<lparr>nr_trusted_epoch_log := Some log'\<rparr>)))"

definition self_key :: "'m NodeRuntime \<Rightarrow> PubKey" where
  "self_key n = ni_public_key (lst_self_node (nr_state n))"

definition trusted :: "'m NodeRuntime \<Rightarrow> bool" where
  "trusted n \<longleftrightarrow> is_trusted (nr_trust_mode n)"

definition node_tip :: "'m NodeRuntime \<Rightarrow> 'm Epoch result" where
  "node_tip n = ok_or (chain_tip (nr_state n)) EmptyEpochChain"


section \<open>Guards\<close>

definition ensure_consensus_mode :: "'m NodeRuntime \<Rightarrow> unit result" where
  "ensure_consensus_mode n = (if nr_mode n = OverlayMode then Err WireProtocol else Ok ())"

definition next_epoch_target :: "'m NodeRuntime \<Rightarrow> EpochTarget result" where
  "next_epoch_target n =
    and_then (ensure_consensus_mode n) (\<lambda>_.
      and_then (node_tip n) (\<lambda>epoch.
        Ok \<lparr>tg_group_id = nr_group_id n, tg_last_epoch = ep_hash epoch, tg_nonce = new_next (epb_nonce (ep_body epoch))\<rparr>))"

definition ensure_current_header_target :: "'m NodeRuntime \<Rightarrow> Header \<Rightarrow> unit result" where
  "ensure_current_header_target n header =
    and_then (node_tip n) (\<lambda>latest.
      if \<not> list_ex (\<lambda>epoch. ep_hash epoch = hd_last_epoch header) (lst_epochchain (nr_state n)) then Err WireProtocol
      else if hd_last_epoch header \<noteq> ep_hash latest \<or> hd_nonce header \<noteq> new_next (epb_nonce (ep_body latest)) then Err WireProtocol
      else Ok ())"

definition verify_message_signature :: "('m, 'k) node_env \<Rightarrow> Header \<Rightarrow> MSGKey \<Rightarrow> bytes \<Rightarrow> 'm NodeRuntime \<Rightarrow> unit result" where
  "verify_message_signature N header kind body n =
    and_then (ensure_current_header_target n header) (\<lambda>_.
      if trusted n then Ok () else header_verify_signature (ne_crypto N) header kind body)"

definition sign_body ::
  "('m, 'k) node_env \<Rightarrow> MSGKey \<Rightarrow> HashType \<Rightarrow> Nonce \<Rightarrow> u8 \<Rightarrow> bytes \<Rightarrow> 'm NodeRuntime \<Rightarrow> Signature result" where
  "sign_body N kind last_epoch nonce round body n =
    (if trusted n then Ok (Signature 0)
     else case nr_signer n of
       None \<Rightarrow> Err MissingSecretKey
     | Some signer \<Rightarrow> Ok (ed_sign (ne_crypto N) signer
         (hash_as_ref (signature_hash_for_bytes (ne_crypto N) (self_key n) last_epoch nonce round kind body))))"

definition signed_header_for_body ::
  "('m, 'k) node_env \<Rightarrow> EpochTarget \<Rightarrow> u8 \<Rightarrow> MSGKey \<Rightarrow> bytes \<Rightarrow> 'm NodeRuntime \<Rightarrow> Header result" where
  "signed_header_for_body N target round kind body n =
    and_then (sign_body N kind (tg_last_epoch target) (tg_nonce target) round body n) (\<lambda>signature.
      Ok \<lparr>hd_sender = self_key n, hd_last_epoch = tg_last_epoch target, hd_nonce = tg_nonce target, hd_round = round,
          hd_signature = signature\<rparr>)"

definition block_service :: "'m NodeRuntime \<Rightarrow> Service option" where
  "block_service n = book_service BlockService (nr_address_book n)"

definition validate_block_service :: "'m NodeRuntime \<Rightarrow> Block \<Rightarrow> unit result" where
  "validate_block_service n block =
    (case block_service n of
       Some service \<Rightarrow> if bb_validator (block_body block) \<noteq> sv_public_key service then Err UnknownSender else Ok ()
     | None \<Rightarrow> Ok ())"

definition is_current_verifier :: "('m, 'k) node_env \<Rightarrow> PubKey \<Rightarrow> 'm NodeRuntime \<Rightarrow> bool" where
  "is_current_verifier N public_key n =
    (case chain_tip (nr_state n) of
       None \<Rightarrow> False
     | Some epoch \<Rightarrow> list_ex (\<lambda>k. k = public_key) (it_keys (ne_tree N) (epb_verifiers (ep_body epoch))))"

definition is_prefill_recipient_for_sender :: "('m, 'k) node_env \<Rightarrow> PubKey \<Rightarrow> 'm NodeRuntime \<Rightarrow> bool result" where
  "is_prefill_recipient_for_sender N sender n =
    (if sender = self_key n then Ok False
     else and_then (next_epoch_target n) (\<lambda>target.
       and_then (node_tip n) (\<lambda>epoch.
         case it_get (ne_tree N) (epb_verifiers (ep_body epoch)) sender of
           None \<Rightarrow> Ok False
         | Some sender_identity \<Rightarrow>
             Ok (self_key n \<in> set (select_prefill_recipients_with_size (ne_key_tree N)
               (it_keys (ne_tree N) (epb_verifiers (ep_body epoch))) sender (tg_last_epoch target)
               (ni_shuffle sender_identity) (cp_quorum_size (effective_consensus_parameters (ep_body epoch))))))))"


section \<open>Checks on blocks and messages\<close>

definition block_integrity :: "('m, 'k) node_env \<Rightarrow> bool \<Rightarrow> HashType \<Rightarrow> Block \<Rightarrow> unit result" where
  "block_integrity N is_unsigned hash block =
    (if is_unsigned then verify_unsigned_integrity_with_hash (ne_crypto N) block hash
     else verify_integrity_with_hash (ne_crypto N) block hash)"

definition verify_block_integrity :: "('m, 'k) node_env \<Rightarrow> 'm NodeRuntime \<Rightarrow> Block \<Rightarrow> unit result" where
  "verify_block_integrity N n block =
    (if trusted n then verify_unsigned_integrity_with_hash (ne_crypto N) block (block_hash block)
     else verify_integrity (ne_crypto N) block)"

definition verify_dispatch_payload ::
  "('m, 'k) node_env \<Rightarrow> bool \<Rightarrow> Header \<Rightarrow> DispatchBody \<Rightarrow> unit result" where
  "verify_dispatch_payload N is_unsigned header body =
    and_then (dispatch_validate (ne_crypto N) body) (\<lambda>_.
      and_then (try_fold (\<lambda>_ (hash, block).
          if bb_last_epoch (block_body block) \<noteq> hd_last_epoch header then Err InvalidBlockLastEpoch
          else if bb_nonce (block_body block) \<noteq> hd_nonce header then Err (InvalidBlockNonce (hd_nonce header) (bb_nonce (block_body block)))
          else block_integrity N is_unsigned hash block) () (bm_entries (db_blocks body))) (\<lambda>_.
        if \<not> is_unsigned \<and> \<not> tree_verify (ne_crypto N) (db_signature_tree body) then Err WireProtocol else Ok ()))"

definition verify_redispatched_blocks :: "('m, 'k) node_env \<Rightarrow> bool \<Rightarrow> block_map \<Rightarrow> unit result" where
  "verify_redispatched_blocks N is_unsigned blocks =
    try_fold (\<lambda>_ (hash, block). block_integrity N is_unsigned hash block) () (bm_entries blocks)"

definition persist_blocks_if_configured :: "io \<Rightarrow> Block list \<Rightarrow> unit result" where
  "persist_blocks_if_configured I blocks = try_fold (\<lambda>_ block. io_put_block I block) () blocks"

definition proof_signature ::
  "('m, 'k) node_env \<Rightarrow> bool \<Rightarrow> Header \<Rightarrow> VerificationBody \<Rightarrow> PubKey list \<Rightarrow> PubKey btree_set \<Rightarrow> PubKey \<times> Signature
    \<Rightarrow> PubKey btree_set result" where
  "proof_signature N is_unsigned header body quorum_nodes distinct_verifiers entry =
    (let (verifier, signature) = entry in
     if verifier \<notin> set quorum_nodes then Err UnknownSender
     else if bm_contains distinct_verifiers verifier then Ok distinct_verifiers
     else and_then (if is_unsigned then Ok ()
         else signature_verify (ne_crypto N) signature (hash_as_ref (signature_hash_for_bytes (ne_crypto N) verifier
           (hd_last_epoch header) (hd_nonce header) (hd_round header) KeyVerification (verification_signing_bytes body))) verifier)
       (\<lambda>_. Ok (bm_insert verifier () distinct_verifiers)))"

definition verify_proposal_evidence ::
  "('m, 'k) node_env \<Rightarrow> bool \<Rightarrow> Header \<Rightarrow> ProposalBody \<Rightarrow> TempQuorum \<Rightarrow> unit result" where
  "verify_proposal_evidence N is_unsigned header body q =
    (if \<not> pb_consensus body then Ok ()
     else and_then (ok_or (pb_approved_blocks body) WireProtocol) (\<lambda>approved_blocks.
       and_then (ok_or (pb_approved_hash body) WireProtocol) (\<lambda>approved_hash.
         if map_hash (ne_crypto N) approved_blocks \<noteq> approved_hash then Err WireProtocol
         else and_then (ok_or (pb_verif body) WireProtocol) (\<lambda>verification_proof.
           and_then (try_fold (proof_signature N is_unsigned header
               \<lparr>vb_blocks_hash = approved_hash, vb_blocks = approved_blocks\<rparr> (mx_quorum_nodes (tq_msg_matrix q)))
             bm_empty verification_proof) (\<lambda>distinct_verifiers.
               if bm_len distinct_verifiers < unat (pc_supermajority (tq_proposals q)) then Err WireProtocol else Ok ())))))"

definition verify_proposal_proof ::
  "('m, 'k) node_env \<Rightarrow> bool \<Rightarrow> Header \<Rightarrow> ProposalBody \<Rightarrow> TempQuorum \<Rightarrow> unit result" where
  "verify_proposal_proof N is_unsigned header body q =
    and_then (verify_proposal_evidence N is_unsigned header body q) (\<lambda>_.
      if \<not> pb_consensus body then Ok ()
      else and_then (ok_or (pb_approved_blocks body) WireProtocol) (\<lambda>approved_blocks.
        and_then (ok_or (pb_approved_hash body) WireProtocol) (\<lambda>approved_hash.
          if approved_blocks \<noteq> verified_blocks q \<or> Some approved_hash \<noteq> tq_verified_blocks_hash q
          then Err WireProtocol else Ok ())))"


section \<open>Votes\<close>

definition record_verified_dispatch_blocks :: "crypto \<Rightarrow> block_map \<Rightarrow> TempQuorum \<Rightarrow> TempQuorum" where
  "record_verified_dispatch_blocks E blocks q = refresh_verified_blocks_hash E (record_blocks (bm_entries blocks) q)"

definition record_commit_vote :: "Commit \<Rightarrow> usize \<Rightarrow> TempQuorum \<Rightarrow> TempQuorum" where
  "record_commit_vote message required_signatures q =
    (let sender = hd_sender (cm_header message); body = cm_body message;
         q1 = q\<lparr>tq_pending_commits := bm_remove sender (tq_pending_commits q),
                tq_commit_senders := bm_insert sender () (tq_commit_senders q)\<rparr>;
         q2 = (if cb_consensus body
               then q1\<lparr>tq_commit_true_senders := bm_insert sender () (tq_commit_true_senders q1),
                       tq_epoch_signatures := (case cb_epoch_signature body of
                           Some signature \<Rightarrow> bm_insert sender signature (tq_epoch_signatures q1)
                         | None \<Rightarrow> tq_epoch_signatures q1)\<rparr>
               else q1\<lparr>tq_commit_true_senders := bm_remove sender (tq_commit_true_senders q1),
                       tq_epoch_signatures := bm_remove sender (tq_epoch_signatures q1)\<rparr>)
     in q2\<lparr>tq_commit_sent := required_signatures \<le> bm_len (tq_commit_true_senders q2)\<rparr>)"

definition commit_sender_and_threshold :: "('m, 'k) node_env \<Rightarrow> Header \<Rightarrow> ('m LocalState, bool \<times> usize) action" where
  "commit_sender_and_threshold N header =
    seq (asks_result (\<lambda>s. ok_or (chain_tip s) EmptyEpochChain)) (\<lambda>previous.
      if ep_hash previous \<noteq> hd_last_epoch header \<or> new_next (epb_nonce (ep_body previous)) \<noteq> hd_nonce header
      then fail InvalidEpochNonce
      else
        let verifiers = epb_verifiers (ep_body previous);
            sender_is_validator = (it_get (ne_tree N) verifiers (hd_sender header) \<noteq> None);
            validator_count = it_len (ne_tree N) verifiers
        in on_consensus N (hd_last_epoch header) (hd_nonce header) (asks (\<lambda>c.
          if checked_sub (length (tc_peers c)) 1 = Some (unat (hd_round header))
          then (sender_is_validator, supermajority_count validator_count)
          else let round_peers = peers_with_us c (hd_round header)
               in (hd_sender header \<in> set round_peers, supermajority_count (length round_peers)))))"

definition validate_commit_epoch_share :: "('m, 'k) node_env \<Rightarrow> Commit \<Rightarrow> 'm LocalState \<Rightarrow> unit result" where
  "validate_commit_epoch_share N message s =
    (let header = cm_header message; body = cm_body message;
         carries_share = (cb_epoch_hash body \<noteq> None \<or> cb_epoch_signature body \<noteq> None)
     in if \<not> cb_consensus body then (if carries_share then Err WireProtocol else Ok ())
        else and_then (prepare_verified_epoch N (hd_last_epoch header) (hd_nonce header) (hd_round header) s) (\<lambda>prepared.
          case prepared of
            None \<Rightarrow> if carries_share then Err WireProtocol else Ok ()
          | Some epoch \<Rightarrow>
              if cb_epoch_hash body \<noteq> Some (ep_hash epoch) then Err InvalidBlockHash
              else and_then (ok_or (cb_epoch_signature body) FailedConsensus) (\<lambda>signature.
                signature_verify (ne_crypto N) signature (hash_as_ref (ep_hash epoch)) (hd_sender header))))"

definition proposal_matches_verified_blocks :: "Proposal \<Rightarrow> TempQuorum \<Rightarrow> bool" where
  "proposal_matches_verified_blocks message q \<longleftrightarrow>
    pb_approved_blocks (pr_body message) = Some (verified_blocks q) \<and> pb_approved_hash (pr_body message) = tq_verified_blocks_hash q"

definition activate_pending_proposals :: "TempQuorum \<Rightarrow> TempQuorum" where
  "activate_pending_proposals q =
    fold (\<lambda>(sender, proposal) q. q\<lparr>tq_pending_proposals := bm_remove sender (tq_pending_proposals q),
        tq_proposals := prop_record (tq_proposals q) proposal\<rparr>)
      (filter (\<lambda>(_, proposal). proposal_matches_verified_blocks proposal q) (bm_entries (tq_pending_proposals q))) q"

definition activate_pending_true_commits :: "usize \<Rightarrow> TempQuorum \<Rightarrow> TempQuorum" where
  "activate_pending_true_commits required_signatures q =
    (if prop_consensus (tq_proposals q) \<noteq> Some True then q
     else fold (\<lambda>message. record_commit_vote message required_signatures) (bm_values (tq_pending_commits q))
       (q\<lparr>tq_pending_commits := bm_empty\<rparr>))"

fun message_body_hash :: "crypto \<Rightarrow> Msg \<Rightarrow> HashType option" where
  "message_body_hash E (MsgDispatch m) = Some (db_blocks_hash (di_body m))"
| "message_body_hash E (MsgEchoResponse m) = Some (ec_blocks_hash (es_body m))"
| "message_body_hash E (MsgEchoRequest m) = Some (map_hash E (eq_requested_blocks m))"
| "message_body_hash E (MsgEchoReDispatch m) = Some (map_hash E (re_redispatched_blocks m))"
| "message_body_hash E (MsgVerification m) = Some (vb_blocks_hash (vf_body m))"
| "message_body_hash E (MsgProposal m) = Some (unwrap_or (pb_approved_hash (pr_body m)) default_hash)"
| "message_body_hash E (MsgCommit m) = Some (commit_body_hash (cm_body m))"
| "message_body_hash E (MsgEpochStarted m) = Some default_hash"
| "message_body_hash E (MsgRoundSkipVote m) = Some (manifest_hash E (kb_manifest (km_body m)))"
| "message_body_hash E (MsgRoundSkipCertificate m) = Some (sc_manifest_hash (kc_certificate (kd_body m)))"
| "message_body_hash E (MsgReconcileAppraisal m) = Some (ra_blocks_hash (rca_body m))"
| "message_body_hash E (MsgReconcileRequest m) = Some (rr_blocks_hash (rcr_body m))"
| "message_body_hash E (MsgReconcileResponse m) = Some (rs_response_hash (rcs_body m))"
| "message_body_hash E (MsgReconcileCommit m) = Some (rc_blocks_hash (rcc_body m))"
| "message_body_hash E (MsgTrustedAcknowledgement m) = Some (vb_blocks_hash (ta_body m))"
| "message_body_hash E MsgOk = None"
| "message_body_hash E MsgFail = None"

definition message_header_kind_hash :: "crypto \<Rightarrow> Msg \<Rightarrow> (Header \<times> MSGKey \<times> HashType) option" where
  "message_header_kind_hash E message =
    (case (message_header message, message_body_hash E message) of
       (Some (kind, header), Some hash) \<Rightarrow> Some (header, kind, hash)
     | _ \<Rightarrow> None)"

end
