(* ===== verification/RuntimeCore.thy ===== *)
theory RuntimeCore
  imports Runtime
begin

text \<open>
  The rest of \<open>src/src/runtime.rs\<close> and \<open>runtime/core.rs\<close>, with \<open>runtime/snapshot.rs\<close>: the genesis epoch, the
  construction of a node, its snapshots and their validation, what a commit publishes, and the membership leases. The
  JSON of a snapshot and the file it is written to are not modelled; a write is one result of \<open>io\<close>. That a
  snapshot restores the chain it was taken of, and that a node signs at most one lease statement per challenge while the
  first is alive, is shown in \<open>Restart\<close>.
\<close>

section \<open>Genesis\<close>

definition genesis_epoch_for_group_with_parameters ::
  "('m, 'k) node_env \<Rightarrow> ConsensusGroupId \<Rightarrow> NodeIdentity list \<Rightarrow> ConsensusParameters \<Rightarrow> 'm Epoch" where
  "genesis_epoch_for_group_with_parameters N group_id nodes consensus_parameters =
    (let verifiers = fold (\<lambda>node m. it_insert (ne_tree N) (ni_public_key node) (public_only node) m) nodes (it_new (ne_tree N)) in
     set_hash N \<lparr>ep_hash = default_hash, ep_signatures = bm_empty,
       ep_body = \<lparr>epb_group_id = group_id, epb_members = from_verifiers (ne_tree N) verifiers, epb_verifiers = verifiers,
         epb_last_epoch = default_hash, epb_previous_nonce = None, epb_nonce = 0, epb_merkle_root = default_hash,
         epb_blocks = bm_empty, epb_consensus_parameters = Some consensus_parameters\<rparr>\<rparr>)"

definition genesis_epoch_for_group :: "('m, 'k) node_env \<Rightarrow> ConsensusGroupId \<Rightarrow> NodeIdentity list \<Rightarrow> 'm Epoch" where
  "genesis_epoch_for_group N group_id nodes = genesis_epoch_for_group_with_parameters N group_id nodes ConsensusParameters_default"

definition genesis_epoch :: "('m, 'k) node_env \<Rightarrow> NodeIdentity list \<Rightarrow> 'm Epoch" where
  "genesis_epoch N nodes = genesis_epoch_for_group_with_parameters N group_root nodes ConsensusParameters_default"


section \<open>Snapshots\<close>

record 'm RuntimeSnapshotV1 =
  sn_version :: u16
  sn_group_id :: ConsensusGroupId
  sn_self_public_key :: PubKey
  sn_epochchain :: "'m Epoch list"
  sn_address_book :: "Service list"
  sn_signed_service_records :: "SignedServiceRecord list"
  sn_block_cap :: usize
  sn_consensus_parameters :: ConsensusParameters
  sn_trust_mode :: TrustMode
  sn_mode :: RuntimeMode
  sn_removal_policy :: ConsensusNodeRemovalPolicy
  sn_membership_lease_watermarks :: "(256 word \<times> HashType) list"
  sn_membership_lease_watermark_expiries :: "(256 word \<times> u64) list"

definition SNAPSHOT_VERSION :: u16 where
  "SNAPSHOT_VERSION = 1"

definition snapshot_link :: "('m, 'k) node_env \<Rightarrow> 'm RuntimeSnapshotV1 \<Rightarrow> 'm Epoch \<Rightarrow> 'm Epoch \<Rightarrow> unit result" where
  "snapshot_link N snapshot previous epoch =
    (let body = ep_body epoch in
     if epb_last_epoch body \<noteq> ep_hash previous then Err WireProtocol
     else if epb_nonce body \<noteq> new_next (epb_nonce (ep_body previous)) then Err InvalidEpochNonce
     else if (case epb_previous_nonce body of Some nonce \<Rightarrow> nonce \<noteq> epb_nonce (ep_body previous) | None \<Rightarrow> False)
       then Err InvalidEpochNonce
     else if sn_trust_mode snapshot = Verified then validate_certified_extension N previous epoch (sn_removal_policy snapshot)
     else Ok ())"

definition snapshot_epoch_check :: "('m, 'k) node_env \<Rightarrow> 'm RuntimeSnapshotV1 \<Rightarrow> 'm Epoch option \<Rightarrow> 'm Epoch \<Rightarrow> unit result" where
  "snapshot_epoch_check N snapshot previous epoch =
    (let body = ep_body epoch; parameters = effective_consensus_parameters body in
     if epb_group_id body \<noteq> sn_group_id snapshot then Err WireProtocol
     else and_then (ConsensusParameters_validate parameters) (\<lambda>_.
       if parameters \<noteq> sn_consensus_parameters snapshot
       then Err (ConsensusParametersMismatch (quorum_get (cp_quorum_size (sn_consensus_parameters snapshot))) (quorum_get (cp_quorum_size parameters)))
       else if ep_hash epoch \<noteq> epoch_body_hash N body then Err WireProtocol
       else case previous of
         Some previous \<Rightarrow> snapshot_link N snapshot previous epoch
       | None \<Rightarrow> if epb_previous_nonce body \<noteq> None then Err WireProtocol else Ok ()))"

definition snapshot_validate :: "('m, 'k) node_env \<Rightarrow> 'm RuntimeSnapshotV1 \<Rightarrow> unit result" where
  "snapshot_validate N snapshot =
    (if sn_version snapshot \<noteq> SNAPSHOT_VERSION then Err WireProtocol
     else if sn_epochchain snapshot = [] then Err EmptyEpochChain
     else and_then (ConsensusParameters_validate (sn_consensus_parameters snapshot)) (\<lambda>_.
       and_then (validate_genesis_anchor N (hd (sn_epochchain snapshot)) (sn_group_id snapshot)) (\<lambda>_.
         and_then (try_fold (\<lambda>previous epoch. and_then (snapshot_epoch_check N snapshot previous epoch) (\<lambda>_. Ok (Some epoch)))
             None (sn_epochchain snapshot)) (\<lambda>_.
           let latest = last (sn_epochchain snapshot);
               challenges = map fst (sn_membership_lease_watermarks snapshot);
               expiries = map fst (sn_membership_lease_watermark_expiries snapshot)
           in if it_get (ne_tree N) (epb_verifiers (ep_body latest)) (sn_self_public_key snapshot) = None then Err WireProtocol
              else if \<not> distinct challenges \<or> \<not> distinct expiries \<or> \<not> set expiries \<subseteq> set challenges then Err WireProtocol
              else Ok ()))))"

definition validate_for_node :: "('m, 'k) node_env \<Rightarrow> NodeIdentity \<Rightarrow> 'm RuntimeSnapshotV1 \<Rightarrow> unit result" where
  "validate_for_node N self_node snapshot =
    and_then (snapshot_validate N snapshot) (\<lambda>_.
      if sn_self_public_key snapshot \<noteq> ni_public_key self_node then Err KeyMismatch else Ok ())"

definition unexpired_watermarks ::
  "u64 \<Rightarrow> (256 word, MembershipLeaseWatermark) btree_map \<Rightarrow> (256 word, MembershipLeaseWatermark) btree_map" where
  "unexpired_watermarks now watermarks = bm_retain (\<lambda>_ w. wm_expires_at_unix_millis w > now) watermarks"

definition runtime_snapshot :: "u64 \<Rightarrow> 'm NodeRuntime \<Rightarrow> 'm RuntimeSnapshotV1" where
  "runtime_snapshot now n =
    (let watermarks = bm_entries (nr_membership_lease_watermarks n) in
     \<lparr>sn_version = SNAPSHOT_VERSION, sn_group_id = nr_group_id n, sn_self_public_key = self_key n,
      sn_epochchain = lst_epochchain (nr_state n), sn_address_book = bm_values (ab_services (nr_address_book n)),
      sn_signed_service_records = filter (\<lambda>r. srb_expires_at_unix_millis (ssr_body r) > now)
        (bm_values (ab_signed_records (nr_address_book n))),
      sn_block_cap = nr_block_cap n, sn_consensus_parameters = nr_consensus_parameters n, sn_trust_mode = nr_trust_mode n,
      sn_mode = nr_mode n, sn_removal_policy = nr_removal_policy n,
      sn_membership_lease_watermarks = map (\<lambda>(challenge, w). (challenge, wm_statement_hash w)) watermarks,
      sn_membership_lease_watermark_expiries = map (\<lambda>(challenge, w). (challenge, wm_expires_at_unix_millis w)) watermarks\<rparr>)"

definition snapshot :: "('m, 'k) node_env \<Rightarrow> io \<Rightarrow> ('m, 'm RuntimeSnapshotV1) step" where
  "snapshot N I =
    seq (update (\<lambda>n. n\<lparr>nr_membership_lease_watermarks :=
        unexpired_watermarks (io_now_unix_millis I) (nr_membership_lease_watermarks n)\<rparr>)) (\<lambda>_.
      seq (asks (runtime_snapshot (io_now_unix_millis I))) (\<lambda>taken.
        seq (lift_result (snapshot_validate N taken)) (\<lambda>_. ret taken)))"

definition persist_snapshot :: "('m, 'k) node_env \<Rightarrow> io \<Rightarrow> ('m, unit) step" where
  "persist_snapshot N I =
    seq (asks nr_snapshot_path) (\<lambda>configured.
      if \<not> configured then ret () else seq (snapshot N I) (\<lambda>_. lift_result (io_snapshot I)))"

definition publish_epoch_commit :: "io \<Rightarrow> ('m, unit) step" where
  "publish_epoch_commit I =
    seq (asks_result node_tip) (\<lambda>head.
      update (\<lambda>n. n\<lparr>nr_epoch_commit := epb_nonce (ep_body head),
        nr_verified_membership := \<lparr>mv_group_id = nr_group_id n, mv_epoch_hash = ep_hash head,
          mv_epoch_nonce = epb_nonce (ep_body head), mv_lease_expires_at_unix_millis = 0, mv_valid_until = io_instant I,
          mv_members = epb_members (ep_body head), mv_relays = bm_empty\<rparr>\<rparr>))"

text \<open>What follows an extension of the chain in every handler of verified mode.\<close>

definition after_extension :: "('m, 'k) node_env \<Rightarrow> io \<Rightarrow> bool \<Rightarrow> ('m, unit) step" where
  "after_extension N I extended =
    (if extended then seq (persist_snapshot N I) (\<lambda>_. publish_epoch_commit I) else ret ())"


section \<open>Construction\<close>

record 'm RuntimeConfig =
  rg_group_id :: ConsensusGroupId
  rg_self_node :: NodeIdentity
  rg_genesis :: "'m Epoch option"
  rg_epochchain :: "'m Epoch list option"
  rg_address_book :: AddressBook
  rg_block_cap :: usize
  rg_quorum_size :: QuorumSize
  rg_trust_mode :: TrustMode
  rg_mode :: RuntimeMode
  rg_removal_policy :: ConsensusNodeRemovalPolicy
  rg_snapshot_path :: bool
  rg_trusted_log :: "'m log_tables option"
  rg_membership_lease_watermarks :: "(256 word, MembershipLeaseWatermark) btree_map"

definition config_new :: "NodeIdentity \<Rightarrow> 'm RuntimeConfig" where
  "config_new self_node = \<lparr>rg_group_id = group_root, rg_self_node = self_node, rg_genesis = None, rg_epochchain = None,
    rg_address_book = book_new, rg_block_cap = 100, rg_quorum_size = QuorumSize_DEFAULT, rg_trust_mode = Verified,
    rg_mode = ConsensusMode, rg_removal_policy = removal_policy_default, rg_snapshot_path = False, rg_trusted_log = None,
    rg_membership_lease_watermarks = bm_empty\<rparr>"

definition config_overlay :: "NodeIdentity \<Rightarrow> 'm RuntimeConfig" where
  "config_overlay self_node = (config_new self_node)\<lparr>rg_mode := OverlayMode\<rparr>"

definition config_for_group :: "NodeIdentity \<Rightarrow> ConsensusGroupId \<Rightarrow> 'm RuntimeConfig" where
  "config_for_group self_node group_id = (config_new self_node)\<lparr>rg_group_id := group_id\<rparr>"

definition restored_book ::
  "crypto \<Rightarrow> service_codec \<Rightarrow> u64 \<Rightarrow> MemberSet \<Rightarrow> 'm RuntimeSnapshotV1 \<Rightarrow> AddressBook result" where
  "restored_book E B now members sn =
    try_fold (\<lambda>book r.
        if srb_expires_at_unix_millis (ssr_body r) > now
        then (case apply_signed_record E B r (sn_group_id sn) members now book of
            (Inl e, _) \<Rightarrow> Err e
          | (Inr _, book') \<Rightarrow> Ok book')
        else Ok book)
      (from_services (sn_address_book sn)) (sn_signed_service_records sn)"

definition restored_watermarks :: "u64 \<Rightarrow> 'm RuntimeSnapshotV1 \<Rightarrow> (256 word, MembershipLeaseWatermark) btree_map" where
  "restored_watermarks now sn =
    (let expiries = bm_of_list (sn_membership_lease_watermark_expiries sn) in
     bm_of_list (filter (\<lambda>(_, w). wm_expires_at_unix_millis w > now)
       (map (\<lambda>(challenge, hash). (challenge, \<lparr>wm_statement_hash = hash, wm_expires_at_unix_millis =
           unwrap_or (bm_get expiries challenge) (saturating_add_u64 now MAX_MEMBERSHIP_LEASE_MILLIS)\<rparr>))
         (sn_membership_lease_watermarks sn))))"

definition from_snapshot_with_quorum_override ::
  "('m, 'k) node_env \<Rightarrow> service_codec \<Rightarrow> u64 \<Rightarrow> 'm RuntimeSnapshotV1 \<Rightarrow> NodeIdentity \<Rightarrow> QuorumSize option \<Rightarrow> 'm RuntimeConfig result" where
  "from_snapshot_with_quorum_override N B now sn self_node configured_quorum_size =
    and_then (validate_for_node N self_node sn) (\<lambda>_.
      let committed = cp_quorum_size (sn_consensus_parameters sn) in
      if (case configured_quorum_size of Some configured \<Rightarrow> configured \<noteq> committed | None \<Rightarrow> False)
      then Err (ConsensusParametersMismatch (quorum_get (the configured_quorum_size)) (quorum_get committed))
      else and_then (restored_book (ne_crypto N) B now (epb_members (ep_body (last (sn_epochchain sn)))) sn) (\<lambda>book.
        Ok \<lparr>rg_group_id = sn_group_id sn, rg_self_node = self_node, rg_genesis = Some (hd (sn_epochchain sn)),
            rg_epochchain = Some (sn_epochchain sn), rg_address_book = book, rg_block_cap = sn_block_cap sn,
            rg_quorum_size = committed, rg_trust_mode = sn_trust_mode sn, rg_mode = sn_mode sn,
            rg_removal_policy = sn_removal_policy sn, rg_snapshot_path = False, rg_trusted_log = None,
            rg_membership_lease_watermarks = restored_watermarks now sn\<rparr>))"

definition add_self_consensus_service :: "NodeIdentity \<Rightarrow> AddressBook \<Rightarrow> AddressBook" where
  "add_self_consensus_service self_node book =
    snd (book_add \<lparr>sv_kind = ConsensusService, sv_public_key = ni_public_key self_node, sv_protocol = ni_protocol self_node,
      sv_host = ni_host self_node, sv_port = ni_port self_node\<rparr> book)"

text \<open>A durable lock is put back into its round when the node starts.\<close>

definition restore_lock ::
  "('m, 'k) node_env \<Rightarrow> ConsensusGroupId \<Rightarrow> usize \<times> TrustedRoundLock \<Rightarrow> ('m LocalState, unit) action" where
  "restore_lock N group_id = (\<lambda>(expected_round, lock).
    let round_id = tk_round_id lock; epoch = ti_previous_epoch_hash round_id; nonce = ti_nonce round_id in
    seq (asks_result (\<lambda>s. ok_or (chain_tip s) EmptyEpochChain)) (\<lambda>head.
    seq (ensure (ti_group_id round_id = group_id \<and> epoch = ep_hash head
        \<and> ti_previous_epoch_nonce round_id = epb_nonce (ep_body head)
        \<and> nonce = new_next (epb_nonce (ep_body head)) \<and> unat (ti_round round_id) = expected_round) InvalidConfiguration) (\<lambda>_.
    seq (on_consensus N epoch nonce (asks (\<lambda>c. length (tc_peers c)))) (\<lambda>available_rounds.
    seq (ensure (expected_round < available_rounds) InvalidConfiguration) (\<lambda>_.
    seq (each (\<lambda>block. ensure (it_get (ne_tree N) (epb_verifiers (ep_body head)) (bb_validator (block_body block)) \<noteq> None)
        UnknownSender) (bm_values (tk_blocks lock))) (\<lambda>_.
    on_quorum N epoch nonce (ti_round round_id)
      (seq (update (\<lambda>q. refresh_verified_blocks_hash (ne_crypto N) (record_blocks (bm_entries (tk_blocks lock)) q))) (\<lambda>_.
       seq (run_result (\<lambda>q. case confirmation_record (tq_trusted_confirmations q) (tk_verification lock) of
           (r, confirmations) \<Rightarrow> (r, q\<lparr>tq_trusted_confirmations := confirmations\<rparr>))) (\<lambda>_.
       update (\<lambda>q. q\<lparr>tq_verification_sent := True\<rparr>))))))))))"

definition resume_highest :: "('m, 'k) node_env \<Rightarrow> TrustedRoundLock option \<Rightarrow> ('m LocalState, unit) action" where
  "resume_highest N highest =
    (case highest of
       None \<Rightarrow> ret ()
     | Some lock \<Rightarrow> let round_id = tk_round_id lock; round = ti_round round_id in
         on_consensus N (ti_previous_epoch_hash round_id) (ti_nonce round_id) (update (\<lambda>c.
           let c' = c\<lparr>tc_round := round\<rparr> in
           case bm_get (tc_quorum c') round of
             Some q \<Rightarrow> put_quorum round (q\<lparr>tq_verification_sent := False\<rparr>) c'
           | None \<Rightarrow> c')))"

definition open_trusted_log ::
  "('m, 'k) node_env \<Rightarrow> io \<Rightarrow> 'm RuntimeConfig \<Rightarrow> ConsensusGroupId \<Rightarrow> ('m LocalState, 'm TrustedEpochLog option) action" where
  "open_trusted_log N I config group_id =
    (case rg_trusted_log config of
       None \<Rightarrow> ret None
     | Some tables \<Rightarrow>
         seq (asks_result (\<lambda>s. log_open N (io_log I) tables (ni_public_key (lst_self_node s)) (lst_epochchain s) (lst_removal_policy s)))
           (\<lambda>(log, recovered).
         seq (update (\<lambda>s. s\<lparr>lst_epochchain := recovered\<rparr>)) (\<lambda>_.
         seq (lift_result (round_locks (ne_crypto N) log)) (\<lambda>locks.
         seq (each (restore_lock N group_id) (enumerate 0 locks)) (\<lambda>_.
         seq (resume_highest N (last_opt locks)) (\<lambda>_. ret (Some log)))))))"

definition initial_view :: "io \<Rightarrow> ConsensusGroupId \<Rightarrow> 'm Epoch \<Rightarrow> VerifiedMembershipView" where
  "initial_view I group_id epoch = \<lparr>mv_group_id = group_id, mv_epoch_hash = ep_hash epoch,
    mv_epoch_nonce = epb_nonce (ep_body epoch), mv_lease_expires_at_unix_millis = 0, mv_valid_until = io_instant I,
    mv_members = epb_members (ep_body epoch), mv_relays = bm_empty\<rparr>"

definition built_node ::
  "('m, 'k) node_env \<Rightarrow> io \<Rightarrow> 'm RuntimeConfig \<Rightarrow> ConsensusGroupId \<Rightarrow> ConsensusParameters \<Rightarrow> 'm TrustedEpochLog option
    \<Rightarrow> ('m LocalState, 'm NodeRuntime) action" where
  "built_node N I config group_id parameters log =
    seq (lift_result (case log of None \<Rightarrow> Ok None | Some log \<Rightarrow> pending_local_block (ne_crypto N) log)) (\<lambda>pending.
    seq (lift_result (let blocks = local_block_new (io_created I) (rg_block_cap config) in
      case pending of None \<Rightarrow> Ok blocks
      | Some block \<Rightarrow> (case enqueue_preverified_block blocks block of (r, blocks') \<Rightarrow> and_then r (\<lambda>_. Ok blocks')))) (\<lambda>local_blocks.
    seq (asks_result (\<lambda>s. ok_or (chain_tip s) EmptyEpochChain)) (\<lambda>committed_epoch.
    asks (\<lambda>s. \<lparr>nr_group_id = group_id, nr_state = s, nr_future_round_messages = bm_empty, nr_epoch_started_hints = bm_empty,
      nr_epoch_started_retry = None, nr_prefill_dispatch_retry = None, nr_local_blocks = local_blocks,
      nr_accepted_local_blocks = bm_empty,
      nr_address_book = add_self_consensus_service (public_only (rg_self_node config)) (rg_address_book config),
      nr_signer = (case node_signer (ne_crypto N) (rg_self_node config) of Inr signer \<Rightarrow> Some signer | Inl _ \<Rightarrow> None),
      nr_trust_mode = rg_trust_mode config, nr_mode = rg_mode config, nr_block_cap = rg_block_cap config,
      nr_consensus_parameters = parameters, nr_removal_policy = rg_removal_policy config,
      nr_snapshot_path = rg_snapshot_path config, nr_trusted_epoch_log = log,
      nr_epoch_commit = epb_nonce (ep_body committed_epoch), nr_verified_membership = initial_view I group_id committed_epoch,
      nr_membership_lease_watermarks = rg_membership_lease_watermarks config\<rparr>))))"

definition try_new :: "('m, 'k) node_env \<Rightarrow> io \<Rightarrow> 'm RuntimeConfig \<Rightarrow> 'm NodeRuntime outcome" where
  "try_new N I config =
    (let configured = ConsensusParameters_new (rg_quorum_size config);
         genesis = (case rg_genesis config of Some genesis \<Rightarrow> genesis
           | None \<Rightarrow> genesis_epoch_for_group_with_parameters N (rg_group_id config) [public_only (rg_self_node config)] configured);
         committed = effective_consensus_parameters (ep_body genesis);
         group_id = epb_group_id (ep_body genesis)
     in fst (
       seq (ensure (\<not> is_high_availability (rg_trust_mode config)) InvalidConfiguration) (\<lambda>_.
       seq (lift_result (ConsensusParameters_validate configured)) (\<lambda>_.
       seq (ensure (rg_group_id config = group_root \<or> rg_group_id config = group_id) InvalidConfiguration) (\<lambda>_.
       seq (lift_result (ConsensusParameters_validate committed)) (\<lambda>_.
       seq (ensure (configured = committed)
         (ConsensusParametersMismatch (quorum_get (cp_quorum_size configured)) (quorum_get (cp_quorum_size committed)))) (\<lambda>_.
       seq (case rg_epochchain config of
           None \<Rightarrow> ret ()
         | Some chain \<Rightarrow> seq (each (\<lambda>epoch. ensure (effective_consensus_parameters (ep_body epoch) = committed)
             (ConsensusParametersMismatch (quorum_get (cp_quorum_size committed))
               (quorum_get (cp_quorum_size (effective_consensus_parameters (ep_body epoch)))))) chain)
             (\<lambda>_. update (\<lambda>s. s\<lparr>lst_epochchain := chain\<rparr>))) (\<lambda>_.
       seq (ensure (rg_trusted_log config = None \<or> is_trusted (rg_trust_mode config)) InvalidConfiguration) (\<lambda>_.
       seq (open_trusted_log N I config group_id) (\<lambda>log.
       built_node N I config group_id committed log))))))))
       (local_state_new (public_only (rg_self_node config)) genesis (rg_removal_policy config))))"


section \<open>Membership leases\<close>

record MembershipLeaseRequest =
  lr_challenge :: "256 word"
  lr_issued_at_unix_millis :: u64
  lr_valid_for_millis :: u64

definition membership_lease_statement ::
  "('m, 'k) node_env \<Rightarrow> io \<Rightarrow> MembershipLeaseRequest \<Rightarrow> 'm NodeRuntime \<Rightarrow> MembershipLeaseStatement result" where
  "membership_lease_statement N I request n =
    (if lr_valid_for_millis request = 0 \<or> lr_valid_for_millis request > MAX_MEMBERSHIP_LEASE_MILLIS then Err InvalidConfiguration
     else and_then (node_tip n) (\<lambda>head.
       and_then (member_set_hash (ne_crypto N) (ne_codec N) (epb_members (ep_body head))) (\<lambda>hash.
         let statement = \<lparr>ls_group_id = nr_group_id n, ls_epoch_hash = ep_hash head, ls_epoch_nonce = epb_nonce (ep_body head),
               ls_member_set_hash = hash, ls_challenge = lr_challenge request,
               ls_issued_at_unix_millis = lr_issued_at_unix_millis request, ls_valid_for_millis = lr_valid_for_millis request\<rparr>
         in and_then (remaining_validity_at statement (io_now_unix_millis I)) (\<lambda>_. Ok statement))))"

definition watermark_lease ::
  "MembershipLeaseStatement \<Rightarrow> HashType \<Rightarrow> u64 \<Rightarrow> u64 \<Rightarrow> (256 word, MembershipLeaseWatermark) btree_map
    \<Rightarrow> unit result \<times> (256 word, MembershipLeaseWatermark) btree_map" where
  "watermark_lease statement statement_hash expires now watermarks0 =
    (let watermarks = unexpired_watermarks now watermarks0 in
     case bm_get watermarks (ls_challenge statement) of
       Some previous \<Rightarrow> if wm_statement_hash previous \<noteq> statement_hash then (Err InvalidConfiguration, watermarks) else (Ok (), watermarks)
     | None \<Rightarrow> (Ok (), bm_insert (ls_challenge statement)
         \<lparr>wm_statement_hash = statement_hash, wm_expires_at_unix_millis = expires\<rparr> watermarks))"

definition vote_membership_lease ::
  "('m, 'k) node_env \<Rightarrow> io \<Rightarrow> MembershipLeaseRequest \<Rightarrow> ('m, MembershipLeaseVote) step" where
  "vote_membership_lease N I request =
    seq (asks_result (membership_lease_statement N I request)) (\<lambda>statement.
    seq (asks_result (\<lambda>n. ok_or (nr_signer n) MissingSecretKey)) (\<lambda>signer.
    seq (asks_result node_tip) (\<lambda>head.
    seq (ensure (it_get (ne_tree N) (epb_verifiers (ep_body head)) (signer_public_key (ne_crypto N) signer) \<noteq> None) UnknownSender) (\<lambda>_.
    seq (expect (borsh_lease (ne_codec N) statement) WireProtocol) (\<lambda>encoded.
    seq (lift_result (expires_at_unix_millis statement)) (\<lambda>expires.
    seq (within nr_membership_lease_watermarks (\<lambda>w n. n\<lparr>nr_membership_lease_watermarks := w\<rparr>)
      (run_result (watermark_lease statement (sha256 (ne_crypto N) encoded) expires (io_now_unix_millis I)))) (\<lambda>_.
    lift_result (lease_vote_signed (ne_crypto N) (ne_codec N) statement signer))))))))"

definition verified_relay_set ::
  "MemberSet \<Rightarrow> u64 \<Rightarrow> 'm NodeRuntime \<Rightarrow> (PubKey, Service) btree_map \<times> u64 option" where
  "verified_relay_set members now n =
    (let records = filter (\<lambda>r. srb_service_kind (ssr_body r) = Relay
           \<and> (case bm_get members (srb_owner (ssr_body r)) of Some member \<Rightarrow> is_active_with member CapRelay | None \<Rightarrow> False))
         (active_signed_records (nr_group_id n) now (nr_address_book n));
         expiries = map (\<lambda>r. srb_expires_at_unix_millis (ssr_body r)) records
     in (bm_of_list (map (\<lambda>r. (srb_owner (ssr_body r), record_service (ssr_body r))) records),
         if expiries = [] then None else Some (fold min (tl expiries) (hd expiries))))"

definition clamp_to_relays :: "io \<Rightarrow> u64 option \<Rightarrow> nat \<Rightarrow> nat" where
  "clamp_to_relays I earliest valid_until =
    (case earliest of
       None \<Rightarrow> valid_until
     | Some expiry \<Rightarrow> min valid_until (io_instant I + (unat expiry - unat (io_now_unix_millis I))))"

definition install_membership_lease ::
  "('m, 'k) node_env \<Rightarrow> io \<Rightarrow> MembershipLeaseCertificate \<Rightarrow> ('m, VerifiedMembershipView) step" where
  "install_membership_lease N I certificate =
    (let statement = lc_statement certificate; now = io_now_unix_millis I in
     seq (asks_result node_tip) (\<lambda>head.
     seq (lift_result (lease_certificate_verify (ne_crypto N) (ne_codec N) (ne_tree N) now certificate (epb_verifiers (ep_body head)))) (\<lambda>_.
     seq (asks nr_group_id) (\<lambda>group_id.
     seq (ensure (ls_group_id statement = group_id \<and> ls_epoch_hash statement = ep_hash head
         \<and> ls_epoch_nonce statement = epb_nonce (ep_body head)) InvalidEpochNonce) (\<lambda>_.
     seq (lift_result (member_set_hash (ne_crypto N) (ne_codec N) (epb_members (ep_body head)))) (\<lambda>hash.
     seq (ensure (ls_member_set_hash statement = hash) InvalidEpochNonce) (\<lambda>_.
     seq (lift_result (expires_at_unix_millis statement)) (\<lambda>expires.
     seq (lift_result (remaining_validity_at statement now)) (\<lambda>remaining.
     seq (asks (verified_relay_set (epb_members (ep_body head)) now)) (\<lambda>(relays, earliest).
     seq (asks nr_verified_membership) (\<lambda>current.
       let clamped = clamp_to_relays I earliest (io_instant I + unat remaining);
           valid_until = (if mv_epoch_hash current = ep_hash head \<and> expires \<le> mv_lease_expires_at_unix_millis current
             then min clamped (mv_valid_until current) else clamped);
           view = \<lparr>mv_group_id = group_id, mv_epoch_hash = ep_hash head, mv_epoch_nonce = epb_nonce (ep_body head),
             mv_lease_expires_at_unix_millis = expires, mv_valid_until = valid_until, mv_members = epb_members (ep_body head),
             mv_relays = relays\<rparr>
       in seq (update (\<lambda>n. n\<lparr>nr_verified_membership := view\<rparr>)) (\<lambda>_. ret view))))))))))))"

definition is_fresh :: "nat \<Rightarrow> VerifiedMembershipView \<Rightarrow> bool" where
  "is_fresh instant view \<longleftrightarrow> instant < mv_valid_until view"

definition republish_fresh_membership_relays :: "io \<Rightarrow> MemberSet \<Rightarrow> ('m, unit) step" where
  "republish_fresh_membership_relays I members =
    update (\<lambda>n. let current = nr_verified_membership n in
      if \<not> is_fresh (io_instant I) current \<or> Some (mv_epoch_hash current) \<noteq> map_option ep_hash (chain_tip (nr_state n)) then n
      else case verified_relay_set members (io_now_unix_millis I) n of (relays, earliest) \<Rightarrow>
        n\<lparr>nr_verified_membership := current\<lparr>mv_valid_until := clamp_to_relays I earliest (mv_valid_until current),
          mv_members := members, mv_relays := relays\<rparr>\<rparr>)"

definition register_service :: "Service \<Rightarrow> ('m, Service option) step" where
  "register_service service n =
    (case book_add service (nr_address_book n) of (previous, book) \<Rightarrow> (Done previous, n\<lparr>nr_address_book := book\<rparr>))"

definition register_signed_service ::
  "('m, 'k) node_env \<Rightarrow> service_codec \<Rightarrow> io \<Rightarrow> SignedServiceRecord \<Rightarrow> ('m, Service option) step" where
  "register_signed_service N B I r =
    seq (asks_result node_tip) (\<lambda>head.
    seq (asks nr_group_id) (\<lambda>group_id.
    seq (within nr_address_book (\<lambda>book n. n\<lparr>nr_address_book := book\<rparr>)
      (run_result (apply_signed_record (ne_crypto N) B r group_id (epb_members (ep_body head)) (io_now_unix_millis I)))) (\<lambda>previous.
    seq (republish_fresh_membership_relays I (epb_members (ep_body head))) (\<lambda>_. ret previous))))"

end
