(* ===== verification/RuntimeMessages.thy ===== *)
theory RuntimeMessages
  imports RuntimeCore
begin

text \<open>
  \<open>src/src/runtime/messages.rs\<close>: what a node does with a message from its peers. Each handler is one step on the
  state; an error keeps the changes made before it, as in the source. The lemmas that show what the handlers of verified
  mode keep are in \<open>VerifiedNode\<close>.
\<close>

record MessageReceipt =
  rcpt_kind :: string
  rcpt_accepted :: bool

definition accepted :: "string \<Rightarrow> ('m, MessageReceipt) step" where
  "accepted kind = ret \<lparr>rcpt_kind = kind, rcpt_accepted = True\<rparr>"

definition check_signature :: "('m, 'k) node_env \<Rightarrow> Header \<Rightarrow> MSGKey \<Rightarrow> bytes \<Rightarrow> ('m, unit) step" where
  "check_signature N header kind body = asks_result (verify_message_signature N header kind body)"

definition known_sender :: "('m, 'k) node_env \<Rightarrow> Header \<Rightarrow> ('m, unit) step" where
  "known_sender N header = seq (on_state (verify_header N header)) (\<lambda>member. ensure member UnknownSender)"

text \<open>The quorum that a header names.\<close>

definition header_quorum :: "('m, 'k) node_env \<Rightarrow> Header \<Rightarrow> (TempQuorum, 'a) action \<Rightarrow> ('m LocalState, 'a) action" where
  "header_quorum N header m = on_quorum N (hd_last_epoch header) (hd_nonce header) (hd_round header) m"

definition seed_header :: "('m, 'k) node_env \<Rightarrow> Header \<Rightarrow> ('m LocalState, usize) action" where
  "seed_header N header = seed_prefill_dispatches_into_quorum N (hd_last_epoch header) (hd_nonce header) (hd_round header)"

text \<open>Once enough validators have committed, the epoch advances; the result tells whether the chain grew.\<close>

definition advance_if_committed :: "('m, 'k) node_env \<Rightarrow> Header \<Rightarrow> ('m LocalState, bool) action" where
  "advance_if_committed N header =
    seq (header_quorum N header (asks tq_commit_sent)) (\<lambda>commit_sent.
      if commit_sent then
        seq (asks (\<lambda>s. length (lst_epochchain s))) (\<lambda>length_before.
          seq (advance_epoch N (hd_last_epoch header) (hd_nonce header) (hd_round header) True) (\<lambda>_.
            asks (\<lambda>s. length_before < length (lst_epochchain s))))
      else ret False)"


section \<open>Envelope\<close>

definition verify_message_envelope :: "('m, 'k) node_env \<Rightarrow> Msg \<Rightarrow> ('m, unit) step" where
  "verify_message_envelope N message =
    (let E = ne_crypto N; S = ne_skip_codec N in
     case message of
       MsgDispatch m \<Rightarrow> check_signature N (di_header m) KeyDispatch (dispatch_signing_bytes (di_body m))
     | MsgEchoResponse m \<Rightarrow> check_signature N (es_header m) KeyEchoResponse (echo_response_signing_bytes (es_body m))
     | MsgEchoRequest m \<Rightarrow> check_signature N (eq_header m) KeyEchoRequest (key_set_signing_bytes (eq_requested_blocks m))
     | MsgEchoReDispatch m \<Rightarrow> check_signature N (re_header m) KeyEchoReDispatch (block_map_signing_bytes E (re_redispatched_blocks m))
     | MsgVerification m \<Rightarrow> check_signature N (vf_header m) KeyVerification (verification_signing_bytes (vf_body m))
     | MsgTrustedAcknowledgement m \<Rightarrow> check_signature N (ta_header m) KeyTrustedAcknowledgement (verification_signing_bytes (ta_body m))
     | MsgProposal m \<Rightarrow> check_signature N (pr_header m) KeyProposal (proposal_signing_bytes (pr_body m))
     | MsgCommit m \<Rightarrow> check_signature N (cm_header m) KeyCommit (commit_signing_bytes (cm_body m))
     | MsgEpochStarted m \<Rightarrow>
         seq (asks trusted) (\<lambda>t. if t then check_signature N (et_header m) KeyEpochStarted epoch_started_signing_bytes
           else lift_result (header_verify_signature E (et_header m) KeyEpochStarted epoch_started_signing_bytes))
     | MsgRoundSkipVote m \<Rightarrow> check_signature N (km_header m) KeyRoundSkipVote (skip_vote_signing_bytes S (km_body m))
     | MsgRoundSkipCertificate m \<Rightarrow>
         check_signature N (kd_header m) KeyRoundSkipCertificate (skip_certificate_signing_bytes S (kd_body m))
     | MsgReconcileAppraisal m \<Rightarrow> check_signature N (rca_header m) KeyReconcileAppraisal (reconcile_appraisal_signing_bytes (rca_body m))
     | MsgReconcileRequest m \<Rightarrow> check_signature N (rcr_header m) KeyReconcileRequest (reconcile_request_signing_bytes (rcr_body m))
     | MsgReconcileResponse m \<Rightarrow>
         check_signature N (rcs_header m) KeyReconcileResponse (reconcile_response_signing_bytes E (rcs_body m))
     | MsgReconcileCommit m \<Rightarrow> check_signature N (rcc_header m) KeyReconcileCommit (reconcile_commit_signing_bytes (rcc_body m))
     | MsgOk \<Rightarrow> ret ()
     | MsgFail \<Rightarrow> ret ())"

definition buffer_message :: "FutureRoundMessageKey \<Rightarrow> Msg \<Rightarrow> 'm NodeRuntime \<Rightarrow> 'm NodeRuntime" where
  "buffer_message key message n = n\<lparr>nr_future_round_messages :=
    bm_insert key (unwrap_or (bm_get (nr_future_round_messages n) key) [] @ [message]) (nr_future_round_messages n)\<rparr>"

text \<open>A verification of a later round whose blocks the round already holds is not deferred.\<close>

definition verification_ready :: "('m, 'k) node_env \<Rightarrow> Header \<Rightarrow> Msg \<Rightarrow> ('m LocalState, bool) action" where
  "verification_ready N header message =
    (case message of
       MsgVerification v \<Rightarrow>
         seq (seed_header N header) (\<lambda>_.
           header_quorum N header (asks (\<lambda>q. \<not> bm_is_empty (verified_blocks q) \<and> vb_blocks (vf_body v) = verified_blocks q
             \<and> vb_blocks_hash (vf_body v) = verified_blocks_hash (ne_crypto N) q)))
     | _ \<Rightarrow> ret False)"

definition buffer_future_round_message_if_needed :: "('m, 'k) node_env \<Rightarrow> Msg \<Rightarrow> ('m, bool) step" where
  "buffer_future_round_message_if_needed N message =
    (case message_header_kind_hash (ne_crypto N) message of
       None \<Rightarrow> ret False
     | Some (header, kind, hash) \<Rightarrow>
         if kind \<in> {KeyRoundSkipVote, KeyRoundSkipCertificate, KeyEpochStarted} then ret False
         else
           seq (if kind = KeyCommit
             then seq (attempt (on_state (commit_sender_and_threshold N header))) (\<lambda>r.
               ret (case r of Inr (authorized, _) \<Rightarrow> authorized | Inl _ \<Rightarrow> False))
             else ret False) (\<lambda>global_final_commit.
           seq (on_state (on_consensus N (hd_last_epoch header) (hd_nonce header)
               (asks (\<lambda>c. (is_peer_member_of_round c (hd_sender header) (hd_round header), tc_round c))))) (\<lambda>(member, current).
             if \<not> global_final_commit \<and> \<not> member then ret False
             else if hd_round header \<le> current then ret False
             else seq (on_state (verification_ready N header message)) (\<lambda>ready.
               if ready then ret False
               else seq (update (buffer_message
                   (hd_last_epoch header, hd_nonce header, hd_round header, kind, hash) message)) (\<lambda>_. ret True)))))"

definition drain_buffered_current_round_messages :: "('m, 'k) node_env \<Rightarrow> ('m, Msg list) step" where
  "drain_buffered_current_round_messages N =
    seq (asks_result next_epoch_target) (\<lambda>target.
    seq (on_state (on_consensus N (tg_last_epoch target) (tg_nonce target) (asks tc_round))) (\<lambda>current_round.
    seq (asks nr_future_round_messages) (\<lambda>buffered.
      let due = (\<lambda>(last_epoch, nonce, round, _). last_epoch = tg_last_epoch target \<and> nonce = tg_nonce target \<and> round \<le> current_round)
      in seq (update (\<lambda>n. n\<lparr>nr_future_round_messages := bm_retain (\<lambda>key _. \<not> due key) buffered\<rparr>)) (\<lambda>_.
        ret (concat (map snd (filter (\<lambda>(key, _). due key) (bm_entries buffered))))))))"


section \<open>Dispatches\<close>

definition runtime_receive_dispatch :: "('m, 'k) node_env \<Rightarrow> io \<Rightarrow> Dispatch \<Rightarrow> ('m, MessageReceipt) step" where
  "runtime_receive_dispatch N I message =
    (let header = di_header message; body = di_body message in
     seq (check_signature N header KeyDispatch (dispatch_signing_bytes body)) (\<lambda>_.
     seq (known_sender N header) (\<lambda>_.
     seq (asks trusted) (\<lambda>t.
     seq (lift_result (verify_dispatch_payload N t header body)) (\<lambda>_.
     seq (lift_result (persist_blocks_if_configured I (bm_values (db_blocks body)))) (\<lambda>_.
     seq (on_state (try_accept_into_state N message)) (\<lambda>_.
     seq (on_state (header_quorum N header
         (seq (update (record_verified_dispatch_blocks (ne_crypto N) (db_blocks body))) (\<lambda>_.
           if t then run_result activate_pending_trusted_messages else ret ())))) (\<lambda>_.
     accepted ''dispatch''))))))))"

definition receive_prefill_dispatch :: "('m, 'k) node_env \<Rightarrow> io \<Rightarrow> Dispatch \<Rightarrow> ('m, MessageReceipt) step" where
  "receive_prefill_dispatch N I dispatch =
    (let header = di_header dispatch; body = di_body dispatch in
     seq (asks_result ensure_consensus_mode) (\<lambda>_.
     seq (ensure (hd_round header = 0) WireProtocol) (\<lambda>_.
     seq (check_signature N header KeyDispatch (dispatch_signing_bytes body)) (\<lambda>_.
     seq (asks_result (is_prefill_recipient_for_sender N (hd_sender header))) (\<lambda>recipient.
     seq (ensure recipient UnknownSender) (\<lambda>_.
     seq (ensure (list_all (\<lambda>block. bb_validator (block_body block) = hd_sender header) (bm_values (db_blocks body))) WireProtocol) (\<lambda>_.
     seq (asks trusted) (\<lambda>t.
     seq (lift_result (verify_dispatch_payload N t header body)) (\<lambda>_.
     seq (lift_result (persist_blocks_if_configured I (bm_values (db_blocks body)))) (\<lambda>_.
     seq (on_state (run_result (record_prefill_dispatch dispatch))) (\<lambda>_.
     accepted ''prefill_dispatch'')))))))))))"

text \<open>A dispatch that was recorded before: the same one again, or a conflicting one.\<close>

definition hot_recorded ::
  "('m, 'k) node_env \<Rightarrow> Header \<Rightarrow> Signature \<times> HashType \<Rightarrow> ('m LocalState, bool) action" where
  "hot_recorded N header identity =
    seq (header_quorum N header (asks (\<lambda>q. bm_get (tq_received_dispatch_identities q) (hd_sender header)))) (\<lambda>recorded.
      case recorded of
        Some known \<Rightarrow> if known = identity then ret True else fail WireProtocol
      | None \<Rightarrow> ret False)"

definition push_hot :: "('m, 'k) node_env \<Rightarrow> HotDispatch \<Rightarrow> (TempQuorum, unit) action" where
  "push_hot N message =
    seq (run_result (try_push_pending_dispatch (Hot message) (ne_max_pending_raw N) (ne_max_pending_raw_per_sender N))) (\<lambda>_.
      update (\<lambda>q. q\<lparr>tq_msg_matrix := snd (update_dispatch_received (tq_msg_matrix q) True (hd_sender (hx_header message)))\<rparr>))"

definition receive_hot_dispatch :: "('m, 'k) node_env \<Rightarrow> io \<Rightarrow> HotDispatch \<Rightarrow> ('m, MessageReceipt) step" where
  "receive_hot_dispatch N I message =
    (let header = hx_header message; sender = hd_sender header in
     seq (asks_result ensure_consensus_mode) (\<lambda>_.
     seq (asks_result (\<lambda>n. ensure_current_header_target n header)) (\<lambda>_.
     seq (asks trusted) (\<lambda>t.
     seq (lift_result (if t then Ok () else hot_verify_signature (ne_crypto N) message)) (\<lambda>_.
     seq (known_sender N header) (\<lambda>_.
       if t then
         seq (lift_result (scan_trusted (ne_crypto N) (ne_wire_limit N) message)) (\<lambda>scan.
           let identity = (hd_signature header, hs_blocks_hash scan) in
           seq (on_state (hot_recorded N header identity)) (\<lambda>replay.
             if replay then accepted ''dispatch_replay''
             else seq (on_state (header_quorum N header (seq (push_hot N message) (\<lambda>_.
                 update (\<lambda>q. received_dispatch sender identity (q\<lparr>tq_verified_tx :=
                   min usize_max (tq_verified_tx q + hs_transaction_count scan)\<rparr>)))))) (\<lambda>_. accepted ''dispatch'')))
       else
         seq (lift_result (to_dispatch (ne_wire_limit N) message)) (\<lambda>decoded.
         seq (lift_result (verify_dispatch_payload N t (di_header decoded) (di_body decoded))) (\<lambda>_.
         seq (lift_result (persist_blocks_if_configured I (bm_values (db_blocks (di_body decoded))))) (\<lambda>_.
           let identity = (hd_signature header, db_blocks_hash (di_body decoded)) in
           seq (on_state (hot_recorded N header identity)) (\<lambda>replay.
             if replay then accepted ''dispatch_replay''
             else seq (on_state (header_quorum N header (seq (push_hot N message) (\<lambda>_.
                 update (\<lambda>q. received_dispatch sender identity
                   (record_verified_dispatch_blocks (ne_crypto N) (db_blocks (di_body decoded)) q)))))) (\<lambda>_.
               accepted ''dispatch'')))))))))))"

definition receive_echo_request :: "('m, 'k) node_env \<Rightarrow> EchoRequest \<Rightarrow> ('m, MessageReceipt) step" where
  "receive_echo_request N message =
    seq (check_signature N (eq_header message) KeyEchoRequest (key_set_signing_bytes (eq_requested_blocks message))) (\<lambda>_.
    seq (known_sender N (eq_header message)) (\<lambda>_. accepted ''echo_request''))"

fun record_redispatched :: "Header \<Rightarrow> (HashType \<times> Block) list \<Rightarrow> usize \<Rightarrow> (TempQuorum, usize) action" where
  "record_redispatched header [] inserted = ret inserted"
| "record_redispatched header ((hash, block) # blocks) inserted =
    (if bb_last_epoch (block_body block) \<noteq> hd_last_epoch header \<or> bb_nonce (block_body block) \<noteq> hd_nonce header
     then fail WireProtocol
     else seq (\<lambda>q. case record_verified_block hash block q of (new, q') \<Rightarrow> (Done new, q')) (\<lambda>new.
       record_redispatched header blocks (if new then inserted + 1 else inserted)))"

definition receive_echo_redispatch :: "('m, 'k) node_env \<Rightarrow> io \<Rightarrow> EchoReDispatch \<Rightarrow> ('m, MessageReceipt) step" where
  "receive_echo_redispatch N I message =
    (let header = re_header message; blocks = re_redispatched_blocks message in
     seq (check_signature N header KeyEchoReDispatch (block_map_signing_bytes (ne_crypto N) blocks)) (\<lambda>_.
     seq (asks trusted) (\<lambda>t.
     seq (lift_result (verify_redispatched_blocks N t blocks)) (\<lambda>_.
     seq (lift_result (persist_blocks_if_configured I (bm_values blocks))) (\<lambda>_.
     seq (known_sender N header) (\<lambda>_.
     seq (on_state (header_quorum N header (seq (record_redispatched header (bm_entries blocks) 0) (\<lambda>inserted.
         if inserted > 0 then update (refresh_verified_blocks_hash (ne_crypto N)) else ret ())))) (\<lambda>_.
     accepted ''echo_redispatch'')))))))"

definition receive_echo_response :: "('m, 'k) node_env \<Rightarrow> EchoResponse \<Rightarrow> ('m, MessageReceipt) step" where
  "receive_echo_response N message =
    (let header = es_header message in
     seq (check_signature N header KeyEchoResponse (echo_response_signing_bytes (es_body message))) (\<lambda>_.
     seq (known_sender N header) (\<lambda>_.
     seq (on_state (seed_header N header)) (\<lambda>_.
     seq (on_state (header_quorum N header
       (seq (asks (\<lambda>q. find_key_index (tq_msg_matrix q) (ec_sender (es_body message)))) (\<lambda>index.
        seq (ensure (index \<noteq> None) UnknownSender) (\<lambda>_.
        update (\<lambda>q. q\<lparr>tq_msg_matrix := snd (matrix_update (tq_msg_matrix q) True (MsgEchoResponse message))\<rparr>)))))) (\<lambda>_.
     accepted ''echo_response'')))))"


section \<open>Round skips and reconciliation\<close>

definition replica_threshold :: "PubKey list \<Rightarrow> usize" where
  "replica_threshold validators = byzantine_safe_replica_threshold (byzantine_fault_bound (length validators))"

definition tip_validators :: "('m, 'k) node_env \<Rightarrow> 'm Epoch \<Rightarrow> PubKey list" where
  "tip_validators N epoch = it_keys (ne_tree N) (epb_verifiers (ep_body epoch))"

definition record_skip_vote :: "HashType \<Rightarrow> DataDisseminationManifest \<Rightarrow> RoundSkipVote \<Rightarrow> TempConsensus \<Rightarrow> TempConsensus" where
  "record_skip_vote hash manifest vote c =
    (let key = (sv_from_round vote, sv_to_round vote, sv_manifest_hash vote) in
     c\<lparr>tc_round_skip_manifests := bm_insert hash manifest (tc_round_skip_manifests c),
       tc_round_skip_votes := bm_insert key (bm_insert (sv_voter vote) vote
         (unwrap_or (bm_get (tc_round_skip_votes c) key) bm_empty)) (tc_round_skip_votes c)\<rparr>)"

definition receive_round_skip_vote :: "('m, 'k) node_env \<Rightarrow> RoundSkipVoteMessage \<Rightarrow> ('m, MessageReceipt) step" where
  "receive_round_skip_vote N message =
    (let header = km_header message; manifest = kb_manifest (km_body message); vote = kb_vote (km_body message);
         hash = manifest_hash (ne_crypto N) manifest
     in
     seq (check_signature N header KeyRoundSkipVote (skip_vote_signing_bytes (ne_skip_codec N) (km_body message))) (\<lambda>_.
     seq (ensure (hd_sender header = sv_voter vote) WireProtocol) (\<lambda>_.
     seq (ensure (sv_manifest_hash vote = hash) WireProtocol) (\<lambda>_.
     seq (lift_result (vote_verify_signature (ne_crypto N) vote)) (\<lambda>_.
     seq (known_sender N header) (\<lambda>_.
     seq (asks_result node_tip) (\<lambda>latest.
     seq (lift_result (validate_availability manifest (tip_validators N latest) (replica_threshold (tip_validators N latest)))) (\<lambda>_.
     seq (ensure (sv_last_epoch vote = ep_hash latest \<and> sv_nonce vote = new_next (epb_nonce (ep_body latest))) InvalidEpochNonce) (\<lambda>_.
     seq (on_state (on_consensus N (sv_last_epoch vote) (sv_nonce vote) (update (record_skip_vote hash manifest vote)))) (\<lambda>_.
     accepted ''round_skip_vote''))))))))))"

definition record_skip_certificate ::
  "HashType \<Rightarrow> DataDisseminationManifest \<Rightarrow> RoundSkipCertificate \<Rightarrow> TempConsensus \<Rightarrow> TempConsensus" where
  "record_skip_certificate hash manifest certificate c =
    c\<lparr>tc_round_skip_manifests := bm_insert hash manifest (tc_round_skip_manifests c),
      tc_round_skip_certificates := bm_insert (sc_from_round certificate, sc_to_round certificate, sc_manifest_hash certificate)
        certificate (tc_round_skip_certificates c),
      tc_round := (if tc_round c < sc_to_round certificate then sc_to_round certificate else tc_round c)\<rparr>"

definition receive_round_skip_certificate :: "('m, 'k) node_env \<Rightarrow> RoundSkipCertificateMessage \<Rightarrow> ('m, MessageReceipt) step" where
  "receive_round_skip_certificate N message =
    (let header = kd_header message; manifest = kc_manifest (kd_body message); certificate = kc_certificate (kd_body message);
         hash = manifest_hash (ne_crypto N) manifest
     in
     seq (check_signature N header KeyRoundSkipCertificate (skip_certificate_signing_bytes (ne_skip_codec N) (kd_body message))) (\<lambda>_.
     seq (ensure (sc_manifest_hash certificate = hash) WireProtocol) (\<lambda>_.
     seq (known_sender N header) (\<lambda>_.
     seq (asks_result node_tip) (\<lambda>latest.
       let nonce = new_next (epb_nonce (ep_body latest)) in
       seq (lift_result (validate_against_epoch_and_manifest (ne_crypto N) certificate (tip_validators N latest) (ep_hash latest)
         nonce manifest (replica_threshold (tip_validators N latest)))) (\<lambda>_.
       seq (ensure (\<not> (sc_from_round certificate = 0 \<and> \<not> bm_is_empty (dm_dropped_local_blocks manifest))) WireProtocol) (\<lambda>_.
       seq (on_state (on_consensus N (ep_hash latest) nonce (update (record_skip_certificate hash manifest certificate)))) (\<lambda>_.
       accepted ''round_skip_certificate''))))))))"

definition receive_reconcile_appraisal :: "('m, 'k) node_env \<Rightarrow> ReconcileAppraisal \<Rightarrow> ('m, MessageReceipt) step" where
  "receive_reconcile_appraisal N message =
    seq (check_signature N (rca_header message) KeyReconcileAppraisal (reconcile_appraisal_signing_bytes (rca_body message))) (\<lambda>_.
    seq (ensure (map_hash (ne_crypto N) (ra_blocks (rca_body message)) = ra_blocks_hash (rca_body message)) WireProtocol) (\<lambda>_.
    seq (known_sender N (rca_header message)) (\<lambda>_. accepted ''reconcile_appraisal'')))"

definition receive_reconcile_request :: "('m, 'k) node_env \<Rightarrow> ReconcileRequest \<Rightarrow> ('m, MessageReceipt) step" where
  "receive_reconcile_request N message =
    seq (check_signature N (rcr_header message) KeyReconcileRequest (reconcile_request_signing_bytes (rcr_body message))) (\<lambda>_.
    seq (known_sender N (rcr_header message)) (\<lambda>_. accepted ''reconcile_request''))"

definition receive_reconcile_response :: "('m, 'k) node_env \<Rightarrow> io \<Rightarrow> ReconcileResponse \<Rightarrow> ('m, MessageReceipt) step" where
  "receive_reconcile_response N I message =
    (let header = rcs_header message; blocks = rs_response_blocks (rcs_body message) in
     seq (check_signature N header KeyReconcileResponse (reconcile_response_signing_bytes (ne_crypto N) (rcs_body message))) (\<lambda>_.
     seq (asks trusted) (\<lambda>t.
     seq (lift_result (verify_redispatched_blocks N t blocks)) (\<lambda>_.
     seq (ensure (map_hash (ne_crypto N) blocks = rs_response_hash (rcs_body message)) WireProtocol) (\<lambda>_.
     seq (lift_result (persist_blocks_if_configured I (bm_values blocks))) (\<lambda>_.
     seq (known_sender N header) (\<lambda>_.
     seq (on_state (header_quorum N header (update (record_verified_dispatch_blocks (ne_crypto N) blocks)))) (\<lambda>_.
     accepted ''reconcile_response''))))))))"

fun record_shares ::
  "('m, 'k) node_env \<Rightarrow> HashType \<Rightarrow> (PubKey \<times> Signature) list \<Rightarrow> PubKey btree_set \<Rightarrow> (TempQuorum, PubKey btree_set) action" where
  "record_shares N epoch_hash [] seen = ret seen"
| "record_shares N epoch_hash ((signer, signature) # shares) seen =
    seq (asks (\<lambda>q. mx_quorum_nodes (tq_msg_matrix q))) (\<lambda>nodes.
      if signer \<notin> set nodes \<or> bm_contains seen signer then record_shares N epoch_hash shares seen
      else seq (lift_result (signature_verify (ne_crypto N) signature (hash_as_ref epoch_hash) signer)) (\<lambda>_.
        seq (update (\<lambda>q. q\<lparr>tq_epoch_signatures := bm_insert signer signature (tq_epoch_signatures q)\<rparr>)) (\<lambda>_.
          record_shares N epoch_hash shares (bm_insert signer () seen))))"

definition receive_reconcile_commit :: "('m, 'k) node_env \<Rightarrow> io \<Rightarrow> ReconcileCommit \<Rightarrow> ('m, MessageReceipt) step" where
  "receive_reconcile_commit N I message =
    (let header = rcc_header message; body = rcc_body message; last_epoch = hd_last_epoch header; nonce = hd_nonce header;
         round = hd_round header
     in
     seq (asks trusted) (\<lambda>t.
     seq (ensure (\<not> t) InvalidConfiguration) (\<lambda>_.
     seq (check_signature N header KeyReconcileCommit (reconcile_commit_signing_bytes body)) (\<lambda>_.
     seq (known_sender N header) (\<lambda>_.
     seq (asks_result (\<lambda>n. and_then (prepare_verified_epoch N last_epoch nonce round (nr_state n)) (\<lambda>c. ok_or c FailedConsensus))) (\<lambda>candidate.
     seq (ensure (ep_hash candidate = rc_epoch_hash body) InvalidBlockHash) (\<lambda>_.
     seq (on_state (header_quorum N header
       (seq (asks (verified_blocks_hash (ne_crypto N))) (\<lambda>hash.
        seq (ensure (hash = rc_blocks_hash body) WireProtocol) (\<lambda>_.
        seq (record_shares N (rc_epoch_hash body) (rc_signatures body) bm_empty) (\<lambda>distinct.
        seq (asks (\<lambda>q. unat (pc_supermajority (tq_proposals q)))) (\<lambda>required.
        ensure (required \<le> bm_len distinct) WireProtocol))))))) (\<lambda>_.
     seq (on_state (seq (asks (\<lambda>s. length (lst_epochchain s))) (\<lambda>length_before.
       seq (advance_epoch N last_epoch nonce round True) (\<lambda>_. asks (\<lambda>s. length_before < length (lst_epochchain s)))))) (\<lambda>extended.
     seq (after_extension N I extended) (\<lambda>_.
     accepted ''reconcile_commit''))))))))))"

definition try_reconcile_commit :: "('m, 'k) node_env \<Rightarrow> io \<Rightarrow> ReconcileCommit \<Rightarrow> ('m, MessageReceipt) step" where
  "try_reconcile_commit N I message =
    seq (asks trusted) (\<lambda>t. seq (ensure (\<not> t) InvalidConfiguration) (\<lambda>_. receive_reconcile_commit N I message))"


section \<open>Trusted confirmation\<close>

definition trusted_round_id :: "EpochTarget \<Rightarrow> Nonce \<Rightarrow> u8 \<Rightarrow> TrustedRoundId" where
  "trusted_round_id target previous_epoch_nonce round = \<lparr>ti_group_id = tg_group_id target,
    ti_previous_epoch_hash = tg_last_epoch target, ti_previous_epoch_nonce = previous_epoch_nonce, ti_nonce = tg_nonce target,
    ti_round = round\<rparr>"

text \<open>With a trusted log configured, the local queue follows the block that the log still owes.\<close>

definition reconcile_pending :: "('m, 'k) node_env \<Rightarrow> ('m, unit) step" where
  "reconcile_pending N =
    seq (asks nr_trusted_epoch_log) (\<lambda>log.
      case log of
        None \<Rightarrow> ret ()
      | Some log \<Rightarrow> seq (lift_result (pending_local_block (ne_crypto N) log)) (\<lambda>pending.
          on_blocks (run_result (\<lambda>blocks. reconcile_durable_pending_block blocks pending))))"

definition install_confirmed :: "('m, 'k) node_env \<Rightarrow> io \<Rightarrow> 'm Epoch \<Rightarrow> ('m, bool) step" where
  "install_confirmed N I epoch =
    seq (asks_result node_tip) (\<lambda>current.
      if ep_hash current = ep_hash epoch then ret False
      else seq (on_state (install_trusted_epoch N epoch)) (\<lambda>_.
        seq (asks nr_trusted_epoch_log) (\<lambda>log.
        seq (if log = None then persist_snapshot N I else ret ()) (\<lambda>_.
        seq (publish_epoch_commit I) (\<lambda>_. ret True)))))"

definition confirmed_locally :: "PubKey \<Rightarrow> HashType \<Rightarrow> TempQuorum \<Rightarrow> Verification option" where
  "confirmed_locally key expected_blocks_hash q =
    (case bm_get (tcc_confirmations (tq_trusted_confirmations q)) key of
       Some confirmation \<Rightarrow>
         if tq_verification_sent q \<and> vb_blocks_hash (vf_body confirmation) = expected_blocks_hash
           \<and> confirmation_consensus_hash (tq_trusted_confirmations q) = Some expected_blocks_hash
         then Some confirmation else None
     | None \<Rightarrow> None)"

definition complete_trusted_verification :: "('m, 'k) node_env \<Rightarrow> io \<Rightarrow> u8 \<Rightarrow> HashType \<Rightarrow> ('m, bool) step" where
  "complete_trusted_verification N I round expected_blocks_hash =
    seq (asks_result ensure_consensus_mode) (\<lambda>_.
    seq (asks trusted) (\<lambda>t.
    seq (ensure t InvalidConfiguration) (\<lambda>_.
    seq (asks_result next_epoch_target) (\<lambda>target.
    seq (asks_result (\<lambda>n. ok_or (get_consensus (tg_last_epoch target) (tg_nonce target) (nr_state n)) FailedConsensus)) (\<lambda>consensus.
    seq (asks_result (\<lambda>n. ok_or (get_quorum (tg_last_epoch target) (tg_nonce target) round (nr_state n)) FailedConsensus)) (\<lambda>q.
    seq (asks self_key) (\<lambda>key.
      case confirmed_locally key expected_blocks_hash q of
        None \<Rightarrow> ret False
      | Some confirmation \<Rightarrow>
          let confirmed_blocks = vb_blocks (vf_body confirmation) in
          seq (asks_result node_tip) (\<lambda>head.
            if \<not> length (tc_peers consensus) \<le> unat round + 1
            then on_state (advance_trusted_round N (tg_last_epoch target) (tg_nonce target) round confirmed_blocks)
            else
              seq (asks_result (\<lambda>n. prepare_trusted_epoch N (tg_last_epoch target) (tg_nonce target) round confirmed_blocks (nr_state n))) (\<lambda>epoch.
              seq (on_log (append_epoch N (io_log I) epoch (Some (trusted_round_id target (epb_nonce (ep_body head)) round)))) (\<lambda>_.
              seq (reconcile_pending N) (\<lambda>_. install_confirmed N I epoch)))))))))))"

definition try_complete_trusted_verification :: "('m, 'k) node_env \<Rightarrow> io \<Rightarrow> u8 \<Rightarrow> ('m, bool) step" where
  "try_complete_trusted_verification N I round =
    seq (asks trusted) (\<lambda>t.
      if \<not> t then ret False
      else seq (asks_result next_epoch_target) (\<lambda>target.
        seq (asks (\<lambda>n. Option.bind (get_quorum (tg_last_epoch target) (tg_nonce target) round (nr_state n))
          (\<lambda>q. bm_get (tcc_confirmations (tq_trusted_confirmations q)) (self_key n)))) (\<lambda>local_confirmation.
          case local_confirmation of
            None \<Rightarrow> ret False
          | Some confirmation \<Rightarrow> complete_trusted_verification N I round (vb_blocks_hash (vf_body confirmation)))))"


section \<open>Votes\<close>

definition confirmations_record :: "Verification \<Rightarrow> TempQuorum \<Rightarrow> unit result \<times> TempQuorum" where
  "confirmations_record message q =
    (case confirmation_record (tq_trusted_confirmations q) message of (r, confirmations) \<Rightarrow>
      (and_then r (\<lambda>_. Ok ()), q\<lparr>tq_trusted_confirmations := confirmations\<rparr>))"

definition acknowledgements_record :: "TrustedAcknowledgement \<Rightarrow> TempQuorum \<Rightarrow> unit result \<times> TempQuorum" where
  "acknowledgements_record message q =
    (case ack_record (tq_trusted_acknowledgements q) message of (r, acknowledgements) \<Rightarrow>
      (and_then r (\<lambda>_. Ok ()), q\<lparr>tq_trusted_acknowledgements := acknowledgements\<rparr>))"

definition trusted_verification :: "('m, 'k) node_env \<Rightarrow> Verification \<Rightarrow> (TempQuorum, unit) action" where
  "trusted_verification N message =
    (let sender = hd_sender (vf_header message); body = vf_body message in
     seq (asks (\<lambda>q. \<not> tq_verification_sent q \<and> has_trusted_dispatch_quorum q)) (\<lambda>ready.
     seq (if ready then seq (update (verify_with_signature_checks (ne_crypto N) (ne_wire_limit N) False)) (\<lambda>_.
         run_result activate_pending_trusted_messages) else ret ()) (\<lambda>_.
     seq (asks_result (\<lambda>q. confirmation_validate_update (tq_trusted_confirmations q) message)) (\<lambda>_.
     seq (asks (\<lambda>q. bm_get (tq_pending_trusted_confirmations q) sender)) (\<lambda>pending.
     seq (ensure (case pending of None \<Rightarrow> True
         | Some p \<Rightarrow> vb_blocks_hash (vf_body p) = vb_blocks_hash body \<and> vb_blocks (vf_body p) = vb_blocks body) WireProtocol) (\<lambda>_.
     seq (asks (\<lambda>q. trusted_candidate_blocks q body \<noteq> None)) (\<lambda>available.
       if available then run_result (confirmations_record message)
       else update (\<lambda>q. q\<lparr>tq_pending_trusted_confirmations := bm_insert sender message (tq_pending_trusted_confirmations q)\<rparr>))))))))"

definition verified_verification :: "('m, 'k) node_env \<Rightarrow> Verification \<Rightarrow> usize \<Rightarrow> (TempQuorum, unit) action" where
  "verified_verification N message required_signatures =
    seq (asks (\<lambda>q. vb_blocks (vf_body message) = verified_blocks q
        \<and> vb_blocks_hash (vf_body message) = verified_blocks_hash (ne_crypto N) q)) (\<lambda>agrees.
    seq (ensure agrees WireProtocol) (\<lambda>_.
    update (\<lambda>q. activate_pending_true_commits required_signatures
      (activate_pending_proposals (q\<lparr>tq_verifications := verif_record (tq_verifications q) message\<rparr>)))))"

definition receive_verification :: "('m, 'k) node_env \<Rightarrow> io \<Rightarrow> Verification \<Rightarrow> ('m, MessageReceipt) step" where
  "receive_verification N I message =
    (let header = vf_header message in
     seq (check_signature N header KeyVerification (verification_signing_bytes (vf_body message))) (\<lambda>_.
     seq (lift_result (verification_validate (ne_crypto N) (vf_body message))) (\<lambda>_.
     seq (on_state (commit_sender_and_threshold N header)) (\<lambda>(_, required_signatures).
     seq (known_sender N header) (\<lambda>_.
     seq (on_state (seed_header N header)) (\<lambda>_.
     seq (asks trusted) (\<lambda>t.
       if t then
         seq (on_state (header_quorum N header (trusted_verification N message))) (\<lambda>_.
         seq (try_complete_trusted_verification N I (hd_round header)) (\<lambda>_. accepted ''verification''))
       else
         seq (on_state (header_quorum N header (verified_verification N message required_signatures))) (\<lambda>_.
         seq (on_state (advance_if_committed N header)) (\<lambda>extended.
         seq (after_extension N I extended) (\<lambda>_. accepted ''verification''))))))))))"

definition receive_trusted_acknowledgement :: "('m, 'k) node_env \<Rightarrow> TrustedAcknowledgement \<Rightarrow> ('m, MessageReceipt) step" where
  "receive_trusted_acknowledgement N message =
    (let header = ta_header message; sender = hd_sender header; body = ta_body message in
     seq (asks trusted) (\<lambda>t.
     seq (ensure t InvalidConfiguration) (\<lambda>_.
     seq (check_signature N header KeyTrustedAcknowledgement (verification_signing_bytes body)) (\<lambda>_.
     seq (lift_result (verification_validate (ne_crypto N) body)) (\<lambda>_.
     seq (known_sender N header) (\<lambda>_.
     seq (on_state (header_quorum N header
       (seq (asks_result (\<lambda>q. ack_validate_update (tq_trusted_acknowledgements q) message)) (\<lambda>_.
        seq (asks (\<lambda>q. bm_get (tq_pending_trusted_acknowledgements q) sender)) (\<lambda>pending.
        seq (ensure (case pending of None \<Rightarrow> True
            | Some p \<Rightarrow> list_all (bm_contains (vb_blocks body)) (bm_keys (vb_blocks (ta_body p)))) WireProtocol) (\<lambda>_.
        seq (asks (\<lambda>q. trusted_candidate_blocks q body \<noteq> None)) (\<lambda>available.
          if available then run_result (acknowledgements_record message)
          else update (\<lambda>q. q\<lparr>tq_pending_trusted_acknowledgements :=
            bm_insert sender message (tq_pending_trusted_acknowledgements q)\<rparr>)))))))) (\<lambda>_.
     accepted ''trusted_acknowledgement'')))))))"

definition record_proposal :: "Proposal \<Rightarrow> usize \<Rightarrow> (TempQuorum, bool) action" where
  "record_proposal message required_signatures =
    (let sender = hd_sender (pr_header message) in
     seq (asks (\<lambda>q. pb_consensus (pr_body message) \<and> \<not> proposal_matches_verified_blocks message q)) (\<lambda>pending.
       if pending then seq (update (\<lambda>q. q\<lparr>tq_pending_proposals := bm_insert sender message (tq_pending_proposals q)\<rparr>)) (\<lambda>_. ret False)
       else seq (update (\<lambda>q. activate_pending_true_commits required_signatures
           (q\<lparr>tq_pending_proposals := bm_remove sender (tq_pending_proposals q),
              tq_proposals := prop_record (tq_proposals q) message\<rparr>))) (\<lambda>_. ret True)))"

definition receive_proposal :: "('m, 'k) node_env \<Rightarrow> io \<Rightarrow> Proposal \<Rightarrow> ('m, MessageReceipt) step" where
  "receive_proposal N I message =
    (let header = pr_header message; body = pr_body message in
     seq (asks trusted) (\<lambda>t.
     seq (ensure (\<not> t) InvalidConfiguration) (\<lambda>_.
     seq (check_signature N header KeyProposal (proposal_signing_bytes body)) (\<lambda>_.
     seq (lift_result (proposal_validate (ne_crypto N) body)) (\<lambda>_.
     seq (on_state (commit_sender_and_threshold N header)) (\<lambda>(_, required_signatures).
     seq (known_sender N header) (\<lambda>_.
     seq (on_state (header_quorum N header
       (seq (asks_result (verify_proposal_evidence N t header body)) (\<lambda>_. record_proposal message required_signatures)))) (\<lambda>recorded.
       if \<not> recorded then accepted ''proposal_pending''
       else seq (on_state (advance_if_committed N header)) (\<lambda>extended.
         seq (after_extension N I extended) (\<lambda>_. accepted ''proposal''))))))))))"

definition receive_commit :: "('m, 'k) node_env \<Rightarrow> io \<Rightarrow> Commit \<Rightarrow> ('m, MessageReceipt) step" where
  "receive_commit N I message =
    (let header = cm_header message in
     seq (asks trusted) (\<lambda>t.
     seq (ensure (\<not> t) InvalidConfiguration) (\<lambda>_.
     seq (check_signature N header KeyCommit (commit_signing_bytes (cm_body message))) (\<lambda>_.
     seq (on_state (commit_sender_and_threshold N header)) (\<lambda>(sender_is_authorized, required_signatures).
     seq (ensure sender_is_authorized UnknownSender) (\<lambda>_.
     seq (asks_result (\<lambda>n. validate_commit_epoch_share N message (nr_state n))) (\<lambda>_.
     seq (on_state (header_quorum N header
       (seq (asks (\<lambda>q. cb_consensus (cm_body message) \<longrightarrow> prop_consensus (tq_proposals q) = Some True)) (\<lambda>proposed.
        seq (ensure proposed FailedConsensus) (\<lambda>_.
        update (record_commit_vote message required_signatures)))))) (\<lambda>_.
     seq (on_state (advance_if_committed N header)) (\<lambda>extended.
     seq (after_extension N I extended) (\<lambda>_.
     accepted ''commit''))))))))))"

definition hint_epoch_started :: "PubKey \<Rightarrow> EpochTarget \<Rightarrow> ('m, unit) step" where
  "hint_epoch_started sender target =
    seq (asks (\<lambda>n. bm_get (nr_epoch_started_hints n) sender)) (\<lambda>previous.
      let hint = update (\<lambda>n. n\<lparr>nr_epoch_started_hints := bm_insert sender target (nr_epoch_started_hints n)\<rparr>) in
      case previous of
        None \<Rightarrow> hint
      | Some p \<Rightarrow>
          if tg_nonce p = tg_nonce target \<and> tg_last_epoch p \<noteq> tg_last_epoch target then fail WireProtocol
          else if tg_nonce target > tg_nonce p then hint else ret ())"

definition receive_epoch_started :: "('m, 'k) node_env \<Rightarrow> EpochStarted \<Rightarrow> ('m, MessageReceipt) step" where
  "receive_epoch_started N message =
    (let header = et_header message; sender = hd_sender header in
     seq (verify_message_envelope N (MsgEpochStarted message)) (\<lambda>_.
     seq (asks_result node_tip) (\<lambda>tip.
     seq (asks nr_group_id) (\<lambda>group_id.
       let target = \<lparr>tg_group_id = group_id, tg_last_epoch = hd_last_epoch header, tg_nonce = hd_nonce header\<rparr>;
           local_target = \<lparr>tg_group_id = group_id, tg_last_epoch = ep_hash tip, tg_nonce = new_next (epb_nonce (ep_body tip))\<rparr>;
           maximum = saturating_add_u64 (tg_nonce local_target) (of_nat MAX_CERTIFIED_EPOCH_SUFFIX)
       in
       seq (ensure (tg_nonce local_target \<le> hd_nonce header \<and> hd_nonce header \<le> maximum) InvalidEpochNonce) (\<lambda>_.
       seq (if target = local_target then on_state (on_consensus N (tg_last_epoch target) (tg_nonce target)
           (asks (\<lambda>c. is_peer_member_of_round c sender (hd_round header)))) else ret False) (\<lambda>sender_is_round_peer.
       seq (ensure (it_get (ne_tree N) (epb_verifiers (ep_body tip)) sender \<noteq> None) UnknownSender) (\<lambda>_.
         if hd_round header \<noteq> 0 then fail (if target = local_target \<and> \<not> sender_is_round_peer then UnknownSender else WireProtocol)
         else if target \<noteq> local_target then
           seq (hint_epoch_started sender target) (\<lambda>_. accepted ''epoch_started_catch_up'')
         else if sender_is_round_peer then
           seq (on_state (on_quorum N (tg_last_epoch target) (tg_nonce target) 0 (update (\<lambda>q.
             q\<lparr>tq_epoch_started_senders := bm_insert sender () (tq_epoch_started_senders q)\<rparr>)))) (\<lambda>_. accepted ''epoch_started'')
         else accepted ''epoch_started_global'')))))))"


section \<open>The entry point\<close>

definition receive_message :: "('m, 'k) node_env \<Rightarrow> io \<Rightarrow> Msg \<Rightarrow> ('m, MessageReceipt) step" where
  "receive_message N I message =
    seq (asks_result ensure_consensus_mode) (\<lambda>_.
    seq (verify_message_envelope N message) (\<lambda>_.
    seq (buffer_future_round_message_if_needed N message) (\<lambda>buffered.
      if buffered then accepted ''future_round_buffered''
      else case message of
        MsgDispatch m \<Rightarrow> runtime_receive_dispatch N I m
      | MsgEchoResponse m \<Rightarrow> receive_echo_response N m
      | MsgVerification m \<Rightarrow> receive_verification N I m
      | MsgProposal m \<Rightarrow> receive_proposal N I m
      | MsgCommit m \<Rightarrow> receive_commit N I m
      | MsgEpochStarted m \<Rightarrow> receive_epoch_started N m
      | MsgEchoRequest m \<Rightarrow> receive_echo_request N m
      | MsgEchoReDispatch m \<Rightarrow> receive_echo_redispatch N I m
      | MsgRoundSkipVote m \<Rightarrow> receive_round_skip_vote N m
      | MsgRoundSkipCertificate m \<Rightarrow> receive_round_skip_certificate N m
      | MsgReconcileAppraisal m \<Rightarrow> receive_reconcile_appraisal N m
      | MsgReconcileRequest m \<Rightarrow> receive_reconcile_request N m
      | MsgReconcileResponse m \<Rightarrow> receive_reconcile_response N I m
      | MsgReconcileCommit m \<Rightarrow> receive_reconcile_commit N I m
      | MsgOk \<Rightarrow> accepted ''ok''
      | MsgFail \<Rightarrow> accepted ''fail''
      | MsgTrustedAcknowledgement m \<Rightarrow> receive_trusted_acknowledgement N m)))"

end
