(* ===== verification/RuntimeConsensus.thy ===== *)
theory RuntimeConsensus
  imports RuntimeMessages
begin

text \<open>
  \<open>src/src/runtime/consensus.rs\<close>: what a node produces, stage by stage, and the local blocks it is given. Sending
  over the network is left out: a broadcast is the message it would send, and its receipts come back as an input.
\<close>

section \<open>Reads\<close>

definition target_quorum :: "('m, 'k) node_env \<Rightarrow> EpochTarget \<Rightarrow> u8 \<Rightarrow> (TempQuorum, 'a) action \<Rightarrow> ('m, 'a) step" where
  "target_quorum N target round m = on_state (on_quorum N (tg_last_epoch target) (tg_nonce target) round m)"

definition consensus_services :: "'m NodeRuntime \<Rightarrow> PubKey list \<Rightarrow> Service list" where
  "consensus_services n peers = List.map_filter (\<lambda>peer. service_for ConsensusService peer (nr_address_book n)) peers"

definition round_consensus_services :: "('m, 'k) node_env \<Rightarrow> u8 \<Rightarrow> ('m, Service list) step" where
  "round_consensus_services N round =
    seq (asks_result ensure_consensus_mode) (\<lambda>_.
    seq (asks_result next_epoch_target) (\<lambda>target.
    seq (on_state (on_consensus N (tg_last_epoch target) (tg_nonce target) (asks (\<lambda>c. round_peers c round)))) (\<lambda>peers.
    asks (\<lambda>n. consensus_services n peers))))"

definition FINALITY_COLLECTOR_DOMAIN :: bytes where
  "FINALITY_COLLECTOR_DOMAIN = string_bytes ''blossom/finality-collector/v1''"

definition finality_collectors :: "('m, 'k) node_env \<Rightarrow> QuorumSize \<Rightarrow> HashType \<Rightarrow> PubKey list \<Rightarrow> PubKey list" where
  "finality_collectors N quorum_size last_epoch validators =
    map snd (take (quorum_get quorum_size) (sort (map (\<lambda>validator.
      (hash_slices (ne_crypto N) [FINALITY_COLLECTOR_DOMAIN, hash_as_ref last_epoch, pubkey_as_ref validator], validator)) validators)))"

definition finality_collector_services :: "('m, 'k) node_env \<Rightarrow> 'm NodeRuntime \<Rightarrow> Service list result" where
  "finality_collector_services N n =
    and_then (ensure_consensus_mode n) (\<lambda>_.
      and_then (next_epoch_target n) (\<lambda>target.
        and_then (node_tip n) (\<lambda>epoch.
          Ok (consensus_services n (filter (\<lambda>validator. validator \<noteq> self_key n)
            (finality_collectors N (cp_quorum_size (nr_consensus_parameters n)) (tg_last_epoch target) (tip_validators N epoch)))))))"

record PrefillDispatchPlan =
  pp_target :: EpochTarget
  pp_source :: PubKey
  pp_recipients :: "PubKey list"
  pp_services :: "Service list"
  pp_missing_services :: "PubKey list"

definition prefill_dispatch_plan :: "('m, 'k) node_env \<Rightarrow> 'm NodeRuntime \<Rightarrow> PrefillDispatchPlan result" where
  "prefill_dispatch_plan N n =
    and_then (ensure_consensus_mode n) (\<lambda>_.
      and_then (next_epoch_target n) (\<lambda>target.
        and_then (node_tip n) (\<lambda>epoch.
          let self_node = lst_self_node (nr_state n);
              recipients = select_prefill_recipients_with_size (ne_key_tree N) (tip_validators N epoch) (ni_public_key self_node)
                (tg_last_epoch target) (ni_shuffle self_node) (cp_quorum_size (effective_consensus_parameters (ep_body epoch)))
          in Ok \<lparr>pp_target = target, pp_source = ni_public_key self_node, pp_recipients = recipients,
               pp_services = consensus_services n recipients,
               pp_missing_services = filter (\<lambda>r. service_for ConsensusService r (nr_address_book n) = None) recipients\<rparr>)))"

definition quorum_round_count :: "('m, 'k) node_env \<Rightarrow> 'm NodeRuntime \<Rightarrow> usize result" where
  "quorum_round_count N n =
    and_then (ensure_consensus_mode n) (\<lambda>_.
      and_then (next_epoch_target n) (\<lambda>target.
        and_then (node_tip n) (\<lambda>epoch.
          let self_node = lst_self_node (nr_state n) in
          Ok (length (select_quorums_with_size (ne_key_tree N) (tip_validators N epoch) (ni_public_key self_node)
            (tg_last_epoch target) (ni_shuffle self_node) (cp_quorum_size (effective_consensus_parameters (ep_body epoch))))))))"

definition current_consensus_round :: "('m, 'k) node_env \<Rightarrow> ('m, u8) step" where
  "current_consensus_round N =
    seq (asks_result ensure_consensus_mode) (\<lambda>_.
    seq (asks_result next_epoch_target) (\<lambda>target.
    on_state (on_consensus N (tg_last_epoch target) (tg_nonce target) (asks tc_round))))"

definition has_local_prefill_dispatch :: "'m NodeRuntime \<Rightarrow> bool result" where
  "has_local_prefill_dispatch n =
    and_then (ensure_consensus_mode n) (\<lambda>_.
      and_then (next_epoch_target n) (\<lambda>target.
        Ok (case prefill_dispatches (tg_last_epoch target) (tg_nonce target) (nr_state n) of
              Some records \<Rightarrow> bm_contains records (self_key n) | None \<Rightarrow> False)))"

definition is_final_consensus_round :: "('m, 'k) node_env \<Rightarrow> u8 \<Rightarrow> ('m, bool) step" where
  "is_final_consensus_round N round =
    seq (asks_result next_epoch_target) (\<lambda>target.
    on_state (on_consensus N (tg_last_epoch target) (tg_nonce target)
      (asks (\<lambda>c. checked_sub (length (tc_peers c)) 1 = Some (unat round)))))"

definition contains_epoch_hash :: "HashType \<Rightarrow> 'm NodeRuntime \<Rightarrow> bool" where
  "contains_epoch_hash epoch_hash n \<longleftrightarrow> list_ex (\<lambda>epoch. ep_hash epoch = epoch_hash) (lst_epochchain (nr_state n))"


section \<open>Local blocks\<close>

record AcceptedBlock =
  acb_group_id :: ConsensusGroupId
  acb_hash :: HashType
  acb_nonce :: Nonce
  acb_application_state_bytes :: usize

definition local_dispatch_is_sealed :: "EpochTarget \<Rightarrow> 'm NodeRuntime \<Rightarrow> bool" where
  "local_dispatch_is_sealed target n =
    (case get_consensus (tg_last_epoch target) (tg_nonce target) (nr_state n) of
       None \<Rightarrow> False
     | Some c \<Rightarrow> list_ex (\<lambda>q. tq_dispatch_status q = Some True \<or> tq_local_dispatch q \<noteq> None) (bm_values (tc_quorum c)))"

definition enqueue_submitted :: "('m, 'k) node_env \<Rightarrow> io \<Rightarrow> Block \<Rightarrow> ('m, HashType) step" where
  "enqueue_submitted N I block =
    seq (asks nr_trusted_epoch_log) (\<lambda>log.
      if log \<noteq> None then
        seq (asks_result (\<lambda>n. ensure_enqueueable (nr_local_blocks n) block)) (\<lambda>_.
        seq (on_log (persist_local_block N (io_log I) block)) (\<lambda>_.
        seq (lift_result (io_put_block I block)) (\<lambda>_.
        on_blocks (run_result (\<lambda>blocks. enqueue_preverified_block blocks block)))))
      else
        seq (on_blocks (run_result (\<lambda>blocks. enqueue_preverified_block blocks block))) (\<lambda>hash.
        seq (lift_result (io_put_block I block)) (\<lambda>_. ret hash)))"

definition submit_block :: "('m, 'k) node_env \<Rightarrow> io \<Rightarrow> Block \<Rightarrow> ('m, AcceptedBlock) step" where
  "submit_block N I block =
    seq (asks_result next_epoch_target) (\<lambda>target.
    seq (asks (local_dispatch_is_sealed target)) (\<lambda>is_sealed.
    seq (ensure (\<not> is_sealed) DuplicateBlock) (\<lambda>_.
    seq (ensure (bb_last_epoch (block_body block) = tg_last_epoch target) InvalidBlockLastEpoch) (\<lambda>_.
    seq (ensure (bb_nonce (block_body block) = tg_nonce target) (InvalidBlockNonce (tg_nonce target) (bb_nonce (block_body block)))) (\<lambda>_.
    seq (asks_result (\<lambda>n. verify_block_integrity N n block)) (\<lambda>_.
    seq (asks_result (\<lambda>n. validate_block_service n block)) (\<lambda>_.
    seq (enqueue_submitted N I block) (\<lambda>hash.
    seq (update (\<lambda>n. n\<lparr>nr_accepted_local_blocks := bm_insert (tg_nonce target) hash
        (bm_retain (\<lambda>nonce _. nonce \<ge> tg_nonce target) (nr_accepted_local_blocks n))\<rparr>)) (\<lambda>_.
    asks (\<lambda>n. \<lparr>acb_group_id = nr_group_id n, acb_hash = hash, acb_nonce = tg_nonce target,
      acb_application_state_bytes = length (bb_application_state (block_body block))\<rparr>))))))))))"

definition runtime_empty_block ::
  "('m, 'k) node_env \<Rightarrow> io \<Rightarrow> EpochTarget \<Rightarrow> bytes \<Rightarrow> EncounterRecord list \<Rightarrow> NodeAdmission list \<Rightarrow> 'm NodeRuntime \<Rightarrow> Block result" where
  "runtime_empty_block N I target application_state encounter_records node_admissions n =
    (let fresh = block_default (io_created I);
         block = fresh\<lparr>block_body := (block_body fresh)\<lparr>bb_last_epoch := tg_last_epoch target, bb_nonce := tg_nonce target,
           bb_application_state := application_state, bb_encounter_records := encounter_records,
           bb_node_admissions := node_admissions\<rparr>\<rparr>
     in if trusted n then Ok (seal_unsigned (ne_crypto N) block (self_key n))
        else and_then (ok_or (nr_signer n) MissingSecretKey) (\<lambda>signer. Ok (sign_with (ne_crypto N) block signer)))"

definition take_local_block ::
  "PubKey option \<Rightarrow> EpochTarget \<Rightarrow> u8 \<Rightarrow> (LocalBlock, Block option \<times> bytes \<times> EncounterRecord list \<times> NodeAdmission list) action" where
  "take_local_block validator target round =
    seq (run_result (\<lambda>q. dequeue_block q validator (tg_last_epoch target) (tg_nonce target) round)) (\<lambda>maybe_block.
    seq (\<lambda>q. if maybe_block = None then (case take_encounter_records q of (records, q') \<Rightarrow> (Done records, q')) else (Done [], q)) (\<lambda>records.
    seq (\<lambda>q. if maybe_block = None then (case take_node_admissions q of (admissions, q') \<Rightarrow> (Done admissions, q')) else (Done [], q)) (\<lambda>admissions.
    asks (\<lambda>q. (maybe_block, lb_application_state q, records, admissions)))))"

definition accepted_matches :: "HashType option \<Rightarrow> Block option \<Rightarrow> bool" where
  "accepted_matches expected maybe_block \<longleftrightarrow>
    (case (expected, maybe_block) of
       (Some hash, Some block) \<Rightarrow> block_hash block = hash
     | (Some _, None) \<Rightarrow> False
     | (None, _) \<Rightarrow> True)"

definition carried_blocks :: "('m, 'k) node_env \<Rightarrow> EpochTarget \<Rightarrow> u8 \<Rightarrow> ('m, block_map) step" where
  "carried_blocks N target round =
    (if round = 0 then ret bm_empty
     else seq (on_state (seed_prefill_dispatches_into_quorum N (tg_last_epoch target) (tg_nonce target) round)) (\<lambda>_.
       target_quorum N target round (asks canonical_verified_blocks)))"

definition dispatch_body_of :: "crypto \<Rightarrow> block_map \<Rightarrow> DispatchBody" where
  "dispatch_body_of E blocks = \<lparr>db_blocks = blocks, db_blocks_hash = map_hash E blocks, db_signature_tree = bm_empty,
    db_signature_tree_hash = map_hash E (bm_empty :: SignatureTree)\<rparr>"

definition seal_local_dispatch :: "('m, 'k) node_env \<Rightarrow> io \<Rightarrow> u8 \<Rightarrow> EpochTarget \<Rightarrow> ('m, Dispatch) step" where
  "seal_local_dispatch N I round target =
    seq (asks (\<lambda>n. (bm_get (nr_accepted_local_blocks n) (tg_nonce target), map_option sv_public_key (block_service n)))) (\<lambda>(expected, validator).
    seq (on_blocks (take_local_block validator target round)) (\<lambda>(maybe_block, application_state, records, admissions).
    seq (ensure (accepted_matches expected maybe_block) InvalidConfiguration) (\<lambda>_.
    seq (case maybe_block of
        Some block \<Rightarrow> ret block
      | None \<Rightarrow> asks_result (runtime_empty_block N I target application_state records admissions)) (\<lambda>block.
    seq (lift_result (io_put_block I block)) (\<lambda>_.
    seq (carried_blocks N target round) (\<lambda>carried.
      let blocks = (if list_ex (\<lambda>b. bb_validator (block_body b) = bb_validator (block_body block)) (bm_values carried) then carried
                    else bm_insert (block_hash block) block carried);
          body = dispatch_body_of (ne_crypto N) blocks
      in
      seq (asks_result (signed_header_for_body N target round KeyDispatch (dispatch_signing_bytes body))) (\<lambda>header.
        let dispatch = \<lparr>di_header = header, di_body = body\<rparr> in
        seq (target_quorum N target round (update (\<lambda>q.
          (record_verified_dispatch_blocks (ne_crypto N) blocks (q\<lparr>tq_dispatch_status := Some True\<rparr>))
            \<lparr>tq_local_dispatch := Some dispatch, tq_dispatch_retry := False\<rparr>))) (\<lambda>_.
        seq (if expected = None then ret () else update (\<lambda>n. n\<lparr>nr_accepted_local_blocks :=
          bm_remove (tg_nonce target) (nr_accepted_local_blocks n)\<rparr>)) (\<lambda>_.
        ret dispatch)))))))))"

definition dispatch_local_block_locked :: "('m, 'k) node_env \<Rightarrow> io \<Rightarrow> u8 \<Rightarrow> EpochTarget \<Rightarrow> ('m, Dispatch) step" where
  "dispatch_local_block_locked N I round target =
    seq (asks (\<lambda>n. Option.bind (get_quorum (tg_last_epoch target) (tg_nonce target) round (nr_state n)) tq_local_dispatch)) (\<lambda>sealed.
      case sealed of
        Some dispatch \<Rightarrow> ret dispatch
      | None \<Rightarrow> seal_local_dispatch N I round target)"

definition dispatch_local_block :: "('m, 'k) node_env \<Rightarrow> io \<Rightarrow> u8 \<Rightarrow> ('m, Dispatch) step" where
  "dispatch_local_block N I round =
    seq (asks_result next_epoch_target) (\<lambda>target. dispatch_local_block_locked N I round target)"

definition try_produce_dispatch_for_target ::
  "('m, 'k) node_env \<Rightarrow> io \<Rightarrow> u8 \<Rightarrow> EpochTarget option \<Rightarrow> ('m, Dispatch option) step" where
  "try_produce_dispatch_for_target N I round required_target =
    seq (asks_result ensure_consensus_mode) (\<lambda>_.
    seq (asks_result next_epoch_target) (\<lambda>target.
      if (case required_target of Some required \<Rightarrow> required \<noteq> target | None \<Rightarrow> False) then ret None
      else
        seq (target_quorum N target round (asks (\<lambda>q. (tq_dispatch_status q, tq_dispatch_retry q, tq_local_dispatch q)))) (\<lambda>(status, retry, local_dispatch).
          if status = Some True then
            if retry then seq (target_quorum N target round (update (\<lambda>q. q\<lparr>tq_dispatch_retry := False\<rparr>))) (\<lambda>_.
              seq (expect local_dispatch InvalidConfiguration) (\<lambda>dispatch. ret (Some dispatch)))
            else ret None
          else seq (dispatch_local_block_locked N I round target) (\<lambda>dispatch. ret (Some dispatch)))))"

definition try_produce_dispatch :: "('m, 'k) node_env \<Rightarrow> io \<Rightarrow> u8 \<Rightarrow> ('m, Dispatch option) step" where
  "try_produce_dispatch N I round = try_produce_dispatch_for_target N I round None"

definition schedule_dispatch_retry :: "('m, 'k) node_env \<Rightarrow> u8 \<Rightarrow> HashType \<Rightarrow> ('m, unit) step" where
  "schedule_dispatch_retry N round blocks_hash =
    seq (asks_result next_epoch_target) (\<lambda>target.
    target_quorum N target round (update (\<lambda>q.
      case tq_local_dispatch q of
        Some dispatch \<Rightarrow> if db_blocks_hash (di_body dispatch) = blocks_hash then q\<lparr>tq_dispatch_retry := True\<rparr> else q
      | None \<Rightarrow> q)))"


section \<open>Prefill\<close>

definition retry_for :: "EpochTarget \<Rightarrow> 'm NodeRuntime \<Rightarrow> PrefillDispatchRetry option" where
  "retry_for target n =
    (case nr_prefill_dispatch_retry n of
       Some retry \<Rightarrow> if hd_last_epoch (di_header (pd_dispatch retry)) = tg_last_epoch target
           \<and> hd_nonce (di_header (pd_dispatch retry)) = tg_nonce target then Some retry else None
     | None \<Rightarrow> None)"

definition prepare_prefill_dispatch ::
  "('m, 'k) node_env \<Rightarrow> io \<Rightarrow> ('m, PrefillDispatchPlan \<times> Dispatch) step" where
  "prepare_prefill_dispatch N I =
    seq (asks_result (prefill_dispatch_plan N)) (\<lambda>plan.
    seq (asks (retry_for (pp_target plan))) (\<lambda>retry.
    seq (case retry of
        Some retry \<Rightarrow> ret (pd_dispatch retry, pd_pending_recipients retry)
      | None \<Rightarrow>
          seq (dispatch_local_block N I 0) (\<lambda>dispatch.
          seq (on_state (run_result (record_prefill_dispatch dispatch))) (\<lambda>_.
            let pending = bs_of_list (pp_recipients plan) in
            seq (update (\<lambda>n. n\<lparr>nr_prefill_dispatch_retry := Some \<lparr>pd_dispatch = dispatch, pd_pending_recipients = pending,
              pd_last_failures = bm_empty\<rparr>\<rparr>)) (\<lambda>_. ret (dispatch, pending))))) (\<lambda>(dispatch, pending).
    ret (plan\<lparr>pp_recipients := filter (bm_contains pending) (pp_recipients plan),
      pp_services := filter (\<lambda>service. bm_contains pending (sv_public_key service)) (pp_services plan),
      pp_missing_services := filter (bm_contains pending) (pp_missing_services plan)\<rparr>, dispatch))))"

text \<open>The receipts of a prefill broadcast: the peer, and \<open>None\<close> when it accepted or the failure it reported.\<close>

definition prefill_receipt :: "PubKey \<times> string option \<Rightarrow> PrefillDispatchRetry \<Rightarrow> PrefillDispatchRetry" where
  "prefill_receipt receipt retry =
    (case receipt of
       (peer, None) \<Rightarrow> retry\<lparr>pd_pending_recipients := bm_remove peer (pd_pending_recipients retry),
         pd_last_failures := bm_remove peer (pd_last_failures retry)\<rparr>
     | (peer, Some failure) \<Rightarrow> retry\<lparr>pd_last_failures := bm_insert peer failure (pd_last_failures retry)\<rparr>)"

definition complete_prefill_broadcast :: "EpochTarget \<Rightarrow> (PubKey \<times> string option) list \<Rightarrow> ('m, unit) step" where
  "complete_prefill_broadcast target receipts =
    update (\<lambda>n. case retry_for target n of
      Some retry \<Rightarrow> n\<lparr>nr_prefill_dispatch_retry := Some (fold prefill_receipt receipts retry)\<rparr>
    | None \<Rightarrow> n)"

definition try_broadcast_prefill_dispatch ::
  "('m, 'k) node_env \<Rightarrow> io \<Rightarrow> ('m, (PrefillDispatchPlan \<times> Dispatch) option) step" where
  "try_broadcast_prefill_dispatch N I =
    seq (asks_result (quorum_round_count N)) (\<lambda>rounds.
      if rounds \<le> 1 then ret None
      else seq (asks_result next_epoch_target) (\<lambda>target.
        seq (asks (retry_for target)) (\<lambda>retry.
          if (case retry of Some retry \<Rightarrow> bm_is_empty (pd_pending_recipients retry) | None \<Rightarrow> False) then ret None
          else seq (prepare_prefill_dispatch N I) (\<lambda>report. ret (Some report)))))"

definition seed_prefill_dispatches_for_round :: "('m, 'k) node_env \<Rightarrow> u8 \<Rightarrow> ('m, usize) step" where
  "seed_prefill_dispatches_for_round N round =
    seq (asks_result ensure_consensus_mode) (\<lambda>_.
    seq (asks_result next_epoch_target) (\<lambda>target.
    on_state (seed_prefill_dispatches_into_quorum N (tg_last_epoch target) (tg_nonce target) round)))"

record PrefillStageStatus =
  ps_target :: EpochTarget
  ps_current_round :: u8
  ps_expected_senders :: "PubKey btree_set"
  ps_recorded_senders :: "PubKey btree_set"
  ps_missing_senders :: "PubKey btree_set"
  ps_pending_recipients :: "PubKey btree_set"

definition expected_prefill_senders :: "('m, 'k) node_env \<Rightarrow> 'm NodeRuntime \<Rightarrow> HashType \<Rightarrow> NodeIdentity list \<Rightarrow> PubKey btree_set" where
  "expected_prefill_senders N n last_epoch verifiers =
    (let all_keys = map ni_public_key verifiers in
     bs_of_list (map ni_public_key (filter (\<lambda>sender. ni_public_key sender = self_key n
       \<or> self_key n \<in> set (select_prefill_recipients_with_size (ne_key_tree N) all_keys (ni_public_key sender) last_epoch
           (ni_shuffle sender) (cp_quorum_size (nr_consensus_parameters n)))) verifiers)))"

definition prefill_stage_status :: "('m, 'k) node_env \<Rightarrow> 'm NodeRuntime \<Rightarrow> PrefillStageStatus result" where
  "prefill_stage_status N n =
    and_then (ensure_consensus_mode n) (\<lambda>_.
      and_then (next_epoch_target n) (\<lambda>target.
        and_then (node_tip n) (\<lambda>epoch.
          let expected = expected_prefill_senders N n (tg_last_epoch target) (it_values (ne_tree N) (epb_verifiers (ep_body epoch)));
              recorded = bs_of_list (case prefill_dispatches (tg_last_epoch target) (tg_nonce target) (nr_state n) of
                Some records \<Rightarrow> bm_keys records | None \<Rightarrow> [])
          in Ok \<lparr>ps_target = target,
               ps_current_round = (case get_consensus (tg_last_epoch target) (tg_nonce target) (nr_state n) of
                 Some c \<Rightarrow> tc_round c | None \<Rightarrow> 0),
               ps_expected_senders = expected, ps_recorded_senders = recorded,
               ps_missing_senders = bm_retain (\<lambda>sender _. \<not> bm_contains recorded sender) expected,
               ps_pending_recipients = (case retry_for target n of Some retry \<Rightarrow> pd_pending_recipients retry | None \<Rightarrow> bm_empty)\<rparr>)))"

definition prefill_ready :: "PrefillStageStatus \<Rightarrow> bool" where
  "prefill_ready status \<longleftrightarrow> bm_is_empty (ps_missing_senders status)"

definition try_activate_prefill_round :: "('m, 'k) node_env \<Rightarrow> ('m, bool) step" where
  "try_activate_prefill_round N =
    seq (asks_result ensure_consensus_mode) (\<lambda>_.
    seq (asks_result (quorum_round_count N)) (\<lambda>rounds.
      if rounds \<le> 1 then ret True
      else seq (asks_result (prefill_stage_status N)) (\<lambda>status.
        if \<not> prefill_ready status then ret False
        else seq (on_state (on_consensus N (tg_last_epoch (ps_target status)) (tg_nonce (ps_target status)) (update (\<lambda>c.
            if length (tc_peers c) > 1 \<and> tc_round c = 0 then c\<lparr>tc_round := 1\<rparr> else c)))) (\<lambda>_. ret True))))"


section \<open>Acknowledgements and verifications\<close>

definition acknowledgement_body :: "('m, 'k) node_env \<Rightarrow> (TempQuorum, VerificationBody option) action" where
  "acknowledgement_body N =
    seq (asks has_trusted_dispatch_quorum) (\<lambda>ready.
      if \<not> ready then ret None
      else
        seq (update (verify_with_signature_checks (ne_crypto N) (ne_wire_limit N) False)) (\<lambda>_.
        seq (run_result activate_pending_trusted_messages) (\<lambda>_.
        asks (\<lambda>q. let body = confirmed_body (ne_crypto N) (verified_blocks q) in
          if tq_last_trusted_acknowledgement_hash q = Some (vb_blocks_hash body)
            \<and> tq_trusted_acknowledgement_retry q \<noteq> Some (vb_blocks_hash body) then None else Some body))))"

definition try_produce_trusted_acknowledgement ::
  "('m, 'k) node_env \<Rightarrow> u8 \<Rightarrow> ('m, TrustedAcknowledgement option) step" where
  "try_produce_trusted_acknowledgement N round =
    seq (asks_result ensure_consensus_mode) (\<lambda>_.
    seq (asks trusted) (\<lambda>t.
    seq (ensure t InvalidConfiguration) (\<lambda>_.
    seq (asks_result next_epoch_target) (\<lambda>target.
    seq (on_state (seed_prefill_dispatches_into_quorum N (tg_last_epoch target) (tg_nonce target) round)) (\<lambda>_.
    seq (target_quorum N target round (acknowledgement_body N)) (\<lambda>maybe_body.
      case maybe_body of
        None \<Rightarrow> ret None
      | Some body \<Rightarrow>
          seq (asks_result (signed_header_for_body N target round KeyTrustedAcknowledgement (verification_signing_bytes body))) (\<lambda>header.
            let acknowledgement = \<lparr>ta_header = header, ta_body = body\<rparr> in
            seq (target_quorum N target round
              (seq (asks (\<lambda>q. tq_last_trusted_acknowledgement_hash q = Some (vb_blocks_hash body))) (\<lambda>again.
                if again then update (\<lambda>q. q\<lparr>tq_trusted_acknowledgement_retry := None\<rparr>)
                else seq (run_result (acknowledgements_record acknowledgement)) (\<lambda>_.
                  update (\<lambda>q. q\<lparr>tq_last_trusted_acknowledgement_hash := Some (vb_blocks_hash body),
                    tq_trusted_acknowledgement_retry := None\<rparr>))))) (\<lambda>_.
            ret (Some acknowledgement)))))))))"

definition schedule_trusted_acknowledgement_retry :: "('m, 'k) node_env \<Rightarrow> u8 \<Rightarrow> HashType \<Rightarrow> ('m, unit) step" where
  "schedule_trusted_acknowledgement_retry N round blocks_hash =
    seq (asks trusted) (\<lambda>t.
      if \<not> t then ret ()
      else seq (asks_result next_epoch_target) (\<lambda>target.
        target_quorum N target round (update (\<lambda>q.
          if tq_last_trusted_acknowledgement_hash q = Some blocks_hash then q\<lparr>tq_trusted_acknowledgement_retry := Some blocks_hash\<rparr>
          else q))))"

text \<open>A message that was to be sent again: the one recorded, exactly.\<close>

definition retried_verification :: "PubKey \<Rightarrow> bool \<Rightarrow> (TempQuorum, Verification option) action" where
  "retried_verification key t =
    (if \<not> t then
       seq (asks tq_verification_retry) (\<lambda>retry.
         if \<not> retry then ret None
         else seq (asks_result (\<lambda>q. ok_or (bm_get (vc_verifications (tq_verifications q)) key) InvalidConfiguration)) (\<lambda>v.
           seq (update (\<lambda>q. q\<lparr>tq_verification_retry := False\<rparr>)) (\<lambda>_. ret (Some v))))
     else
       seq (asks tq_trusted_confirmation_retry) (\<lambda>retry.
         case retry of
           None \<Rightarrow> ret None
         | Some hash \<Rightarrow>
             seq (asks (\<lambda>q. bm_get (tcc_confirmations (tq_trusted_confirmations q)) key)) (\<lambda>confirmation.
             seq (expect (case confirmation of Some v \<Rightarrow> if vb_blocks_hash (vf_body v) = hash then Some v else None | None \<Rightarrow> None)
               InvalidConfiguration) (\<lambda>v.
             seq (update (\<lambda>q. q\<lparr>tq_trusted_confirmation_retry := None\<rparr>)) (\<lambda>_. ret (Some v))))))"

text \<open>The block set to confirm in trusted mode: the one of the durable lock, or the one a supermajority acknowledged.\<close>

definition trusted_candidate ::
  "('m, 'k) node_env \<Rightarrow> TrustedRoundId \<Rightarrow> TrustedRoundLock option \<Rightarrow> (TempQuorum, (VerificationBody \<times> block_map) option) action" where
  "trusted_candidate N round_id persisted_lock =
    (case persisted_lock of
       Some lock \<Rightarrow>
         seq (ensure (tk_round_id lock = round_id) InvalidConfiguration) (\<lambda>_.
         seq (update (record_verified_dispatch_blocks (ne_crypto N) (tk_blocks lock))) (\<lambda>_.
         ret (Some (vf_body (tk_verification lock), tk_blocks lock))))
     | None \<Rightarrow>
         seq (run_result activate_pending_trusted_messages) (\<lambda>_.
         seq (asks (\<lambda>q. ack_consensus_body (tq_trusted_acknowledgements q))) (\<lambda>maybe_body.
           case maybe_body of
             None \<Rightarrow> ret None
           | Some body \<Rightarrow> seq (asks_result (\<lambda>q. ok_or (trusted_candidate_blocks q body) InvalidConfiguration)) (\<lambda>blocks.
               ret (Some (body, blocks))))))"

definition verified_candidate :: "('m, 'k) node_env \<Rightarrow> (TempQuorum, VerificationBody option) action" where
  "verified_candidate N =
    seq (asks has_complete_dispatch_set) (\<lambda>complete.
      if \<not> complete then ret None
      else seq (update (verify_with_signature_checks (ne_crypto N) (ne_wire_limit N) True)) (\<lambda>_.
        asks (\<lambda>q. Some (confirmed_body (ne_crypto N) (verified_blocks q)))))"

definition record_own_verification :: "('m, 'k) node_env \<Rightarrow> bool \<Rightarrow> Verification \<Rightarrow> (TempQuorum, Verification option) action" where
  "record_own_verification N t message =
    seq (asks tq_verification_sent) (\<lambda>sent.
      if sent then ret None
      else
        seq (if t then
            seq (asks (\<lambda>q. trusted_candidate_blocks q (vf_body message) \<noteq> None)) (\<lambda>available.
            seq (ensure available WireProtocol) (\<lambda>_. run_result (confirmations_record message)))
          else
            seq (asks (\<lambda>q. vb_blocks (vf_body message) = verified_blocks q
              \<and> vb_blocks_hash (vf_body message) = verified_blocks_hash (ne_crypto N) q)) (\<lambda>agrees.
            seq (ensure agrees WireProtocol) (\<lambda>_.
            update (\<lambda>q. q\<lparr>tq_verifications := verif_record (tq_verifications q) message\<rparr>)))) (\<lambda>_.
        seq (update (\<lambda>q. q\<lparr>tq_verification_sent := True\<rparr>)) (\<lambda>_. ret (Some message))))"

definition produce_verified_verification :: "('m, 'k) node_env \<Rightarrow> EpochTarget \<Rightarrow> u8 \<Rightarrow> ('m, Verification option) step" where
  "produce_verified_verification N target round =
    seq (target_quorum N target round (seq (asks tq_verification_sent) (\<lambda>sent.
      if sent then ret None else verified_candidate N))) (\<lambda>maybe_body.
      case maybe_body of
        None \<Rightarrow> ret None
      | Some body \<Rightarrow>
          seq (asks_result (signed_header_for_body N target round KeyVerification (verification_signing_bytes body))) (\<lambda>header.
          target_quorum N target round (record_own_verification N False \<lparr>vf_header = header, vf_body = body\<rparr>)))"

definition produce_trusted_verification :: "('m, 'k) node_env \<Rightarrow> io \<Rightarrow> EpochTarget \<Rightarrow> u8 \<Rightarrow> ('m, Verification option) step" where
  "produce_trusted_verification N I target round =
    seq (asks_result node_tip) (\<lambda>head.
      let round_id = trusted_round_id target (epb_nonce (ep_body head)) round in
      seq (asks_result (\<lambda>n. case nr_trusted_epoch_log n of
          Some log \<Rightarrow> round_lock (ne_crypto N) round_id log | None \<Rightarrow> Ok None)) (\<lambda>persisted_lock.
      seq (on_state (seed_prefill_dispatches_into_quorum N (tg_last_epoch target) (tg_nonce target) round)) (\<lambda>_.
      seq (target_quorum N target round (seq (asks tq_verification_sent) (\<lambda>sent.
        if sent then ret None else trusted_candidate N round_id persisted_lock))) (\<lambda>candidate.
        case candidate of
          None \<Rightarrow> ret None
        | Some (body, blocks) \<Rightarrow>
            seq (asks_result (signed_header_for_body N target round KeyVerification (verification_signing_bytes body))) (\<lambda>header.
              let message = \<lparr>vf_header = header, vf_body = body\<rparr> in
              seq (on_log (lock_round N (io_log I) \<lparr>tk_round_id = round_id, tk_verification = message, tk_blocks = blocks\<rparr>)) (\<lambda>_.
              target_quorum N target round (record_own_verification N True message)))))))"

definition try_produce_verification :: "('m, 'k) node_env \<Rightarrow> io \<Rightarrow> u8 \<Rightarrow> ('m, Verification option) step" where
  "try_produce_verification N I round =
    seq (asks_result ensure_consensus_mode) (\<lambda>_.
    seq (asks_result next_epoch_target) (\<lambda>target.
    seq (asks (\<lambda>n. (self_key n, trusted n))) (\<lambda>(key, t).
    seq (target_quorum N target round (retried_verification key t)) (\<lambda>retried.
      case retried of
        Some v \<Rightarrow> ret (Some v)
      | None \<Rightarrow>
          if t then produce_trusted_verification N I target round
          else seq (on_state (seed_prefill_dispatches_into_quorum N (tg_last_epoch target) (tg_nonce target) round)) (\<lambda>_.
            produce_verified_verification N target round)))))"

definition schedule_verification_retry :: "('m, 'k) node_env \<Rightarrow> u8 \<Rightarrow> HashType \<Rightarrow> ('m, unit) step" where
  "schedule_verification_retry N round blocks_hash =
    seq (asks (\<lambda>n. (self_key n, trusted n))) (\<lambda>(key, t).
      if t then ret ()
      else seq (asks_result next_epoch_target) (\<lambda>target.
        target_quorum N target round (update (\<lambda>q.
          case bm_get (vc_verifications (tq_verifications q)) key of
            Some v \<Rightarrow> if vb_blocks_hash (vf_body v) = blocks_hash then q\<lparr>tq_verification_retry := True\<rparr> else q
          | None \<Rightarrow> q))))"

definition schedule_trusted_confirmation_retry :: "('m, 'k) node_env \<Rightarrow> u8 \<Rightarrow> HashType \<Rightarrow> ('m, unit) step" where
  "schedule_trusted_confirmation_retry N round blocks_hash =
    seq (asks (\<lambda>n. (self_key n, trusted n))) (\<lambda>(key, t).
      if \<not> t then ret ()
      else seq (asks_result next_epoch_target) (\<lambda>target.
        target_quorum N target round (update (\<lambda>q.
          case bm_get (tcc_confirmations (tq_trusted_confirmations q)) key of
            Some v \<Rightarrow> if vb_blocks_hash (vf_body v) = blocks_hash then q\<lparr>tq_trusted_confirmation_retry := Some blocks_hash\<rparr> else q
          | None \<Rightarrow> q))))"


section \<open>Proposals\<close>

definition proposal_retried :: "PubKey \<Rightarrow> (TempQuorum, Proposal option) action" where
  "proposal_retried key =
    seq (asks tq_proposal_retry) (\<lambda>retry.
      if \<not> retry then ret None
      else seq (asks_result (\<lambda>q. ok_or (bm_get (pc_proposals (tq_proposals q)) key) InvalidConfiguration)) (\<lambda>p.
        seq (update (\<lambda>q. q\<lparr>tq_proposal_retry := False\<rparr>)) (\<lambda>_. ret (Some p))))"

definition approved_proof :: "TempQuorum \<Rightarrow> HashType \<Rightarrow> (PubKey \<times> Signature) list" where
  "approved_proof q approved_hash =
    take (unat (vc_supermajority (tq_verifications q)))
      (map (\<lambda>(sender, v). (sender, hd_signature (vf_header v)))
        (filter (\<lambda>(_, v). vb_blocks_hash (vf_body v) = approved_hash) (bm_entries (vc_verifications (tq_verifications q)))))"

definition proposal_body :: "('m, 'k) node_env \<Rightarrow> TempQuorum \<Rightarrow> ProposalBody option" where
  "proposal_body N q =
    (if tq_proposal_sent q then None
     else case verif_consensus_hash (tq_verifications q) of
       None \<Rightarrow> None
     | Some approved_hash \<Rightarrow>
         let approved_blocks = verified_blocks q; verif = approved_proof q approved_hash in
         if map_hash (ne_crypto N) approved_blocks \<noteq> approved_hash
            \<or> length verif < unat (vc_supermajority (tq_verifications q)) then None
         else Some \<lparr>pb_consensus = True, pb_approved_blocks = Some approved_blocks, pb_approved_hash = Some approved_hash,
           pb_verif = Some verif, pb_signature_tree = Some approved_blocks, pb_signature_tree_hash = Some approved_hash\<rparr>)"

definition record_own_proposal :: "('m, 'k) node_env \<Rightarrow> Proposal \<Rightarrow> (TempQuorum, Proposal option) action" where
  "record_own_proposal N message =
    seq (asks tq_proposal_sent) (\<lambda>sent.
      if sent then ret None
      else seq (asks_result (verify_proposal_proof N False (pr_header message) (pr_body message))) (\<lambda>_.
        seq (update (\<lambda>q. q\<lparr>tq_proposal_sent := True, tq_proposals := prop_record (tq_proposals q) message\<rparr>)) (\<lambda>_.
        ret (Some message))))"

definition try_produce_proposal :: "('m, 'k) node_env \<Rightarrow> u8 \<Rightarrow> ('m, Proposal option) step" where
  "try_produce_proposal N round =
    seq (asks_result ensure_consensus_mode) (\<lambda>_.
    seq (asks trusted) (\<lambda>t.
    seq (ensure (\<not> t) InvalidConfiguration) (\<lambda>_.
    seq (asks_result next_epoch_target) (\<lambda>target.
    seq (asks self_key) (\<lambda>key.
    seq (target_quorum N target round (proposal_retried key)) (\<lambda>retried.
      case retried of
        Some p \<Rightarrow> ret (Some p)
      | None \<Rightarrow>
          seq (on_state (seed_prefill_dispatches_into_quorum N (tg_last_epoch target) (tg_nonce target) round)) (\<lambda>_.
          seq (target_quorum N target round (seq (update activate_pending_proposals) (\<lambda>_. asks (proposal_body N)))) (\<lambda>maybe_body.
            case maybe_body of
              None \<Rightarrow> ret None
            | Some body \<Rightarrow>
                seq (lift_result (proposal_validate (ne_crypto N) body)) (\<lambda>_.
                seq (asks_result (signed_header_for_body N target round KeyProposal (proposal_signing_bytes body))) (\<lambda>header.
                target_quorum N target round (record_own_proposal N \<lparr>pr_header = header, pr_body = body\<rparr>)))))))))))"

definition schedule_proposal_retry :: "('m, 'k) node_env \<Rightarrow> u8 \<Rightarrow> Signature \<Rightarrow> ('m, unit) step" where
  "schedule_proposal_retry N round signature =
    seq (asks_result next_epoch_target) (\<lambda>target.
    seq (asks self_key) (\<lambda>key.
    target_quorum N target round (update (\<lambda>q.
      case bm_get (pc_proposals (tq_proposals q)) key of
        Some p \<Rightarrow> if hd_signature (pr_header p) = signature then q\<lparr>tq_proposal_retry := True\<rparr> else q
      | None \<Rightarrow> q))))"


section \<open>Commits\<close>

text \<open>The certificate share of a final round: the node's signature on the hash of the epoch it is about to commit.\<close>

definition share_signature :: "('m, 'k) node_env \<Rightarrow> 'm NodeRuntime \<Rightarrow> HashType \<Rightarrow> Signature result" where
  "share_signature N n hash =
    (case nr_signer n of
       Some signer \<Rightarrow> Ok (ed_sign (ne_crypto N) signer (hash_as_ref hash))
     | None \<Rightarrow> and_then (node_signer (ne_crypto N) (lst_self_node (nr_state n))) (\<lambda>secret.
         Ok (ed_sign (ne_crypto N) secret (hash_as_ref hash))))"

definition commit_body :: "('m, 'k) node_env \<Rightarrow> EpochTarget \<Rightarrow> u8 \<Rightarrow> 'm NodeRuntime \<Rightarrow> CommitBody option result" where
  "commit_body N target round n =
    (case get_quorum (tg_last_epoch target) (tg_nonce target) round (nr_state n) of
       None \<Rightarrow> Ok None
     | Some q \<Rightarrow>
         if bm_contains (tq_commit_senders q) (self_key n) then Ok None
         else case prop_consensus (tq_proposals q) of
           None \<Rightarrow> Ok None
         | Some consensus \<Rightarrow>
             and_then (if consensus then and_then (prepare_verified_epoch N (tg_last_epoch target) (tg_nonce target) round (nr_state n))
                 (\<lambda>prepared. Ok (map_option ep_hash prepared)) else Ok None) (\<lambda>epoch_hash.
               and_then (case epoch_hash of None \<Rightarrow> Ok None
                   | Some hash \<Rightarrow> and_then (share_signature N n hash) (\<lambda>signature. Ok (Some signature))) (\<lambda>epoch_signature.
                 Ok (Some \<lparr>cb_consensus = consensus, cb_signature_tree_insert = None, cb_epoch_hash = epoch_hash,
                   cb_epoch_signature = epoch_signature\<rparr>))))"

definition own_commit_allowed :: "Commit \<Rightarrow> TempQuorum option \<Rightarrow> bool result" where
  "own_commit_allowed message maybe_quorum =
    (case maybe_quorum of
       None \<Rightarrow> Ok True
     | Some q \<Rightarrow> if bm_contains (tq_commit_senders q) (hd_sender (cm_header message)) then Ok False
         else if cb_consensus (cm_body message) \<and> prop_consensus (tq_proposals q) \<noteq> Some True then Err WireProtocol
         else Ok True)"

definition record_own_commit :: "Commit \<Rightarrow> usize \<Rightarrow> TempQuorum \<Rightarrow> TempQuorum" where
  "record_own_commit message required_signatures q = record_commit_vote message required_signatures (q\<lparr>tq_local_commit := Some message\<rparr>)"

text \<open>The part of \<open>try_produce_commit\<close> up to the record of the own vote, and the part after it.\<close>

definition cast_commit :: "('m, 'k) node_env \<Rightarrow> u8 \<Rightarrow> ('m, Commit option) step" where
  "cast_commit N round =
    seq (asks_result ensure_consensus_mode) (\<lambda>_.
    seq (asks trusted) (\<lambda>t.
    seq (ensure (\<not> t) InvalidConfiguration) (\<lambda>_.
    seq (asks_result next_epoch_target) (\<lambda>target.
    seq (asks_result (commit_body N target round)) (\<lambda>maybe_body.
      case maybe_body of
        None \<Rightarrow> ret None
      | Some body \<Rightarrow>
          seq (asks_result (signed_header_for_body N target round KeyCommit (commit_signing_bytes body))) (\<lambda>header.
            let message = \<lparr>cm_header = header, cm_body = body\<rparr> in
            seq (on_state (commit_sender_and_threshold N header)) (\<lambda>(sender_is_authorized, required_signatures).
            seq (ensure sender_is_authorized UnknownSender) (\<lambda>_.
            seq (asks_result (\<lambda>n. own_commit_allowed message
              (get_quorum (tg_last_epoch target) (tg_nonce target) round (nr_state n)))) (\<lambda>allowed.
              if \<not> allowed then ret None
              else
                seq (asks_result (\<lambda>n. validate_commit_epoch_share N message (nr_state n))) (\<lambda>_.
                seq (target_quorum N target round (update (record_own_commit message required_signatures))) (\<lambda>_.
                ret (Some message))))))))))))"

definition try_produce_commit :: "('m, 'k) node_env \<Rightarrow> io \<Rightarrow> u8 \<Rightarrow> ('m, Commit option) step" where
  "try_produce_commit N I round =
    seq (cast_commit N round) (\<lambda>cast.
      case cast of
        None \<Rightarrow> ret None
      | Some message \<Rightarrow>
          seq (on_state (advance_if_committed N (cm_header message))) (\<lambda>extended.
          seq (after_extension N I extended) (\<lambda>_.
          ret (Some message))))"

definition retry_final_commit :: "('m, 'k) node_env \<Rightarrow> u8 \<Rightarrow> ('m, Commit option) step" where
  "retry_final_commit N round =
    seq (asks_result ensure_consensus_mode) (\<lambda>_.
    seq (asks trusted) (\<lambda>t.
    seq (ensure (\<not> t) InvalidConfiguration) (\<lambda>_.
    seq (is_final_consensus_round N round) (\<lambda>final.
      if \<not> final then ret None
      else seq (asks_result next_epoch_target) (\<lambda>target.
        asks (\<lambda>n. Option.bind (get_quorum (tg_last_epoch target) (tg_nonce target) round (nr_state n)) tq_local_commit))))))"


section \<open>Announcing an epoch\<close>

definition started_retry_for :: "HashType \<Rightarrow> Nonce \<Rightarrow> 'm NodeRuntime \<Rightarrow> EpochStartedRetry option" where
  "started_retry_for last_epoch nonce n =
    (case nr_epoch_started_retry n of
       Some retry \<Rightarrow> if hd_last_epoch (et_header (sr_message retry)) = last_epoch \<and> hd_nonce (et_header (sr_message retry)) = nonce
         then Some retry else None
     | None \<Rightarrow> None)"

definition try_produce_epoch_started :: "('m, 'k) node_env \<Rightarrow> ('m, EpochStarted option) step" where
  "try_produce_epoch_started N =
    seq (asks_result ensure_consensus_mode) (\<lambda>_.
    seq (asks_result next_epoch_target) (\<lambda>target.
    seq (asks self_key) (\<lambda>key.
    seq (asks_result node_tip) (\<lambda>latest.
      if epb_nonce (ep_body latest) = 0 then ret None
      else
        seq (target_quorum N target 0 (asks (\<lambda>q. bm_contains (tq_epoch_started_senders q) key))) (\<lambda>announced.
          if announced then
            asks (\<lambda>n. case started_retry_for (tg_last_epoch target) (tg_nonce target) n of
              Some retry \<Rightarrow> if bm_is_empty (sr_pending_validators retry) then None else Some (sr_message retry)
            | None \<Rightarrow> None)
          else
            seq (asks_result (signed_header_for_body N target 0 KeyEpochStarted epoch_started_signing_bytes)) (\<lambda>header.
              let message = \<lparr>et_header = header\<rparr>;
                  pending = bs_of_list (filter (\<lambda>validator. validator \<noteq> key) (tip_validators N latest))
              in
              seq (target_quorum N target 0 (update (\<lambda>q. q\<lparr>tq_epoch_started_senders :=
                bm_insert key () (tq_epoch_started_senders q)\<rparr>))) (\<lambda>_.
              seq (update (\<lambda>n. n\<lparr>nr_epoch_started_retry := Some \<lparr>sr_message = message, sr_pending_validators = pending,
                sr_last_failures = bm_empty\<rparr>\<rparr>)) (\<lambda>_.
              ret (Some message)))))))))"

definition epoch_started_retry_services :: "EpochStarted \<Rightarrow> 'm NodeRuntime \<Rightarrow> Service list" where
  "epoch_started_retry_services message n =
    consensus_services n (case started_retry_for (hd_last_epoch (et_header message)) (hd_nonce (et_header message)) n of
      Some retry \<Rightarrow> bm_keys (sr_pending_validators retry) | None \<Rightarrow> [])"

definition on_started_retry :: "EpochStarted \<Rightarrow> (EpochStartedRetry \<Rightarrow> EpochStartedRetry) \<Rightarrow> ('m, unit) step" where
  "on_started_retry message f =
    update (\<lambda>n. case started_retry_for (hd_last_epoch (et_header message)) (hd_nonce (et_header message)) n of
      Some retry \<Rightarrow> n\<lparr>nr_epoch_started_retry := Some (f retry)\<rparr>
    | None \<Rightarrow> n)"

definition complete_epoch_started_broadcast :: "EpochStarted \<Rightarrow> PubKey list \<Rightarrow> ('m, unit) step" where
  "complete_epoch_started_broadcast message acknowledged =
    on_started_retry message (fold (\<lambda>validator retry. retry\<lparr>
      sr_pending_validators := bm_remove validator (sr_pending_validators retry),
      sr_last_failures := bm_remove validator (sr_last_failures retry)\<rparr>) acknowledged)"

definition record_epoch_started_broadcast_failures :: "EpochStarted \<Rightarrow> (PubKey \<times> string) list \<Rightarrow> ('m, unit) step" where
  "record_epoch_started_broadcast_failures message failures =
    on_started_retry message (fold (\<lambda>(validator, failure) retry.
      if bm_contains (sr_pending_validators retry) validator
      then retry\<lparr>sr_last_failures := bm_insert validator failure (sr_last_failures retry)\<rparr> else retry) failures)"

end
