(* ===== verification/RuntimeRecovery.thy ===== *)
theory RuntimeRecovery
  imports RuntimeConsensus
begin

text \<open>
  \<open>src/src/runtime/recovery.rs\<close> and \<open>runtime/application.rs\<close>: catching up with a certified or trusted suffix,
  repairing blocks, skipping rounds, admissions and member operations, and the application's own inputs. The feature for
  filtered payloads is not modelled. That a transaction handed to \<open>submit_transaction\<close> is never part of what the node
  dispatches is shown in \<open>Submissions\<close>.
\<close>

section \<open>Catching up\<close>

definition epochchain_range :: "Nonce \<Rightarrow> usize \<Rightarrow> 'm NodeRuntime \<Rightarrow> 'm Epoch list" where
  "epochchain_range from_nonce max_epochs n =
    take (min max_epochs 4096) (filter (\<lambda>epoch. from_nonce \<le> epb_nonce (ep_body epoch)) (lst_epochchain (nr_state n)))"

definition certified_epoch_suffix :: "HashType \<Rightarrow> Nonce \<Rightarrow> usize \<Rightarrow> 'm NodeRuntime \<Rightarrow> 'm CertifiedEpochSuffix result" where
  "certified_epoch_suffix anchor_hash anchor_nonce max_epochs n =
    (if nr_trust_mode n \<noteq> Verified then Err InvalidConfiguration
     else case dropWhile (\<lambda>epoch. \<not> (ep_hash epoch = anchor_hash \<and> epb_nonce (ep_body epoch) = anchor_nonce)) (lst_epochchain (nr_state n)) of
       [] \<Rightarrow> Err InvalidEpochNonce
     | _ # later \<Rightarrow> Ok \<lparr>cs_version = CERTIFIED_EPOCH_SUFFIX_VERSION, cs_group_id = nr_group_id n, cs_anchor_hash = anchor_hash,
         cs_anchor_nonce = anchor_nonce, cs_epochs = take (min max_epochs MAX_CERTIFIED_EPOCH_SUFFIX) later\<rparr>)"

definition extend_chain :: "'m Epoch list \<Rightarrow> 'm LocalState \<Rightarrow> 'm LocalState" where
  "extend_chain epochs s = s\<lparr>lst_epochchain := lst_epochchain s @ epochs\<rparr>"

definition prune_epoch_started_hints :: "'m NodeRuntime \<Rightarrow> 'm NodeRuntime" where
  "prune_epoch_started_hints n =
    (case next_epoch_target n of
       Inl _ \<Rightarrow> n
     | Inr local_target \<Rightarrow> n\<lparr>nr_epoch_started_hints := bm_retain (\<lambda>_ target. tg_nonce target > tg_nonce local_target
         \<or> (tg_nonce target = tg_nonce local_target \<and> tg_last_epoch target \<noteq> tg_last_epoch local_target)) (nr_epoch_started_hints n)\<rparr>)"

definition finish_catch_up :: "('m, 'k) node_env \<Rightarrow> io \<Rightarrow> ('m, bool) step" where
  "finish_catch_up N I =
    seq (persist_snapshot N I) (\<lambda>_.
    seq (publish_epoch_commit I) (\<lambda>_.
    seq (asks_result next_epoch_target) (\<lambda>target.
    seq (asks self_key) (\<lambda>key.
    seq (target_quorum N target 0 (update (\<lambda>q. q\<lparr>tq_epoch_started_senders := bm_insert key () (tq_epoch_started_senders q)\<rparr>))) (\<lambda>_.
    seq (update prune_epoch_started_hints) (\<lambda>_.
    ret True))))))"

definition catch_up_certified_suffix :: "('m, 'k) node_env \<Rightarrow> io \<Rightarrow> 'm CertifiedEpochSuffix \<Rightarrow> ('m, bool) step" where
  "catch_up_certified_suffix N I suffix =
    seq (asks nr_trust_mode) (\<lambda>mode.
    seq (ensure (mode = Verified) InvalidConfiguration) (\<lambda>_.
    seq (asks_result node_tip) (\<lambda>local_tip.
    seq (ensure (cs_anchor_hash suffix = ep_hash local_tip \<and> cs_anchor_nonce suffix = epb_nonce (ep_body local_tip)) InvalidEpochNonce) (\<lambda>_.
    seq (asks_result (\<lambda>n. validate_from N suffix local_tip (nr_removal_policy n))) (\<lambda>_.
      if cs_epochs suffix = [] then ret False
      else seq (on_state (update (extend_chain (cs_epochs suffix)))) (\<lambda>_. finish_catch_up N I))))))"

definition epoch_started_catch_up_services :: "'m NodeRuntime \<Rightarrow> Service list result" where
  "epoch_started_catch_up_services n =
    (if nr_trust_mode n \<noteq> Verified then Ok []
     else and_then (next_epoch_target n) (\<lambda>local_target.
       Ok (consensus_services n (map fst (filter (\<lambda>(_, target). tg_nonce target > tg_nonce local_target
         \<and> tg_last_epoch target \<noteq> tg_last_epoch local_target) (bm_entries (nr_epoch_started_hints n)))))))"

definition trusted_suffix :: "'m Epoch \<Rightarrow> 'm Epoch list \<Rightarrow> 'm Epoch list" where
  "trusted_suffix local_tip remote_chain =
    (case dropWhile (\<lambda>epoch. ep_hash epoch \<noteq> ep_hash local_tip) remote_chain of
       [] \<Rightarrow> remote_chain
     | _ # later \<Rightarrow> later)"

definition catch_up_trusted_epoch_range :: "('m, 'k) node_env \<Rightarrow> io \<Rightarrow> 'm Epoch list \<Rightarrow> ('m, bool) step" where
  "catch_up_trusted_epoch_range N I remote_chain =
    (if remote_chain = [] then ret False
     else seq (asks_result node_tip) (\<lambda>local_tip.
       let suffix = trusted_suffix local_tip remote_chain in
       if suffix = [] then ret False
       else
         seq (asks nr_removal_policy) (\<lambda>policy.
         seq (lift_result (validate_trusted_suffix N policy local_tip suffix)) (\<lambda>_.
         seq (on_log (append_suffix N (io_log I) suffix)) (\<lambda>_.
         seq (reconcile_pending N) (\<lambda>_.
         seq (asks (\<lambda>n. lst_epochchain (nr_state n))) (\<lambda>original.
         seq (on_state (update (extend_chain suffix))) (\<lambda>_.
         seq (asks nr_trusted_epoch_log) (\<lambda>log.
         seq (if log = None then
             seq (attempt (persist_snapshot N I)) (\<lambda>persisted.
               case persisted of
                 Inr _ \<Rightarrow> ret ()
               | Inl e \<Rightarrow> seq (on_state (update (\<lambda>s. s\<lparr>lst_epochchain := original\<rparr>))) (\<lambda>_. fail e))
           else ret ()) (\<lambda>_.
         seq (publish_epoch_commit I) (\<lambda>_. ret True)))))))))))"

definition catch_up_from_epoch_started :: "('m, 'k) node_env \<Rightarrow> io \<Rightarrow> 'm Epoch list \<Rightarrow> ('m, bool) step" where
  "catch_up_from_epoch_started N I remote_chain =
    seq (asks trusted) (\<lambda>t. if t then catch_up_trusted_epoch_range N I remote_chain else fail InvalidConfiguration)"


section \<open>Repairing blocks\<close>

definition verified_block_by_hash :: "HashType \<Rightarrow> 'm LocalState \<Rightarrow> Block option" where
  "verified_block_by_hash hash s =
    (case List.map_filter (\<lambda>q. bm_get (canonical_verified_blocks q) hash)
        (concat (map (\<lambda>c. bm_values (tc_quorum c)) (bm_values (lst_consensus s)))) of
       [] \<Rightarrow> None | block # _ \<Rightarrow> Some block)"

definition verified_or_durable_block_by_hash :: "io \<Rightarrow> HashType \<Rightarrow> 'm NodeRuntime \<Rightarrow> Block option result" where
  "verified_or_durable_block_by_hash I hash n =
    (case verified_block_by_hash hash (nr_state n) of Some block \<Rightarrow> Ok (Some block) | None \<Rightarrow> io_block_by_hash I hash)"

definition validate_manifest_for_current_epoch :: "('m, 'k) node_env \<Rightarrow> DataDisseminationManifest \<Rightarrow> 'm NodeRuntime \<Rightarrow> unit result" where
  "validate_manifest_for_current_epoch N manifest n =
    and_then (next_epoch_target n) (\<lambda>target.
      if dm_last_epoch manifest \<noteq> tg_last_epoch target \<or> dm_nonce manifest \<noteq> tg_nonce target then Err InvalidEpochNonce
      else and_then (node_tip n) (\<lambda>latest.
        and_then (validate_availability manifest (tip_validators N latest) (replica_threshold (tip_validators N latest))) (\<lambda>_. Ok ())))"

record ManifestRepairPlan =
  mp_manifest_hash :: HashType
  mp_missing_blocks :: "HashType btree_set"
  mp_requests_by_holder :: "(PubKey, HashType list) btree_map"

definition repair_requests :: "DataDisseminationManifest \<Rightarrow> 'm NodeRuntime \<Rightarrow> HashType list \<Rightarrow> (PubKey, HashType list) btree_map" where
  "repair_requests manifest n missing =
    fold (\<lambda>(holder, hash) requests.
        bm_insert holder (unwrap_or (bm_get requests holder) [] @ [hash]) requests)
      (concat (map (\<lambda>hash. map (\<lambda>holder. (holder, hash))
        (filter (\<lambda>holder. service_for ConsensusService holder (nr_address_book n) \<noteq> None)
          (case bm_get (dm_replica_holders manifest) hash of Some holders \<Rightarrow> bm_keys holders | None \<Rightarrow> []))) missing)) bm_empty"

definition manifest_repair_plan ::
  "('m, 'k) node_env \<Rightarrow> io \<Rightarrow> DataDisseminationManifest \<Rightarrow> 'm NodeRuntime \<Rightarrow> ManifestRepairPlan result" where
  "manifest_repair_plan N I manifest n =
    and_then (validate_manifest_for_current_epoch N manifest n) (\<lambda>_.
      and_then (try_fold (\<lambda>missing hash. and_then (verified_or_durable_block_by_hash I hash n) (\<lambda>found.
          Ok (if found = None then missing @ [hash] else missing))) [] (bm_keys (dm_carried_blocks manifest))) (\<lambda>missing.
        Ok \<lparr>mp_manifest_hash = manifest_hash (ne_crypto N) manifest, mp_missing_blocks = bs_of_list missing,
            mp_requests_by_holder = repair_requests manifest n missing\<rparr>))"

record ManifestRepairReceipt =
  mt_manifest_hash :: HashType
  mt_inserted_blocks :: usize
  mt_missing_blocks :: "HashType btree_set"

fun repair_blocks ::
  "('m, 'k) node_env \<Rightarrow> DataDisseminationManifest \<Rightarrow> EpochTarget \<Rightarrow> (HashType \<times> Block) list \<Rightarrow> usize \<Rightarrow> ('m LocalState, usize) action" where
  "repair_blocks N manifest target [] inserted = ret inserted"
| "repair_blocks N manifest target ((hash, block) # blocks) inserted =
    seq (ensure (bm_contains (dm_carried_blocks manifest) hash) WireProtocol) (\<lambda>_.
    seq (ensure (bb_last_epoch (block_body block) = tg_last_epoch target \<and> bb_nonce (block_body block) = tg_nonce target) WireProtocol) (\<lambda>_.
    seq (asks (\<lambda>s. case chain_tip s of None \<Rightarrow> False
        | Some epoch \<Rightarrow> it_get (ne_tree N) (epb_verifiers (ep_body epoch)) (bb_validator (block_body block)) \<noteq> None)) (\<lambda>current.
    seq (ensure current WireProtocol) (\<lambda>_.
    seq (on_quorum N (tg_last_epoch target) (tg_nonce target) 0
      (\<lambda>q. case record_verified_block hash block q of (new, q') \<Rightarrow> (Done new, q'))) (\<lambda>new.
    repair_blocks N manifest target blocks (if new then inserted + 1 else inserted))))))"

definition repair_manifest_blocks ::
  "('m, 'k) node_env \<Rightarrow> io \<Rightarrow> DataDisseminationManifest \<Rightarrow> block_map \<Rightarrow> ('m, ManifestRepairReceipt) step" where
  "repair_manifest_blocks N I manifest blocks =
    seq (asks_result (validate_manifest_for_current_epoch N manifest)) (\<lambda>_.
    seq (asks_result next_epoch_target) (\<lambda>target.
    seq (asks trusted) (\<lambda>t.
    seq (lift_result (verify_redispatched_blocks N t blocks)) (\<lambda>_.
    seq (lift_result (persist_blocks_if_configured I (bm_values blocks))) (\<lambda>_.
    seq (on_state (repair_blocks N manifest target (bm_entries blocks) 0)) (\<lambda>inserted.
    seq (target_quorum N target 0 (update (refresh_verified_blocks_hash (ne_crypto N)))) (\<lambda>_.
    seq (asks_result (manifest_repair_plan N I manifest)) (\<lambda>plan.
    ret \<lparr>mt_manifest_hash = manifest_hash (ne_crypto N) manifest, mt_inserted_blocks = inserted,
         mt_missing_blocks = mp_missing_blocks plan\<rparr>))))))))"

definition requested_blocks :: "io \<Rightarrow> Header \<Rightarrow> HashType list \<Rightarrow> 'm NodeRuntime \<Rightarrow> block_map result" where
  "requested_blocks I header hashes n =
    try_fold (\<lambda>blocks hash. and_then (verified_or_durable_block_by_hash I hash n) (\<lambda>found.
        Ok (case found of
              Some block \<Rightarrow> if bb_last_epoch (block_body block) = hd_last_epoch header \<and> bb_nonce (block_body block) = hd_nonce header
                then bm_insert hash block blocks else blocks
            | None \<Rightarrow> blocks))) bm_empty hashes"

definition respond_to_echo_request :: "('m, 'k) node_env \<Rightarrow> io \<Rightarrow> EchoRequest \<Rightarrow> ('m, EchoReDispatch option) step" where
  "respond_to_echo_request N I request =
    (let header = eq_header request in
     seq (check_signature N header KeyEchoRequest (key_set_signing_bytes (eq_requested_blocks request))) (\<lambda>_.
     seq (known_sender N header) (\<lambda>_.
     seq (asks_result (requested_blocks I header (bm_keys (eq_requested_blocks request)))) (\<lambda>blocks.
       if bm_is_empty blocks then ret None
       else seq (asks_result (sign_body N KeyEchoReDispatch (hd_last_epoch header) (hd_nonce header) (hd_round header)
           (block_map_signing_bytes (ne_crypto N) blocks))) (\<lambda>signature.
         asks (\<lambda>n. Some \<lparr>re_header = header\<lparr>hd_sender := self_key n, hd_signature := signature\<rparr>,
           re_redispatched_blocks = blocks\<rparr>))))))"


section \<open>Skipping a round\<close>

record RoundSkipAssistOutcome =
  ro_decision :: FutureRoundAssistDecision
  ro_message :: "RoundSkipVoteMessage option"

definition local_block_in_candidate :: "EpochTarget \<Rightarrow> DataDisseminationManifest \<Rightarrow> 'm NodeRuntime \<Rightarrow> bool" where
  "local_block_in_candidate target manifest n =
    (case get_consensus (tg_last_epoch target) (tg_nonce target) (nr_state n) of
       None \<Rightarrow> False
     | Some c \<Rightarrow> list_ex (\<lambda>q. list_ex (\<lambda>block. bb_validator (block_body block) = self_key n
           \<and> bm_contains (dm_carried_blocks manifest) (block_hash block)) (bm_values (canonical_verified_blocks q)))
         (bm_values (tc_quorum c)))"

definition assist_decision ::
  "u8 \<Rightarrow> u8 \<Rightarrow> DataDisseminationManifest \<Rightarrow> EpochTarget \<Rightarrow> 'm NodeRuntime \<Rightarrow> FutureRoundAssistDecision" where
  "assist_decision from_round to_round manifest target n =
    (let in_candidate = local_block_in_candidate target manifest n;
         replicated = (\<not> in_candidate \<or> list_ex (\<lambda>holders. bm_contains holders (self_key n)) (bm_values (dm_replica_holders manifest)))
     in future_round_assist_decision \<lparr>fa_kind = RoundChangeSkip,
          fa_last_certified_round = map_option unat (dm_last_certified_round manifest), fa_target_round = unat to_round,
          fa_skip_certificates = unat to_round - unat from_round, fa_first_fanout_completed = first_fanout_completed manifest,
          fa_local_block_in_candidate = in_candidate, fa_local_block_replicated = replicated,
          fa_parent_data_replicated = every_carried_block_has_replica manifest,
          fa_parent_data_repairable = can_reconstruct_from manifest (dm_source_nodes manifest),
          fa_holds_unreplicated_parent_data = (in_candidate \<and> \<not> replicated), fa_future_body_validated = True\<rparr>)"

definition already_voted_skip :: "RoundSkipKey \<Rightarrow> EpochTarget \<Rightarrow> 'm NodeRuntime \<Rightarrow> bool" where
  "already_voted_skip key target n =
    (case Option.bind (get_consensus (tg_last_epoch target) (tg_nonce target) (nr_state n)) (\<lambda>c. bm_get (tc_round_skip_votes c) key) of
       Some votes \<Rightarrow> bm_contains votes (self_key n) | None \<Rightarrow> False)"

definition try_round_skip_assist ::
  "('m, 'k) node_env \<Rightarrow> u8 \<Rightarrow> u8 \<Rightarrow> DataDisseminationManifest \<Rightarrow> ('m, RoundSkipAssistOutcome) step" where
  "try_round_skip_assist N from_round to_round manifest =
    (let hash = manifest_hash (ne_crypto N) manifest in
     seq (asks_result ensure_consensus_mode) (\<lambda>_.
     seq (asks_result next_epoch_target) (\<lambda>target.
     seq (ensure (dm_last_epoch manifest = tg_last_epoch target \<and> dm_nonce manifest = tg_nonce target) InvalidEpochNonce) (\<lambda>_.
     seq (asks_result (validate_manifest_for_current_epoch N manifest)) (\<lambda>_.
     seq (asks (assist_decision from_round to_round manifest target)) (\<lambda>decision.
       if decision \<notin> {Assist, AssistDroppingLocalBlock} then ret \<lparr>ro_decision = decision, ro_message = None\<rparr>
       else
         seq (asks (already_voted_skip (from_round, to_round, hash) target)) (\<lambda>voted.
           if voted then ret \<lparr>ro_decision = decision, ro_message = None\<rparr>
           else
             seq (asks_result (\<lambda>n. ok_or (nr_signer n) MissingSecretKey)) (\<lambda>signer.
             seq (asks self_key) (\<lambda>key.
               let vote = vote_sign_with (ne_crypto N) key signer (tg_last_epoch target) (tg_nonce target) from_round to_round hash;
                   body = \<lparr>kb_vote = vote, kb_manifest = manifest\<rparr>
               in
               seq (asks_result (signed_header_for_body N target from_round KeyRoundSkipVote
                 (skip_vote_signing_bytes (ne_skip_codec N) body))) (\<lambda>header.
               seq (on_state (on_consensus N (tg_last_epoch target) (tg_nonce target) (update (record_skip_vote hash manifest vote)))) (\<lambda>_.
               ret \<lparr>ro_decision = decision, ro_message = Some \<lparr>km_header = header, km_body = body\<rparr>\<rparr>)))))))))))"

datatype RecoveryEvidenceStatus = Healthy | DelayedOrMissing | Unrecoverable

record RecoveryWaitAssessment =
  rw_round :: u8
  rw_status :: RecoveryEvidenceStatus
  rw_passed_nodes :: usize
  rw_pending_nodes :: usize
  rw_required_nodes :: usize

definition quorum_assessment :: "u8 \<Rightarrow> TempQuorum \<Rightarrow> RecoveryWaitAssessment" where
  "quorum_assessment round q =
    (let matrix = tq_msg_matrix q; required = supermajority_count (length (mx_quorum_nodes matrix));
         passed = length (filter (\<lambda>s. s = NodePassed) (mx_node_status matrix));
         pending = length (filter (\<lambda>s. s = NodePending) (mx_node_status matrix))
     in \<lparr>rw_round = round,
         rw_status = (if matrix_status matrix then Healthy
           else if passed + pending \<ge> required then DelayedOrMissing
           else if tq_received_dispatches q \<noteq> [] \<or> \<not> bm_is_empty (tq_commit_senders q) then Unrecoverable
           else DelayedOrMissing),
         rw_passed_nodes = passed, rw_pending_nodes = pending, rw_required_nodes = required\<rparr>)"

definition recovery_wait_assessment :: "('m, 'k) node_env \<Rightarrow> u8 \<Rightarrow> ('m, RecoveryWaitAssessment) step" where
  "recovery_wait_assessment N round =
    seq (asks_result next_epoch_target) (\<lambda>target. target_quorum N target round (asks (quorum_assessment round)))"

definition false_proposal :: ProposalBody where
  "false_proposal = \<lparr>pb_consensus = False, pb_approved_blocks = None, pb_approved_hash = None, pb_verif = None,
    pb_signature_tree = None, pb_signature_tree_hash = None\<rparr>"

definition try_produce_false_proposal :: "('m, 'k) node_env \<Rightarrow> u8 \<Rightarrow> ('m, Proposal option) step" where
  "try_produce_false_proposal N round =
    seq (asks_result ensure_consensus_mode) (\<lambda>_.
    seq (asks trusted) (\<lambda>t.
    seq (ensure (\<not> t) InvalidConfiguration) (\<lambda>_.
    seq (recovery_wait_assessment N round) (\<lambda>assessment.
      if rw_status assessment \<noteq> Unrecoverable then ret None
      else
        seq (asks_result next_epoch_target) (\<lambda>target.
        seq (asks_result (signed_header_for_body N target round KeyProposal (proposal_signing_bytes false_proposal))) (\<lambda>header.
          let message = \<lparr>pr_header = header, pr_body = false_proposal\<rparr> in
          target_quorum N target round
            (seq (asks (\<lambda>q. tq_proposal_sent q \<or> prop_consensus (tq_proposals q) = Some True
               \<or> consensus_is_still_possible (tq_verifications q))) (\<lambda>declined.
              if declined then ret None
              else seq (update (\<lambda>q. q\<lparr>tq_proposal_sent := True, tq_proposals := prop_record (tq_proposals q) message\<rparr>)) (\<lambda>_.
                ret (Some message))))))))))"


section \<open>Admissions and member operations\<close>

definition stage_node_admission :: "('m, 'k) node_env \<Rightarrow> NodeAdmission \<Rightarrow> ('m, NodeIdentity option) step" where
  "stage_node_admission N admission =
    (let node = ab_node (na_body admission) in
     seq (asks_result ensure_consensus_mode) (\<lambda>_.
     seq (lift_result (admission_verify (ne_crypto N) admission)) (\<lambda>_.
     seq (asks_result next_epoch_target) (\<lambda>target.
     seq (ensure (ab_last_epoch (na_body admission) = tg_last_epoch target \<and> ab_nonce (na_body admission) = tg_nonce target) InvalidEpochNonce) (\<lambda>_.
     seq (asks (is_current_verifier N (ni_public_key node))) (\<lambda>current.
       if current then ret None
       else seq (on_blocks (run_result (\<lambda>blocks. add_node_admission (ne_crypto N) blocks admission))) (\<lambda>_. ret (Some node))))))))"

definition sign_reconnect_vote :: "('m, 'k) node_env \<Rightarrow> NodeAdmission \<Rightarrow> 'm NodeRuntime \<Rightarrow> ReconnectVote result" where
  "sign_reconnect_vote N admission n =
    and_then (ensure_consensus_mode n) (\<lambda>_.
      and_then (admission_verify (ne_crypto N) admission) (\<lambda>_.
        and_then (ok_or (nr_signer n) MissingSecretKey) (\<lambda>signer.
          and_then (node_tip n) (\<lambda>latest.
            if it_get (ne_tree N) (epb_verifiers (ep_body latest)) (signer_public_key (ne_crypto N) signer) = None then Err UnknownSender
            else if ab_last_epoch (na_body admission) \<noteq> ep_hash latest \<or> ab_nonce (na_body admission) \<noteq> new_next (epb_nonce (ep_body latest))
            then Err InvalidEpochNonce
            else reconnect_vote_signed (ne_crypto N) (reconnect_vote_for_admission (ne_crypto N) (signer_public_key (ne_crypto N) signer)
              admission (ep_hash latest) (epb_nonce (ep_body latest))) signer))))"

record ReconnectAdmissionEvidence =
  re_admission :: NodeAdmission
  re_votes :: "ReconnectVote list"

record ReconnectAdmissionDecision =
  rj_accepted :: bool
  rj_reason :: string
  rj_distinct_votes :: usize
  rj_required_votes :: usize
  rj_candidate :: PubKey

definition reconnect_voters ::
  "('m, 'k) node_env \<Rightarrow> 'm Epoch \<Rightarrow> NodeAdmission \<Rightarrow> ReconnectVote list \<Rightarrow> PubKey btree_set result" where
  "reconnect_voters N latest admission votes =
    try_fold (\<lambda>voters vote. and_then (reconnect_vote_verify (ne_crypto N) vote) (\<lambda>_.
        let body = rv_body vote in
        Ok (if rv_candidate body = ni_public_key (ab_node (na_body admission))
              \<and> rv_admission_hash body = admission_body_hash (ne_crypto N) (na_body admission)
              \<and> rv_catchup_epoch body = ep_hash latest \<and> rv_catchup_nonce body = epb_nonce (ep_body latest)
              \<and> it_get (ne_tree N) (epb_verifiers (ep_body latest)) (rv_voter body) \<noteq> None
            then bm_insert (rv_voter body) () voters else voters))) bm_empty votes"

definition evaluate_reconnect_admission ::
  "('m, 'k) node_env \<Rightarrow> ReconnectAdmissionEvidence \<Rightarrow> 'm NodeRuntime \<Rightarrow> ReconnectAdmissionDecision result" where
  "evaluate_reconnect_admission N evidence n =
    (let admission = re_admission evidence; candidate = ni_public_key (ab_node (na_body admission)) in
     and_then (ensure_consensus_mode n) (\<lambda>_.
       and_then (admission_verify (ne_crypto N) admission) (\<lambda>_.
         and_then (node_tip n) (\<lambda>latest.
           let required = supermajority_count (it_len (ne_tree N) (epb_verifiers (ep_body latest)));
               refused = (\<lambda>reason. \<lparr>rj_accepted = False, rj_reason = reason, rj_distinct_votes = 0, rj_required_votes = required,
                 rj_candidate = candidate\<rparr>)
           in if ab_last_epoch (na_body admission) \<noteq> ep_hash latest \<or> ab_nonce (na_body admission) \<noteq> new_next (epb_nonce (ep_body latest))
              then Ok (refused ''stale admission target'')
              else if it_get (ne_tree N) (epb_verifiers (ep_body latest)) candidate \<noteq> None
              then Ok (refused ''candidate is already an active verifier'')
              else and_then (reconnect_voters N latest admission (re_votes evidence)) (\<lambda>voters.
                let reached = required \<le> bm_len voters in
                Ok \<lparr>rj_accepted = reached,
                    rj_reason = (if reached then ''accepted'' else ''insufficient active-validator reconnect votes''),
                    rj_distinct_votes = bm_len voters, rj_required_votes = required, rj_candidate = candidate\<rparr>)))))"

definition stage_reconnect_admission ::
  "('m, 'k) node_env \<Rightarrow> ReconnectAdmissionEvidence \<Rightarrow> ('m, ReconnectAdmissionDecision) step" where
  "stage_reconnect_admission N evidence =
    seq (asks_result (evaluate_reconnect_admission N evidence)) (\<lambda>decision.
    seq (if rj_accepted decision then seq (stage_node_admission N (re_admission evidence)) (\<lambda>_. ret ()) else ret ()) (\<lambda>_.
    ret decision))"

definition stage_member_operation :: "('m, 'k) node_env \<Rightarrow> MemberOperation \<Rightarrow> ('m, HashType) step" where
  "stage_member_operation N operation =
    seq (asks_result ensure_consensus_mode) (\<lambda>_.
    seq (asks_result node_tip) (\<lambda>head.
    seq (asks (\<lambda>n. it_get (ne_tree N) (epb_verifiers (ep_body head)) (self_key n) \<noteq> None)) (\<lambda>verifier.
    seq (ensure verifier UnknownSender) (\<lambda>_.
    seq (lift_result (validate_operation (epb_members (ep_body head)) operation)) (\<lambda>_.
    seq (asks nr_group_id) (\<lambda>group_id.
    seq (lift_result (operation_to_transaction (ne_crypto N) (ne_codec N)
      \<lparr>co_group_id = group_id, co_parent_epoch_hash = ep_hash head, co_operation = operation\<rparr>)) (\<lambda>transaction.
    on_blocks (\<lambda>blocks. case add_transaction blocks transaction of (hash, blocks') \<Rightarrow> (Done hash, blocks')))))))))"


section \<open>The application\<close>

definition submit_transaction :: "('m, 'k) node_env \<Rightarrow> (Transaction \<Rightarrow> bytes option) \<Rightarrow> Transaction \<Rightarrow> ('m, HashType) step" where
  "submit_transaction N borsh_transaction transaction =
    seq (asks_result ensure_consensus_mode) (\<lambda>_.
    seq (ensure (tx_payload transaction \<noteq> []) InvalidConfiguration) (\<lambda>_.
    seq (expect (borsh_transaction transaction) WireProtocol) (\<lambda>encoded.
    seq (ensure (length encoded \<le> ne_wire_limit N) InvalidConfiguration) (\<lambda>_.
    on_blocks (\<lambda>blocks. case add_transaction blocks transaction of (hash, blocks') \<Rightarrow> (Done hash, blocks'))))))"

definition runtime_set_application_state :: "bytes \<Rightarrow> ('m, unit) step" where
  "runtime_set_application_state bytes =
    seq (asks_result ensure_consensus_mode) (\<lambda>_. on_blocks (run_result (\<lambda>blocks. lb_set_application_state blocks bytes)))"

definition runtime_add_encounter_record :: "('m, 'k) node_env \<Rightarrow> EncounterRecord \<Rightarrow> ('m, HashType) step" where
  "runtime_add_encounter_record N r =
    seq (asks_result ensure_consensus_mode) (\<lambda>_.
    seq (asks self_key) (\<lambda>key.
    seq (ensure (eb_observer (er_body r) = key) KeyMismatch) (\<lambda>_.
    on_blocks (run_result (\<lambda>blocks. add_encounter_record (ne_crypto N) blocks r)))))"

definition sign_encounter_record ::
  "('m, 'k) node_env \<Rightarrow> PubKey \<Rightarrow> u8 \<Rightarrow> EncounterPhase \<Rightarrow> EncounterOutcome \<Rightarrow> HashType option \<Rightarrow> u128 \<Rightarrow> 'm NodeRuntime
    \<Rightarrow> EncounterRecord result" where
  "sign_encounter_record N subject round phase outcome evidence_hash observed_at_micros n =
    and_then (ensure_consensus_mode n) (\<lambda>_.
      and_then (next_epoch_target n) (\<lambda>target.
        and_then (ok_or (nr_signer n) MissingSecretKey) (\<lambda>signer.
          encounter_signed (ne_crypto N) \<lparr>eb_observer = self_key n, eb_subject = subject, eb_last_epoch = tg_last_epoch target,
            eb_nonce = tg_nonce target, eb_round = round, eb_phase = phase, eb_outcome = outcome, eb_evidence_hash = evidence_hash,
            eb_observed_at_micros = observed_at_micros\<rparr> signer)))"

definition record_encounter ::
  "('m, 'k) node_env \<Rightarrow> PubKey \<Rightarrow> u8 \<Rightarrow> EncounterPhase \<Rightarrow> EncounterOutcome \<Rightarrow> HashType option \<Rightarrow> u128 \<Rightarrow> ('m, HashType) step" where
  "record_encounter N subject round phase outcome evidence_hash observed_at_micros =
    seq (asks_result (sign_encounter_record N subject round phase outcome evidence_hash observed_at_micros))
      (runtime_add_encounter_record N)"

fun quorum_has_signature_from :: "TempQuorum \<Rightarrow> PubKey \<Rightarrow> EncounterPhase \<Rightarrow> bool" where
  "quorum_has_signature_from q subject PhaseDispatch = (subject \<in> set (tq_received_dispatches q))"
| "quorum_has_signature_from q subject PhaseVerification = bm_contains (vc_verifications (tq_verifications q)) subject"
| "quorum_has_signature_from q subject PhaseProposal = bm_contains (pc_proposals (tq_proposals q)) subject"
| "quorum_has_signature_from q subject PhaseCommit = bm_contains (tq_commit_senders q) subject"
| "quorum_has_signature_from q subject PhaseEpochStarted = bm_contains (tq_epoch_started_senders q) subject"
| "quorum_has_signature_from q subject PhaseCatchUp = False"

definition missing_signature_subjects :: "('m, 'k) node_env \<Rightarrow> u8 \<Rightarrow> EncounterPhase \<Rightarrow> ('m, PubKey list) step" where
  "missing_signature_subjects N round phase =
    seq (asks_result ensure_consensus_mode) (\<lambda>_.
    seq (asks_result next_epoch_target) (\<lambda>target.
    on_state (on_consensus N (tg_last_epoch target) (tg_nonce target) (asks (\<lambda>c.
      case bm_get (tc_quorum c) round of
        None \<Rightarrow> round_peers c round
      | Some q \<Rightarrow> filter (\<lambda>subject. \<not> quorum_has_signature_from q subject phase) (round_peers c round))))))"

definition record_missing_signatures :: "('m, 'k) node_env \<Rightarrow> u8 \<Rightarrow> EncounterPhase \<Rightarrow> u128 \<Rightarrow> ('m, HashType list) step" where
  "record_missing_signatures N round phase observed_at_micros =
    seq (missing_signature_subjects N round phase) (traverse (\<lambda>subject.
      record_encounter N subject round phase MissingSignature None observed_at_micros))"

record PeerApplicationState =
  as_group_id :: ConsensusGroupId
  as_peer :: PubKey
  as_block_hash :: HashType
  as_last_epoch :: HashType
  as_nonce :: Nonce
  as_application_state :: bytes

definition record_peer_application_state ::
  "ConsensusGroupId \<Rightarrow> HashType \<times> Block \<Rightarrow> (PubKey, PeerApplicationState) btree_map \<Rightarrow> (PubKey, PeerApplicationState) btree_map" where
  "record_peer_application_state group_id = (\<lambda>(hash, block) peer_states.
    let body = block_body block; peer = bb_validator body;
        candidate = \<lparr>as_group_id = group_id, as_peer = peer, as_block_hash = hash, as_last_epoch = bb_last_epoch body,
          as_nonce = bb_nonce body, as_application_state = bb_application_state body\<rparr>
    in case bm_get peer_states peer of
         Some existing \<Rightarrow> if as_nonce existing > bb_nonce body then peer_states else bm_insert peer candidate peer_states
       | None \<Rightarrow> bm_insert peer candidate peer_states)"

definition observed_blocks :: "'m NodeRuntime \<Rightarrow> (ConsensusGroupId \<times> HashType \<times> Block) list" where
  "observed_blocks n =
    concat (map (\<lambda>epoch. map (\<lambda>entry. (epb_group_id (ep_body epoch), entry)) (bm_entries (epb_blocks (ep_body epoch))))
      (lst_epochchain (nr_state n)))
    @ map (\<lambda>entry. (nr_group_id n, entry)) (concat (map (\<lambda>q. bm_entries (tq_verified_blocks q))
        (concat (map (\<lambda>c. bm_values (tc_quorum c)) (bm_values (lst_consensus (nr_state n)))))))"

definition peer_application_states :: "'m NodeRuntime \<Rightarrow> (PubKey, PeerApplicationState) btree_map" where
  "peer_application_states n =
    fold (\<lambda>(group_id, entry). record_peer_application_state group_id entry)
      (filter (\<lambda>(_, _, block). bb_validator (block_body block) \<noteq> self_key n) (observed_blocks n)) bm_empty"

record ObservedEncounterRecord =
  oe_group_id :: ConsensusGroupId
  oe_block_hash :: HashType
  oe_block_validator :: PubKey
  oe_record :: EncounterRecord

definition observed_encounter_records :: "'m NodeRuntime \<Rightarrow> ObservedEncounterRecord list" where
  "observed_encounter_records n =
    concat (map (\<lambda>(group_id, hash, block). map (\<lambda>r. \<lparr>oe_group_id = group_id, oe_block_hash = hash,
      oe_block_validator = bb_validator (block_body block), oe_record = r\<rparr>) (bb_encounter_records (block_body block))) (observed_blocks n))"

end
