(* ===== verification/VerifiedSystem.thy ===== *)
theory VerifiedSystem
  imports VerifiedNode
begin

text \<open>
  A group of nodes in verified mode. Every honest member runs the operations of its runtime, in any order and on any
  input: the messages, blocks, certificates and results of input and output are chosen by the environment. Beside the
  node stands the list of epochs whose certificate share it recorded. The lemmas show that a member signs at most one
  successor of every epoch of its chain, and that the chains of the honest members are prefixes of one another as long
  as the faulty validators of every epoch stay within \<open>byzantine_fault_bound\<close>.
\<close>

section \<open>The node's own commit\<close>

lemma bm_insert_same: "bm_get m k = Some v \<Longrightarrow> bm_insert k v m = m"
  by (rule bm_eqI) (auto simp: fun_eq_iff)

lemma put_consensus_same: "get_consensus epoch nonce s = Some c \<Longrightarrow> put_consensus (epoch, nonce) c s = s"
  by (simp add: put_consensus_def get_consensus_def bm_insert_same)

lemma asks_known_consensus:
  assumes "get_consensus epoch nonce (nr_state n) = Some c"
  shows "on_state (on_consensus N epoch nonce (asks f)) n =
    (if epoch = default_hash \<and> unat nonce > 1 then (Panicked, n) else (Done (f c), n))"
proof -
  have "bm_contains (lst_consensus (nr_state n)) (epoch, nonce)"
    using assms by (simp add: get_consensus_def bm_contains_def)
  then show ?thesis
    using assms put_consensus_same [OF assms]
    by (simp add: on_state_def on_consensus_def touch_consensus_def within_def seq_def action_simps)
qed

text \<open>The quorum of a known consensus after an update.\<close>

definition with_quorum :: "EpochNonce \<Rightarrow> u8 \<Rightarrow> TempConsensus \<Rightarrow> (TempQuorum \<Rightarrow> TempQuorum) \<Rightarrow> 'm NodeRuntime \<Rightarrow> 'm NodeRuntime" where
  "with_quorum key round c f n = (let c' = touch_quorum round c in
    n\<lparr>nr_state := put_consensus key (put_quorum round (f (the (bm_get (tc_quorum c') round))) c') (nr_state n)\<rparr>)"

lemma update_known_quorum:
  assumes "get_consensus (tg_last_epoch target) (tg_nonce target) (nr_state n) = Some c"
  shows "target_quorum N target round (update f) n =
    (if tg_last_epoch target = default_hash \<and> unat (tg_nonce target) > 1 then (Panicked, n)
     else (Done (), with_quorum (tg_last_epoch target, tg_nonce target) round c f n))"
proof -
  have "bm_contains (lst_consensus (nr_state n)) (tg_last_epoch target, tg_nonce target)"
    using assms by (simp add: get_consensus_def bm_contains_def)
  then show ?thesis
    using assms
    by (simp add: target_quorum_def on_quorum_def on_state_def on_consensus_def touch_consensus_def within_def seq_def
        with_quorum_def Let_def action_simps)
qed

definition may_cast :: "('m, 'k) node_env \<Rightarrow> u8 \<Rightarrow> Commit \<Rightarrow> 'm Epoch \<Rightarrow> TempConsensus \<Rightarrow> 'm NodeRuntime \<Rightarrow> bool" where
  "may_cast N round message tip c n \<longleftrightarrow>
    (let header = cm_header message; nonce = new_next (epb_nonce (ep_body tip)) in
     chain_tip (nr_state n) = Some tip \<and> get_consensus (ep_hash tip) nonce (nr_state n) = Some c
      \<and> hd_last_epoch header = ep_hash tip \<and> hd_nonce header = nonce \<and> hd_round header = round \<and> hd_sender header = self_key n
      \<and> own_commit_allowed message (get_quorum (ep_hash tip) nonce round (nr_state n)) = Ok True
      \<and> validate_commit_epoch_share N message (nr_state n) = Ok ())"

definition cast_vote :: "Commit \<Rightarrow> usize \<Rightarrow> TempConsensus \<Rightarrow> 'm NodeRuntime \<Rightarrow> 'm NodeRuntime" where
  "cast_vote message required c =
    (let header = cm_header message in
     with_quorum (hd_last_epoch header, hd_nonce header) (hd_round header) c (record_own_commit message required))"

text \<open>Producing a commit either leaves the node as it is, or records one vote for the epoch in progress, in a round in
  which the node had not voted.\<close>

lemma commit_body_consensus:
  "commit_body N target round n = Ok (Some body) \<Longrightarrow> \<exists>c. get_consensus (tg_last_epoch target) (tg_nonce target) (nr_state n) = Some c"
  by (auto simp: commit_body_def get_quorum_def split: option.splits bind_splits)

lemma commit_sender_known:
  assumes "chain_tip (nr_state n) = Some tip" "get_consensus (ep_hash tip) (new_next (epb_nonce (ep_body tip))) (nr_state n) = Some c"
    "hd_last_epoch header = ep_hash tip" "hd_nonce header = new_next (epb_nonce (ep_body tip))"
  shows "\<exists>authorized required. on_state (commit_sender_and_threshold N header) n =
    (if ep_hash tip = default_hash \<and> unat (new_next (epb_nonce (ep_body tip))) > 1 then (Panicked, n)
     else (Done (authorized, required), n))"
proof -
  let ?v = "epb_verifiers (ep_body tip)"
  let ?f = "\<lambda>c. if checked_sub (length (tc_peers c)) 1 = Some (unat (hd_round header))
    then (it_get (ne_tree N) ?v (hd_sender header) \<noteq> None, supermajority_count (it_len (ne_tree N) ?v))
    else let round_peers = peers_with_us c (hd_round header) in (hd_sender header \<in> set round_peers, supermajority_count (length round_peers))"
  have "on_state (commit_sender_and_threshold N header) n = on_state (on_consensus N (ep_hash tip) (new_next (epb_nonce (ep_body tip))) (asks ?f)) n"
    using assms by (simp add: commit_sender_and_threshold_def on_state_def within_def seq_def action_simps Let_def not_None_eq cong: if_cong)
  then show ?thesis unfolding asks_known_consensus [OF assms(2)] by (cases "?f c") auto
qed

lemma cast_commit_cases:
  assumes run: "cast_commit N round n = (r, n')"
  shows "(n' = n \<and> (\<forall>message. r \<noteq> Done (Some message)))
    \<or> (\<exists>message required tip c. r = Done (Some message) \<and> may_cast N round message tip c n \<and> n' = cast_vote message required c n)"
proof -
  consider (stop) "n' = n \<and> (\<forall>message. r \<noteq> Done (Some message))"
    | (signed) target body header where "next_epoch_target n = Ok target" "commit_body N target round n = Ok (Some body)"
        "signed_header_for_body N target round KeyCommit (commit_signing_bytes body) n = Ok header"
    using run
    by (auto simp: cast_commit_def seq_def asks_def asks_result_def lift_result_def ensure_def ret_def fail_def
        split: sum.splits option.splits if_splits)
  then show ?thesis
  proof cases
    case signed
    obtain tip where tip: "chain_tip (nr_state n) = Some tip" "ensure_consensus_mode n = Ok ()"
        "tg_last_epoch target = ep_hash tip" "tg_nonce target = new_next (epb_nonce (ep_body tip))"
      using signed(1) by (auto simp: next_epoch_target_def node_tip_def split: option.splits)
    obtain c where c: "get_consensus (tg_last_epoch target) (tg_nonce target) (nr_state n) = Some c"
      using commit_body_consensus [OF signed(2)] by blast
    have header: "hd_sender header = self_key n" "hd_last_epoch header = tg_last_epoch target" "hd_nonce header = tg_nonce target"
        "hd_round header = round"
      using signed(3) by (auto simp: signed_header_for_body_def)
    let ?message = "\<lparr>cm_header = header, cm_body = body\<rparr>"
    obtain authorized required where threshold: "on_state (commit_sender_and_threshold N header) n =
        (if ep_hash tip = default_hash \<and> unat (new_next (epb_nonce (ep_body tip))) > 1 then (Panicked, n)
         else (Done (authorized, required), n))"
      using commit_sender_known [OF tip(1)] c header(2,3) unfolding tip(3,4) by blast
    have "n' = n \<and> (\<forall>message. r \<noteq> Done (Some message))
      \<or> r = Done (Some ?message) \<and> may_cast N round ?message tip c n \<and> n' = cast_vote ?message required c n"
      using run signed tip c header threshold update_known_quorum [OF c, of N round "record_own_commit ?message required"]
      by (auto simp: cast_commit_def may_cast_def cast_vote_def Let_def seq_def asks_def asks_result_def lift_result_def ensure_def
          ret_def fail_def split: if_splits sum.splits)
    then show ?thesis by blast
  qed simp
qed

lemma peers_touch: "tc_peers (touch_quorum round c) = tc_peers c"
  by (simp add: touch_quorum_def put_quorum_def Let_def)

lemma node_vote_cast:
  assumes "may_cast N round message tip c n" "key = (ep_hash tip, new_next (epb_nonce (ep_body tip)))"
  shows "node_vote (nr_state (cast_vote message required c n)) key' round' =
    (if key' = key \<and> round' = round
     then Some (tc_peers c, insert (self_key n) {v. bm_contains (tq_commit_senders (the (bm_get (tc_quorum (touch_quorum round c)) round))) v}, message)
     else node_vote (nr_state n) key' round')"
proof -
  have get: "bm_get (lst_consensus (nr_state n)) key = Some c" and header: "hd_sender (cm_header message) = self_key n"
      "(hd_last_epoch (cm_header message), hd_nonce (cm_header message)) = key" "hd_round (cm_header message) = round"
    using assms by (auto simp: may_cast_def Let_def get_consensus_def)
  let ?q = "the (bm_get (tc_quorum (touch_quorum round c)) round)"
  have q: "{v. bm_contains (tq_commit_senders (record_own_commit message required ?q)) v} =
      insert (self_key n) {v. bm_contains (tq_commit_senders ?q) v}"
      "tq_local_commit (record_own_commit message required ?q) = Some message"
    by (auto simp: record_own_commit_def record_commit_vote_fields header(1))
  have "nr_state (cast_vote message required c n) =
      put_consensus key (put_quorum round (record_own_commit message required ?q) (touch_quorum round c)) (nr_state n)"
    using header(2,3) by (simp add: cast_vote_def with_quorum_def Let_def)
  then show ?thesis
    using get q peers_touch [of round c] by (auto simp: node_vote_def put_consensus_def consensus_vote_put consensus_vote_touch)
qed

lemma cast_vote_fields:
  "lst_epochchain (nr_state (cast_vote message required c n)) = lst_epochchain (nr_state n)"
  "lst_self_node (nr_state (cast_vote message required c n)) = lst_self_node (nr_state n)"
  "nr_trust_mode (cast_vote message required c n) = nr_trust_mode n"
  by (simp_all add: cast_vote_def with_quorum_def Let_def put_consensus_def)


section \<open>Requests\<close>

text \<open>The operations that the transport and the driver call, with their arguments.\<close>

datatype 'm request =
    MessageReceived Msg
  | PrefillReceived Dispatch
  | HotDispatchReceived HotDispatch
  | ReconcileTried ReconcileCommit
  | BufferDrained
  | BlockSubmitted Block
  | LocalBlockDispatched u8
  | DispatchProduced u8 "EpochTarget option"
  | DispatchRetried u8 HashType
  | PrefillBroadcast
  | PrefillCompleted EpochTarget "(PubKey \<times> string option) list"
  | PrefillSeeded u8
  | PrefillActivated
  | AcknowledgementProduced u8
  | AcknowledgementRetried u8 HashType
  | VerificationProduced u8
  | VerificationRetried u8 HashType
  | ConfirmationRetried u8 HashType
  | ProposalProduced u8
  | FalseProposalProduced u8
  | ProposalRetried u8 Signature
  | CommitProduced u8
  | FinalCommitRetried u8
  | EpochStartedProduced
  | EpochStartedCompleted EpochStarted "PubKey list"
  | EpochStartedFailed EpochStarted "(PubKey \<times> string) list"
  | SuffixReceived "'m CertifiedEpochSuffix"
  | EpochRangeReceived "'m Epoch list"
  | BlocksRepaired DataDisseminationManifest block_map
  | EchoRequested EchoRequest
  | SkipAssisted u8 u8 DataDisseminationManifest
  | WaitAssessed u8
  | AdmissionStaged NodeAdmission
  | ReconnectStaged ReconnectAdmissionEvidence
  | MemberOperationStaged MemberOperation
  | TransactionSubmitted Transaction
  | ApplicationStateSet bytes
  | EncounterRecorded PubKey u8 EncounterPhase EncounterOutcome "HashType option" u128
  | MissingRecorded u8 EncounterPhase u128
  | LeaseVoted MembershipLeaseRequest
  | LeaseInstalled MembershipLeaseCertificate
  | ServiceRegistered Service
  | SignedServiceRegistered SignedServiceRecord

record codecs =
  co_service :: service_codec
  co_transaction :: "Transaction \<Rightarrow> bytes option"

fun run_request :: "('m, 'k) node_env \<Rightarrow> codecs \<Rightarrow> io \<Rightarrow> 'm request \<Rightarrow> ('m, unit) step" where
  "run_request N B I (MessageReceived m) = seq (receive_message N I m) (\<lambda>_. ret ())"
| "run_request N B I (PrefillReceived d) = seq (receive_prefill_dispatch N I d) (\<lambda>_. ret ())"
| "run_request N B I (HotDispatchReceived d) = seq (receive_hot_dispatch N I d) (\<lambda>_. ret ())"
| "run_request N B I (ReconcileTried m) = seq (try_reconcile_commit N I m) (\<lambda>_. ret ())"
| "run_request N B I BufferDrained = seq (drain_buffered_current_round_messages N) (\<lambda>_. ret ())"
| "run_request N B I (BlockSubmitted b) = seq (submit_block N I b) (\<lambda>_. ret ())"
| "run_request N B I (LocalBlockDispatched round) = seq (dispatch_local_block N I round) (\<lambda>_. ret ())"
| "run_request N B I (DispatchProduced round t) = seq (try_produce_dispatch_for_target N I round t) (\<lambda>_. ret ())"
| "run_request N B I (DispatchRetried round h) = schedule_dispatch_retry N round h"
| "run_request N B I PrefillBroadcast = seq (try_broadcast_prefill_dispatch N I) (\<lambda>_. ret ())"
| "run_request N B I (PrefillCompleted t receipts) = complete_prefill_broadcast t receipts"
| "run_request N B I (PrefillSeeded round) = seq (seed_prefill_dispatches_for_round N round) (\<lambda>_. ret ())"
| "run_request N B I PrefillActivated = seq (try_activate_prefill_round N) (\<lambda>_. ret ())"
| "run_request N B I (AcknowledgementProduced round) = seq (try_produce_trusted_acknowledgement N round) (\<lambda>_. ret ())"
| "run_request N B I (AcknowledgementRetried round h) = schedule_trusted_acknowledgement_retry N round h"
| "run_request N B I (VerificationProduced round) = seq (try_produce_verification N I round) (\<lambda>_. ret ())"
| "run_request N B I (VerificationRetried round h) = schedule_verification_retry N round h"
| "run_request N B I (ConfirmationRetried round h) = schedule_trusted_confirmation_retry N round h"
| "run_request N B I (ProposalProduced round) = seq (try_produce_proposal N round) (\<lambda>_. ret ())"
| "run_request N B I (FalseProposalProduced round) = seq (try_produce_false_proposal N round) (\<lambda>_. ret ())"
| "run_request N B I (ProposalRetried round sig) = schedule_proposal_retry N round sig"
| "run_request N B I (CommitProduced round) = seq (try_produce_commit N I round) (\<lambda>_. ret ())"
| "run_request N B I (FinalCommitRetried round) = seq (retry_final_commit N round) (\<lambda>_. ret ())"
| "run_request N B I EpochStartedProduced = seq (try_produce_epoch_started N) (\<lambda>_. ret ())"
| "run_request N B I (EpochStartedCompleted m ks) = complete_epoch_started_broadcast m ks"
| "run_request N B I (EpochStartedFailed m fs) = record_epoch_started_broadcast_failures m fs"
| "run_request N B I (SuffixReceived suffix) = seq (catch_up_certified_suffix N I suffix) (\<lambda>_. ret ())"
| "run_request N B I (EpochRangeReceived chain) = seq (catch_up_from_epoch_started N I chain) (\<lambda>_. ret ())"
| "run_request N B I (BlocksRepaired manifest blocks) = seq (repair_manifest_blocks N I manifest blocks) (\<lambda>_. ret ())"
| "run_request N B I (EchoRequested r) = seq (respond_to_echo_request N I r) (\<lambda>_. ret ())"
| "run_request N B I (SkipAssisted a b manifest) = seq (try_round_skip_assist N a b manifest) (\<lambda>_. ret ())"
| "run_request N B I (WaitAssessed round) = seq (recovery_wait_assessment N round) (\<lambda>_. ret ())"
| "run_request N B I (AdmissionStaged a) = seq (stage_node_admission N a) (\<lambda>_. ret ())"
| "run_request N B I (ReconnectStaged e) = seq (stage_reconnect_admission N e) (\<lambda>_. ret ())"
| "run_request N B I (MemberOperationStaged operation) = seq (stage_member_operation N operation) (\<lambda>_. ret ())"
| "run_request N B I (TransactionSubmitted t) = seq (submit_transaction N (co_transaction B) t) (\<lambda>_. ret ())"
| "run_request N B I (ApplicationStateSet bs) = runtime_set_application_state bs"
| "run_request N B I (EncounterRecorded k round phase o' e t) = seq (record_encounter N k round phase o' e t) (\<lambda>_. ret ())"
| "run_request N B I (MissingRecorded round phase t) = seq (record_missing_signatures N round phase t) (\<lambda>_. ret ())"
| "run_request N B I (LeaseVoted r) = seq (vote_membership_lease N I r) (\<lambda>_. ret ())"
| "run_request N B I (LeaseInstalled c) = seq (install_membership_lease N I c) (\<lambda>_. ret ())"
| "run_request N B I (ServiceRegistered sv) = seq (register_service sv) (\<lambda>_. ret ())"
| "run_request N B I (SignedServiceRegistered r) = seq (register_signed_service N (co_service B) I r) (\<lambda>_. ret ())"

lemma safe_request:
  assumes "index_tree (ne_tree N)" "\<And>round. request \<noteq> CommitProduced round"
  shows "safe N (run_request N B I request)"
  using assms by (cases request) (auto intro!: node_runs ng.runs_intros)


section \<open>One member\<close>

text \<open>The epoch whose share a request records, if it records one: \<open>cast_commit\<close> returns the recorded commit.\<close>

definition signed_epoch :: "('m, 'k) node_env \<Rightarrow> u8 \<Rightarrow> 'm NodeRuntime \<Rightarrow> 'm Epoch option" where
  "signed_epoch N round n =
    (case fst (cast_commit N round n) of
       Done (Some message) \<Rightarrow>
         (if cb_epoch_hash (cm_body message) = None then None
          else case prepare_verified_epoch N (hd_last_epoch (cm_header message)) (hd_nonce (cm_header message)) round (nr_state n) of
            Inr prepared \<Rightarrow> prepared
          | Inl _ \<Rightarrow> None)
     | _ \<Rightarrow> None)"

fun recorded_shares :: "('m, 'k) node_env \<Rightarrow> 'm request \<Rightarrow> 'm NodeRuntime \<Rightarrow> 'm Epoch list" where
  "recorded_shares N (CommitProduced round) n = (case signed_epoch N round n of Some epoch \<Rightarrow> [epoch] | None \<Rightarrow> [])"
| "recorded_shares N _ n = []"

text \<open>The driver asks for commits of the rounds that the consensus in progress has.\<close>

fun in_rounds :: "'m request \<Rightarrow> 'm NodeRuntime \<Rightarrow> bool" where
  "in_rounds (CommitProduced round) n =
    (case chain_tip (nr_state n) of
       Some tip \<Rightarrow> (case get_consensus (ep_hash tip) (new_next (epb_nonce (ep_body tip))) (nr_state n) of
         Some c \<Rightarrow> unat round < length (tc_peers c) | None \<Rightarrow> True)
     | None \<Rightarrow> True)"
| "in_rounds _ n = True"

type_synonym 'm member = "'m NodeRuntime \<times> 'm Epoch list"

abbreviation chain_of :: "'m member \<Rightarrow> 'm Epoch list" where
  "chain_of m \<equiv> lst_epochchain (nr_state (fst m))"

inductive member_step :: "('m, 'k) node_env \<Rightarrow> codecs \<Rightarrow> 'm member \<Rightarrow> 'm member \<Rightarrow> bool" for N B where
  request: "in_rounds request n \<Longrightarrow> run_request N B I request n = (r, n')
    \<Longrightarrow> member_step N B (n, shares) (n', shares @ recorded_shares N request n)"

inductive_cases member_stepE: "member_step N B m m'"

definition votes_counted :: "'m NodeRuntime \<Rightarrow> bool" where
  "votes_counted n \<longleftrightarrow> (\<forall>key round peers senders message.
    node_vote (nr_state n) key round = Some (peers, senders, message) \<longrightarrow> self_key n \<in> senders)"

definition voted_finally :: "'m LocalState \<Rightarrow> EpochNonce \<Rightarrow> bool" where
  "voted_finally s key \<longleftrightarrow> (\<exists>round peers senders message.
    node_vote s key round = Some (peers, senders, message) \<and> unat round + 1 = length peers)"

definition share_backed :: "('m, 'k) node_env \<Rightarrow> 'm NodeRuntime \<Rightarrow> 'm Epoch \<Rightarrow> bool" where
  "share_backed N n e \<longleftrightarrow> ep_hash e = epoch_body_hash N (ep_body e) \<and> verifiers_from_members N (ep_body e)
    \<and> epb_last_epoch (ep_body e) \<in> ep_hash ` set (lst_epochchain (nr_state n))
    \<and> (\<forall>tip. chain_tip (nr_state n) = Some tip \<longrightarrow> epb_last_epoch (ep_body e) = ep_hash tip
        \<longrightarrow> voted_finally (nr_state n) (ep_hash tip, new_next (epb_nonce (ep_body tip))))"

text \<open>The epochs that a member signed have one hash per parent.\<close>

definition one_successor :: "'m Epoch list \<Rightarrow> bool" where
  "one_successor shares \<longleftrightarrow> (\<forall>e\<in>set shares. \<forall>e'\<in>set shares.
    epb_last_epoch (ep_body e) = epb_last_epoch (ep_body e') \<longrightarrow> ep_hash e = ep_hash e')"

lemma one_successorD:
  "one_successor shares \<Longrightarrow> e \<in> set shares \<Longrightarrow> e' \<in> set shares
    \<Longrightarrow> epb_last_epoch (ep_body e) = epb_last_epoch (ep_body e') \<Longrightarrow> ep_hash e = ep_hash e'"
  unfolding one_successor_def by blast

lemma one_successor_snoc:
  assumes "one_successor shares" "\<And>e'. e' \<in> set shares \<Longrightarrow> epb_last_epoch (ep_body e') \<noteq> epb_last_epoch (ep_body e)"
  shows "one_successor (shares @ [e])"
  unfolding one_successor_def
proof (intro ballI impI)
  fix x y
  assume "x \<in> set (shares @ [e])" "y \<in> set (shares @ [e])" "epb_last_epoch (ep_body x) = epb_last_epoch (ep_body y)"
  then consider "x \<in> set shares" "y \<in> set shares" | "x = y" using assms(2) by fastforce
  then show "ep_hash x = ep_hash y"
    using one_successorD [OF assms(1)] \<open>epb_last_epoch (ep_body x) = epb_last_epoch (ep_body y)\<close> by cases blast+
qed

definition member_ok :: "('m, 'k) node_env \<Rightarrow> 'm member \<Rightarrow> bool" where
  "member_ok N m \<longleftrightarrow> verified (fst m) \<and> votes_counted (fst m) \<and> (\<forall>e\<in>set (snd m). share_backed N (fst m) e)
    \<and> one_successor (snd m)"

lemma votes_counted_grows:
  assumes "node_grows N n n'" "votes_counted n"
  shows "votes_counted n'"
  unfolding votes_counted_def
proof (intro allI impI)
  fix key round peers senders message
  assume vote: "node_vote (nr_state n') key round = Some (peers, senders, message)"
  have g: "grows (certified_link N) (nr_state n) (nr_state n')" using assms(1) by (simp add: node_grows_def)
  have "same_vote (node_vote (nr_state n) key round) (node_vote (nr_state n') key round)"
    using growsD(5) [OF g, of key round] vote by simp
  then obtain senders' where "node_vote (nr_state n) key round = Some (peers, senders', message)" "senders' \<subseteq> senders"
    unfolding vote by (cases "node_vote (nr_state n) key round") auto
  moreover have "self_key n' = self_key n" using growsD(1) [OF g] by (simp add: self_key_def)
  ultimately show "self_key n' \<in> senders" using assms(2) unfolding votes_counted_def by fastforce
qed

lemma chain_tip_last: "chain_tip s = Some tip \<longleftrightarrow> lst_epochchain s \<noteq> [] \<and> tip = last (lst_epochchain s)"
  by (auto simp: chain_tip_def last_opt_def)

lemma voted_finally_grows:
  assumes "grows L s t" "lst_epochchain t = lst_epochchain s" "voted_finally s key"
  shows "voted_finally t key"
proof -
  obtain round peers senders message where "node_vote s key round = Some (peers, senders, message)" "unat round + 1 = length peers"
    using assms(3) unfolding voted_finally_def by blast
  then show ?thesis using growsD(4) [OF assms(1,2), of key round] unfolding voted_finally_def by force
qed

lemma share_backed_grows:
  assumes grows: "node_grows N n n'" and dist: "distinct (map ep_hash (lst_epochchain (nr_state n')))"
    and backed: "share_backed N n e"
  shows "share_backed N n' e"
proof -
  have g: "grows (certified_link N) (nr_state n) (nr_state n')" using grows by (simp add: node_grows_def)
  obtain ext where ext: "lst_epochchain (nr_state n') = lst_epochchain (nr_state n) @ ext"
    using growsD(3) [OF g] unfolding extends_by_def by blast
  have parent: "epb_last_epoch (ep_body e) \<in> ep_hash ` set (lst_epochchain (nr_state n))"
    using backed by (simp add: share_backed_def)
  have "voted_finally (nr_state n') (ep_hash tip, new_next (epb_nonce (ep_body tip)))"
    if tip: "chain_tip (nr_state n') = Some tip" "epb_last_epoch (ep_body e) = ep_hash tip" for tip
  proof (cases "ext = []")
    case True
    then have "chain_tip (nr_state n) = Some tip" using tip(1) ext by (simp add: chain_tip_last)
    then show ?thesis using backed tip(2) voted_finally_grows [OF g] ext True by (simp add: share_backed_def)
  next
    case False
    then have "ep_hash tip \<in> set (map ep_hash ext)" using tip(1) ext by (simp add: chain_tip_last)
    then show ?thesis using parent tip(2) dist unfolding ext by auto
  qed
  then show ?thesis using backed ext by (auto simp: share_backed_def)
qed

lemma member_ok_grows:
  assumes "node_grows N n n'" "distinct (map ep_hash (lst_epochchain (nr_state n')))" "member_ok N (n, shares)"
  shows "member_ok N (n', shares)"
proof -
  have "verified n" "votes_counted n" using assms(3) by (simp_all add: member_ok_def)
  then have "verified n'" "votes_counted n'" using ng.stable [OF _ assms(1)] votes_counted_grows [OF assms(1)] by blast+
  moreover have "\<forall>e\<in>set shares. share_backed N n' e"
    using assms(3) share_backed_grows [OF assms(1,2)] by (auto simp: member_ok_def)
  ultimately show ?thesis using assms(3) by (simp add: member_ok_def)
qed

text \<open>A recorded share is for an epoch on the tip of the chain.\<close>

lemma signed_epoch_cases:
  assumes "cast_commit N round n = (Done (Some message), n')" "may_cast N round message tip c n" "signed_epoch N round n = Some e"
  shows "prepare_verified_epoch N (ep_hash tip) (new_next (epb_nonce (ep_body tip))) round (nr_state n) = Ok (Some e)"
  using assms by (auto simp: signed_epoch_def may_cast_def Let_def split: sum.splits if_splits)

lemma prepared_fields:
  assumes "prepare_verified_epoch N (ep_hash tip) (new_next (epb_nonce (ep_body tip))) round s = Ok (Some e)"
    "chain_tip s = Some tip" "get_consensus (ep_hash tip) (new_next (epb_nonce (ep_body tip))) s = Some c"
  shows "length (tc_peers c) \<le> unat round + 1" "epb_last_epoch (ep_body e) = ep_hash tip"
    "ep_hash e = epoch_body_hash N (ep_body e)" "verifiers_from_members N (ep_body e)"
  using assms
  by (auto simp: prepare_verified_epoch_def at_target_def set_hash_def build_verified_epoch_fields verifiers_from_members_def
      build_verified_epoch_sel split: if_splits)

lemma cast_vote_absent:
  assumes cast: "may_cast N round message tip c n" and counted: "votes_counted n"
  shows "node_vote (nr_state n) (ep_hash tip, new_next (epb_nonce (ep_body tip))) round = None"
proof (rule ccontr)
  assume "\<not> ?thesis"
  then obtain peers senders m where vote:
    "node_vote (nr_state n) (ep_hash tip, new_next (epb_nonce (ep_body tip))) round = Some (peers, senders, m)"
    by (cases "node_vote (nr_state n) (ep_hash tip, new_next (epb_nonce (ep_body tip))) round") auto
  then have "self_key n \<in> senders" using counted unfolding votes_counted_def by blast
  then show False
    using vote cast by (auto simp: may_cast_def own_commit_allowed_def get_quorum_def get_consensus_def node_vote_def consensus_vote_def Let_def
        split: if_splits option.splits)
qed

lemma member_ok_cast:
  assumes ok: "member_ok N (n, shares)" and cast: "may_cast N round message tip c n" "cast_commit N round n = (Done (Some message), n2)"
    and n2: "n2 = cast_vote message required c n" and rounds: "unat round < length (tc_peers c)"
  shows "member_ok N (n2, shares @ (case signed_epoch N round n of Some e \<Rightarrow> [e] | None \<Rightarrow> []))"
proof -
  let ?key = "(ep_hash tip, new_next (epb_nonce (ep_body tip)))"
  have tip: "chain_tip (nr_state n) = Some tip" and c: "get_consensus (ep_hash tip) (new_next (epb_nonce (ep_body tip))) (nr_state n) = Some c"
    using cast(1) by (auto simp: may_cast_def Let_def)
  have counted: "votes_counted n" and ver: "verified n" using ok by (simp_all add: member_ok_def)
  note vote = node_vote_cast [OF cast(1) refl, where required = required, folded n2]
  have absent: "node_vote (nr_state n) ?key round = None" by (rule cast_vote_absent [OF cast(1) counted])
  have same: "lst_epochchain (nr_state n2) = lst_epochchain (nr_state n)" "self_key n2 = self_key n" "verified n2"
    using ver by (simp_all add: n2 cast_vote_fields self_key_def verified_def)
  have "votes_counted n2" using counted unfolding votes_counted_def same(2) vote by auto
  moreover have backed: "share_backed N n2 e" if "share_backed N n e" for e
  proof -
    have "voted_finally (nr_state n2) key" if "voted_finally (nr_state n) key" for key
      using that absent unfolding voted_finally_def vote by (metis option.distinct(1))
    then show ?thesis using that same(1) by (auto simp: share_backed_def chain_tip_def)
  qed
  moreover have "share_backed N n2 e \<and> (\<forall>e'\<in>set shares. epb_last_epoch (ep_body e') \<noteq> epb_last_epoch (ep_body e))"
    if signed: "signed_epoch N round n = Some e" for e
  proof -
    note p = prepared_fields [OF signed_epoch_cases [OF cast(2,1) signed] tip c]
    have final: "unat round + 1 = length (tc_peers c)" using p(1) rounds by simp
    then have "voted_finally (nr_state n2) ?key" unfolding voted_finally_def vote by auto
    then have "share_backed N n2 e"
      using p(2-4) tip same(1) by (auto simp: share_backed_def chain_tip_last)
    moreover have False if e': "e' \<in> set shares" "epb_last_epoch (ep_body e') = ep_hash tip" for e'
    proof -
      have "voted_finally (nr_state n) ?key" using ok e' tip by (auto simp: member_ok_def share_backed_def)
      then obtain round' peers senders m where v: "node_vote (nr_state n) ?key round' = Some (peers, senders, m)" "unat round' + 1 = length peers"
        unfolding voted_finally_def by blast
      then have "peers = tc_peers c" using c by (auto simp: node_vote_def get_consensus_def consensus_vote_def split: bind_splits)
      then have "round' = round" using v(2) final by (simp add: word_unat_eq_iff)
      then show False using v(1) absent by simp
    qed
    ultimately show ?thesis using p(2) by auto
  qed
  ultimately show ?thesis
    using ok same(3) by (cases "signed_epoch N round n") (auto simp: member_ok_def intro: one_successor_snoc)
qed

lemma produce_commit_cases:
  assumes V: "verified n" and run: "try_produce_commit N I round n = (r, n')"
  obtains (same) "n' = n" "signed_epoch N round n = None"
    | (vote) message required tip c where "cast_commit N round n = (Done (Some message), cast_vote message required c n)"
        "may_cast N round message tip c n" "node_grows N (cast_vote message required c n) n'"
proof -
  obtain r2 n2 where cast: "cast_commit N round n = (r2, n2)" by (cases "cast_commit N round n")
  from cast_commit_cases [OF cast] consider (stop) "n2 = n" "\<And>message. r2 \<noteq> Done (Some message)"
    | (go) message required tip c where "r2 = Done (Some message)" "may_cast N round message tip c n" "n2 = cast_vote message required c n"
    by blast
  then show ?thesis
  proof cases
    case stop
    then have "n' = n" using run cast
      by (auto simp: try_produce_commit_def seq_def ret_def split: outcome.splits option.splits)
    moreover have "signed_epoch N round n = None"
      using stop cast by (auto simp: signed_epoch_def split: outcome.splits option.splits)
    ultimately show ?thesis by (rule same)
  next
    case go
    let ?rest = "seq (on_state (advance_if_committed N (cm_header message))) (\<lambda>extended.
      seq (after_extension N I extended) (\<lambda>_. ret (Some message)))"
    have "?rest n2 = (r, n')" using run cast go(1) by (simp add: try_produce_commit_def seq_def [of "cast_commit N round"])
    moreover have "safe N ?rest" by (rule node_runs base_rules)+
    moreover have "verified n2" using V go(3) by (simp add: verified_def cast_vote_fields)
    ultimately have "node_grows N n2 n'" by (auto dest: runs_inD)
    then show ?thesis using vote go cast by blast
  qed
qed

lemma request_commit_run:
  assumes "run_request N B I (CommitProduced round) n = (r, n')"
  obtains r' where "try_produce_commit N I round n = (r', n')"
  using assms by (cases "try_produce_commit N I round n") (auto simp: seq_def ret_def split: outcome.splits)

lemma recorded_shares_other: "(\<And>round. request \<noteq> CommitProduced round) \<Longrightarrow> recorded_shares N request n = []"
  by (cases request) auto

text \<open>Every request of a member either keeps its votes or casts one and then keeps them.\<close>

lemma member_step_cases:
  assumes T: "index_tree (ne_tree N)" and V: "verified n" and step: "member_step N B (n, shares) (n', shares')"
  obtains (kept) "node_grows N n n'" "shares' = shares"
    | (vote) round message required tip c where "cast_commit N round n = (Done (Some message), cast_vote message required c n)"
        "may_cast N round message tip c n" "node_grows N (cast_vote message required c n) n'" "unat round < length (tc_peers c)"
        "shares' = shares @ (case signed_epoch N round n of Some e \<Rightarrow> [e] | None \<Rightarrow> [])"
proof -
  obtain request I r where req: "in_rounds request n" "run_request N B I request n = (r, n')"
      "shares' = shares @ recorded_shares N request n"
    using step by (auto elim: member_stepE)
  show ?thesis
  proof (cases "\<exists>round. request = CommitProduced round")
    case True
    then obtain round r' where round: "request = CommitProduced round" and run: "try_produce_commit N I round n = (r', n')"
      using req(2) request_commit_run by blast
    show ?thesis
    proof (rule produce_commit_cases [OF V run])
      assume "n' = n" "signed_epoch N round n = None"
      then show ?thesis using kept req(3) round ng.refl [of N n] by simp
    next
      fix message required tip c
      assume *: "cast_commit N round n = (Done (Some message), cast_vote message required c n)"
        "may_cast N round message tip c n" "node_grows N (cast_vote message required c n) n'"
      have "unat round < length (tc_peers c)" using *(2) req(1) round by (simp add: may_cast_def Let_def)
      then show ?thesis using vote [OF *] req(3) round by simp
    qed
  next
    case False
    then have "safe N (run_request N B I request)" by (intro safe_request [OF T]) blast
    then show ?thesis using kept V req(2,3) recorded_shares_other False by (metis append_Nil2 runs_inD)
  qed
qed

lemma member_step_chain:
  assumes "index_tree (ne_tree N)" "verified (fst m)" "member_step N B m m'"
  shows "verified (fst m')" "extends_by (certified_link N) (chain_of m) (chain_of m')" "self_key (fst m') = self_key (fst m)"
proof -
  obtain n shares n' shares' where m: "m = (n, shares)" "m' = (n', shares')" by (cases m; cases m')
  obtain n2 where n2: "lst_epochchain (nr_state n2) = lst_epochchain (nr_state n)" "lst_self_node (nr_state n2) = lst_self_node (nr_state n)"
      "verified n2" "node_grows N n2 n'"
    using member_step_cases [OF assms(1) _ assms(3) [unfolded m]] assms(2)
    by (metis cast_vote_fields fst_conv m(1) verified_def)
  have g: "grows (certified_link N) (nr_state n2) (nr_state n')" using n2(4) by (simp add: node_grows_def)
  show "verified (fst m')" using ng.stable [OF n2(3,4)] by (simp add: m)
  show "extends_by (certified_link N) (chain_of m) (chain_of m')" using growsD(3) [OF g] n2(1) by (simp add: m)
  show "self_key (fst m') = self_key (fst m)" using growsD(1) [OF g] n2(2) by (simp add: m self_key_def)
qed

lemma member_step_ok:
  assumes T: "index_tree (ne_tree N)" and ok: "member_ok N m" and step: "member_step N B m m'"
    and dist: "distinct (map ep_hash (chain_of m'))"
  shows "member_ok N m'"
proof -
  obtain n shares n' shares' where m: "m = (n, shares)" "m' = (n', shares')" by (cases m; cases m')
  have V: "verified n" using ok m by (simp add: member_ok_def)
  show ?thesis
  proof (rule member_step_cases [OF T V step [unfolded m]])
    assume "node_grows N n n'" "shares' = shares"
    then show ?thesis using member_ok_grows ok dist by (simp add: m)
  next
    fix round message required tip c
    assume *: "cast_commit N round n = (Done (Some message), cast_vote message required c n)"
        "may_cast N round message tip c n" "node_grows N (cast_vote message required c n) n'" "unat round < length (tc_peers c)"
        "shares' = shares @ (case signed_epoch N round n of Some e \<Rightarrow> [e] | None \<Rightarrow> [])"
    have "member_ok N (cast_vote message required c n, shares')"
      unfolding *(5) by (rule member_ok_cast [OF _ *(2,1) refl *(4)]) (use ok m in simp)
    then show ?thesis using member_ok_grows [OF *(3)] dist by (simp add: m)
  qed
qed


section \<open>The group\<close>

type_synonym 'm system = "PubKey \<Rightarrow> 'm member"

inductive system_step :: "('m, 'k) node_env \<Rightarrow> codecs \<Rightarrow> PubKey set \<Rightarrow> 'm system \<Rightarrow> 'm system \<Rightarrow> bool" for N B H where
  honest: "k \<in> H \<Longrightarrow> member_step N B (\<sigma> k) m' \<Longrightarrow> system_step N B H \<sigma> (\<sigma>(k := m'))"

inductive_cases system_stepE: "system_step N B H \<sigma> \<sigma>'"

text \<open>Every honest member starts with the genesis epoch as its chain and without a vote.\<close>

definition started :: "PubKey set \<Rightarrow> 'm Epoch \<Rightarrow> 'm system \<Rightarrow> bool" where
  "started H genesis \<sigma> \<longleftrightarrow> (\<forall>k\<in>H. verified (fst (\<sigma> k)) \<and> self_key (fst (\<sigma> k)) = k \<and> chain_of (\<sigma> k) = [genesis]
    \<and> (\<forall>key round. node_vote (nr_state (fst (\<sigma> k))) key round = None) \<and> snd (\<sigma> k) = [])"

definition system_epochs :: "PubKey set \<Rightarrow> 'm system \<Rightarrow> 'm Epoch set" where
  "system_epochs H \<sigma> = (\<Union>k\<in>H. set (chain_of (\<sigma> k)) \<union> set (snd (\<sigma> k)))"

text \<open>The hash separates the epochs that the honest members hold or signed, and none of them hashes to the default.\<close>

definition hashes_separate :: "('m, 'k) node_env \<Rightarrow> 'm Epoch set \<Rightarrow> bool" where
  "hashes_separate N X \<longleftrightarrow> inj_on (sha256 (ne_crypto N)) ((\<lambda>e. epoch_to_bytes N (ep_body e)) ` X) \<and> default_hash \<notin> ep_hash ` X"

text \<open>Borsh writes the member sets of these epochs so that none is the start of another.\<close>

definition members_delimited :: "('m, 'k) node_env \<Rightarrow> 'm Epoch set \<Rightarrow> bool" where
  "members_delimited N X \<longleftrightarrow> delimited (\<lambda>members. \<exists>e\<in>X. epb_members (ep_body e) = members) (ne_member_bytes N)"

text \<open>A share of an honest validator in a certificate was recorded by that validator.\<close>

definition unforged :: "('m, 'k) node_env \<Rightarrow> PubKey set \<Rightarrow> 'm system \<Rightarrow> bool" where
  "unforged N H \<sigma> \<longleftrightarrow> (\<forall>k\<in>H. \<forall>v\<in>H. \<forall>i. Suc i < length (chain_of (\<sigma> k))
    \<longrightarrow> v \<in> certificate_signers N (epb_verifiers (ep_body (chain_of (\<sigma> k) ! i))) (chain_of (\<sigma> k) ! Suc i)
    \<longrightarrow> (\<exists>e\<in>set (snd (\<sigma> v)). ep_hash e = ep_hash (chain_of (\<sigma> k) ! Suc i)))"

definition faults_bounded :: "('m, 'k) node_env \<Rightarrow> PubKey set \<Rightarrow> 'm system \<Rightarrow> bool" where
  "faults_bounded N H \<sigma> \<longleftrightarrow> (\<forall>k\<in>H. \<forall>e\<in>set (chain_of (\<sigma> k)).
    let validators = set (it_keys (ne_tree N) (epb_verifiers (ep_body e))) in
    card (validators - H) \<le> byzantine_fault_bound (card validators))"

text \<open>What the hash of an epoch commits to.\<close>

definition committed :: "('m, 'k) node_env \<Rightarrow> 'm Epoch \<Rightarrow>
    HashType \<times> ConsensusGroupId \<times> MemberSet \<times> PubKey list \<times> HashType \<times> Nonce \<times> HashType \<times> HashType list" where
  "committed N e = (ep_hash e, epb_group_id (ep_body e), epb_members (ep_body e), it_keys (ne_tree N) (epb_verifiers (ep_body e)),
    epb_last_epoch (ep_body e), epb_nonce (ep_body e), epb_merkle_root (ep_body e), bm_keys (epb_blocks (ep_body e)))"

definition certified_chain :: "('m, 'k) node_env \<Rightarrow> 'm Epoch \<Rightarrow> 'm Epoch list \<Rightarrow> bool" where
  "certified_chain N genesis chain \<longleftrightarrow> chain \<noteq> [] \<and> hd chain = genesis \<and> successively (certified_link N) chain"

lemma certified_chain_extends:
  assumes "certified_chain N genesis xs" "extends_by (certified_link N) xs ys"
  shows "certified_chain N genesis ys"
proof -
  obtain ext where ys: "ys = xs @ ext" "ext \<noteq> [] \<longrightarrow> successively (certified_link N) (last xs # ext)"
    using assms(2) unfolding extends_by_def by blast
  then show ?thesis using assms(1)
    by (cases ext) (auto simp: certified_chain_def successively_append_iff successively_Cons)
qed

lemma certified_chain_genesis: "certified_chain N genesis chain \<Longrightarrow> chain ! 0 = genesis"
  by (auto simp: certified_chain_def hd_conv_nth)

lemma certified_chainD:
  assumes "certified_chain N genesis chain" "Suc i < length chain"
  shows "certified_link N (chain ! i) (chain ! Suc i)"
  using assms successively_conv_nth [of "certified_link N" chain] by (simp add: certified_chain_def)

lemma anchor_fields:
  assumes "index_tree (ne_tree N)" "validate_genesis_anchor N genesis group_id = Ok ()"
  shows "epb_last_epoch (ep_body genesis) = default_hash" "ep_hash genesis = epoch_body_hash N (ep_body genesis)"
    "verifiers_from_members N (ep_body genesis)"
  using assms(2) verifier_sets_equal_keys [OF assms(1)]
  by (auto simp: validate_genesis_anchor_def verifiers_from_members_def Let_def split: if_splits)

text \<open>The epochs of a certified chain have distinct hashes: two equal hashes would have equal parents, down to the genesis.\<close>

lemma certified_chain_hash:
  assumes "certified_chain N genesis chain" "ep_hash genesis = epoch_body_hash N (ep_body genesis)" "i < length chain"
  shows "ep_hash (chain ! i) = epoch_body_hash N (ep_body (chain ! i))"
proof (cases i)
  case 0
  then show ?thesis using assms(2) certified_chain_genesis [OF assms(1)] by simp
next
  case (Suc j)
  then show ?thesis using certified_chainD [OF assms(1), of j] assms(3) by (simp add: certified_link_def)
qed

lemma equal_hash_bytes:
  assumes "hashes_separate N X" "e \<in> X" "e' \<in> X" "ep_hash e = ep_hash e'"
    "ep_hash e = epoch_body_hash N (ep_body e)" "ep_hash e' = epoch_body_hash N (ep_body e')"
  shows "epoch_to_bytes N (ep_body e) = epoch_to_bytes N (ep_body e')"
proof (rule inj_onD)
  show "inj_on (sha256 (ne_crypto N)) ((\<lambda>e. epoch_to_bytes N (ep_body e)) ` X)" using assms(1) by (simp add: hashes_separate_def)
qed (use assms in \<open>auto simp: epoch_body_hash_def\<close>)

lemma equal_hash_parent:
  assumes M: "members_delimited N X" and X: "hashes_separate N X" "e \<in> X" "e' \<in> X" "ep_hash e = ep_hash e'"
    "ep_hash e = epoch_body_hash N (ep_body e)" "ep_hash e' = epoch_body_hash N (ep_body e')"
  shows "epb_last_epoch (ep_body e) = epb_last_epoch (ep_body e')"
  by (rule epoch_bytes_prefix(3) [OF M [unfolded members_delimited_def] _ _ equal_hash_bytes [OF X]]) (use X(2,3) in blast)+

lemma certified_chain_distinct:
  assumes T: "index_tree (ne_tree N)" and M: "members_delimited N X"
    and anchor: "validate_genesis_anchor N genesis group_id = Ok ()"
    and chain: "certified_chain N genesis chain" and X: "hashes_separate N X" "set chain \<subseteq> X"
  shows "distinct (map ep_hash chain)"
proof -
  note hash = certified_chain_hash [OF chain anchor_fields(2) [OF T anchor]]
  have parent: "epb_last_epoch (ep_body (chain ! i)) = epb_last_epoch (ep_body (chain ! j))"
    if "i < length chain" "j < length chain" "ep_hash (chain ! i) = ep_hash (chain ! j)" for i j
    using equal_hash_parent [OF M X(1) _ _ that(3) hash [OF that(1)] hash [OF that(2)]] that(1,2) X(2)
    by (meson nth_mem subsetD)
  have "ep_hash (chain ! i) \<noteq> ep_hash (chain ! j)" if "i < j" "j < length chain" for i j
    using that
  proof (induction i arbitrary: j)
    case 0
    then obtain j' where j: "j = Suc j'" by (cases j) auto
    then have "epb_last_epoch (ep_body (chain ! j)) = ep_hash (chain ! j')"
      using certified_chainD [OF chain, of j'] 0 by (simp add: certified_link_def)
    moreover have "epb_last_epoch (ep_body (chain ! 0)) = default_hash"
      using certified_chain_genesis [OF chain] anchor_fields(1) [OF T anchor] by simp
    moreover have "chain ! j' \<in> X" using X(2) 0 j nth_mem [of j' chain] by auto
    then have "ep_hash (chain ! j') \<noteq> default_hash" using X(1) unfolding hashes_separate_def by (metis imageI)
    ultimately show ?case using parent [of 0 j] 0 chain by (auto simp: certified_chain_def)
  next
    case (Suc i)
    then obtain j' where j: "j = Suc j'" by (cases j) auto
    have "epb_last_epoch (ep_body (chain ! Suc i)) = ep_hash (chain ! i)" "epb_last_epoch (ep_body (chain ! j)) = ep_hash (chain ! j')"
      using certified_chainD [OF chain] Suc.prems j by (simp_all add: certified_link_def)
    then show ?case using parent [of "Suc i" j] Suc.IH [of j'] Suc.prems j by auto
  qed
  then show ?thesis unfolding distinct_conv_nth by (metis length_map linorder_neqE_nat nth_map)
qed


section \<open>Agreement\<close>

abbreviation system_run :: "('m, 'k) node_env \<Rightarrow> codecs \<Rightarrow> PubKey set \<Rightarrow> 'm system \<Rightarrow> 'm system \<Rightarrow> bool" where
  "system_run N B H \<equiv> (system_step N B H)\<^sup>*\<^sup>*"

lemma system_step_member:
  assumes "system_step N B H \<sigma> \<sigma>'" "k \<in> H"
  shows "\<sigma>' k = \<sigma> k \<or> member_step N B (\<sigma> k) (\<sigma>' k)"
  using assms by (auto elim!: system_stepE)

lemma system_run_chain:
  assumes T: "index_tree (ne_tree N)" and start: "started H genesis \<sigma>" and run: "system_run N B H \<sigma> \<sigma>'" and k: "k \<in> H"
  shows "verified (fst (\<sigma>' k)) \<and> certified_chain N genesis (chain_of (\<sigma>' k)) \<and> self_key (fst (\<sigma>' k)) = k"
  using run
proof induction
  case base
  then show ?case using start k by (simp add: started_def certified_chain_def)
next
  case (step \<sigma>1 \<sigma>2)
  from system_step_member [OF step.hyps(2) k] show ?case
  proof
    assume s: "member_step N B (\<sigma>1 k) (\<sigma>2 k)"
    show ?thesis using member_step_chain [OF T _ s] step.IH certified_chain_extends by auto
  qed (use step.IH in simp)
qed

lemma system_run_ok:
  assumes T: "index_tree (ne_tree N)" and start: "started H genesis \<sigma>" and run: "system_run N B H \<sigma> \<sigma>'" and k: "k \<in> H"
    and dist: "distinct (map ep_hash (chain_of (\<sigma>' k)))"
  shows "member_ok N (\<sigma>' k)"
  using run dist
proof induction
  case base
  then show ?case using start k
    by (auto simp: started_def member_ok_def votes_counted_def one_successor_def)
next
  case (step \<sigma>1 \<sigma>2)
  from system_step_member [OF step.hyps(2) k] show ?case
  proof
    assume s: "member_step N B (\<sigma>1 k) (\<sigma>2 k)"
    have "verified (fst (\<sigma>1 k))" using system_run_chain [OF T start step.hyps(1) k] by blast
    then have "extends_by (certified_link N) (chain_of (\<sigma>1 k)) (chain_of (\<sigma>2 k))" by (rule member_step_chain(2) [OF T _ s])
    then have "distinct (map ep_hash (chain_of (\<sigma>1 k)))" using step.prems by (auto simp: extends_by_def)
    then show ?thesis using step.IH member_step_ok [OF T _ s step.prems] by blast
  qed (use step in simp)
qed

lemma committed_equal:
  assumes M: "members_delimited N X" and X: "hashes_separate N X" "e \<in> X" "e' \<in> X"
    and link: "certified_link N previous e" "certified_link N previous' e'" and hash: "ep_hash e = ep_hash e'"
  shows "committed N e = committed N e'"
proof -
  have bytes: "epoch_to_bytes N (ep_body e) = epoch_to_bytes N (ep_body e')"
    using equal_hash_bytes [OF X hash] link by (simp add: certified_link_def)
  have fields: "verifiers_from_members N (ep_body e)" "verifiers_from_members N (ep_body e')"
      "epb_previous_nonce (ep_body e) \<noteq> None" "epb_previous_nonce (ep_body e') \<noteq> None"
    using link by (simp_all add: certified_link_def)
  have "\<exists>d\<in>X. epb_members (ep_body d) = epb_members (ep_body e)" "\<exists>d\<in>X. epb_members (ep_body d) = epb_members (ep_body e')"
    using X(2,3) by blast+
  then show ?thesis
    using epoch_bytes_inject [OF M [unfolded members_delimited_def] _ _ fields bytes] hash by (simp add: committed_def)
qed

text \<open>Two certified successors of epochs with the same validators have one hash: an honest validator signed both.\<close>

lemma successors_equal:
  assumes T: "index_tree (ne_tree N)" and M: "members_delimited N (system_epochs H \<sigma>)"
    and X: "hashes_separate N (system_epochs H \<sigma>)" and U: "unforged N H \<sigma>" and F: "faults_bounded N H \<sigma>"
    and ok: "\<And>v. v \<in> H \<Longrightarrow> member_ok N (\<sigma> v)"
    and ab: "a \<in> H" "b \<in> H" and chains: "certified_chain N genesis (chain_of (\<sigma> a))" "certified_chain N genesis (chain_of (\<sigma> b))"
    and i: "Suc i < length (chain_of (\<sigma> a))" "Suc i < length (chain_of (\<sigma> b))"
    and same: "committed N (chain_of (\<sigma> a) ! i) = committed N (chain_of (\<sigma> b) ! i)"
  shows "ep_hash (chain_of (\<sigma> a) ! Suc i) = ep_hash (chain_of (\<sigma> b) ! Suc i)"
proof -
  let ?p = "chain_of (\<sigma> a) ! i" and ?q = "chain_of (\<sigma> b) ! i" and ?e = "chain_of (\<sigma> a) ! Suc i" and ?f = "chain_of (\<sigma> b) ! Suc i"
  have link: "certified_link N ?p ?e" "certified_link N ?q ?f" using certified_chainD chains i by blast+
  have keys: "it_keys (ne_tree N) (epb_verifiers (ep_body ?q)) = it_keys (ne_tree N) (epb_verifiers (ep_body ?p))"
    and hash: "ep_hash ?p = ep_hash ?q" using same by (simp_all add: committed_def)
  let ?K = "set (it_keys (ne_tree N) (epb_verifiers (ep_body ?p)))"
  have "card (?K - H) \<le> byzantine_fault_bound (card ?K)" using F ab(1) i(1) by (simp add: faults_bounded_def Let_def)
  then obtain v where v: "v \<in> ?K - (?K - H)" "v \<in> certificate_signers N (epb_verifiers (ep_body ?p)) ?e"
      "v \<in> certificate_signers N (epb_verifiers (ep_body ?q)) ?f"
    using certificates_share_honest [OF T _ _ keys, of ?e ?f "?K - H"] link
    by (auto simp: certified_link_def verify_certificate_def)
  then have H: "v \<in> H" by blast
  obtain e where e: "e \<in> set (snd (\<sigma> v))" "ep_hash e = ep_hash ?e" using U ab(1) H i(1) v(2) unfolding unforged_def by blast
  obtain f where f: "f \<in> set (snd (\<sigma> v))" "ep_hash f = ep_hash ?f" using U ab(2) H i(2) v(3) unfolding unforged_def by blast
  have backed: "ep_hash g = epoch_body_hash N (ep_body g)" "g \<in> system_epochs H \<sigma>" if "g \<in> set (snd (\<sigma> v))" for g
    using that ok [OF H] H by (auto simp: member_ok_def share_backed_def system_epochs_def)
  have inX: "?e \<in> system_epochs H \<sigma>" "?f \<in> system_epochs H \<sigma>"
    using ab i nth_mem unfolding system_epochs_def by blast+
  have "epb_last_epoch (ep_body e) = epb_last_epoch (ep_body ?e)"
    using equal_hash_parent [OF M X backed(2) [OF e(1)] inX(1) e(2) backed(1) [OF e(1)]] link(1)
    by (simp add: certified_link_def)
  moreover have "epb_last_epoch (ep_body f) = epb_last_epoch (ep_body ?f)"
    using equal_hash_parent [OF M X backed(2) [OF f(1)] inX(2) f(2) backed(1) [OF f(1)]] link(2)
    by (simp add: certified_link_def)
  ultimately have "epb_last_epoch (ep_body e) = epb_last_epoch (ep_body f)"
    using link hash by (simp add: certified_link_def)
  then have "ep_hash e = ep_hash f" using one_successorD ok [OF H] e(1) f(1) unfolding member_ok_def by blast
  then show ?thesis using e(2) f(2) by simp
qed


end
