(* ===== verification/Submissions.thy ===== *)
theory Submissions
  imports VerifiedSystem
begin

text \<open>
  What becomes of a submitted transaction. \<open>submit_transaction\<close> (\<open>application.rs\<close>) and \<open>stage_member_operation\<close>
  (\<open>recovery.rs\<close>) append a transaction to the block under construction of the \<open>LocalBlock\<close> queue; only
  \<open>LocalBlock::close_block\<close> moves that block into the queue, and no operation of the runtime calls it. An action is blind when it
  answers alike, and leaves nodes alike, on two nodes that differ in nothing but the block under construction. Every
  request is blind, so no request sequence ever shows a difference between a node and the same node without the submission.
\<close>

section \<open>Blind actions\<close>

definition with_build :: "Block \<Rightarrow> 'm NodeRuntime \<Rightarrow> 'm NodeRuntime" where
  "with_build b n = n\<lparr>nr_local_blocks := (nr_local_blocks n)\<lparr>lb_build_block := b\<rparr>\<rparr>"

definition blind :: "('m, 'a) step \<Rightarrow> bool" where
  "blind m \<longleftrightarrow> (\<forall>b n. \<exists>b'. m (with_build b n) = (fst (m n), with_build b' (snd (m n))))"

lemma blindI: "(\<And>b n. \<exists>b'. m (with_build b n) = (fst (m n), with_build b' (snd (m n)))) \<Longrightarrow> blind m"
  by (simp add: blind_def)

lemma blindE:
  assumes "blind m" "m n = (r, n')"
  obtains b' where "m (with_build b n) = (r, with_build b' n')"
  using assms unfolding blind_def by (metis fst_conv snd_conv)

named_theorems sees and blind_rules

lemma sees_fields [sees]:
  "nr_group_id (with_build b n) = nr_group_id n" "nr_state (with_build b n) = nr_state n"
  "nr_future_round_messages (with_build b n) = nr_future_round_messages n"
  "nr_epoch_started_hints (with_build b n) = nr_epoch_started_hints n"
  "nr_epoch_started_retry (with_build b n) = nr_epoch_started_retry n"
  "nr_prefill_dispatch_retry (with_build b n) = nr_prefill_dispatch_retry n"
  "nr_local_blocks (with_build b n) = (nr_local_blocks n)\<lparr>lb_build_block := b\<rparr>"
  "nr_accepted_local_blocks (with_build b n) = nr_accepted_local_blocks n"
  "nr_address_book (with_build b n) = nr_address_book n" "nr_signer (with_build b n) = nr_signer n"
  "nr_trust_mode (with_build b n) = nr_trust_mode n" "nr_mode (with_build b n) = nr_mode n"
  "nr_block_cap (with_build b n) = nr_block_cap n"
  "nr_consensus_parameters (with_build b n) = nr_consensus_parameters n"
  "nr_removal_policy (with_build b n) = nr_removal_policy n" "nr_snapshot_path (with_build b n) = nr_snapshot_path n"
  "nr_trusted_epoch_log (with_build b n) = nr_trusted_epoch_log n" "nr_epoch_commit (with_build b n) = nr_epoch_commit n"
  "nr_verified_membership (with_build b n) = nr_verified_membership n"
  "nr_membership_lease_watermarks (with_build b n) = nr_membership_lease_watermarks n"
  by (simp_all add: with_build_def)

lemma sees_updates [sees]:
  "nr_group_id_update f1 (with_build b n) = with_build b (nr_group_id_update f1 n)"
  "nr_state_update f2 (with_build b n) = with_build b (nr_state_update f2 n)"
  "nr_future_round_messages_update f3 (with_build b n) = with_build b (nr_future_round_messages_update f3 n)"
  "nr_epoch_started_hints_update f4 (with_build b n) = with_build b (nr_epoch_started_hints_update f4 n)"
  "nr_epoch_started_retry_update f5 (with_build b n) = with_build b (nr_epoch_started_retry_update f5 n)"
  "nr_prefill_dispatch_retry_update f6 (with_build b n) = with_build b (nr_prefill_dispatch_retry_update f6 n)"
  "nr_accepted_local_blocks_update f7 (with_build b n) = with_build b (nr_accepted_local_blocks_update f7 n)"
  "nr_address_book_update f8 (with_build b n) = with_build b (nr_address_book_update f8 n)"
  "nr_trusted_epoch_log_update f9 (with_build b n) = with_build b (nr_trusted_epoch_log_update f9 n)"
  "nr_epoch_commit_update f10 (with_build b n) = with_build b (nr_epoch_commit_update f10 n)"
  "nr_verified_membership_update f11 (with_build b n) = with_build b (nr_verified_membership_update f11 n)"
  "nr_membership_lease_watermarks_update f12 (with_build b n) = with_build b (nr_membership_lease_watermarks_update f12 n)"
  by (simp_all add: with_build_def)

lemma blind_ret [blind_rules]: "blind (ret x)" and blind_fail [blind_rules]: "blind (fail e)"
  and blind_panic [blind_rules]: "blind panic"
  by (auto simp: blind_def action_simps)

lemma blind_asks [blind_rules]: "(\<And>b n. f (with_build b n) = f n) \<Longrightarrow> blind (asks f)"
  by (auto simp: blind_def action_simps)

lemma blind_lift [blind_rules]: "blind (lift_result r)"
  by (cases r) (auto simp: action_simps blind_ret blind_fail)

lemma blind_ensure [blind_rules]: "blind (ensure c e)"
  by (simp add: ensure_def blind_ret blind_fail)

lemma blind_expect [blind_rules]: "blind (expect v e)"
  by (simp add: expect_def blind_lift)

lemma blind_asks_result [blind_rules]:
  assumes "\<And>b n. f (with_build b n) = f n"
  shows "blind (asks_result f)"
proof (rule blindI)
  fix b n
  show "\<exists>b'. asks_result f (with_build b n) = (fst (asks_result f n), with_build b' (snd (asks_result f n)))"
    using blind_lift [of "f n"] unfolding blind_def asks_result_def assms by blast
qed

lemma blind_update [blind_rules]: "(\<And>b n. h (with_build b n) = with_build b (h n)) \<Longrightarrow> blind (update h)"
  by (auto simp: blind_def action_simps)

lemma blind_seq [blind_rules]:
  assumes "blind m" "\<And>x. blind (f x)"
  shows "blind (seq m f)"
proof (rule blindI)
  fix b n
  obtain r n' where m: "m n = (r, n')" by (cases "m n")
  obtain b' where m': "m (with_build b n) = (r, with_build b' n')" using blindE [OF assms(1) m] .
  show "\<exists>b'. seq m f (with_build b n) = (fst (seq m f n), with_build b' (snd (seq m f n)))"
  proof (cases r)
    case (Done x)
    then show ?thesis using m m' assms(2) [of x] by (simp add: seq_def blind_def)
  qed (use m m' in \<open>auto simp: seq_def\<close>)
qed

lemma blind_each [blind_rules]: "(\<And>x. blind (f x)) \<Longrightarrow> blind (each f xs)"
  by (induction xs) (simp_all add: blind_ret blind_seq)

lemma blind_traverse [blind_rules]: "(\<And>x. blind (f x)) \<Longrightarrow> blind (traverse f xs)"
  by (induction xs) (simp_all add: blind_ret blind_seq)

lemma blind_attempt [blind_rules]:
  assumes "blind m"
  shows "blind (attempt m)"
proof (rule blindI)
  fix b n
  obtain r n' where m: "m n = (r, n')" by (cases "m n")
  obtain b' where "m (with_build b n) = (r, with_build b' n')" using blindE [OF assms m] .
  with m show "\<exists>b'. attempt m (with_build b n) = (fst (attempt m n), with_build b' (snd (attempt m n)))"
    by (cases r) (auto simp: attempt_def)
qed

lemma blind_if [blind_rules]: "blind m \<Longrightarrow> blind m' \<Longrightarrow> blind (if c then m else m')"
  by simp

lemma blind_case_option [blind_rules]: "blind m \<Longrightarrow> (\<And>y. blind (f y)) \<Longrightarrow> blind (case x of None \<Rightarrow> m | Some y \<Rightarrow> f y)"
  by (cases x) simp_all

lemma blind_case_sum [blind_rules]: "(\<And>e. blind (g e)) \<Longrightarrow> (\<And>y. blind (f y)) \<Longrightarrow> blind (case x of Inl e \<Rightarrow> g e | Inr y \<Rightarrow> f y)"
  by (cases x) simp_all

lemma blind_case_prod [blind_rules]: "(\<And>a b. blind (f a b)) \<Longrightarrow> blind (case x of (a, b) \<Rightarrow> f a b)"
  by (cases x) simp

lemma blind_within [blind_rules]:
  assumes "\<And>b n. part (with_build b n) = part n" "\<And>b s n. store s (with_build b n) = with_build b (store s n)"
  shows "blind (within part store m)"
  using assms by (auto simp: blind_def within_def split: prod.splits)

lemma blind_on_state [blind_rules]: "blind (on_state m)"
  unfolding on_state_def by (rule blind_within) (simp_all add: with_build_def)

lemma blind_on_log [blind_rules]: "blind (on_log f)"
proof (rule blindI)
  fix b n
  show "\<exists>b'. on_log f (with_build b n) = (fst (on_log f n), with_build b' (snd (on_log f n)))"
    by (auto simp: on_log_def with_build_def intro!: exI [of _ b] split: option.splits prod.splits sum.splits)
qed

text \<open>An operation of the block queue that does not read the block under construction.\<close>

definition unread :: "(LocalBlock, 'a) action \<Rightarrow> bool" where
  "unread m \<longleftrightarrow> (\<forall>b q. \<exists>b'. m (q\<lparr>lb_build_block := b\<rparr>) = (fst (m q), (snd (m q))\<lparr>lb_build_block := b'\<rparr>))"

lemma blind_on_blocks [blind_rules]:
  assumes "unread m"
  shows "blind (on_blocks m)"
proof (rule blindI)
  fix b and n :: "'m NodeRuntime"
  obtain b' where "m ((nr_local_blocks n)\<lparr>lb_build_block := b\<rparr>)
      = (fst (m (nr_local_blocks n)), (snd (m (nr_local_blocks n)))\<lparr>lb_build_block := b'\<rparr>)"
    using assms unfolding unread_def by blast
  then show "\<exists>b'. on_blocks m (with_build b n) = (fst (on_blocks m n), with_build b' (snd (on_blocks m n)))"
    by (auto simp: on_blocks_def within_def with_build_def intro!: exI [of _ b'] split: prod.splits)
qed

lemma unreadI: "(\<And>b q. m (q\<lparr>lb_build_block := b\<rparr>) = (fst (m q), (snd (m q))\<lparr>lb_build_block := b\<rparr>)) \<Longrightarrow> unread m"
  by (auto simp: unread_def)

lemma unread_add_transaction [blind_rules]:
  "unread (\<lambda>q. case add_transaction q t of (hash, q') \<Rightarrow> (Done hash, q'))"
  by (auto simp: unread_def add_transaction_def)

lemma unread_enqueue [blind_rules]: "unread (run_result (\<lambda>q. enqueue_preverified_block q block))"
  by (rule unreadI) (simp add: run_result_def enqueue_preverified_block_def ensure_enqueueable_def)

lemma unread_application_state [blind_rules]: "unread (run_result (\<lambda>q. lb_set_application_state q bytes))"
  by (rule unreadI) (simp add: run_result_def lb_set_application_state_def split: sum.splits)

lemma unread_encounter [blind_rules]: "unread (run_result (\<lambda>q. add_encounter_record E q r))"
  by (rule unreadI) (simp add: run_result_def add_encounter_record_def split: sum.splits)

lemma unread_admission [blind_rules]: "unread (run_result (\<lambda>q. add_node_admission E q a))"
  by (rule unreadI) (simp add: run_result_def add_node_admission_def split: sum.splits)

lemma unread_reconcile [blind_rules]: "unread (run_result (\<lambda>q. reconcile_durable_pending_block q pending))"
  by (rule unreadI) (simp add: run_result_def reconcile_durable_pending_block_def enqueue_preverified_block_def
      ensure_enqueueable_def Let_def split: option.splits)

lemma unread_take [blind_rules]: "unread (take_local_block validator target round)"
  by (rule unreadI) (simp add: take_local_block_def seq_def run_result_def dequeue_block_def take_encounter_records_def
      take_node_admissions_def asks_def split: sum.splits prod.splits; auto)

section \<open>What an operation reads\<close>

lemma sees_queue [sees]: "ensure_enqueueable (q\<lparr>lb_build_block := b\<rparr>) block = ensure_enqueueable q block"
  by (simp add: ensure_enqueueable_def)

lemma sees_reads1 [sees]:
  "self_key (with_build b n) = self_key n"
  "trusted (with_build b n) = trusted n"
  "node_tip (with_build b n) = node_tip n"
  "ensure_consensus_mode (with_build b n) = ensure_consensus_mode n"
  "next_epoch_target (with_build b n) = next_epoch_target n"
  "ensure_current_header_target (with_build b n) header = ensure_current_header_target n header"
  "verify_message_signature N header key bs (with_build b n) = verify_message_signature N header key bs n"
  "sign_body N key hash nonce round bs (with_build b n) = sign_body N key hash nonce round bs n"
  "signed_header_for_body N target round key bs (with_build b n) = signed_header_for_body N target round key bs n"
  "block_service (with_build b n) = block_service n"
  "validate_block_service (with_build b n) block = validate_block_service n block"
  "is_current_verifier N pk (with_build b n) = is_current_verifier N pk n"
  "is_prefill_recipient_for_sender N pk (with_build b n) = is_prefill_recipient_for_sender N pk n"
  "verify_block_integrity N (with_build b n) block = verify_block_integrity N n block"
  by (simp_all add: sees Let_def self_key_def trusted_def node_tip_def ensure_consensus_mode_def next_epoch_target_def
      ensure_current_header_target_def verify_message_signature_def sign_body_def signed_header_for_body_def
      block_service_def validate_block_service_def is_current_verifier_def is_prefill_recipient_for_sender_def
      verify_block_integrity_def
      cong: if_cong option.case_cong sum.case_cong prod.case_cong)

lemma sees_reads2 [sees]:
  "runtime_snapshot t (with_build b n) = runtime_snapshot t n"
  "membership_lease_statement N I request (with_build b n) = membership_lease_statement N I request n"
  "verified_relay_set ms t (with_build b n) = verified_relay_set ms t n"
  "consensus_services (with_build b n) ks = consensus_services n ks"
  "finality_collector_services N (with_build b n) = finality_collector_services N n"
  "prefill_dispatch_plan N (with_build b n) = prefill_dispatch_plan N n"
  "quorum_round_count N (with_build b n) = quorum_round_count N n"
  "has_local_prefill_dispatch (with_build b n) = has_local_prefill_dispatch n"
  "contains_epoch_hash hash (with_build b n) = contains_epoch_hash hash n"
  "local_dispatch_is_sealed target (with_build b n) = local_dispatch_is_sealed target n"
  "runtime_empty_block N I target bs rs as (with_build b n) = runtime_empty_block N I target bs rs as n"
  "retry_for target (with_build b n) = retry_for target n"
  by (simp_all add: sees Let_def runtime_snapshot_def membership_lease_statement_def verified_relay_set_def
      consensus_services_def finality_collector_services_def prefill_dispatch_plan_def quorum_round_count_def
      has_local_prefill_dispatch_def contains_epoch_hash_def local_dispatch_is_sealed_def runtime_empty_block_def
      retry_for_def
      cong: if_cong option.case_cong sum.case_cong prod.case_cong)

lemma sees_reads3 [sees]:
  "expected_prefill_senders N (with_build b n) hash ns = expected_prefill_senders N n hash ns"
  "prefill_stage_status N (with_build b n) = prefill_stage_status N n"
  "share_signature N (with_build b n) hash = share_signature N n hash"
  "commit_body N target round (with_build b n) = commit_body N target round n"
  "started_retry_for hash nonce (with_build b n) = started_retry_for hash nonce n"
  "epoch_started_catch_up_services (with_build b n) = epoch_started_catch_up_services n"
  "verified_or_durable_block_by_hash I hash (with_build b n) = verified_or_durable_block_by_hash I hash n"
  "validate_manifest_for_current_epoch N manifest (with_build b n) = validate_manifest_for_current_epoch N manifest n"
  "requested_blocks I header hashes (with_build b n) = requested_blocks I header hashes n"
  "local_block_in_candidate target manifest (with_build b n) = local_block_in_candidate target manifest n"
  "already_voted_skip skip target (with_build b n) = already_voted_skip skip target n"
  "evaluate_reconnect_admission N evidence (with_build b n) = evaluate_reconnect_admission N evidence n"
  by (simp_all add: sees Let_def expected_prefill_senders_def prefill_stage_status_def share_signature_def commit_body_def
      started_retry_for_def epoch_started_catch_up_services_def verified_or_durable_block_by_hash_def
      validate_manifest_for_current_epoch_def requested_blocks_def local_block_in_candidate_def already_voted_skip_def
      evaluate_reconnect_admission_def
      cong: if_cong option.case_cong sum.case_cong prod.case_cong)

lemma sees_reads4 [sees]:
  "repair_requests manifest (with_build b n) hashes = repair_requests manifest n hashes"
  "manifest_repair_plan N I manifest (with_build b n) = manifest_repair_plan N I manifest n"
  "assist_decision from_round to_round manifest target (with_build b n) = assist_decision from_round to_round manifest target n"
  "sign_reconnect_vote N admission (with_build b n) = sign_reconnect_vote N admission n"
  "sign_encounter_record N subject round phase result hash t (with_build b n) = sign_encounter_record N subject round phase result hash t n"
  by (simp_all add: sees Let_def repair_requests_def manifest_repair_plan_def assist_decision_def sign_reconnect_vote_def
      sign_encounter_record_def cong: if_cong option.case_cong sum.case_cong prod.case_cong)

section \<open>Every request is blind\<close>

lemma blind_operations0a [blind_rules]:
  "blind (accepted kind)" "blind (check_signature N header key bs)" "blind (known_sender N header)"
  "blind (persist_snapshot N I)" "blind (publish_epoch_commit I)" "blind (target_quorum N target round m)"
  "blind (reconcile_pending N)" "blind (hint_epoch_started sender target)"
  "blind (buffer_future_round_message_if_needed N message)" "blind (drain_buffered_current_round_messages N)"
  "blind (round_consensus_services N round)" "blind (current_consensus_round N)" "blind (is_final_consensus_round N round)"
  "blind (submit_block N I block)"
  unfolding accepted_def check_signature_def known_sender_def persist_snapshot_def snapshot_def publish_epoch_commit_def
    target_quorum_def reconcile_pending_def hint_epoch_started_def buffer_future_round_message_if_needed_def
    buffer_message_def drain_buffered_current_round_messages_def round_consensus_services_def current_consensus_round_def
    is_final_consensus_round_def submit_block_def enqueue_submitted_def Let_def
  by (rule blind_rules | (simp add: sees cong: if_cong option.case_cong; fail)
    | (simp add: sees split: option.splits sum.splits prod.splits; fail))+

lemma blind_operations0b [blind_rules]:
  "blind (complete_prefill_broadcast target receipts)" "blind (seed_prefill_dispatches_for_round N round)"
  "blind (try_activate_prefill_round N)" "blind (complete_epoch_started_broadcast epoch_started ks)"
  "blind (record_epoch_started_broadcast_failures epoch_started failures)"
  "blind (try_round_skip_assist N from_round to_round manifest)" "blind (stage_node_admission N admission)"
  "blind (stage_member_operation N operation)" "blind (submit_transaction N C transaction)"
  "blind (runtime_set_application_state bs)" "blind (runtime_add_encounter_record N r)"
  "blind (missing_signature_subjects N round phase)" "blind (vote_membership_lease N I request)"
  "blind (install_membership_lease N I certificate)"
  unfolding complete_prefill_broadcast_def seed_prefill_dispatches_for_round_def try_activate_prefill_round_def
    complete_epoch_started_broadcast_def on_started_retry_def record_epoch_started_broadcast_failures_def
    try_round_skip_assist_def stage_node_admission_def stage_member_operation_def submit_transaction_def
    runtime_set_application_state_def runtime_add_encounter_record_def missing_signature_subjects_def
    vote_membership_lease_def install_membership_lease_def Let_def
  by (rule blind_rules | (simp add: sees cong: if_cong option.case_cong; fail)
    | (simp add: sees split: option.splits sum.splits prod.splits; fail))+

lemma blind_operations0c [blind_rules]:
  "blind (republish_fresh_membership_relays I ms)"
  unfolding republish_fresh_membership_relays_def Let_def
  by (rule blind_rules | (simp add: sees cong: if_cong option.case_cong; fail)
    | (simp add: sees split: option.splits sum.splits prod.splits; fail))+

lemma blind_register_service [blind_rules]: "blind (register_service service)"
  by (auto simp: blind_def register_service_def sees split: prod.splits)

lemma blind_verify_message_envelope [blind_rules]: "blind (verify_message_envelope N message)"
  unfolding verify_message_envelope_def Let_def
  by (cases message) (simp, (rule blind_rules | (simp add: sees; fail))+)+

lemma blind_operations1a [blind_rules]:
  "blind (after_extension N I extended)" "blind (runtime_receive_dispatch N I dispatch)"
  "blind (receive_prefill_dispatch N I dispatch)" "blind (receive_hot_dispatch N I hot)"
  "blind (receive_echo_request N echo)" "blind (receive_echo_redispatch N I redispatch)"
  "blind (receive_echo_response N response)" "blind (receive_round_skip_vote N skip_vote)"
  "blind (receive_round_skip_certificate N skip_certificate)" "blind (receive_reconcile_appraisal N appraisal)"
  "blind (receive_reconcile_request N reconcile_request)" "blind (receive_reconcile_response N I reconcile_response)"
  "blind (install_confirmed N I epoch)" "blind (receive_trusted_acknowledgement N acknowledgement)"
  unfolding after_extension_def runtime_receive_dispatch_def receive_prefill_dispatch_def receive_hot_dispatch_def
    receive_echo_request_def receive_echo_redispatch_def receive_echo_response_def receive_round_skip_vote_def
    receive_round_skip_certificate_def receive_reconcile_appraisal_def receive_reconcile_request_def
    receive_reconcile_response_def install_confirmed_def receive_trusted_acknowledgement_def Let_def
  by (rule blind_rules | (simp add: sees cong: if_cong option.case_cong; fail)
    | (simp add: sees split: option.splits sum.splits prod.splits; fail))+

lemma blind_operations1b [blind_rules]:
  "blind (receive_epoch_started N epoch_started)" "blind (dispatch_local_block_locked N I round target)"
  "blind (schedule_dispatch_retry N round hash)" "blind (schedule_trusted_acknowledgement_retry N round hash)"
  "blind (schedule_verification_retry N round hash)" "blind (schedule_trusted_confirmation_retry N round hash)"
  "blind (schedule_proposal_retry N round signature)" "blind (try_produce_trusted_acknowledgement N round)"
  "blind (produce_verified_verification N target round)" "blind (produce_trusted_verification N I target round)"
  "blind (try_produce_proposal N round)" "blind (cast_commit N round)" "blind (retry_final_commit N round)"
  "blind (try_produce_epoch_started N)"
  unfolding receive_epoch_started_def dispatch_local_block_locked_def seal_local_dispatch_def carried_blocks_def
    schedule_dispatch_retry_def schedule_trusted_acknowledgement_retry_def schedule_verification_retry_def
    schedule_trusted_confirmation_retry_def schedule_proposal_retry_def try_produce_trusted_acknowledgement_def
    produce_verified_verification_def produce_trusted_verification_def try_produce_proposal_def cast_commit_def
    retry_final_commit_def try_produce_epoch_started_def Let_def
  by (rule blind_rules | (simp add: sees cong: if_cong option.case_cong; fail)
    | (simp add: sees split: option.splits sum.splits prod.splits; fail))+

lemma blind_operations1c [blind_rules]:
  "blind (finish_catch_up N I)" "blind (catch_up_trusted_epoch_range N I chain)"
  "blind (repair_manifest_blocks N I manifest blocks)" "blind (respond_to_echo_request N I echo)"
  "blind (recovery_wait_assessment N round)" "blind (stage_reconnect_admission N evidence)"
  "blind (record_encounter N subject round phase result evidence_hash observed)"
  "blind (register_signed_service N C I signed_record)"
  unfolding finish_catch_up_def prune_epoch_started_hints_def catch_up_trusted_epoch_range_def repair_manifest_blocks_def
    respond_to_echo_request_def recovery_wait_assessment_def stage_reconnect_admission_def record_encounter_def
    register_signed_service_def Let_def
  by (rule blind_rules | (simp add: sees cong: if_cong option.case_cong; fail)
    | (simp add: sees split: option.splits sum.splits prod.splits; fail))+

lemma blind_operations2a [blind_rules]:
  "blind (receive_reconcile_commit N I reconcile_commit)" "blind (complete_trusted_verification N I round hash)"
  "blind (receive_proposal N I proposal)" "blind (receive_commit N I commit)" "blind (dispatch_local_block N I round)"
  "blind (try_produce_dispatch_for_target N I round required)" "blind (try_produce_verification N I round)"
  "blind (try_produce_commit N I round)" "blind (catch_up_certified_suffix N I suffix)"
  "blind (catch_up_from_epoch_started N I chain)" "blind (try_produce_false_proposal N round)"
  "blind (record_missing_signatures N round phase observed)"
  unfolding receive_reconcile_commit_def complete_trusted_verification_def receive_proposal_def receive_commit_def
    dispatch_local_block_def try_produce_dispatch_for_target_def try_produce_verification_def try_produce_commit_def
    catch_up_certified_suffix_def catch_up_from_epoch_started_def try_produce_false_proposal_def
    record_missing_signatures_def Let_def
  by (rule blind_rules | (simp add: sees cong: if_cong option.case_cong; fail)
    | (simp add: sees split: option.splits sum.splits prod.splits; fail))+

lemma blind_operations3a [blind_rules]:
  "blind (try_reconcile_commit N I reconcile_commit)" "blind (try_complete_trusted_verification N I round)"
  "blind (prepare_prefill_dispatch N I)"
  unfolding try_reconcile_commit_def try_complete_trusted_verification_def prepare_prefill_dispatch_def Let_def
  by (rule blind_rules | (simp add: sees cong: if_cong option.case_cong; fail)
    | (simp add: sees split: option.splits sum.splits prod.splits; fail))+

lemma blind_operations4a [blind_rules]:
  "blind (receive_verification N I verification)" "blind (try_broadcast_prefill_dispatch N I)"
  unfolding receive_verification_def try_broadcast_prefill_dispatch_def Let_def
  by (rule blind_rules | (simp add: sees cong: if_cong option.case_cong; fail)
    | (simp add: sees split: option.splits sum.splits prod.splits; fail))+

lemma blind_receive_message [blind_rules]: "blind (receive_message N I message)"
  unfolding receive_message_def
  by (cases message) (simp, (rule blind_rules | (simp add: sees; fail))+)+

lemma blind_request: "blind (run_request N B I request)"
  by (cases request) (simp_all add: blind_rules)


section \<open>A submission and the requests after it\<close>

fun run_requests :: "('m, 'k) node_env \<Rightarrow> codecs \<Rightarrow> (io \<times> 'm request) list \<Rightarrow> 'm NodeRuntime \<Rightarrow> 'm NodeRuntime" where
  "run_requests N B [] n = n"
| "run_requests N B ((I, request) # rest) n = run_requests N B rest (snd (run_request N B I request n))"

lemma run_requests_blind: "\<exists>b'. run_requests N B requests (with_build b n) = with_build b' (run_requests N B requests n)"
proof (induction N B requests n arbitrary: b rule: run_requests.induct)
  case (2 N B I request rest n)
  obtain r n' where run: "run_request N B I request n = (r, n')" by (cases "run_request N B I request n")
  obtain b' where "run_request N B I request (with_build b n) = (r, with_build b' n')" using blindE [OF blind_request run] .
  then show ?case using 2 run by simp
qed auto

lemma on_blocks_add:
  assumes "on_blocks (\<lambda>q. case add_transaction q t of (hash, q') \<Rightarrow> (Done hash, q')) n = (r, n')"
  shows "\<exists>b. n' = with_build b n"
  using assms by (auto simp: on_blocks_def within_def add_transaction_def with_build_def)

lemma submission_builds:
  "submit_transaction N C transaction n = (Done hash, n') \<Longrightarrow> \<exists>b. n' = with_build b n"
  "stage_member_operation N operation n = (Done hash, n') \<Longrightarrow> \<exists>b. n' = with_build b n"
  unfolding submit_transaction_def stage_member_operation_def by (auto simp only: Done_simps dest: on_blocks_add)

text \<open>C32: A transaction or member operation that the runtime accepted never leaves the block under construction: whatever requests the node handles
  afterwards, its state, chain, queue of blocks and every other field are those of the same node without the submission, and the block
  it dispatches in any round is the same. The doc of \<open>submit_transaction\<close> promises that the consensus driver closes and broadcasts
  the block.\<close>

theorem submission_never_dispatched:
  assumes "submit_transaction N C transaction n = (Done hash, n') \<or> stage_member_operation N operation n = (Done hash, n')"
  shows "(\<exists>b. run_requests N B requests n' = with_build b (run_requests N B requests n))
    \<and> fst (dispatch_local_block N I round (run_requests N B requests n'))
      = fst (dispatch_local_block N I round (run_requests N B requests n))"
proof -
  obtain b where "n' = with_build b n" using assms submission_builds by blast
  then obtain b' where after: "run_requests N B requests n' = with_build b' (run_requests N B requests n)"
    using run_requests_blind by blast
  moreover have "blind (dispatch_local_block N I round)" by (rule blind_rules)
  ultimately show ?thesis unfolding blind_def by (metis fst_conv)
qed

end
