(* ===== verification/Restart.thy ===== *)
theory Restart
  imports Submissions
begin

text \<open>
  What survives a restart. A node that takes a snapshot (\<open>runtime/snapshot.rs\<close>) and is built again from it has the same chain, group,
  parameters, modes and removal policy, and the lease watermarks that are alive; it has forgotten the state of the epoch in progress.
  The watermarks make it sign at most one lease statement per challenge while the first is alive, whatever
  requests it handles in between.
\<close>

section \<open>Snapshots\<close>

lemma bm_get_of_distinct: "distinct (map fst es) \<Longrightarrow> bm_get (bm_of_list es) k = map_of es k"
  unfolding bm_get_of_list by (subst map_of_inject_set [THEN iffD2]) (simp_all add: rev_map [symmetric])

lemma distinct_entries: "distinct (map fst (bm_entries m))"
  using sorted_entries_distinct sorted_bm_entries by blast

lemma bm_of_list_entries: "bm_of_list (bm_entries m) = m"
  by (rule bm_eqI) (simp add: bm_get_of_distinct [OF distinct_entries] bm_get_def [of m])

lemma bm_of_list_map_entries: "bm_of_list (map (\<lambda>(k, v). (k, f v)) (bm_entries m)) = bm_map (\<lambda>_. f) m"
proof -
  have "map (\<lambda>(k, v). (k, f v)) (bm_entries m) = bm_entries (bm_map (\<lambda>_. f) m)" by (simp add: bm_entries_map case_prod_beta)
  then show ?thesis by (simp only: bm_of_list_entries)
qed

lemma restored_unexpired: "restored_watermarks now (runtime_snapshot t n) = unexpired_watermarks now (nr_membership_lease_watermarks n)"
proof -
  let ?m = "nr_membership_lease_watermarks n"
  have "map (\<lambda>(c, hash). (c, \<lparr>wm_statement_hash = hash, wm_expires_at_unix_millis =
      unwrap_or (bm_get (bm_map (\<lambda>_. wm_expires_at_unix_millis) ?m) c) (saturating_add_u64 now MAX_MEMBERSHIP_LEASE_MILLIS)\<rparr>))
        (map (\<lambda>(c, w). (c, wm_statement_hash w)) (bm_entries ?m)) = bm_entries ?m"
    unfolding map_map by (rule map_idI) (auto simp: bm_get_Some_iff [symmetric])
  then have "restored_watermarks now (runtime_snapshot t n)
      = bm_of_list (filter (\<lambda>(_, w). wm_expires_at_unix_millis w > now) (bm_entries ?m))"
    by (simp add: restored_watermarks_def runtime_snapshot_def Let_def bm_of_list_map_entries del: map_map)
  also have "filter (\<lambda>(_, w). wm_expires_at_unix_millis w > now) (bm_entries ?m) = bm_entries (unexpired_watermarks now ?m)"
    by (auto simp: unexpired_watermarks_def bm_entries_retain intro: filter_cong)
  finally show ?thesis by (simp only: bm_of_list_entries)
qed

lemma snapshot_epochs_checked:
  assumes "try_fold (\<lambda>previous epoch. and_then (snapshot_epoch_check N sn previous epoch) (\<lambda>_. Ok (Some epoch))) previous chain = Ok t"
    "epoch \<in> set chain"
  shows "effective_consensus_parameters (ep_body epoch) = sn_consensus_parameters sn"
  using assms
proof (induction chain arbitrary: previous)
  case (Cons e chain)
  have "effective_consensus_parameters (ep_body e) = sn_consensus_parameters sn"
    using Cons.prems(1) by (auto simp: snapshot_epoch_check_def Let_def split: if_splits)
  then show ?case using Cons by auto
qed simp

lemma each_ensure: "(\<And>x. x \<in> set xs \<Longrightarrow> P x) \<Longrightarrow> each (\<lambda>x. ensure (P x) (e x)) xs s = (Done (), s)"
  by (induction xs) (simp_all add: action_simps)

lemma try_new_restores:
  assumes "rg_genesis config = Some (hd chain)" "rg_epochchain config = Some chain" "chain \<noteq> []" "rg_trusted_log config = None"
    "epb_group_id (ep_body (hd chain)) = rg_group_id config" "ConsensusParameters_new (rg_quorum_size config) = parameters"
    "ConsensusParameters_validate parameters = Ok ()" "\<not> is_high_availability (rg_trust_mode config)"
    "\<And>epoch. epoch \<in> set chain \<Longrightarrow> effective_consensus_parameters (ep_body epoch) = parameters"
  shows "\<exists>n. try_new N I config = Done n \<and> lst_epochchain (nr_state n) = chain \<and> lst_consensus (nr_state n) = bm_empty
    \<and> nr_group_id n = rg_group_id config \<and> nr_consensus_parameters n = parameters \<and> nr_trust_mode n = rg_trust_mode config
    \<and> nr_mode n = rg_mode config \<and> nr_removal_policy n = rg_removal_policy config \<and> nr_block_cap n = rg_block_cap config
    \<and> nr_membership_lease_watermarks n = rg_membership_lease_watermarks config"
proof -
  have "each (\<lambda>epoch. ensure (effective_consensus_parameters (ep_body epoch) = parameters)
      (ConsensusParametersMismatch (quorum_get (cp_quorum_size parameters))
        (quorum_get (cp_quorum_size (effective_consensus_parameters (ep_body epoch)))))) chain s = (Done (), s)" for s :: "'a LocalState"
    using assms(9) by (rule each_ensure)
  then show ?thesis
    using assms by (simp add: try_new_def Let_def action_simps seq_def open_trusted_log_def built_node_def local_state_new_def
        chain_tip_def last_opt_def)
qed

text \<open>C10: A snapshot that a node takes restarts it: unless the recovery of its signed service records fails, the configuration built from
  the snapshot is accepted and the new node has the chain, group, consensus parameters, trust and runtime mode, removal policy and block limit of the old one,
  and the lease watermarks that have not expired. The state of the epoch in progress, with the votes that the node has cast, is gone.\<close>

theorem snapshot_restarts:
  assumes taken: "snapshot N I n = (Done sn, n')" and "\<not> is_high_availability (nr_trust_mode n)"
    and self: "ni_public_key self_node = self_key n"
    and book: "restored_book (ne_crypto N) B now (epb_members (ep_body (last (lst_epochchain (nr_state n))))) sn = Ok book"
  shows "\<exists>config restarted. from_snapshot_with_quorum_override N B now sn self_node None = Ok config
    \<and> try_new N I' config = Done restarted
    \<and> lst_epochchain (nr_state restarted) = lst_epochchain (nr_state n) \<and> lst_consensus (nr_state restarted) = bm_empty
    \<and> nr_group_id restarted = nr_group_id n \<and> nr_consensus_parameters restarted = nr_consensus_parameters n
    \<and> nr_trust_mode restarted = nr_trust_mode n \<and> nr_mode restarted = nr_mode n
    \<and> nr_removal_policy restarted = nr_removal_policy n \<and> nr_block_cap restarted = nr_block_cap n
    \<and> nr_membership_lease_watermarks restarted = unexpired_watermarks now (nr_membership_lease_watermarks n')"
proof -
  have n': "n' = n\<lparr>nr_membership_lease_watermarks := unexpired_watermarks (io_now_unix_millis I) (nr_membership_lease_watermarks n)\<rparr>"
      and sn: "sn = runtime_snapshot (io_now_unix_millis I) n'" and valid: "snapshot_validate N sn = Ok ()"
    using taken by (auto simp: snapshot_def Done_simps)
  let ?chain = "lst_epochchain (nr_state n)" and ?parameters = "nr_consensus_parameters n"
  have fields: "sn_epochchain sn = ?chain" "sn_group_id sn = nr_group_id n" "sn_consensus_parameters sn = ?parameters"
      "sn_self_public_key sn = self_key n" "sn_trust_mode sn = nr_trust_mode n" "sn_mode sn = nr_mode n"
      "sn_removal_policy sn = nr_removal_policy n" "sn_block_cap sn = nr_block_cap n"
    by (simp_all add: sn n' runtime_snapshot_def Let_def self_key_def)
  have checks: "?chain \<noteq> []" "ConsensusParameters_validate ?parameters = Ok ()" "epb_group_id (ep_body (hd ?chain)) = nr_group_id n"
      "\<exists>t. try_fold (\<lambda>previous epoch. and_then (snapshot_epoch_check N sn previous epoch) (\<lambda>_. Ok (Some epoch))) None ?chain = Ok t"
    using valid by (auto simp: snapshot_validate_def fields validate_genesis_anchor_def Let_def split: if_splits)
  have parameters: "effective_consensus_parameters (ep_body epoch) = ?parameters" if "epoch \<in> set ?chain" for epoch
    using checks(4) snapshot_epochs_checked [of N sn None ?chain _ epoch] that fields(3) by auto
  have new: "ConsensusParameters_new (cp_quorum_size ?parameters) = ?parameters"
    using checks(2) by (simp add: ConsensusParameters_validate_def ConsensusParameters_new_def split: if_splits)
  have restored: "restored_watermarks now sn = unexpired_watermarks now (nr_membership_lease_watermarks n')"
    unfolding sn by (rule restored_unexpired)
  obtain config where config: "from_snapshot_with_quorum_override N B now sn self_node None = Ok config"
      "rg_genesis config = Some (hd ?chain)" "rg_epochchain config = Some ?chain" "rg_group_id config = nr_group_id n"
      "rg_quorum_size config = cp_quorum_size ?parameters" "rg_trust_mode config = nr_trust_mode n" "rg_mode config = nr_mode n"
      "rg_removal_policy config = nr_removal_policy n" "rg_block_cap config = nr_block_cap n" "rg_trusted_log config = None"
      "rg_membership_lease_watermarks config = unexpired_watermarks now (nr_membership_lease_watermarks n')"
    using valid self book restored by (simp add: from_snapshot_with_quorum_override_def validate_for_node_def fields Let_def)
  with try_new_restores [of config ?chain ?parameters N I'] show ?thesis
    using checks(1,2,3) assms(2) parameters new config(1) by auto
qed


section \<open>Lease watermarks\<close>

text \<open>The watermark of a challenge stays while it is alive.\<close>

definition watermarked :: "256 word \<Rightarrow> MembershipLeaseWatermark \<Rightarrow> 'm NodeRuntime \<Rightarrow> bool" where
  "watermarked challenge w n \<longleftrightarrow> bm_get (nr_membership_lease_watermarks n) challenge = Some w"

interpretation wm: progress "watermarked challenge w" "\<lambda>n n'. watermarked challenge w n \<longrightarrow> watermarked challenge w n'"
  for challenge :: "256 word" and w :: MembershipLeaseWatermark
  by unfold_locales auto

abbreviation lasting :: "256 word \<Rightarrow> MembershipLeaseWatermark \<Rightarrow> ('m, 'a) step \<Rightarrow> bool" where
  "lasting challenge w \<equiv> runs_in (watermarked challenge w) (\<lambda>n n'. watermarked challenge w n \<longrightarrow> watermarked challenge w n')"

named_theorems lasting_rules

lemma lasting_update [lasting_rules]:
  "(\<And>n. nr_membership_lease_watermarks (h n) = nr_membership_lease_watermarks n) \<Longrightarrow> lasting challenge w (update h)"
  by (rule wm.runs_update) (simp add: watermarked_def)

lemma lasting_within [lasting_rules]:
  "(\<And>s n. nr_membership_lease_watermarks (store s n) = nr_membership_lease_watermarks n) \<Longrightarrow> lasting challenge w (within part store m)"
  by (rule runs_inI) (auto simp: within_def watermarked_def split: prod.splits)

lemma lasting_on [lasting_rules]: "lasting challenge w (on_state m)" "lasting challenge w (on_blocks m')"
  unfolding on_state_def on_blocks_def by (rule lasting_within; simp)+

lemma lasting_on_log [lasting_rules]: "lasting challenge w (on_log f)"
  by (rule runs_inI) (auto simp: on_log_def watermarked_def split: option.splits prod.splits sum.splits)

lemma lasting_case_sum [lasting_rules]:
  "(\<And>e. lasting challenge w (g e)) \<Longrightarrow> (\<And>y. lasting challenge w (f y)) \<Longrightarrow> lasting challenge w (case x of Inl e \<Rightarrow> g e | Inr y \<Rightarrow> f y)"
  by (cases x) simp_all

lemma lasting_register_service [lasting_rules]: "lasting challenge w (register_service service)"
  by (rule runs_inI) (auto simp: register_service_def watermarked_def split: prod.splits)

lemma lasting_snapshot [lasting_rules]:
  assumes "io_now_unix_millis I < wm_expires_at_unix_millis w"
  shows "lasting challenge w (snapshot N I)"
proof -
  have "watermarked challenge w (n\<lparr>nr_membership_lease_watermarks :=
      unexpired_watermarks (io_now_unix_millis I) (nr_membership_lease_watermarks n)\<rparr>)" if "watermarked challenge w n" for n :: "'a NodeRuntime"
    using that assms by (simp add: watermarked_def unexpired_watermarks_def)
  then show ?thesis unfolding snapshot_def by (intro wm.runs_intros wm.runs_update) blast
qed

lemma lasting_vote [lasting_rules]:
  assumes "io_now_unix_millis I < wm_expires_at_unix_millis w"
  shows "lasting challenge w (vote_membership_lease N I request)"
proof -
  have "lasting challenge w (within nr_membership_lease_watermarks (\<lambda>m n. n\<lparr>nr_membership_lease_watermarks := m\<rparr>)
      (run_result (watermark_lease statement hash expires (io_now_unix_millis I))))" for statement hash expires
    using assms by (intro runs_inI) (auto simp: within_def run_result_def watermark_lease_def watermarked_def unexpired_watermarks_def Let_def
        split: prod.splits sum.splits option.splits if_splits)
  then show ?thesis unfolding vote_membership_lease_def by (intro wm.runs_intros)
qed

text \<open>Every request keeps the watermark while it is alive.\<close>

lemma lasting_operations1 [lasting_rules]:
  "lasting challenge w (accepted kind)" "lasting challenge w (check_signature N header key bs)"
  "lasting challenge w (known_sender N header)" "lasting challenge w (target_quorum N target round m)"
  "lasting challenge w (reconcile_pending N)" "lasting challenge w (hint_epoch_started sender target)"
  "lasting challenge w (buffer_future_round_message_if_needed N message)"
  "lasting challenge w (drain_buffered_current_round_messages N)" "lasting challenge w (round_consensus_services N round)"
  "lasting challenge w (current_consensus_round N)" "lasting challenge w (is_final_consensus_round N round)"
  "lasting challenge w (complete_prefill_broadcast target receipts)"
  "lasting challenge w (seed_prefill_dispatches_for_round N round)" "lasting challenge w (try_activate_prefill_round N)"
  "lasting challenge w (complete_epoch_started_broadcast epoch_started ks)"
  "lasting challenge w (record_epoch_started_broadcast_failures epoch_started failures)"
  unfolding accepted_def check_signature_def known_sender_def target_quorum_def reconcile_pending_def hint_epoch_started_def
    buffer_future_round_message_if_needed_def buffer_message_def drain_buffered_current_round_messages_def
    round_consensus_services_def current_consensus_round_def is_final_consensus_round_def complete_prefill_broadcast_def
    seed_prefill_dispatches_for_round_def try_activate_prefill_round_def complete_epoch_started_broadcast_def
    on_started_retry_def record_epoch_started_broadcast_failures_def Let_def
  by (rule lasting_rules wm.runs_intros | (simp; fail) | (simp split: option.splits sum.splits prod.splits; fail))+

lemma lasting_operations2 [lasting_rules]:
  "lasting challenge w (try_round_skip_assist N from_round to_round manifest)"
  "lasting challenge w (stage_node_admission N admission)" "lasting challenge w (stage_member_operation N operation)"
  "lasting challenge w (submit_transaction N C transaction)" "lasting challenge w (runtime_set_application_state bs)"
  "lasting challenge w (runtime_add_encounter_record N r)" "lasting challenge w (missing_signature_subjects N round phase)"
  unfolding try_round_skip_assist_def stage_node_admission_def stage_member_operation_def submit_transaction_def
    runtime_set_application_state_def runtime_add_encounter_record_def missing_signature_subjects_def Let_def
  by (rule lasting_rules wm.runs_intros | (simp; fail) | (simp split: option.splits sum.splits prod.splits; fail))+

lemma lasting_operations3 [lasting_rules]:
  assumes alive: "io_now_unix_millis I < wm_expires_at_unix_millis w"
  shows
    "lasting challenge w (persist_snapshot N I)" "lasting challenge w (publish_epoch_commit I)"
    "lasting challenge w (submit_block N I block)" "lasting challenge w (install_membership_lease N I certificate)"
    "lasting challenge w (republish_fresh_membership_relays I ms)"
  unfolding persist_snapshot_def publish_epoch_commit_def submit_block_def enqueue_submitted_def install_membership_lease_def
    republish_fresh_membership_relays_def Let_def
  by (rule lasting_rules wm.runs_intros alive | (simp; fail) | (simp split: option.splits sum.splits prod.splits; fail))+

lemma lasting_verify_message_envelope [lasting_rules]: "lasting challenge w (verify_message_envelope N message)"
  unfolding verify_message_envelope_def Let_def
  by (cases message) (simp, (rule lasting_rules wm.runs_intros)+)+

lemma lasting_operations4 [lasting_rules]:
  "lasting challenge w (receive_echo_request N echo)" "lasting challenge w (receive_echo_response N response)"
  "lasting challenge w (receive_round_skip_vote N skip_vote)"
  "lasting challenge w (receive_round_skip_certificate N skip_certificate)"
  "lasting challenge w (receive_reconcile_appraisal N appraisal)"
  "lasting challenge w (receive_reconcile_request N reconcile_request)"
  "lasting challenge w (receive_trusted_acknowledgement N acknowledgement)"
  "lasting challenge w (receive_epoch_started N epoch_started)" "lasting challenge w (schedule_dispatch_retry N round hash)"
  "lasting challenge w (schedule_trusted_acknowledgement_retry N round hash)"
  "lasting challenge w (schedule_verification_retry N round hash)"
  "lasting challenge w (schedule_trusted_confirmation_retry N round hash)"
  "lasting challenge w (schedule_proposal_retry N round signature)"
  "lasting challenge w (try_produce_trusted_acknowledgement N round)"
  "lasting challenge w (produce_verified_verification N target round)" "lasting challenge w (try_produce_proposal N round)"
  unfolding receive_echo_request_def receive_echo_response_def receive_round_skip_vote_def receive_round_skip_certificate_def
    receive_reconcile_appraisal_def receive_reconcile_request_def receive_trusted_acknowledgement_def
    receive_epoch_started_def schedule_dispatch_retry_def schedule_trusted_acknowledgement_retry_def
    schedule_verification_retry_def schedule_trusted_confirmation_retry_def schedule_proposal_retry_def
    try_produce_trusted_acknowledgement_def produce_verified_verification_def try_produce_proposal_def Let_def
  by (rule lasting_rules wm.runs_intros | (simp; fail) | (simp split: option.splits sum.splits prod.splits; fail))+

lemma lasting_operations5 [lasting_rules]:
  "lasting challenge w (cast_commit N round)" "lasting challenge w (retry_final_commit N round)"
  "lasting challenge w (try_produce_epoch_started N)" "lasting challenge w (recovery_wait_assessment N round)"
  "lasting challenge w (stage_reconnect_admission N evidence)"
  "lasting challenge w (record_encounter N subject round phase result evidence_hash observed)"
  unfolding cast_commit_def retry_final_commit_def try_produce_epoch_started_def recovery_wait_assessment_def
    stage_reconnect_admission_def record_encounter_def Let_def
  by (rule lasting_rules wm.runs_intros | (simp; fail) | (simp split: option.splits sum.splits prod.splits; fail))+

lemma lasting_operations6 [lasting_rules]:
  assumes alive: "io_now_unix_millis I < wm_expires_at_unix_millis w"
  shows
    "lasting challenge w (after_extension N I extended)" "lasting challenge w (runtime_receive_dispatch N I dispatch)"
    "lasting challenge w (receive_prefill_dispatch N I dispatch)" "lasting challenge w (receive_hot_dispatch N I hot)"
    "lasting challenge w (receive_echo_redispatch N I redispatch)"
    "lasting challenge w (receive_reconcile_response N I reconcile_response)"
    "lasting challenge w (install_confirmed N I epoch)" "lasting challenge w (dispatch_local_block_locked N I round target)"
    "lasting challenge w (produce_trusted_verification N I target round)" "lasting challenge w (finish_catch_up N I)"
    "lasting challenge w (catch_up_trusted_epoch_range N I chain)"
    "lasting challenge w (repair_manifest_blocks N I manifest blocks)"
    "lasting challenge w (respond_to_echo_request N I echo)"
    "lasting challenge w (register_signed_service N C I signed_record)"
  unfolding after_extension_def runtime_receive_dispatch_def receive_prefill_dispatch_def receive_hot_dispatch_def
    receive_echo_redispatch_def receive_reconcile_response_def install_confirmed_def dispatch_local_block_locked_def
    seal_local_dispatch_def carried_blocks_def produce_trusted_verification_def finish_catch_up_def
    prune_epoch_started_hints_def catch_up_trusted_epoch_range_def repair_manifest_blocks_def respond_to_echo_request_def
    register_signed_service_def Let_def
  by (rule lasting_rules wm.runs_intros alive | (simp; fail) | (simp split: option.splits sum.splits prod.splits; fail))+

lemma lasting_operations7 [lasting_rules]:
  "lasting challenge w (try_produce_false_proposal N round)"
  "lasting challenge w (record_missing_signatures N round phase observed)"
  unfolding try_produce_false_proposal_def record_missing_signatures_def Let_def
  by (rule lasting_rules wm.runs_intros | (simp; fail) | (simp split: option.splits sum.splits prod.splits; fail))+

lemma lasting_operations8 [lasting_rules]:
  assumes alive: "io_now_unix_millis I < wm_expires_at_unix_millis w"
  shows
    "lasting challenge w (receive_reconcile_commit N I reconcile_commit)"
    "lasting challenge w (complete_trusted_verification N I round hash)"
    "lasting challenge w (receive_proposal N I proposal)" "lasting challenge w (receive_commit N I commit)"
    "lasting challenge w (dispatch_local_block N I round)"
    "lasting challenge w (try_produce_dispatch_for_target N I round required)"
    "lasting challenge w (try_produce_verification N I round)" "lasting challenge w (try_produce_commit N I round)"
    "lasting challenge w (catch_up_certified_suffix N I suffix)"
    "lasting challenge w (catch_up_from_epoch_started N I chain)"
  unfolding receive_reconcile_commit_def complete_trusted_verification_def receive_proposal_def receive_commit_def
    dispatch_local_block_def try_produce_dispatch_for_target_def try_produce_verification_def try_produce_commit_def
    catch_up_certified_suffix_def catch_up_from_epoch_started_def Let_def
  by (rule lasting_rules wm.runs_intros alive | (simp; fail) | (simp split: option.splits sum.splits prod.splits; fail))+

lemma lasting_operations9 [lasting_rules]:
  assumes alive: "io_now_unix_millis I < wm_expires_at_unix_millis w"
  shows
    "lasting challenge w (try_reconcile_commit N I reconcile_commit)"
    "lasting challenge w (try_complete_trusted_verification N I round)" "lasting challenge w (prepare_prefill_dispatch N I)"
  unfolding try_reconcile_commit_def try_complete_trusted_verification_def prepare_prefill_dispatch_def Let_def
  by (rule lasting_rules wm.runs_intros alive | (simp; fail) | (simp split: option.splits sum.splits prod.splits; fail))+

lemma lasting_operations10 [lasting_rules]:
  assumes alive: "io_now_unix_millis I < wm_expires_at_unix_millis w"
  shows
    "lasting challenge w (receive_verification N I verification)" "lasting challenge w (try_broadcast_prefill_dispatch N I)"
  unfolding receive_verification_def try_broadcast_prefill_dispatch_def Let_def
  by (rule lasting_rules wm.runs_intros alive | (simp; fail) | (simp split: option.splits sum.splits prod.splits; fail))+

lemma lasting_receive_message [lasting_rules]:
  assumes alive: "io_now_unix_millis I < wm_expires_at_unix_millis w"
  shows "lasting challenge w (receive_message N I message)"
  unfolding receive_message_def
  by (cases message) (simp, (rule lasting_rules wm.runs_intros alive)+)+

lemma lasting_request:
  assumes alive: "io_now_unix_millis I < wm_expires_at_unix_millis w"
  shows "lasting challenge w (run_request N B I request)"
  by (cases request) (simp, (rule lasting_rules wm.runs_intros alive)+)+

lemma run_requests_lasting:
  "\<forall>(I, request)\<in>set requests. io_now_unix_millis I < wm_expires_at_unix_millis w \<Longrightarrow> watermarked challenge w n
    \<Longrightarrow> watermarked challenge w (run_requests N B requests n)"
proof (induction N B requests n rule: run_requests.induct)
  case (2 N B I request rest n)
  then have "lasting challenge w (run_request N B I request)" by (intro lasting_request) simp
  then have "watermarked challenge w (snd (run_request N B I request n))" using 2(3) by (auto simp: runs_in_def)
  then show ?case using 2 by simp
qed simp

text \<open>What a vote leaves: the watermark of its challenge holds the hash of the statement that it signs.\<close>

lemma vote_watermark:
  assumes "vote_membership_lease N I request n = (Done vote, n')"
  shows "\<exists>encoded w. borsh_lease (ne_codec N) (lv_statement vote) = Some encoded
    \<and> watermarked (lr_challenge request) w n' \<and> wm_statement_hash w = sha256 (ne_crypto N) encoded
    \<and> (\<forall>w'. watermarked (lr_challenge request) w' n \<and> io_now_unix_millis I < wm_expires_at_unix_millis w' \<longrightarrow> w = w')"
proof -
  obtain statement encoded expires m u where statement: "membership_lease_statement N I request n = Ok statement"
      and encoded: "borsh_lease (ne_codec N) statement = Some encoded" and n': "n' = n\<lparr>nr_membership_lease_watermarks := m\<rparr>"
      and mark: "run_result (watermark_lease statement (sha256 (ne_crypto N) encoded) expires (io_now_unix_millis I))
        (nr_membership_lease_watermarks n) = (Done u, m)" and vote: "\<exists>signer. lease_vote_signed (ne_crypto N) (ne_codec N) statement signer = Ok vote"
    using assms unfolding vote_membership_lease_def by (simp only: Done_simps) blast
  have challenge: "ls_challenge statement = lr_challenge request" and signed: "lv_statement vote = statement"
    using statement vote by (auto simp: membership_lease_statement_def lease_vote_signed_def Let_def split: if_splits)
  have "watermark_lease statement (sha256 (ne_crypto N) encoded) expires (io_now_unix_millis I) (nr_membership_lease_watermarks n) = (Ok (), m)"
    using mark by (auto simp: run_result_def split: prod.splits sum.splits)
  then have "\<exists>w. bm_get m (lr_challenge request) = Some w \<and> wm_statement_hash w = sha256 (ne_crypto N) encoded
      \<and> (\<forall>w'. watermarked (lr_challenge request) w' n \<and> io_now_unix_millis I < wm_expires_at_unix_millis w' \<longrightarrow> w = w')"
    by (auto simp: watermark_lease_def challenge watermarked_def unexpired_watermarks_def Let_def split: option.splits if_splits)
  then show ?thesis using encoded signed by (simp add: n' watermarked_def)
qed

text \<open>C9: A node signs at most one lease statement per challenge while the watermark of the first is alive: whatever requests it handles in between, and
  whatever it is asked then, the statement of a second vote for the challenge has the same hash as the first.\<close>

theorem one_lease_per_challenge:
  assumes "vote_membership_lease N I request n = (Done vote, n1)"
    and "bm_get (nr_membership_lease_watermarks n1) (lr_challenge request) = Some w"
    and "\<forall>(J, r)\<in>set requests. io_now_unix_millis J < wm_expires_at_unix_millis w"
    and "vote_membership_lease N I' request' (run_requests N B requests n1) = (Done vote', n2)"
    and "lr_challenge request' = lr_challenge request" "io_now_unix_millis I' < wm_expires_at_unix_millis w"
  shows "\<exists>encoded encoded'. borsh_lease (ne_codec N) (lv_statement vote) = Some encoded
    \<and> borsh_lease (ne_codec N) (lv_statement vote') = Some encoded' \<and> sha256 (ne_crypto N) encoded = sha256 (ne_crypto N) encoded'"
proof -
  have "watermarked (lr_challenge request') w (run_requests N B requests n1)"
    using run_requests_lasting [OF assms(3)] assms(2,5) by (simp add: watermarked_def)
  then obtain encoded' w' where "borsh_lease (ne_codec N) (lv_statement vote') = Some encoded'"
      "wm_statement_hash w' = sha256 (ne_crypto N) encoded'" "w' = w"
    using vote_watermark [OF assms(4)] assms(6) by blast
  moreover obtain encoded where "borsh_lease (ne_codec N) (lv_statement vote) = Some encoded"
      "wm_statement_hash w = sha256 (ne_crypto N) encoded"
    using vote_watermark [OF assms(1)] assms(2) by (auto simp: watermarked_def)
  ultimately show ?thesis by auto
qed

end
