(* ===== verification/VerifiedExample.thy ===== *)
theory VerifiedExample
  imports Restart
begin

text \<open>
  A group of one validator that commits an epoch: the hypotheses of the agreement theorem hold on it. The hash counts
  bytes, which separates the genesis epoch from its successor; the ordered map of the verifiers is a B-tree.
\<close>

definition solo_env :: "((PubKey, NodeIdentity) btree_map, (PubKey, unit) btree_map) node_env" where
  "solo_env = \<lparr>ne_crypto = sample_crypto\<lparr>sha256 := \<lambda>bs. HashType (of_nat (length bs))\<rparr>,
    ne_tree = btree_index_tree, ne_key_tree = btree_index_tree,
    ne_codec = \<lparr>borsh_operation = (\<lambda>_. None), borsh_operation_from_slice = (\<lambda>_. None), borsh_member_set = (\<lambda>_. None),
      borsh_lease = (\<lambda>_. None)\<rparr>,
    ne_member_bytes = (\<lambda>_. []), ne_merkle = (\<lambda>_. None),
    ne_skip_codec = \<lparr>borsh_skip_vote = (\<lambda>_. None), borsh_skip_certificate = (\<lambda>_. None)\<rparr>,
    ne_wire_limit = 0, ne_max_pending_raw = 0, ne_max_pending_raw_per_sender = 0\<rparr>"

definition solo_io :: io where
  "solo_io = \<lparr>io_now_unix_millis = 0, io_instant = 0, io_created = 0, io_put_block = (\<lambda>_. Ok ()),
    io_block_by_hash = (\<lambda>_. Ok None), io_snapshot = Ok (), io_log = Ok ()\<rparr>"

definition solo_codecs :: codecs where
  "solo_codecs = \<lparr>co_service = (\<lambda>_. None), co_transaction = (\<lambda>_. None)\<rparr>"

definition solo_identity :: NodeIdentity where
  "solo_identity = \<lparr>ni_public_key = PubKey 1, ni_secret_key = None, ni_protocol = [], ni_host = [], ni_port = 0, ni_shuffle = False\<rparr>"

definition solo_genesis :: "(PubKey, NodeIdentity) btree_map Epoch" where
  "solo_genesis = genesis_epoch solo_env [solo_identity]"

text \<open>The round is at the point where the proposal of the only validator is recorded.\<close>

definition solo_proposal :: Proposal where
  "solo_proposal = \<lparr>pr_header = \<lparr>hd_sender = PubKey 1, hd_last_epoch = ep_hash solo_genesis, hd_nonce = 1, hd_round = 0,
      hd_signature = Signature 1\<rparr>,
    pr_body = \<lparr>pb_consensus = True, pb_approved_blocks = Some bm_empty, pb_approved_hash = Some default_hash, pb_verif = None,
      pb_signature_tree = None, pb_signature_tree_hash = None\<rparr>\<rparr>"

definition solo_quorum :: TempQuorum where
  "solo_quorum = (init_quorum 1 [PubKey 1] (PubKey 1))\<lparr>tq_proposals := prop_record (init_proposals 1) solo_proposal\<rparr>"

definition solo_consensus :: TempConsensus where
  "solo_consensus = put_quorum 0 solo_quorum (init_consensus [bm_insert (PubKey 1) Validator bm_empty] (PubKey 1))"

definition solo_node :: "(PubKey, NodeIdentity) btree_map NodeRuntime" where
  "solo_node = \<lparr>nr_group_id = group_root,
    nr_state = put_consensus (ep_hash solo_genesis, 1) solo_consensus (local_state_new solo_identity solo_genesis removal_policy_default),
    nr_future_round_messages = bm_empty, nr_epoch_started_hints = bm_empty, nr_epoch_started_retry = None,
    nr_prefill_dispatch_retry = None, nr_local_blocks = local_block_new 0 100, nr_accepted_local_blocks = bm_empty,
    nr_address_book = book_new, nr_signer = Some (SecKey 1), nr_trust_mode = Verified, nr_mode = ConsensusMode,
    nr_block_cap = 100, nr_consensus_parameters = ConsensusParameters_default, nr_removal_policy = removal_policy_default,
    nr_snapshot_path = False, nr_trusted_epoch_log = None, nr_epoch_commit = 0,
    nr_verified_membership = initial_view solo_io group_root solo_genesis, nr_membership_lease_watermarks = bm_empty\<rparr>"

definition solo_epoch :: "(PubKey, NodeIdentity) btree_map Epoch" where
  "solo_epoch = set_hash solo_env (build_verified_epoch solo_env solo_genesis bm_empty removal_policy_default)"

lemma solo_env_sel [simp]:
  "ne_tree solo_env = btree_index_tree" "sha256 (ne_crypto solo_env) bs = HashType (of_nat (length bs))"
  "ne_member_bytes solo_env m = []" "ne_merkle solo_env hs = None" "ed_sign (ne_crypto solo_env) (SecKey w) bs = Signature (ucast w)"
  "signature_verify (ne_crypto solo_env) (Signature v) bs (PubKey w) = Ok () \<longleftrightarrow> v = ucast w"
  by (simp_all add: solo_env_def signature_verify_Ok)

lemma solo_genesis_body:
  "epb_verifiers (ep_body solo_genesis) = bm_insert (PubKey 1) solo_identity bm_empty"
  "epb_nonce (ep_body solo_genesis) = 0" "epb_previous_nonce (ep_body solo_genesis) = None"
  "epb_last_epoch (ep_body solo_genesis) = default_hash" "epb_blocks (ep_body solo_genesis) = bm_empty"
  "epb_group_id (ep_body solo_genesis) = group_root"
  by (simp_all add: solo_genesis_def genesis_epoch_def genesis_epoch_for_group_with_parameters_def set_hash_def Let_def
      btree_index_tree_def solo_identity_def public_only_def)

lemma solo_genesis_hash: "ep_hash solo_genesis = HashType 207"
  by (simp add: solo_genesis_def genesis_epoch_def genesis_epoch_for_group_with_parameters_def set_hash_def epoch_body_hash_def
      epoch_to_bytes_def EPOCH_MEMBERS_DOMAIN_def EPOCH_PARAMETERS_DOMAIN_def ConsensusParameters_default_def it_keys_def Let_def
      btree_index_tree_def solo_identity_def public_only_def bm_keys_def eval_simps)


lemma solo_members: "epb_members (ep_body solo_genesis) = bm_insert (PubKey 1) (bootstrap_member solo_identity) bm_empty"
  by (simp add: solo_genesis_def genesis_epoch_def genesis_epoch_for_group_with_parameters_def set_hash_def Let_def from_verifiers_def
      btree_index_tree_def it_values_def bm_of_list_def solo_identity_def public_only_def bootstrap_member_def mr_public_key_def eval_simps)

lemma solo_transition:
  "fst (apply_epoch_membership_transition E btree_index_tree (bm_insert (PubKey 1) solo_identity bm_empty) bm_empty h nonce
    removal_policy_default) = bm_insert (PubKey 1) solo_identity bm_empty"
  by (simp add: apply_epoch_membership_transition_def derive_consensus_node_removal_plan_def removal_policy_default_def
      apply_consensus_node_removal_plan_def apply_consensus_node_admission_plan_def derive_consensus_node_admission_plan_def
      admission_evidence_of_def bm_values_def Let_def)

lemma solo_capability: "bm_get (bs_of_list [CapRelay, CapValidator]) CapValidator = Some ()"
  by (simp add: bs_of_list_def)

lemma solo_sync:
  "sync_legacy_validators btree_index_tree (bm_insert (PubKey 1) solo_identity bm_empty)
      (bm_insert (PubKey 1) (bootstrap_member solo_identity) bm_empty)
    = bm_insert (PubKey 1) (bootstrap_member solo_identity) bm_empty"
  by (rule bm_eqI) (auto simp: sync_legacy_validators_def sync_verifier_def suspend_missing_def it_values_def bootstrap_member_def
      solo_identity_def public_only_def bm_values_def eval_simps bm_insert_same [OF solo_capability] mr_public_key_def fun_eq_iff)

lemma solo_active: "active_validators btree_index_tree (bm_insert (PubKey 1) (bootstrap_member solo_identity) bm_empty)
    = bm_insert (PubKey 1) solo_identity bm_empty"
  by (simp add: active_validators_def active_with_def is_active_with_def bm_values_def eval_simps bootstrap_member_def mr_public_key_def
      solo_identity_def public_only_def bm_contains_def solo_capability)

lemma solo_next_members:
  "next_members solo_env solo_genesis bm_empty removal_policy_default
    = (bm_insert (PubKey 1) (bootstrap_member solo_identity) bm_empty, bm_insert (PubKey 1) solo_identity bm_empty)"
  using solo_transition [of "ne_crypto solo_env" "ep_hash solo_genesis" "new_next 0"] solo_sync solo_active
  by (simp add: next_members_def solo_genesis_body solo_members apply_epoch_member_registry_transition_def
      apply_committed_member_operations_def bm_values_def Let_def bm_is_empty_def eval_simps it_len_def case_prod_beta)

lemma solo_epoch_body:
  "epb_members (ep_body solo_epoch) = epb_members (ep_body solo_genesis)"
  "epb_verifiers (ep_body solo_epoch) = bm_insert (PubKey 1) solo_identity bm_empty"
  by (simp_all add: solo_epoch_def set_hash_def build_verified_epoch_def solo_next_members solo_members)

lemma solo_epoch_hash: "ep_hash solo_epoch = HashType 246"
proof -
  have "epoch_to_bytes solo_env (ep_body solo_epoch) = hash_as_ref (group_hash group_root) @ EPOCH_MEMBERS_DOMAIN
    @ hash_as_ref (ep_hash solo_genesis) @ (EPOCH_PREVIOUS_NONCE_DOMAIN @ u64_to_le_bytes 0) @ u64_to_le_bytes (new_next 0)
    @ hash_as_ref (block_merkle_root solo_env bm_empty) @ concat (map pubkey_as_ref [PubKey 1]) @ []
    @ (EPOCH_PARAMETERS_DOMAIN @ u16_to_le_bytes (cp_version (effective_consensus_parameters (ep_body solo_genesis)))
      @ u64_to_le_bytes (u64_of_usize (quorum_get (cp_quorum_size (effective_consensus_parameters (ep_body solo_genesis))))))"
    using solo_epoch_body unfolding epoch_to_bytes_def solo_epoch_def
    by (simp add: set_hash_def build_verified_epoch_fields solo_genesis_body bm_keys_def it_keys_def eval_simps btree_index_tree_def)
  then have "length (epoch_to_bytes solo_env (ep_body solo_epoch)) = 246"
    by (simp add: EPOCH_MEMBERS_DOMAIN_def EPOCH_PARAMETERS_DOMAIN_def EPOCH_PREVIOUS_NONCE_DOMAIN_def)
  then show ?thesis by (simp add: solo_epoch_def set_hash_def epoch_body_hash_def)
qed

lemma solo_state:
  "lst_epochchain (nr_state solo_node) = [solo_genesis]"
  "lst_self_node (nr_state solo_node) = solo_identity" "lst_removal_policy (nr_state solo_node) = removal_policy_default"
  "bm_get (lst_consensus (nr_state solo_node)) key = (if key = (HashType 207, 1) then Some solo_consensus else None)"
  by (simp_all add: solo_node_def put_consensus_def local_state_new_def solo_genesis_hash)

lemma solo_consensus_sel:
  "bm_get (tc_quorum solo_consensus) round = (if round = 0 then Some solo_quorum else None)"
  "tc_peers solo_consensus = [bm_insert (PubKey 1) Validator bm_empty]"
  by (simp_all add: solo_consensus_def put_quorum_def init_consensus_def)

lemma solo_proposals: "prop_consensus (tq_proposals solo_quorum) = Some True"
  by (simp add: solo_quorum_def prop_consensus_def prop_record_def init_proposals_def solo_proposal_def Let_def bm_len_def bm_values_def
      eval_simps u32_of_usize_def supermajority_count_def)

lemma solo_blocks: "canonical_verified_blocks solo_quorum = bm_empty"
  by (rule bm_eqI) (simp add: canonical_verified_blocks_def solo_quorum_def init_quorum_def equivocators_def)

lemma solo_prepared: "prepare_verified_epoch solo_env (HashType 207) 1 0 (nr_state solo_node) = Ok (Some solo_epoch)"
  by (simp add: prepare_verified_epoch_def at_target_def chain_tip_def last_opt_def get_consensus_def solo_state solo_consensus_sel
      solo_genesis_hash solo_genesis_body solo_blocks solo_epoch_def new_next_def)

definition solo_commit :: Commit where
  "solo_commit = \<lparr>cm_header = \<lparr>hd_sender = PubKey 1, hd_last_epoch = HashType 207, hd_nonce = 1, hd_round = 0, hd_signature = Signature 1\<rparr>,
    cm_body = \<lparr>cb_consensus = True, cb_signature_tree_insert = None, cb_epoch_hash = Some (HashType 246),
      cb_epoch_signature = Some (Signature 1)\<rparr>\<rparr>"


lemma solo_guards:
  "ensure_consensus_mode solo_node = Ok ()" "trusted solo_node = False"
  "next_epoch_target solo_node = Ok \<lparr>tg_group_id = group_root, tg_last_epoch = HashType 207, tg_nonce = 1\<rparr>"
  "self_key solo_node = PubKey 1" "nr_signer solo_node = Some (SecKey 1)"
  by (simp_all add: ensure_consensus_mode_def trusted_def is_trusted_def next_epoch_target_def node_tip_def chain_tip_def last_opt_def
      solo_state solo_genesis_hash solo_genesis_body new_next_def self_key_def)
    (simp_all add: solo_node_def solo_identity_def)

lemma solo_get: "get_quorum (HashType 207) 1 0 (nr_state solo_node) = Some solo_quorum"
    "get_consensus (HashType 207) 1 (nr_state solo_node) = Some solo_consensus"
  by (simp_all add: get_quorum_def get_consensus_def solo_state solo_consensus_sel)

lemma solo_senders: "bm_get (tq_commit_senders solo_quorum) k = None" "tq_local_commit solo_quorum = None"
    "tq_epoch_signatures solo_quorum = bm_empty" "tq_commit_true_senders solo_quorum = bm_empty"
  by (simp_all add: solo_quorum_def init_quorum_def)

lemma solo_body: "commit_body solo_env \<lparr>tg_group_id = group_root, tg_last_epoch = HashType 207, tg_nonce = 1\<rparr> 0 solo_node
    = Ok (Some (cm_body solo_commit))"
  by (simp add: commit_body_def solo_get solo_senders bm_contains_def solo_proposals solo_prepared solo_epoch_hash share_signature_def
      solo_guards solo_commit_def)

lemma solo_header:
  "signed_header_for_body solo_env \<lparr>tg_group_id = group_root, tg_last_epoch = HashType 207, tg_nonce = 1\<rparr> 0 KeyCommit bs solo_node
    = Ok (cm_header solo_commit)"
  by (simp add: signed_header_for_body_def sign_body_def solo_guards solo_commit_def)

lemma solo_share: "validate_commit_epoch_share solo_env solo_commit (nr_state solo_node) = Ok ()"
  by (simp add: validate_commit_epoch_share_def solo_commit_def solo_prepared solo_epoch_hash)

lemma solo_validators:
  "bm_len (bm_insert (PubKey 1) solo_identity bm_empty) = 1" "bm_keys (bm_insert (PubKey 1) solo_identity bm_empty) = [PubKey 1]"
  by (simp_all add: bm_len_def bm_keys_def eval_simps)

lemma solo_message: "\<lparr>cm_header = cm_header solo_commit, cm_body = cm_body solo_commit\<rparr> = solo_commit"
  by simp

lemma solo_threshold: "on_state (commit_sender_and_threshold solo_env (cm_header solo_commit)) solo_node = (Done (True, Suc 0), solo_node)"
proof -
  have "chain_tip (nr_state solo_node) = Some solo_genesis" by (simp add: chain_tip_def last_opt_def solo_state)
  then have "on_state (commit_sender_and_threshold solo_env (cm_header solo_commit)) solo_node =
      on_state (on_consensus solo_env (HashType 207) 1 (asks (\<lambda>c.
        if checked_sub (length (tc_peers c)) 1 = Some 0 then (True, 1)
        else let round_peers = peers_with_us c 0 in (PubKey 1 \<in> set round_peers, supermajority_count (length round_peers))))) solo_node"
    by (simp add: commit_sender_and_threshold_def on_state_def within_def seq_def action_simps Let_def solo_commit_def solo_genesis_hash
        solo_genesis_body new_next_def solo_validators supermajority_count_def cong: if_cong)
  then show ?thesis by (simp add: asks_known_consensus [OF solo_get(2)] solo_consensus_sel checked_sub_def)
qed

lemma solo_cast:
  "cast_commit solo_env 0 solo_node = (Done (Some solo_commit), cast_vote solo_commit (Suc 0) solo_consensus solo_node)"
proof -
  have "own_commit_allowed solo_commit (Some solo_quorum) = Ok True"
    by (simp add: own_commit_allowed_def solo_commit_def bm_contains_def solo_senders solo_proposals)
  moreover have "target_quorum solo_env \<lparr>tg_group_id = group_root, tg_last_epoch = HashType 207, tg_nonce = 1\<rparr> 0
      (update (record_own_commit solo_commit (Suc 0))) solo_node = (Done (), cast_vote solo_commit (Suc 0) solo_consensus solo_node)"
    using update_known_quorum [of "\<lparr>tg_group_id = group_root, tg_last_epoch = HashType 207, tg_nonce = 1\<rparr>" solo_node solo_consensus] solo_get(2)
    by (simp add: cast_vote_def solo_commit_def)
  ultimately show ?thesis
    by (simp add: cast_commit_def seq_def asks_def asks_result_def lift_result_def ensure_def ret_def solo_guards solo_body solo_header
        solo_threshold solo_get solo_share solo_message Let_def)
qed

definition solo_certified :: "(PubKey, NodeIdentity) btree_map Epoch" where
  "solo_certified = solo_epoch\<lparr>ep_signatures := bm_insert 0 (Signature 1) bm_empty\<rparr>"

definition solo_voted :: TempConsensus where
  "solo_voted = put_quorum 0 (record_own_commit solo_commit (Suc 0) solo_quorum) solo_consensus"

lemma solo_voted_node:
  "nr_state (cast_vote solo_commit (Suc 0) solo_consensus solo_node) = put_consensus (HashType 207, 1) solo_voted (nr_state solo_node)"
  by (simp add: cast_vote_def with_quorum_def solo_commit_def solo_voted_def touch_quorum_def bm_contains_def solo_consensus_sel Let_def)

lemma solo_voted_quorum:
  "bm_get (tc_quorum solo_voted) 0 = Some (record_own_commit solo_commit (Suc 0) solo_quorum)"
  "tc_peers solo_voted = [bm_insert (PubKey 1) Validator bm_empty]"
  by (simp_all add: solo_voted_def put_quorum_def solo_consensus_sel)

lemma solo_record:
  "tq_commit_sent (record_own_commit solo_commit (Suc 0) solo_quorum)"
  "tq_epoch_signatures (record_own_commit solo_commit (Suc 0) solo_quorum) = bm_insert (PubKey 1) (Signature 1) bm_empty"
  "canonical_verified_blocks (record_own_commit solo_commit (Suc 0) solo_quorum) = bm_empty"
proof -
  show "tq_commit_sent (record_own_commit solo_commit (Suc 0) solo_quorum)"
    "tq_epoch_signatures (record_own_commit solo_commit (Suc 0) solo_quorum) = bm_insert (PubKey 1) (Signature 1) bm_empty"
    by (simp_all add: record_own_commit_def record_commit_vote_def solo_commit_def Let_def solo_senders bm_len_def eval_simps)
  have "canonical_verified_blocks (record_own_commit solo_commit (Suc 0) solo_quorum) = canonical_verified_blocks solo_quorum"
    by (simp add: canonical_verified_blocks_def equivocators_def record_own_commit_def record_commit_vote_def solo_commit_def Let_def)
  then show "canonical_verified_blocks (record_own_commit solo_commit (Suc 0) solo_quorum) = bm_empty" by (simp add: solo_blocks)
qed

lemma solo_certificate: "verify_certificate solo_env solo_certified solo_genesis = Ok ()"
  by (simp add: verify_certificate_def certificate_check_def solo_genesis_body solo_certified_def solo_validators supermajority_count_def
      bm_len_def eval_simps certificate_signature_def slice_get_def)

lemma solo_commits:
  assumes "lst_removal_policy s = removal_policy_default"
  shows "commit_epoch solo_env solo_genesis solo_voted 0 True s = (Done True, push_epoch solo_certified s)"
proof -
  have "certificate_shares solo_env solo_genesis (record_own_commit solo_commit (Suc 0) solo_quorum) = bm_insert 0 (Signature 1) bm_empty"
    by (simp add: certificate_shares_def solo_record solo_genesis_body solo_validators eval_simps)
  then show ?thesis
    using solo_certificate assms solo_record(3)
    by (simp add: commit_epoch_def solo_voted_quorum action_simps Let_def solo_certified_def solo_epoch_def is_ok_def)
qed

lemma solo_advance:
  assumes "s = put_consensus (HashType 207, 1) solo_voted (nr_state solo_node)"
  shows "advance_if_committed solo_env (cm_header solo_commit) s = (Done True, push_epoch solo_certified s)"
proof -
  have get: "get_consensus (HashType 207) 1 s = Some solo_voted" and tip: "chain_tip s = Some solo_genesis"
    and policy: "lst_removal_policy s = removal_policy_default"
    by (simp_all add: assms get_consensus_def put_consensus_def chain_tip_def last_opt_def solo_state)
  have same: "put_consensus (HashType 207, 1) solo_voted s = s" by (rule put_consensus_same [OF get])
  have touched: "touch_quorum 0 solo_voted = solo_voted" by (simp add: touch_quorum_def bm_contains_def solo_voted_quorum)
  have put: "put_quorum 0 (record_own_commit solo_commit (Suc 0) solo_quorum) solo_voted = solo_voted"
    by (simp add: put_quorum_def bm_insert_same [OF solo_voted_quorum(1)])
  have "on_quorum solo_env (HashType 207) 1 0 (asks tq_commit_sent) s = (Done True, s)"
    using get same by (simp add: on_quorum_def on_consensus_def touch_consensus_def bm_contains_def get_consensus_def within_def seq_def
        action_simps touched solo_voted_quorum put solo_record)
  moreover have "advance_epoch solo_env (HashType 207) 1 0 True s = (Done True, push_epoch solo_certified s)"
    using get tip same solo_commits [OF policy]
    by (simp add: advance_epoch_def action_simps solo_genesis_hash solo_genesis_body new_next_def solo_voted_quorum Let_def)
  ultimately show ?thesis
    by (simp add: advance_if_committed_def header_quorum_def solo_commit_def seq_def action_simps push_epoch_def)
qed

lemma solo_no_snapshot: "nr_snapshot_path (cast_vote solo_commit (Suc 0) solo_consensus solo_node) = False"
  by (simp add: cast_vote_def with_quorum_def solo_node_def Let_def)

lemma solo_run:
  "try_produce_commit solo_env solo_io 0 solo_node = (r, n') \<Longrightarrow>
    lst_epochchain (nr_state n') = [solo_genesis, solo_certified]"
  using solo_advance [OF solo_voted_node]
  by (auto simp: try_produce_commit_def seq_def [of "cast_commit solo_env 0"] solo_cast on_state_def within_def seq_def
      after_extension_def persist_snapshot_def publish_epoch_commit_def node_tip_def action_simps push_epoch_def solo_no_snapshot
      solo_voted_node put_consensus_def solo_state chain_tip_def last_opt_def)

text \<open>A second member, which is no validator, catches up with the committed epoch.\<close>

definition observer_node :: "(PubKey, NodeIdentity) btree_map NodeRuntime" where
  "observer_node = solo_node\<lparr>nr_state := local_state_new (solo_identity\<lparr>ni_public_key := PubKey 2\<rparr>) solo_genesis removal_policy_default,
    nr_signer := None\<rparr>"

definition solo_suffix :: "(PubKey, NodeIdentity) btree_map CertifiedEpochSuffix" where
  "solo_suffix = \<lparr>cs_version = 1, cs_group_id = group_root, cs_anchor_hash = HashType 207, cs_anchor_nonce = 0,
    cs_epochs = [solo_certified]\<rparr>"

lemma solo_extension: "validate_certified_extension solo_env solo_genesis solo_certified removal_policy_default = Ok ()"
proof -
  have body: "ep_body solo_certified = ep_body (build_verified_epoch solo_env solo_genesis bm_empty removal_policy_default)"
    by (simp add: solo_certified_def solo_epoch_def set_hash_def)
  moreover have "ep_hash solo_certified = epoch_body_hash solo_env (ep_body solo_certified)"
    by (simp add: solo_certified_def solo_epoch_def set_hash_def)
  moreover have "verifier_sets_equal btree_index_tree m m" for m :: "(PubKey, NodeIdentity) btree_map"
    by (auto simp: verifier_sets_equal_def list_all_iff zip_same_conv_map)
  ultimately show ?thesis
    using solo_certificate
    by (simp add: validate_certified_extension_def Let_def build_verified_epoch_fields effective_consensus_parameters_def)
qed

lemma observer_run:
  "catch_up_certified_suffix solo_env solo_io solo_suffix observer_node = (r, n') \<Longrightarrow>
    lst_epochchain (nr_state n') = [solo_genesis, solo_certified]"
  using solo_extension
  by (auto simp: catch_up_certified_suffix_def finish_catch_up_def observer_node_def solo_node_def local_state_new_def solo_suffix_def
      seq_def ensure_def node_tip_def chain_tip_def last_opt_def solo_genesis_hash solo_genesis_body action_simps validate_from_def
      validate_extensions_def CERTIFIED_EPOCH_SUFFIX_VERSION_def MAX_CERTIFIED_EPOCH_SUFFIX_def on_state_def within_def extend_chain_def
      persist_snapshot_def publish_epoch_commit_def next_epoch_target_def ensure_consensus_mode_def self_key_def target_quorum_def
      on_quorum_def on_consensus_def touch_consensus_def put_consensus_def prune_epoch_started_hints_def
      split: if_splits outcome.splits prod.splits)

definition solo_start :: "(PubKey, NodeIdentity) btree_map system" where
  "solo_start = (\<lambda>k. (if k = PubKey 1 then solo_node else observer_node, []))"

definition solo_middle :: "(PubKey, NodeIdentity) btree_map system" where
  "solo_middle = solo_start(PubKey 1 := (snd (run_request solo_env solo_codecs solo_io (CommitProduced 0) solo_node), [solo_epoch]))"

definition solo_end :: "(PubKey, NodeIdentity) btree_map system" where
  "solo_end = solo_middle(PubKey 2 := (snd (run_request solo_env solo_codecs solo_io (SuffixReceived solo_suffix) observer_node), []))"

lemma solo_shares: "recorded_shares solo_env (CommitProduced 0) solo_node = [solo_epoch]"
  using solo_prepared by (simp add: signed_epoch_def solo_cast) (simp add: solo_commit_def)

lemma member_request:
  assumes "in_rounds request n"
  shows "member_step N B (n, shares) (snd (run_request N B I request n), shares @ recorded_shares N request n)"
  using member_step.request [OF assms] by (metis prod.collapse)

lemma solo_system_run: "system_run solo_env solo_codecs {PubKey 1, PubKey 2} solo_start solo_end"
proof -
  have "in_rounds (CommitProduced 0) solo_node"
    by (simp add: chain_tip_def last_opt_def solo_state solo_genesis_hash solo_genesis_body new_next_def solo_get solo_consensus_sel)
  note step = member_request [OF this, of solo_env solo_codecs "[]" solo_io, unfolded solo_shares append_Nil]
  have "system_step solo_env solo_codecs {PubKey 1, PubKey 2} solo_start solo_middle"
    unfolding solo_middle_def by (rule system_step.honest) (use step in \<open>simp_all add: solo_start_def\<close>)
  moreover have "system_step solo_env solo_codecs {PubKey 1, PubKey 2} solo_middle solo_end"
    unfolding solo_end_def using member_request [of "SuffixReceived solo_suffix" observer_node solo_env solo_codecs "[]" solo_io]
    by (intro system_step.honest) (auto simp: solo_middle_def solo_start_def)
  ultimately show ?thesis by simp
qed

lemma solo_chain:
  "chain_of (solo_end (PubKey 1)) = [solo_genesis, solo_certified]" "snd (solo_end (PubKey 1)) = [solo_epoch]"
  "chain_of (solo_end (PubKey 2)) = [solo_genesis, solo_certified]" "snd (solo_end (PubKey 2)) = []"
proof -
  obtain r n' where run: "run_request solo_env solo_codecs solo_io (CommitProduced 0) solo_node = (r, n')" by fastforce
  then obtain r' where "try_produce_commit solo_env solo_io 0 solo_node = (r', n')" by (rule request_commit_run)
  then show "chain_of (solo_end (PubKey 1)) = [solo_genesis, solo_certified]"
    using solo_run run by (simp add: solo_end_def solo_middle_def)
  obtain r2 n2 where "catch_up_certified_suffix solo_env solo_io solo_suffix observer_node = (r2, n2)" by fastforce
  then show "chain_of (solo_end (PubKey 2)) = [solo_genesis, solo_certified]"
    using observer_run by (simp add: solo_end_def seq_def ret_def split: outcome.splits)
qed (simp_all add: solo_end_def solo_middle_def)

lemma solo_epochs: "system_epochs {PubKey 1, PubKey 2} solo_end = {solo_genesis, solo_certified, solo_epoch}"
  by (auto simp: system_epochs_def solo_chain)

lemma solo_certified_sel: "ep_hash solo_certified = HashType 246" "ep_body solo_certified = ep_body solo_epoch"
  by (simp_all add: solo_certified_def solo_epoch_hash)

lemma solo_anchor: "validate_genesis_anchor solo_env solo_genesis group_root = Ok ()"
proof -
  have "ep_hash solo_genesis = epoch_body_hash solo_env (ep_body solo_genesis)"
      "epb_merkle_root (ep_body solo_genesis) = default_hash"
    by (simp_all add: solo_genesis_def genesis_epoch_def genesis_epoch_for_group_with_parameters_def set_hash_def Let_def)
  moreover have "verifier_sets_equal btree_index_tree m m" for m :: "(PubKey, NodeIdentity) btree_map"
    by (auto simp: verifier_sets_equal_def list_all_iff zip_same_conv_map)
  ultimately show ?thesis
    by (simp add: validate_genesis_anchor_def solo_genesis_body solo_members solo_active block_merkle_root_def Let_def)
qed

lemma solo_started: "started {PubKey 1, PubKey 2} solo_genesis solo_start"
proof -
  have "node_vote (nr_state solo_node) key round = None" for key round
    by (simp add: node_vote_def solo_state consensus_vote_def solo_consensus_sel solo_senders)
  then show ?thesis
    by (simp add: started_def solo_start_def solo_guards solo_state)
      (simp add: observer_node_def verified_def solo_node_def self_key_def local_state_new_def node_vote_def)
qed

lemma solo_hashes_separate: "hashes_separate solo_env {solo_genesis, solo_certified, solo_epoch}"
proof -
  have "sha256 (ne_crypto solo_env) (epoch_to_bytes solo_env (ep_body solo_genesis)) = HashType 207"
      "sha256 (ne_crypto solo_env) (epoch_to_bytes solo_env (ep_body solo_epoch)) = HashType 246"
    using solo_genesis_hash solo_epoch_hash
    by (simp_all add: solo_epoch_def solo_genesis_def genesis_epoch_def genesis_epoch_for_group_with_parameters_def set_hash_def
        epoch_body_hash_def Let_def)
  then show ?thesis
    by (auto simp: hashes_separate_def inj_on_def solo_certified_sel solo_genesis_hash solo_epoch_hash default_hash_def
        simp del: solo_env_sel(2))
qed



section \<open>A submitted transaction\<close>

definition solo_transaction :: Transaction where
  "solo_transaction = \<lparr>tx_hash = HashType 5, tx_payload = [1], tx_filtered_slot = None, tx_filtered_view = Transparent\<rparr>"

definition submitting_env :: "((PubKey, NodeIdentity) btree_map, (PubKey, unit) btree_map) node_env" where
  "submitting_env = solo_env\<lparr>ne_wire_limit := 8\<rparr>"

definition submitted :: "HashType outcome \<times> (PubKey, NodeIdentity) btree_map NodeRuntime" where
  "submitted = submit_transaction submitting_env (\<lambda>t. Some (tx_payload t)) solo_transaction solo_node"

lemma submitted_Done: "fst submitted = Done (HashType 5)"
  "bb_txs (block_body (lb_build_block (nr_local_blocks (snd submitted)))) = [solo_transaction]"
  unfolding submitted_def submit_transaction_def
  by (simp_all add: action_simps seq_def asks_result_def ensure_consensus_mode_def solo_transaction_def submitting_env_def on_blocks_def within_def add_transaction_def
      solo_node_def local_block_new_def block_default_def)

theorem submission_never_dispatched_witness:
  "fst submitted = Done (HashType 5)
    \<and> bb_txs (block_body (lb_build_block (nr_local_blocks (snd submitted)))) = [solo_transaction]
    \<and> (\<exists>b. run_requests submitting_env solo_codecs [(solo_io, DispatchProduced 0 None)] (snd submitted)
        = with_build b (run_requests submitting_env solo_codecs [(solo_io, DispatchProduced 0 None)] solo_node))"
proof -
  have "submit_transaction submitting_env (\<lambda>t. Some (tx_payload t)) solo_transaction solo_node = (Done (HashType 5), snd submitted)"
    using submitted_Done(1) by (simp add: submitted_def prod_eq_iff)
  then show ?thesis
    using submission_never_dispatched [of submitting_env "\<lambda>t. Some (tx_payload t)" solo_transaction solo_node "HashType 5" "snd submitted"
        _ solo_codecs "[(solo_io, DispatchProduced 0 None)]" solo_io 0] submitted_Done by blast
qed


section \<open>A restart\<close>

definition solo_snapshot :: "(PubKey, NodeIdentity) btree_map RuntimeSnapshotV1" where
  "solo_snapshot = runtime_snapshot 0 solo_node"

lemma solo_parameters: "effective_consensus_parameters (ep_body solo_genesis) = ConsensusParameters_default"
  by (simp add: solo_genesis_def genesis_epoch_def genesis_epoch_for_group_with_parameters_def set_hash_def Let_def
      effective_consensus_parameters_def)

lemma default_parameters_valid: "ConsensusParameters_validate ConsensusParameters_default = Ok ()"
  by (simp add: ConsensusParameters_validate_def ConsensusParameters_default_def ConsensusParameters_new_def QuorumSize_new_def)

lemma solo_snapshot_valid: "snapshot_validate solo_env solo_snapshot = Ok ()"
proof -
  have "ep_hash solo_genesis = epoch_body_hash solo_env (ep_body solo_genesis)"
    using solo_anchor by (simp add: validate_genesis_anchor_def Let_def split: if_splits)
  then show ?thesis
    using solo_anchor default_parameters_valid
    by (simp add: snapshot_validate_def solo_snapshot_def runtime_snapshot_def solo_state(1) snapshot_epoch_check_def solo_parameters
        solo_genesis_body solo_node_def self_key_def local_state_new_def put_consensus_def solo_identity_def Let_def)
qed

lemma solo_snapshot_taken: "snapshot solo_env solo_io solo_node = (Done solo_snapshot, solo_node)"
proof -
  have "solo_node\<lparr>nr_membership_lease_watermarks := unexpired_watermarks 0 (nr_membership_lease_watermarks solo_node)\<rparr> = solo_node"
    by (simp add: solo_node_def unexpired_watermarks_def bm_entries_inject [symmetric] bm_entries_retain)
  then show ?thesis using solo_snapshot_valid
    by (simp add: snapshot_def action_simps seq_def solo_io_def solo_snapshot_def)
qed

theorem snapshot_restarts_witness:
  "\<exists>config restarted. from_snapshot_with_quorum_override solo_env (co_service solo_codecs) 0 solo_snapshot solo_identity None = Ok config
    \<and> try_new solo_env solo_io config = Done restarted \<and> lst_epochchain (nr_state restarted) = [solo_genesis]"
proof -
  have "restored_book (ne_crypto solo_env) (co_service solo_codecs) 0 (epb_members (ep_body (last (lst_epochchain (nr_state solo_node))))) solo_snapshot
      = Ok (from_services (sn_address_book solo_snapshot))"
    by (simp add: restored_book_def solo_snapshot_def runtime_snapshot_def solo_node_def book_new_def bm_values_def Let_def)
  moreover have "ni_public_key solo_identity = self_key solo_node" "\<not> is_high_availability (nr_trust_mode solo_node)"
    by (simp_all add: solo_guards(4) solo_identity_def, simp add: is_high_availability_def solo_node_def)
  ultimately show ?thesis
    using snapshot_restarts [OF solo_snapshot_taken, of solo_identity "co_service solo_codecs" 0 _ solo_io] solo_state(1) by auto
qed


section \<open>A lease\<close>

definition lease_env :: "((PubKey, NodeIdentity) btree_map, (PubKey, unit) btree_map) node_env" where
  "lease_env = solo_env\<lparr>ne_codec := (ne_codec solo_env)\<lparr>borsh_member_set := \<lambda>_. Some [], borsh_lease := \<lambda>_. Some [1]\<rparr>\<rparr>"

definition lease_request :: MembershipLeaseRequest where
  "lease_request = \<lparr>lr_challenge = 1, lr_issued_at_unix_millis = 5, lr_valid_for_millis = 10\<rparr>"

definition lease_watermark :: MembershipLeaseWatermark where
  "lease_watermark = \<lparr>wm_statement_hash = HashType 1, wm_expires_at_unix_millis = 15\<rparr>"

lemma lease_voted:
  assumes "nr_group_id n = nr_group_id solo_node" "nr_state n = nr_state solo_node" "nr_signer n = Some (SecKey 1)"
    "nr_membership_lease_watermarks n = bm_empty \<or> nr_membership_lease_watermarks n = bm_insert 1 lease_watermark bm_empty"
  shows "\<exists>vote. vote_membership_lease lease_env solo_io lease_request n
    = (Done vote, n\<lparr>nr_membership_lease_watermarks := bm_insert 1 lease_watermark bm_empty\<rparr>)"
proof -
  have kept: "unexpired_watermarks 0 (bm_insert 1 lease_watermark bm_empty) = bm_insert 1 lease_watermark bm_empty"
      "unexpired_watermarks 0 bm_empty = bm_empty"
    by (rule bm_eqI, simp add: unexpired_watermarks_def lease_watermark_def)+
  have tip: "node_tip n = Ok solo_genesis" using assms(2) solo_state(1) by (simp add: node_tip_def chain_tip_def last_opt_def)
  have env: "ne_tree lease_env = btree_index_tree" "ne_crypto lease_env = ne_crypto solo_env" "borsh_lease (ne_codec lease_env) s = Some [1]"
      "borsh_member_set (ne_codec lease_env) ms = Some []" for s ms
    by (simp_all add: lease_env_def)
  have signer: "signer_public_key (ne_crypto solo_env) (SecKey 1) = PubKey 1"
    by (simp add: signer_public_key_def solo_env_def)
  show ?thesis
    using assms(3,4) kept
    by (auto simp: vote_membership_lease_def membership_lease_statement_def member_set_hash_def remaining_validity_at_def
        expires_at_unix_millis_def MAX_MEMBERSHIP_LEASE_MILLIS_def saturating_add_u64_def lease_request_def solo_io_def tip env signer
        solo_genesis_body lease_vote_signed_def lease_signing_bytes_def within_def run_result_def watermark_lease_def lease_watermark_def
        action_simps seq_def Let_def)
qed

theorem one_lease_per_challenge_witness:
  "\<exists>vote vote' n n'. vote_membership_lease lease_env solo_io lease_request solo_node = (Done vote, n)
    \<and> vote_membership_lease lease_env solo_io lease_request (run_requests lease_env solo_codecs [] n) = (Done vote', n')
    \<and> borsh_lease (ne_codec lease_env) (lv_statement vote) = borsh_lease (ne_codec lease_env) (lv_statement vote')"
proof -
  let ?n = "solo_node\<lparr>nr_membership_lease_watermarks := bm_insert 1 lease_watermark bm_empty\<rparr>"
  obtain vote where vote: "vote_membership_lease lease_env solo_io lease_request solo_node = (Done vote, ?n)"
    using lease_voted [of solo_node] by (auto simp: solo_guards solo_node_def)
  obtain vote' where vote': "vote_membership_lease lease_env solo_io lease_request ?n = (Done vote', ?n)"
    using lease_voted [of ?n] by (auto simp: solo_guards)
  have "\<exists>encoded encoded'. borsh_lease (ne_codec lease_env) (lv_statement vote) = Some encoded
      \<and> borsh_lease (ne_codec lease_env) (lv_statement vote') = Some encoded'
      \<and> sha256 (ne_crypto lease_env) encoded = sha256 (ne_crypto lease_env) encoded'"
    using one_lease_per_challenge [OF vote _ _ _ refl, of lease_watermark "[]" solo_io solo_codecs vote' ?n] vote'
    by (simp add: lease_request_def lease_watermark_def solo_io_def)
  then show ?thesis using vote vote' by (auto simp: lease_env_def)
qed

end
