(* ===== verification/TrustedHistory.thy ===== *)
theory TrustedHistory
  imports TrustedLog
begin

text \<open>
  What the trusted log keeps across any sequence of its operations and restarts: reopening it recovers the seed chain
  followed by exactly the epochs whose append was acknowledged, and a confirmation it recorded binds the node until the next
  epoch: the same round is never confirmed with other blocks, the next round confirms at least these blocks, and the epoch that is
  appended contains them.
\<close>

section \<open>Sequences of operations\<close>

datatype 'm log_operation =
    LockRound TrustedRoundLock
  | PersistLocalBlock Block
  | AppendEpoch "'m Epoch" "TrustedRoundId option"
  | AppendSuffix "'m Epoch list"

fun run_log :: "('m, 'k) node_env \<Rightarrow> unit result \<Rightarrow> 'm log_operation \<Rightarrow> 'm TrustedEpochLog \<Rightarrow> unit result \<times> 'm TrustedEpochLog" where
  "run_log N persisted (LockRound lock) log = lock_round N persisted lock log"
| "run_log N persisted (PersistLocalBlock block) log = persist_local_block N persisted block log"
| "run_log N persisted (AppendEpoch epoch round_id) log = append_epoch N persisted epoch round_id log"
| "run_log N persisted (AppendSuffix epochs) log = append_suffix N persisted epochs log"

fun offered :: "'m log_operation \<Rightarrow> 'm Epoch list" where
  "offered (AppendEpoch epoch round_id) = [epoch]"
| "offered (AppendSuffix epochs) = epochs"
| "offered (LockRound lock) = []"
| "offered (PersistLocalBlock block) = []"

fun run_logs :: "('m, 'k) node_env \<Rightarrow> (unit result \<times> 'm log_operation) list \<Rightarrow> 'm TrustedEpochLog \<Rightarrow> 'm TrustedEpochLog" where
  "run_logs N [] log = log"
| "run_logs N ((persisted, operation) # operations) log = run_logs N operations (snd (run_log N persisted operation log))"

fun acknowledged :: "('m, 'k) node_env \<Rightarrow> (unit result \<times> 'm log_operation) list \<Rightarrow> 'm TrustedEpochLog \<Rightarrow> 'm Epoch list" where
  "acknowledged N [] log = []"
| "acknowledged N ((persisted, operation) # operations) log =
    (case run_log N persisted operation log of (r, log') \<Rightarrow>
      (if r = Ok () then offered operation else []) @ acknowledged N operations log')"


section \<open>Chains of epochs by nonce\<close>

definition nonce_entry :: "'m Epoch \<Rightarrow> Nonce \<times> 'm Epoch" where
  "nonce_entry epoch = (epb_nonce (ep_body epoch), epoch)"

definition unwrapped :: "'m Epoch list \<Rightarrow> bool" where
  "unwrapped epochs \<longleftrightarrow> (\<forall>e\<in>set epochs. epb_nonce (ep_body e) \<noteq> 0)"

lemma unwrapped_simps [simp]:
  "unwrapped []" "unwrapped (e # es) \<longleftrightarrow> epb_nonce (ep_body e) \<noteq> 0 \<and> unwrapped es"
  "unwrapped (es @ fs) \<longleftrightarrow> unwrapped es \<and> unwrapped fs"
  by (auto simp: unwrapped_def)

lemma extension_nonce: "validate_trusted_extension N previous epoch policy = Ok () \<Longrightarrow> epb_nonce (ep_body epoch) = epb_nonce (ep_body previous) + 1"
  by (auto simp: validate_trusted_extension_def Let_def new_next_def split: if_splits)

lemma next_nonce_less: "(w :: Nonce) + 1 \<noteq> 0 \<Longrightarrow> w < w + 1"
  using unatSuc [of w] by (simp add: word_less_nat_alt add.commute)

lemma upd_entry_last: "sorted_entries es \<Longrightarrow> es = [] \<or> fst (last es) < k \<Longrightarrow> upd_entry k v es = es @ [(k, v)]"
proof (induction es)
  case (Cons e es)
  obtain k' v' where e: "e = (k', v')" by (cases e)
  have "k' < k" using Cons.prems e last_in_set [of es] by (cases "es = []") (auto intro: less_trans)
  then show ?case using Cons e by (auto split: if_splits)
qed simp

lemma suffix_Ok_snoc: "validate_trusted_suffix N policy previous (epochs @ [e]) = Ok final \<longleftrightarrow>
    (\<exists>t. validate_trusted_suffix N policy previous epochs = Ok t \<and> validate_trusted_extension N t e policy = Ok () \<and> final = e)"
  by (auto simp: validate_trusted_suffix_def)

lemma suffix_final: "validate_trusted_suffix N policy previous epochs = Ok final \<Longrightarrow> final = last (previous # epochs)"
  by (induction epochs arbitrary: final rule: rev_induct) (auto simp: suffix_Ok_snoc, simp add: validate_trusted_suffix_def)

lemma chain_append:
  assumes "validate_trusted_chain N chain policy = Ok ()"
  shows "validate_trusted_chain N (chain @ epochs) policy = Ok ()
    \<longleftrightarrow> (\<exists>final. validate_trusted_suffix N policy (last chain) epochs = Ok final)"
proof -
  obtain genesis rest where chain: "chain = genesis # rest" using assms by (cases chain) (auto simp: validate_trusted_chain_def)
  then obtain t where "validate_trusted_suffix N policy genesis rest = Ok t" using assms by (auto simp: validate_trusted_chain_def split: if_splits)
  then show ?thesis using assms suffix_final [of N policy genesis rest t] chain
    by (auto simp: validate_trusted_chain_def validate_trusted_suffix_def split: if_splits)
qed

lemma suffix_nonces:
  assumes "validate_trusted_suffix N policy previous epochs = Ok final" "unwrapped epochs"
  shows "sorted_wrt (<) (map (\<lambda>e. epb_nonce (ep_body e)) (previous # epochs))"
  using assms
proof (induction epochs arbitrary: final rule: rev_induct)
  case (snoc e epochs)
  then obtain t where t: "validate_trusted_suffix N policy previous epochs = Ok t" "validate_trusted_extension N t e policy = Ok ()"
    by (auto simp: suffix_Ok_snoc)
  have sorted: "sorted_wrt (<) (map (\<lambda>e. epb_nonce (ep_body e)) (previous # epochs))" using snoc t(1) by simp
  have "epb_nonce (ep_body t) < epb_nonce (ep_body e)" using extension_nonce [OF t(2)] next_nonce_less snoc.prems(2) by auto
  moreover have "epb_nonce (ep_body x) \<le> epb_nonce (ep_body t)" if "x \<in> set (previous # epochs)" for x
    using sorted that suffix_final [OF t(1)] by (cases epochs rule: rev_cases) (auto simp: sorted_wrt_append intro: less_imp_le)
  ultimately show ?case using sorted by (force simp: sorted_wrt_append)
qed simp


lemma chain_not_Nil: "validate_trusted_chain N chain policy = Ok () \<Longrightarrow> chain \<noteq> []"
  by (auto simp: validate_trusted_chain_def)

lemma chain_nonces:
  assumes "validate_trusted_chain N chain policy = Ok ()" "unwrapped (tl chain)"
  shows "sorted_wrt (<) (map (\<lambda>e. epb_nonce (ep_body e)) chain)"
  using assms suffix_nonces by (cases chain) (fastforce simp: validate_trusted_chain_def split: if_splits)+

lemma insert_epochs:
  assumes "bm_entries stored = map nonce_entry chain" "sorted_wrt (<) (map (\<lambda>e. epb_nonce (ep_body e)) (chain @ epochs))"
  shows "bm_entries (fold (\<lambda>epoch. bm_insert (epb_nonce (ep_body epoch)) epoch) epochs stored) = map nonce_entry (chain @ epochs)
    \<and> try_fold (\<lambda>stored epoch. insert_epoch epoch stored) stored epochs
      = Ok (fold (\<lambda>epoch. bm_insert (epb_nonce (ep_body epoch)) epoch) epochs stored)"
  using assms
proof (induction epochs arbitrary: stored chain)
  case (Cons e epochs)
  let ?stored = "bm_insert (epb_nonce (ep_body e)) e stored"
  have smaller: "\<forall>x\<in>set chain. epb_nonce (ep_body x) < epb_nonce (ep_body e)" using Cons.prems(2) by (auto simp: sorted_wrt_append)
  have "bm_entries ?stored = bm_entries stored @ [nonce_entry e]"
    unfolding bm_entries_insert nonce_entry_def
    by (rule upd_entry_last [OF sorted_bm_entries]) (use smaller Cons.prems(1) in \<open>cases "chain = []"; simp add: last_map nonce_entry_def\<close>)
  then have entries: "bm_entries ?stored = map nonce_entry (chain @ [e])" using Cons.prems(1) by simp
  have "bm_get stored (epb_nonce (ep_body e)) = None"
    using smaller Cons.prems(1) by (force simp: bm_get_def map_of_eq_None_iff nonce_entry_def)
  then have "insert_epoch e stored = Ok ?stored" by (simp add: insert_epoch_def)
  then show ?case using Cons.IH [OF entries] Cons.prems(2) by simp
qed simp


section \<open>The chain that a log holds\<close>

definition holds_chain :: "('m, 'k) node_env \<Rightarrow> 'm TrustedEpochLog \<Rightarrow> 'm Epoch list \<Rightarrow> bool" where
  "holds_chain N log chain \<longleftrightarrow>
    validate_trusted_chain N chain (tl_removal_policy log) = Ok () \<and> unwrapped (tl chain)
    \<and> bm_entries (lt_epochs (tl_tables log)) = map nonce_entry chain
    \<and> lt_head (tl_tables log) = Some (epb_nonce (ep_body (last chain)), ep_hash (last chain))
    \<and> lt_manifest (tl_tables log) = Some (tl_manifest log)"

lemma holds_load: "holds_chain N log chain \<Longrightarrow> load_chain N log = Ok chain"
  by (simp add: holds_chain_def load_chain_def bm_values_def read_head_def nonce_entry_def o_def)

lemma holds_head:
  assumes "holds_chain N log chain"
  shows "load_head_epoch log = Ok (last chain)"
proof -
  have "last chain \<in> set chain" using assms chain_not_Nil last_in_set by (auto simp: holds_chain_def)
  then have "nonce_entry (last chain) \<in> set (bm_entries (lt_epochs (tl_tables log)))"
    using assms by (auto simp: holds_chain_def)
  then have "bm_get (lt_epochs (tl_tables log)) (epb_nonce (ep_body (last chain))) = Some (last chain)"
    by (simp add: bm_get_Some_iff nonce_entry_def)
  then show ?thesis using assms by (simp add: holds_chain_def load_head_epoch_def head_epoch_def read_head_def)
qed

text \<open>A transaction that fails, or whose write fails, leaves the log as it was.\<close>

lemma transact_cases:
  assumes "transact persisted operation log = (r, log')"
  obtains (failed) e where "r = Err e" "log' = log"
    | (kept) x where "r = Ok x" "log' = log" "operation (tl_tables log) = Ok (x, None)"
    | (written) x tables where "r = Ok x" "operation (tl_tables log) = Ok (x, Some tables)" "log' = log\<lparr>tl_tables := tables\<rparr>"
  using assms by (auto simp: transact_def split: sum.splits prod.splits option.splits)

lemma append_fields:
  assumes "append_epochs_transaction E manifest epochs round_id tables = Ok (x, Some tables')" "epochs \<noteq> []"
  shows "lt_manifest tables' = lt_manifest tables"
    "lt_head tables' = Some (epb_nonce (ep_body (last epochs)), ep_hash (last epochs))"
    "try_fold (\<lambda>stored epoch. insert_epoch epoch stored) (lt_epochs tables) epochs = Ok (lt_epochs tables')"
  using assms by (auto simp: append_epochs_transaction_def Let_def write_head_def split: prod.splits if_splits)

lemma append_writes:
  assumes holds: "holds_chain N log chain" and valid: "validate_trusted_suffix N (tl_removal_policy log) (last chain) epochs = Ok final"
    and fresh: "epochs \<noteq> []" "unwrapped epochs"
  shows "append_epochs_transaction E (tl_manifest log) epochs round_id (tl_tables log) \<noteq> Ok (x, None)"
    "sorted_wrt (<) (map (\<lambda>e. epb_nonce (ep_body e)) (chain @ epochs))"
    "validate_trusted_chain N (chain @ epochs) (tl_removal_policy log) = Ok ()"
proof -
  note H = holds [unfolded holds_chain_def]
  show whole: "validate_trusted_chain N (chain @ epochs) (tl_removal_policy log) = Ok ()"
    using H valid by (simp add: chain_append)
  have "chain \<noteq> []" using H chain_not_Nil by blast
  then show sorted: "sorted_wrt (<) (map (\<lambda>e. epb_nonce (ep_body e)) (chain @ epochs))"
    using whole fresh(2) H by (intro chain_nonces) auto
  have "last chain \<in> set chain" "last epochs \<in> set epochs" using \<open>chain \<noteq> []\<close> fresh(1) by auto
  then have "epb_nonce (ep_body (last chain)) < epb_nonce (ep_body (last epochs))"
    using sorted by (auto simp: sorted_wrt_append)
  then show "append_epochs_transaction E (tl_manifest log) epochs round_id (tl_tables log) \<noteq> Ok (x, None)"
    using H by (auto simp: append_epochs_transaction_def Let_def read_head_def split: prod.splits if_splits)
qed

lemma append_holds:
  assumes holds: "holds_chain N log chain" and valid: "validate_trusted_suffix N (tl_removal_policy log) (last chain) epochs = Ok final"
    and fresh: "epochs \<noteq> []" "unwrapped epochs" and run: "append_validated_epochs E persisted epochs round_id log = (r, log')"
  shows "(r = Ok () \<longrightarrow> holds_chain N log' (chain @ epochs)) \<and> (r \<noteq> Ok () \<longrightarrow> log' = log)
    \<and> tl_manifest log' = tl_manifest log \<and> tl_removal_policy log' = tl_removal_policy log"
proof -
  note H = holds [unfolded holds_chain_def] and writes = append_writes [OF holds valid fresh]
  have "chain \<noteq> []" using H chain_not_Nil by blast
  have "transact persisted (append_epochs_transaction E (tl_manifest log) epochs round_id) log = (r, log')"
    using run fresh(1) by (simp add: append_validated_epochs_def)
  then show ?thesis
  proof (elim transact_cases)
    fix x tables
    assume written: "r = Ok x" "append_epochs_transaction E (tl_manifest log) epochs round_id (tl_tables log) = Ok (x, Some tables)"
      "log' = log\<lparr>tl_tables := tables\<rparr>"
    then show ?thesis
      using append_fields [OF written(2) fresh(1)] insert_epochs [of "lt_epochs (tl_tables log)" chain epochs] writes H fresh \<open>chain \<noteq> []\<close>
      by (auto simp: holds_chain_def)
  qed (use writes(1) in auto)
qed

text \<open>A confirmation and a pending block change other tables.\<close>

definition same_epochs :: "'m log_tables \<Rightarrow> 'm log_tables \<Rightarrow> bool" where
  "same_epochs tables tables' \<longleftrightarrow> lt_epochs tables' = lt_epochs tables \<and> lt_head tables' = lt_head tables
    \<and> lt_manifest tables' = lt_manifest tables"

lemma lock_same_epochs: "lock_transaction N manifest lock tables = Ok (x, Some tables') \<Longrightarrow> same_epochs tables tables'"
  by (auto simp: lock_transaction_def same_epochs_def Let_def split: if_splits option.splits)

lemma local_block_same_epochs: "local_block_transaction N manifest block tables = Ok (x, Some tables') \<Longrightarrow> same_epochs tables tables'"
  by (auto simp: local_block_transaction_def same_epochs_def split: if_splits option.splits)

lemma transact_same_epochs:
  assumes "transact persisted operation log = (r, log')"
    and "\<And>x tables. operation (tl_tables log) = Ok (x, Some tables) \<Longrightarrow> same_epochs (tl_tables log) tables"
  shows "same_epochs (tl_tables log) (tl_tables log') \<and> tl_manifest log' = tl_manifest log
    \<and> tl_removal_policy log' = tl_removal_policy log"
  using assms(1) by (rule transact_cases) (auto simp: same_epochs_def dest: assms(2))

lemma kept_epochs:
  assumes "run_log N persisted operation log = (r, log')" "offered operation = []"
  shows "same_epochs (tl_tables log) (tl_tables log') \<and> tl_manifest log' = tl_manifest log
    \<and> tl_removal_policy log' = tl_removal_policy log"
proof (cases operation)
  case (LockRound lock)
  then show ?thesis using assms(1) transact_same_epochs lock_same_epochs
    by (fastforce simp: lock_round_def same_epochs_def split: sum.splits)
next
  case (PersistLocalBlock block)
  then show ?thesis using assms(1) transact_same_epochs local_block_same_epochs
    by (fastforce simp: persist_local_block_def same_epochs_def split: sum.splits if_splits)
qed (use assms in \<open>auto simp: append_suffix_def same_epochs_def\<close>)

lemma run_log_appends:
  assumes "holds_chain N log chain" "offered operation \<noteq> []"
  shows "\<exists>rid. run_log N persisted operation log
    = (case validate_trusted_suffix N (tl_removal_policy log) (last chain) (offered operation) of
         Inl e \<Rightarrow> (Err e, log) | Inr _ \<Rightarrow> append_validated_epochs (ne_crypto N) persisted (offered operation) rid log)"
proof (cases operation)
  case (AppendEpoch epoch rid)
  then show ?thesis using holds_head [OF assms(1)]
    by (cases "validate_trusted_extension N (last chain) epoch (tl_removal_policy log)")
      (auto simp: append_epoch_def validate_trusted_suffix_def)
next
  case (AppendSuffix epochs)
  then show ?thesis using assms(2) holds_head [OF assms(1)] by (auto simp: append_suffix_def split: sum.splits)
qed (use assms(2) in auto)

lemma run_log_holds:
  assumes holds: "holds_chain N log chain" and "unwrapped (offered operation)"
    and run: "run_log N persisted operation log = (r, log')"
  shows "holds_chain N log' (chain @ (if r = Ok () then offered operation else []))
    \<and> tl_manifest log' = tl_manifest log \<and> tl_removal_policy log' = tl_removal_policy log"
proof (cases "offered operation = []")
  case True
  then show ?thesis using kept_epochs [OF run] holds by (auto simp: same_epochs_def holds_chain_def)
next
  case False
  let ?valid = "validate_trusted_suffix N (tl_removal_policy log) (last chain) (offered operation)"
  obtain rid where step: "(case ?valid of Inl e \<Rightarrow> (Err e, log)
      | Inr _ \<Rightarrow> append_validated_epochs (ne_crypto N) persisted (offered operation) rid log) = (r, log')"
    using run_log_appends [OF holds False] run by metis
  show ?thesis
  proof (cases ?valid)
    case (Inr final)
    then show ?thesis using append_holds [OF holds Inr False assms(2), of "ne_crypto N" persisted rid r log'] step holds by auto
  qed (use step holds in auto)
qed

lemma run_logs_holds:
  assumes "holds_chain N log chain" "unwrapped (concat (map (offered \<circ> snd) operations))"
  shows "holds_chain N (run_logs N operations log) (chain @ acknowledged N operations log)
    \<and> tl_manifest (run_logs N operations log) = tl_manifest log \<and> tl_removal_policy (run_logs N operations log) = tl_removal_policy log"
  using assms
proof (induction N operations log arbitrary: chain rule: run_logs.induct)
  case (2 N persisted operation operations log)
  obtain r log' where run: "run_log N persisted operation log = (r, log')" by (cases "run_log N persisted operation log")
  show ?case
    using 2(1) [of "chain @ (if r = Ok () then offered operation else [])"] 2(2,3) run_log_holds [OF 2(2) _ run] run by simp
qed simp


section \<open>Opening and reopening\<close>

lemma open_holds:
  assumes "lt_manifest tables = None" "lt_epochs tables = bm_empty" "unwrapped (tl seed)"
    and "log_open N persisted tables self_public_key seed removal_policy = Ok (log, chain)"
  shows "holds_chain N log seed \<and> chain = seed \<and> tl_manifest log = log_manifest self_public_key (hd seed) removal_policy
    \<and> tl_removal_policy log = removal_policy"
proof -
  have valid: "validate_trusted_chain N seed removal_policy = Ok ()" using assms(4) by (simp add: log_open_def)
  have "bm_entries (fold (\<lambda>epoch. bm_insert (epb_nonce (ep_body epoch)) epoch) seed bm_empty) = map nonce_entry seed"
    using insert_epochs [of bm_empty "[]" seed] chain_nonces [OF valid assms(3)] by simp
  with valid show ?thesis
    using assms by (auto simp: log_open_def Let_def holds_chain_def seed_tables_def write_head_def split: if_splits)
qed

lemma reopen_holds:
  assumes "holds_chain N log chain" "tl_manifest log = log_manifest self_public_key (hd seed) (tl_removal_policy log)"
    "validate_trusted_chain N seed (tl_removal_policy log) = Ok ()" "hd chain = hd seed"
  shows "log_open N persisted (tl_tables log) self_public_key seed (tl_removal_policy log) = Ok (log, chain)"
  using assms holds_load [OF assms(1)] by (cases log) (simp add: log_open_def holds_chain_def Let_def)



section \<open>Confirmations\<close>

definition locks_keyed :: "'m TrustedEpochLog \<Rightarrow> bool" where
  "locks_keyed log \<longleftrightarrow> (\<forall>k lock. bm_get (lt_round_locks (tl_tables log)) k = Some lock \<longrightarrow> round_id_key (tk_round_id lock) = k)"

lemma transact_fails: "transact persisted operation log = (Err e, log') \<Longrightarrow> log' = log"
  by (auto simp: transact_def split: sum.splits prod.splits option.splits)

lemma run_log_fails: "run_log N persisted operation log = (Err e, log') \<Longrightarrow> log' = log"
  by (cases operation) (auto simp: lock_round_def persist_local_block_def append_epoch_def append_suffix_def append_validated_epochs_def
      dest: transact_fails split: sum.splits if_splits)

lemma lock_transaction_locks:
  assumes "lock_transaction N manifest lock tables = Ok (x, Some tables')"
  shows "lt_round_locks tables' = bm_insert (round_id_key (tk_round_id lock)) lock (lt_round_locks tables)"
    "bm_get (lt_round_locks tables) (round_id_key (tk_round_id lock)) = None"
  using assms by (auto simp: lock_transaction_def Let_def split: if_splits option.splits)

lemma lock_round_locks:
  assumes "lock_round N persisted lock log = (Ok (), log')"
  shows "lt_round_locks (tl_tables log') = lt_round_locks (tl_tables log)
      \<and> (\<exists>existing. bm_get (lt_round_locks (tl_tables log)) (round_id_key (tk_round_id lock)) = Some existing
        \<and> lock_blocks existing = lock_blocks lock)
    \<or> bm_get (lt_round_locks (tl_tables log)) (round_id_key (tk_round_id lock)) = None
      \<and> lt_round_locks (tl_tables log') = bm_insert (round_id_key (tk_round_id lock)) lock (lt_round_locks (tl_tables log))"
proof -
  have "transact persisted (lock_transaction N (tl_manifest log) lock) log = (Ok (), log')"
    using assms by (auto simp: lock_round_def split: sum.splits)
  then show ?thesis
  proof (cases rule: transact_cases)
    case (kept x)
    then show ?thesis by (auto simp: lock_transaction_def Let_def split: if_splits option.splits)
  next
    case (written x tables)
    then show ?thesis using lock_transaction_locks by fastforce
  qed simp
qed

lemma persist_locks:
  assumes "persist_local_block N persisted block log = (r, log')"
  shows "lt_round_locks (tl_tables log') = lt_round_locks (tl_tables log)"
  using assms by (auto simp: persist_local_block_def transact_def local_block_transaction_def
      split: sum.splits if_splits prod.splits option.splits)

text \<open>Until an epoch is acknowledged, a lock that is recorded stays.\<close>

lemma run_log_keeps_lock:
  assumes "run_log N persisted operation log = (r, log')" "r = Ok () \<longrightarrow> offered operation = []"
    "bm_get (lt_round_locks (tl_tables log)) k = Some lock"
  shows "bm_get (lt_round_locks (tl_tables log')) k = Some lock"
proof (cases r)
  case (Inl e)
  then show ?thesis using assms run_log_fails by blast
next
  case (Inr u)
  with assms have "offered operation = []" by simp
  then show ?thesis
  proof (cases operation)
    case (LockRound l)
    then show ?thesis using lock_round_locks [of N persisted l log log'] assms Inr by auto
  next
    case (PersistLocalBlock b)
    then show ?thesis using persist_locks assms by fastforce
  qed (use assms Inr in \<open>auto simp: append_suffix_def\<close>)
qed

lemma run_logs_keep_lock:
  assumes "acknowledged N operations log = []" "bm_get (lt_round_locks (tl_tables log)) k = Some lock"
  shows "bm_get (lt_round_locks (tl_tables (run_logs N operations log))) k = Some lock"
  using assms
proof (induction N operations log rule: run_logs.induct)
  case (2 N persisted operation operations log)
  obtain r log' where run: "run_log N persisted operation log = (r, log')" by (cases "run_log N persisted operation log")
  show ?case using 2 run run_log_keeps_lock [OF run] by (auto split: if_splits)
qed simp

lemma append_clears:
  assumes "append_validated_epochs E persisted epochs rid log = (r, log')"
  shows "log' = log \<or> lt_round_locks (tl_tables log') = bm_empty"
  using assms by (auto simp: append_validated_epochs_def transact_def append_epochs_transaction_def Let_def write_head_def
      split: sum.splits if_splits prod.splits option.splits)

lemma run_log_keyed:
  assumes "locks_keyed log" "run_log N persisted operation log = (r, log')"
  shows "locks_keyed log'"
proof (cases r)
  case (Inl e)
  then show ?thesis using assms run_log_fails by blast
next
  case (Inr u)
  show ?thesis
  proof (cases operation)
    case (LockRound lock)
    then show ?thesis using lock_round_locks [of N persisted lock log log'] assms Inr by (auto simp: locks_keyed_def split: if_splits)
  next
    case (PersistLocalBlock b)
    then show ?thesis using persist_locks assms by (fastforce simp: locks_keyed_def)
  next
    case (AppendEpoch epoch rid)
    then show ?thesis using assms append_clears
      by (fastforce simp: append_epoch_def locks_keyed_def split: sum.splits)
  next
    case (AppendSuffix epochs)
    then show ?thesis using assms append_clears
      by (fastforce simp: append_suffix_def locks_keyed_def split: sum.splits if_splits)
  qed
qed

lemma run_logs_keyed: "locks_keyed log \<Longrightarrow> locks_keyed (run_logs N operations log)"
proof (induction N operations log rule: run_logs.induct)
  case (2 N persisted operation operations log)
  then show ?case using run_log_keyed [OF 2(2), of N persisted operation] by (cases "run_log N persisted operation log") auto
qed simp

lemmas try_fold_Ok_all = try_fold_checks_Ok [THEN iffD1, rule_format]

lemma bm_values_get: "x \<in> set (bm_values m) \<longleftrightarrow> (\<exists>k. bm_get m k = Some x)"
  by (force simp: bm_values_def bm_get_Some_iff)

text \<open>The log checks every recorded lock before it accepts the next one.\<close>

lemma lock_round_next:
  assumes keyed: "locks_keyed log" and held: "bm_get (lt_round_locks (tl_tables log)) k = Some held"
    and run: "lock_round N persisted lock log = (Ok (), log')" and "ti_round (tk_round_id lock) = ti_round (tk_round_id held) + 1"
  shows "set (bm_keys (lock_blocks held)) \<subseteq> set (bm_keys (lock_blocks lock))"
proof -
  let ?locks = "bm_values (lt_round_locks (tl_tables log))"
  have "\<exists>y. lock_transaction N (tl_manifest log) lock (tl_tables log) = Ok y"
    using run by (auto simp: lock_round_def transact_def split: sum.splits prod.splits option.splits)
  then have checks: "try_fold (\<lambda>_. existing_lock_check (ne_crypto N) (tm_self_public_key (tl_manifest log)) (tk_round_id lock)) () ?locks = Ok ()"
      "ti_round (tk_round_id lock) > 0 \<longrightarrow> list_ex (\<lambda>existing. precedes_lock existing lock) ?locks"
      "\<not> list_ex (\<lambda>existing. ti_round (tk_round_id existing) > ti_round (tk_round_id lock)) ?locks"
    by (auto simp: lock_transaction_def Let_def split: if_splits)
  have target: "same_target (tk_round_id x) (tk_round_id lock)" if "x \<in> set ?locks" for x
    using try_fold_Ok_all [OF checks(1) that] by (auto simp: existing_lock_check_def split: if_splits)
  have mem: "held \<in> set ?locks" using held unfolding bm_values_get by blast
  then have "ti_round (tk_round_id lock) > 0"
    using checks(3) assms(4) by (auto simp: list_ex_iff word_gt_0)
  then obtain x where x: "x \<in> set ?locks" "precedes_lock x lock" using checks(2) by (auto simp: list_ex_iff)
  then have "round_id_key (tk_round_id x) = round_id_key (tk_round_id held)"
    using target [OF mem] target [OF x(1)] assms(4) by (simp add: round_id_key_def same_target_def precedes_lock_def)
  moreover obtain k' where "bm_get (lt_round_locks (tl_tables log)) k' = Some x" using x(1) unfolding bm_values_get by blast
  ultimately have "x = held" using keyed held unfolding locks_keyed_def by (metis option.inject)
  then show ?thesis using x(2) by (auto simp: precedes_lock_def list_all_iff bm_keys_contains)
qed

lemma append_keeps_locked:
  assumes "append_epochs_transaction E manifest epochs rid tables = Ok (x, Some tables')" "bm_get (lt_round_locks tables) k = Some lock"
  shows "set (bm_keys (lock_blocks lock)) \<subseteq> set (bm_keys (epb_blocks (ep_body (hd epochs))))"
proof -
  obtain head where "try_fold (\<lambda>_. lock_agrees E manifest head (hd epochs)) () (bm_values (lt_round_locks tables)) = Ok ()"
    using assms(1) by (auto simp: append_epochs_transaction_def Let_def split: prod.splits if_splits)
  then have "lock_agrees E manifest head (hd epochs) lock = Ok ()"
    using assms(2) by (elim try_fold_Ok_all) (unfold bm_values_get, blast)
  then show ?thesis by (auto simp: lock_agrees_def Let_def list_all_iff bm_keys_contains split: prod.splits if_splits)
qed

lemma run_log_keeps_locked:
  assumes holds: "holds_chain N log chain" and "unwrapped (offered operation)" "offered operation \<noteq> []"
    and run: "run_log N persisted operation log = (Ok (), log')" and held: "bm_get (lt_round_locks (tl_tables log)) k = Some lock"
  shows "set (bm_keys (lock_blocks lock)) \<subseteq> set (bm_keys (epb_blocks (ep_body (hd (offered operation)))))"
proof -
  let ?valid = "validate_trusted_suffix N (tl_removal_policy log) (last chain) (offered operation)"
  obtain rid final where valid: "?valid = Ok final"
      and "append_validated_epochs (ne_crypto N) persisted (offered operation) rid log = (Ok (), log')"
    using run_log_appends [OF holds assms(3), of persisted] run by (cases ?valid) auto
  then have "transact persisted (append_epochs_transaction (ne_crypto N) (tl_manifest log) (offered operation) rid) log = (Ok (), log')"
    using assms(3) by (simp add: append_validated_epochs_def)
  then show ?thesis
  proof (cases rule: transact_cases)
    case (kept x)
    then show ?thesis using append_writes(1) [OF holds valid assms(3,2)] by blast
  next
    case (written x tables)
    then show ?thesis using append_keeps_locked held by blast
  qed simp
qed

text \<open>A log that was seeded into empty tables and went through some operations.\<close>

definition recorded_log :: "('m, 'k) node_env \<Rightarrow> 'm TrustedEpochLog \<Rightarrow> bool" where
  "recorded_log N log \<longleftrightarrow> (\<exists>persisted tables self_public_key seed removal_policy log0 chain operations.
    lt_manifest tables = None \<and> lt_epochs tables = bm_empty \<and> lt_round_locks tables = bm_empty
    \<and> log_open N persisted tables self_public_key seed removal_policy = Ok (log0, chain)
    \<and> unwrapped (tl seed @ concat (map (offered \<circ> snd) operations)) \<and> log = run_logs N operations log0)"

lemma recorded_log_holds:
  assumes "recorded_log N log"
  shows "(\<exists>chain. holds_chain N log chain) \<and> locks_keyed log"
proof -
  obtain persisted tables self_public_key seed removal_policy log0 chain operations where
    fresh: "lt_manifest tables = None" "lt_epochs tables = bm_empty" "lt_round_locks tables = bm_empty"
    and opened: "log_open N persisted tables self_public_key seed removal_policy = Ok (log0, chain)"
    and wrap: "unwrapped (tl seed @ concat (map (offered \<circ> snd) operations))" and log: "log = run_logs N operations log0"
    using assms unfolding recorded_log_def by blast
  have "holds_chain N log0 seed" using open_holds [OF fresh(1,2) _ opened] wrap by simp
  then have "\<exists>chain. holds_chain N log chain" using run_logs_holds wrap log by fastforce
  moreover have "locks_keyed log0"
    using opened fresh by (auto simp: log_open_def Let_def locks_keyed_def seed_tables_def write_head_def split: if_splits)
  ultimately show ?thesis using run_logs_keyed log by blast
qed

text \<open>C8: A recorded confirmation binds the node until an epoch is acknowledged: after any operations the same round is confirmed again only
  with the same blocks, the next round only with at least these blocks, and the next acknowledged epoch contains them all.\<close>

theorem confirmation_binds:
  assumes "recorded_log N log" "lock_round N persisted lock log = (Ok (), log1)"
    and "unwrapped (concat (map (offered \<circ> snd) operations))" "acknowledged N operations log1 = []"
  shows "(lock_round N persisted' lock' (run_logs N operations log1) = (Ok (), log2) \<and> tk_round_id lock' = tk_round_id lock
        \<longrightarrow> lock_blocks lock' = lock_blocks lock)
    \<and> (lock_round N persisted' lock' (run_logs N operations log1) = (Ok (), log2)
        \<and> ti_round (tk_round_id lock') = ti_round (tk_round_id lock) + 1
        \<longrightarrow> set (bm_keys (lock_blocks lock)) \<subseteq> set (bm_keys (lock_blocks lock')))
    \<and> (run_log N persisted' operation (run_logs N operations log1) = (Ok (), log2) \<and> offered operation \<noteq> []
        \<and> unwrapped (offered operation)
        \<longrightarrow> set (bm_keys (lock_blocks lock)) \<subseteq> set (bm_keys (epb_blocks (ep_body (hd (offered operation))))))"
proof -
  let ?key = "round_id_key (tk_round_id lock)" and ?log = "run_logs N operations log1"
  obtain chain where log: "holds_chain N log chain" "locks_keyed log" using recorded_log_holds [OF assms(1)] by blast
  have step: "run_log N persisted (LockRound lock) log = (Ok (), log1)" using assms(2) by simp
  obtain held where held: "bm_get (lt_round_locks (tl_tables log1)) ?key = Some held" "lock_blocks held = lock_blocks lock"
    using lock_round_locks [OF assms(2)] by fastforce
  have kept: "bm_get (lt_round_locks (tl_tables ?log)) ?key = Some held" by (rule run_logs_keep_lock [OF assms(4) held(1)])
  have keyed: "locks_keyed ?log" using run_log_keyed [OF log(2) step] run_logs_keyed by blast
  have "\<exists>chain. holds_chain N ?log chain" using run_log_holds [OF log(1) _ step] run_logs_holds assms(3) by fastforce
  moreover have "ti_round (tk_round_id held) = ti_round (tk_round_id lock)"
    using keyed kept by (auto simp: locks_keyed_def round_id_key_def)
  ultimately show ?thesis
    using lock_round_locks [of N persisted' lock' ?log log2] lock_round_next [OF keyed kept, of N persisted' lock' log2]
      run_log_keeps_locked [of N ?log _ operation persisted' log2 ?key held] kept held(2) by auto
qed


section \<open>Operations on the member registry\<close>


end
