(* ===== verification/TrustedExample.thy ===== *)
theory TrustedExample
  imports VerifiedExample TrustedHistory
begin

text \<open>
  The log of a trusted node of a group of one validator: it is seeded with the genesis epoch, records a confirmation and appends
  the next epoch, once in vain because the write fails and once with success.
\<close>

definition log_tables_empty :: "(PubKey, NodeIdentity) btree_map log_tables" where
  "log_tables_empty = \<lparr>lt_manifest = None, lt_head = None, lt_epochs = bm_empty, lt_round_locks = bm_empty, lt_local_blocks = bm_empty\<rparr>"

definition solo_manifest :: TrustedLogManifest where
  "solo_manifest = log_manifest (PubKey 1) solo_genesis removal_policy_default"

definition solo_log :: "(PubKey, NodeIdentity) btree_map TrustedEpochLog" where
  "solo_log = \<lparr>tl_tables = seed_tables solo_manifest [solo_genesis] log_tables_empty, tl_manifest = solo_manifest,
    tl_removal_policy = removal_policy_default\<rparr>"

definition solo_lock :: TrustedRoundLock where
  "solo_lock = \<lparr>tk_round_id = \<lparr>ti_group_id = group_root, ti_previous_epoch_hash = HashType 207, ti_previous_epoch_nonce = 0,
      ti_nonce = 1, ti_round = 0\<rparr>,
    tk_verification = \<lparr>vf_header = \<lparr>hd_sender = PubKey 1, hd_last_epoch = HashType 207, hd_nonce = 1, hd_round = 0,
        hd_signature = default_signature\<rparr>,
      vf_body = \<lparr>vb_blocks_hash = map_hash (ne_crypto solo_env) (block_keys bm_empty), vb_blocks = block_keys bm_empty\<rparr>\<rparr>,
    tk_blocks = bm_empty\<rparr>"

lemma genesis_chain_valid:
  assumes "ep_hash genesis = epoch_body_hash N (ep_body genesis)" "epb_previous_nonce (ep_body genesis) = None"
    "epb_consensus_parameters (ep_body genesis) = Some ConsensusParameters_default"
  shows "validate_trusted_chain N [genesis] removal_policy = Ok ()"
  using assms by (simp add: validate_trusted_chain_def validate_trusted_suffix_def effective_consensus_parameters_def
      ConsensusParameters_validate_def ConsensusParameters_default_def ConsensusParameters_new_def QuorumSize_new_def)

lemma solo_seed_valid: "validate_trusted_chain solo_env [solo_genesis] removal_policy_default = Ok ()"
  by (rule genesis_chain_valid)
    (simp_all add: solo_genesis_def genesis_epoch_def genesis_epoch_for_group_with_parameters_def set_hash_def Let_def epoch_body_hash_def)

lemma solo_log_opened: "log_open solo_env (Ok ()) log_tables_empty (PubKey 1) [solo_genesis] removal_policy_default = Ok (solo_log, [solo_genesis])"
  by (simp add: log_open_def solo_seed_valid solo_log_def solo_manifest_def log_tables_empty_def Let_def)

lemma solo_trusted_extension: "validate_trusted_extension solo_env solo_genesis solo_epoch removal_policy_default = Ok ()"
proof -
  have body: "ep_body solo_epoch = ep_body (build_verified_epoch solo_env solo_genesis bm_empty removal_policy_default)"
      "ep_hash solo_epoch = epoch_body_hash solo_env (ep_body solo_epoch)"
    by (simp_all add: solo_epoch_def set_hash_def epoch_body_hash_def)
  have verifiers: "fst (apply_epoch_membership_transition (ne_crypto solo_env) btree_index_tree (bm_insert (PubKey 1) solo_identity bm_empty)
      bm_empty h nonce removal_policy_default) = epb_verifiers (ep_body solo_epoch)" for h nonce
    by (simp add: solo_transition solo_epoch_body)
  show ?thesis
    using body verifiers
    by (simp add: validate_trusted_extension_def Let_def build_verified_epoch_fields solo_genesis_body case_prod_beta
        effective_consensus_parameters_def)
qed

lemma solo_holds: "holds_chain solo_env solo_log [solo_genesis]"
  using open_holds [OF _ _ _ solo_log_opened] by (simp add: log_tables_empty_def)

definition solo_locked_log :: "(PubKey, NodeIdentity) btree_map TrustedEpochLog" where
  "solo_locked_log = solo_log\<lparr>tl_tables := (tl_tables solo_log)\<lparr>lt_round_locks :=
    bm_insert (round_id_key (tk_round_id solo_lock)) solo_lock bm_empty\<rparr>\<rparr>"

lemma solo_log_sel:
  "lt_epochs (tl_tables solo_log) = bm_insert 0 solo_genesis bm_empty" "lt_head (tl_tables solo_log) = Some (0, HashType 207)"
  "lt_round_locks (tl_tables solo_log) = bm_empty" "lt_local_blocks (tl_tables solo_log) = bm_empty" "tl_manifest solo_log = solo_manifest"
  "tl_removal_policy solo_log = removal_policy_default" "tm_group_id solo_manifest = group_root" "tm_self_public_key solo_manifest = PubKey 1"
  by (simp_all add: solo_log_def solo_manifest_def log_manifest_def seed_tables_def write_head_def log_tables_empty_def
      solo_genesis_hash solo_genesis_body)

lemma solo_lock_valid: "lock_validate (ne_crypto solo_env) (PubKey 1) solo_lock = Ok ()"
  by (simp add: lock_validate_def solo_lock_def new_next_def)

lemma solo_locked: "lock_round solo_env (Ok ()) solo_lock solo_log = (Ok (), solo_locked_log)"
proof -
  have "head_epoch (tl_tables solo_log) = Ok solo_genesis" using holds_head [OF solo_holds] by (simp add: load_head_epoch_def)
  then show ?thesis
    by (simp add: lock_round_def solo_lock_valid transact_def lock_transaction_def solo_log_sel bm_values_def Let_def solo_locked_log_def)
      (simp add: solo_lock_def solo_genesis_hash solo_genesis_body new_next_def bm_values_def)
qed

lemma solo_locked_holds: "holds_chain solo_env solo_locked_log [solo_genesis]"
  using solo_holds by (simp add: holds_chain_def solo_locked_log_def)

lemma solo_transaction_written:
  "\<exists>tables. append_epochs_transaction (ne_crypto solo_env) solo_manifest [solo_epoch] None (tl_tables solo_locked_log) = Ok ((), Some tables)"
proof -
  have epoch: "epb_last_epoch (ep_body solo_epoch) = HashType 207" "epb_previous_nonce (ep_body solo_epoch) = Some 0"
      "epb_nonce (ep_body solo_epoch) = 1"
    using extension_nonce [OF solo_trusted_extension] solo_trusted_extension
    by (auto simp: validate_trusted_extension_def Let_def solo_genesis_hash solo_genesis_body split: if_splits)
  have "insert_epoch solo_epoch (bm_insert 0 solo_genesis bm_empty) = Ok (bm_insert 1 solo_epoch (bm_insert 0 solo_genesis bm_empty))"
    by (simp add: insert_epoch_def epoch)
  then show ?thesis
    using solo_lock_valid
    by (simp add: append_epochs_transaction_def solo_locked_log_def solo_log_sel read_head_def epoch retry_local_block_def
        final_lock_agrees_def lock_agrees_def bm_values_def Let_def eval_simps)
      (simp add: solo_lock_def epoch lock_blocks_def block_keys_def bm_keys_def bs_of_list_def)
qed

lemma solo_appended:
  "append_epoch solo_env (Err Io) solo_epoch None solo_locked_log = (Err Io, solo_locked_log)"
  "fst (append_epoch solo_env (Ok ()) solo_epoch None solo_locked_log) = Ok ()"
  using holds_head [OF solo_locked_holds] solo_transaction_written solo_trusted_extension
  by (auto simp: append_epoch_def append_validated_epochs_def transact_def solo_locked_log_def solo_log_sel)

definition solo_operations :: "(unit result \<times> (PubKey, NodeIdentity) btree_map log_operation) list" where
  "solo_operations = [(Ok (), LockRound solo_lock), (Err Io, AppendEpoch solo_epoch None), (Ok (), AppendEpoch solo_epoch None)]"

lemma solo_unwrapped: "unwrapped [solo_epoch]"
  using extension_nonce [OF solo_trusted_extension] by (simp add: solo_genesis_body)

lemma solo_acknowledged: "acknowledged solo_env solo_operations solo_log = [solo_epoch]"
  using solo_appended by (simp add: solo_operations_def solo_locked case_prod_beta)


theorem confirmation_binds_witness:
  "set (bm_keys (lock_blocks solo_lock)) \<subseteq> set (bm_keys (epb_blocks (ep_body solo_epoch)))"
proof -
  have "recorded_log solo_env solo_log"
    unfolding recorded_log_def
    by (intro exI [of _ "Ok ()"] exI [of _ log_tables_empty] exI [of _ "PubKey 1"] exI [of _ "[solo_genesis]"]
        exI [of _ removal_policy_default] exI [of _ solo_log] exI [of _ "[solo_genesis]"] exI [of _ "[]"])
      (simp add: solo_log_opened, simp add: log_tables_empty_def)
  moreover obtain log where "append_epoch solo_env (Ok ()) solo_epoch None solo_locked_log = (Ok (), log)"
    using solo_appended(2) by (metis prod.collapse)
  ultimately show ?thesis
    using confirmation_binds [OF _ solo_locked, of "[(Err Io, AppendEpoch solo_epoch None)]" "Ok ()" solo_lock log
        "AppendEpoch solo_epoch None"] solo_unwrapped solo_appended(1) by simp
qed


section \<open>A revocation in a trusted group\<close>

definition duo_identity :: NodeIdentity where
  "duo_identity = solo_identity\<lparr>ni_public_key := PubKey 2\<rparr>"

definition duo_genesis :: "(PubKey, NodeIdentity) btree_map Epoch" where
  "duo_genesis = genesis_epoch solo_env [solo_identity, duo_identity]"

definition duo_env :: "((PubKey, NodeIdentity) btree_map, (PubKey, unit) btree_map) node_env" where
  "duo_env = solo_env\<lparr>ne_codec := (ne_codec solo_env)\<lparr>borsh_operation_from_slice := \<lambda>_. Some
    \<lparr>co_group_id = group_root, co_parent_epoch_hash = ep_hash duo_genesis, co_operation = OpRevoke (PubKey 2) 2\<rparr>\<rparr>\<rparr>"

definition duo_block :: Block where
  "duo_block = (block_default 0)\<lparr>block_body := (block_body (block_default 0))\<lparr>bb_validator := PubKey 1,
    bb_txs := [solo_transaction\<lparr>tx_payload := MEMBER_OPERATION_PREFIX\<rparr>]\<rparr>\<rparr>"

definition duo_blocks :: block_map where
  "duo_blocks = bm_insert (HashType 9) duo_block bm_empty"

definition duo_log :: "(PubKey, NodeIdentity) btree_map TrustedEpochLog" where
  "duo_log = \<lparr>tl_tables = seed_tables (log_manifest (PubKey 1) duo_genesis removal_policy_default) [duo_genesis] log_tables_empty,
    tl_manifest = log_manifest (PubKey 1) duo_genesis removal_policy_default, tl_removal_policy = removal_policy_default\<rparr>"

abbreviation duo_verifiers :: "(PubKey, NodeIdentity) btree_map" where
  "duo_verifiers \<equiv> bm_insert (PubKey 2) duo_identity (bm_insert (PubKey 1) solo_identity bm_empty)"

abbreviation duo_members :: MemberSet where
  "duo_members \<equiv> bm_insert (PubKey 2) (bootstrap_member duo_identity) (bm_insert (PubKey 1) (bootstrap_member solo_identity) bm_empty)"

lemma duo_genesis_body:
  "epb_verifiers (ep_body duo_genesis) = duo_verifiers" "epb_group_id (ep_body duo_genesis) = group_root"
  "ep_hash duo_genesis = epoch_body_hash duo_env (ep_body duo_genesis)" "epb_previous_nonce (ep_body duo_genesis) = None"
  "epb_consensus_parameters (ep_body duo_genesis) = Some ConsensusParameters_default"
  by (simp_all add: duo_genesis_def duo_env_def genesis_epoch_def genesis_epoch_for_group_with_parameters_def set_hash_def Let_def
      btree_index_tree_def solo_identity_def duo_identity_def public_only_def epoch_body_hash_def epoch_to_bytes_def)

lemma duo_genesis_members: "epb_members (ep_body duo_genesis) = duo_members"
  by (simp add: duo_genesis_def genesis_epoch_def genesis_epoch_for_group_with_parameters_def set_hash_def Let_def from_verifiers_def
      btree_index_tree_def it_values_def bm_of_list_def solo_identity_def duo_identity_def public_only_def bootstrap_member_def
      mr_public_key_def eval_simps)

lemma duo_transition:
  "fst (apply_epoch_membership_transition E btree_index_tree duo_verifiers duo_blocks h nonce removal_policy_default) = duo_verifiers"
  by (simp add: apply_epoch_membership_transition_def derive_consensus_node_removal_plan_def removal_policy_default_def
      apply_consensus_node_removal_plan_def apply_consensus_node_admission_plan_def derive_consensus_node_admission_plan_def
      admission_evidence_of_def bm_values_def Let_def duo_blocks_def duo_block_def block_default_def eval_simps)

lemma duo_sync: "sync_legacy_validators btree_index_tree duo_verifiers duo_members = duo_members"
  by (rule bm_eqI) (auto simp: sync_legacy_validators_def sync_verifier_def suspend_missing_def it_values_def bootstrap_member_def
      solo_identity_def duo_identity_def public_only_def bm_values_def eval_simps bm_insert_same [OF solo_capability] mr_public_key_def
      fun_eq_iff)

lemma duo_operation:
  "apply_committed_member_operations (ne_codec duo_env) duo_members duo_blocks group_root (ep_hash duo_genesis)
    = bm_insert (PubKey 2) ((bootstrap_member duo_identity)\<lparr>mr_generation := 2, mr_status := StatusRevoked\<rparr>) duo_members"
  by (simp add: apply_committed_member_operations_def apply_member_transaction_def operation_from_transaction_def duo_blocks_def
      duo_block_def duo_env_def bm_values_def eval_simps require_next_member_generation_def saturating_succ_def bootstrap_member_def)

lemma duo_active:
  "active_validators btree_index_tree (bm_insert (PubKey 2) ((bootstrap_member duo_identity)\<lparr>mr_generation := 2, mr_status := StatusRevoked\<rparr>)
    duo_members) = bm_insert (PubKey 1) solo_identity bm_empty"
  by (simp add: active_validators_def active_with_def is_active_with_def bm_values_def eval_simps bootstrap_member_def mr_public_key_def
      solo_identity_def public_only_def bm_contains_def solo_capability)

lemma duo_next_members: "snd (next_members duo_env duo_genesis duo_blocks removal_policy_default) = bm_insert (PubKey 1) solo_identity bm_empty"
proof -
  have "ne_tree duo_env = btree_index_tree" by (simp add: duo_env_def)
  then show ?thesis
    using duo_transition [of "ne_crypto duo_env" "ep_hash duo_genesis" "new_next (epb_nonce (ep_body duo_genesis))"]
    by (simp add: next_members_def duo_genesis_body(1,2) duo_genesis_members apply_epoch_member_registry_transition_def
        duo_sync duo_operation duo_active Let_def bm_is_empty_def bm_len_def eval_simps case_prod_beta)
qed

lemma duo_holds: "holds_chain duo_env duo_log [duo_genesis]"
proof -
  have "validate_trusted_chain duo_env [duo_genesis] removal_policy_default = Ok ()"
    by (rule genesis_chain_valid) (simp_all add: duo_genesis_body)
  then have "log_open duo_env (Ok ()) log_tables_empty (PubKey 1) [duo_genesis] removal_policy_default = Ok (duo_log, [duo_genesis])"
    by (simp add: log_open_def duo_log_def log_tables_empty_def Let_def)
  then show ?thesis using open_holds [of log_tables_empty "[duo_genesis]" duo_env "Ok ()" "PubKey 1" removal_policy_default]
    by (simp add: log_tables_empty_def)
qed


end
