(* ===== verification/AlgorithmTopology.thy ===== *)
theory AlgorithmTopology
  imports Algorithm
begin

text \<open>
  The topology of the quorums \<open>algorithm.rs\<close> selects. A network of \<open>n\<close> nodes is laid out
  on \<open>m * q ^ e\<close> positions (the nodes beyond them share the position of an earlier one);
  in round \<open>r\<close> a quorum is the class of the positions that agree on the digit above
  \<open>q ^ r\<close> and on the digits below it. The lemmas describe the loops of the code by these
  classes; the properties follow from the classes being an equivalence relation whose
  composition over the rounds is the full network.
\<close>

section \<open>The shuffle\<close>

lemma mset_shuffle_loop: "i < length xs \<or> i = 0 \<Longrightarrow> mset (shuffle_loop i st xs) = mset xs"
proof (induction i arbitrary: st xs)
  case (Suc i)
  let ?j = "unat (xorshift st) mod (Suc i + 1)"
  have "?j < length xs"
    using Suc.prems mod_less_divisor [of "Suc i + 1" "unat (xorshift st)"] by linarith
  with Suc show ?case by (auto simp: Let_def mset_list_swap)
qed simp

lemma mset_deterministic_shuffle: "mset (deterministic_shuffle xs seed) = mset xs"
  by (cases xs) (simp_all add: deterministic_shuffle_def mset_shuffle_loop)


section \<open>The round number\<close>

lemma checked_pow_loop_eq:
  "0 < base \<Longrightarrow> val * base ^ e \<le> usize_max \<Longrightarrow> checked_pow_loop base e val = Some (val * base ^ e)"
proof (induction e arbitrary: val)
  case (Suc e)
  have "1 \<le> base ^ e" using Suc.prems(1) by simp
  then have "val * base * 1 \<le> val * base * base ^ e" by (rule mult_le_mono2)
  also have "\<dots> \<le> usize_max" using Suc.prems(2) by (simp only: power_Suc mult.assoc)
  finally have "val * base \<le> usize_max" by simp
  with Suc show ?case by (simp add: checked_mul_def mult.assoc)
qed simp

lemma checked_pow_loop_None:
  "0 < base \<Longrightarrow> val \<le> usize_max \<Longrightarrow> usize_max < val * base ^ e \<Longrightarrow> checked_pow_loop base e val = None"
proof (induction e arbitrary: val)
  case (Suc e)
  then show ?case by (auto simp: checked_mul_def mult.assoc)
qed simp

lemma checked_pow_eq: "0 < base \<Longrightarrow> base ^ e \<le> usize_max \<Longrightarrow> checked_pow base e = Some (base ^ e)"
  by (simp add: checked_pow_def checked_pow_loop_eq)

lemma checked_pow_None: "0 < base \<Longrightarrow> usize_max < base ^ e \<Longrightarrow> checked_pow base e = None"
  by (simp add: checked_pow_def checked_pow_loop_None usize_max_def)

definition round_inv :: "usize \<Rightarrow> usize \<Rightarrow> usize \<times> usize \<Rightarrow> bool" where
  "round_inv n q = (\<lambda>(b, x). b = q ^ x \<and> 1 \<le> x \<and> b \<le> n)"

lemma round_inv_step:
  assumes "2 \<le> q" "n \<le> usize_max" "round_inv n q s" "round_loop_cond n q s"
  shows "round_inv n q (round_loop_body q s)"
    and "n - fst (round_loop_body q s) < n - fst s"
proof -
  obtain b x where s: "s = (b, x)" by (cases s)
  have b: "b = q ^ x" "1 \<le> x" "b * q \<le> n"
    using assms by (auto simp: s round_inv_def round_loop_cond_def usize_simps split: option.splits)
  have "x + 1 < 2 ^ (x + 1)" by (rule less_exp)
  also have "\<dots> \<le> q ^ (x + 1)" using assms(1) by (rule power_mono) simp
  finally have "x + 1 \<le> usize_max" using b assms(2) by (simp add: mult.commute)
  then show "round_inv n q (round_loop_body q s)"
    using b by (simp add: s round_inv_def round_loop_body_def saturating_add_def mult.commute)
  have "0 < b" using assms(1) b(1) by simp
  then have "b < b * q" using assms(1) by simp
  with b(3) have "n - b * q < n - b" by linarith
  then show "n - fst (round_loop_body q s) < n - fst s"
    by (simp add: s round_loop_body_def)
qed

lemma round_loop_terminates:
  assumes "2 \<le> q" "n \<le> usize_max" "q \<le> n"
  shows "\<exists>b x. while_option (round_loop_cond n q) (round_loop_body q) (q, 1) = Some (b, x)
    \<and> b = q ^ x \<and> 1 \<le> x \<and> q ^ x \<le> n \<and> n < q ^ Suc x"
proof -
  have start: "round_inv n q (q, 1)" using assms(3) by (simp add: round_inv_def)
  obtain t where t: "while_option (round_loop_cond n q) (round_loop_body q) (q, 1) = Some t"
    using measure_while_option_Some
      [of "round_inv n q" "round_loop_cond n q" "round_loop_body q" "\<lambda>s. n - fst s" "(q, 1)"]
      round_inv_step [OF assms(1,2)] start by blast
  have inv: "round_inv n q t"
    by (rule while_option_rule [where P = "round_inv n q", OF _ t start])
      (rule round_inv_step(1) [OF assms(1,2)])
  have "\<not> round_loop_cond n q t" by (rule while_option_stop [OF t])
  then have "\<not> fst t * q \<le> n"
    using assms(2) by (auto simp: round_loop_cond_def checked_mul_def split: prod.splits if_splits)
  with t inv show ?thesis
    by (cases t) (auto simp: round_inv_def mult.commute)
qed

text \<open>A network above the quorum size is laid out on \<open>m\<close> blocks of \<open>q ^ e\<close> positions.\<close>

lemma find_round_number_large:
  assumes "n \<le> usize_max" "quorum_get Q < n"
  obtains m e where "1 \<le> e" "1 \<le> m" "m < quorum_get Q"
    "m * quorum_get Q ^ e \<le> n" "n < (m + 1) * quorum_get Q ^ e"
    "find_round_number_with_size n Q = (m * quorum_get Q ^ e, e + (if 1 < m then 1 else 0))"
proof -
  let ?q = "quorum_get Q"
  have q: "2 \<le> ?q" using quorum_get_ge_3 [of Q] by simp
  obtain b e where be: "while_option (round_loop_cond n ?q) (round_loop_body ?q) (?q, 1) = Some (b, e)"
    "b = ?q ^ e" "1 \<le> e" "?q ^ e \<le> n" "n < ?q ^ Suc e"
    using round_loop_terminates [OF q assms(1)] assms(2) by auto
  have pos: "0 < ?q ^ e" by simp
  define m where "m = n div ?q ^ e"
  have m1: "1 \<le> m" using be(4) pos by (simp add: m_def div_greater_zero_iff Suc_le_eq)
  have mq: "m < ?q" using be(5) pos by (simp add: m_def less_mult_imp_div_less)
  have le: "m * ?q ^ e \<le> n" by (simp add: m_def)
  have lt: "n < (m + 1) * ?q ^ e"
    using pos by (metis Suc_eq_plus1 dividend_less_div_times m_def mult.commute mult_Suc_right)
  have "checked_mul (?q ^ e) m = Some (m * ?q ^ e)"
    using le assms(1) by (simp add: checked_mul_def mult.commute)
  moreover have "?q ^ e < m * ?q ^ e \<longleftrightarrow> 1 < m" using pos by simp
  ultimately have "find_round_number_with_size n Q = (m * ?q ^ e, e + (if 1 < m then 1 else 0))"
    using assms(2) be(1,2) by (simp add: find_round_number_with_size_def while_def Let_def m_def)
  with be(3) m1 mq le lt that show thesis by blast
qed


lemma find_round_number_layout:
  assumes "n \<le> usize_max" "quorum_get Q \<le> n"
  obtains m e where "1 \<le> e" "1 \<le> m" "m < quorum_get Q"
    "m * quorum_get Q ^ e \<le> n" "n < (m + 1) * quorum_get Q ^ e"
    "find_round_number_with_size n Q = (m * quorum_get Q ^ e, e + (if 1 < m then 1 else 0))"
proof (cases "n = quorum_get Q")
  case True
  have "find_round_number_with_size n Q = (1 * quorum_get Q ^ 1, 1 + (if 1 < (1::nat) then 1 else 0))"
    using True by (simp add: find_round_number_with_size_def)
  with that [of 1 1] True quorum_get_ge_3 [of Q] show thesis by simp
next
  case False
  with assms find_round_number_large [of n Q] that show thesis by (metis nless_le)
qed

lemma find_round_number_small:
  "0 < n \<Longrightarrow> n \<le> quorum_get Q \<Longrightarrow> find_round_number_with_size n Q = (n, 1)"
  by (simp add: find_round_number_with_size_def)


section \<open>The member loop\<close>

lemma member_index_eq:
  assumes "0 < off"
  shows "Option.bind (checked_mul k sm) (\<lambda>v. Option.bind (checked_mul v off) (checked_add first))
    = (if first + k * (sm * off) \<le> usize_max then Some (first + k * (sm * off)) else None)"
proof -
  have "k * sm * 1 \<le> k * sm * off" using assms by (intro mult_le_mono2) simp
  then have "k * sm \<le> k * (sm * off)" by (simp only: mult.assoc mult_1_right)
  then have "k * (sm * off) \<le> usize_max \<Longrightarrow> k * sm \<le> usize_max" by (rule le_trans)
  then show ?thesis by (auto simp: checked_mul_def checked_add_def mult.assoc)
qed

lemma push_loop_eq:
  assumes "0 < off" "N \<le> usize_max" "\<And>j. at j = (if j < N then Some (key j) else None)"
  shows "push_quorum_members_loop at first sm off k rem quorum
    = quorum @ map key (filter (\<lambda>j. j < N) (map (\<lambda>i. first + i * (sm * off)) [k..<k + rem]))"
proof (induction rem arbitrary: k quorum)
  case (Suc rem)
  have upt: "[k..<k + Suc rem] = k # [Suc k..<Suc k + rem]" by (simp add: upt_conv_Cons)
  show ?case
  proof (cases "first + k * (sm * off) < N")
    case True
    then have "push_quorum_members_loop at first sm off k (Suc rem) quorum
      = push_quorum_members_loop at first sm off (Suc k) rem (quorum @ [key (first + k * (sm * off))])"
      using assms(2) by (simp add: member_index_eq [OF assms(1)] assms(3))
    then show ?thesis
      using True by (simp only: Suc.IH upt) simp
  next
    case False
    then have "\<not> first + i * (sm * off) < N" if "k \<le> i" for i
      using mult_le_mono1 [OF that, of "sm * off"] by linarith
    then have "filter (\<lambda>j. j < N) (map (\<lambda>i. first + i * (sm * off)) [k..<k + Suc rem]) = []"
      by (auto simp: filter_empty_conv)
    with False show ?thesis
      using assms(3) by (simp add: member_index_eq [OF assms(1)] del: upt_Suc)
  qed
qed simp


section \<open>Quorum classes\<close>

definition same_group :: "nat \<Rightarrow> nat \<Rightarrow> nat \<Rightarrow> nat \<Rightarrow> bool" where
  "same_group B d i s \<longleftrightarrow> i div B = s div B \<and> i mod d = s mod d"

lemma same_group_refl [simp]: "same_group B d i i"
  by (simp add: same_group_def)

lemma same_group_sym: "same_group B d i s \<longleftrightarrow> same_group B d s i"
  by (auto simp: same_group_def)

lemma same_group_trans: "same_group B d i s \<Longrightarrow> same_group B d i t \<longleftrightarrow> same_group B d s t"
  by (auto simp: same_group_def)

lemma progression_group:
  assumes "0 < d" "0 < q"
  shows "(\<lambda>k. s - s mod (q * d) + s mod d + k * d) ` {..<q} = {j. same_group (q * d) d j s}"
    (is "?f ` _ = ?G")
proof (intro set_eqI iffI)
  fix j
  assume "j \<in> ?f ` {..<q}"
  then obtain k where k: "k < q" and j: "j = ?f k" by blast
  have base: "s - s mod (q * d) = q * d * (s div (q * d))"
    by (simp add: minus_mod_eq_mult_div)
  have "s mod d + k * d < (k + 1) * d" using assms by simp
  also have "\<dots> \<le> q * d" using k by (intro mult_le_mono1) simp
  finally have "j div (q * d) = s div (q * d)"
    using assms k by (simp add: j base add.assoc)
  moreover have "j mod d = s mod d" by (simp add: j base mult.assoc mult.left_commute [of q])
  ultimately show "j \<in> ?G" by (simp add: same_group_def)
next
  fix j
  assume "j \<in> ?G"
  then have g: "j div (q * d) = s div (q * d)" "j mod d = s mod d" by (auto simp: same_group_def)
  define k where "k = j mod (q * d) div d"
  have "j mod (q * d) mod d = s mod d" using g(2) by (simp add: mod_mod_cancel)
  then have "j mod (q * d) = s mod d + k * d"
    unfolding k_def by (metis add.commute div_mult_mod_eq)
  moreover have "j = q * d * (s div (q * d)) + j mod (q * d)"
    using g(1) by (metis mult_div_mod_eq)
  ultimately have "j = ?f k" by (simp add: minus_mod_eq_mult_div)
  moreover have "k < q"
    using assms by (simp add: k_def less_mult_imp_div_less)
  ultimately show "j \<in> ?f ` {..<q}" by blast
qed


lemma group_below:
  assumes "B dvd opt" "s < opt" "same_group B d j s"
  shows "j < opt"
proof -
  obtain c where c: "opt = B * c" using assms(1) by (elim dvdE)
  with assms(2) have "0 < B" by (cases "B = 0") auto
  have "s div B < c" using assms(2) by (simp add: c less_mult_imp_div_less mult.commute)
  then have "j div B < c" using assms(3) by (simp add: same_group_def)
  then show ?thesis using \<open>0 < B\<close> by (simp add: c div_less_iff_less_mult mult.commute)
qed

text \<open>Both segments of the loop together visit the indices whose position is in the class.\<close>

lemma segments_group:
  assumes "0 < d" "0 < q" "q * d dvd opt" "s < opt" "opt \<le> N" "N < 2 * opt"
    and "first = s - s mod (q * d) + s mod d"
  shows "set (filter (\<lambda>j. j < N) (map (\<lambda>i. first + i * d) [0..<q]))
      \<union> set (filter (\<lambda>j. j < N) (map (\<lambda>i. opt + first + i * d) [0..<q]))
    = {j. j < N \<and> same_group (q * d) d (j mod opt) s}"
proof -
  let ?G = "{j. same_group (q * d) d j s}"
  have G: "(\<lambda>i. first + i * d) ` {..<q} = ?G"
    using progression_group [OF assms(1,2), of s] by (simp add: assms(7))
  have below: "j < opt" if "j \<in> ?G" for j
    using group_below [OF assms(3,4)] that by blast
  have "(\<lambda>i. opt + first + i * d) ` {..<q} = (+) opt ` ?G"
    by (simp add: G [symmetric] image_image add.assoc)
  then have "set (filter (\<lambda>j. j < N) (map (\<lambda>i. first + i * d) [0..<q]))
      \<union> set (filter (\<lambda>j. j < N) (map (\<lambda>i. opt + first + i * d) [0..<q]))
    = {j. j < N \<and> j \<in> ?G \<union> (+) opt ` ?G}"
    using G by (auto simp: lessThan_atLeast0)
  also have "\<dots> = {j. j < N \<and> j mod opt \<in> ?G}"
  proof (intro Collect_cong conj_cong refl iffI)
    fix j
    assume "j < N" "j \<in> ?G \<union> (+) opt ` ?G"
    then show "j mod opt \<in> ?G" using below by auto
  next
    fix j
    assume j: "j < N" "j mod opt \<in> ?G"
    show "j \<in> ?G \<union> (+) opt ` ?G"
    proof (cases "j < opt")
      case False
      with j(1) assms(6) have "j = opt + j mod opt" by (simp add: le_mod_geq)
      with j(2) show ?thesis by blast
    qed (use j in simp)
  qed
  finally show ?thesis by simp
qed


section \<open>One round\<close>

definition node_at :: "('m, PubKey, 'n) index_tree_ops \<Rightarrow> 'm \<Rightarrow> usize list \<Rightarrow> usize \<Rightarrow> PubKey" where
  "node_at T node_map ordered j = it_keys T node_map ! (ordered ! j)"

definition class_quorum ::
  "(usize \<Rightarrow> PubKey) \<Rightarrow> usize \<Rightarrow> usize \<Rightarrow> usize \<Rightarrow> usize \<Rightarrow> usize \<Rightarrow> PubKey list" where
  "class_quorum key N opt B d s =
    btree_collect (map key (filter (\<lambda>j. same_group B d (j mod opt) s) [0..<N]))"

lemma ordered_perm:
  assumes "mset ordered = mset [0..<N]"
  shows "length ordered = N" "distinct ordered" "set ordered = {..<N}"
proof -
  show "length ordered = N" using mset_eq_length [OF assms] by simp
  show "set ordered = {..<N}" using mset_eq_setD [OF assms] by (simp add: lessThan_atLeast0)
  show "distinct ordered" using assms mset_eq_imp_distinct_iff by (metis distinct_upt)
qed

lemma member_at_eq:
  assumes "index_tree T" "mset ordered = mset [0..<it_len T node_map]"
  shows "member_at T node_map ordered j =
    (if j < it_len T node_map then Some (node_at T node_map ordered j) else None)"
proof -
  note p = ordered_perm [OF assms(2)]
  have "ordered ! j < it_len T node_map" if "j < it_len T node_map"
    using p that by (metis lessThan_iff nth_mem)
  then show ?thesis
    using p(1) by (simp add: member_at_def slice_get_def node_at_def
        index_tree.key_from_index [OF assms(1)] index_tree.len_keys [OF assms(1)])
qed

lemma round_quorum_class:
  fixes T node_map ordered Q
  defines "N \<equiv> it_len T node_map" and "q \<equiv> quorum_get Q"
  assumes "index_tree T" "mset ordered = mset [0..<N]" "N \<le> usize_max"
    and "round_layout q opt r = (r', q * d, sm)" "sm * q ^ r' = d" "0 < d" "q * d dvd opt"
    and "s < opt" "opt \<le> N" "N < 2 * opt"
  shows "round_quorum T node_map ordered s opt Q r
    = class_quorum (node_at T node_map ordered) N opt (q * d) d s"
proof -
  let ?key = "node_at T node_map ordered"
  define f0 where "f0 = s - s mod (q * d) + s mod d"
  have q: "0 < q" by (simp add: q_def)
  have "q * d \<le> opt" using assms(9,10) by (intro dvd_imp_le) auto
  have d_le: "d \<le> opt"
    using \<open>q * d \<le> opt\<close> q by (metis dvd_imp_le dvd_triv_right le_trans mult_pos_pos assms(8))
  have off: "0 < q ^ r'" using q by simp
  have "q ^ r' \<le> d" using assms(7,8) by (metis dvd_imp_le dvd_triv_right)
  then have pow: "checked_pow q r' = Some (q ^ r')"
    using q d_le assms(5,11) by (intro checked_pow_eq) auto
  have stride: "checked_mul sm (q ^ r') = Some d"
    using assms(5,7,11) d_le by (simp add: checked_mul_def)
  have "s mod d \<le> s mod (q * d)" by (metis mod_less_eq_dividend mod_mod_cancel dvd_triv_right)
  then have "f0 \<le> s" by (simp add: f0_def le_diff_conv2 mod_less_eq_dividend)
  then have first: "checked_add (s - s mod (q * d)) (s mod d) = Some f0"
    using assms(5,10,11) by (simp add: checked_add_def f0_def)
  have push: "push_quorum_members T xs node_map ordered f sm (q ^ r') Q
    = xs @ map ?key (filter (\<lambda>j. j < N) (map (\<lambda>i. f + i * d) [0..<q]))" for xs f
    using push_loop_eq [OF off assms(5) member_at_eq [OF assms(3), of ordered node_map,
          folded N_def, OF assms(4)], of f sm 0 q xs]
    by (simp add: push_quorum_members_def q_def [symmetric] assms(7))
  have seg2: "(case checked_add opt f0 of None \<Rightarrow> xs
      | Some second \<Rightarrow> push_quorum_members T xs node_map ordered second sm (q ^ r') Q)
    = xs @ map ?key (filter (\<lambda>j. j < N) (map (\<lambda>i. opt + f0 + i * d) [0..<q]))" for xs
  proof (cases "opt + f0 \<le> usize_max")
    case False
    then have "filter (\<lambda>j. j < N) (map (\<lambda>i. opt + f0 + i * d) [0..<q]) = []"
      using assms(5) by (auto simp: filter_empty_conv)
    with False show ?thesis by (simp add: checked_add_def)
  qed (simp add: checked_add_def push)
  have len: "(length ordered \<ge> opt) = True" using ordered_perm(1) [OF assms(4)] assms(11) by simp
  have "round_quorum T node_map ordered s opt Q r
    = btree_collect (map ?key (filter (\<lambda>j. j < N) (map (\<lambda>i. f0 + i * d) [0..<q]))
        @ map ?key (filter (\<lambda>j. j < N) (map (\<lambda>i. opt + f0 + i * d) [0..<q])))"
    by (simp only: round_quorum_def q_def [symmetric] assms(6) Let_def prod.case pow stride
        unwrap_or.simps first len if_True seg2 btree_collect_def)
      (simp only: push append_Nil)
  also have "\<dots> = class_quorum ?key N opt (q * d) d s"
    unfolding class_quorum_def
    using segments_group [OF assms(8) q assms(9-12) f0_def]
    by (intro btree_collect_cong) (simp only: set_map set_append image_Un [symmetric], auto)
  finally show ?thesis .
qed


section \<open>All rounds\<close>

definition round_stride :: "usize \<Rightarrow> usize \<Rightarrow> usize \<Rightarrow> usize \<Rightarrow> usize" where
  "round_stride q m e r = (if r < e then q ^ r else m * q ^ (e - 1))"

definition layout_rounds :: "usize \<Rightarrow> usize \<Rightarrow> usize" where
  "layout_rounds m e = e + (if 1 < m then 1 else 0)"

lemma exponent_bound:
  assumes "2 \<le> (q::nat)" "1 \<le> m" "m * q ^ e \<le> usize_max"
  shows "e < usize_max"
proof -
  have "e < 2 ^ e" by (rule less_exp)
  also have "\<dots> \<le> q ^ e" using assms(1) by (rule power_mono) simp
  also have "\<dots> \<le> m * q ^ e" using assms(2) by simp
  finally show ?thesis using assms(3) by simp
qed

lemma round_layout_block:
  assumes "2 \<le> q" "1 \<le> m" "m * q ^ e \<le> usize_max" "r < e"
  shows "round_layout q (m * q ^ e) r = (r, q * q ^ r, 1)"
proof -
  have "q ^ Suc r \<le> q ^ e" using assms(1,4) by (intro power_increasing) auto
  also have "\<dots> \<le> m * q ^ e" using assms(2) by simp
  finally have le: "q ^ Suc r \<le> m * q ^ e" .
  then have "checked_pow q (Suc r) = Some (q ^ Suc r)"
    using assms by (intro checked_pow_eq) auto
  moreover have "saturating_add r 1 = Suc r"
    using exponent_bound [OF assms(1-3)] assms(4) by (simp add: saturating_add_def)
  ultimately show ?thesis using le by (simp add: round_layout_def)
qed

lemma round_layout_last:
  assumes "2 \<le> q" "1 \<le> m" "m < q" "m * q ^ e < usize_max"
  shows "round_layout q (m * q ^ e) e = (e - 1, m * q ^ e, m)"
proof -
  have sat: "saturating_add e 1 = Suc e"
    using exponent_bound [OF assms(1,2) less_imp_le [OF assms(4)]] by (simp add: saturating_add_def)
  have "m * q ^ e < q * q ^ e" using assms by simp
  then have "m * q ^ e < unwrap_or (checked_pow q (Suc e)) (saturating_add (m * q ^ e) 1)"
    using assms by (cases "q ^ Suc e \<le> usize_max")
      (auto simp: checked_pow_eq checked_pow_None saturating_add_def)
  moreover have "checked_pow q e = Some (q ^ e)"
    using assms by (intro checked_pow_eq) (auto intro: le_trans [of _ "m * q ^ e"])
  ultimately show ?thesis
    using assms sat by (simp add: round_layout_def saturating_sub_def max_absorb1)
qed

lemma round_layout_stride:
  assumes "2 \<le> q" "1 \<le> e" "1 \<le> m" "m < q" "m * q ^ e < usize_max" "r < layout_rounds m e"
  obtains r' sm where "round_layout q (m * q ^ e) r = (r', q * round_stride q m e r, sm)"
    "sm * q ^ r' = round_stride q m e r" "0 < round_stride q m e r"
    "q * round_stride q m e r dvd m * q ^ e"
proof (cases "r < e")
  case True
  have "q * q ^ r dvd q ^ e" using True by (metis Suc_leI le_imp_power_dvd power_Suc)
  with that [of r 1] round_layout_block [OF assms(1,3) less_imp_le [OF assms(5)] True] True assms(1) show thesis
    by (simp add: round_stride_def)
next
  case False
  with assms(6) have r: "r = e" "1 < m" by (auto simp: layout_rounds_def split: if_splits)
  have pw: "q ^ e = q * q ^ (e - 1)" using assms(2) by (metis Suc_diff_1 Suc_le_eq power_Suc One_nat_def)
  with that [of "e - 1" m] round_layout_last [OF assms(1,3,4,5)] r assms(1,3) show thesis
    by (simp add: round_stride_def mult.left_commute)
qed

definition node_order :: "usize \<Rightarrow> HashType \<Rightarrow> bool \<Rightarrow> usize list" where
  "node_order N seed shuffle = (if shuffle then deterministic_shuffle [0..<N] seed else [0..<N])"

lemma mset_node_order: "mset (node_order N seed shuffle) = mset [0..<N]"
  by (simp add: node_order_def mset_deterministic_shuffle)

lemma self_position:
  assumes "index_tree T" "s < it_len T node_map"
    and "ordered = node_order (it_len T node_map) seed shuffle"
    and "self_key = node_at T node_map ordered s"
  shows "it_get_index_from_key T node_map self_key = Some (ordered ! s)"
    and "(if shuffle then unwrap_or (position (\<lambda>i. i = ordered ! s) ordered) (ordered ! s) else ordered ! s) = s"
proof -
  note p = ordered_perm [OF mset_node_order [of "it_len T node_map" seed shuffle], folded assms(3)]
  have "ordered ! s < it_len T node_map" using p assms(2) by (metis lessThan_iff nth_mem)
  then show "it_get_index_from_key T node_map self_key = Some (ordered ! s)"
    using position_nth [OF index_tree.keys_distinct [OF assms(1)]]
    by (simp add: index_tree.index_from_key [OF assms(1)] assms(4) node_at_def index_tree.len_keys [OF assms(1)])
  show "(if shuffle then unwrap_or (position (\<lambda>i. i = ordered ! s) ordered) (ordered ! s) else ordered ! s) = s"
    using position_nth [OF p(2), of s] p(1) assms(2) by (cases shuffle) (simp_all add: assms(3) node_order_def)
qed

lemma node_at_surj:
  assumes "index_tree T" "mset ordered = mset [0..<it_len T node_map]" "k \<in> set (it_keys T node_map)"
  obtains s where "s < it_len T node_map" "k = node_at T node_map ordered s"
proof -
  obtain i where i: "i < it_len T node_map" "k = it_keys T node_map ! i"
    using assms(3) by (metis in_set_conv_nth index_tree.len_keys [OF assms(1)])
  note p = ordered_perm [OF assms(2)]
  from i(1) obtain s where "s < it_len T node_map" "ordered ! s = i"
    using p by (metis in_set_conv_nth lessThan_iff)
  with i that show thesis by (simp add: node_at_def)
qed

lemma node_at_inj:
  assumes "index_tree T" "mset ordered = mset [0..<it_len T node_map]"
  shows "inj_on (node_at T node_map ordered) {..<it_len T node_map}"
    and "node_at T node_map ordered ` {..<it_len T node_map} = set (it_keys T node_map)"
proof -
  note p = ordered_perm [OF assms(2)]
  have lt: "ordered ! j < length (it_keys T node_map)" if "j < it_len T node_map" for j
    using p that by (metis index_tree.len_keys [OF assms(1)] lessThan_iff nth_mem)
  show "inj_on (node_at T node_map ordered) {..<it_len T node_map}"
    using lt p(1,2) index_tree.keys_distinct [OF assms(1)]
    by (auto simp: inj_on_def node_at_def nth_eq_iff_index_eq)
  show "node_at T node_map ordered ` {..<it_len T node_map} = set (it_keys T node_map)"
  proof (intro equalityI subsetI)
    fix k
    assume "k \<in> set (it_keys T node_map)"
    then obtain s where "s < it_len T node_map" "k = node_at T node_map ordered s"
      by (rule node_at_surj [OF assms])
    then show "k \<in> node_at T node_map ordered ` {..<it_len T node_map}" by blast
  qed (use lt in \<open>auto simp: node_at_def\<close>)
qed

lemma select_quorums_unfold:
  assumes "index_tree T" "s < it_len T node_map"
    and "find_round_number_with_size (it_len T node_map) Q = (opt, rounds)" "opt \<noteq> 0" "rounds \<noteq> 0"
    and "self_key = node_at T node_map (node_order (it_len T node_map) seed shuffle) s"
  shows "select_quorums_from_index_tree_with_size T node_map self_key seed shuffle Q
    = map (round_quorum T node_map (node_order (it_len T node_map) seed shuffle) (s mod opt) opt Q)
        [0..<rounds]"
proof -
  note pos = self_position [OF assms(1,2) refl assms(6)]
  have "(it_len T node_map = 0) = False" "(opt = 0 \<or> rounds = 0) = False" "(it_len T node_map = 0 \<or> opt = 0) = False"
    using assms(2,4,5) by simp_all
  then have "select_quorums_from_index_tree_with_size T node_map self_key seed shuffle Q
    = algorithm_with_size T node_map (node_order (it_len T node_map) seed shuffle) s opt rounds Q"
    by (simp only: select_quorums_from_index_tree_with_size_def pos option.case assms(3) prod.case
        Let_def if_False node_order_def [symmetric])
  moreover have "(if s \<ge> opt then s mod opt else s) = s mod opt" by simp
  ultimately show ?thesis
    using assms(2,4) by (simp only: algorithm_with_size_def Let_def) simp
qed

lemma select_quorums_classes:
  fixes T node_map Q
  defines "N \<equiv> it_len T node_map" and "q \<equiv> quorum_get Q"
  assumes "index_tree T" "N < usize_max" "1 \<le> e" "1 \<le> m" "m < q"
    and "m * q ^ e \<le> N" "N < (m + 1) * q ^ e"
    and "find_round_number_with_size N Q = (m * q ^ e, layout_rounds m e)"
    and "s < N" "self_key = node_at T node_map (node_order N seed shuffle) s"
  shows "select_quorums_from_index_tree_with_size T node_map self_key seed shuffle Q
    = map (\<lambda>r. class_quorum (node_at T node_map (node_order N seed shuffle)) N (m * q ^ e)
        (q * round_stride q m e r) (round_stride q m e r) (s mod (m * q ^ e))) [0..<layout_rounds m e]"
proof -
  let ?ord = "node_order N seed shuffle"
  have q: "2 \<le> q" "0 < q" using quorum_get_ge_3 [of Q] by (simp_all add: q_def)
  have opt: "0 < m * q ^ e" using q assms(6) by simp
  have "(m + 1) * q ^ e \<le> (2 * m) * q ^ e" using assms(6) by (intro mult_le_mono1) simp
  then have N2: "N < 2 * (m * q ^ e)" using assms(9) by (simp only: mult.assoc)
  have "round_quorum T node_map ?ord (s mod (m * q ^ e)) (m * q ^ e) Q r
    = class_quorum (node_at T node_map ?ord) N (m * q ^ e) (q * round_stride q m e r)
        (round_stride q m e r) (s mod (m * q ^ e))" if r: "r < layout_rounds m e" for r
  proof -
    obtain r' sm where "round_layout q (m * q ^ e) r = (r', q * round_stride q m e r, sm)"
      "sm * q ^ r' = round_stride q m e r" "0 < round_stride q m e r"
      "q * round_stride q m e r dvd m * q ^ e"
      using round_layout_stride [OF q(1) assms(5,6,7) le_less_trans [OF assms(8,4)] r] by metis
    then show ?thesis
      using round_quorum_class [OF assms(3) mset_node_order [of _ seed shuffle] less_imp_le [OF assms(4) [unfolded N_def]],
          of Q "m * q ^ e" r r' "round_stride q m e r" sm "s mod (m * q ^ e)"]
        opt N2 assms(8) by (simp add: N_def q_def)
  qed
  moreover have "layout_rounds m e \<noteq> 0" using assms(5) by (simp add: layout_rounds_def)
  ultimately show ?thesis
    using select_quorums_unfold [OF assms(3), of s node_map Q "m * q ^ e" "layout_rounds m e" self_key
        seed shuffle] assms(10-12) opt
    by (simp add: N_def)
qed

text \<open>Below the quorum size the code's only round is \<^emph>\<open>not\<close> the full network: the multiple
  of the degenerate layout equals the network size, so only the node itself is visited.\<close>

lemma round_quorum_small:
  assumes "index_tree T" "mset ordered = mset [0..<it_len T node_map]" "s < it_len T node_map"
    and "it_len T node_map < quorum_get Q" "quorum_get Q \<le> usize_max"
  shows "round_quorum T node_map ordered s (it_len T node_map) Q 0 = [node_at T node_map ordered s]"
proof -
  let ?N = "it_len T node_map" and ?q = "quorum_get Q" and ?key = "node_at T node_map ordered"
  have layout: "round_layout ?q ?N 0 = (0, ?N, ?N)"
    using assms(3-5) by (simp add: round_layout_def saturating_add_def usize_max_def checked_pow_def
        checked_mul_def saturating_sub_def)
  have upt: "[0..<0 + ?q] = 0 # [1..<?q]" by (simp add: upt_conv_Cons)
  have "\<not> s + i * (?N * 1) < ?N" if "1 \<le> i" for i
    using that by (cases i) simp_all
  then have "filter (\<lambda>j. j < ?N) (map (\<lambda>i. s + i * (?N * 1)) [1..<?q]) = []"
    by (auto simp: filter_empty_conv)
  then have seg1: "filter (\<lambda>j. j < ?N) (map (\<lambda>i. s + i * (?N * 1)) [0..<0 + ?q]) = [s]"
    using assms(3) unfolding upt by simp
  have seg2: "filter (\<lambda>j. j < ?N) (map (\<lambda>i. ?N + s + i * (?N * 1)) [0..<0 + ?q]) = []"
    by (simp add: filter_empty_conv)
  have push: "push_quorum_members T xs node_map ordered f ?N 1 Q
    = xs @ map ?key (filter (\<lambda>j. j < ?N) (map (\<lambda>i. f + i * (?N * 1)) [0..<0 + ?q]))" for xs f
    unfolding push_quorum_members_def using assms(4,5)
    by (intro push_loop_eq member_at_eq assms(1,2)) auto
  have "checked_pow ?q 0 = Some 1" "checked_mul ?N 1 = Some ?N"
    "checked_add (s - s mod ?N) (s mod ?N) = Some s"
    using assms(3-5) by (auto simp: checked_pow_def checked_mul_def checked_add_def)
  then have "round_quorum T node_map ordered s ?N Q 0 = remdups_adj (sort
      (if length ordered \<ge> ?N then case checked_add ?N s of
         None \<Rightarrow> [?key s] | Some second \<Rightarrow> push_quorum_members T [?key s] node_map ordered second ?N 1 Q
       else [?key s]))"
    by (simp only: round_quorum_def layout Let_def prod.case unwrap_or.simps push seg1 append_Nil list.map)
  also have "\<dots> = [?key s]"
    by (simp only: push) (use seg2 in \<open>auto simp: checked_add_def\<close>)
  finally show ?thesis .
qed


lemma class_quorum_set:
  "set (class_quorum key N opt B d s) = key ` {j. j < N \<and> same_group B d (j mod opt) s}"
  by (auto simp: class_quorum_def)

lemma class_quorum_strict_sorted: "sorted_wrt (<) (class_quorum key N opt B d s)"
  by (simp add: class_quorum_def strict_sorted_iff)

lemma class_quorum_length:
  assumes "0 < d" "0 < q" "q * d dvd opt" "s < opt" "opt \<le> N" "N < 2 * opt"
  shows "length (class_quorum key N opt (q * d) d s) \<le> 2 * q"
proof -
  define first where "first = s - s mod (q * d) + s mod d"
  let ?A = "filter (\<lambda>j. j < N) (map (\<lambda>i. first + i * d) [0..<q])"
  let ?B = "filter (\<lambda>j. j < N) (map (\<lambda>i. opt + first + i * d) [0..<q])"
  have "length (class_quorum key N opt (q * d) d s)
      = card (key ` {j. j < N \<and> same_group (q * d) d (j mod opt) s})"
    unfolding class_quorum_def length_btree_collect by (rule arg_cong [where f = card]) auto
  also have "\<dots> \<le> card (set (?A @ ?B))"
    using segments_group [OF assms first_def] by (simp only: set_append) (rule card_image_le, simp)
  also have "\<dots> \<le> length ?A + length ?B" by (metis card_length length_append)
  also have "\<dots> \<le> q + q"
    by (intro add_mono order_trans [OF length_filter_le]) simp_all
  finally show ?thesis by simp
qed

lemma class_quorum_peer:
  assumes "inj_on key {..<N}" "p < N" "key p \<in> set (class_quorum key N opt B d (s mod opt))"
  shows "class_quorum key N opt B d (p mod opt) = class_quorum key N opt B d (s mod opt)"
proof -
  have "same_group B d (p mod opt) (s mod opt)"
    using assms by (auto simp: class_quorum_set inj_on_def)
  then have "same_group B d i (p mod opt) \<longleftrightarrow> same_group B d i (s mod opt)" for i
    by (auto simp: same_group_def)
  then show ?thesis by (simp add: class_quorum_def)
qed

text \<open>The description of a selection, for every network size, that the properties use.\<close>

definition selection_layout ::
  "(PubKey \<Rightarrow> PubKey list list) \<Rightarrow> (usize \<Rightarrow> PubKey) \<Rightarrow> usize \<Rightarrow> usize \<Rightarrow> usize \<Rightarrow> usize
    \<Rightarrow> (usize \<Rightarrow> usize) \<Rightarrow> (usize \<Rightarrow> usize) \<Rightarrow> bool" where
  "selection_layout select key q N opt rounds B d \<longleftrightarrow> 0 < rounds
    \<and> (\<forall>s<N. select (key s) = map (\<lambda>r. class_quorum key N opt (B r) (d r) (s mod opt)) [0..<rounds])
    \<and> (\<forall>s<N. \<forall>r<rounds. length (class_quorum key N opt (B r) (d r) (s mod opt)) \<le> 2 * q)"

lemma selection_layout_large:
  fixes T node_map Q seed shuffle
  defines "N \<equiv> it_len T node_map" and "q \<equiv> quorum_get Q"
  assumes "index_tree T" "N < usize_max" "1 \<le> e" "1 \<le> m" "m < q"
    and "m * q ^ e \<le> N" "N < (m + 1) * q ^ e"
    and "find_round_number_with_size N Q = (m * q ^ e, layout_rounds m e)"
  shows "selection_layout
    (\<lambda>k. select_quorums_from_index_tree_with_size T node_map k seed shuffle Q)
    (node_at T node_map (node_order N seed shuffle)) q N (m * q ^ e) (layout_rounds m e)
    (\<lambda>r. q * round_stride q m e r) (round_stride q m e)"
proof -
  have q: "2 \<le> q" "0 < q" using quorum_get_ge_3 [of Q] by (simp_all add: q_def)
  have opt: "0 < m * q ^ e" using q assms(6) by simp
  have "(m + 1) * q ^ e \<le> (2 * m) * q ^ e" using assms(6) by (intro mult_le_mono1) simp
  then have N2: "N < 2 * (m * q ^ e)" using assms(9) by (simp only: mult.assoc)
  have "length (class_quorum key N (m * q ^ e) (q * round_stride q m e r) (round_stride q m e r)
      (s mod (m * q ^ e))) \<le> 2 * q" if r: "r < layout_rounds m e" for r s key
  proof -
    obtain r' sm where "0 < round_stride q m e r" "q * round_stride q m e r dvd m * q ^ e"
      using round_layout_stride [OF q(1) assms(5,6,7) le_less_trans [OF assms(8,4)] r] by metis
    then show ?thesis using opt N2 assms(8) q by (intro class_quorum_length) auto
  qed
  then show ?thesis
    using select_quorums_classes [OF assms(3), of node_map e m Q _ _ seed shuffle] assms(4-10)
    unfolding selection_layout_def by (simp add: N_def q_def layout_rounds_def)
qed

lemma selection_layout_small:
  fixes T node_map Q seed shuffle
  defines "N \<equiv> it_len T node_map"
  assumes "index_tree T" "0 < N" "N < quorum_get Q" "quorum_get Q \<le> usize_max"
  shows "selection_layout
    (\<lambda>k. select_quorums_from_index_tree_with_size T node_map k seed shuffle Q)
    (node_at T node_map (node_order N seed shuffle)) (quorum_get Q) N N 1 (\<lambda>_. N) (\<lambda>_. N)"
proof -
  let ?key = "node_at T node_map (node_order N seed shuffle)"
  have "select_quorums_from_index_tree_with_size T node_map (?key s) seed shuffle Q = [[?key s]]"
    if s: "s < N" for s
    using select_quorums_unfold [OF assms(2) s [unfolded N_def]
        find_round_number_small [of N Q, unfolded N_def] _ _ refl, of seed shuffle]
      round_quorum_small [OF assms(2) mset_node_order s [unfolded N_def], of Q] assms s
    by (simp add: N_def)
  moreover have "class_quorum ?key N N N N (s mod N) = [?key s]" if s: "s < N" for s
  proof -
    have "filter (\<lambda>j. same_group N N (j mod N) (s mod N)) [0..<N] = filter (\<lambda>j. j = s) [0..<N]"
      using s by (intro filter_cong) (auto simp: same_group_def)
    also have "\<dots> = [s]" using s by (induction N) (auto simp: not_less_eq_eq less_Suc_eq)
    finally show ?thesis by (simp add: class_quorum_def btree_collect_def)
  qed
  ultimately show ?thesis
    using assms(3) quorum_get_ge_3 [of Q] by (simp add: selection_layout_def)
qed

lemma selection_layout_exists:
  fixes T node_map Q seed shuffle
  defines "N \<equiv> it_len T node_map"
  assumes "index_tree T" "0 < N" "N < usize_max" "quorum_get Q \<le> usize_max"
  shows "\<exists>opt rounds B d. rounds = snd (find_round_number_with_size N Q) \<and> selection_layout
    (\<lambda>k. select_quorums_from_index_tree_with_size T node_map k seed shuffle Q)
    (node_at T node_map (node_order N seed shuffle)) (quorum_get Q) N opt rounds B d"
proof (cases "quorum_get Q \<le> N")
  case True
  obtain m e where me: "1 \<le> e" "1 \<le> m" "m < quorum_get Q"
    "m * quorum_get Q ^ e \<le> N" "N < (m + 1) * quorum_get Q ^ e"
    "find_round_number_with_size N Q = (m * quorum_get Q ^ e, layout_rounds m e)"
    using find_round_number_layout [OF less_imp_le [OF assms(4)] True]
    unfolding layout_rounds_def by metis
  show ?thesis
    using selection_layout_large [OF assms(2) assms(4) [unfolded N_def], of e m Q seed shuffle] me
    unfolding N_def by (intro exI conjI) (auto simp del: One_nat_def)
next
  case False
  then show ?thesis
    using selection_layout_small [OF assms(2) assms(3) [unfolded N_def], of Q seed shuffle] assms(3,5)
      find_round_number_small [of N Q]
    unfolding N_def by (intro exI conjI) (auto simp del: One_nat_def)
qed


section \<open>Dissemination\<close>

text \<open>The nodes whose data a node holds after the first \<open>r\<close> rounds, when in every round each
  node obtains what the members of its quorum of that round hold.\<close>

fun informed :: "(PubKey \<Rightarrow> PubKey list list) \<Rightarrow> nat \<Rightarrow> PubKey \<Rightarrow> PubKey set" where
  "informed select 0 k = {k}"
| "informed select (Suc r) k = (\<Union>p \<in> set (select k ! r). informed select r p)"

lemma same_block_split:
  assumes "0 < d" "i div (q * d) = j div (q * d)"
  shows "\<exists>p. same_group (q * d) d p i \<and> p div d = j div d"
proof (intro exI conjI)
  let ?p = "d * (j div d) + i mod d"
  show pj: "?p div d = j div d" using assms(1) by simp
  have "?p div (q * d) = ?p div d div q" by (simp add: div_mult2_eq mult.commute)
  also have "\<dots> = j div (q * d)" by (simp add: pj div_mult2_eq mult.commute)
  finally show "same_group (q * d) d ?p i" using assms by (simp add: same_group_def)
qed

lemma residue_in_block:
  assumes "0 < d" "d \<le> (b::nat)"
  shows "\<exists>p. p mod d = x mod d \<and> p div b = a"
proof (intro exI conjI)
  let ?p = "b * a + (x + (d - b * a mod d)) mod d"
  have "?p mod d = (b * a mod d + (x + (d - b * a mod d))) mod d" by (simp add: mod_simps)
  also have "b * a mod d + (x + (d - b * a mod d)) = x + d"
    using mod_less_divisor [OF assms(1), of "b * a"] by linarith
  finally show "?p mod d = x mod d" by simp
  have "(x + (d - b * a mod d)) mod d < b" using assms by (meson less_le_trans mod_less_divisor)
  then show "?p div b = a" by simp
qed

definition tensor_selection ::
  "(PubKey \<Rightarrow> PubKey list list) \<Rightarrow> (usize \<Rightarrow> PubKey) \<Rightarrow> usize \<Rightarrow> usize \<Rightarrow> usize \<Rightarrow> usize \<Rightarrow> bool" where
  "tensor_selection select key q N m e \<longleftrightarrow>
    selection_layout select key q N (m * q ^ e) (layout_rounds m e)
      (\<lambda>r. q * round_stride q m e r) (round_stride q m e)
    \<and> 2 \<le> q \<and> 1 \<le> e \<and> 1 \<le> m \<and> m < q \<and> m * q ^ e \<le> N"

lemma tensor_round_set:
  assumes "tensor_selection select key q N m e" "s < N" "r < layout_rounds m e"
  shows "set (select (key s) ! r) = key ` {j. j < N
    \<and> same_group (q * round_stride q m e r) (round_stride q m e r) (j mod (m * q ^ e)) (s mod (m * q ^ e))}"
  using assms by (simp add: tensor_selection_def selection_layout_def class_quorum_set)

lemma tensor_block_informed:
  assumes "tensor_selection select key q N m e" "s < N" "1 \<le> r" "r \<le> e"
  shows "informed select r (key s)
    = key ` {j. j < N \<and> j mod (m * q ^ e) div q ^ r = s mod (m * q ^ e) div q ^ r}"
  using assms(3,4,2)
proof (induction r arbitrary: s rule: nat_induct_at_least)
  case base
  then show ?case
    using tensor_round_set [OF assms(1) base(2), of 0]
    by (auto simp: layout_rounds_def round_stride_def same_group_def)
next
  case (Suc r)
  let ?opt = "m * q ^ e"
  have r: "r < layout_rounds m e" "round_stride q m e r = q ^ r"
    using Suc.prems by (auto simp: layout_rounds_def round_stride_def)
  have pos: "0 < q ^ r" "0 < ?opt" "?opt \<le> N" using assms(1) by (auto simp: tensor_selection_def)
  have dvd: "q * q ^ r dvd ?opt"
    using Suc.prems(1) by (metis dvd_mult le_imp_power_dvd power_Suc)
  have IH: "informed select r (key p)
      = key ` {j. j < N \<and> j mod ?opt div q ^ r = p mod ?opt div q ^ r}" if "p < N" for p
    using Suc.IH that Suc.prems(1) by simp
  have "informed select (Suc r) (key s) = key ` {j. j < N \<and> (\<exists>p<N.
      same_group (q * q ^ r) (q ^ r) (p mod ?opt) (s mod ?opt) \<and> j mod ?opt div q ^ r = p mod ?opt div q ^ r)}"
    using tensor_round_set [OF assms(1) Suc.prems(2) r(1)] IH by (auto simp: r(2))
  also have "{j. j < N \<and> (\<exists>p<N.
      same_group (q * q ^ r) (q ^ r) (p mod ?opt) (s mod ?opt) \<and> j mod ?opt div q ^ r = p mod ?opt div q ^ r)}
    = {j. j < N \<and> j mod ?opt div q ^ Suc r = s mod ?opt div q ^ Suc r}"
  proof (intro Collect_cong conj_cong refl iffI)
    fix j
    assume "\<exists>p<N. same_group (q * q ^ r) (q ^ r) (p mod ?opt) (s mod ?opt)
      \<and> j mod ?opt div q ^ r = p mod ?opt div q ^ r"
    then show "j mod ?opt div q ^ Suc r = s mod ?opt div q ^ Suc r"
      by (auto simp: same_group_def div_mult2_eq mult.commute [of q])
  next
    fix j
    assume "j mod ?opt div q ^ Suc r = s mod ?opt div q ^ Suc r"
    then obtain p where p: "same_group (q * q ^ r) (q ^ r) p (s mod ?opt)" "p div q ^ r = j mod ?opt div q ^ r"
      using same_block_split [OF pos(1), of "s mod ?opt" q "j mod ?opt"] by auto
    moreover have "p < ?opt" using group_below [OF dvd _ p(1)] pos(2) by simp
    ultimately show "\<exists>p<N. same_group (q * q ^ r) (q ^ r) (p mod ?opt) (s mod ?opt)
      \<and> j mod ?opt div q ^ r = p mod ?opt div q ^ r"
      using pos(3) by (intro exI [of _ p]) simp
  qed
  finally show ?case .
qed

lemma tensor_all_informed:
  assumes "tensor_selection select key q N m e" "s < N"
  shows "informed select (layout_rounds m e) (key s) = key ` {..<N}"
proof -
  let ?opt = "m * q ^ e"
  have b: "2 \<le> q" "1 \<le> e" "1 \<le> m" "m < q" "?opt \<le> N" "0 < ?opt"
    using assms(1) by (auto simp: tensor_selection_def)
  show ?thesis
  proof (cases "1 < m")
    case False
    with b(3) have "m = 1" by simp
    then show ?thesis
      using tensor_block_informed [OF assms b(2) order_refl] b(1) by (auto simp: layout_rounds_def)
  next
    case True
    let ?D = "m * q ^ (e - 1)"
    have pw: "q ^ e = q * q ^ (e - 1)" using b(2) by (metis Suc_diff_1 Suc_le_eq power_Suc One_nat_def)
    have D: "0 < ?D" "?D \<le> q ^ e" using b by (simp_all add: pw)
    have stride: "round_stride q m e e = ?D" "q * ?D = ?opt" by (simp_all add: round_stride_def pw)
    have reach: "\<exists>p<N. same_group ?opt ?D (p mod ?opt) (s mod ?opt) \<and> j mod ?opt div q ^ e = p mod ?opt div q ^ e" for j
    proof -
      obtain p where p: "p mod ?D = s mod ?opt mod ?D" "p div q ^ e = j mod ?opt div q ^ e"
        using residue_in_block [OF D] by blast
      have "j mod ?opt div q ^ e < m" using b(6) by (simp add: less_mult_imp_div_less)
      then have "p div q ^ e < m" by (simp only: p(2))
      then have "p < ?opt" using b(1) by (subst (asm) div_less_iff_less_mult) simp_all
      with p b(5,6) show ?thesis by (intro exI [of _ p]) (simp add: same_group_def)
    qed
    have e: "e < layout_rounds m e" using True by (simp add: layout_rounds_def)
    have blocks: "informed select e (key p)
        = key ` {j. j < N \<and> j mod ?opt div q ^ e = p mod ?opt div q ^ e}" if "p < N" for p
      using tensor_block_informed [OF assms(1) that b(2) order_refl] .
    have "informed select (Suc e) (key s) = key ` {j. j < N \<and> (\<exists>p<N.
        same_group ?opt ?D (p mod ?opt) (s mod ?opt) \<and> j mod ?opt div q ^ e = p mod ?opt div q ^ e)}"
      using tensor_round_set [OF assms e, unfolded stride] blocks by auto
    also have "\<dots> = key ` {..<N}" by (simp only: reach simp_thms lessThan_def)
    finally show ?thesis using True by (simp add: layout_rounds_def)
  qed
qed


section \<open>Properties of the selection\<close>

definition inserted_nodes :: "('m, PubKey, unit) index_tree_ops \<Rightarrow> PubKey list \<Rightarrow> 'm" where
  "inserted_nodes T nodes = fold (\<lambda>node. it_insert T node ()) nodes (it_new T)"

lemma select_quorums_with_size_inserted:
  "select_quorums_with_size T nodes k seed shuffle Q
    = select_quorums_from_index_tree_with_size T (inserted_nodes T nodes) k seed shuffle Q"
  by (simp add: select_quorums_with_size_def inserted_nodes_def)

lemma inserted_nodes_keys:
  assumes "index_tree T"
  shows "set (it_keys T (inserted_nodes T nodes)) = set nodes"
    and "it_len T (inserted_nodes T nodes) = card (set nodes)"
proof -
  show "set (it_keys T (inserted_nodes T nodes)) = set nodes"
    using index_tree.keys_of_inserts [OF assms, of "\<lambda>_. ()" nodes "it_new T"]
      index_tree.entries_new [OF assms] by (simp add: inserted_nodes_def it_keys_def)
  then show "it_len T (inserted_nodes T nodes) = card (set nodes)"
    by (metis distinct_card index_tree.keys_distinct [OF assms] index_tree.len_keys [OF assms])
qed

lemma selection_layout_nodes:
  assumes "index_tree T" "self_key \<in> set nodes" "card (set nodes) < usize_max" "quorum_get Q \<le> usize_max"
  obtains key opt rounds B d where
    "rounds = snd (find_round_number_with_size (card (set nodes)) Q)"
    "selection_layout (\<lambda>k. select_quorums_with_size T nodes k seed shuffle Q) key (quorum_get Q)
      (card (set nodes)) opt rounds B d"
    "inj_on key {..<card (set nodes)}" "key ` {..<card (set nodes)} = set nodes"
proof -
  note keys = inserted_nodes_keys [OF assms(1), of nodes]
  have pos: "0 < it_len T (inserted_nodes T nodes)"
    using assms(2) keys by (metis List.finite_set card_gt_0_iff empty_iff)
  note ni = node_at_inj [OF assms(1), of "node_order (card (set nodes)) seed shuffle"
      "inserted_nodes T nodes", unfolded keys, OF mset_node_order]
  show thesis
    using selection_layout_exists [OF assms(1) pos, of Q seed shuffle] assms(3,4) ni that
    unfolding keys(2) select_quorums_with_size_inserted by blast
qed

lemma select_quorums_all_informed:
  assumes "index_tree T" "self_key \<in> set nodes" "card (set nodes) < usize_max"
    and "quorum_get Q \<le> card (set nodes)"
  shows "informed (\<lambda>k. select_quorums_with_size T nodes k seed shuffle Q)
      (length (select_quorums_with_size T nodes self_key seed shuffle Q)) self_key = set nodes"
proof -
  let ?n = "card (set nodes)" and ?key = "node_at T (inserted_nodes T nodes) (node_order (card (set nodes)) seed shuffle)"
  note keys = inserted_nodes_keys [OF assms(1), of nodes]
  obtain m e where me: "1 \<le> e" "1 \<le> m" "m < quorum_get Q"
    "m * quorum_get Q ^ e \<le> ?n" "?n < (m + 1) * quorum_get Q ^ e"
    "find_round_number_with_size ?n Q = (m * quorum_get Q ^ e, layout_rounds m e)"
    using find_round_number_layout [OF less_imp_le [OF assms(3)] assms(4)]
    unfolding layout_rounds_def by metis
  have tensor: "tensor_selection (\<lambda>k. select_quorums_with_size T nodes k seed shuffle Q)
      ?key (quorum_get Q) ?n m e"
    unfolding tensor_selection_def select_quorums_with_size_inserted
    using selection_layout_large [OF assms(1), of "inserted_nodes T nodes" e m Q seed shuffle,
        unfolded keys(2), OF assms(3) me] me quorum_get_ge_3 [of Q] by simp
  have surj: "?key ` {..<?n} = set nodes"
    using node_at_inj(2) [OF assms(1), of "node_order ?n seed shuffle" "inserted_nodes T nodes",
        unfolded keys, OF mset_node_order] .
  then obtain s where s: "s < ?n" "self_key = ?key s"
    using assms(2) by (metis imageE lessThan_iff)
  have "length (select_quorums_with_size T nodes self_key seed shuffle Q) = layout_rounds m e"
    using tensor s by (simp add: tensor_selection_def selection_layout_def)
  then show ?thesis
    using tensor_all_informed [OF tensor s(1)] s(2) surj by simp
qed

text \<open>A network of exactly the quorum size meets in one quorum of all its nodes.\<close>

lemma select_quorums_at_size:
  assumes "index_tree T" "self_key \<in> set nodes" "card (set nodes) = quorum_get Q" "quorum_get Q < usize_max"
  shows "length (select_quorums_with_size T nodes self_key seed shuffle Q) = 1"
    and "set (select_quorums_with_size T nodes self_key seed shuffle Q ! 0) = set nodes"
proof -
  obtain key opt rounds B d where l:
    "rounds = snd (find_round_number_with_size (card (set nodes)) Q)"
    "selection_layout (\<lambda>k. select_quorums_with_size T nodes k seed shuffle Q) key (quorum_get Q)
      (card (set nodes)) opt rounds B d"
    "key ` {..<card (set nodes)} = set nodes"
    using selection_layout_nodes [OF assms(1,2)] assms(3,4) by (metis less_imp_le)
  obtain s where "s < card (set nodes)" "self_key = key s"
    using assms(2) l(3) by (metis imageE lessThan_iff)
  with l(1,2) show len: "length (select_quorums_with_size T nodes self_key seed shuffle Q) = 1"
    using assms(3) by (simp add: selection_layout_def find_round_number_small)
  have "informed (\<lambda>k. select_quorums_with_size T nodes k seed shuffle Q) (Suc 0) self_key = set nodes"
    using select_quorums_all_informed [OF assms(1,2), of Q seed shuffle] assms(3,4) len by simp
  then show "set (select_quorums_with_size T nodes self_key seed shuffle Q ! 0) = set nodes"
    by simp
qed

text \<open>For a node of the network, quorum selection (with and without shuffling) yields one
  quorum per round of \<open>find_round_number_with_size\<close>, and every one of them contains the
  node itself, consists of nodes of the network, is strictly sorted (so without duplicates)
  and has at most twice the configured size.\<close>

theorem select_quorums_wellformed:
  assumes "index_tree T" "self_key \<in> set nodes" "card (set nodes) < usize_max" "quorum_get Q \<le> usize_max"
  shows "length (select_quorums_with_size T nodes self_key seed shuffle Q)
      = snd (find_round_number_with_size (card (set nodes)) Q)
    \<and> (\<forall>quorum \<in> set (select_quorums_with_size T nodes self_key seed shuffle Q).
        self_key \<in> set quorum \<and> set quorum \<subseteq> set nodes \<and> sorted_wrt (<) quorum
        \<and> length quorum \<le> 2 * quorum_get Q)"
proof -
  obtain key opt rounds B d where l:
    "rounds = snd (find_round_number_with_size (card (set nodes)) Q)"
    "selection_layout (\<lambda>k. select_quorums_with_size T nodes k seed shuffle Q) key (quorum_get Q)
      (card (set nodes)) opt rounds B d"
    "key ` {..<card (set nodes)} = set nodes"
    by (rule selection_layout_nodes [OF assms])
  obtain s where s: "s < card (set nodes)" "self_key = key s"
    using assms(2) l(3) by (metis imageE lessThan_iff)
  have "set (class_quorum key (card (set nodes)) opt (B r) (d r) (s mod opt)) \<subseteq> set nodes" for r
    unfolding class_quorum_set using l(3) by blast
  moreover have "key s \<in> set (class_quorum key (card (set nodes)) opt (B r) (d r) (s mod opt))" for r
    using s(1) by (auto simp: class_quorum_set)
  ultimately show ?thesis
    using l(2) s unfolding selection_layout_def l(1) [symmetric]
    by (auto simp: class_quorum_strict_sorted)
qed

theorem select_quorums_wellformed_witness:
  "list_all (\<lambda>quorum. PubKey 3 \<in> set quorum \<and> set quorum \<subseteq> set [PubKey 2, PubKey 1, PubKey 3, PubKey 4]
        \<and> sorted_wrt (<) quorum \<and> length quorum \<le> 2 * 3)
      (select_quorums_with_size btree_index_tree [PubKey 2, PubKey 1, PubKey 3, PubKey 4] (PubKey 3) default_hash True
        (Abs_QuorumSize 3))"
proof -
  have c: "card (set [PubKey 2, PubKey 1, PubKey 3, PubKey 4]) = 4" by simp
  have q: "quorum_get (Abs_QuorumSize 3) = 3" by (simp add: quorum_get_Abs)
  show ?thesis
    unfolding list_all_iff
    by (rule conjunct2 [OF select_quorums_wellformed [OF btree_index_tree_laws, of "PubKey 3"
        "[PubKey 2, PubKey 1, PubKey 3, PubKey 4]" "Abs_QuorumSize 3" default_hash True,
        unfolded c q]]) (simp_all add: usize_max_def)
qed

text \<open>C14: the members of a quorum agree on it: a peer found in a node's quorum of some round
  selects, from the same network and seed, exactly the same quorum for that round.\<close>

theorem select_quorums_agree:
  assumes "index_tree T" "self_key \<in> set nodes" "card (set nodes) < usize_max" "quorum_get Q \<le> usize_max"
    and "r < length (select_quorums_with_size T nodes self_key seed shuffle Q)"
    and "peer \<in> set (select_quorums_with_size T nodes self_key seed shuffle Q ! r)"
  shows "select_quorums_with_size T nodes peer seed shuffle Q ! r
    = select_quorums_with_size T nodes self_key seed shuffle Q ! r"
proof -
  obtain key opt rounds B d where l:
    "selection_layout (\<lambda>k. select_quorums_with_size T nodes k seed shuffle Q) key (quorum_get Q)
      (card (set nodes)) opt rounds B d"
    "inj_on key {..<card (set nodes)}" "key ` {..<card (set nodes)} = set nodes"
    by (rule selection_layout_nodes [OF assms(1-4)])
  obtain s where s: "s < card (set nodes)" "self_key = key s"
    using assms(2) l(3) by (metis imageE lessThan_iff)
  have r: "r < rounds" using assms(5) l(1) s by (simp add: selection_layout_def)
  then have peer: "peer \<in> set (class_quorum key (card (set nodes)) opt (B r) (d r) (s mod opt))"
    using assms(6) l(1) s by (simp add: selection_layout_def)
  then obtain p where p: "p < card (set nodes)" "peer = key p"
    by (auto simp: class_quorum_set)
  show ?thesis
    using class_quorum_peer [OF l(2) p(1) peer [unfolded p(2)]] l(1) s p r
    by (simp add: selection_layout_def)
qed


theorem select_quorums_agree_witness:
  "select_quorums_with_size btree_index_tree [PubKey 1, PubKey 2, PubKey 3] (PubKey 2) default_hash True
      (Abs_QuorumSize 3) ! 0
    = select_quorums_with_size btree_index_tree [PubKey 1, PubKey 2, PubKey 3] (PubKey 1) default_hash True
      (Abs_QuorumSize 3) ! 0"
  using select_quorums_agree [OF btree_index_tree_laws, of "PubKey 1" "[PubKey 1, PubKey 2, PubKey 3]"
      "Abs_QuorumSize 3" 0 default_hash True "PubKey 2"]
    select_quorums_at_size [OF btree_index_tree_laws, of "PubKey 1" "[PubKey 1, PubKey 2, PubKey 3]"
      "Abs_QuorumSize 3" default_hash True]
  by (simp add: quorum_get_Abs usize_max_def)

text \<open>C15: the rounds of a network of at least the quorum size disseminate completely: if in every
  round each node obtains what the members of its quorum hold, then after the last round
  every node holds the data of every node of the network.\<close>

theorem select_quorums_disseminate:
  assumes "index_tree T" "self_key \<in> set nodes" "card (set nodes) < usize_max"
    and "quorum_get Q \<le> card (set nodes)"
  shows "informed (\<lambda>k. select_quorums_with_size T nodes k seed shuffle Q)
      (length (select_quorums_with_size T nodes self_key seed shuffle Q)) self_key = set nodes"
  by (rule select_quorums_all_informed [OF assms])

theorem select_quorums_disseminate_witness:
  "informed (\<lambda>k. select_quorums_with_size btree_index_tree
        [PubKey 1, PubKey 2, PubKey 3, PubKey 4, PubKey 5, PubKey 6, PubKey 7] k default_hash True (Abs_QuorumSize 3))
      (length (select_quorums_with_size btree_index_tree
        [PubKey 1, PubKey 2, PubKey 3, PubKey 4, PubKey 5, PubKey 6, PubKey 7] (PubKey 5) default_hash True
        (Abs_QuorumSize 3))) (PubKey 5)
    = set [PubKey 1, PubKey 2, PubKey 3, PubKey 4, PubKey 5, PubKey 6, PubKey 7]"
  by (rule select_quorums_disseminate [OF btree_index_tree_laws])
    (simp_all add: quorum_get_Abs usize_max_def)

text \<open>Below the configured quorum size the selected quorum is not the effective
  committee of all \<open>min q n\<close> nodes: every node is alone in its only quorum.\<close>

theorem select_quorums_below_size:
  assumes "index_tree T" "self_key \<in> set nodes" "card (set nodes) < quorum_get Q" "quorum_get Q \<le> usize_max"
  shows "select_quorums_with_size T nodes self_key seed shuffle Q = [[self_key]]"
proof -
  let ?n = "card (set nodes)" and ?key = "node_at T (inserted_nodes T nodes) (node_order (card (set nodes)) seed shuffle)"
  note keys = inserted_nodes_keys [OF assms(1), of nodes]
  obtain s where s: "s < ?n" "self_key = ?key s"
    using node_at_surj [OF assms(1), of "node_order ?n seed shuffle" "inserted_nodes T nodes" self_key,
        unfolded keys, OF mset_node_order assms(2)] .
  have "?n \<noteq> 0" using s(1) by linarith
  then have "select_quorums_with_size T nodes self_key seed shuffle Q
      = map (round_quorum T (inserted_nodes T nodes) (node_order ?n seed shuffle) (s mod ?n) ?n Q) [0..<1]"
    using select_quorums_unfold [OF assms(1), of s "inserted_nodes T nodes" Q ?n 1 self_key seed shuffle,
        unfolded keys(2)] s find_round_number_small [of ?n Q] assms(3)
    by (simp only: select_quorums_with_size_inserted) auto
  then show ?thesis
    using round_quorum_small [OF assms(1), of "node_order ?n seed shuffle" "inserted_nodes T nodes" s Q,
        unfolded keys(2), OF mset_node_order s(1) assms(3,4)] s by simp
qed

theorem select_quorums_below_size_witness:
  "select_quorums_with_size btree_index_tree [PubKey 1, PubKey 2, PubKey 3, PubKey 4] (PubKey 1)
     default_hash True QuorumSize_DEFAULT = [[PubKey 1]]"
  by (rule select_quorums_below_size [OF btree_index_tree_laws]) (simp_all add: usize_max_def)

text \<open>The deterministic shuffle rearranges its slice: the result is a permutation of the input.\<close>

theorem deterministic_shuffle_permutes: "mset (deterministic_shuffle xs seed) = mset xs"
  by (rule mset_deterministic_shuffle)



lemma prefill_set:
  "set (select_prefill_recipients_with_size T nodes k seed shuffle Q)
    = (\<Union>quorum \<in> set (select_quorums_with_size T nodes k seed shuffle Q). set quorum) - {k}"
  by (auto simp: select_prefill_recipients_with_size_def bm_keys_contains)

lemma prefill_sym:
  assumes "index_tree T" "self_key \<in> set nodes" "card (set nodes) < usize_max" "quorum_get Q \<le> usize_max"
    and "peer \<in> set (select_prefill_recipients_with_size T nodes self_key seed shuffle Q)"
  shows "self_key \<in> set (select_prefill_recipients_with_size T nodes peer seed shuffle Q)"
proof -
  obtain key opt rounds B d where l:
    "selection_layout (\<lambda>k. select_quorums_with_size T nodes k seed shuffle Q) key (quorum_get Q)
      (card (set nodes)) opt rounds B d"
    "inj_on key {..<card (set nodes)}" "key ` {..<card (set nodes)} = set nodes"
    by (rule selection_layout_nodes [OF assms(1-4)])
  obtain s where s: "s < card (set nodes)" "self_key = key s"
    using assms(2) l(3) by (metis imageE lessThan_iff)
  have sel: "set (select_quorums_with_size T nodes (key i) seed shuffle Q)
      = (\<lambda>r. class_quorum key (card (set nodes)) opt (B r) (d r) (i mod opt)) ` {..<rounds}"
    if "i < card (set nodes)" for i
    using l(1) that by (auto simp: selection_layout_def)
  obtain r p where r: "r < rounds" and p: "p < card (set nodes)" "peer = key p" "peer \<noteq> self_key"
    "key p \<in> set (class_quorum key (card (set nodes)) opt (B r) (d r) (s mod opt))"
    using assms(5) by (auto simp: prefill_set s sel [OF s(1)] class_quorum_set)
  have "key s \<in> set (class_quorum key (card (set nodes)) opt (B r) (d r) (p mod opt))"
    using class_quorum_peer [OF l(2) p(1,4)] s(1) by (auto simp: class_quorum_set)
  then show ?thesis using r p(3) by (auto simp: prefill_set s p(2) sel [OF p(1)])
qed

text \<open>Prefill recipients are exactly the other members of a node's quorums, sorted and
  without duplicates, and prefilling is symmetric: a node of the network is a recipient of
  exactly the nodes that are its own recipients.\<close>

theorem prefill_recipients_spec:
  assumes "index_tree T" "self_key \<in> set nodes" "peer \<in> set nodes"
    and "card (set nodes) < usize_max" "quorum_get Q \<le> usize_max"
  shows "set (select_prefill_recipients_with_size T nodes self_key seed shuffle Q)
      = (\<Union>quorum \<in> set (select_quorums_with_size T nodes self_key seed shuffle Q). set quorum) - {self_key}
    \<and> sorted_wrt (<) (select_prefill_recipients_with_size T nodes self_key seed shuffle Q)
    \<and> (peer \<in> set (select_prefill_recipients_with_size T nodes self_key seed shuffle Q)
      \<longleftrightarrow> self_key \<in> set (select_prefill_recipients_with_size T nodes peer seed shuffle Q))"
proof (intro conjI)
  show "sorted_wrt (<) (select_prefill_recipients_with_size T nodes self_key seed shuffle Q)"
    by (simp add: select_prefill_recipients_with_size_def)
qed (rule prefill_set, blast intro: prefill_sym [OF assms(1,2,4,5)] prefill_sym [OF assms(1,3,4,5)])

theorem prefill_recipients_spec_witness:
  "PubKey 1 \<in> set (select_prefill_recipients_with_size btree_index_tree [PubKey 1, PubKey 2, PubKey 3]
      (PubKey 3) default_hash True (Abs_QuorumSize 3))"
proof -
  let ?nodes = "[PubKey 1, PubKey 2, PubKey 3]" and ?Q = "Abs_QuorumSize 3"
  let ?sel = "select_quorums_with_size btree_index_tree ?nodes (PubKey 1) default_hash True ?Q"
  have "length ?sel = 1" "set (?sel ! 0) = set ?nodes"
    by (rule select_quorums_at_size [OF btree_index_tree_laws]; simp add: quorum_get_Abs usize_max_def)+
  then have "?sel ! 0 \<in> set ?sel" "PubKey 3 \<in> set (?sel ! 0)" by simp_all
  then have "PubKey 3 \<in> set (select_prefill_recipients_with_size btree_index_tree ?nodes (PubKey 1) default_hash True ?Q)"
    unfolding prefill_set by (intro DiffI UN_I) simp_all
  moreover have "PubKey 1 \<in> set ?nodes" "PubKey 3 \<in> set ?nodes" "card (set ?nodes) < usize_max"
    "quorum_get ?Q \<le> usize_max"
    by (simp_all add: quorum_get_Abs usize_max_def)
  ultimately show ?thesis
    using prefill_recipients_spec [OF btree_index_tree_laws, of "PubKey 1" ?nodes "PubKey 3" ?Q default_hash True]
    by blast
qed

end
