(* ===== verification/Safety.thy ===== *)
theory Safety
  imports Algorithm Crypto "HOL-Library.Multiset" "HOL-Library.List_Lexorder" "HOL-Library.Char_ord"
begin

text \<open>
  \<open>src/src/safety.rs\<close>: the site-aware selection of a committee and the safety manifest that records its
  thresholds. The lemmas show that the selection does not depend on the order of the
  participants, that a committee with a claim of site-loss tolerance is balanced over its three sites, and that
  a manifest with the tolerance flag has the votes it needs when any one site is lost.
\<close>

section \<open>Committees\<close>

type_synonym SiteId = string

record CommitteeParticipant =
  cp_node :: PubKey
  cp_site :: "SiteId option"

record CommitteeLayout =
  cl_members :: "CommitteeParticipant list"
  cl_members_by_site :: "(SiteId, PubKey list) btree_map"

definition COMMITTEE_RANK_DOMAIN :: bytes where
  "COMMITTEE_RANK_DOMAIN = string_bytes ''blossom/site-balanced-committee/v1''"

definition committee_rank :: "crypto \<Rightarrow> HashType \<Rightarrow> SiteId option \<Rightarrow> PubKey \<Rightarrow> HashType" where
  "committee_rank E seed site node = sha256 E
    (COMMITTEE_RANK_DOMAIN @ hash_as_ref seed
     @ (case site of
          Some s \<Rightarrow> u64_to_le_bytes (u64_of_usize (length s)) @ string_bytes s
        | None \<Rightarrow> u64_to_le_bytes 0)
     @ pubkey_as_ref node)"

text \<open>The loops that push every participant with a site into the entry of its site.\<close>

definition push_site ::
  "(CommitteeParticipant \<Rightarrow> 'a) \<Rightarrow> CommitteeParticipant \<Rightarrow> (SiteId, 'a list) btree_map \<Rightarrow> (SiteId, 'a list) btree_map" where
  "push_site f p m = (case cp_site p of None \<Rightarrow> m | Some s \<Rightarrow> bm_entry_update s [] (\<lambda>xs. xs @ [f p]) m)"

definition group_by_site :: "(CommitteeParticipant \<Rightarrow> 'a) \<Rightarrow> CommitteeParticipant list \<Rightarrow> (SiteId, 'a list) btree_map" where
  "group_by_site f ps = fold (push_site f) ps bm_empty"

definition site_count :: "CommitteeParticipant list \<Rightarrow> usize" where
  "site_count ps = bm_len (bs_of_list (List.map_filter cp_site ps))"

definition balanced_candidates ::
  "crypto \<Rightarrow> QuorumSize \<Rightarrow> HashType \<Rightarrow> bool \<Rightarrow> usize \<Rightarrow> CommitteeParticipant list \<Rightarrow> CommitteeParticipant list result" where
  "balanced_candidates E quorum_size seed claim effective_size ps =
    (let per_site = effective_size div 3; by_site = group_by_site id ps in
     if list_ex (\<lambda>members. length members < per_site) (bm_values by_site)
     then if claim \<or> effective_size = quorum_get quorum_size then Err InvalidConfiguration
          else Ok (concat (bm_values by_site))
     else Ok (concat (map (\<lambda>(site, members).
       take per_site (sort_key (\<lambda>p. committee_rank E seed (Some site) (cp_node p)) members)) (bm_entries by_site))))"

definition select_site_balanced_committee ::
  "crypto \<Rightarrow> CommitteeParticipant list \<Rightarrow> QuorumSize \<Rightarrow> HashType \<Rightarrow> bool \<Rightarrow> CommitteeLayout result" where
  "select_site_balanced_committee E participants0 quorum_size seed claim =
    (let participants = sort_key cp_node participants0 in
     if windows2_any (\<lambda>a b. cp_node a = cp_node b) participants then Err InvalidConfiguration
     else let effective_size = effective quorum_size (length participants);
              all_have_sites = list_all (\<lambda>p. cp_site p \<noteq> None) participants;
              sites = site_count participants
          in if claim \<and> (\<not> all_have_sites \<or> sites \<noteq> 3 \<or> effective_size mod 3 \<noteq> 0) then Err InvalidConfiguration
             else and_then (if all_have_sites \<and> sites = 3 \<and> effective_size mod 3 = 0
                 then balanced_candidates E quorum_size seed claim effective_size participants
                 else Ok participants) (\<lambda>selected0.
               let selected = sort_key cp_node (take effective_size
                     (sort_key (\<lambda>p. committee_rank E seed (cp_site p) (cp_node p)) selected0))
               in Ok \<lparr>cl_members = selected, cl_members_by_site = group_by_site cp_node selected\<rparr>))"


section \<open>Safety manifests\<close>

text \<open>The texts of the stop conditions only name the two thresholds.\<close>

datatype StopCondition = FewerValidatorsThan usize | FewerCommitteeMembersThan usize | ReferenceUnavailable

record SafetyManifest =
  sm_version :: u16
  sm_consensus_parameters_hash :: HashType
  sm_configured_quorum_size :: usize
  sm_effective_quorum_size :: usize
  sm_validator_count :: usize
  sm_committee_layout :: CommitteeLayout
  sm_local_finality_threshold :: usize
  sm_global_finality_threshold :: usize
  sm_local_minimum_intersection :: usize
  sm_global_minimum_intersection :: usize
  sm_validator_byzantine_fault_bound :: usize
  sm_holder_fault_bound :: usize
  sm_max_validator_liveness_omissions :: usize
  sm_site_loss_tolerance :: bool
  sm_liveness_stop_conditions :: "StopCondition list"

definition site_loss_is_satisfied :: "CommitteeLayout \<Rightarrow> CommitteeParticipant list \<Rightarrow> usize \<Rightarrow> bool" where
  "site_loss_is_satisfied layout participants validator_count =
    (if bm_len (cl_members_by_site layout) \<noteq> 3 \<or> validator_count = 0
       \<or> list_ex (\<lambda>p. cp_site p = None) participants then False
     else let validators_by_site = fold (\<lambda>p counts. bm_entry_update (the (cp_site p)) 0 (\<lambda>n. n + 1) counts)
                participants bm_empty
          in if bm_len validators_by_site \<noteq> 3 then False
             else let local_threshold = supermajority_count (length (cl_members layout));
                      global_threshold = supermajority_count validator_count
                  in list_all (\<lambda>(site, lost_committee).
                       let lost_validators = unwrap_or (bm_get validators_by_site site) 0
                       in saturating_sub (length (cl_members layout)) (length lost_committee) \<ge> local_threshold
                          \<and> saturating_sub validator_count lost_validators \<ge> global_threshold)
                     (bm_entries (cl_members_by_site layout)))"

definition generate_safety_manifest ::
  "crypto \<Rightarrow> ConsensusParameters \<Rightarrow> CommitteeParticipant list \<Rightarrow> HashType \<Rightarrow> usize \<Rightarrow> bool \<Rightarrow> SafetyManifest result" where
  "generate_safety_manifest E consensus_parameters participants seed holder_fault_bound claim =
    and_then (ConsensusParameters_validate consensus_parameters) (\<lambda>_.
    let validator_count = length participants in
    and_then (select_site_balanced_committee E participants (cp_quorum_size consensus_parameters) seed claim) (\<lambda>layout.
    let effective_quorum_size = length (cl_members layout);
        site_loss_tolerance = site_loss_is_satisfied layout participants validator_count
    in if claim \<and> \<not> site_loss_tolerance then Err InvalidConfiguration
       else Ok \<lparr>sm_version = 1,
         sm_consensus_parameters_hash = ConsensusParameters_hash (sha256 E) consensus_parameters,
         sm_configured_quorum_size = quorum_get (cp_quorum_size consensus_parameters),
         sm_effective_quorum_size = effective_quorum_size,
         sm_validator_count = validator_count,
         sm_committee_layout = layout,
         sm_local_finality_threshold = supermajority_count effective_quorum_size,
         sm_global_finality_threshold = supermajority_count validator_count,
         sm_local_minimum_intersection = min_supermajority_intersection effective_quorum_size,
         sm_global_minimum_intersection = min_supermajority_intersection validator_count,
         sm_validator_byzantine_fault_bound = byzantine_fault_bound validator_count,
         sm_holder_fault_bound = holder_fault_bound,
         sm_max_validator_liveness_omissions = max_liveness_omissions validator_count,
         sm_site_loss_tolerance = site_loss_tolerance,
         sm_liveness_stop_conditions = [FewerValidatorsThan (supermajority_count validator_count),
           FewerCommitteeMembersThan (supermajority_count effective_quorum_size), ReferenceUnavailable]\<rparr>))"


section \<open>Grouping by site\<close>

abbreviation at_site :: "SiteId \<Rightarrow> CommitteeParticipant list \<Rightarrow> CommitteeParticipant list" where
  "at_site site ps \<equiv> filter (\<lambda>p. cp_site p = Some site) ps"

lemma bm_get_push_sites:
  "bm_get (fold (push_site f) ps m) s =
    (if at_site s ps = [] then bm_get m s else Some (unwrap_or (bm_get m s) [] @ map f (at_site s ps)))"
  by (induction ps arbitrary: m) (auto simp: push_site_def bm_entry_update_def split: option.splits)

lemma bm_get_group: "bm_get (group_by_site f ps) s = (if at_site s ps = [] then None else Some (map f (at_site s ps)))"
  by (simp add: group_by_site_def bm_get_push_sites)

definition sites_of :: "CommitteeParticipant list \<Rightarrow> SiteId set" where
  "sites_of ps = {s. at_site s ps \<noteq> []}"

lemma dom_group: "dom (bm_get (group_by_site f ps)) = sites_of ps"
  by (auto simp: bm_get_group sites_of_def)

lemma site_count_card: "site_count ps = card (sites_of ps)"
proof -
  have "set (List.map_filter cp_site ps) = sites_of ps"
    by (force simp: sites_of_def List.map_filter_def filter_empty_conv)
  then show ?thesis by (simp add: site_count_def bm_len_bs_of_list)
qed

lemma group_entries: "(s, xs) \<in> set (bm_entries (group_by_site f ps)) \<longleftrightarrow> s \<in> sites_of ps \<and> xs = map f (at_site s ps)"
  by (auto simp: bm_get_Some_iff [symmetric] bm_get_group sites_of_def)

lemma length_filter_concat: "length (filter P (concat xss)) = sum_list (map (\<lambda>xs. length (filter P xs)) xss)"
  by (induction xss) auto

lemma sum_list_single:
  assumes "distinct (map fst es)"
  shows "sum_list (map (\<lambda>e. if fst e = k then c else 0) es) = (if k \<in> fst ` set es then c else (0::nat))"
  using assms by (induction es) auto


lemma distinct_concat_groups:
  assumes "distinct (map fst es)" "\<And>e. e \<in> set es \<Longrightarrow> set (g e) \<subseteq> {p. cp_site p = Some (fst e)}"
    "\<And>e. e \<in> set es \<Longrightarrow> distinct (g e)"
  shows "distinct (concat (map g es))"
  using assms
proof (induction es)
  case (Cons e es)
  have "False" if "p \<in> set (g e)" "p \<in> set (g e')" "e' \<in> set es" for p e'
  proof -
    have "cp_site p = Some (fst e)" "cp_site p = Some (fst e')" using Cons.prems(2) [of e] Cons.prems(2) [of e'] that by auto
    then have "fst e = fst e'" by simp
    then show False using Cons.prems(1) that(3) by (auto simp: image_iff)
  qed
  then show ?case using Cons by auto
qed simp


section \<open>Balanced committees\<close>

lemma balanced_selection:
  assumes "balanced_candidates E q seed True n ps = Ok selected"
  shows "length (at_site s selected) = (if s \<in> sites_of ps then n div 3 else 0)"
    "length selected = card (sites_of ps) * (n div 3)" "set selected \<subseteq> set ps" "distinct ps \<Longrightarrow> distinct selected"
proof -
  let ?es = "bm_entries (group_by_site id ps)"
  let ?pick = "\<lambda>(site, members). take (n div 3) (sort_key (\<lambda>p. committee_rank E seed (Some site) (cp_node p)) members)"
  have selected: "selected = concat (map ?pick ?es)"
    and enough: "\<And>e. e \<in> set ?es \<Longrightarrow> n div 3 \<le> length (snd e)"
    using assms by (auto simp: balanced_candidates_def Let_def list_ex_iff bm_values_def split: if_splits)
  have keys: "distinct (map fst ?es)" "fst ` set ?es = sites_of ps"
    by (simp_all add: sorted_entries_distinct dom_group [symmetric, of _ id] set_bm_keys [symmetric] bm_keys_def)
  have member: "set (?pick e) \<subseteq> set (at_site (fst e) ps)" if "e \<in> set ?es" for e
  proof -
    have "snd e = at_site (fst e) ps" using that group_entries [of "fst e" "snd e" id ps] by simp
    then obtain site where "e = (site, at_site site ps)" by (cases e) simp
    then show ?thesis using set_take_subset [of "n div 3" "sort_key _ (at_site site ps)"] by simp
  qed
  have part: "length (at_site s (?pick e)) = (if fst e = s then n div 3 else 0)" if "e \<in> set ?es" for e
  proof (cases "fst e = s")
    case True
    then have "at_site s (?pick e) = ?pick e" using member [OF that] by (auto simp: filter_id_conv)
    then show ?thesis using enough [OF that] True by (cases e) simp
  next
    case False
    then show ?thesis using member [OF that] by (force simp: filter_empty_conv)
  qed
  have "length (at_site s selected) = sum_list (map (\<lambda>e. if fst e = s then n div 3 else 0) ?es)"
    unfolding selected length_filter_concat map_map comp_def by (intro arg_cong [where f = sum_list] map_cong refl part)
  then show "length (at_site s selected) = (if s \<in> sites_of ps then n div 3 else 0)"
    using sum_list_single [OF keys(1)] keys(2) by simp
  have "length (?pick e) = n div 3" if "e \<in> set ?es" for e using enough [OF that] by (cases e) simp
  then have "length selected = sum_list (map (\<lambda>_. n div 3) ?es)"
    unfolding selected length_concat map_map comp_def by (intro arg_cong [where f = sum_list] map_cong refl)
  then show "length selected = card (sites_of ps) * (n div 3)"
    using keys distinct_card [OF keys(1)] by (simp add: sum_list_triv)
  show "set selected \<subseteq> set ps" using member by (fastforce simp: selected)
  show "distinct selected" if "distinct ps"
    unfolding selected
  proof (rule distinct_concat_groups [OF keys(1)])
    fix e assume e: "e \<in> set ?es"
    then show "set (?pick e) \<subseteq> {p. cp_site p = Some (fst e)}" using member [OF e] by auto
    have "distinct (snd e)" using e that group_entries [of "fst e" "snd e" id ps] by simp
    then show "distinct (?pick e)" by (cases e) simp
  qed
qed

lemma filter_equals_single: "distinct zs \<Longrightarrow> k \<in> set zs \<Longrightarrow> filter (\<lambda>x. x = k) zs = [k]"
  by (induction zs) (auto simp: filter_empty_conv)

lemma windows2_any_sorted:
  assumes "sorted (map f xs)"
  shows "windows2_any (\<lambda>a b. f a = f b) xs \<longleftrightarrow> \<not> distinct (map f xs)"
  using assms
proof (induction "\<lambda>a b. f a = f b" xs rule: windows2_any.induct)
  case (1 x y xs)
  then show ?case by (fastforce simp: image_iff)
qed auto

lemma selection_claim:
  assumes "select_site_balanced_committee E ps q seed True = Ok layout"
  obtains selected where "card (sites_of (sort_key cp_node ps)) = 3" "effective q (length ps) mod 3 = 0"
    "distinct (map cp_node ps)" "balanced_candidates E q seed True (effective q (length ps)) (sort_key cp_node ps) = Ok selected"
    "cl_members layout = sort_key cp_node (take (effective q (length ps))
       (sort_key (\<lambda>p. committee_rank E seed (cp_site p) (cp_node p)) selected))"
proof -
  have "distinct (map cp_node ps) \<longleftrightarrow> distinct (map cp_node (sort_key cp_node ps))"
    by (simp add: distinct_map)
  then show ?thesis
    using assms that windows2_any_sorted [of cp_node "sort_key cp_node ps"]
    by (auto simp: select_site_balanced_committee_def Let_def site_count_card split: if_splits)
qed

text \<open>C16: a committee selected under a claim of site-loss tolerance has the configured size, consists of distinct
  participants, and is balanced: when all members of any one site are lost, the members that
  remain still are a supermajority of the committee.\<close>

theorem balanced_committee_survives_site_loss:
  assumes "select_site_balanced_committee E ps q seed True = Ok layout"
  shows "length (cl_members layout) = effective q (length ps) \<and> set (cl_members layout) \<subseteq> set ps
    \<and> distinct (map cp_node (cl_members layout))
    \<and> (\<forall>site. supermajority_count (length (cl_members layout))
          \<le> length (filter (\<lambda>p. cp_site p \<noteq> Some site) (cl_members layout)))"
proof -
  let ?ps = "sort_key cp_node ps" and ?n = "effective q (length ps)"
  obtain selected where sites: "card (sites_of ?ps) = 3" and n: "?n mod 3 = 0" and distinct: "distinct (map cp_node ps)"
    and selected: "balanced_candidates E q seed True ?n ?ps = Ok selected"
    and members: "cl_members layout = sort_key cp_node (take ?n
       (sort_key (\<lambda>p. committee_rank E seed (cp_site p) (cp_node p)) selected))"
    by (rule selection_claim [OF assms])
  note balanced = balanced_selection [OF selected]
  have n3: "3 * (?n div 3) = ?n" using n by auto
  then have len: "length selected = ?n" using balanced(2) sites by simp
  then have mset: "mset (cl_members layout) = mset selected" by (simp add: members)
  then have size: "length (cl_members layout) = ?n" using len by (metis size_mset)
  have set: "set (cl_members layout) = set selected" using mset by (metis set_mset_mset)
  then have sub: "set (cl_members layout) \<subseteq> set ps" using balanced(3) by simp
  have "distinct selected" using balanced(4) distinct by (auto simp: distinct_map)
  then have "distinct (cl_members layout)" using mset by (metis mset_eq_imp_distinct_iff)
  then have nodes: "distinct (map cp_node (cl_members layout))"
    using distinct sub by (auto simp: distinct_map intro: inj_on_subset)
  have "supermajority_count ?n \<le> length (filter (\<lambda>p. cp_site p \<noteq> Some site) (cl_members layout))" for site
  proof -
    have "length (at_site site (cl_members layout)) = length (at_site site selected)"
      using mset by (metis mset_filter size_mset)
    also have "\<dots> \<le> ?n div 3" using balanced(1) by simp
    finally have "?n \<le> ?n div 3 + length (filter (\<lambda>p. cp_site p \<noteq> Some site) (cl_members layout))"
      using sum_length_filter_compl [of "\<lambda>p. cp_site p = Some site" "cl_members layout"] size by linarith
    then show ?thesis by (simp add: supermajority_count_def)
  qed
  then show ?thesis using size sub nodes by simp
qed

lemma sort_nodes_unique:
  assumes "mset ps = mset ps'" "distinct (map cp_node ps)"
  shows "sort_key cp_node ps = sort_key cp_node ps'"
proof (rule properties_for_sort_key)
  have inj: "inj_on cp_node (set ps)" using assms(2) by (simp add: distinct_map)
  have same: "set ps = set ps'" "distinct ps" "distinct ps'"
    using assms by (auto simp: distinct_map dest: mset_eq_setD mset_eq_imp_distinct_iff)
  fix k assume k: "k \<in> set (sort_key cp_node ps')"
  have "filter (\<lambda>x. cp_node k = cp_node x) zs = [k]" if "set zs = set ps" "distinct zs" for zs
  proof -
    have "filter (\<lambda>x. cp_node k = cp_node x) zs = filter (\<lambda>x. x = k) zs"
      using inj that k same(1) by (intro filter_cong) (auto dest: inj_onD)
    then show ?thesis using that k same(1) by (simp add: filter_equals_single)
  qed
  then show "filter (\<lambda>x. cp_node k = cp_node x) (sort_key cp_node ps') = filter (\<lambda>x. cp_node k = cp_node x) ps"
    using same by simp
qed (use assms(1) in simp_all)

text \<open>The committee does not depend on the order in which the participants are listed.\<close>

theorem committee_order_independent:
  assumes "mset ps = mset ps'"
  shows "select_site_balanced_committee E ps q seed claim = select_site_balanced_committee E ps' q seed claim"
proof (cases "distinct (map cp_node ps)")
  case True
  have "sort_key cp_node ps = sort_key cp_node ps'" using sort_nodes_unique [OF assms True] .
  then show ?thesis by (simp add: select_site_balanced_committee_def)
next
  case False
  have "\<not> distinct (map cp_node (sort_key cp_node ps))" "\<not> distinct (map cp_node (sort_key cp_node ps'))"
    using False assms by (metis mset_map mset_sort mset_eq_imp_distinct_iff)+
  then show ?thesis by (simp add: select_site_balanced_committee_def windows2_any_sorted)
qed


section \<open>Site loss\<close>

lemma balanced_subset:
  assumes "balanced_candidates E q seed claim n ps = Ok selected"
  shows "set selected \<subseteq> set ps"
proof -
  have "set xs \<subseteq> set ps" if "(s, xs) \<in> set (bm_entries (group_by_site id ps))" for s xs
    using that by (auto simp: group_entries)
  moreover have "set (take k (sort_key g xs)) \<subseteq> set xs" for k g and xs :: "CommitteeParticipant list"
    using set_take_subset [of k "sort_key g xs"] by simp
  ultimately show ?thesis
    using assms by (fastforce simp: balanced_candidates_def Let_def bm_values_def split: if_splits)
qed

lemma selection_members:
  assumes "select_site_balanced_committee E ps q seed claim = Ok layout"
  shows "set (cl_members layout) \<subseteq> set ps" "cl_members_by_site layout = group_by_site cp_node (cl_members layout)"
proof -
  let ?ps = "sort_key cp_node ps" and ?n = "effective q (length ps)"
  obtain selected where choice: "(if list_all (\<lambda>p. cp_site p \<noteq> None) ?ps \<and> site_count ?ps = 3 \<and> ?n mod 3 = 0
      then balanced_candidates E q seed claim ?n ?ps else Ok ?ps) = Ok selected"
    and layout: "cl_members layout = sort_key cp_node (take (effective q (length ps))
       (sort_key (\<lambda>p. committee_rank E seed (cp_site p) (cp_node p)) selected))"
      "cl_members_by_site layout = group_by_site cp_node (cl_members layout)"
    using assms unfolding select_site_balanced_committee_def Let_def length_sort by (auto split: if_split_asm)
  have selected: "set selected \<subseteq> set ps"
    using choice balanced_subset [of E q seed claim ?n ?ps selected] by (auto split: if_splits)
  show "set (cl_members layout) \<subseteq> set ps"
    using selected set_take_subset [of "effective q (length ps)" "sort_key (\<lambda>p. committee_rank E seed (cp_site p) (cp_node p)) selected"]
    unfolding layout(1) by auto
  show "cl_members_by_site layout = group_by_site cp_node (cl_members layout)" by (rule layout(2))
qed

lemma site_counts:
  assumes "\<forall>p \<in> set ps. cp_site p \<noteq> None"
  shows "bm_get (fold (\<lambda>p counts. bm_entry_update (the (cp_site p)) 0 (\<lambda>n. n + 1) counts) ps m) s =
    (if at_site s ps = [] then bm_get m s else Some (unwrap_or (bm_get m s) 0 + length (at_site s ps)))"
  using assms by (induction ps arbitrary: m) (auto simp: bm_entry_update_def)

text \<open>A manifest that declares site-loss tolerance is right: whichever site is lost, the committee members
  elsewhere reach the local finality threshold and the validators elsewhere reach the global one.\<close>

theorem site_loss_tolerance_sound:
  assumes "generate_safety_manifest E parameters ps seed holders claim = Ok m" "sm_site_loss_tolerance m"
  shows "\<forall>site. sm_local_finality_threshold m
        \<le> length (filter (\<lambda>p. cp_site p \<noteq> Some site) (cl_members (sm_committee_layout m)))
      \<and> sm_global_finality_threshold m \<le> length (filter (\<lambda>p. cp_site p \<noteq> Some site) ps)"
proof
  fix site
  define layout where "layout = sm_committee_layout m"
  define counts where "counts = fold (\<lambda>p counts. bm_entry_update (the (cp_site p)) 0 (\<lambda>n. n + 1) counts) ps
    (bm_empty :: (SiteId, usize) btree_map)"
  have select: "select_site_balanced_committee E ps (cp_quorum_size parameters) seed claim = Ok layout"
    and thresholds: "sm_local_finality_threshold m = supermajority_count (length (cl_members layout))"
      "sm_global_finality_threshold m = supermajority_count (length ps)"
    and satisfied: "site_loss_is_satisfied layout ps (length ps)"
    using assms by (auto simp: generate_safety_manifest_def Let_def layout_def split: if_splits)
  note layout = selection_members [OF select]
  have three: "bm_len (cl_members_by_site layout) = 3" "bm_len counts = 3" "\<forall>p \<in> set ps. cp_site p \<noteq> None"
    and enough: "\<And>e. e \<in> set (bm_entries (cl_members_by_site layout)) \<Longrightarrow>
      saturating_sub (length (cl_members layout)) (length (snd e)) \<ge> supermajority_count (length (cl_members layout))
      \<and> saturating_sub (length ps) (unwrap_or (bm_get counts (fst e)) 0) \<ge> supermajority_count (length ps)"
    using satisfied
    by (auto simp: site_loss_is_satisfied_def counts_def Let_def list_all_iff list_ex_iff split: if_splits)
  have counts: "bm_get counts s = (if at_site s ps = [] then None else Some (length (at_site s ps)))" for s
    using site_counts [OF three(3), of bm_empty s] by (simp add: counts_def)
  have "dom (bm_get counts) = sites_of ps" by (auto simp: counts sites_of_def)
  then have "card (sites_of ps) = 3" "card (sites_of (cl_members layout)) = 3"
    using three(1,2) by (simp_all add: bm_len_card layout(2) dom_group)
  moreover have "sites_of (cl_members layout) \<subseteq> sites_of ps"
    using layout(1) by (auto simp: sites_of_def filter_empty_conv)
  ultimately have sites: "sites_of (cl_members layout) = sites_of ps"
    by (metis card.infinite card_subset_eq zero_neq_numeral)
  have split: "length xs = length (at_site site xs) + length (filter (\<lambda>p. cp_site p \<noteq> Some site) xs)" for xs
    using sum_length_filter_compl [of "\<lambda>p. cp_site p = Some site" xs] by simp
  have "supermajority_count (length (cl_members layout)) \<le> length (filter (\<lambda>p. cp_site p \<noteq> Some site) (cl_members layout))
      \<and> supermajority_count (length ps) \<le> length (filter (\<lambda>p. cp_site p \<noteq> Some site) ps)"
  proof (cases "site \<in> sites_of ps")
    case True
    then have "(site, map cp_node (at_site site (cl_members layout))) \<in> set (bm_entries (cl_members_by_site layout))"
      by (simp add: layout(2) group_entries sites)
    from enough [OF this] show ?thesis
      using True split [of ps] split [of "cl_members layout"] by (auto simp: counts sites_of_def saturating_sub_def)
  next
    case False
    then have "at_site site ps = []" "at_site site (cl_members layout) = []" using sites by (auto simp: sites_of_def)
    then show ?thesis using split [of ps] split [of "cl_members layout"] by (simp add: supermajority_count_def)
  qed
  then show "sm_local_finality_threshold m \<le> length (filter (\<lambda>p. cp_site p \<noteq> Some site) (cl_members (sm_committee_layout m)))
      \<and> sm_global_finality_threshold m \<le> length (filter (\<lambda>p. cp_site p \<noteq> Some site) ps)"
    by (simp add: thresholds layout_def)
qed


section \<open>An example committee\<close>

definition example_participants :: "CommitteeParticipant list" where
  "example_participants = [\<lparr>cp_node = PubKey 1, cp_site = Some ''a''\<rparr>, \<lparr>cp_node = PubKey 2, cp_site = Some ''b''\<rparr>,
    \<lparr>cp_node = PubKey 3, cp_site = Some ''c''\<rparr>]"

lemma example_groups:
  "bm_entries (group_by_site f example_participants) = map (\<lambda>p. (the (cp_site p), [f p])) example_participants"
  by (simp add: group_by_site_def push_site_def bm_entry_update_def bm_get_def eval_simps example_participants_def)

lemma example_sorted: "sort_key cp_node example_participants = example_participants"
  by (simp add: example_participants_def)

lemma example_selection:
  assumes "quorum_get q = 3"
  shows "select_site_balanced_committee E example_participants q seed True
    = Ok \<lparr>cl_members = example_participants, cl_members_by_site = group_by_site cp_node example_participants\<rparr>"
proof -
  let ?rank = "\<lambda>p. committee_rank E seed (cp_site p) (cp_node p)"
  have count: "site_count example_participants = 3"
    by (simp add: site_count_def bm_len_def bs_of_list_def List.map_filter_def eval_simps example_participants_def)
  have "balanced_candidates E q seed True 3 example_participants = Ok example_participants"
    unfolding balanced_candidates_def Let_def example_groups bm_values_def by (simp add: example_participants_def)
  moreover have "sort_key cp_node (take 3 (sort_key ?rank example_participants)) = example_participants"
  proof -
    have n: "length example_participants = 3" "distinct (map cp_node example_participants)"
      by (simp_all add: example_participants_def)
    then have "sort_key cp_node example_participants = sort_key cp_node (sort_key ?rank example_participants)"
      by (intro sort_nodes_unique) simp_all
    then show ?thesis using n(1) by (simp add: example_sorted)
  qed
  moreover have "\<not> windows2_any (\<lambda>a b. cp_node a = cp_node b) example_participants"
    "list_all (\<lambda>p. cp_site p \<noteq> None) example_participants" "length example_participants = 3"
    by (simp_all add: example_participants_def)
  ultimately show ?thesis using assms count
    unfolding select_site_balanced_committee_def example_sorted effective_def Let_def by simp
qed


lemma three_quorum: "quorum_get (Abs_QuorumSize 3) = 3"
  by (simp add: quorum_get_Abs)

theorem balanced_committee_survives_site_loss_witness:
  "supermajority_count 3 \<le> length (filter (\<lambda>p. cp_site p \<noteq> Some ''b'') example_participants)"
proof -
  have "length example_participants = 3" by (simp add: example_participants_def)
  then show ?thesis
    using balanced_committee_survives_site_loss [OF example_selection [OF three_quorum, of sample_crypto "HashType 0"]] by simp
qed

theorem committee_order_independent_witness:
  "select_site_balanced_committee sample_crypto (rev example_participants) (Abs_QuorumSize 3) (HashType 0) True
    = Ok \<lparr>cl_members = example_participants, cl_members_by_site = group_by_site cp_node example_participants\<rparr>"
  using committee_order_independent [of "rev example_participants" example_participants] example_selection [OF three_quorum]
  by simp

lemma example_manifest:
  "\<exists>m. generate_safety_manifest E (ConsensusParameters_new (Abs_QuorumSize 3)) example_participants seed 0 True = Ok m
    \<and> sm_site_loss_tolerance m \<and> sm_global_finality_threshold m = 2"
proof -
  have "site_loss_is_satisfied \<lparr>cl_members = example_participants, cl_members_by_site = group_by_site cp_node example_participants\<rparr>
      example_participants 3"
    unfolding site_loss_is_satisfied_def Let_def
    by (simp add: bm_len_def example_groups)
      (simp add: example_participants_def bm_entry_update_def bm_get_def eval_simps supermajority_count_def saturating_sub_def)
  moreover have "length example_participants = 3" by (simp add: example_participants_def)
  ultimately show ?thesis
    by (simp add: generate_safety_manifest_def ConsensusParameters_validate_def ConsensusParameters_new_def
        QuorumSize_new_def example_selection [OF three_quorum] three_quorum Let_def supermajority_count_def)
qed

theorem site_loss_tolerance_sound_witness:
  "2 \<le> length (filter (\<lambda>p. cp_site p \<noteq> Some ''c'') example_participants)"
proof -
  obtain m where "generate_safety_manifest sample_crypto (ConsensusParameters_new (Abs_QuorumSize 3)) example_participants
      (HashType 0) 0 True = Ok m" "sm_site_loss_tolerance m" "sm_global_finality_threshold m = 2"
    using example_manifest by blast
  then show ?thesis using site_loss_tolerance_sound by metis
qed

end
