(* ===== verification/HaParameters.thy ===== *)
theory HaParameters
  imports Records
begin

text \<open>
  \<open>src/src/high_availability/parameters.rs\<close>: the committed parameters of the high-availability
  protocol, the strict-majority thresholds and the fixed assignment of two to seven identities to slots, with
  \<open>u8\<close> bit masks over the slots.
\<close>

section \<open>Bit masks over slots\<close>

definition MIN_HA_NODES :: usize where
  "MIN_HA_NODES = 2"

definition MAX_HA_NODES :: usize where
  "MAX_HA_NODES = 7"

text \<open>The test \<open>mask & (1u8 << index) != 0\<close>, and \<open>u8::count_ones\<close>.\<close>

definition mask_has :: "u8 \<Rightarrow> nat \<Rightarrow> bool" where
  "mask_has w index \<longleftrightarrow> w AND push_bit index 1 \<noteq> 0"

definition count_ones :: "u8 \<Rightarrow> usize" where
  "count_ones w = length (filter (bit w) [0..<8])"

definition low_bits :: "u8 \<Rightarrow> u8" where
  "low_bits cnt = ucast ((push_bit (unat cnt) 1 :: u16) - 1)"


section \<open>Thresholds and parameters\<close>

definition high_availability_majority :: "usize \<Rightarrow> usize" where
  "high_availability_majority member_count = member_count div 2 + 1"

definition high_availability_fault_tolerance :: "usize \<Rightarrow> usize" where
  "high_availability_fault_tolerance member_count =
    saturating_sub member_count (high_availability_majority member_count)"

record HighAvailabilityParameters =
  hp_version :: u16
  hp_mutable_epoch_depth :: u32
  hp_unresponsive_epoch_depth :: u32

definition HIGH_AVAILABILITY_PARAMETERS_VERSION :: u16 where
  "HIGH_AVAILABILITY_PARAMETERS_VERSION = 1"

definition ha_parameters_new :: "u32 \<Rightarrow> u32 \<Rightarrow> HighAvailabilityParameters" where
  "ha_parameters_new mutable_epoch_depth unresponsive_epoch_depth =
    \<lparr>hp_version = HIGH_AVAILABILITY_PARAMETERS_VERSION,
     hp_mutable_epoch_depth = mutable_epoch_depth,
     hp_unresponsive_epoch_depth = unresponsive_epoch_depth\<rparr>"

definition ha_parameters_validate :: "HighAvailabilityParameters \<Rightarrow> unit result" where
  "ha_parameters_validate p =
    (if hp_version p \<noteq> HIGH_AVAILABILITY_PARAMETERS_VERSION then Err InvalidConfiguration
     else if hp_mutable_epoch_depth p = 0 then Err InvalidConfiguration
     else if hp_unresponsive_epoch_depth p = 0 then Err InvalidConfiguration
     else Ok ())"

definition HA_PARAMETERS_HASH_DOMAIN :: bytes where
  "HA_PARAMETERS_HASH_DOMAIN = string_bytes ''blossom/high-availability/parameters/v1''"

definition ha_parameters_hash :: "crypto \<Rightarrow> HighAvailabilityParameters \<Rightarrow> HashType" where
  "ha_parameters_hash E p = sha256 E
    (HA_PARAMETERS_HASH_DOMAIN
     @ u16_to_le_bytes (hp_version p)
     @ u32_to_le_bytes (hp_mutable_epoch_depth p)
     @ u32_to_le_bytes (hp_unresponsive_epoch_depth p))"


section \<open>Member slots\<close>

datatype HaMemberSlot = HaMemberSlot (slot_byte: u8)

definition slot_index :: "HaMemberSlot \<Rightarrow> usize" where
  "slot_index s = unat (slot_byte s)"

definition slot_bit :: "HaMemberSlot \<Rightarrow> u8 result" where
  "slot_bit s =
    (if slot_index s \<ge> MAX_HA_NODES then Err InvalidConfiguration else Ok (push_bit (slot_index s) 1))"

record HaMemberSlots =
  hm_member_count :: u8
  hm_active_mask :: u8
  hm_fixed_identity_hash :: HashType
  hm_members :: "NodeIdentity option list"

definition HA_MEMBERSHIP_HASH_DOMAIN :: bytes where
  "HA_MEMBERSHIP_HASH_DOMAIN = string_bytes ''blossom/high-availability/fixed-membership/v1''"

definition compute_fixed_identity_hash :: "crypto \<Rightarrow> u8 \<Rightarrow> NodeIdentity option list \<Rightarrow> HashType" where
  "compute_fixed_identity_hash E member_count members = sha256 E
    (HA_MEMBERSHIP_HASH_DOMAIN @ [member_count]
     @ concat (map (\<lambda>member. pubkey_as_ref (ni_public_key (the member))) (take (unat member_count) members)))"

definition active_count :: "HaMemberSlots \<Rightarrow> usize" where
  "active_count m = count_ones (hm_active_mask m AND low_bits (hm_member_count m))"

definition ha_majority :: "HaMemberSlots \<Rightarrow> usize" where
  "ha_majority m = high_availability_majority (active_count m)"

definition ha_member :: "HaMemberSlots \<Rightarrow> HaMemberSlot \<Rightarrow> NodeIdentity option" where
  "ha_member m slot = (case slice_get (hm_members m) (slot_index slot) of None \<Rightarrow> None | Some member \<Rightarrow> member)"

definition member_slots_validate :: "crypto \<Rightarrow> HaMemberSlots \<Rightarrow> unit result" where
  "member_slots_validate E m =
    (let member_count = unat (hm_member_count m)
     in if \<not> (MIN_HA_NODES \<le> member_count \<and> member_count \<le> MAX_HA_NODES)
        then Err (InvalidHighAvailabilityNodeCount member_count)
        else if hm_active_mask m AND NOT (low_bits (hm_member_count m)) \<noteq> 0 then Err InvalidConfiguration
        else if hm_fixed_identity_hash m \<noteq> compute_fixed_identity_hash E (hm_member_count m) (hm_members m)
        then Err InvalidConfiguration
        else if active_count m < MIN_HA_NODES then Err InvalidConfiguration
        else try_fold (\<lambda>_ index.
          if (hm_members m ! index \<noteq> None) \<noteq> (index < member_count) then Err InvalidConfiguration
          else if index > 0 \<and> index < member_count
            \<and> ni_public_key (the (hm_members m ! (index - 1))) \<ge> ni_public_key (the (hm_members m ! index))
          then Err InvalidConfiguration
          else Ok ()) () [0..<MAX_HA_NODES])"

definition member_slots_new :: "crypto \<Rightarrow> NodeIdentity list \<Rightarrow> HaMemberSlots result" where
  "member_slots_new E members0 =
    (if \<not> (MIN_HA_NODES \<le> length members0 \<and> length members0 \<le> MAX_HA_NODES)
     then Err (InvalidHighAvailabilityNodeCount (length members0))
     else let members = sort_key ni_public_key members0
          in if windows2_any (\<lambda>a b. ni_public_key a = ni_public_key b) members then Err InvalidConfiguration
             else let member_count = of_nat (length members);
                      slots = map (\<lambda>member. Some (public_only member)) members
                        @ replicate (MAX_HA_NODES - length members) None;
                      result = \<lparr>hm_member_count = member_count, hm_active_mask = low_bits member_count,
                        hm_fixed_identity_hash = compute_fixed_identity_hash E member_count slots,
                        hm_members = slots\<rparr>
                  in and_then (member_slots_validate E result) (\<lambda>_. Ok result))"

definition slot_for :: "HaMemberSlots \<Rightarrow> PubKey \<Rightarrow> HaMemberSlot option" where
  "slot_for m public_key =
    map_option (\<lambda>index. HaMemberSlot (of_nat index))
      (position (\<lambda>member. case member of None \<Rightarrow> False | Some n \<Rightarrow> ni_public_key n = public_key)
        (take (unat (hm_member_count m)) (hm_members m)))"

definition same_fixed_identities :: "HaMemberSlots \<Rightarrow> HaMemberSlots \<Rightarrow> bool" where
  "same_fixed_identities m other \<longleftrightarrow>
    hm_member_count m = hm_member_count other
    \<and> list_all (\<lambda>index. case (hm_members m ! index, hm_members other ! index) of
          (Some left, Some right) \<Rightarrow> ni_public_key left = ni_public_key right | _ \<Rightarrow> False)
        [0..<unat (hm_member_count m)]"

definition is_active :: "HaMemberSlots \<Rightarrow> HaMemberSlot \<Rightarrow> bool" where
  "is_active m slot =
    (case slot_bit slot of Inl _ \<Rightarrow> False | Inr b \<Rightarrow> hm_active_mask m AND b \<noteq> 0 \<and> ha_member m slot \<noteq> None)"

definition with_suspended :: "crypto \<Rightarrow> HaMemberSlots \<Rightarrow> HaMemberSlot \<Rightarrow> HaMemberSlots result" where
  "with_suspended E m slot =
    (if \<not> is_active m slot then Err InvalidConfiguration
     else and_then (slot_bit slot) (\<lambda>b.
       let next_mask = hm_active_mask m AND NOT b
       in if count_ones next_mask < MIN_HA_NODES then Err InvalidConfiguration
          else let nxt = m\<lparr>hm_active_mask := next_mask\<rparr>
               in and_then (member_slots_validate E nxt) (\<lambda>_. Ok nxt)))"

definition with_reactivated :: "crypto \<Rightarrow> HaMemberSlots \<Rightarrow> HaMemberSlot \<Rightarrow> HaMemberSlots result" where
  "with_reactivated E m slot =
    (if ha_member m slot = None then Err UnknownSender
     else and_then (slot_bit slot) (\<lambda>b.
       let nxt = m\<lparr>hm_active_mask := hm_active_mask m OR b\<rparr>
       in and_then (member_slots_validate E nxt) (\<lambda>_. Ok nxt)))"


section \<open>Masks as sets of slots\<close>

definition mask_set :: "u8 \<Rightarrow> nat set" where
  "mask_set w = {i. bit w i}"

lemma mask_has_bit: "mask_has w i \<longleftrightarrow> bit w i"
  by (simp add: mask_has_def bit_iff_and_push_bit_not_eq_0)

lemma mask_set_finite [simp]: "finite (mask_set w)"
  by (rule finite_subset [of _ "{..<8}"]) (auto simp: mask_set_def dest: bit_imp_le_length)

lemma count_ones_card: "count_ones w = card (mask_set w)"
proof -
  have "mask_set w = set (filter (bit w) [0..<8])"
    by (auto simp: mask_set_def dest: bit_imp_le_length)
  moreover have "distinct (filter (bit w) [0..<8])" by simp
  ultimately show ?thesis unfolding count_ones_def by (simp only: distinct_card)
qed

lemma mask_set_and: "mask_set (v AND w) = mask_set v \<inter> mask_set w"
  by (auto simp: mask_set_def bit_simps)

lemma mask_set_ops [simp]:
  "mask_set (v OR w) = mask_set v \<union> mask_set w"
  "mask_set (v AND NOT w) = mask_set v - mask_set w"
  "mask_set 0 = {}"
  by (auto simp: mask_set_def bit_simps dest: bit_imp_le_length)

lemma mask_set_bit: "i < 8 \<Longrightarrow> mask_set (2 ^ i) = {i}"
  by (auto simp: mask_set_def bit_simps)

lemma mask_set_inject: "mask_set v = mask_set w \<longleftrightarrow> v = w"
  by (auto simp: mask_set_def set_eq_iff intro: bit_word_eqI)

lemma mask_eq_0_iff: "w = 0 \<longleftrightarrow> mask_set w = {}"
  by (metis mask_set_inject mask_set_ops(3))

lemma mask_diff_0_iff: "v AND NOT w = 0 \<longleftrightarrow> mask_set v \<subseteq> mask_set w"
  by (simp add: mask_eq_0_iff)

lemma mask_covers_iff: "v AND w = w \<longleftrightarrow> mask_set w \<subseteq> mask_set v"
  by (auto simp: mask_set_inject [symmetric] mask_set_and)

lemma low_bits_set:
  assumes "unat n \<le> 8"
  shows "mask_set (low_bits n) = {..<unat n}"
proof -
  have "low_bits n = (ucast (mask (unat n) :: u16) :: u8)"
    by (simp add: low_bits_def mask_eq_exp_minus_1 push_bit_eq_mult)
  then show ?thesis
    using assms by (auto simp: mask_set_def bit_simps dest: bit_imp_le_length)
qed


section \<open>Strict majorities\<close>

text \<open>The strict majorities of a set of slots are a quorum system without tolerated liars; two
  majorities still meet when one of the two sets has a single further slot.\<close>

definition majority_of :: "nat set \<Rightarrow> nat set \<Rightarrow> bool" where
  "majority_of M S \<longleftrightarrow> S \<subseteq> M \<and> high_availability_majority (card M) \<le> card S"

lemma majorities_overlap:
  assumes "finite M" "majority_of M S" "majority_of M S'"
  shows "\<exists>v. v \<in> S \<and> v \<in> S'"
proof -
  have "card S + card S' \<le> card M + card (S \<inter> S')"
    using assms by (intro card_Int_lower_bound) (auto simp: majority_of_def)
  moreover have "card M div 2 + 1 \<le> card S" "card M div 2 + 1 \<le> card S'"
    using assms by (simp_all add: majority_of_def high_availability_majority_def)
  ultimately have "0 < card (S \<inter> S')" by linarith
  then have "S \<inter> S' \<noteq> {}" by (metis card.empty less_irrefl)
  then show ?thesis by blast
qed

interpretation ha_quorum: quorum_system "mask_set w" "majority_of (mask_set w)" 0
  for w :: u8
proof
  fix S S' assume S: "majority_of (mask_set w) S" and S': "majority_of (mask_set w) S'"
  have "S \<inter> S' \<noteq> {}" using majorities_overlap [OF _ S S'] by auto
  moreover have "finite (S \<inter> S')" using S by (meson finite_Int finite_subset majority_of_def mask_set_finite)
  ultimately show "0 < card (S \<inter> S')" by (simp add: card_gt_0_iff)
qed (simp_all add: majority_of_def)

lemma majorities_meet:
  "majority_of (mask_set w) S \<Longrightarrow> majority_of (mask_set w) S' \<Longrightarrow> \<exists>v. v \<in> S \<and> v \<in> S'"
  using ha_quorum.honest_overlap [of w S S' "{}"] by auto

lemma majorities_meet_adjacent:
  assumes "majority_of M S" "majority_of (M - {x}) S'" "finite M"
  shows "\<exists>v. v \<in> S \<and> v \<in> S'"
proof (cases "x \<in> M")
  case True
  then have "card M = Suc (card (M - {x}))" using assms(3) by (rule card.remove [rotated])
  moreover have "card S + card S' \<le> card M + card (S \<inter> S')"
    using assms by (intro card_Int_lower_bound) (auto simp: majority_of_def)
  moreover have "card M div 2 + 1 \<le> card S" "card (M - {x}) div 2 + 1 \<le> card S'"
    using assms(1,2) by (simp_all add: majority_of_def high_availability_majority_def)
  ultimately have "0 < card (S \<inter> S')" by linarith
  then have "S \<inter> S' \<noteq> {}" by (metis card.empty less_irrefl)
  then show ?thesis by blast
next
  case False
  then show ?thesis using majorities_overlap [OF assms(3,1), of S'] assms(2) by simp
qed

lemma majorities_meet_grown:
  assumes "majority_of M S" "majority_of (insert x M) S'" "finite M"
  shows "\<exists>v. v \<in> S \<and> v \<in> S'"
proof (cases "x \<in> M")
  case True
  then show ?thesis using majorities_overlap [OF assms(3,1), of S'] assms(2) by (simp add: insert_absorb)
next
  case False
  then show ?thesis using majorities_meet_adjacent [of "insert x M" S' x S] assms by auto
qed


section \<open>Slots\<close>

lemma slot_bit_Ok: "slot_bit s = Ok b \<longleftrightarrow> slot_index s < 7 \<and> b = push_bit (slot_index s) 1"
  by (auto simp: slot_bit_def MAX_HA_NODES_def)

lemma is_active_iff:
  "is_active m s \<longleftrightarrow> slot_index s < 7 \<and> slot_index s \<in> mask_set (hm_active_mask m) \<and> ha_member m s \<noteq> None"
  by (auto simp: is_active_def slot_bit_def MAX_HA_NODES_def mask_eq_0_iff mask_set_bit mask_set_and)

lemma with_suspended_Ok:
  assumes "with_suspended E m s = Ok n"
  shows "slot_index s \<in> mask_set (hm_active_mask m)"
    and "mask_set (hm_active_mask n) = mask_set (hm_active_mask m) - {slot_index s}"
    and "n = m\<lparr>hm_active_mask := hm_active_mask n\<rparr>"
    and "member_slots_validate E n = Ok ()"
  using assms
  by (auto simp: with_suspended_def slot_bit_Ok Let_def is_active_iff mask_set_bit)

lemma with_reactivated_Ok:
  assumes "with_reactivated E m s = Ok n"
  shows "mask_set (hm_active_mask n) = insert (slot_index s) (mask_set (hm_active_mask m))"
    and "n = m\<lparr>hm_active_mask := hm_active_mask n\<rparr>"
    and "member_slots_validate E n = Ok ()"
  using assms
  by (auto simp: with_reactivated_def slot_bit_Ok Let_def mask_set_bit)

end
