(* ===== verification/HaProtocol.thy ===== *)
theory HaProtocol
  imports HaParameters Block "HOL-Library.Product_Lexorder"
begin

text \<open>
  \<open>src/src/high_availability/protocol.rs\<close>: the messages, candidates and epochs of the
  high-availability protocol and the state of one round, which collects block dispatches, receipt
  acknowledgements and candidate confirmations of up to seven members.
\<close>

section \<open>Rounds and candidates\<close>

record HaRoundId =
  hr_group_id :: ConsensusGroupId
  hr_fixed_membership_hash :: HashType
  hr_membership_generation :: u64
  hr_active_mask :: u8
  hr_parameters_hash :: HashType
  hr_previous_epoch_hash :: HashType
  hr_previous_epoch_nonce :: Nonce
  hr_nonce :: Nonce
  hr_round :: u8

definition round_validate_for :: "HaRoundId \<Rightarrow> HaMemberSlots \<Rightarrow> unit result" where
  "round_validate_for r members =
    (if hr_fixed_membership_hash r \<noteq> hm_fixed_identity_hash members \<or> hr_active_mask r \<noteq> hm_active_mask members
     then Err WireProtocol
     else if hr_nonce r \<noteq> new_next (hr_previous_epoch_nonce r) then Err InvalidEpochNonce
     else Ok ())"

definition round_id_bytes :: "HaRoundId \<Rightarrow> bytes" where
  "round_id_bytes r =
    hash_as_ref (group_hash (hr_group_id r))
    @ hash_as_ref (hr_fixed_membership_hash r)
    @ u64_to_le_bytes (hr_membership_generation r)
    @ [hr_active_mask r]
    @ hash_as_ref (hr_parameters_hash r)
    @ hash_as_ref (hr_previous_epoch_hash r)
    @ u64_to_le_bytes (hr_previous_epoch_nonce r)
    @ u64_to_le_bytes (hr_nonce r)
    @ [hr_round r]"

record HaCandidate =
  hc_included_mask :: u8
  hc_presence_mask :: u8
  hc_block_hashes :: "HashType list"
  hc_digest :: HashType

definition HA_CANDIDATE_HASH_DOMAIN :: bytes where
  "HA_CANDIDATE_HASH_DOMAIN = string_bytes ''blossom/high-availability/candidate/v1''"

definition candidate_bytes :: "HaRoundId \<Rightarrow> u8 \<Rightarrow> u8 \<Rightarrow> HashType list \<Rightarrow> bytes" where
  "candidate_bytes r included_mask presence_mask block_hashes =
    HA_CANDIDATE_HASH_DOMAIN @ round_id_bytes r @ [included_mask] @ [presence_mask]
    @ concat (map (\<lambda>(index, h). if mask_has included_mask index then [of_nat index] @ hash_as_ref h else [])
        (enumerate 0 block_hashes))"

definition candidate_digest :: "crypto \<Rightarrow> HaRoundId \<Rightarrow> u8 \<Rightarrow> u8 \<Rightarrow> HashType list \<Rightarrow> HashType" where
  "candidate_digest E r included_mask presence_mask block_hashes =
    sha256 E (candidate_bytes r included_mask presence_mask block_hashes)"

definition candidate_from_round :: "crypto \<Rightarrow> HaRoundId \<Rightarrow> u8 \<Rightarrow> u8 \<Rightarrow> HashType list \<Rightarrow> HaCandidate" where
  "candidate_from_round E r included_mask presence_mask block_hashes =
    \<lparr>hc_included_mask = included_mask, hc_presence_mask = presence_mask, hc_block_hashes = block_hashes,
     hc_digest = candidate_digest E r included_mask presence_mask block_hashes\<rparr>"

definition candidate_validate :: "crypto \<Rightarrow> HaCandidate \<Rightarrow> HaRoundId \<Rightarrow> unit result" where
  "candidate_validate E c r =
    (if hc_included_mask c = 0 \<or> hc_included_mask c AND NOT (hr_active_mask r) \<noteq> 0 then Err WireProtocol
     else if hc_presence_mask c AND NOT (hr_active_mask r) \<noteq> 0
       \<or> hc_presence_mask c AND hc_included_mask c \<noteq> hc_included_mask c then Err WireProtocol
     else if list_ex (\<lambda>index. \<not> mask_has (hc_included_mask c) index \<and> hc_block_hashes c ! index \<noteq> default_hash)
       [0..<MAX_HA_NODES] then Err WireProtocol
     else if hc_digest c \<noteq> candidate_digest E r (hc_included_mask c) (hc_presence_mask c) (hc_block_hashes c)
     then Err WireProtocol
     else Ok ())"

record HaOrderedSlots =
  os_len :: u8
  os_slots :: "u8 list"

definition ordered_slots_default :: HaOrderedSlots where
  "ordered_slots_default = \<lparr>os_len = 0, os_slots = replicate MAX_HA_NODES 0\<rparr>"

definition os_as_slice :: "HaOrderedSlots \<Rightarrow> u8 list" where
  "os_as_slice s = take (unat (os_len s)) (os_slots s)"

text \<open>The inner loop of \<open>ordered_slots\<close>, from \<open>pos\<close> downwards: larger entries move up by one.\<close>

fun shift_slots :: "HashType list \<Rightarrow> nat \<Rightarrow> nat \<Rightarrow> u8 list \<Rightarrow> nat \<times> u8 list" where
  "shift_slots hashes index 0 slots = (0, slots)"
| "shift_slots hashes index (Suc pos) slots =
    (let previous_slot = slots ! pos
     in if hashes ! index > hashes ! unat previous_slot
         \<or> hashes ! index = hashes ! unat previous_slot \<and> of_nat index \<ge> previous_slot
        then (Suc pos, slots)
        else shift_slots hashes index pos (slots[Suc pos := previous_slot]))"

definition ordered_slots :: "HaCandidate \<Rightarrow> HaOrderedSlots" where
  "ordered_slots c = fold (\<lambda>index result.
      if \<not> mask_has (hc_included_mask c) index then result
      else let (pos, slots) = shift_slots (hc_block_hashes c) index (unat (os_len result)) (os_slots result)
           in \<lparr>os_len = os_len result + 1, os_slots = slots[pos := of_nat index]\<rparr>)
    [0..<MAX_HA_NODES] ordered_slots_default"


section \<open>Messages\<close>

record HaDispatch =
  hd_round_id :: HaRoundId
  hd_sender :: HaMemberSlot
  hd_block_hash :: HashType
  hd_block :: Block

record HaAcknowledge =
  ha_round_id :: HaRoundId
  ha_sender :: HaMemberSlot
  ha_received_mask :: u8
  ha_block_hashes :: "HashType list"

record HaConfirm =
  hf_round_id :: HaRoundId
  hf_sender :: HaMemberSlot
  hf_candidate :: HaCandidate

datatype HaDispatchOutcome = Accepted | Duplicate | Late Nonce

record HaFinalizedRound =
  fr_round_id :: HaRoundId
  fr_candidate :: HaCandidate
  fr_confirmation_mask :: u8
  fr_presence_mask :: u8
  fr_ordered_slots :: HaOrderedSlots


section \<open>Epochs\<close>

record HaEpoch =
  ep_hash :: HashType
  ep_group_id :: ConsensusGroupId
  ep_fixed_membership_hash :: HashType
  ep_membership_generation :: u64
  ep_active_mask :: u8
  ep_previous_epoch_hash :: HashType
  ep_previous_epoch_nonce :: "Nonce option"
  ep_nonce :: Nonce
  ep_candidate :: HaCandidate
  ep_confirmation_mask :: u8
  ep_presence_mask :: u8
  ep_ordered_slots :: HaOrderedSlots
  ep_blocks :: "Block option list"
  ep_parameters :: HighAvailabilityParameters
  ep_parameters_hash :: HashType

definition HA_EPOCH_HASH_DOMAIN :: bytes where
  "HA_EPOCH_HASH_DOMAIN = string_bytes ''blossom/high-availability/epoch/v1''"

definition ha_epoch_bytes :: "HaEpoch \<Rightarrow> bytes" where
  "ha_epoch_bytes e =
    HA_EPOCH_HASH_DOMAIN
    @ hash_as_ref (group_hash (ep_group_id e))
    @ hash_as_ref (ep_fixed_membership_hash e)
    @ u64_to_le_bytes (ep_membership_generation e)
    @ [ep_active_mask e]
    @ hash_as_ref (ep_previous_epoch_hash e)
    @ (case ep_previous_epoch_nonce e of Some nonce \<Rightarrow> [1] @ u64_to_le_bytes nonce | None \<Rightarrow> [0])
    @ u64_to_le_bytes (ep_nonce e)
    @ hash_as_ref (hc_digest (ep_candidate e))
    @ [ep_presence_mask e]
    @ hash_as_ref (ep_parameters_hash e)"

definition epoch_compute_hash :: "crypto \<Rightarrow> HaEpoch \<Rightarrow> HashType" where
  "epoch_compute_hash E e = sha256 E (ha_epoch_bytes e)"

definition epoch_from_finalized ::
  "crypto \<Rightarrow> HaFinalizedRound \<Rightarrow> Block option list \<Rightarrow> HighAvailabilityParameters \<Rightarrow> HaEpoch" where
  "epoch_from_finalized E f blocks parameters =
    (let epoch = \<lparr>ep_hash = default_hash,
           ep_group_id = hr_group_id (fr_round_id f),
           ep_fixed_membership_hash = hr_fixed_membership_hash (fr_round_id f),
           ep_membership_generation = hr_membership_generation (fr_round_id f),
           ep_active_mask = hr_active_mask (fr_round_id f),
           ep_previous_epoch_hash = hr_previous_epoch_hash (fr_round_id f),
           ep_previous_epoch_nonce = Some (hr_previous_epoch_nonce (fr_round_id f)),
           ep_nonce = hr_nonce (fr_round_id f),
           ep_candidate = fr_candidate f,
           ep_confirmation_mask = fr_confirmation_mask f,
           ep_presence_mask = fr_presence_mask f,
           ep_ordered_slots = fr_ordered_slots f,
           ep_blocks = blocks,
           ep_parameters = parameters,
           ep_parameters_hash = ha_parameters_hash E parameters\<rparr>
     in epoch\<lparr>ep_hash := epoch_compute_hash E epoch\<rparr>)"

definition epoch_genesis ::
  "crypto \<Rightarrow> ConsensusGroupId \<Rightarrow> HaMemberSlots \<Rightarrow> HighAvailabilityParameters \<Rightarrow> HaEpoch" where
  "epoch_genesis E group_id members parameters =
    (let round_id = \<lparr>hr_group_id = group_id, hr_fixed_membership_hash = hm_fixed_identity_hash members,
           hr_membership_generation = 0, hr_active_mask = hm_active_mask members,
           hr_parameters_hash = ha_parameters_hash E parameters, hr_previous_epoch_hash = default_hash,
           hr_previous_epoch_nonce = 0, hr_nonce = 0, hr_round = 0\<rparr>;
         candidate = candidate_from_round E round_id 1 1 (replicate MAX_HA_NODES default_hash);
         epoch = \<lparr>ep_hash = default_hash, ep_group_id = group_id,
           ep_fixed_membership_hash = hm_fixed_identity_hash members,
           ep_membership_generation = 0, ep_active_mask = hm_active_mask members,
           ep_previous_epoch_hash = default_hash, ep_previous_epoch_nonce = None, ep_nonce = 0,
           ep_candidate = candidate, ep_confirmation_mask = hm_active_mask members,
           ep_presence_mask = hm_active_mask members, ep_ordered_slots = ordered_slots_default,
           ep_blocks = replicate MAX_HA_NODES None, ep_parameters = parameters,
           ep_parameters_hash = ha_parameters_hash E parameters\<rparr>
     in epoch\<lparr>ep_hash := epoch_compute_hash E epoch\<rparr>)"

definition epoch_ordered_blocks :: "HaEpoch \<Rightarrow> (HaMemberSlot \<times> Block) list" where
  "epoch_ordered_blocks e =
    List.map_filter (\<lambda>slot. map_option (\<lambda>block. (HaMemberSlot slot, block)) (ep_blocks e ! unat slot))
      (os_as_slice (ep_ordered_slots e))"

definition ha_epoch_validate :: "crypto \<Rightarrow> HaEpoch \<Rightarrow> HaMemberSlots \<Rightarrow> unit result" where
  "ha_epoch_validate E e members =
    and_then (ha_parameters_validate (ep_parameters e)) (\<lambda>_.
     if ep_parameters_hash e \<noteq> ha_parameters_hash E (ep_parameters e) then Err InvalidConfiguration
     else if ep_fixed_membership_hash e \<noteq> hm_fixed_identity_hash members then Err InvalidConfiguration
     else if ep_active_mask e AND NOT (low_bits (hm_member_count members)) \<noteq> 0 then Err WireProtocol
     else if (case ep_previous_epoch_nonce e of None \<Rightarrow> False | Some previous \<Rightarrow> new_next previous \<noteq> ep_nonce e)
     then Err InvalidEpochNonce
     else if ep_hash e \<noteq> epoch_compute_hash E e then Err InvalidBlockHash
     else and_then (candidate_validate E (ep_candidate e)
       \<lparr>hr_group_id = ep_group_id e, hr_fixed_membership_hash = ep_fixed_membership_hash e,
        hr_membership_generation = ep_membership_generation e, hr_active_mask = ep_active_mask e,
        hr_parameters_hash = ep_parameters_hash e, hr_previous_epoch_hash = ep_previous_epoch_hash e,
        hr_previous_epoch_nonce = unwrap_or (ep_previous_epoch_nonce e) 0, hr_nonce = ep_nonce e, hr_round = 0\<rparr>) (\<lambda>_.
     if ep_confirmation_mask e AND NOT (ep_active_mask e) \<noteq> 0
       \<or> count_ones (ep_confirmation_mask e) < high_availability_majority (count_ones (ep_active_mask e))
     then Err WireProtocol
     else if ep_presence_mask e \<noteq> hc_presence_mask (ep_candidate e)
       \<or> ep_ordered_slots e \<noteq> ordered_slots (ep_candidate e) then Err WireProtocol
     else try_fold (\<lambda>_ index.
       if mask_has (hc_included_mask (ep_candidate e)) index
       then and_then (ok_or (ep_blocks e ! index) WireProtocol) (\<lambda>block.
         verify_unsigned_integrity_with_hash E block (hc_block_hashes (ep_candidate e) ! index))
       else if ep_blocks e ! index \<noteq> None then Err WireProtocol
       else Ok ()) () [0..<MAX_HA_NODES]))"


section \<open>The state of a round\<close>

record HaRoundState =
  rs_round_id :: HaRoundId
  rs_blocks :: "Block option list"
  rs_block_hashes :: "HashType list"
  rs_received_mask :: u8
  rs_acknowledgements :: "u8 list"
  rs_confirmations :: "HashType option list"
  rs_confirmed_candidate :: "HashType option"
  rs_finalized :: "HaFinalizedRound option"

definition round_state_new :: "crypto \<Rightarrow> HaRoundId \<Rightarrow> HaMemberSlots \<Rightarrow> HaRoundState result" where
  "round_state_new E round_id members =
    and_then (member_slots_validate E members) (\<lambda>_.
    and_then (round_validate_for round_id members) (\<lambda>_.
      Ok \<lparr>rs_round_id = round_id, rs_blocks = replicate MAX_HA_NODES None,
          rs_block_hashes = replicate MAX_HA_NODES default_hash, rs_received_mask = 0,
          rs_acknowledgements = replicate MAX_HA_NODES 0, rs_confirmations = replicate MAX_HA_NODES None,
          rs_confirmed_candidate = None, rs_finalized = None\<rparr>))"

definition masked_hashes :: "u8 \<Rightarrow> HashType list \<Rightarrow> HashType list" where
  "masked_hashes w hashes =
    map (\<lambda>index. if mask_has w index then hashes ! index else default_hash) [0..<MAX_HA_NODES]"

definition validate_sender :: "HaMemberSlots \<Rightarrow> HaMemberSlot \<Rightarrow> unit result" where
  "validate_sender members sender = (if \<not> is_active members sender then Err UnknownSender else Ok ())"

definition validate_message_scope ::
  "HaRoundState \<Rightarrow> HaMemberSlots \<Rightarrow> HaRoundId \<Rightarrow> HaMemberSlot \<Rightarrow> unit result" where
  "validate_message_scope s members round_id sender =
    (if round_id \<noteq> rs_round_id s then Err WireProtocol
     else and_then (round_validate_for round_id members) (\<lambda>_. validate_sender members sender))"

definition round_receive_dispatch ::
  "crypto \<Rightarrow> HaRoundState \<Rightarrow> HaMemberSlots \<Rightarrow> HaDispatch \<Rightarrow> (HaDispatchOutcome \<times> HaRoundState) result" where
  "round_receive_dispatch E s members dispatch =
    and_then (validate_message_scope s members (hd_round_id dispatch) (hd_sender dispatch)) (\<lambda>_.
    let slot = slot_index (hd_sender dispatch); block = hd_block dispatch in
    and_then (ok_or (ha_member members (hd_sender dispatch)) UnknownSender) (\<lambda>expected_member.
    if bb_validator (block_body block) \<noteq> ni_public_key expected_member then Err UnknownSender
    else if bb_last_epoch (block_body block) \<noteq> hr_previous_epoch_hash (rs_round_id s) then Err InvalidBlockLastEpoch
    else if bb_nonce (block_body block) \<noteq> hr_nonce (rs_round_id s)
    then Err (InvalidBlockNonce (hr_nonce (rs_round_id s)) (bb_nonce (block_body block)))
    else and_then (verify_unsigned_integrity_with_hash E block (hd_block_hash dispatch)) (\<lambda>_.
    case rs_blocks s ! slot of
      Some existing \<Rightarrow>
        if rs_block_hashes s ! slot = hd_block_hash dispatch \<and> block_hash existing = block_hash block
        then Ok (Duplicate, s) else Err WireProtocol
    | None \<Rightarrow>
        if rs_confirmed_candidate s \<noteq> None \<or> rs_finalized s \<noteq> None then Ok (Late (hr_nonce (rs_round_id s)), s)
        else and_then (slot_bit (hd_sender dispatch)) (\<lambda>b.
          Ok (Accepted, s\<lparr>rs_blocks := (rs_blocks s)[slot := Some block],
                rs_block_hashes := (rs_block_hashes s)[slot := hd_block_hash dispatch],
                rs_received_mask := rs_received_mask s OR b\<rparr>)))))"

definition round_receive_acknowledgement ::
  "HaRoundState \<Rightarrow> HaMemberSlots \<Rightarrow> HaAcknowledge \<Rightarrow> HaRoundState result" where
  "round_receive_acknowledgement s members a =
    and_then (validate_message_scope s members (ha_round_id a) (ha_sender a)) (\<lambda>_.
    if ha_received_mask a AND NOT (hr_active_mask (rs_round_id s)) \<noteq> 0 then Err WireProtocol
    else and_then (try_fold (\<lambda>_ index.
        if mask_has (ha_received_mask a) index
        then if rs_blocks s ! index = None \<or> ha_block_hashes a ! index \<noteq> rs_block_hashes s ! index
             then Err WireProtocol else Ok ()
        else if ha_block_hashes a ! index \<noteq> default_hash then Err WireProtocol
        else Ok ()) () [0..<MAX_HA_NODES]) (\<lambda>_.
      let sender = slot_index (ha_sender a) in
      if rs_acknowledgements s ! sender AND NOT (ha_received_mask a) \<noteq> 0 then Err WireProtocol
      else Ok (s\<lparr>rs_acknowledgements := (rs_acknowledgements s)[sender := ha_received_mask a]\<rparr>)))"

definition round_acknowledge ::
  "HaRoundState \<Rightarrow> HaMemberSlots \<Rightarrow> HaMemberSlot \<Rightarrow> (HaAcknowledge \<times> HaRoundState) result" where
  "round_acknowledge s members sender =
    and_then (validate_sender members sender) (\<lambda>_.
    let acknowledgement = \<lparr>ha_round_id = rs_round_id s, ha_sender = sender, ha_received_mask = rs_received_mask s,
          ha_block_hashes = masked_hashes (rs_received_mask s) (rs_block_hashes s)\<rparr>
    in and_then (round_receive_acknowledgement s members acknowledgement) (\<lambda>s'. Ok (acknowledgement, s')))"

definition available_mask :: "HaRoundState \<Rightarrow> HaMemberSlots \<Rightarrow> u8" where
  "available_mask s members =
    (let required = ha_majority members
     in fold (\<lambda>block_slot available.
          if \<not> mask_has (rs_received_mask s) block_slot then available
          else let acknowledgers = length (filter (\<lambda>sender. mask_has (rs_acknowledgements s ! sender) block_slot)
                 (filter (\<lambda>sender. mask_has (hr_active_mask (rs_round_id s)) sender) [0..<MAX_HA_NODES]))
               in if acknowledgers \<ge> required then available OR push_bit block_slot 1 else available)
        [0..<MAX_HA_NODES] 0)"

definition certified_presence_candidate_mask :: "HaRoundState \<Rightarrow> HaMemberSlots \<Rightarrow> u8" where
  "certified_presence_candidate_mask s members =
    fold (\<lambda>index presence.
      if mask_has (hr_active_mask (rs_round_id s)) index \<and> rs_acknowledgements s ! index \<noteq> 0
      then presence OR push_bit index 1 else presence)
    [0..<MAX_HA_NODES] (available_mask s members)"

definition confirmation_mask_for :: "HaRoundState \<Rightarrow> HashType \<Rightarrow> u8" where
  "confirmation_mask_for s digest =
    fold (\<lambda>index w.
      if mask_has (hr_active_mask (rs_round_id s)) index \<and> rs_confirmations s ! index = Some digest
      then w OR push_bit index 1 else w) [0..<MAX_HA_NODES] 0"

definition round_receive_confirmation ::
  "crypto \<Rightarrow> HaRoundState \<Rightarrow> HaMemberSlots \<Rightarrow> HaConfirm \<Rightarrow> (HaFinalizedRound option \<times> HaRoundState) result" where
  "round_receive_confirmation E s members c =
    (let candidate = hf_candidate c; digest = hc_digest candidate; sender_index = slot_index (hf_sender c) in
    and_then (validate_message_scope s members (hf_round_id c) (hf_sender c)) (\<lambda>_.
    and_then (candidate_validate E candidate (rs_round_id s)) (\<lambda>_.
    if hc_included_mask candidate \<noteq> rs_received_mask s then Err WireProtocol
    else if available_mask s members AND hc_included_mask candidate \<noteq> hc_included_mask candidate
    then Err FailedConsensus
    else if list_ex (\<lambda>index. mask_has (hc_included_mask candidate) index
        \<and> hc_block_hashes candidate ! index \<noteq> rs_block_hashes s ! index) [0..<MAX_HA_NODES] then Err WireProtocol
    else case rs_confirmations s ! sender_index of
      Some existing \<Rightarrow> if existing = digest then Ok (rs_finalized s, s) else Err WireProtocol
    | None \<Rightarrow>
        if (case rs_confirmed_candidate s of None \<Rightarrow> False | Some locked \<Rightarrow> locked \<noteq> digest) then Err WireProtocol
        else let s' = s\<lparr>rs_confirmations := (rs_confirmations s)[sender_index := Some digest]\<rparr>;
                 confirmation_mask = confirmation_mask_for s' digest
             in if count_ones confirmation_mask \<ge> ha_majority members
                then let finalized = \<lparr>fr_round_id = rs_round_id s, fr_candidate = candidate,
                           fr_confirmation_mask = confirmation_mask,
                           fr_presence_mask = hc_presence_mask candidate,
                           fr_ordered_slots = ordered_slots candidate\<rparr>
                     in Ok (Some finalized, s'\<lparr>rs_confirmed_candidate := Some digest, rs_finalized := Some finalized\<rparr>)
                else Ok (None, s'))))"

definition round_confirm ::
  "crypto \<Rightarrow> HaRoundState \<Rightarrow> HaMemberSlots \<Rightarrow> HaMemberSlot \<Rightarrow> (HaConfirm \<times> HaRoundState) result" where
  "round_confirm E s members sender =
    and_then (validate_sender members sender) (\<lambda>_.
    if rs_received_mask s = 0 \<or> available_mask s members AND rs_received_mask s \<noteq> rs_received_mask s
    then Err FailedConsensus
    else let candidate = candidate_from_round E (rs_round_id s) (rs_received_mask s)
               (certified_presence_candidate_mask s members)
               (masked_hashes (rs_received_mask s) (rs_block_hashes s));
             confirmation = \<lparr>hf_round_id = rs_round_id s, hf_sender = sender, hf_candidate = candidate\<rparr>
         in case rs_confirmations s ! slot_index sender of
              Some existing \<Rightarrow>
                if existing \<noteq> hc_digest candidate \<or> rs_confirmed_candidate s \<noteq> Some (hc_digest candidate)
                then Err WireProtocol else Ok (confirmation, s)
            | None \<Rightarrow>
                and_then (round_receive_confirmation E s members confirmation) (\<lambda>(_, s').
                  Ok (confirmation, s'\<lparr>rs_confirmed_candidate := Some (hc_digest candidate)\<rparr>)))"


section \<open>Amendments\<close>

record CommandIdentity =
  ci_client_id :: "128 word"
  ci_client_epoch :: u64
  ci_sequence :: u64

datatype AmendmentPayload = LateBlock HashType bytes | Compensation bytes

record AmendmentRecord =
  am_target_epoch_hash :: HashType
  am_target_epoch_nonce :: Nonce
  am_containing_epoch_nonce :: Nonce
  am_origin_slot :: HaMemberSlot
  am_command_identity :: CommandIdentity
  am_supersedes :: "CommandIdentity option"
  am_payload :: AmendmentPayload

text \<open>The Borsh encodings that amendments, epochs and checkpoints go through (\<open>borsh::to_vec\<close> and
  \<open>borsh::from_slice\<close>) are a parameter.\<close>

record ha_codec =
  borsh_amendment :: "AmendmentRecord \<Rightarrow> bytes option"
  borsh_amendment_from_slice :: "bytes \<Rightarrow> AmendmentRecord option"

definition HA_AMENDMENT_HASH_DOMAIN :: bytes where
  "HA_AMENDMENT_HASH_DOMAIN = string_bytes ''blossom/high-availability/amendment/v1''"

definition HA_AMENDMENT_RECORD_PREFIX :: bytes where
  "HA_AMENDMENT_RECORD_PREFIX = string_bytes ''BLOSSOM-HA-AMND1''"

definition amendment_hash :: "crypto \<Rightarrow> ha_codec \<Rightarrow> AmendmentRecord \<Rightarrow> HashType result" where
  "amendment_hash E K a =
    and_then (ok_or (borsh_amendment K a) WireProtocol) (\<lambda>bytes. Ok (sha256 E (HA_AMENDMENT_HASH_DOMAIN @ bytes)))"

definition encode_amendment_transaction :: "crypto \<Rightarrow> ha_codec \<Rightarrow> AmendmentRecord \<Rightarrow> Transaction result" where
  "encode_amendment_transaction E K a =
    and_then (ok_or (borsh_amendment K a) WireProtocol) (\<lambda>encoded.
      Ok (transaction_new E (HA_AMENDMENT_RECORD_PREFIX @ encoded)))"

definition strip_prefix_bytes :: "bytes \<Rightarrow> bytes \<Rightarrow> bytes option" where
  "strip_prefix_bytes p xs = (if take (length p) xs = p then Some (drop (length p) xs) else None)"

definition decode_amendment_transaction :: "ha_codec \<Rightarrow> Transaction \<Rightarrow> AmendmentRecord option result" where
  "decode_amendment_transaction K tx =
    (case strip_prefix_bytes HA_AMENDMENT_RECORD_PREFIX (tx_payload tx) of
       None \<Rightarrow> Ok None
     | Some encoded \<Rightarrow> map_sum id Some (ok_or (borsh_amendment_from_slice K encoded) WireProtocol))"


section \<open>Masks built by loops\<close>

lemma mask_set_fold:
  assumes "n \<le> 8"
  shows "mask_set (fold (\<lambda>i w. if P i then w OR push_bit i 1 else w) [0..<n] v) = mask_set v \<union> {i. i < n \<and> P i}"
  using assms
proof (induction n)
  case (Suc n)
  then show ?case by (auto simp: mask_set_bit less_Suc_eq)
qed simp

lemma available_mask_set:
  "mask_set (available_mask s members) =
    {i. i < 7 \<and> i \<in> mask_set (rs_received_mask s) \<and>
      ha_majority members \<le> card {j. j < 7 \<and> j \<in> mask_set (hr_active_mask (rs_round_id s))
        \<and> i \<in> mask_set (rs_acknowledgements s ! j)}}"
proof -
  define P where "P i \<longleftrightarrow> mask_has (rs_received_mask s) i \<and> ha_majority members \<le>
      length (filter (\<lambda>j. mask_has (rs_acknowledgements s ! j) i)
        (filter (\<lambda>j. mask_has (hr_active_mask (rs_round_id s)) j) [0..<MAX_HA_NODES]))" for i
  have "available_mask s members = fold (\<lambda>i w. if P i then w OR push_bit i 1 else w) [0..<7] 0"
    unfolding available_mask_def Let_def MAX_HA_NODES_def by (rule fold_cong) (auto simp: P_def MAX_HA_NODES_def)
  moreover have "length (filter (\<lambda>j. mask_has (rs_acknowledgements s ! j) i)
      (filter (\<lambda>j. mask_has (hr_active_mask (rs_round_id s)) j) [0..<MAX_HA_NODES]))
    = card {j. j < 7 \<and> j \<in> mask_set (hr_active_mask (rs_round_id s)) \<and> i \<in> mask_set (rs_acknowledgements s ! j)}" for i
    by (subst distinct_card [symmetric]) (auto simp: mask_has_bit mask_set_def MAX_HA_NODES_def intro!: arg_cong [where f = card])
  ultimately show ?thesis
    by (simp only: mask_set_fold) (auto simp: P_def mask_has_bit mask_set_def)
qed

lemma confirmation_mask_set:
  "mask_set (confirmation_mask_for s d) =
    {i. i < 7 \<and> i \<in> mask_set (hr_active_mask (rs_round_id s)) \<and> rs_confirmations s ! i = Some d}"
  unfolding confirmation_mask_for_def MAX_HA_NODES_def
  by (subst mask_set_fold) (auto simp: mask_has_bit mask_set_def)

lemma presence_mask_set:
  "mask_set (certified_presence_candidate_mask s members) = mask_set (available_mask s members) \<union>
    {i. i < 7 \<and> i \<in> mask_set (hr_active_mask (rs_round_id s)) \<and> rs_acknowledgements s ! i \<noteq> 0}"
  unfolding certified_presence_candidate_mask_def MAX_HA_NODES_def
  by (subst mask_set_fold) (auto simp: mask_has_bit mask_set_def)


section \<open>Round transitions\<close>

lemma scope_Ok:
  "validate_message_scope s members r sender = Ok () \<longleftrightarrow>
    r = rs_round_id s \<and> round_validate_for r members = Ok () \<and> is_active members sender"
  by (auto simp: validate_message_scope_def validate_sender_def)

lemma dispatch_frame:
  assumes "round_receive_dispatch E s members d = Ok (out, s')"
  shows "rs_round_id s' = rs_round_id s" "rs_confirmations s' = rs_confirmations s"
    "rs_confirmed_candidate s' = rs_confirmed_candidate s" "rs_finalized s' = rs_finalized s"
    "rs_acknowledgements s' = rs_acknowledgements s"
  using assms by (auto simp: round_receive_dispatch_def Let_def split: option.splits if_splits)

lemma acknowledgement_frame:
  assumes "round_receive_acknowledgement s members a = Ok s'"
  shows "rs_round_id s' = rs_round_id s" "rs_confirmations s' = rs_confirmations s"
    "rs_confirmed_candidate s' = rs_confirmed_candidate s" "rs_finalized s' = rs_finalized s"
    "rs_received_mask s' = rs_received_mask s"
  using assms by (auto simp: round_receive_acknowledgement_def Let_def split: if_splits)

lemma acknowledge_frame:
  assumes "round_acknowledge s members v = Ok (a, s')"
  shows "rs_round_id s' = rs_round_id s" "rs_confirmations s' = rs_confirmations s"
    "rs_confirmed_candidate s' = rs_confirmed_candidate s" "rs_finalized s' = rs_finalized s"
    "rs_received_mask s' = rs_received_mask s"
  using assms acknowledgement_frame [of s members a s']
  by (auto simp: round_acknowledge_def Let_def)

definition finalized_by_majority :: "HaRoundState \<Rightarrow> HaFinalizedRound \<Rightarrow> bool" where
  "finalized_by_majority s f \<longleftrightarrow>
    fr_round_id f = rs_round_id s \<and> fr_presence_mask f = hc_presence_mask (fr_candidate f) \<and>
    mask_set (fr_confirmation_mask f) \<subseteq> {i. i < 7 \<and> i \<in> mask_set (hr_active_mask (rs_round_id s))
      \<and> rs_confirmations s ! i = Some (hc_digest (fr_candidate f))}"

lemma confirmation_Ok:
  assumes "round_receive_confirmation E s members c = Ok (r, s')"
  shows "rs_round_id s' = rs_round_id s" "hf_round_id c = rs_round_id s" "is_active members (hf_sender c)"
    "round_validate_for (rs_round_id s) members = Ok ()"
    "candidate_validate E (hf_candidate c) (rs_round_id s) = Ok ()"
    "hc_included_mask (hf_candidate c) = rs_received_mask s" "rs_received_mask s' = rs_received_mask s"
    "rs_confirmations s' = rs_confirmations s \<and> rs_confirmations s ! slot_index (hf_sender c) = Some (hc_digest (hf_candidate c))
        \<and> s' = s
      \<or> rs_confirmations s ! slot_index (hf_sender c) = None \<and>
        rs_confirmations s' = (rs_confirmations s)[slot_index (hf_sender c) := Some (hc_digest (hf_candidate c))]"
    "rs_finalized s' = rs_finalized s \<or> (\<exists>f. rs_finalized s' = Some f \<and> fr_candidate f = hf_candidate c \<and> finalized_by_majority s' f
        \<and> ha_majority members \<le> count_ones (fr_confirmation_mask f))"
  using assms
  by (auto simp: round_receive_confirmation_def Let_def scope_Ok finalized_by_majority_def confirmation_mask_set
      split: option.splits if_splits)

definition own_candidate :: "crypto \<Rightarrow> HaRoundState \<Rightarrow> HaMemberSlots \<Rightarrow> HaCandidate" where
  "own_candidate E s members = candidate_from_round E (rs_round_id s) (rs_received_mask s)
    (certified_presence_candidate_mask s members) (masked_hashes (rs_received_mask s) (rs_block_hashes s))"

lemma confirm_cases:
  assumes "round_confirm E s members v = Ok (c, s')"
  obtains (again) "is_active members v" "c = \<lparr>hf_round_id = rs_round_id s, hf_sender = v, hf_candidate = own_candidate E s members\<rparr>"
      "rs_confirmations s ! slot_index v = Some (hc_digest (own_candidate E s members))" "s' = s"
  | (fresh) r t where "is_active members v"
      "c = \<lparr>hf_round_id = rs_round_id s, hf_sender = v, hf_candidate = own_candidate E s members\<rparr>"
      "rs_confirmations s ! slot_index v = None" "round_receive_confirmation E s members c = Ok (r, t)"
      "s' = t\<lparr>rs_confirmed_candidate := Some (hc_digest (own_candidate E s members))\<rparr>"
proof -
  let ?cand = "own_candidate E s members"
  let ?conf = "\<lparr>hf_round_id = rs_round_id s, hf_sender = v, hf_candidate = ?cand\<rparr>"
  have active: "is_active members v"
    and rest: "(case rs_confirmations s ! slot_index v of
        Some existing \<Rightarrow>
          if existing \<noteq> hc_digest ?cand \<or> rs_confirmed_candidate s \<noteq> Some (hc_digest ?cand)
          then Err WireProtocol else Ok (?conf, s)
      | None \<Rightarrow>
          and_then (round_receive_confirmation E s members ?conf) (\<lambda>(_, s').
            Ok (?conf, s'\<lparr>rs_confirmed_candidate := Some (hc_digest ?cand)\<rparr>))) = Ok (c, s')"
    using assms unfolding round_confirm_def Let_def validate_sender_def own_candidate_def [symmetric]
    by (simp_all split: if_splits)
  show ?thesis
  proof (cases "rs_confirmations s ! slot_index v")
    case None
    with rest obtain r t where "round_receive_confirmation E s members ?conf = Ok (r, t)" "c = ?conf"
      "s' = t\<lparr>rs_confirmed_candidate := Some (hc_digest ?cand)\<rparr>" by auto
    with active None show ?thesis by (intro fresh) simp_all
  next
    case (Some existing)
    with rest have "existing = hc_digest ?cand \<and> c = ?conf \<and> s' = s" by (auto split: if_splits)
    with active Some show ?thesis by (intro again) simp_all
  qed
qed

lemma confirm_message:
  assumes "round_confirm E s members v = Ok (c, s')"
  shows "rs_round_id s' = rs_round_id s" "hf_round_id c = rs_round_id s" "hf_sender c = v" "is_active members v"
    "hf_candidate c = own_candidate E s members"
    "rs_confirmations s ! slot_index v \<in> {None, Some (hc_digest (hf_candidate c))}"
  using assms by (cases rule: confirm_cases; simp add: confirmation_Ok(1))+

lemma confirm_lock:
  assumes "round_confirm E s members v = Ok (c, s')" "slot_index v < length (rs_confirmations s)"
  shows "rs_confirmations s' = (rs_confirmations s)[slot_index v := Some (hc_digest (hf_candidate c))]"
  using assms(1)
proof (cases rule: confirm_cases)
  case again
  then show ?thesis using list_update_id [of "rs_confirmations s" "slot_index v"] by simp
next
  case (fresh r t)
  then show ?thesis using confirmation_Ok(8) [OF fresh(4)] by auto
qed

lemma confirm_finalized:
  assumes "round_confirm E s members v = Ok (c, s')"
  shows "rs_finalized s' = rs_finalized s \<or> (\<exists>f. rs_finalized s' = Some f \<and> fr_candidate f = hf_candidate c
    \<and> finalized_by_majority s' f \<and> ha_majority members \<le> count_ones (fr_confirmation_mask f))"
  using assms
proof (cases rule: confirm_cases)
  case (fresh r t)
  then show ?thesis using confirmation_Ok(9) [OF fresh(4)] by (auto simp: finalized_by_majority_def)
qed simp

end
