(* ===== verification/HaRuntime.thy ===== *)
theory HaRuntime
  imports HaProtocol
begin

text \<open>
  The runtime of one high-availability member: \<open>rounds.rs\<close>, \<open>membership.rs\<close> and the construction in
  \<open>engine.rs\<close> of \<open>src/src/high_availability\<close>, with the presence, revision and membership
  records of \<open>status.rs\<close>. Telemetry is left out. A durable write is one call of \<open>persist\<close>;
  the parameter \<open>disk\<close> says which states the log store accepts.
\<close>

section \<open>Lifecycle and presence\<close>

datatype EpochLifecycle = Mutable u32 | Sealed

definition saturating_sub_u64 :: "u64 \<Rightarrow> u64 \<Rightarrow> u64" where
  "saturating_sub_u64 a b = (if b \<le> a then a - b else 0)"

definition epoch_lifecycle :: "Nonce \<Rightarrow> Nonce \<Rightarrow> u32 \<Rightarrow> EpochLifecycle" where
  "epoch_lifecycle epoch head mutable_epoch_depth =
    (let distance = saturating_sub_u64 head epoch
     in if distance \<ge> ucast mutable_epoch_depth then Sealed else Mutable (mutable_epoch_depth - ucast distance))"

datatype NodeAvailabilityStatus = Active | Missing u32 | Unresponsive | Suspended Nonce

record HaPresenceTracker =
  pt_missed :: "u32 list"
  pt_statuses :: "NodeAvailabilityStatus list"

definition presence_default :: HaPresenceTracker where
  "presence_default = \<lparr>pt_missed = replicate MAX_HA_NODES 0, pt_statuses = replicate MAX_HA_NODES Active\<rparr>"

definition saturating_succ_u32 :: "u32 \<Rightarrow> u32" where
  "saturating_succ_u32 n = (if n = - 1 then n else n + 1)"

definition observe_epoch ::
  "HaPresenceTracker \<Rightarrow> HaMemberSlots \<Rightarrow> u8 \<Rightarrow> HighAvailabilityParameters \<Rightarrow> HaPresenceTracker" where
  "observe_epoch p members presence_mask parameters =
    fold (\<lambda>index t.
      if \<not> is_active members (HaMemberSlot (of_nat index)) then t
      else if mask_has presence_mask index
      then t\<lparr>pt_missed := (pt_missed t)[index := 0], pt_statuses := (pt_statuses t)[index := Active]\<rparr>
      else let missed = saturating_succ_u32 (pt_missed t ! index)
           in t\<lparr>pt_missed := (pt_missed t)[index := missed],
                pt_statuses := (pt_statuses t)[index :=
                  if missed \<ge> hp_unresponsive_epoch_depth parameters then Unresponsive else Missing missed]\<rparr>)
    [0..<unat (hm_member_count members)] p"

definition presence_status :: "HaPresenceTracker \<Rightarrow> HaMemberSlot \<Rightarrow> NodeAvailabilityStatus" where
  "presence_status p slot = unwrap_or (slice_get (pt_statuses p) (slot_index slot)) Unresponsive"

definition mark_suspended :: "HaPresenceTracker \<Rightarrow> HaMemberSlot \<Rightarrow> Nonce \<Rightarrow> HaPresenceTracker" where
  "mark_suspended p slot since = p\<lparr>pt_statuses := (pt_statuses p)[slot_index slot := Suspended since]\<rparr>"

definition mark_reactivated :: "HaPresenceTracker \<Rightarrow> HaMemberSlot \<Rightarrow> HaPresenceTracker" where
  "mark_reactivated p slot =
    p\<lparr>pt_missed := (pt_missed p)[slot_index slot := 0], pt_statuses := (pt_statuses p)[slot_index slot := Active]\<rparr>"


section \<open>Membership proposals and revisions\<close>

datatype HaMembershipAction = Suspend | Reactivate Nonce HashType HashType

record HaMembershipProposal =
  mp_group_id :: ConsensusGroupId
  mp_membership_generation :: u64
  mp_active_mask :: u8
  mp_parameters_hash :: HashType
  mp_effective_nonce :: Nonce
  mp_slot :: HaMemberSlot
  mp_action :: HaMembershipAction
  mp_digest :: HashType

definition HA_MEMBERSHIP_PROPOSAL_HASH_DOMAIN :: bytes where
  "HA_MEMBERSHIP_PROPOSAL_HASH_DOMAIN = string_bytes ''blossom/high-availability/membership-proposal/v1''"

definition proposal_compute_digest :: "crypto \<Rightarrow> HaMembershipProposal \<Rightarrow> HashType" where
  "proposal_compute_digest E p = sha256 E
    (HA_MEMBERSHIP_PROPOSAL_HASH_DOMAIN
     @ hash_as_ref (group_hash (mp_group_id p))
     @ u64_to_le_bytes (mp_membership_generation p)
     @ [mp_active_mask p]
     @ hash_as_ref (mp_parameters_hash p)
     @ u64_to_le_bytes (mp_effective_nonce p)
     @ [slot_byte (mp_slot p)]
     @ (case mp_action p of
          Suspend \<Rightarrow> [0]
        | Reactivate caught_up_through checkpoint_hash state_revision \<Rightarrow>
            [1] @ u64_to_le_bytes caught_up_through @ hash_as_ref checkpoint_hash @ hash_as_ref state_revision))"

definition proposal_new ::
  "crypto \<Rightarrow> ConsensusGroupId \<Rightarrow> u64 \<Rightarrow> u8 \<Rightarrow> HashType \<Rightarrow> Nonce \<Rightarrow> HaMemberSlot \<Rightarrow> HaMembershipAction
    \<Rightarrow> HaMembershipProposal" where
  "proposal_new E group_id membership_generation active_mask parameters_hash effective_nonce slot action =
    (let proposal = \<lparr>mp_group_id = group_id, mp_membership_generation = membership_generation,
           mp_active_mask = active_mask, mp_parameters_hash = parameters_hash,
           mp_effective_nonce = effective_nonce, mp_slot = slot, mp_action = action, mp_digest = default_hash\<rparr>
     in proposal\<lparr>mp_digest := proposal_compute_digest E proposal\<rparr>)"

record HaMembershipVote =
  mv_proposal :: HaMembershipProposal
  mv_sender :: HaMemberSlot

record HaMembershipCertificate =
  mc_proposal :: HaMembershipProposal
  mc_approval_mask :: u8

record HaHistoryCheckpoint =
  hk_format_version :: u16
  hk_group_id :: ConsensusGroupId
  hk_fixed_membership_hash :: HashType
  hk_parameters_hash :: HashType
  hk_through_epoch :: HaEpoch
  hk_membership_generation :: u64
  hk_active_mask :: u8
  hk_presence :: HaPresenceTracker
  hk_history_accumulator :: HashType
  hk_approval_mask :: u8
  hk_checkpoint_hash :: HashType

record StateRevision =
  sr_head :: u64
  sr_sealed :: u64
  sr_revision_hash :: HashType

definition HA_REVISION_HASH_DOMAIN :: bytes where
  "HA_REVISION_HASH_DOMAIN = string_bytes ''blossom/high-availability/revision/v1''"

definition HA_HISTORY_ACCUMULATOR_DOMAIN :: bytes where
  "HA_HISTORY_ACCUMULATOR_DOMAIN = string_bytes ''blossom/high-availability/history-accumulator/v1''"

definition accumulate_history :: "crypto \<Rightarrow> HashType \<Rightarrow> HashType list \<Rightarrow> HashType" where
  "accumulate_history E accumulator hashes =
    fold (\<lambda>h acc. sha256 E (HA_HISTORY_ACCUMULATOR_DOMAIN @ hash_as_ref acc @ hash_as_ref h)) hashes accumulator"

definition from_history_accumulator :: "crypto \<Rightarrow> u64 \<Rightarrow> u64 \<Rightarrow> HashType \<Rightarrow> StateRevision" where
  "from_history_accumulator E head sealed history_accumulator =
    \<lparr>sr_head = head, sr_sealed = sealed,
     sr_revision_hash = sha256 E (HA_REVISION_HASH_DOMAIN @ u64_to_le_bytes head @ u64_to_le_bytes sealed
       @ hash_as_ref history_accumulator)\<rparr>"


section \<open>Runtime state\<close>

record HighAvailabilityRuntimeState =
  st_group_id :: ConsensusGroupId
  st_self_slot :: HaMemberSlot
  st_members :: HaMemberSlots
  st_membership_generation :: u64
  st_parameters :: HighAvailabilityParameters
  st_checkpoint :: "HaHistoryCheckpoint option"
  st_epochs :: "HaEpoch list"
  st_round :: HaRoundState
  st_presence :: HaPresenceTracker
  st_membership_vote_lock :: "HashType option"
  st_membership_votes :: "HashType option list"
  st_membership_changes :: "HaMembershipCertificate list"
  st_amendments :: "AmendmentRecord list"

text \<open>The store of a durable runtime holds the last state that \<open>persist\<close> committed.\<close>

record HighAvailabilityRuntime =
  rt_store :: "HighAvailabilityRuntimeState option option"
  rt_state :: HighAvailabilityRuntimeState

datatype HaRuntimeEvent =
    EventDispatch HaDispatchOutcome
  | Acknowledged
  | Confirmed
  | Finalized HaEpoch
  | MembershipVoteAccepted
  | MembershipChanged HaMembershipCertificate
  | HandshakeAccepted

type_synonym disk = "HighAvailabilityRuntimeState \<Rightarrow> bool"

definition persist :: "disk \<Rightarrow> HighAvailabilityRuntime \<Rightarrow> HighAvailabilityRuntime result" where
  "persist disk r =
    (case rt_store r of
       None \<Rightarrow> Ok r
     | Some _ \<Rightarrow> if disk (rt_state r) then Ok (r\<lparr>rt_store := Some (Some (rt_state r))\<rparr>) else Err Io)"

definition st_head :: "HighAvailabilityRuntimeState \<Rightarrow> HaEpoch" where
  "st_head s = last (st_epochs s)"

definition sealed_nonce :: "HighAvailabilityRuntimeState \<Rightarrow> Nonce" where
  "sealed_nonce s = saturating_sub_u64 (ep_nonce (st_head s)) (ucast (hp_mutable_epoch_depth (st_parameters s)))"

text \<open>The round that extends the current head, as \<open>commit_finalized_round\<close>, \<open>retarget_current_round\<close> and
  \<open>create\<close> build it.\<close>

definition round_extending :: "crypto \<Rightarrow> HighAvailabilityRuntimeState \<Rightarrow> HaEpoch \<Rightarrow> HaRoundId" where
  "round_extending E s epoch =
    \<lparr>hr_group_id = st_group_id s,
     hr_fixed_membership_hash = hm_fixed_identity_hash (st_members s),
     hr_membership_generation = st_membership_generation s,
     hr_active_mask = hm_active_mask (st_members s),
     hr_parameters_hash = ha_parameters_hash E (st_parameters s),
     hr_previous_epoch_hash = ep_hash epoch,
     hr_previous_epoch_nonce = ep_nonce epoch,
     hr_nonce = new_next (ep_nonce epoch),
     hr_round = 0\<rparr>"

definition runtime_create ::
  "crypto \<Rightarrow> disk \<Rightarrow> bool \<Rightarrow> ConsensusGroupId \<Rightarrow> PubKey \<Rightarrow> NodeIdentity list \<Rightarrow> HighAvailabilityParameters
    \<Rightarrow> HighAvailabilityRuntime result" where
  "runtime_create E disk durable group_id self_key nodes parameters =
    and_then (ha_parameters_validate parameters) (\<lambda>_.
    and_then (member_slots_new E nodes) (\<lambda>members.
    and_then (ok_or (slot_for members self_key) UnknownSender) (\<lambda>self_slot.
    let genesis = epoch_genesis E group_id members parameters;
        round_id = \<lparr>hr_group_id = group_id, hr_fixed_membership_hash = hm_fixed_identity_hash members,
          hr_membership_generation = 0, hr_active_mask = hm_active_mask members,
          hr_parameters_hash = ha_parameters_hash E parameters, hr_previous_epoch_hash = ep_hash genesis,
          hr_previous_epoch_nonce = ep_nonce genesis, hr_nonce = new_next (ep_nonce genesis), hr_round = 0\<rparr>
    in and_then (round_state_new E round_id members) (\<lambda>round.
      let state = \<lparr>st_group_id = group_id, st_self_slot = self_slot, st_members = members,
            st_membership_generation = 0, st_parameters = parameters, st_checkpoint = None,
            st_epochs = [genesis], st_round = round, st_presence = presence_default,
            st_membership_vote_lock = None, st_membership_votes = replicate MAX_HA_NODES None,
            st_membership_changes = [], st_amendments = []\<rparr>
      in persist disk \<lparr>rt_store = (if durable then Some None else None), rt_state = state\<rparr>))))"


section \<open>Amendments and revision\<close>

definition find_epoch :: "HighAvailabilityRuntimeState \<Rightarrow> Nonce \<Rightarrow> HaEpoch option" where
  "find_epoch s nonce = find (\<lambda>epoch. ep_nonce epoch = nonce) (st_epochs s)"

definition amendments_for_epoch ::
  "crypto \<Rightarrow> ha_codec \<Rightarrow> HighAvailabilityRuntimeState \<Rightarrow> Nonce \<Rightarrow> AmendmentRecord list" where
  "amendments_for_epoch E K s nonce =
    sort_key (\<lambda>a. case amendment_hash E K a of Inl _ \<Rightarrow> default_hash | Inr h \<Rightarrow> h)
      (filter (\<lambda>a. am_target_epoch_nonce a = nonce) (st_amendments s))"

definition logical_epoch_record_hashes ::
  "crypto \<Rightarrow> ha_codec \<Rightarrow> HighAvailabilityRuntimeState \<Rightarrow> Nonce \<Rightarrow> HashType list result" where
  "logical_epoch_record_hashes E K s nonce =
    and_then (ok_or (find_epoch s nonce) InvalidConfiguration) (\<lambda>epoch.
    and_then (collect_results (map (amendment_hash E K) (amendments_for_epoch E K s nonce))) (\<lambda>amended.
      Ok (sort (map (\<lambda>slot. hc_block_hashes (ep_candidate epoch) ! unat slot) (os_as_slice (ep_ordered_slots epoch))
        @ amended))))"

definition revision :: "crypto \<Rightarrow> ha_codec \<Rightarrow> HighAvailabilityRuntimeState \<Rightarrow> StateRevision result" where
  "revision E K s =
    (let accumulator0 = (case st_checkpoint s of None \<Rightarrow> default_hash | Some c \<Rightarrow> hk_history_accumulator c);
         skip = (if st_checkpoint s \<noteq> None then 1 else 0)
     in and_then (try_fold (\<lambda>accumulator epoch.
            and_then (logical_epoch_record_hashes E K s (ep_nonce epoch)) (\<lambda>hashes.
              Ok (accumulate_history E accumulator hashes))) accumulator0 (drop skip (st_epochs s)))
          (\<lambda>accumulator. Ok (from_history_accumulator E (ep_nonce (st_head s)) (sealed_nonce s) accumulator)))"

definition validate_proposed_amendment ::
  "crypto \<Rightarrow> ha_codec \<Rightarrow> HighAvailabilityRuntimeState \<Rightarrow> AmendmentRecord \<Rightarrow> Nonce \<Rightarrow> unit result" where
  "validate_proposed_amendment E K s a containing_nonce =
    (if am_containing_epoch_nonce a \<noteq> containing_nonce \<or> am_containing_epoch_nonce a \<le> am_target_epoch_nonce a
     then Err InvalidConfiguration
     else if ha_member (st_members s) (am_origin_slot a) = None then Err UnknownSender
     else and_then (ok_or (find_epoch s (am_target_epoch_nonce a)) InvalidConfiguration) (\<lambda>target.
     if ep_hash target \<noteq> am_target_epoch_hash a then Err WireProtocol
     else if epoch_lifecycle (am_target_epoch_nonce a) (ep_nonce (st_head s)) (hp_mutable_epoch_depth (st_parameters s)) = Sealed
     then Err (EpochSealed (am_target_epoch_nonce a) (sealed_nonce s) containing_nonce)
     else try_fold (\<lambda>_ existing.
       if am_command_identity existing = am_command_identity a
       then and_then (amendment_hash E K existing) (\<lambda>h. and_then (amendment_hash E K a) (\<lambda>h'.
         if h \<noteq> h' then Err InvalidConfiguration else Ok ()))
       else Ok ()) () (st_amendments s)))"

text \<open>One step of the scans that collect the distinct amendments of transactions.\<close>

definition collect_amendment ::
  "crypto \<Rightarrow> ha_codec \<Rightarrow> HighAvailabilityRuntimeState \<Rightarrow> Nonce \<Rightarrow> AmendmentRecord list \<Rightarrow> Transaction
    \<Rightarrow> AmendmentRecord list result" where
  "collect_amendment E K s containing_nonce proposed tx =
    and_then (decode_amendment_transaction K tx) (\<lambda>decoded.
      case decoded of
        None \<Rightarrow> Ok proposed
      | Some a \<Rightarrow>
          and_then (validate_proposed_amendment E K s a containing_nonce) (\<lambda>_.
          and_then (amendment_hash E K a) (\<lambda>incoming.
            case find (\<lambda>existing. am_command_identity existing = am_command_identity a) proposed of
              None \<Rightarrow> Ok (proposed @ [a])
            | Some existing \<Rightarrow> and_then (amendment_hash E K existing) (\<lambda>h.
                if h \<noteq> incoming then Err InvalidConfiguration else Ok proposed))))"

definition validate_amendment_transactions ::
  "crypto \<Rightarrow> ha_codec \<Rightarrow> HighAvailabilityRuntimeState \<Rightarrow> Transaction list \<Rightarrow> Nonce \<Rightarrow> unit result" where
  "validate_amendment_transactions E K s txs containing_nonce =
    and_then (try_fold (collect_amendment E K s containing_nonce) [] txs) (\<lambda>_. Ok ())"

definition validate_amendment_structure :: "HighAvailabilityRuntimeState \<Rightarrow> AmendmentRecord \<Rightarrow> unit result" where
  "validate_amendment_structure s a =
    (if ha_member (st_members s) (am_origin_slot a) = None then Err UnknownSender
     else and_then (ok_or (find_epoch s (am_target_epoch_nonce a)) InvalidConfiguration) (\<lambda>target.
     if ep_hash target \<noteq> am_target_epoch_hash a then Err WireProtocol
     else if \<not> list_ex (\<lambda>epoch. ep_nonce epoch = am_containing_epoch_nonce a) (st_epochs s)
       \<or> am_containing_epoch_nonce a \<le> am_target_epoch_nonce a then Err InvalidConfiguration
     else Ok ()))"

definition validate_new_amendment :: "HighAvailabilityRuntimeState \<Rightarrow> AmendmentRecord \<Rightarrow> unit result" where
  "validate_new_amendment s a =
    and_then (validate_amendment_structure s a) (\<lambda>_.
      if epoch_lifecycle (am_target_epoch_nonce a) (ep_nonce (st_head s)) (hp_mutable_epoch_depth (st_parameters s)) = Sealed
      then Err (EpochSealed (am_target_epoch_nonce a) (sealed_nonce s) (hr_nonce (rs_round_id (st_round s))))
      else Ok ())"

definition append_amendment ::
  "crypto \<Rightarrow> ha_codec \<Rightarrow> disk \<Rightarrow> HighAvailabilityRuntime \<Rightarrow> AmendmentRecord
    \<Rightarrow> StateRevision result \<times> HighAvailabilityRuntime" where
  "append_amendment E K disk r a =
    (let s = rt_state r in
     case and_then (validate_new_amendment s a) (\<lambda>_.
       and_then (amendment_hash E K a) (\<lambda>incoming_hash.
       and_then (ok_or (find_epoch s (am_containing_epoch_nonce a)) InvalidConfiguration) (\<lambda>containing_epoch.
       and_then (try_fold (\<lambda>committed tx.
           and_then (decode_amendment_transaction K tx) (\<lambda>decoded.
             Ok (committed \<or> (case decoded of None \<Rightarrow> False
               | Some candidate \<Rightarrow> amendment_hash E K candidate = Ok incoming_hash))))
           False (concat (map (\<lambda>(_, block). bb_txs (block_body block)) (epoch_ordered_blocks containing_epoch))))
         (\<lambda>committed.
       if \<not> committed then Err InvalidConfiguration
       else case find (\<lambda>existing. am_command_identity existing = am_command_identity a) (st_amendments s) of
         Some existing \<Rightarrow> and_then (amendment_hash E K existing) (\<lambda>h.
           if h = incoming_hash then Ok True else Err InvalidConfiguration)
       | None \<Rightarrow> Ok False)))) of
       Inl error \<Rightarrow> (Err error, r)
     | Inr True \<Rightarrow> (revision E K s, r)
     | Inr False \<Rightarrow>
         (case persist disk (r\<lparr>rt_state := s\<lparr>st_amendments := st_amendments s @ [a]\<rparr>\<rparr>) of
            Inl error \<Rightarrow> (Err error, r)
          | Inr r' \<Rightarrow> (revision E K (rt_state r'), r')))"


section \<open>Finalization\<close>

definition committed_amendments_of ::
  "crypto \<Rightarrow> ha_codec \<Rightarrow> HighAvailabilityRuntimeState \<Rightarrow> HaFinalizedRound \<Rightarrow> AmendmentRecord list result" where
  "committed_amendments_of E K s f =
    try_fold (\<lambda>committed slot.
      and_then (ok_or (rs_blocks (st_round s) ! unat slot) WireProtocol) (\<lambda>block.
        try_fold (collect_amendment E K s (hr_nonce (fr_round_id f))) committed (bb_txs (block_body block))))
    [] (os_as_slice (fr_ordered_slots f))"

definition add_amendments :: "AmendmentRecord list \<Rightarrow> AmendmentRecord list \<Rightarrow> AmendmentRecord list" where
  "add_amendments new existing =
    fold (\<lambda>a all. if list_ex (\<lambda>x. am_command_identity x = am_command_identity a) all then all else all @ [a])
      new existing"

definition commit_finalized_round ::
  "crypto \<Rightarrow> ha_codec \<Rightarrow> disk \<Rightarrow> HighAvailabilityRuntime \<Rightarrow> HaEpoch option result \<times> HighAvailabilityRuntime" where
  "commit_finalized_round E K disk r =
    (let s = rt_state r in
     case rs_finalized (st_round s) of
       None \<Rightarrow> (Ok None, r)
     | Some finalized \<Rightarrow>
         (case committed_amendments_of E K s finalized of
            Inl error \<Rightarrow> (Err error, r)
          | Inr committed_amendments \<Rightarrow>
              let epoch = epoch_from_finalized E finalized (rs_blocks (st_round s)) (st_parameters s)
              in case round_state_new E (round_extending E s epoch) (st_members s) of
                   Inl error \<Rightarrow> (Err error, r)
                 | Inr next_round \<Rightarrow>
                     let s' = s\<lparr>st_presence := observe_epoch (st_presence s) (st_members s) (ep_presence_mask epoch)
                                  (st_parameters s),
                                st_epochs := st_epochs s @ [epoch],
                                st_amendments := add_amendments committed_amendments (st_amendments s),
                                st_round := next_round\<rparr>
                     in case persist disk (r\<lparr>rt_state := s'\<rparr>) of
                          Inl error \<Rightarrow> (Err error, r)
                        | Inr r' \<Rightarrow> (Ok (Some epoch), r')))"


section \<open>Round operations\<close>

definition empty_block :: "u128 \<Rightarrow> Block" where
  "empty_block created =
    \<lparr>block_hash = default_hash, block_signature = default_signature,
     block_body = \<lparr>bb_validator = default_pubkey, bb_last_epoch = default_hash, bb_nonce = 0, bb_created = created,
       bb_dispatched = 0, bb_merkle_root = default_hash, bb_application_state = [], bb_encounter_records = [],
       bb_node_admissions = [], bb_txs = []\<rparr>\<rparr>"

definition build_dispatch_with_created ::
  "crypto \<Rightarrow> ha_codec \<Rightarrow> HighAvailabilityRuntime \<Rightarrow> Transaction list \<Rightarrow> u128
    \<Rightarrow> HaDispatch result \<times> HighAvailabilityRuntime" where
  "build_dispatch_with_created E K r txs created =
    (let s = rt_state r; round_id = rs_round_id (st_round s) in
     case and_then (validate_amendment_transactions E K s txs (hr_nonce round_id)) (\<lambda>_.
       and_then (ok_or (ha_member (st_members s) (st_self_slot s)) UnknownSender) (\<lambda>member.
         let block0 = empty_block created;
             block1 = block0\<lparr>block_body := (block_body block0)\<lparr>bb_last_epoch := hr_previous_epoch_hash round_id,
               bb_nonce := hr_nonce round_id, bb_txs := txs\<rparr>\<rparr>;
             block = seal_unsigned E block1 (ni_public_key member);
             dispatch = \<lparr>hd_round_id = round_id, hd_sender = st_self_slot s, hd_block_hash = block_hash block,
               hd_block = block\<rparr>
         in and_then (round_receive_dispatch E (st_round s) (st_members s) dispatch) (\<lambda>(_, round).
              Ok (dispatch, round)))) of
       Inl error \<Rightarrow> (Err error, r)
     | Inr (dispatch, round) \<Rightarrow> (Ok dispatch, r\<lparr>rt_state := s\<lparr>st_round := round\<rparr>\<rparr>))"

definition receive_dispatch ::
  "crypto \<Rightarrow> ha_codec \<Rightarrow> HighAvailabilityRuntime \<Rightarrow> HaDispatch \<Rightarrow> HaRuntimeEvent result \<times> HighAvailabilityRuntime" where
  "receive_dispatch E K r dispatch =
    (let s = rt_state r; round_id = rs_round_id (st_round s) in
     if hd_round_id dispatch \<noteq> round_id
     then if hr_nonce (hd_round_id dispatch) < hr_nonce round_id
          then (Ok (EventDispatch (Late (hr_nonce (hd_round_id dispatch)))), r)
          else (Err WireProtocol, r)
     else case and_then (validate_amendment_transactions E K s (bb_txs (block_body (hd_block dispatch))) (hr_nonce round_id))
         (\<lambda>_. round_receive_dispatch E (st_round s) (st_members s) dispatch) of
       Inl error \<Rightarrow> (Err error, r)
     | Inr (outcome, round) \<Rightarrow> (Ok (EventDispatch outcome), r\<lparr>rt_state := s\<lparr>st_round := round\<rparr>\<rparr>))"

definition acknowledge ::
  "disk \<Rightarrow> HighAvailabilityRuntime \<Rightarrow> HaAcknowledge result \<times> HighAvailabilityRuntime" where
  "acknowledge disk r =
    (let s = rt_state r in
     case round_acknowledge (st_round s) (st_members s) (st_self_slot s) of
       Inl error \<Rightarrow> (Err error, r)
     | Inr (acknowledgement, round) \<Rightarrow>
         (case persist disk (r\<lparr>rt_state := s\<lparr>st_round := round\<rparr>\<rparr>) of
            Inl error \<Rightarrow> (Err error, r\<lparr>rt_state := s\<lparr>st_round := round
              \<lparr>rs_acknowledgements := (rs_acknowledgements round)[slot_index (st_self_slot s) :=
                 rs_acknowledgements (st_round s) ! slot_index (st_self_slot s)]\<rparr>\<rparr>\<rparr>)
          | Inr r' \<Rightarrow> (Ok acknowledgement, r')))"

definition receive_acknowledgement ::
  "HighAvailabilityRuntime \<Rightarrow> HaAcknowledge \<Rightarrow> HaRuntimeEvent result \<times> HighAvailabilityRuntime" where
  "receive_acknowledgement r a =
    (let s = rt_state r in
     if hr_nonce (ha_round_id a) < hr_nonce (rs_round_id (st_round s))
     then if list_ex (\<lambda>epoch. ep_nonce epoch = hr_nonce (ha_round_id a)) (st_epochs s)
          then (Ok Acknowledged, r) else (Err WireProtocol, r)
     else case round_receive_acknowledgement (st_round s) (st_members s) a of
       Inl error \<Rightarrow> (Err error, r)
     | Inr round \<Rightarrow> (Ok Acknowledged, r\<lparr>rt_state := s\<lparr>st_round := round\<rparr>\<rparr>))"

definition confirm ::
  "crypto \<Rightarrow> ha_codec \<Rightarrow> disk \<Rightarrow> HighAvailabilityRuntime
    \<Rightarrow> (HaConfirm \<times> HaEpoch option) result \<times> HighAvailabilityRuntime" where
  "confirm E K disk r =
    (let s = rt_state r in
     case round_confirm E (st_round s) (st_members s) (st_self_slot s) of
       Inl error \<Rightarrow> (Err error, r)
     | Inr (confirmation, round) \<Rightarrow>
         (case persist disk (r\<lparr>rt_state := s\<lparr>st_round := round\<rparr>\<rparr>) of
            Inl error \<Rightarrow> (Err error, r\<lparr>rt_state := s\<lparr>st_round := round
              \<lparr>rs_confirmations := rs_confirmations (st_round s),
               rs_confirmed_candidate := rs_confirmed_candidate (st_round s),
               rs_finalized := rs_finalized (st_round s)\<rparr>\<rparr>\<rparr>)
          | Inr r' \<Rightarrow>
              (case commit_finalized_round E K disk r' of
                 (Inl error, r'') \<Rightarrow> (Err error, r'')
               | (Inr epoch, r'') \<Rightarrow> (Ok (confirmation, epoch), r''))))"

definition receive_confirmation ::
  "crypto \<Rightarrow> ha_codec \<Rightarrow> disk \<Rightarrow> HighAvailabilityRuntime \<Rightarrow> HaConfirm
    \<Rightarrow> HaRuntimeEvent result \<times> HighAvailabilityRuntime" where
  "receive_confirmation E K disk r c =
    (let s = rt_state r in
     if hr_nonce (hf_round_id c) < hr_nonce (rs_round_id (st_round s))
     then case find_epoch s (hr_nonce (hf_round_id c)) of
            None \<Rightarrow> (Err WireProtocol, r)
          | Some epoch \<Rightarrow>
              if hc_digest (ep_candidate epoch) \<noteq> hc_digest (hf_candidate c) then (Err WireProtocol, r)
              else (Ok Confirmed, r)
     else case round_receive_confirmation E (st_round s) (st_members s) c of
       Inl error \<Rightarrow> (Err error, r)
     | Inr (_, round) \<Rightarrow>
         (case commit_finalized_round E K disk (r\<lparr>rt_state := s\<lparr>st_round := round\<rparr>\<rparr>) of
            (Inl error, r') \<Rightarrow> (Err error, r')
          | (Inr (Some epoch), r') \<Rightarrow> (Ok (Finalized epoch), r')
          | (Inr None, r') \<Rightarrow> (Ok Confirmed, r')))"


section \<open>Membership changes\<close>

definition require_epoch_boundary :: "HighAvailabilityRuntimeState \<Rightarrow> unit result" where
  "require_epoch_boundary s =
    (let round = st_round s in
     if rs_received_mask round \<noteq> 0
       \<or> list_ex (\<lambda>w. w \<noteq> 0) (rs_acknowledgements round)
       \<or> list_ex (\<lambda>c. c \<noteq> None) (rs_confirmations round)
       \<or> rs_confirmed_candidate round \<noteq> None
       \<or> rs_finalized round \<noteq> None
     then Err InvalidConfiguration else Ok ())"

definition validate_membership_proposal ::
  "crypto \<Rightarrow> ha_codec \<Rightarrow> HighAvailabilityRuntimeState \<Rightarrow> HaMembershipProposal \<Rightarrow> unit result" where
  "validate_membership_proposal E K s p =
    (if mp_digest p \<noteq> proposal_compute_digest E p
       \<or> mp_group_id p \<noteq> st_group_id s
       \<or> mp_membership_generation p \<noteq> st_membership_generation s
       \<or> mp_active_mask p \<noteq> hm_active_mask (st_members s)
       \<or> mp_parameters_hash p \<noteq> ha_parameters_hash E (st_parameters s)
       \<or> mp_effective_nonce p \<noteq> hr_nonce (rs_round_id (st_round s))
     then Err InvalidConfiguration
     else case mp_action p of
       Suspend \<Rightarrow>
         if presence_status (st_presence s) (mp_slot p) \<noteq> Unresponsive then Err InvalidConfiguration
         else and_then (with_suspended E (st_members s) (mp_slot p)) (\<lambda>_. Ok ())
     | Reactivate caught_up_through checkpoint_hash state_revision \<Rightarrow>
         if is_active (st_members s) (mp_slot p) then Err InvalidConfiguration
         else if caught_up_through \<noteq> ep_nonce (st_head s) \<or> checkpoint_hash \<noteq> ep_hash (st_head s)
         then Err InvalidConfiguration
         else and_then (revision E K s) (\<lambda>current.
           if state_revision \<noteq> sr_revision_hash current then Err InvalidConfiguration
           else and_then (with_reactivated E (st_members s) (mp_slot p)) (\<lambda>_. Ok ())))"

definition retarget_current_round ::
  "crypto \<Rightarrow> HighAvailabilityRuntimeState \<Rightarrow> HighAvailabilityRuntimeState result" where
  "retarget_current_round E s =
    and_then (round_state_new E (round_extending E s (st_head s)) (st_members s)) (\<lambda>round. Ok (s\<lparr>st_round := round\<rparr>))"

definition checked_succ_u64 :: "u64 \<Rightarrow> u64 option" where
  "checked_succ_u64 n = (if n = - 1 then None else Some (n + 1))"

definition membership_transition ::
  "crypto \<Rightarrow> HighAvailabilityRuntimeState \<Rightarrow> HaMembershipCertificate \<Rightarrow> HighAvailabilityRuntimeState result" where
  "membership_transition E s certificate =
    (let p = mc_proposal certificate in
     and_then (case mp_action p of
         Suspend \<Rightarrow> and_then (with_suspended E (st_members s) (mp_slot p)) (\<lambda>members.
           Ok (s\<lparr>st_presence := mark_suspended (st_presence s) (mp_slot p) (mp_effective_nonce p), st_members := members\<rparr>))
       | Reactivate _ _ _ \<Rightarrow> and_then (with_reactivated E (st_members s) (mp_slot p)) (\<lambda>members.
           Ok (s\<lparr>st_presence := mark_reactivated (st_presence s) (mp_slot p), st_members := members\<rparr>))) (\<lambda>s1.
     and_then (ok_or (checked_succ_u64 (st_membership_generation s1)) InvalidConfiguration) (\<lambda>generation.
     retarget_current_round E (s1\<lparr>st_membership_generation := generation,
       st_membership_changes := st_membership_changes s1 @ [certificate],
       st_membership_vote_lock := None,
       st_membership_votes := replicate MAX_HA_NODES None\<rparr>))))"

definition apply_membership_certificate ::
  "crypto \<Rightarrow> ha_codec \<Rightarrow> disk \<Rightarrow> HighAvailabilityRuntime \<Rightarrow> HaMembershipCertificate \<Rightarrow> HighAvailabilityRuntime result" where
  "apply_membership_certificate E K disk r certificate =
    and_then (validate_membership_proposal E K (rt_state r) (mc_proposal certificate)) (\<lambda>_.
    and_then (membership_transition E (rt_state r) certificate) (\<lambda>s'. persist disk (r\<lparr>rt_state := s'\<rparr>)))"

definition approval_mask_for :: "HighAvailabilityRuntimeState \<Rightarrow> HaMembershipProposal \<Rightarrow> u8" where
  "approval_mask_for s p =
    fold (\<lambda>index w.
      if mask_has (mp_active_mask p) index \<and> st_membership_votes s ! index = Some (mp_digest p)
      then w OR push_bit index 1 else w) [0..<MAX_HA_NODES] 0"

definition try_commit_membership_proposal ::
  "crypto \<Rightarrow> ha_codec \<Rightarrow> disk \<Rightarrow> HighAvailabilityRuntime \<Rightarrow> HaMembershipProposal
    \<Rightarrow> (HaMembershipCertificate option \<times> HighAvailabilityRuntime) result" where
  "try_commit_membership_proposal E K disk r p =
    (let approval_mask = approval_mask_for (rt_state r) p in
     if count_ones approval_mask < ha_majority (st_members (rt_state r)) then Ok (None, r)
     else let certificate = \<lparr>mc_proposal = p, mc_approval_mask = approval_mask\<rparr>
          in and_then (apply_membership_certificate E K disk r certificate) (\<lambda>r'. Ok (Some certificate, r')))"

definition cast_membership_vote ::
  "crypto \<Rightarrow> ha_codec \<Rightarrow> disk \<Rightarrow> HighAvailabilityRuntime \<Rightarrow> HaMembershipProposal
    \<Rightarrow> (HaMembershipVote \<times> HaMembershipCertificate option) result \<times> HighAvailabilityRuntime" where
  "cast_membership_vote E K disk r p =
    (let s = rt_state r in
     case validate_membership_proposal E K s p of
       Inl error \<Rightarrow> (Err error, r)
     | Inr _ \<Rightarrow>
         if (case st_membership_vote_lock s of None \<Rightarrow> False | Some locked \<Rightarrow> locked \<noteq> mp_digest p)
         then (Err WireProtocol, r)
         else let s' = s\<lparr>st_membership_vote_lock := Some (mp_digest p),
                         st_membership_votes := (st_membership_votes s)[slot_index (st_self_slot s) := Some (mp_digest p)]\<rparr>;
                  vote = \<lparr>mv_proposal = p, mv_sender = st_self_slot s\<rparr>
              in case try_commit_membership_proposal E K disk (r\<lparr>rt_state := s'\<rparr>) p of
                   Inl error \<Rightarrow> (Err error, r)
                 | Inr (Some certificate, r') \<Rightarrow> (Ok (vote, Some certificate), r')
                 | Inr (None, r') \<Rightarrow>
                     (case persist disk r' of
                        Inl error \<Rightarrow> (Err error, r)
                      | Inr r'' \<Rightarrow> (Ok (vote, None), r'')))"

definition vote_to_suspend ::
  "crypto \<Rightarrow> ha_codec \<Rightarrow> disk \<Rightarrow> HighAvailabilityRuntime \<Rightarrow> HaMemberSlot
    \<Rightarrow> (HaMembershipVote \<times> HaMembershipCertificate option) result \<times> HighAvailabilityRuntime" where
  "vote_to_suspend E K disk r slot =
    (let s = rt_state r in
     case require_epoch_boundary s of
       Inl error \<Rightarrow> (Err error, r)
     | Inr _ \<Rightarrow> cast_membership_vote E K disk r
         (proposal_new E (st_group_id s) (st_membership_generation s) (hm_active_mask (st_members s))
           (ha_parameters_hash E (st_parameters s)) (hr_nonce (rs_round_id (st_round s))) slot Suspend))"

definition vote_to_reactivate ::
  "crypto \<Rightarrow> ha_codec \<Rightarrow> disk \<Rightarrow> HighAvailabilityRuntime \<Rightarrow> HaMemberSlot \<Rightarrow> Nonce
    \<Rightarrow> (HaMembershipVote \<times> HaMembershipCertificate option) result \<times> HighAvailabilityRuntime" where
  "vote_to_reactivate E K disk r slot caught_up_through =
    (let s = rt_state r in
     case and_then (require_epoch_boundary s) (\<lambda>_.
       if caught_up_through \<noteq> ep_nonce (st_head s) then Err InvalidConfiguration else revision E K s) of
       Inl error \<Rightarrow> (Err error, r)
     | Inr current \<Rightarrow> cast_membership_vote E K disk r
         (proposal_new E (st_group_id s) (st_membership_generation s) (hm_active_mask (st_members s))
           (ha_parameters_hash E (st_parameters s)) (hr_nonce (rs_round_id (st_round s))) slot
           (Reactivate caught_up_through (ep_hash (st_head s)) (sr_revision_hash current))))"

definition receive_membership_vote ::
  "crypto \<Rightarrow> ha_codec \<Rightarrow> disk \<Rightarrow> HighAvailabilityRuntime \<Rightarrow> HaMembershipVote
    \<Rightarrow> HaRuntimeEvent result \<times> HighAvailabilityRuntime" where
  "receive_membership_vote E K disk r v =
    (let s = rt_state r; p = mv_proposal v in
     if mp_membership_generation p < st_membership_generation s
     then case find (\<lambda>c. mp_digest (mc_proposal c) = mp_digest p) (st_membership_changes s) of
            None \<Rightarrow> (Err WireProtocol, r)
          | Some certificate \<Rightarrow> (Ok (MembershipChanged certificate), r)
     else case and_then (require_epoch_boundary s) (\<lambda>_.
         and_then (validate_membership_proposal E K s p) (\<lambda>_. slot_bit (mv_sender v))) of
       Inl error \<Rightarrow> (Err error, r)
     | Inr b \<Rightarrow>
         if mp_active_mask p AND b = 0 then (Err UnknownSender, r)
         else case st_membership_votes s ! slot_index (mv_sender v) of
           Some existing \<Rightarrow> if existing = mp_digest p then (Ok MembershipVoteAccepted, r) else (Err WireProtocol, r)
         | None \<Rightarrow>
             (case try_commit_membership_proposal E K disk (r\<lparr>rt_state := s\<lparr>st_membership_votes :=
                 (st_membership_votes s)[slot_index (mv_sender v) := Some (mp_digest p)]\<rparr>\<rparr>) p of
                Inl error \<Rightarrow> (Err error, r)
              | Inr (Some certificate, r') \<Rightarrow> (Ok (MembershipChanged certificate), r')
              | Inr (None, r') \<Rightarrow> (Ok MembershipVoteAccepted, r')))"

end
