(* ===== verification/HaHistory.thy ===== *)
theory HaHistory
  imports HaRuntime "HOL-Library.Sublist"
begin

text \<open>
  Histories of a high-availability group: sequences of finalized epochs and committed membership changes, each
  justified by a strict majority of confirmations or votes. The three voting rules that the
  runtime keeps make any two justified histories agree on their epochs.
\<close>

section \<open>Events and rounds\<close>

datatype ha_event = EpochEvent HaCandidate | ChangeEvent HaMembershipProposal

definition round_epoch_hash :: "crypto \<Rightarrow> HaRoundId \<Rightarrow> HaCandidate \<Rightarrow> HashType" where
  "round_epoch_hash E r c = sha256 E
    (HA_EPOCH_HASH_DOMAIN @ hash_as_ref (group_hash (hr_group_id r)) @ hash_as_ref (hr_fixed_membership_hash r)
     @ u64_to_le_bytes (hr_membership_generation r) @ [hr_active_mask r] @ hash_as_ref (hr_previous_epoch_hash r)
     @ [1] @ u64_to_le_bytes (hr_previous_epoch_nonce r) @ u64_to_le_bytes (hr_nonce r)
     @ hash_as_ref (hc_digest c) @ [hc_presence_mask c] @ hash_as_ref (hr_parameters_hash r))"

definition changed_mask :: "u8 \<Rightarrow> HaMembershipProposal \<Rightarrow> u8" where
  "changed_mask w p = (case mp_action p of
      Suspend \<Rightarrow> w AND NOT (push_bit (slot_index (mp_slot p)) 1)
    | Reactivate _ _ _ \<Rightarrow> w OR push_bit (slot_index (mp_slot p)) 1)"

fun next_round :: "crypto \<Rightarrow> HaRoundId \<Rightarrow> ha_event \<Rightarrow> HaRoundId" where
  "next_round E r (EpochEvent c) = r\<lparr>hr_previous_epoch_hash := round_epoch_hash E r c,
     hr_previous_epoch_nonce := hr_nonce r, hr_nonce := new_next (hr_nonce r)\<rparr>"
| "next_round E r (ChangeEvent p) = r\<lparr>hr_membership_generation := hr_membership_generation r + 1,
     hr_active_mask := changed_mask (hr_active_mask r) p\<rparr>"

definition round_after :: "crypto \<Rightarrow> HaRoundId \<Rightarrow> ha_event list \<Rightarrow> HaRoundId" where
  "round_after E r h = fold (\<lambda>e r. next_round E r e) h r"

text \<open>What a history finalizes, in order: the nonce, the hash and the candidate of each epoch.\<close>

fun epochs_of :: "crypto \<Rightarrow> HaRoundId \<Rightarrow> ha_event list \<Rightarrow> (Nonce \<times> HashType \<times> HaCandidate) list" where
  "epochs_of E r [] = []"
| "epochs_of E r (EpochEvent c # h) =
    (hr_nonce r, round_epoch_hash E r c, c) # epochs_of E (next_round E r (EpochEvent c)) h"
| "epochs_of E r (ChangeEvent p # h) = epochs_of E (next_round E r (ChangeEvent p)) h"


section \<open>Voting rules\<close>

text \<open>What members have confirmed and voted, with the rules each member keeps: one candidate per nonce, one
  membership proposal per generation, and no vote in a later generation at a nonce it has
  already confirmed.\<close>

definition single_confirmation :: "HaConfirm set \<Rightarrow> bool" where
  "single_confirmation C \<longleftrightarrow> (\<forall>c \<in> C. \<forall>c' \<in> C.
    hf_sender c = hf_sender c' \<longrightarrow> hr_nonce (hf_round_id c) = hr_nonce (hf_round_id c') \<longrightarrow>
    hf_round_id c = hf_round_id c' \<and> hc_digest (hf_candidate c) = hc_digest (hf_candidate c'))"

definition single_vote :: "HaMembershipVote set \<Rightarrow> bool" where
  "single_vote V \<longleftrightarrow> (\<forall>m \<in> V. \<forall>m' \<in> V.
    mv_sender m = mv_sender m' \<longrightarrow>
    mp_membership_generation (mv_proposal m) = mp_membership_generation (mv_proposal m') \<longrightarrow>
    mp_digest (mv_proposal m) = mp_digest (mv_proposal m'))"

definition confirmed_before_votes :: "HaConfirm set \<Rightarrow> HaMembershipVote set \<Rightarrow> bool" where
  "confirmed_before_votes C V \<longleftrightarrow> (\<forall>c \<in> C. \<forall>m \<in> V.
    hf_sender c = mv_sender m \<longrightarrow> hr_nonce (hf_round_id c) = mp_effective_nonce (mv_proposal m) \<longrightarrow>
    mp_membership_generation (mv_proposal m) \<le> hr_membership_generation (hf_round_id c))"

definition collision_free :: "HaConfirm set \<Rightarrow> HaMembershipVote set \<Rightarrow> bool" where
  "collision_free C V \<longleftrightarrow>
    (\<forall>c \<in> C. \<forall>c' \<in> C. hc_digest (hf_candidate c) = hc_digest (hf_candidate c') \<longrightarrow> hf_candidate c = hf_candidate c')
    \<and> (\<forall>m \<in> V. \<forall>m' \<in> V. mp_digest (mv_proposal m) = mp_digest (mv_proposal m') \<longrightarrow> mv_proposal m = mv_proposal m')"

definition epoch_support :: "HaConfirm set \<Rightarrow> HaRoundId \<Rightarrow> HaCandidate \<Rightarrow> nat set \<Rightarrow> bool" where
  "epoch_support C r cand S \<longleftrightarrow> majority_of (mask_set (hr_active_mask r)) S
    \<and> (\<exists>c \<in> C. hf_round_id c = r \<and> hf_candidate c = cand)
    \<and> (\<forall>i \<in> S. \<exists>c \<in> C. slot_index (hf_sender c) = i \<and> hf_round_id c = r
        \<and> hc_digest (hf_candidate c) = hc_digest cand)"

definition change_support :: "HaMembershipVote set \<Rightarrow> HaRoundId \<Rightarrow> HaMembershipProposal \<Rightarrow> nat set \<Rightarrow> bool" where
  "change_support V r p S \<longleftrightarrow> majority_of (mask_set (hr_active_mask r)) S
    \<and> mp_membership_generation p = hr_membership_generation r \<and> mp_effective_nonce p = hr_nonce r
    \<and> hr_membership_generation r \<noteq> - 1 \<and> slot_index (mp_slot p) < 8
    \<and> (\<forall>i \<in> S. \<exists>m \<in> V. slot_index (mv_sender m) = i \<and> mv_proposal m = p)"

inductive justified :: "crypto \<Rightarrow> HaConfirm set \<Rightarrow> HaMembershipVote set \<Rightarrow> HaRoundId \<Rightarrow> ha_event list \<Rightarrow> bool"
  for E C V r0 where
  start: "justified E C V r0 []"
| epoch: "justified E C V r0 h \<Longrightarrow> epoch_support C (round_after E r0 h) c S \<Longrightarrow> justified E C V r0 (h @ [EpochEvent c])"
| change: "justified E C V r0 h \<Longrightarrow> change_support V (round_after E r0 h) p S \<Longrightarrow> justified E C V r0 (h @ [ChangeEvent p])"

inductive_cases justified_snocE: "justified E C V r0 (h @ [e])"

lemma round_after_snoc [simp]: "round_after E r (h @ [e]) = next_round E (round_after E r h) e"
  by (simp add: round_after_def)

lemma round_after_Nil [simp]: "round_after E r [] = r"
  by (simp add: round_after_def)

lemma round_after_Cons [simp]: "round_after E r (e # h) = round_after E (next_round E r e) h"
  by (simp add: round_after_def)

lemma slot_index_inject: "slot_index a = slot_index b \<longleftrightarrow> a = b"
  by (cases a; cases b) (auto simp: slot_index_def intro: unsigned_word_eqI)

lemma epochs_of_append:
  "epochs_of E r (h @ k) = epochs_of E r h @ epochs_of E (round_after E r h) k"
  by (induction E r h rule: epochs_of.induct) simp_all

lemma justified_prefix: "justified E C V r (h @ k) \<Longrightarrow> justified E C V r h"
proof (induction k rule: rev_induct)
  case (snoc e k)
  have "justified E C V r (h @ k)"
    using snoc.prems by (cases rule: justified.cases) auto
  then show ?case by (rule snoc.IH)
qed simp

lemma justified_mono:
  assumes "justified E C V r h" "C \<subseteq> C'" "V \<subseteq> V'"
  shows "justified E C' V' r h"
  using assms(1)
proof induction
  case (epoch h c S)
  have "epoch_support C' (round_after E r h) c S"
    using epoch.hyps(2) assms(2) unfolding epoch_support_def by blast
  then show ?case using epoch.IH by (rule justified.epoch [rotated])
next
  case (change h p S)
  have "change_support V' (round_after E r h) p S"
    using change.hyps(2) assms(3) unfolding change_support_def by blast
  then show ?case using change.IH by (rule justified.change [rotated])
qed (rule justified.start)

lemma justified_last:
  assumes "justified E C V r (h @ [e])"
  shows "case e of EpochEvent c \<Rightarrow> \<exists>S. epoch_support C (round_after E r h) c S
    | ChangeEvent p \<Rightarrow> \<exists>S. change_support V (round_after E r h) p S"
  using assms by (cases rule: justified.cases) auto


section \<open>Agreement\<close>

lemma changed_majorities_meet:
  assumes "majority_of (mask_set w) S" "majority_of (mask_set (changed_mask w p)) S'" "slot_index (mp_slot p) < 8"
  shows "\<exists>v. v \<in> S \<and> v \<in> S'"
  using assms
  by (cases "mp_action p")
    (auto simp: changed_mask_def mask_set_bit intro: majorities_meet_adjacent majorities_meet_grown)

lemma epoch_epoch:
  assumes "single_confirmation C" "collision_free C V" "epoch_support C r c S" "epoch_support C r c' S'"
  shows "c = c'"
proof -
  obtain v where "v \<in> S" "v \<in> S'"
    using majorities_meet assms(3,4) unfolding epoch_support_def by blast
  then obtain a b where "a \<in> C" "b \<in> C" "slot_index (hf_sender a) = slot_index (hf_sender b)"
    "hf_round_id a = r" "hf_round_id b = r" "hc_digest (hf_candidate a) = hc_digest c"
    "hc_digest (hf_candidate b) = hc_digest c'"
    using assms(3,4) unfolding epoch_support_def by metis
  then have "hc_digest c = hc_digest c'"
    using assms(1) unfolding single_confirmation_def slot_index_inject by metis
  then show ?thesis using assms(2-4) unfolding collision_free_def epoch_support_def by metis
qed

lemma change_change:
  assumes "single_vote V" "collision_free C V" "change_support V r p S" "change_support V r p' S'"
  shows "p = p'"
proof -
  obtain v where "v \<in> S" "v \<in> S'"
    using majorities_meet assms(3,4) unfolding change_support_def by blast
  then obtain a b where ab: "a \<in> V" "b \<in> V" "slot_index (mv_sender a) = slot_index (mv_sender b)"
    "mv_proposal a = p" "mv_proposal b = p'"
    using assms(3,4) unfolding change_support_def by metis
  moreover have "mp_membership_generation p = mp_membership_generation p'"
    using assms(3,4) unfolding change_support_def by simp
  ultimately have "mp_digest p = mp_digest p'"
    using assms(1) unfolding single_vote_def slot_index_inject by metis
  then show ?thesis using assms(2) ab unfolding collision_free_def by metis
qed

lemma unat_succ:
  fixes g :: u64
  assumes "g + 1 \<noteq> 0"
  shows "unat (g + 1) = unat g + 1"
  using unatSuc [of g] assms by (simp add: add.commute)

lemma generation_succ:
  fixes g :: u64
  assumes "g \<noteq> - 1"
  shows "\<not> g + 1 \<le> g"
  using assms unat_succ [of g] by (simp add: word_le_nat_alt eq_neg_iff_add_eq_0)

text \<open>Once a majority has confirmed an epoch of a round, no history continues beyond a single
  membership change of the same round.\<close>

lemma change_is_last:
  assumes rules: "single_confirmation C" "confirmed_before_votes C V"
    and epoch: "epoch_support C r c S" and change: "change_support V r p S'"
    and nxt: "case e of EpochEvent c' \<Rightarrow> \<exists>S. epoch_support C (next_round E r (ChangeEvent p)) c' S
      | ChangeEvent p' \<Rightarrow> \<exists>S. change_support V (next_round E r (ChangeEvent p)) p' S"
  shows False
proof -
  let ?r = "next_round E r (ChangeEvent p)"
  have slot: "slot_index (mp_slot p) < 8" and gen: "hr_membership_generation r \<noteq> - 1"
    using change unfolding change_support_def by blast+
  have S: "majority_of (mask_set (hr_active_mask r)) S" using epoch unfolding epoch_support_def by blast
  have confirmed: "\<exists>a \<in> C. slot_index (hf_sender a) = v \<and> hf_round_id a = r" if "v \<in> S" for v
    using epoch that unfolding epoch_support_def by blast
  show False
  proof (cases e)
    case (EpochEvent c')
    then obtain T where T: "epoch_support C ?r c' T" using nxt by auto
    have "majority_of (mask_set (changed_mask (hr_active_mask r) p)) T"
      using T by (simp add: epoch_support_def)
    then obtain v where "v \<in> S" "v \<in> T" using changed_majorities_meet [OF S _ slot] by blast
    then obtain a b where ab: "a \<in> C" "b \<in> C" "slot_index (hf_sender a) = slot_index (hf_sender b)"
      "hf_round_id a = r" "hf_round_id b = ?r"
      using confirmed T unfolding epoch_support_def by metis
    then have "r = ?r"
      using rules(1) unfolding single_confirmation_def slot_index_inject by force
    then have "hr_membership_generation r = hr_membership_generation ?r" by simp
    then show False by simp
  next
    case (ChangeEvent p')
    then obtain T where T: "change_support V ?r p' T" using nxt by auto
    have "majority_of (mask_set (changed_mask (hr_active_mask r) p)) T"
      using T by (simp add: change_support_def)
    then obtain v where "v \<in> S" "v \<in> T" using changed_majorities_meet [OF S _ slot] by blast
    then obtain a m where "a \<in> C" "m \<in> V" "slot_index (hf_sender a) = slot_index (mv_sender m)"
      "hf_round_id a = r" "mv_proposal m = p'"
      using confirmed T unfolding change_support_def by metis
    moreover have "mp_effective_nonce p' = hr_nonce r" "mp_membership_generation p' = hr_membership_generation r + 1"
      using T unfolding change_support_def by simp_all
    ultimately have "hr_membership_generation r + 1 \<le> hr_membership_generation r"
      using rules(2) unfolding confirmed_before_votes_def slot_index_inject by metis
    then show False using generation_succ [OF gen] by simp
  qed
qed

lemma change_then_nothing:
  assumes "single_confirmation C" "confirmed_before_votes C V"
    and "justified E C V r (p @ [EpochEvent c])" "justified E C V r (p @ ChangeEvent q # k)"
  shows "k = []"
proof (cases k)
  case (Cons e k')
  have "justified E C V r (p @ [ChangeEvent q, e])"
    using justified_prefix [of E C V r "p @ [ChangeEvent q, e]" k'] assms(4) Cons by simp
  then have 1: "justified E C V r ((p @ [ChangeEvent q]) @ [e])" by simp
  have 2: "justified E C V r (p @ [ChangeEvent q])" using justified_prefix [OF 1] .
  obtain S where S: "epoch_support C (round_after E r p) c S" using justified_last [OF assms(3)] by auto
  obtain S' where S': "change_support V (round_after E r p) q S'" using justified_last [OF 2] by auto
  have "case e of EpochEvent c' \<Rightarrow> \<exists>S. epoch_support C (next_round E (round_after E r p) (ChangeEvent q)) c' S
      | ChangeEvent p' \<Rightarrow> \<exists>S. change_support V (next_round E (round_after E r p) (ChangeEvent q)) p' S"
    using justified_last [OF 1] by (simp only: round_after_snoc)
  from change_is_last [OF assms(1,2) S S' this] show ?thesis ..
qed

lemma histories_agree:
  assumes rules: "single_confirmation C" "single_vote V" "confirmed_before_votes C V" "collision_free C V"
    and h: "justified E C V r h" "justified E C V r k"
  shows "prefix (epochs_of E r h) (epochs_of E r k) \<or> prefix (epochs_of E r k) (epochs_of E r h)"
proof (cases "h \<parallel> k")
  case False
  then show ?thesis by (auto simp: parallel_def prefix_def epochs_of_append)
next
  case True
  then obtain p a h' b k' where d: "a \<noteq> b" "h = p @ a # h'" "k = p @ b # k'"
    using parallel_decomp by blast
  have ja: "justified E C V r (p @ [a])" and jb: "justified E C V r (p @ [b])"
    using h d justified_prefix [of E C V r "p @ [a]" h'] justified_prefix [of E C V r "p @ [b]" k'] by simp_all
  show ?thesis
  proof (cases a; cases b)
    fix c c' assume "a = EpochEvent c" "b = EpochEvent c'"
    then show ?thesis using justified_last [OF ja] justified_last [OF jb] epoch_epoch [OF rules(1,4)] d(1) by auto
  next
    fix q q' assume "a = ChangeEvent q" "b = ChangeEvent q'"
    then show ?thesis using justified_last [OF ja] justified_last [OF jb] change_change [OF rules(2,4)] d(1) by auto
  next
    fix c q assume ab: "a = EpochEvent c" "b = ChangeEvent q"
    then have "k' = []" using change_then_nothing [OF rules(1,3)] ja h(2) d(3) by blast
    then show ?thesis using d ab by (simp add: epochs_of_append)
  next
    fix q c assume ab: "a = ChangeEvent q" "b = EpochEvent c"
    then have "h' = []" using change_then_nothing [OF rules(1,3)] jb h(1) d(2) by blast
    then show ?thesis using d ab by (simp add: epochs_of_append)
  qed
qed

end
