(* ===== verification/HaSystem.thy ===== *)
theory HaSystem
  imports HaHistory
begin

text \<open>
  A group of durable high-availability runtimes that exchange messages over an authenticated network which
  may delay, drop, reorder and repeat them, with members that crash and restart from their
  store. The invariant of this system makes the finalized chains of all members agree.
\<close>

section \<open>The system\<close>

record ha_system =
  sys_nodes :: "nat \<Rightarrow> HighAvailabilityRuntime"
  sys_confirms :: "HaConfirm set"
  sys_votes :: "HaMembershipVote set"

text \<open>A confirmation may be on the network as soon as its lock is durable, a vote when the call returns
  it.\<close>

definition emitted_confirms :: "crypto \<Rightarrow> disk \<Rightarrow> HighAvailabilityRuntime \<Rightarrow> HaConfirm set" where
  "emitted_confirms E disk r =
    (let s = rt_state r in
     case round_confirm E (st_round s) (st_members s) (st_self_slot s) of
       Inl _ \<Rightarrow> {}
     | Inr (c, round) \<Rightarrow> if is_ok (persist disk (r\<lparr>rt_state := s\<lparr>st_round := round\<rparr>\<rparr>)) then {c} else {})"

definition emitted_votes ::
  "(HaMembershipVote \<times> HaMembershipCertificate option) result \<Rightarrow> HaMembershipVote set" where
  "emitted_votes result = (case result of Inl _ \<Rightarrow> {} | Inr (vote, _) \<Rightarrow> {vote})"

text \<open>One call at one member, with the confirmations and votes it emits. Dispatches and
  acknowledgements are unconstrained; confirmations and votes are received only when they were
  emitted. A restart reads back the store.\<close>

inductive node_step ::
  "crypto \<Rightarrow> ha_codec \<Rightarrow> HaConfirm set \<Rightarrow> HaMembershipVote set \<Rightarrow> HighAvailabilityRuntime
    \<Rightarrow> HaConfirm set \<Rightarrow> HaMembershipVote set \<Rightarrow> HighAvailabilityRuntime \<Rightarrow> bool"
  for E K C V r where
  dispatch: "node_step E K C V r {} {} (snd (build_dispatch_with_created E K r txs created))"
| dispatched: "node_step E K C V r {} {} (snd (receive_dispatch E K r d))"
| acknowledge: "node_step E K C V r {} {} (snd (acknowledge disk r))"
| acknowledged: "node_step E K C V r {} {} (snd (receive_acknowledgement r a))"
| confirm: "node_step E K C V r (emitted_confirms E disk r) {} (snd (confirm E K disk r))"
| confirmed: "c \<in> C \<Longrightarrow> node_step E K C V r {} {} (snd (receive_confirmation E K disk r c))"
| suspend: "node_step E K C V r {} (emitted_votes (fst (vote_to_suspend E K disk r slot)))
    (snd (vote_to_suspend E K disk r slot))"
| reactivate: "node_step E K C V r {} (emitted_votes (fst (vote_to_reactivate E K disk r slot nonce)))
    (snd (vote_to_reactivate E K disk r slot nonce))"
| voted: "m \<in> V \<Longrightarrow> node_step E K C V r {} {} (snd (receive_membership_vote E K disk r m))"
| amend: "node_step E K C V r {} {} (snd (append_amendment E K disk r am))"
| restart: "rt_store r = Some (Some p) \<Longrightarrow> node_step E K C V r {} {} (r\<lparr>rt_state := p\<rparr>)"

text \<open>Nonces are 64-bit words and never wrap in a run (a group finalizes fewer than \<open>2 ^ 64 - 1\<close>
  epochs).\<close>

definition nonce_in_range :: "HighAvailabilityRuntime \<Rightarrow> bool" where
  "nonce_in_range r \<longleftrightarrow> hr_nonce (rs_round_id (st_round (rt_state r))) \<noteq> 0"

inductive ha_step :: "crypto \<Rightarrow> ha_codec \<Rightarrow> nat \<Rightarrow> ha_system \<Rightarrow> ha_system \<Rightarrow> bool" for E K n where
  "v < n \<Longrightarrow> node_step E K (sys_confirms y) (sys_votes y) (sys_nodes y v) C' V' r' \<Longrightarrow> nonce_in_range r'
    \<Longrightarrow> ha_step E K n y \<lparr>sys_nodes = (sys_nodes y)(v := r'),
          sys_confirms = sys_confirms y \<union> C', sys_votes = sys_votes y \<union> V'\<rparr>"

definition ha_initial ::
  "crypto \<Rightarrow> ConsensusGroupId \<Rightarrow> NodeIdentity list \<Rightarrow> HighAvailabilityParameters \<Rightarrow> ha_system \<Rightarrow> bool" where
  "ha_initial E group_id nodes parameters y \<longleftrightarrow> sys_confirms y = {} \<and> sys_votes y = {} \<and>
    (\<forall>v < length nodes. \<exists>disk key. runtime_create E disk True group_id key nodes parameters = Ok (sys_nodes y v)
      \<and> slot_index (st_self_slot (rt_state (sys_nodes y v))) = v)"

inductive ha_reachable ::
  "crypto \<Rightarrow> ha_codec \<Rightarrow> ConsensusGroupId \<Rightarrow> NodeIdentity list \<Rightarrow> HighAvailabilityParameters \<Rightarrow> ha_system \<Rightarrow> bool"
  for E K group_id nodes parameters where
  init: "ha_initial E group_id nodes parameters y \<Longrightarrow> ha_reachable E K group_id nodes parameters y"
| step: "ha_reachable E K group_id nodes parameters y \<Longrightarrow> ha_step E K (length nodes) y z
    \<Longrightarrow> ha_reachable E K group_id nodes parameters z"


section \<open>The invariant of a state\<close>

definition epoch_keys :: "HighAvailabilityRuntimeState \<Rightarrow> (Nonce \<times> HashType \<times> HaCandidate) list" where
  "epoch_keys s = map (\<lambda>e. (ep_nonce e, ep_hash e, ep_candidate e)) (tl (st_epochs s))"

definition state_wf :: "crypto \<Rightarrow> nat \<Rightarrow> HighAvailabilityRuntimeState \<Rightarrow> bool" where
  "state_wf E v s \<longleftrightarrow> slot_index (st_self_slot s) = v \<and> v < 7 \<and> st_epochs s \<noteq> []
    \<and> member_slots_validate E (st_members s) = Ok ()
    \<and> length (rs_confirmations (st_round s)) = 7 \<and> length (st_membership_votes s) = 7
    \<and> rs_round_id (st_round s) = round_extending E s (st_head s)"

definition chain_ok ::
  "crypto \<Rightarrow> HaConfirm set \<Rightarrow> HaMembershipVote set \<Rightarrow> HaRoundId \<Rightarrow> HighAvailabilityRuntimeState \<Rightarrow> bool" where
  "chain_ok E C V r0 s \<longleftrightarrow> (\<exists>h. justified E C V r0 h \<and> round_after E r0 h = rs_round_id (st_round s)
    \<and> epochs_of E r0 h = epoch_keys s)"

definition confirmations_ok :: "HaConfirm set \<Rightarrow> HaRoundState \<Rightarrow> bool" where
  "confirmations_ok C t \<longleftrightarrow> (\<forall>i < 7. \<forall>d. rs_confirmations t ! i = Some d \<longrightarrow>
    (\<exists>c \<in> C. slot_index (hf_sender c) = i \<and> hf_round_id c = rs_round_id t \<and> hc_digest (hf_candidate c) = d))"

definition finalized_ok :: "HaConfirm set \<Rightarrow> HaMemberSlots \<Rightarrow> HaRoundState \<Rightarrow> bool" where
  "finalized_ok C members t \<longleftrightarrow> (\<forall>f. rs_finalized t = Some f \<longrightarrow>
    finalized_by_majority t f \<and> ha_majority members \<le> count_ones (fr_confirmation_mask f)
    \<and> (\<exists>c \<in> C. hf_round_id c = rs_round_id t \<and> hf_candidate c = fr_candidate f))"

definition votes_ok :: "HaMembershipVote set \<Rightarrow> HighAvailabilityRuntimeState \<Rightarrow> bool" where
  "votes_ok V s \<longleftrightarrow> (\<forall>i < 7. \<forall>d. st_membership_votes s ! i = Some d \<longrightarrow>
    (\<exists>m \<in> V. slot_index (mv_sender m) = i \<and> mp_digest (mv_proposal m) = d
      \<and> mp_membership_generation (mv_proposal m) = st_membership_generation s))"

text \<open>The promises of the member itself: what it confirmed at its current nonce is locked in its round,
  and what it voted in its current generation is its vote lock.\<close>

definition own_confirms_ok :: "HaConfirm set \<Rightarrow> nat \<Rightarrow> HaRoundState \<Rightarrow> bool" where
  "own_confirms_ok C v t \<longleftrightarrow> (\<forall>c \<in> C. slot_index (hf_sender c) = v \<longrightarrow>
    unat (hr_nonce (hf_round_id c)) < unat (hr_nonce (rs_round_id t))
    \<or> hf_round_id c = rs_round_id t \<and> rs_confirmations t ! v = Some (hc_digest (hf_candidate c)))"

definition own_votes_ok :: "HaMembershipVote set \<Rightarrow> nat \<Rightarrow> HighAvailabilityRuntimeState \<Rightarrow> bool" where
  "own_votes_ok V v s \<longleftrightarrow> (\<forall>m \<in> V. slot_index (mv_sender m) = v \<longrightarrow>
    mp_membership_generation (mv_proposal m) < st_membership_generation s
    \<or> mp_membership_generation (mv_proposal m) = st_membership_generation s
      \<and> st_membership_vote_lock s = Some (mp_digest (mv_proposal m)))"

definition state_ok ::
  "crypto \<Rightarrow> HaConfirm set \<Rightarrow> HaMembershipVote set \<Rightarrow> HaRoundId \<Rightarrow> nat \<Rightarrow> HighAvailabilityRuntimeState \<Rightarrow> bool" where
  "state_ok E C V r0 v s \<longleftrightarrow> state_wf E v s \<and> chain_ok E C V r0 s \<and> confirmations_ok C (st_round s)
    \<and> finalized_ok C (st_members s) (st_round s) \<and> votes_ok V s
    \<and> own_confirms_ok C v (st_round s) \<and> own_votes_ok V v s"

definition runtime_ok ::
  "crypto \<Rightarrow> HaConfirm set \<Rightarrow> HaMembershipVote set \<Rightarrow> HaRoundId \<Rightarrow> nat \<Rightarrow> HighAvailabilityRuntime \<Rightarrow> bool" where
  "runtime_ok E C V r0 v r \<longleftrightarrow> state_ok E C V r0 v (rt_state r)
    \<and> (\<exists>p. rt_store r = Some (Some p) \<and> state_ok E C V r0 v p)"

lemmas state_ok_defs = state_ok_def state_wf_def chain_ok_def confirmations_ok_def finalized_ok_def votes_ok_def
  own_confirms_ok_def own_votes_ok_def

definition voting_rules :: "HaConfirm set \<Rightarrow> HaMembershipVote set \<Rightarrow> bool" where
  "voting_rules C V \<longleftrightarrow> single_confirmation C \<and> single_vote V \<and> confirmed_before_votes C V"

text \<open>The rest of the state does not matter.\<close>

lemma state_update_simps [simp]:
  "round_extending E (s\<lparr>st_round := t\<rparr>) e = round_extending E s e"
  "round_extending E (s\<lparr>st_amendments := as\<rparr>) e = round_extending E s e"
  "round_extending E (s\<lparr>st_membership_votes := vs\<rparr>) e = round_extending E s e"
  "round_extending E (s\<lparr>st_membership_vote_lock := l\<rparr>) e = round_extending E s e"
  "st_head (s\<lparr>st_round := t\<rparr>) = st_head s" "st_head (s\<lparr>st_amendments := as\<rparr>) = st_head s"
  "st_head (s\<lparr>st_membership_votes := vs\<rparr>) = st_head s" "st_head (s\<lparr>st_membership_vote_lock := l\<rparr>) = st_head s"
  "epoch_keys (s\<lparr>st_round := t\<rparr>) = epoch_keys s" "epoch_keys (s\<lparr>st_amendments := as\<rparr>) = epoch_keys s"
  "epoch_keys (s\<lparr>st_membership_votes := vs\<rparr>) = epoch_keys s"
  "epoch_keys (s\<lparr>st_membership_vote_lock := l\<rparr>) = epoch_keys s"
  by (simp_all add: round_extending_def st_head_def epoch_keys_def)

lemma state_ok_frame:
  assumes "state_ok E C V r0 v s"
    and "rs_round_id t = rs_round_id (st_round s)" "rs_confirmations t = rs_confirmations (st_round s)"
    and "rs_finalized t = rs_finalized (st_round s)"
  shows "state_ok E C V r0 v (s\<lparr>st_round := t\<rparr>)"
proof -
  note ok = assms(1) [unfolded state_ok_def]
  have "state_wf E v (s\<lparr>st_round := t\<rparr>)" using ok assms(2-4) by (simp add: state_wf_def)
  moreover have "chain_ok E C V r0 (s\<lparr>st_round := t\<rparr>)" using ok assms(2-4) by (simp add: chain_ok_def)
  moreover have "confirmations_ok C t" using ok assms(2-4) by (simp add: confirmations_ok_def)
  moreover have "finalized_ok C (st_members s) t"
    using ok assms(2-4) by (simp add: finalized_ok_def finalized_by_majority_def)
  moreover have "votes_ok V (s\<lparr>st_round := t\<rparr>)" using ok by (simp add: votes_ok_def)
  moreover have "own_confirms_ok C v t" using ok assms(2-4) by (simp add: own_confirms_ok_def)
  moreover have "own_votes_ok V v (s\<lparr>st_round := t\<rparr>)" using ok by (simp add: own_votes_ok_def)
  ultimately show ?thesis by (simp add: state_ok_def)
qed

lemma state_ok_amendments: "state_ok E C V r0 v (s\<lparr>st_amendments := as\<rparr>) \<longleftrightarrow> state_ok E C V r0 v s"
  by (simp add: state_ok_defs)

lemma state_ok_mono:
  assumes "state_ok E C V r0 v s" "C \<subseteq> C'" "V \<subseteq> V'"
    and "own_confirms_ok C' v (st_round s)" "own_votes_ok V' v s"
  shows "state_ok E C' V' r0 v s"
proof -
  have "chain_ok E C' V' r0 s"
    using assms(1) justified_mono [OF _ assms(2,3)] unfolding state_ok_def chain_ok_def by blast
  moreover have "confirmations_ok C' (st_round s)" "finalized_ok C' (st_members s) (st_round s)" "votes_ok V' s"
    using assms(1-3) unfolding state_ok_def confirmations_ok_def finalized_ok_def votes_ok_def by blast+
  ultimately show ?thesis using assms(1,4,5) unfolding state_ok_def by blast
qed

lemma state_ok_others:
  assumes "state_ok E C V r0 v s" "\<forall>c \<in> C'. slot_index (hf_sender c) \<noteq> v" "\<forall>m \<in> V'. slot_index (mv_sender m) \<noteq> v"
  shows "state_ok E (C \<union> C') (V \<union> V') r0 v s"
  using assms by (intro state_ok_mono [OF assms(1)]) (auto simp: state_ok_def own_confirms_ok_def own_votes_ok_def)

lemma active_count_card:
  assumes "member_slots_validate E m = Ok ()"
  shows "active_count m = card (mask_set (hm_active_mask m))" "mask_set (hm_active_mask m) \<subseteq> {..<7}"
proof -
  have "mask_set (hm_active_mask m) \<subseteq> mask_set (low_bits (hm_member_count m))" "unat (hm_member_count m) \<le> 7"
    using assms by (auto simp: member_slots_validate_def Let_def MAX_HA_NODES_def mask_diff_0_iff split: if_splits)
  then show "active_count m = card (mask_set (hm_active_mask m))" "mask_set (hm_active_mask m) \<subseteq> {..<7}"
    by (auto simp: active_count_def count_ones_card mask_set_and Int_absorb2 low_bits_set)
qed


section \<open>Transitions of a state\<close>

lemma nth_locked:
  assumes "xs ! i \<in> {None, Some d}" "xs ! j = Some e"
  shows "(xs[i := Some d]) ! j = Some e"
  using assms by (cases "i = j"; cases "i < length xs") (auto simp: list_update_beyond)

lemma state_ok_locked:
  assumes ok: "state_ok E C V r0 v s"
    and t: "rs_round_id t = rs_round_id (st_round s)" "hf_round_id c = rs_round_id (st_round s)"
      "rs_confirmations t = (rs_confirmations (st_round s))[slot_index (hf_sender c) := Some (hc_digest (hf_candidate c))]"
    and i: "slot_index (hf_sender c) < 7"
      "rs_confirmations (st_round s) ! slot_index (hf_sender c) \<in> {None, Some (hc_digest (hf_candidate c))}"
    and f: "rs_finalized t = rs_finalized (st_round s) \<or> (\<exists>f. rs_finalized t = Some f \<and> fr_candidate f = hf_candidate c
      \<and> finalized_by_majority t f \<and> ha_majority (st_members s) \<le> count_ones (fr_confirmation_mask f))"
  shows "state_ok E (insert c C) V r0 v (s\<lparr>st_round := t\<rparr>)"
proof -
  let ?i = "slot_index (hf_sender c)" and ?d = "hc_digest (hf_candidate c)"
  note ok = ok [unfolded state_ok_def]
  have len: "length (rs_confirmations (st_round s)) = 7" using ok by (simp add: state_wf_def)
  have kept: "rs_confirmations t ! j = Some e" if "rs_confirmations (st_round s) ! j = Some e" for j e
    unfolding t(3) by (rule nth_locked [OF i(2) that])
  have new: "rs_confirmations t ! ?i = Some ?d" using i(1) len by (simp add: t(3))
  have "state_wf E v (s\<lparr>st_round := t\<rparr>)" using ok t(1) by (simp add: state_wf_def t(3))
  moreover have "chain_ok E (insert c C) V r0 (s\<lparr>st_round := t\<rparr>)"
    using ok t(1) justified_mono [of E C V r0 _ "insert c C" V] by (auto simp: chain_ok_def)
  moreover have "confirmations_ok (insert c C) t"
    unfolding confirmations_ok_def t(1)
  proof (intro allI impI)
    fix j e assume j: "j < 7" "rs_confirmations t ! j = Some e"
    show "\<exists>c' \<in> insert c C. slot_index (hf_sender c') = j \<and> hf_round_id c' = rs_round_id (st_round s)
        \<and> hc_digest (hf_candidate c') = e"
    proof (cases "j = ?i")
      case True then show ?thesis using j(2) new t(2) by auto
    next
      case False
      then have "rs_confirmations (st_round s) ! j = Some e" using j(2) t(3) by simp
      then show ?thesis using ok j(1) unfolding confirmations_ok_def by blast
    qed
  qed
  moreover have "finalized_ok (insert c C) (st_members s) t"
    unfolding finalized_ok_def
  proof (intro allI impI)
    fix g assume g: "rs_finalized t = Some g"
    show "finalized_by_majority t g \<and> ha_majority (st_members s) \<le> count_ones (fr_confirmation_mask g)
      \<and> (\<exists>c' \<in> insert c C. hf_round_id c' = rs_round_id t \<and> hf_candidate c' = fr_candidate g)"
    proof (cases "rs_finalized (st_round s) = Some g")
      case True
      then have "finalized_by_majority (st_round s) g" "ha_majority (st_members s) \<le> count_ones (fr_confirmation_mask g)"
        "\<exists>c' \<in> C. hf_round_id c' = rs_round_id (st_round s) \<and> hf_candidate c' = fr_candidate g"
        using ok unfolding finalized_ok_def by blast+
      then show ?thesis using kept t(1) by (auto simp: finalized_by_majority_def)
    next
      case False
      then show ?thesis using f g t(1,2) by auto
    qed
  qed
  moreover have "votes_ok V (s\<lparr>st_round := t\<rparr>)" "own_votes_ok V v (s\<lparr>st_round := t\<rparr>)"
    using ok by (simp_all add: votes_ok_def own_votes_ok_def)
  moreover have "own_confirms_ok (insert c C) v t"
    unfolding own_confirms_ok_def t(1)
  proof (intro ballI impI)
    fix c' assume "c' \<in> insert c C" "slot_index (hf_sender c') = v"
    then show "unat (hr_nonce (hf_round_id c')) < unat (hr_nonce (rs_round_id (st_round s)))
      \<or> hf_round_id c' = rs_round_id (st_round s) \<and> rs_confirmations t ! v = Some (hc_digest (hf_candidate c'))"
      using ok new kept t(2) unfolding own_confirms_ok_def by blast
  qed
  ultimately show ?thesis by (simp add: state_ok_def)
qed

lemma finalized_support:
  assumes ok: "state_ok E C V r0 v s" and f: "rs_finalized (st_round s) = Some f"
  shows "epoch_support C (rs_round_id (st_round s)) (fr_candidate f) (mask_set (fr_confirmation_mask f))"
proof -
  note ok = ok [unfolded state_ok_def]
  have members: "member_slots_validate E (st_members s) = Ok ()"
    and mask: "hr_active_mask (rs_round_id (st_round s)) = hm_active_mask (st_members s)"
    using ok by (simp_all add: state_wf_def round_extending_def)
  have fin: "finalized_by_majority (st_round s) f" "ha_majority (st_members s) \<le> count_ones (fr_confirmation_mask f)"
    "\<exists>c \<in> C. hf_round_id c = rs_round_id (st_round s) \<and> hf_candidate c = fr_candidate f"
    using ok f unfolding finalized_ok_def by blast+
  have "majority_of (mask_set (hr_active_mask (rs_round_id (st_round s)))) (mask_set (fr_confirmation_mask f))"
    using fin(1,2) active_count_card(1) [OF members]
    by (auto simp: majority_of_def finalized_by_majority_def mask ha_majority_def count_ones_card)
  moreover have "\<exists>c \<in> C. slot_index (hf_sender c) = i \<and> hf_round_id c = rs_round_id (st_round s)
      \<and> hc_digest (hf_candidate c) = hc_digest (fr_candidate f)" if "i \<in> mask_set (fr_confirmation_mask f)" for i
    using fin(1) that ok unfolding finalized_by_majority_def confirmations_ok_def by blast
  ultimately show ?thesis using fin(3) by (simp add: epoch_support_def)
qed

lemma finalized_epoch:
  assumes "fr_presence_mask f = hc_presence_mask (fr_candidate f)"
    and "hr_parameters_hash (fr_round_id f) = ha_parameters_hash E parameters"
  shows "ep_hash (epoch_from_finalized E f blocks parameters) = round_epoch_hash E (fr_round_id f) (fr_candidate f)"
    "ep_nonce (epoch_from_finalized E f blocks parameters) = hr_nonce (fr_round_id f)"
    "ep_candidate (epoch_from_finalized E f blocks parameters) = fr_candidate f"
  using assms
  by (simp_all add: epoch_from_finalized_def Let_def epoch_compute_hash_def ha_epoch_bytes_def round_epoch_hash_def)

lemma round_state_new_Ok:
  assumes "round_state_new E rid members = Ok t"
  shows "rs_round_id t = rid" "rs_confirmations t = replicate 7 None" "rs_finalized t = None"
    "member_slots_validate E members = Ok ()"
  using assms by (auto simp: round_state_new_def MAX_HA_NODES_def)

lemma fresh_round_ok:
  assumes "rs_confirmations t = replicate 7 None" "rs_finalized t = None"
  shows "confirmations_ok C t" "finalized_ok C members t"
  using assms by (simp_all add: confirmations_ok_def finalized_ok_def)

lemma state_ok_commit:
  assumes ok: "state_ok E C V r0 v s" and f: "rs_finalized (st_round s) = Some f"
    and epoch: "epoch = epoch_from_finalized E f blocks (st_parameters s)"
    and t: "round_state_new E (round_extending E s epoch) (st_members s) = Ok t"
    and range: "hr_nonce (rs_round_id t) \<noteq> 0"
  shows "state_ok E C V r0 v (s\<lparr>st_presence := p, st_epochs := st_epochs s @ [epoch], st_amendments := as, st_round := t\<rparr>)"
    (is "state_ok E C V r0 v ?s")
proof -
  let ?r = "rs_round_id (st_round s)"
  note t = round_state_new_Ok [OF t]
  note support = finalized_support [OF ok f]
  note ok = ok [unfolded state_ok_def]
  have r: "?r = round_extending E s (st_head s)" using ok by (simp add: state_wf_def)
  have id: "fr_round_id f = ?r" and pres: "fr_presence_mask f = hc_presence_mask (fr_candidate f)"
    using ok f by (auto simp: finalized_ok_def finalized_by_majority_def)
  have params: "hr_parameters_hash (fr_round_id f) = ha_parameters_hash E (st_parameters s)"
    unfolding id r by (simp add: round_extending_def)
  note e = finalized_epoch [OF pres params, of blocks, folded epoch, unfolded id]
  have nxt: "rs_round_id t = next_round E ?r (EpochEvent (fr_candidate f))"
    by (simp add: t(1) round_extending_def e) (simp add: r round_extending_def)
  have head: "st_head ?s = epoch" by (simp add: st_head_def)
  have "state_wf E v ?s"
    using ok t head by (simp add: state_wf_def round_extending_def)
  moreover have "chain_ok E C V r0 ?s"
  proof -
    obtain h where h: "justified E C V r0 h" "round_after E r0 h = ?r" "epochs_of E r0 h = epoch_keys s"
      using ok unfolding chain_ok_def by blast
    have "justified E C V r0 (h @ [EpochEvent (fr_candidate f)])"
      using h(1) support by (intro justified.epoch) (simp_all only: h(2))
    moreover have "epochs_of E r0 (h @ [EpochEvent (fr_candidate f)]) = epoch_keys ?s"
      using ok by (simp add: epochs_of_append h(2,3) epoch_keys_def e state_wf_def)
    ultimately show ?thesis unfolding chain_ok_def
      by (intro exI [of _ "h @ [EpochEvent (fr_candidate f)]"]) (simp add: h(2) nxt)
  qed
  moreover have "own_confirms_ok C v t"
  proof -
    have "unat (hr_nonce (rs_round_id t)) = unat (hr_nonce ?r) + 1"
      using range unat_succ [of "hr_nonce ?r"] by (simp add: nxt new_next_def)
    then show ?thesis using ok unfolding own_confirms_ok_def by fastforce
  qed
  moreover have "votes_ok V ?s" "own_votes_ok V v ?s" using ok by (simp_all add: votes_ok_def own_votes_ok_def)
  ultimately show ?thesis using fresh_round_ok [OF t(2,3)] by (simp add: state_ok_def)
qed

text \<open>The state with which a membership proposal is committed, seen from its vote record.\<close>

definition approved :: "HaMembershipVote set \<Rightarrow> HighAvailabilityRuntimeState \<Rightarrow> HaMembershipProposal \<Rightarrow> bool" where
  "approved V s p \<longleftrightarrow> (\<exists>S. majority_of (mask_set (hm_active_mask (st_members s))) S
    \<and> (\<forall>i \<in> S. \<exists>m \<in> V. slot_index (mv_sender m) = i \<and> mv_proposal m = p))"

lemma transition_cases:
  assumes "membership_transition E s cert = Ok s'"
  obtains members g t p where
    "with_suspended E (st_members s) (mp_slot (mc_proposal cert)) = Ok members \<and> mp_action (mc_proposal cert) = Suspend
      \<or> with_reactivated E (st_members s) (mp_slot (mc_proposal cert)) = Ok members \<and> mp_action (mc_proposal cert) \<noteq> Suspend"
    "checked_succ_u64 (st_membership_generation s) = Some g"
    "s' = s\<lparr>st_presence := p, st_members := members, st_membership_generation := g,
       st_membership_changes := st_membership_changes s @ [cert], st_membership_vote_lock := None,
       st_membership_votes := replicate MAX_HA_NODES None, st_round := t\<rparr>"
    "round_state_new E (round_extending E s' (st_head s)) members = Ok t"
  using assms
  by (cases "mp_action (mc_proposal cert)")
    (auto simp: membership_transition_def Let_def retarget_current_round_def round_extending_def st_head_def)

lemma state_ok_change:
  assumes ok: "state_ok E C V r0 v s" and tr: "membership_transition E s cert = Ok s'"
    and p: "mp_membership_generation (mc_proposal cert) = st_membership_generation s"
      "mp_effective_nonce (mc_proposal cert) = hr_nonce (rs_round_id (st_round s))"
    and approved: "approved V s (mc_proposal cert)"
    and boundary: "rs_confirmations (st_round s) ! v = None"
  shows "state_ok E C V r0 v s'"
proof -
  let ?r = "rs_round_id (st_round s)" and ?p = "mc_proposal cert"
  obtain members g t q where members:
      "with_suspended E (st_members s) (mp_slot ?p) = Ok members \<and> mp_action ?p = Suspend
      \<or> with_reactivated E (st_members s) (mp_slot ?p) = Ok members \<and> mp_action ?p \<noteq> Suspend"
    and g: "checked_succ_u64 (st_membership_generation s) = Some g"
    and s': "s' = s\<lparr>st_presence := q, st_members := members, st_membership_generation := g,
       st_membership_changes := st_membership_changes s @ [cert], st_membership_vote_lock := None,
       st_membership_votes := replicate MAX_HA_NODES None, st_round := t\<rparr>"
    and t: "round_state_new E (round_extending E s' (st_head s)) members = Ok t"
    by (rule transition_cases [OF tr])
  note t = round_state_new_Ok [OF t]
  note ok = ok [unfolded state_ok_def]
  have r: "?r = round_extending E s (st_head s)" using ok by (simp add: state_wf_def)
  have mask: "hm_active_mask members = changed_mask (hm_active_mask (st_members s)) ?p" "slot_index (mp_slot ?p) < 8"
    and fixed: "hm_fixed_identity_hash members = hm_fixed_identity_hash (st_members s)"
    using members by (auto simp: with_suspended_def with_reactivated_def slot_bit_Ok Let_def changed_mask_def
        split: HaMembershipAction.splits if_splits)
  have gen: "g = st_membership_generation s + 1" "st_membership_generation s \<noteq> - 1"
    using g by (auto simp: checked_succ_u64_def split: if_splits)
  have nxt: "rs_round_id t = next_round E ?r (ChangeEvent ?p)"
    by (simp add: t(1) s' round_extending_def) (simp add: r round_extending_def mask fixed gen)
  have "state_wf E v s'"
    using ok t by (simp add: state_wf_def s' MAX_HA_NODES_def st_head_def)
  moreover have "chain_ok E C V r0 s'"
  proof -
    obtain h where h: "justified E C V r0 h" "round_after E r0 h = ?r" "epochs_of E r0 h = epoch_keys s"
      using ok unfolding chain_ok_def by blast
    obtain S where S: "change_support V ?r ?p S"
      using approved p gen(2) mask(2) r by (auto simp: approved_def change_support_def round_extending_def)
    have "justified E C V r0 (h @ [ChangeEvent ?p])"
      using h(1) S by (intro justified.change) (simp_all only: h(2))
    moreover have "epochs_of E r0 (h @ [ChangeEvent ?p]) = epoch_keys s'"
      by (simp add: epochs_of_append h(2,3) epoch_keys_def s')
    ultimately show ?thesis unfolding chain_ok_def
      by (intro exI [of _ "h @ [ChangeEvent ?p]"]) (simp add: h(2) nxt s')
  qed
  moreover have "own_confirms_ok C v t"
    using ok boundary unfolding own_confirms_ok_def by (auto simp: nxt)
  moreover have "votes_ok V s'" by (simp add: votes_ok_def s' MAX_HA_NODES_def)
  moreover have "own_votes_ok V v s'"
  proof -
    have "mp_membership_generation (mv_proposal m) < g"
      if "m \<in> V" "slot_index (mv_sender m) = v" for m
    proof -
      have "mp_membership_generation (mv_proposal m) \<le> st_membership_generation s"
        using ok that unfolding own_votes_ok_def by (auto simp: less_imp_le)
      then show ?thesis using generation_succ [OF gen(2)] gen(1) by auto
    qed
    then show ?thesis by (simp add: own_votes_ok_def s')
  qed
  ultimately show ?thesis using fresh_round_ok [OF t(2,3)] by (simp add: state_ok_def s')
qed


section \<open>Operations of a member\<close>

lemma persist_Ok:
  assumes "persist disk r = Ok r'" "rt_store r = Some x"
  shows "r' = r\<lparr>rt_store := Some (Some (rt_state r))\<rparr>"
  using assms by (auto simp: persist_def split: if_splits)

lemma runtime_ok_update:
  "runtime_ok E C V r0 v r \<Longrightarrow> state_ok E C V r0 v s \<Longrightarrow> runtime_ok E C V r0 v (r\<lparr>rt_state := s\<rparr>)"
  by (auto simp: runtime_ok_def)

lemma runtime_ok_persist:
  assumes "persist disk (r\<lparr>rt_state := s\<rparr>) = Ok r'" "rt_store r = Some x" "state_ok E C V r0 v s"
  shows "runtime_ok E C V r0 v r'" "rt_state r' = s"
  using persist_Ok [OF assms(1)] assms(2,3) by (auto simp: runtime_ok_def)

lemma runtime_okD:
  assumes "runtime_ok E C V r0 v r"
  shows "state_ok E C V r0 v (rt_state r)" "\<exists>x. rt_store r = Some x"
  using assms by (auto simp: runtime_ok_def)

lemma runtime_ok_others:
  assumes "runtime_ok E C V r0 v r" "\<forall>c \<in> C'. slot_index (hf_sender c) \<noteq> v" "\<forall>m \<in> V'. slot_index (mv_sender m) \<noteq> v"
  shows "runtime_ok E (C \<union> C') (V \<union> V') r0 v r"
  using assms state_ok_others unfolding runtime_ok_def by blast

lemma commit_ok:
  assumes ok: "runtime_ok E C V r0 v r" and range: "nonce_in_range (snd (commit_finalized_round E K disk r))"
  shows "runtime_ok E C V r0 v (snd (commit_finalized_round E K disk r))"
proof (cases "rs_finalized (st_round (rt_state r))")
  case None
  then show ?thesis using ok by (simp add: commit_finalized_round_def)
next
  case (Some f)
  let ?s = "rt_state r"
  define epoch where "epoch = epoch_from_finalized E f (rs_blocks (st_round ?s)) (st_parameters ?s)"
  show ?thesis
  proof (cases "committed_amendments_of E K ?s f")
    case (Inl e) then show ?thesis using ok Some by (simp add: commit_finalized_round_def)
  next
    case (Inr new)
    show ?thesis
    proof (cases "round_state_new E (round_extending E ?s epoch) (st_members ?s)")
      case (Inl e) then show ?thesis using ok Some Inr by (simp add: commit_finalized_round_def epoch_def Let_def)
    next
      case t: (Inr t)
      let ?s' = "?s\<lparr>st_presence := observe_epoch (st_presence ?s) (st_members ?s) (ep_presence_mask epoch) (st_parameters ?s),
        st_epochs := st_epochs ?s @ [epoch], st_amendments := add_amendments new (st_amendments ?s), st_round := t\<rparr>"
      have commit: "snd (commit_finalized_round E K disk r) =
          (case persist disk (r\<lparr>rt_state := ?s'\<rparr>) of Inl _ \<Rightarrow> r | Inr r' \<Rightarrow> r')"
        using Some Inr t by (simp add: commit_finalized_round_def epoch_def Let_def split: sum.split)
      show ?thesis
      proof (cases "persist disk (r\<lparr>rt_state := ?s'\<rparr>)")
        case (Inl e) then show ?thesis using ok commit by simp
      next
        case p: (Inr r')
        obtain x where x: "rt_store r = Some x" using runtime_okD [OF ok] by blast
        have "rt_state r' = ?s'" using persist_Ok [OF p, of x] x by simp
        then have "hr_nonce (rs_round_id t) \<noteq> 0" using range commit p by (simp add: nonce_in_range_def)
        from state_ok_commit [OF runtime_okD(1) [OF ok] Some epoch_def t this]
        have "runtime_ok E C V r0 v r'" by (intro runtime_ok_persist(1) [OF p x])
        then show ?thesis using commit p by simp
      qed
    qed
  qed
qed

lemma dispatch_ok:
  assumes "runtime_ok E C V r0 v r"
  shows "runtime_ok E C V r0 v (snd (build_dispatch_with_created E K r txs created))"
    "runtime_ok E C V r0 v (snd (receive_dispatch E K r d))"
proof -
  have step: "runtime_ok E C V r0 v (r\<lparr>rt_state := (rt_state r)\<lparr>st_round := t\<rparr>\<rparr>)"
    if "round_receive_dispatch E (st_round (rt_state r)) members d' = Ok (out, t)" for members d' out t
    using dispatch_frame [OF that] by (intro runtime_ok_update [OF assms] state_ok_frame [OF runtime_okD(1) [OF assms]]) auto
  show "runtime_ok E C V r0 v (snd (build_dispatch_with_created E K r txs created))"
    using assms by (auto simp: build_dispatch_with_created_def Let_def step split: sum.splits)
  show "runtime_ok E C V r0 v (snd (receive_dispatch E K r d))"
    using assms by (auto simp: receive_dispatch_def Let_def step split: sum.splits)
qed

lemma acknowledge_ok:
  assumes "runtime_ok E C V r0 v r"
  shows "runtime_ok E C V r0 v (snd (acknowledge disk r))" "runtime_ok E C V r0 v (snd (receive_acknowledgement r a))"
proof -
  have s: "state_ok E C V r0 v ((rt_state r)\<lparr>st_round := t\<rparr>)"
    if "rs_round_id t = rs_round_id (st_round (rt_state r))" "rs_confirmations t = rs_confirmations (st_round (rt_state r))"
      "rs_finalized t = rs_finalized (st_round (rt_state r))" for t
    using that by (rule state_ok_frame [OF runtime_okD(1) [OF assms]])
  obtain x where x: "rt_store r = Some x" using runtime_okD [OF assms] by blast
  show "runtime_ok E C V r0 v (snd (receive_acknowledgement r a))"
    using assms by (auto simp: receive_acknowledgement_def Let_def acknowledgement_frame
        intro!: runtime_ok_update s split: sum.splits)
  have "runtime_ok E C V r0 v r'"
    if "round_acknowledge (st_round (rt_state r)) members i = Ok (a, t)"
      "persist disk (r\<lparr>rt_state := (rt_state r)\<lparr>st_round := t\<rparr>\<rparr>) = Ok r'" for members i a t r'
    using acknowledge_frame [OF that(1)] by (intro runtime_ok_persist(1) [OF that(2) x] s) simp_all
  moreover have "runtime_ok E C V r0 v (r\<lparr>rt_state := (rt_state r)\<lparr>st_round := t\<lparr>rs_acknowledgements := w\<rparr>\<rparr>\<rparr>)"
    if "round_acknowledge (st_round (rt_state r)) members i = Ok (a, t)" for members i a t w
    using acknowledge_frame [OF that(1)] by (intro runtime_ok_update [OF assms] s) simp_all
  ultimately show "runtime_ok E C V r0 v (snd (acknowledge disk r))"
    using assms by (auto simp: acknowledge_def Let_def split: sum.splits)
qed

lemma amend_ok:
  assumes "runtime_ok E C V r0 v r"
  shows "runtime_ok E C V r0 v (snd (append_amendment E K disk r a))"
proof -
  obtain x where x: "rt_store r = Some x" using runtime_okD [OF assms] by blast
  have "runtime_ok E C V r0 v r'"
    if "persist disk (r\<lparr>rt_state := (rt_state r)\<lparr>st_amendments := as\<rparr>\<rparr>) = Ok r'" for as r'
    using runtime_okD(1) [OF assms] by (intro runtime_ok_persist(1) [OF that x]) (simp add: state_ok_amendments)
  then show ?thesis using assms by (auto simp: append_amendment_def Let_def split: sum.splits bool.splits)
qed


lemma state_okD:
  assumes "state_ok E C V r0 v s"
  shows "slot_index (st_self_slot s) = v" "v < 7" "length (rs_confirmations (st_round s)) = 7"
    "length (st_membership_votes s) = 7" "member_slots_validate E (st_members s) = Ok ()"
    "hr_membership_generation (rs_round_id (st_round s)) = st_membership_generation s"
    "hr_active_mask (rs_round_id (st_round s)) = hm_active_mask (st_members s)"
  using assms by (simp_all add: state_ok_def state_wf_def round_extending_def)

lemma own_confirmation:
  assumes "state_ok E C V r0 v s" "c \<in> C" "slot_index (hf_sender c) = v"
    and "hr_nonce (hf_round_id c) = hr_nonce (rs_round_id (st_round s))"
  shows "hf_round_id c = rs_round_id (st_round s)" "rs_confirmations (st_round s) ! v = Some (hc_digest (hf_candidate c))"
  using assms unfolding state_ok_def own_confirms_ok_def by auto

lemma own_vote:
  assumes "state_ok E C V r0 v s" "m \<in> V" "slot_index (mv_sender m) = v"
  shows "mp_membership_generation (mv_proposal m) \<le> st_membership_generation s"
    "mp_membership_generation (mv_proposal m) = st_membership_generation s
      \<Longrightarrow> st_membership_vote_lock s = Some (mp_digest (mv_proposal m))"
  using assms unfolding state_ok_def own_votes_ok_def by (auto simp: less_imp_le)

lemma rules_confirm:
  assumes rules: "voting_rules C V" and ok: "state_ok E C V r0 v s"
    and c: "hf_round_id c = rs_round_id (st_round s)" "slot_index (hf_sender c) = v"
      "rs_confirmations (st_round s) ! v \<in> {None, Some (hc_digest (hf_candidate c))}"
  shows "voting_rules (insert c C) V"
proof -
  have same: "hf_round_id c' = hf_round_id c \<and> hc_digest (hf_candidate c') = hc_digest (hf_candidate c)"
    if "c' \<in> C" "hf_sender c' = hf_sender c" "hr_nonce (hf_round_id c') = hr_nonce (hf_round_id c)" for c'
    using own_confirmation [OF ok that(1)] that c by auto
  have "single_confirmation (insert c C)"
    using rules same unfolding voting_rules_def single_confirmation_def by (metis insert_iff)
  moreover have "mp_membership_generation (mv_proposal m) \<le> hr_membership_generation (hf_round_id c)"
    if "m \<in> V" "hf_sender c = mv_sender m" for m
    using own_vote(1) [OF ok that(1)] that c state_okD(6) [OF ok] by simp
  ultimately show ?thesis
    using rules unfolding voting_rules_def confirmed_before_votes_def by auto
qed

lemma confirm_ok:
  assumes ok: "runtime_ok E C V r0 v r" and rules: "voting_rules C V"
    and range: "nonce_in_range (snd (confirm E K disk r))"
  shows "runtime_ok E (C \<union> emitted_confirms E disk r) V r0 v (snd (confirm E K disk r))"
    "voting_rules (C \<union> emitted_confirms E disk r) V"
    "\<forall>c \<in> emitted_confirms E disk r. slot_index (hf_sender c) = v"
proof -
  let ?s = "rt_state r"
  note s = runtime_okD(1) [OF ok]
  obtain x where x: "rt_store r = Some x" using runtime_okD [OF ok] by blast
  have goal: "runtime_ok E (C \<union> emitted_confirms E disk r) V r0 v (snd (confirm E K disk r))
    \<and> voting_rules (C \<union> emitted_confirms E disk r) V
    \<and> (\<forall>c \<in> emitted_confirms E disk r. slot_index (hf_sender c) = v)"
  proof (cases "round_confirm E (st_round ?s) (st_members ?s) (st_self_slot ?s)")
    case (Inl e)
    then have "emitted_confirms E disk r = {}" "snd (confirm E K disk r) = r"
      by (simp_all add: emitted_confirms_def confirm_def Let_def)
    then show ?thesis using ok rules by simp
  next
    case (Inr ct)
    then obtain c t where ct: "round_confirm E (st_round ?s) (st_members ?s) (st_self_slot ?s) = Ok (c, t)"
      by (cases ct) auto
    note m = confirm_message [OF ct]
    have i: "slot_index (hf_sender c) = v" "slot_index (st_self_slot ?s) = v" using m(3) state_okD(1) [OF s] by simp_all
    show ?thesis
    proof (cases "persist disk (r\<lparr>rt_state := ?s\<lparr>st_round := t\<rparr>\<rparr>)")
      case (Inl e)
      then have 1: "emitted_confirms E disk r = {}"
        and 2: "snd (confirm E K disk r) = r\<lparr>rt_state := ?s\<lparr>st_round := t\<lparr>rs_confirmations := rs_confirmations (st_round ?s),
             rs_confirmed_candidate := rs_confirmed_candidate (st_round ?s), rs_finalized := rs_finalized (st_round ?s)\<rparr>\<rparr>\<rparr>"
        using ct by (simp_all add: emitted_confirms_def confirm_def Let_def)
      have "runtime_ok E C V r0 v (snd (confirm E K disk r))"
        unfolding 2 by (intro runtime_ok_update [OF ok] state_ok_frame [OF s]) (simp_all add: m(1))
      then show ?thesis using 1 rules by simp
    next
      case p: (Inr r')
      then have 1: "emitted_confirms E disk r = {c}"
        and 2: "snd (confirm E K disk r) = snd (commit_finalized_round E K disk r')"
        using ct by (simp_all add: emitted_confirms_def confirm_def Let_def split: prod.split sum.split)
      have "state_ok E (insert c C) V r0 v (?s\<lparr>st_round := t\<rparr>)"
        using m i confirm_lock [OF ct] confirm_finalized [OF ct] state_okD(2,3) [OF s]
        by (intro state_ok_locked [OF s]) simp_all
      then have "runtime_ok E (insert c C) V r0 v r'" by (rule runtime_ok_persist(1) [OF p x])
      then have "runtime_ok E (insert c C) V r0 v (snd (confirm E K disk r))"
        unfolding 2 using range unfolding 2 by (rule commit_ok)
      moreover have "voting_rules (insert c C) V"
        using m(2,6) i by (intro rules_confirm [OF rules s]) simp_all
      ultimately show ?thesis using 1 i by simp
    qed
  qed
  then show "runtime_ok E (C \<union> emitted_confirms E disk r) V r0 v (snd (confirm E K disk r))"
    "voting_rules (C \<union> emitted_confirms E disk r) V"
    "\<forall>c \<in> emitted_confirms E disk r. slot_index (hf_sender c) = v"
    by blast+
qed

lemma confirmed_ok:
  assumes ok: "runtime_ok E C V r0 v r" and c: "c \<in> C"
    and range: "nonce_in_range (snd (receive_confirmation E K disk r c))"
  shows "runtime_ok E C V r0 v (snd (receive_confirmation E K disk r c))"
proof -
  let ?s = "rt_state r"
  note s = runtime_okD(1) [OF ok]
  show ?thesis
  proof (cases "hr_nonce (hf_round_id c) < hr_nonce (rs_round_id (st_round ?s))")
    case True
    then have "snd (receive_confirmation E K disk r c) = r"
      by (simp add: receive_confirmation_def Let_def split: option.split)
    then show ?thesis using ok by simp
  next
    case old: False
    show ?thesis
    proof (cases "round_receive_confirmation E (st_round ?s) (st_members ?s) c")
      case (Inl e)
      then have "snd (receive_confirmation E K disk r c) = r" using old by (simp add: receive_confirmation_def Let_def)
      then show ?thesis using ok by simp
    next
      case (Inr ft)
      then obtain f t where t: "round_receive_confirmation E (st_round ?s) (st_members ?s) c = Ok (f, t)"
        by (cases ft) auto
      have 1: "snd (receive_confirmation E K disk r c) = snd (commit_finalized_round E K disk (r\<lparr>rt_state := ?s\<lparr>st_round := t\<rparr>\<rparr>))"
        using old t by (simp add: receive_confirmation_def Let_def split: prod.split sum.split option.split)
      note m = confirmation_Ok [OF t]
      have i: "slot_index (hf_sender c) < 7" using m(3) by (simp add: is_active_iff)
      have "state_ok E (insert c C) V r0 v (?s\<lparr>st_round := t\<rparr>)"
      proof (rule state_ok_locked [OF s m(1,2) _ i _ m(9)])
        show "rs_confirmations t = (rs_confirmations (st_round ?s))[slot_index (hf_sender c) := Some (hc_digest (hf_candidate c))]"
          using m(8) by (metis list_update_id)
        show "rs_confirmations (st_round ?s) ! slot_index (hf_sender c) \<in> {None, Some (hc_digest (hf_candidate c))}"
          using m(8) by auto
      qed
      then have "runtime_ok E C V r0 v (r\<lparr>rt_state := ?s\<lparr>st_round := t\<rparr>\<rparr>)"
        using c by (intro runtime_ok_update [OF ok]) (simp add: insert_absorb)
      then show ?thesis unfolding 1 using range unfolding 1 by (rule commit_ok)
    qed
  qed
qed


lemma boundary_empty:
  assumes "require_epoch_boundary s = Ok ()" "i < length (rs_confirmations (st_round s))"
  shows "rs_confirmations (st_round s) ! i = None"
  using assms by (auto simp: require_epoch_boundary_def Let_def list_ex_iff split: if_splits)

lemma proposal_scope:
  assumes "validate_membership_proposal E K s p = Ok ()"
  shows "mp_membership_generation p = st_membership_generation s" "mp_active_mask p = hm_active_mask (st_members s)"
    "mp_effective_nonce p = hr_nonce (rs_round_id (st_round s))"
  using assms by (auto simp: validate_membership_proposal_def split: if_splits)

lemma approval_mask_set:
  "mask_set (approval_mask_for s p) =
    {i. i < 7 \<and> i \<in> mask_set (mp_active_mask p) \<and> st_membership_votes s ! i = Some (mp_digest p)}"
  unfolding approval_mask_for_def MAX_HA_NODES_def
  by (subst mask_set_fold) (auto simp: mask_has_bit mask_set_def)

lemma approval:
  assumes ok: "state_ok E C V r0 v s" and p: "m \<in> V" "mv_proposal m = p"
    and free: "collision_free C V" and mask: "mp_active_mask p = hm_active_mask (st_members s)"
    and enough: "ha_majority (st_members s) \<le> count_ones (approval_mask_for s p)"
  shows "approved V s p"
  unfolding approved_def
proof (intro exI conjI ballI)
  show "majority_of (mask_set (hm_active_mask (st_members s))) (mask_set (approval_mask_for s p))"
    using enough active_count_card(1) [OF state_okD(5) [OF ok]] mask
    by (auto simp: majority_of_def approval_mask_set ha_majority_def count_ones_card)
  fix i assume "i \<in> mask_set (approval_mask_for s p)"
  then have "i < 7" "st_membership_votes s ! i = Some (mp_digest p)" by (simp_all add: approval_mask_set)
  then obtain m' where "m' \<in> V" "slot_index (mv_sender m') = i" "mp_digest (mv_proposal m') = mp_digest p"
    using ok unfolding state_ok_def votes_ok_def by blast
  moreover from this have "mv_proposal m' = p" using free p unfolding collision_free_def by metis
  ultimately show "\<exists>m \<in> V. slot_index (mv_sender m) = i \<and> mv_proposal m = p" by blast
qed

lemma try_commit_ok:
  assumes s: "state_ok E C V r0 v (rt_state r)" and x: "rt_store r = Some x"
    and p: "m \<in> V" "mv_proposal m = p" and free: "collision_free C V"
    and boundary: "rs_confirmations (st_round (rt_state r)) ! v = None"
    and commit: "try_commit_membership_proposal E K disk r p = Ok (Some cert, r')"
  shows "runtime_ok E C V r0 v r'"
proof -
  let ?s = "rt_state r"
  have enough: "ha_majority (st_members ?s) \<le> count_ones (approval_mask_for ?s p)"
    and cert: "mc_proposal cert = p" and ap: "apply_membership_certificate E K disk r cert = Ok r'"
    using commit by (auto simp: try_commit_membership_proposal_def Let_def split: if_splits)
  obtain s' where valid: "validate_membership_proposal E K ?s p = Ok ()" and tr: "membership_transition E ?s cert = Ok s'"
    and per: "persist disk (r\<lparr>rt_state := s'\<rparr>) = Ok r'"
    using ap cert by (auto simp: apply_membership_certificate_def)
  note scope = proposal_scope [OF valid]
  have "approved V ?s p" using approval [OF s p free scope(2) enough] .
  then have "state_ok E C V r0 v s'"
    using state_ok_change [OF s tr] scope boundary cert by simp
  then show ?thesis by (rule runtime_ok_persist(1) [OF per x])
qed

lemma state_ok_voted:
  assumes ok: "state_ok E C V r0 v s" and m: "m \<in> V" "mv_proposal m = p"
    and p: "mp_membership_generation p = st_membership_generation s"
  shows "state_ok E C V r0 v (s\<lparr>st_membership_votes := (st_membership_votes s)[slot_index (mv_sender m) := Some (mp_digest p)]\<rparr>)"
    (is "state_ok E C V r0 v ?s")
proof -
  note ok = ok [unfolded state_ok_def]
  have "votes_ok V ?s"
    unfolding votes_ok_def
  proof (intro allI impI)
    fix i d assume i: "i < 7" "st_membership_votes ?s ! i = Some d"
    show "\<exists>m \<in> V. slot_index (mv_sender m) = i \<and> mp_digest (mv_proposal m) = d
      \<and> mp_membership_generation (mv_proposal m) = st_membership_generation ?s"
    proof (cases "i = slot_index (mv_sender m)")
      case True
      then have "mp_digest p = d" using i ok by (simp add: state_wf_def)
      then show ?thesis using m p True by auto
    next
      case False
      then have "st_membership_votes s ! i = Some d" using i by simp
      then show ?thesis using ok i(1) by (simp add: votes_ok_def)
    qed
  qed
  moreover have "state_wf E v ?s" using ok by (simp add: state_wf_def)
  moreover have "chain_ok E C V r0 ?s" using ok by (simp add: chain_ok_def)
  moreover have "own_votes_ok V v ?s" using ok by (simp add: own_votes_ok_def)
  ultimately show ?thesis using ok by (simp add: state_ok_def)
qed

lemma receive_vote_cases:
  fixes r m
  defines "s \<equiv> rt_state r" and "p \<equiv> mv_proposal m"
  defines "s' \<equiv> s\<lparr>st_membership_votes := (st_membership_votes s)[slot_index (mv_sender m) := Some (mp_digest p)]\<rparr>"
  obtains (unchanged) "snd (receive_membership_vote E K disk r m) = r"
  | (commit) co r' where "require_epoch_boundary s = Ok ()" "validate_membership_proposal E K s p = Ok ()"
      "try_commit_membership_proposal E K disk (r\<lparr>rt_state := s'\<rparr>) p = Ok (co, r')"
      "snd (receive_membership_vote E K disk r m) = r'"
proof -
  define G where "G = and_then (require_epoch_boundary s) (\<lambda>_.
         and_then (validate_membership_proposal E K s p) (\<lambda>_. slot_bit (mv_sender m)))"
  have eq: "receive_membership_vote E K disk r m =
     (if mp_membership_generation p < st_membership_generation s
      then case find (\<lambda>c. mp_digest (mc_proposal c) = mp_digest p) (st_membership_changes s) of
            None \<Rightarrow> (Err WireProtocol, r)
          | Some certificate \<Rightarrow> (Ok (MembershipChanged certificate), r)
      else case G of
        Inl error \<Rightarrow> (Err error, r)
      | Inr b \<Rightarrow>
         if mp_active_mask p AND b = 0 then (Err UnknownSender, r)
         else case st_membership_votes s ! slot_index (mv_sender m) of
           Some existing \<Rightarrow> if existing = mp_digest p then (Ok MembershipVoteAccepted, r) else (Err WireProtocol, r)
         | None \<Rightarrow>
             (case try_commit_membership_proposal E K disk (r\<lparr>rt_state := s'\<rparr>) p of
                Inl error \<Rightarrow> (Err error, r)
              | Inr (Some certificate, r') \<Rightarrow> (Ok (MembershipChanged certificate), r')
              | Inr (None, r') \<Rightarrow> (Ok MembershipVoteAccepted, r')))"
    unfolding receive_membership_vote_def Let_def G_def s'_def s_def p_def by (rule refl)
  show thesis
  proof (cases "mp_membership_generation p < st_membership_generation s")
    case True then show ?thesis by (intro unchanged) (simp add: eq split: option.split)
  next
    case new: False
    show ?thesis
    proof (cases G)
      case (Inl e) then show ?thesis using new by (intro unchanged) (simp add: eq)
    next
      case G: (Inr b)
      then have "require_epoch_boundary s = Ok ()" "validate_membership_proposal E K s p = Ok ()"
        by (auto simp: G_def)
      moreover have "snd (receive_membership_vote E K disk r m) = r \<or>
          (\<exists>co. try_commit_membership_proposal E K disk (r\<lparr>rt_state := s'\<rparr>) p
            = Ok (co, snd (receive_membership_vote E K disk r m)))"
        using new G by (auto simp: eq split: option.split sum.split)
      ultimately show ?thesis using unchanged commit by blast
    qed
  qed
qed

lemma voted_ok:
  assumes ok: "runtime_ok E C V r0 v r" and m: "m \<in> V" and free: "collision_free C V"
  shows "runtime_ok E C V r0 v (snd (receive_membership_vote E K disk r m))"
proof -
  let ?s = "rt_state r" and ?p = "mv_proposal m"
  let ?s' = "?s\<lparr>st_membership_votes := (st_membership_votes ?s)[slot_index (mv_sender m) := Some (mp_digest ?p)]\<rparr>"
  note s = runtime_okD(1) [OF ok]
  obtain x where x: "rt_store r = Some x" using runtime_okD [OF ok] by blast
  show ?thesis
  proof (cases rule: receive_vote_cases [of E K disk r m])
    case (commit co r')
    note scope = proposal_scope [OF commit(2)]
    have ok': "state_ok E C V r0 v ?s'" using state_ok_voted [OF s m refl scope(1)] .
    show ?thesis
    proof (cases co)
      case None
      then have "r' = r\<lparr>rt_state := ?s'\<rparr>"
        using commit(3) by (auto simp: try_commit_membership_proposal_def Let_def split: if_splits)
      then show ?thesis using runtime_ok_update [OF ok ok'] commit(4) by simp
    next
      case (Some cert)
      have "rs_confirmations (st_round ?s) ! v = None"
        using boundary_empty [OF commit(1)] state_okD(2,3) [OF s] by simp
      then show ?thesis
        using try_commit_ok [OF _ _ m refl free, of E r0 v "r\<lparr>rt_state := ?s'\<rparr>" x K disk cert r'] ok' x commit(3,4) Some by simp
    qed
  qed (use ok in simp)
qed


lemma cast_vote_cases:
  fixes r p
  defines "s \<equiv> rt_state r"
  defines "s' \<equiv> s\<lparr>st_membership_vote_lock := Some (mp_digest p),
    st_membership_votes := (st_membership_votes s)[slot_index (st_self_slot s) := Some (mp_digest p)]\<rparr>"
    and "vote \<equiv> \<lparr>mv_proposal = p, mv_sender = st_self_slot s\<rparr>"
  obtains (failed) error where "cast_membership_vote E K disk r p = (Err error, r)"
  | (commit) cert r' where "validate_membership_proposal E K s p = Ok ()"
      "st_membership_vote_lock s \<in> {None, Some (mp_digest p)}"
      "cast_membership_vote E K disk r p = (Ok (vote, Some cert), r')"
      "try_commit_membership_proposal E K disk (r\<lparr>rt_state := s'\<rparr>) p = Ok (Some cert, r')"
  | (locked) r' where "validate_membership_proposal E K s p = Ok ()"
      "st_membership_vote_lock s \<in> {None, Some (mp_digest p)}"
      "cast_membership_vote E K disk r p = (Ok (vote, None), r')"
      "persist disk (r\<lparr>rt_state := s'\<rparr>) = Ok r'"
proof (cases "validate_membership_proposal E K s p")
  case (Inl e)
  then show ?thesis by (intro failed [of e]) (simp add: cast_membership_vote_def s_def)
next
  case valid: (Inr u)
  show ?thesis
  proof (cases "st_membership_vote_lock s \<in> {None, Some (mp_digest p)}")
    case False
    then show ?thesis using valid
      by (intro failed [of WireProtocol]) (auto simp: cast_membership_vote_def s_def Let_def split: option.split)
  next
    case lock: True
    then have chk: "(case st_membership_vote_lock s of None \<Rightarrow> False | Some locked \<Rightarrow> locked \<noteq> mp_digest p) = False"
      by auto
    have eq: "cast_membership_vote E K disk r p =
        (case try_commit_membership_proposal E K disk (r\<lparr>rt_state := s'\<rparr>) p of
           Inl error \<Rightarrow> (Err error, r)
         | Inr (Some certificate, r') \<Rightarrow> (Ok (vote, Some certificate), r')
         | Inr (None, r') \<Rightarrow>
             (case persist disk r' of Inl error \<Rightarrow> (Err error, r) | Inr r'' \<Rightarrow> (Ok (vote, None), r'')))"
      using valid chk unfolding cast_membership_vote_def Let_def s'_def vote_def s_def by (simp only: sum.case if_False)
    show ?thesis
    proof (cases "try_commit_membership_proposal E K disk (r\<lparr>rt_state := s'\<rparr>) p")
      case (Inl e) then show ?thesis by (intro failed [of e]) (simp add: eq)
    next
      case tr: (Inr cr)
      obtain co r1 where cr: "cr = (co, r1)" by force
      show ?thesis
      proof (cases co)
        case (Some cert)
        then show ?thesis using valid lock tr cr by (intro commit [of cert r1]) (simp_all add: eq)
      next
        case None
        then have r1: "r1 = r\<lparr>rt_state := s'\<rparr>"
          using tr cr by (auto simp: try_commit_membership_proposal_def Let_def split: if_splits)
        show ?thesis
        proof (cases "persist disk r1")
          case (Inl e) then show ?thesis using tr cr None by (intro failed [of e]) (simp add: eq)
        next
          case (Inr r2) then show ?thesis using valid lock tr cr None r1 by (intro locked [of r2]) (simp_all add: eq)
        qed
      qed
    qed
  qed
qed

lemma state_ok_cast:
  assumes ok: "state_ok E C V r0 v s" and p: "mp_membership_generation p = st_membership_generation s"
    and lock: "st_membership_vote_lock s \<in> {None, Some (mp_digest p)}"
    and m: "m = \<lparr>mv_proposal = p, mv_sender = st_self_slot s\<rparr>"
  shows "state_ok E C (insert m V) r0 v (s\<lparr>st_membership_vote_lock := Some (mp_digest p),
    st_membership_votes := (st_membership_votes s)[slot_index (st_self_slot s) := Some (mp_digest p)]\<rparr>)"
proof -
  let ?s = "s\<lparr>st_membership_vote_lock := Some (mp_digest p)\<rparr>"
  note ok = ok [unfolded state_ok_def]
  have "state_wf E v ?s" using ok by (simp add: state_wf_def)
  moreover have "chain_ok E C (insert m V) r0 ?s"
    using ok justified_mono [of E C V r0 _ C "insert m V"] by (auto simp: chain_ok_def)
  moreover have "votes_ok (insert m V) ?s" using ok unfolding votes_ok_def by fastforce
  moreover have "own_votes_ok (insert m V) v ?s" using ok lock m p unfolding own_votes_ok_def by auto
  ultimately have "state_ok E C (insert m V) r0 v ?s" using ok by (simp add: state_ok_def)
  from state_ok_voted [OF this, of m p] show ?thesis by (simp add: m p)
qed

lemma rules_vote:
  assumes rules: "voting_rules C V" and ok: "state_ok E C V r0 v s"
    and p: "mp_membership_generation p = st_membership_generation s" "mp_effective_nonce p = hr_nonce (rs_round_id (st_round s))"
    and lock: "st_membership_vote_lock s \<in> {None, Some (mp_digest p)}"
    and boundary: "rs_confirmations (st_round s) ! v = None"
    and m: "m = \<lparr>mv_proposal = p, mv_sender = st_self_slot s\<rparr>"
  shows "voting_rules C (insert m V)"
proof -
  have "mp_digest (mv_proposal m') = mp_digest p"
    if "m' \<in> V" "mv_sender m' = st_self_slot s" "mp_membership_generation (mv_proposal m') = mp_membership_generation p" for m'
    using own_vote(2) [OF ok that(1)] that lock p state_okD(1) [OF ok] by auto
  then have "single_vote (insert m V)"
    using rules m unfolding voting_rules_def single_vote_def by (metis HaMembershipVote.select_convs insert_iff)
  moreover have "hf_sender c = st_self_slot s \<Longrightarrow> hr_nonce (hf_round_id c) \<noteq> mp_effective_nonce p" if "c \<in> C" for c
    using own_confirmation(2) [OF ok that] boundary p(2) state_okD(1) [OF ok] by auto
  then have "confirmed_before_votes C (insert m V)"
    using rules m unfolding voting_rules_def confirmed_before_votes_def by auto
  ultimately show ?thesis using rules unfolding voting_rules_def by blast
qed

lemma cast_ok:
  assumes ok: "runtime_ok E C V r0 v r" and rules: "voting_rules C V"
    and boundary: "rs_confirmations (st_round (rt_state r)) ! v = None"
    and free: "collision_free C (V \<union> emitted_votes (fst (cast_membership_vote E K disk r p)))"
  shows "runtime_ok E C (V \<union> emitted_votes (fst (cast_membership_vote E K disk r p))) r0 v (snd (cast_membership_vote E K disk r p))
    \<and> voting_rules C (V \<union> emitted_votes (fst (cast_membership_vote E K disk r p)))
    \<and> (\<forall>m \<in> emitted_votes (fst (cast_membership_vote E K disk r p)). slot_index (mv_sender m) = v)"
proof -
  let ?s = "rt_state r"
  define m where "m = \<lparr>mv_proposal = p, mv_sender = st_self_slot ?s\<rparr>"
  define s' where "s' = ?s\<lparr>st_membership_vote_lock := Some (mp_digest p),
    st_membership_votes := (st_membership_votes ?s)[slot_index (st_self_slot ?s) := Some (mp_digest p)]\<rparr>"
  note s = runtime_okD(1) [OF ok]
  obtain x where x: "rt_store r = Some x" using runtime_okD [OF ok] by blast
  have sender: "slot_index (mv_sender m) = v" using state_okD(1) [OF s] by (simp add: m_def)
  have lock: "state_ok E C (insert m V) r0 v s'" "voting_rules C (insert m V)"
    if "validate_membership_proposal E K ?s p = Ok ()" "st_membership_vote_lock ?s \<in> {None, Some (mp_digest p)}"
    using proposal_scope [OF that(1)] that(2)
      state_ok_cast [OF s _ _ m_def] rules_vote [OF rules s _ _ _ boundary m_def] by (simp_all add: s'_def)
  show ?thesis
  proof (cases rule: cast_vote_cases [of E K disk r p])
    case (failed e) then show ?thesis using ok rules by (simp add: emitted_votes_def)
  next
    case (commit cert r')
    have e: "emitted_votes (fst (cast_membership_vote E K disk r p)) = {m}" "snd (cast_membership_vote E K disk r p) = r'"
      using commit(3) by (simp_all add: emitted_votes_def m_def)
    have "rs_confirmations (st_round s') ! v = None" using boundary by (simp add: s'_def)
    moreover have "mv_proposal m = p" by (simp add: m_def)
    moreover have "collision_free C (insert m V)" using free e by simp
    ultimately have "runtime_ok E C (insert m V) r0 v r'"
      using try_commit_ok [of E C "insert m V" r0 v "r\<lparr>rt_state := s'\<rparr>" x m p K disk cert r'] lock(1) [OF commit(1,2)] x commit(4)
      by (simp add: s'_def)
    then show ?thesis using e lock(2) [OF commit(1,2)] sender by simp
  next
    case (locked r')
    have e: "emitted_votes (fst (cast_membership_vote E K disk r p)) = {m}" "snd (cast_membership_vote E K disk r p) = r'"
      using locked(3) by (simp_all add: emitted_votes_def m_def)
    have "runtime_ok E C (insert m V) r0 v r'"
      using runtime_ok_persist(1) [OF locked(4) x] lock(1) [OF locked(1,2)] by (simp add: s'_def)
    then show ?thesis using e lock(2) [OF locked(1,2)] sender by simp
  qed
qed


section \<open>The invariant of the system\<close>

lemma vote_ok:
  assumes ok: "runtime_ok E C V r0 v r" and rules: "voting_rules C V"
    and call: "f = vote_to_suspend E K disk r slot \<or> f = vote_to_reactivate E K disk r slot nonce"
    and free: "collision_free C (V \<union> emitted_votes (fst f))"
  shows "runtime_ok E C (V \<union> emitted_votes (fst f)) r0 v (snd f) \<and> voting_rules C (V \<union> emitted_votes (fst f))
    \<and> (\<forall>m \<in> emitted_votes (fst f). slot_index (mv_sender m) = v)"
proof -
  note s = runtime_okD(1) [OF ok]
  consider e where "f = (Err e, r)" | p where "require_epoch_boundary (rt_state r) = Ok ()" "f = cast_membership_vote E K disk r p"
    using call by (auto simp: vote_to_suspend_def vote_to_reactivate_def Let_def split: sum.splits)
  then show ?thesis
  proof cases
    case 1 then show ?thesis using ok rules by (simp add: emitted_votes_def)
  next
    case (2 p)
    have "rs_confirmations (st_round (rt_state r)) ! v = None"
      using boundary_empty [OF 2(1)] state_okD(2,3) [OF s] by simp
    then show ?thesis using cast_ok [OF ok rules _ free [unfolded 2(2)]] 2(2) by blast
  qed
qed

lemma node_step_ok:
  assumes "node_step E K C V r C' V' r'" and ok: "runtime_ok E C V r0 v r" and rules: "voting_rules C V"
    and range: "nonce_in_range r'" and free: "collision_free (C \<union> C') (V \<union> V')"
  shows "runtime_ok E (C \<union> C') (V \<union> V') r0 v r' \<and> voting_rules (C \<union> C') (V \<union> V')
    \<and> (\<forall>c \<in> C'. slot_index (hf_sender c) = v) \<and> (\<forall>m \<in> V'. slot_index (mv_sender m) = v)"
  using assms(1)
proof cases
  case (confirm disk)
  then show ?thesis using confirm_ok [OF ok rules, of K disk] range by simp
next
  case (suspend disk slot)
  then show ?thesis using vote_ok [OF ok rules disjI1, of _ K disk slot] free by simp
next
  case (reactivate disk slot nonce)
  then show ?thesis using vote_ok [OF ok rules disjI2, of _ K disk slot nonce] free by simp
next
  case (confirmed c disk)
  then show ?thesis using confirmed_ok [OF ok] range rules by simp
next
  case (voted m disk)
  then show ?thesis using voted_ok [OF ok] free rules by simp
next
  case (restart p)
  then show ?thesis using ok rules by (auto simp: runtime_ok_def)
qed (use ok rules dispatch_ok acknowledge_ok amend_ok in simp_all)

definition system_ok :: "crypto \<Rightarrow> HaRoundId \<Rightarrow> nat \<Rightarrow> ha_system \<Rightarrow> bool" where
  "system_ok E r0 n y \<longleftrightarrow> voting_rules (sys_confirms y) (sys_votes y)
    \<and> (\<forall>v < n. runtime_ok E (sys_confirms y) (sys_votes y) r0 v (sys_nodes y v))"

lemma collision_free_subset: "collision_free C V \<Longrightarrow> C' \<subseteq> C \<Longrightarrow> V' \<subseteq> V \<Longrightarrow> collision_free C' V'"
  unfolding collision_free_def by blast

lemma ha_step_ok:
  assumes "ha_step E K n y z" "system_ok E r0 n y" "collision_free (sys_confirms z) (sys_votes z)"
  shows "system_ok E r0 n z"
  using assms(1)
proof cases
  case (1 v C' V' r')
  let ?C = "sys_confirms y" and ?V = "sys_votes y"
  have node: "runtime_ok E (?C \<union> C') (?V \<union> V') r0 v r'" "voting_rules (?C \<union> C') (?V \<union> V')"
    "\<forall>c \<in> C'. slot_index (hf_sender c) = v" "\<forall>m \<in> V'. slot_index (mv_sender m) = v"
    using node_step_ok [OF 1(3)] assms(2,3) 1 unfolding system_ok_def by auto
  have "runtime_ok E (?C \<union> C') (?V \<union> V') r0 u (sys_nodes y u)" if "u < n" "u \<noteq> v" for u
    using assms(2) that node(3,4) unfolding system_ok_def by (intro runtime_ok_others) auto
  then show ?thesis using node(1,2) 1(1) by (simp add: system_ok_def)
qed

lemma create_ok:
  assumes create: "runtime_create E disk True g key nodes params = Ok r" and v: "slot_index (st_self_slot (rt_state r)) = v"
    and members: "member_slots_new E nodes = Ok members" and n: "v < length nodes"
  shows "runtime_ok E {} {} (round_extending E (rt_state r) (epoch_genesis E g members params)) v r"
    "rs_round_id (st_round (rt_state r)) = round_extending E (rt_state r) (epoch_genesis E g members params)"
    "st_group_id (rt_state r) = g" "st_members (rt_state r) = members" "st_membership_generation (rt_state r) = 0"
    "st_parameters (rt_state r) = params"
proof -
  let ?g = "epoch_genesis E g members params"
  let ?state = "\<lambda>slot t. \<lparr>st_group_id = g, st_self_slot = slot, st_members = members,
            st_membership_generation = 0, st_parameters = params, st_checkpoint = None,
            st_epochs = [?g], st_round = t, st_presence = presence_default,
            st_membership_vote_lock = None, st_membership_votes = replicate MAX_HA_NODES None,
            st_membership_changes = [], st_amendments = []\<rparr>"
  obtain slot t where s: "persist disk \<lparr>rt_store = Some None, rt_state = ?state slot t\<rparr> = Ok r"
    and t: "round_state_new E (round_extending E (?state slot t) ?g) members = Ok t"
    using create members by (auto simp: runtime_create_def Let_def round_extending_def)
  let ?s = "?state slot t"
  have r: "r = \<lparr>rt_store = Some (Some ?s), rt_state = ?s\<rparr>" using persist_Ok [OF s] by simp
  note t = round_state_new_Ok [OF t]
  have "v < 7" using members n by (auto simp: member_slots_new_def MAX_HA_NODES_def Let_def split: if_splits)
  then have "state_wf E v ?s" using t v by (simp add: state_wf_def r st_head_def MAX_HA_NODES_def round_extending_def)
  moreover have "chain_ok E {} {} (round_extending E ?s ?g) ?s"
    unfolding chain_ok_def by (intro exI [of _ "[]"]) (simp add: justified.start t(1) epoch_keys_def round_extending_def)
  moreover have "votes_ok {} ?s" by (simp add: votes_ok_def MAX_HA_NODES_def)
  ultimately have "state_ok E {} {} (round_extending E ?s ?g) v ?s"
    using fresh_round_ok [OF t(2,3)] by (simp add: state_ok_def own_confirms_ok_def own_votes_ok_def)
  then show "runtime_ok E {} {} (round_extending E (rt_state r) ?g) v r" by (simp add: runtime_ok_def r)
  show "rs_round_id (st_round (rt_state r)) = round_extending E (rt_state r) ?g"
    "st_group_id (rt_state r) = g" "st_members (rt_state r) = members" "st_membership_generation (rt_state r) = 0"
    "st_parameters (rt_state r) = params"
    by (simp_all add: r t(1) round_extending_def)
qed

lemma initial_ok:
  assumes "ha_initial E g nodes params y"
  shows "\<exists>r0. system_ok E r0 (length nodes) y"
proof (cases "member_slots_new E nodes")
  case (Inl e)
  then have "length nodes = 0"
    using assms by (auto simp: ha_initial_def runtime_create_def Let_def gr0_conv_Suc)
  then show ?thesis using assms
    by (auto simp: system_ok_def ha_initial_def voting_rules_def single_confirmation_def single_vote_def confirmed_before_votes_def)
next
  case (Inr members)
  define r0 where "r0 = \<lparr>hr_group_id = g, hr_fixed_membership_hash = hm_fixed_identity_hash members,
    hr_membership_generation = 0, hr_active_mask = hm_active_mask members,
    hr_parameters_hash = ha_parameters_hash E params, hr_previous_epoch_hash = ep_hash (epoch_genesis E g members params),
    hr_previous_epoch_nonce = ep_nonce (epoch_genesis E g members params),
    hr_nonce = new_next (ep_nonce (epoch_genesis E g members params)), hr_round = 0\<rparr>"
  have "runtime_ok E {} {} r0 v (sys_nodes y v)" if "v < length nodes" for v
  proof -
    obtain disk key where "runtime_create E disk True g key nodes params = Ok (sys_nodes y v)"
      "slot_index (st_self_slot (rt_state (sys_nodes y v))) = v"
      using assms \<open>v < length nodes\<close> unfolding ha_initial_def by blast
    note c = create_ok [OF this Inr that]
    show ?thesis using c(1) by (simp add: round_extending_def c(3-6) r0_def)
  qed
  then show ?thesis using assms
    by (intro exI [of _ r0]) (simp add: system_ok_def ha_initial_def voting_rules_def single_confirmation_def
        single_vote_def confirmed_before_votes_def)
qed

lemma reachable_ok:
  assumes "ha_reachable E K g nodes params y" "collision_free (sys_confirms y) (sys_votes y)"
  shows "\<exists>r0. system_ok E r0 (length nodes) y"
  using assms
proof induction
  case (init y)
  then show ?case using initial_ok by blast
next
  case (step y z)
  have "sys_confirms y \<subseteq> sys_confirms z" "sys_votes y \<subseteq> sys_votes z"
    using step.hyps(2) by (auto elim: ha_step.cases)
  then have "collision_free (sys_confirms y) (sys_votes y)" using step.prems collision_free_subset by blast
  with step show ?case using ha_step_ok by blast
qed

end
