(* ===== verification/HaOrder.thy ===== *)
theory HaOrder
  imports HaProtocol
begin

text \<open>The order in which an epoch executes the blocks of its candidate.\<close>

definition slot_key :: "HaCandidate \<Rightarrow> nat \<Rightarrow> HashType \<times> nat" where
  "slot_key c i = (hc_block_hashes c ! i, i)"

definition included_slots :: "HaCandidate \<Rightarrow> nat list" where
  "included_slots c = filter (mask_has (hc_included_mask c)) [0..<MAX_HA_NODES]"

lemma slot_key_inj: "inj (slot_key c)"
  by (auto simp: slot_key_def inj_def)

lemma insort_slot_last: "\<forall>a \<in> set A. f a < f x \<Longrightarrow> insort_key f x A = A @ [x]"
  by (induction A) auto

lemma insort_slot_before: "f x < f b \<Longrightarrow> \<forall>a \<in> set A. f a < f b \<Longrightarrow> insort_key f x (A @ [b]) = insort_key f x A @ [b]"
  by (induction A) auto

lemma sort_key_snoc:
  assumes "inj f" "x \<notin> set xs"
  shows "sort_key f (xs @ [x]) = insort_key f x (sort_key f xs)"
proof -
  have "foldr (insort_key f) xs (insort_key f x ys) = insort_key f x (foldr (insort_key f) xs ys)" for ys
    using assms(2)
  proof (induction xs)
    case (Cons a xs)
    then have "f a \<noteq> f x" using assms(1) by (auto dest: injD)
    then show ?case using Cons insort_key_left_comm [of f a x] by simp
  qed simp
  from this [of "[]"] show ?thesis by (simp add: sort_key_def)
qed

lemma slot_word_less: "a < 7 \<Longrightarrow> unat (of_nat a :: u8) = a"
  by (simp add: unat_of_nat take_bit_eq_mod)

lemma slot_word_le: "a < 7 \<Longrightarrow> b < 7 \<Longrightarrow> (of_nat a :: u8) \<le> of_nat b \<longleftrightarrow> a \<le> b"
  by (simp add: word_le_nat_alt slot_word_less)

text \<open>The inner loop inserts one slot into the sorted prefix.\<close>

lemma shift_slots_insert:
  fixes y :: u8 and rest :: "u8 list"
  assumes "sorted_wrt (\<lambda>a b. slot_key c a < slot_key c b) A" "\<forall>a \<in> set A. a < i" "i < 7"
  shows "case shift_slots (hc_block_hashes c) i (length A) (map of_nat A @ y # rest) of
    (pos, slots) \<Rightarrow> slots[pos := of_nat i] = map of_nat (insort_key (slot_key c) i A) @ rest"
  using assms
proof (induction A arbitrary: y rest rule: rev_induct)
  case (snoc b B)
  let ?slots = "map of_nat (B @ [b]) @ y # rest"
  have b: "b < 7" "?slots ! length B = of_nat b" "unat (of_nat b :: u8) = b"
    using snoc.prems by (auto simp: nth_append slot_word_less)
  have below: "\<forall>a \<in> set B. slot_key c a < slot_key c b" using snoc.prems(1) by (simp add: sorted_wrt_append)
  have stop: "(hc_block_hashes c ! i > hc_block_hashes c ! b \<or> hc_block_hashes c ! i = hc_block_hashes c ! b \<and> of_nat i \<ge> (of_nat b :: u8))
      \<longleftrightarrow> slot_key c b < slot_key c i"
    using snoc.prems b(1) by (auto simp: slot_key_def slot_word_le)
  show ?case
  proof (cases "slot_key c b < slot_key c i")
    case True
    moreover have "\<forall>a \<in> set (B @ [b]). slot_key c a < slot_key c i" using below True by force
    ultimately show ?thesis using stop b by (simp add: insort_slot_last nth_append list_update_append)
  next
    case False
    have "i \<noteq> b" using snoc.prems(2) by auto
    then have less: "slot_key c i < slot_key c b" using False by (metis linorder_neqE injD [OF slot_key_inj])
    have "shift_slots (hc_block_hashes c) i (length (B @ [b])) ?slots
        = shift_slots (hc_block_hashes c) i (length B) (map of_nat B @ of_nat b # of_nat b # rest)"
      using stop False b by (auto simp add: Let_def nth_append list_update_append)
    moreover have "case shift_slots (hc_block_hashes c) i (length B) (map of_nat B @ of_nat b # of_nat b # rest) of
        (pos, slots) \<Rightarrow> slots[pos := of_nat i] = map of_nat (insort_key (slot_key c) i B) @ of_nat b # rest"
      using snoc.prems by (intro snoc.IH) (auto simp: sorted_wrt_append)
    ultimately show ?thesis using less below by (simp add: insort_slot_before)
  qed
qed simp

lemma included_sorted:
  "sorted_wrt (\<lambda>a b. slot_key c a < slot_key c b) (sort_key (slot_key c) xs)" if "distinct xs"
proof -
  have "sorted (map (slot_key c) (sort_key (slot_key c) xs))" by simp
  moreover have "distinct (map (slot_key c) (sort_key (slot_key c) xs))"
    using that slot_key_inj [of c] by (simp add: distinct_map inj_on_def inj_def)
  ultimately have "sorted_wrt (<) (map (slot_key c) (sort_key (slot_key c) xs))" by (simp only: strict_sorted_iff)
  then show ?thesis by (simp add: sorted_wrt_map)
qed

lemma ordered_slots_loop:
  fixes c :: HaCandidate and k :: nat
  assumes "k \<le> 7"
  defines "loop \<equiv> fold (\<lambda>index result.
      if \<not> mask_has (hc_included_mask c) index then result
      else let (pos, slots) = shift_slots (hc_block_hashes c) index (unat (os_len result)) (os_slots result)
           in \<lparr>os_len = os_len result + 1, os_slots = slots[pos := of_nat index]\<rparr>) [0..<k] ordered_slots_default"
    and "L \<equiv> sort_key (slot_key c) (filter (mask_has (hc_included_mask c)) [0..<k])"
  shows "os_len loop = of_nat (length L) \<and> (\<exists>rest. os_slots loop = map of_nat L @ rest \<and> length (os_slots loop) = 7)"
  unfolding loop_def L_def using assms(1)
proof (induction k)
  case 0
  then show ?case by (simp add: ordered_slots_default_def MAX_HA_NODES_def)
next
  case (Suc k)
  let ?L = "sort_key (slot_key c) (filter (mask_has (hc_included_mask c)) [0..<k])"
  let ?f = "\<lambda>index result. if \<not> mask_has (hc_included_mask c) index then result
      else let (pos, slots) = shift_slots (hc_block_hashes c) index (unat (os_len result)) (os_slots result)
           in \<lparr>os_len = os_len result + 1, os_slots = slots[pos := of_nat index]\<rparr>"
  let ?r = "fold ?f [0..<k] ordered_slots_default"
  obtain rest where r: "os_len ?r = of_nat (length ?L)" "os_slots ?r = map of_nat ?L @ rest" "length (map of_nat ?L @ rest) = 7"
    using Suc by auto
  have len: "length ?L \<le> k" using length_filter_le [of _ "[0..<k]"] by simp
  show ?case
  proof (cases "mask_has (hc_included_mask c) k")
    case True
    obtain y tail where rest: "rest = y # tail" using r(3) len Suc.prems by (cases rest) auto
    have n: "unat (os_len ?r) = length ?L" using r(1) len Suc.prems by (simp add: slot_word_less)
    obtain pos slots where shift: "shift_slots (hc_block_hashes c) k (length ?L) (map of_nat ?L @ y # tail) = (pos, slots)"
      by (rule prod.exhaust)
    have k: "\<forall>a \<in> set ?L. a < k" "k < 7" "distinct (filter (mask_has (hc_included_mask c)) [0..<k])"
      using Suc.prems by simp_all
    have "slots[pos := of_nat k] = map of_nat (insort_key (slot_key c) k ?L) @ tail"
      using shift_slots_insert [where y = y and rest = tail, OF included_sorted [OF k(3)] k(1,2)] shift
      by (simp only: prod.case)
    moreover have "fold ?f [0..<Suc k] ordered_slots_default = \<lparr>os_len = os_len ?r + 1, os_slots = slots[pos := of_nat k]\<rparr>"
      using True shift n r(2) rest by simp
    moreover have "sort_key (slot_key c) (filter (mask_has (hc_included_mask c)) [0..<Suc k]) = insort_key (slot_key c) k ?L"
      using True sort_key_snoc [OF slot_key_inj, of k "filter _ [0..<k]"] by simp
    ultimately show ?thesis using r rest by simp
  qed (use r in auto)
qed

text \<open>C20: the insertion sort that orders the blocks of a finalized candidate yields the included slots in the order
  of their block hashes, slots with equal hashes by slot number: a total order that every member
  derives from the candidate alone.\<close>

theorem ordered_slots_sorts:
  "os_as_slice (ordered_slots c) = map of_nat (sort_key (slot_key c) (included_slots c))"
proof -
  let ?L = "sort_key (slot_key c) (included_slots c)"
  obtain rest where "os_len (ordered_slots c) = of_nat (length ?L)" "os_slots (ordered_slots c) = map of_nat ?L @ rest"
    using ordered_slots_loop [of 7 c] by (auto simp: ordered_slots_def MAX_HA_NODES_def included_slots_def)
  moreover have "length ?L < 8" using length_filter_le [of "mask_has (hc_included_mask c)" "[0..<7]"]
    by (simp add: included_slots_def MAX_HA_NODES_def)
  ultimately show ?thesis by (simp add: os_as_slice_def unat_of_nat take_bit_eq_mod)
qed

end
