(* ===== verification/HaLiveness.thy ===== *)
theory HaLiveness
  imports HaRuntime HaOrder
begin

text \<open>
  Progress of a high-availability round. The members of a live majority exchange their blocks,
  acknowledgements and confirmations, each member in an order of its own, and every one of them
  finalizes the same epoch.
\<close>

section \<open>A live majority\<close>

definition mask_of :: "nat set \<Rightarrow> u8" where
  "mask_of L = fold (\<lambda>i w. if i \<in> L then w OR push_bit i 1 else w) [0..<7] 0"

definition live_hashes :: "(nat \<Rightarrow> Block) \<Rightarrow> nat set \<Rightarrow> HashType list" where
  "live_hashes block L = map (\<lambda>i. if i \<in> L then block_hash (block i) else default_hash) [0..<7]"

definition member_slot :: "nat \<Rightarrow> HaMemberSlot" where
  "member_slot i = HaMemberSlot (of_nat i)"

definition live_dispatch :: "HaRoundId \<Rightarrow> (nat \<Rightarrow> Block) \<Rightarrow> nat \<Rightarrow> HaDispatch" where
  "live_dispatch rid block i = \<lparr>hd_round_id = rid, hd_sender = member_slot i, hd_block_hash = block_hash (block i),
    hd_block = block i\<rparr>"

definition live_ack :: "HaRoundId \<Rightarrow> (nat \<Rightarrow> Block) \<Rightarrow> nat set \<Rightarrow> nat \<Rightarrow> HaAcknowledge" where
  "live_ack rid block L i = \<lparr>ha_round_id = rid, ha_sender = member_slot i, ha_received_mask = mask_of L,
    ha_block_hashes = live_hashes block L\<rparr>"

definition live_candidate :: "crypto \<Rightarrow> HaRoundId \<Rightarrow> (nat \<Rightarrow> Block) \<Rightarrow> nat set \<Rightarrow> HaCandidate" where
  "live_candidate E rid block L = candidate_from_round E rid (mask_of L) (mask_of L) (live_hashes block L)"

definition live_confirm :: "crypto \<Rightarrow> HaRoundId \<Rightarrow> (nat \<Rightarrow> Block) \<Rightarrow> nat set \<Rightarrow> nat \<Rightarrow> HaConfirm" where
  "live_confirm E rid block L i = \<lparr>hf_round_id = rid, hf_sender = member_slot i,
    hf_candidate = live_candidate E rid block L\<rparr>"

text \<open>A block that its slot may dispatch in the round, without amendment records.\<close>

definition good_block :: "crypto \<Rightarrow> ha_codec \<Rightarrow> HaMemberSlots \<Rightarrow> HaRoundId \<Rightarrow> nat \<Rightarrow> Block \<Rightarrow> bool" where
  "good_block E K members rid i b \<longleftrightarrow>
    map_option ni_public_key (ha_member members (member_slot i)) = Some (bb_validator (block_body b))
    \<and> bb_last_epoch (block_body b) = hr_previous_epoch_hash rid \<and> bb_nonce (block_body b) = hr_nonce rid
    \<and> verify_unsigned_integrity_with_hash E b (block_hash b) = Ok ()
    \<and> list_all (\<lambda>tx. decode_amendment_transaction K tx = Ok None) (bb_txs (block_body b))"

definition live_round ::
  "crypto \<Rightarrow> ha_codec \<Rightarrow> HaMemberSlots \<Rightarrow> HaRoundId \<Rightarrow> (nat \<Rightarrow> Block) \<Rightarrow> nat set \<Rightarrow> bool" where
  "live_round E K members rid block L \<longleftrightarrow>
    member_slots_validate E members = Ok () \<and> round_validate_for rid members = Ok ()
    \<and> L \<subseteq> {..<7} \<and> ha_majority members \<le> card L
    \<and> (\<forall>i \<in> L. is_active members (member_slot i) \<and> good_block E K members rid i (block i))"

text \<open>The state of the round at a member that has the blocks \<open>R\<close>, the acknowledgements \<open>A\<close>
  and the confirmations \<open>C\<close>.\<close>

definition live_state ::
  "crypto \<Rightarrow> HaRoundId \<Rightarrow> (nat \<Rightarrow> Block) \<Rightarrow> nat set \<Rightarrow> nat set \<Rightarrow> nat set \<Rightarrow> nat set \<Rightarrow> bool \<Rightarrow> HaRoundState" where
  "live_state E rid block L R A C locked = \<lparr>rs_round_id = rid,
    rs_blocks = map (\<lambda>i. if i \<in> R then Some (block i) else None) [0..<7],
    rs_block_hashes = live_hashes block R, rs_received_mask = mask_of R,
    rs_acknowledgements = map (\<lambda>i. if i \<in> A then mask_of L else 0) [0..<7],
    rs_confirmations = map (\<lambda>i. if i \<in> C then Some (hc_digest (live_candidate E rid block L)) else None) [0..<7],
    rs_confirmed_candidate = (if locked then Some (hc_digest (live_candidate E rid block L)) else None),
    rs_finalized = None\<rparr>"


section \<open>Facts on masks and slots\<close>

lemma mask_of_set [simp]: "L \<subseteq> {..<7} \<Longrightarrow> mask_set (mask_of L) = L"
  unfolding mask_of_def by (subst mask_set_fold) auto

lemma mask_of_has [simp]: "L \<subseteq> {..<7} \<Longrightarrow> mask_has (mask_of L) i \<longleftrightarrow> i \<in> L"
  using mask_of_set [of L] by (auto simp: mask_has_bit mask_set_def)

lemma mask_of_insert: "i < 7 \<Longrightarrow> R \<subseteq> {..<7} \<Longrightarrow> mask_of R OR 2 ^ i = mask_of (insert i R)"
  by (simp add: mask_set_inject [symmetric] mask_set_bit)

lemma mask_of_empty [simp]: "mask_of {} = 0"
  by (simp add: mask_set_inject [symmetric])

lemma member_slot_index [simp]: "i < 7 \<Longrightarrow> slot_index (member_slot i) = i"
  by (simp add: slot_index_def member_slot_def unat_of_nat take_bit_eq_mod)

lemma map_upt_update: "i < n \<Longrightarrow> (map f [0..<n])[i := x] = map (f(i := x)) [0..<n]"
  by (auto intro: nth_equalityI simp: nth_list_update)

lemma members_bound:
  assumes "member_slots_validate E m = Ok ()"
  shows "mask_set (hm_active_mask m) \<subseteq> {..<7}" "ha_majority m = high_availability_majority (card (mask_set (hm_active_mask m)))"
    "2 \<le> ha_majority m"
proof -
  let ?n = "unat (hm_member_count m)"
  have n: "?n \<le> 7" "2 \<le> ?n" and sub: "mask_set (hm_active_mask m) \<subseteq> mask_set (low_bits (hm_member_count m))"
    and two: "2 \<le> active_count m"
    using assms by (auto simp: member_slots_validate_def Let_def MIN_HA_NODES_def MAX_HA_NODES_def mask_diff_0_iff split: if_splits)
  have low: "mask_set (low_bits (hm_member_count m)) = {..<?n}" using n by (intro low_bits_set) simp
  show "mask_set (hm_active_mask m) \<subseteq> {..<7}" using sub low n by auto
  have "mask_set (hm_active_mask m AND low_bits (hm_member_count m)) = mask_set (hm_active_mask m)"
    using sub by (auto simp: mask_set_and)
  then have count: "active_count m = card (mask_set (hm_active_mask m))" by (simp add: active_count_def count_ones_card)
  then show "ha_majority m = high_availability_majority (card (mask_set (hm_active_mask m)))" by (simp add: ha_majority_def)
  show "2 \<le> ha_majority m" using two by (simp add: ha_majority_def high_availability_majority_def)
qed

lemma live_roundD:
  assumes "live_round E K members rid block L"
  shows "L \<subseteq> {..<7}" "finite L" "L \<subseteq> mask_set (hr_active_mask rid)" "hr_active_mask rid = hm_active_mask members"
    "ha_majority members \<le> card L" "2 \<le> ha_majority members" "round_validate_for rid members = Ok ()"
    "i \<in> L \<Longrightarrow> is_active members (member_slot i)" "i \<in> L \<Longrightarrow> good_block E K members rid i (block i)"
    "i \<in> L \<Longrightarrow> i < 7"
proof -
  show L: "L \<subseteq> {..<7}" using assms by (simp add: live_round_def)
  then show "finite L" by (rule finite_subset) simp
  show mask: "hr_active_mask rid = hm_active_mask members"
    using assms by (auto simp: live_round_def round_validate_for_def split: if_splits)
  show active: "is_active members (member_slot i)" if "i \<in> L" for i using assms that by (simp add: live_round_def)
  show "L \<subseteq> mask_set (hr_active_mask rid)" using L mask
  proof (intro subsetI)
    fix i assume "i \<in> L"
    then show "i \<in> mask_set (hr_active_mask rid)" using active [of i] L mask by (auto simp: is_active_iff)
  qed
qed (use assms members_bound in \<open>auto simp: live_round_def\<close>)


section \<open>The messages of a live round\<close>

lemma live_state_nth:
  "j < 7 \<Longrightarrow> rs_blocks (live_state E rid block L R A C locked) ! j = (if j \<in> R then Some (block j) else None)"
  "j < 7 \<Longrightarrow> rs_acknowledgements (live_state E rid block L R A C locked) ! j = (if j \<in> A then mask_of L else 0)"
  "j < 7 \<Longrightarrow> rs_confirmations (live_state E rid block L R A C locked) ! j
    = (if j \<in> C then Some (hc_digest (live_candidate E rid block L)) else None)"
  "j < 7 \<Longrightarrow> live_hashes block R ! j = (if j \<in> R then block_hash (block j) else default_hash)"
  by (simp_all add: live_state_def live_hashes_def)

lemma live_state_sel [simp]:
  "rs_round_id (live_state E rid block L R A C locked) = rid"
  "rs_received_mask (live_state E rid block L R A C locked) = mask_of R"
  "rs_block_hashes (live_state E rid block L R A C locked) = live_hashes block R"
  "rs_finalized (live_state E rid block L R A C locked) = None"
  "rs_confirmed_candidate (live_state E rid block L R A C locked)
    = (if locked then Some (hc_digest (live_candidate E rid block L)) else None)"
  by (simp_all add: live_state_def)

lemma live_scope:
  "live_round E K members rid block L \<Longrightarrow> i \<in> L \<Longrightarrow> rs_round_id s = rid
    \<Longrightarrow> validate_message_scope s members rid (member_slot i) = Ok ()"
  by (simp add: scope_Ok live_roundD)

lemma live_fresh:
  assumes "live_round E K members rid block L"
  shows "round_state_new E rid members = Ok (live_state E rid block L {} {} {} False)"
  using assms
  by (simp add: round_state_new_def live_round_def live_state_def live_hashes_def MAX_HA_NODES_def map_replicate_const)

lemma live_dispatched:
  assumes "live_round E K members rid block L" "i \<in> L" "R \<subseteq> L" "i \<notin> R"
  shows "round_receive_dispatch E (live_state E rid block L R A C False) members (live_dispatch rid block i)
    = Ok (Accepted, live_state E rid block L (insert i R) A C False)"
proof -
  note live = live_roundD [OF assms(1)]
  have i: "i < 7" "R \<subseteq> {..<7}" using live(10) [OF assms(2)] live(1) assms(3) by auto
  obtain m where m: "ha_member members (member_slot i) = Some m" "ni_public_key m = bb_validator (block_body (block i))"
    using live(9) [OF assms(2)] by (auto simp: good_block_def)
  have blocks: "rs_blocks (live_state E rid block L R A C False) ! i = None" using i assms(4) by (simp add: live_state_def)
  have "(map (\<lambda>j. if j \<in> R then Some (block j) else None) [0..<7])[i := Some (block i)]
      = map (\<lambda>j. if j \<in> insert i R then Some (block j) else None) [0..<7]"
    "(live_hashes block R)[i := block_hash (block i)] = live_hashes block (insert i R)"
    using i by (auto simp: map_upt_update live_hashes_def)
  moreover have "slot_bit (member_slot i) = Ok (push_bit i 1)" using i by (simp add: slot_bit_Ok)
  ultimately show ?thesis
    using live_scope [OF assms(1,2)] m blocks i live(9) [OF assms(2)]
    by (simp add: round_receive_dispatch_def live_dispatch_def good_block_def Let_def mask_of_insert)
      (simp add: live_state_def mask_of_insert)
qed

lemma live_acknowledged:
  assumes "live_round E K members rid block L" "i \<in> L"
  shows "round_receive_acknowledgement (live_state E rid block L L A C locked) members (live_ack rid block L i)
    = Ok (live_state E rid block L L (insert i A) C locked)"
proof -
  let ?s = "live_state E rid block L L A C locked"
  note live = live_roundD [OF assms(1)]
  have i: "i < 7" using live(10) [OF assms(2)] .
  let ?a = "live_ack rid block L i"
  have a: "ha_round_id ?a = rid" "ha_sender ?a = member_slot i" "ha_received_mask ?a = mask_of L"
      "ha_block_hashes ?a = live_hashes block L"
    by (simp_all add: live_ack_def)
  have within: "mask_of L AND NOT (hr_active_mask (rs_round_id ?s)) = 0"
    using live(1,3) by (simp add: mask_diff_0_iff)
  have scan: "try_fold (\<lambda>_ index.
        if mask_has (ha_received_mask ?a) index
        then if rs_blocks ?s ! index = None \<or> ha_block_hashes ?a ! index \<noteq> rs_block_hashes ?s ! index
             then Err WireProtocol else Ok ()
        else if ha_block_hashes ?a ! index \<noteq> default_hash then Err WireProtocol
        else Ok ()) () [0..<MAX_HA_NODES] = Ok ()"
    using live(1) by (intro try_fold_unit) (auto simp: live_state_nth a MAX_HA_NODES_def)
  have grows: "rs_acknowledgements ?s ! i AND NOT (mask_of L) = 0"
    using i live(1) by (simp add: mask_diff_0_iff live_state_nth)
  have upd: "?s\<lparr>rs_acknowledgements := (rs_acknowledgements ?s)[i := mask_of L]\<rparr>
      = live_state E rid block L L (insert i A) C locked"
    using i by (auto simp: live_state_def map_upt_update)
  show ?thesis
    unfolding round_receive_acknowledgement_def Let_def scan using live_scope [OF assms, of ?s] i within grows upd
    by (simp add: a)
qed

lemma live_acknowledge:
  assumes "live_round E K members rid block L" "i \<in> L"
  shows "round_acknowledge (live_state E rid block L L A C locked) members (member_slot i)
    = Ok (live_ack rid block L i, live_state E rid block L L (insert i A) C locked)"
proof -
  have "masked_hashes (mask_of L) (live_hashes block L) = live_hashes block L"
    using live_roundD(1) [OF assms(1)] by (simp add: masked_hashes_def live_hashes_def MAX_HA_NODES_def)
  then show ?thesis
    using live_acknowledged [OF assms] live_roundD(8) [OF assms]
    by (simp add: round_acknowledge_def validate_sender_def Let_def live_ack_def live_state_def)
qed

lemma live_available:
  assumes "live_round E K members rid block L"
  shows "available_mask (live_state E rid block L L L C locked) members = mask_of L"
    "certified_presence_candidate_mask (live_state E rid block L L L C locked) members = mask_of L"
proof -
  let ?s = "live_state E rid block L L L C locked"
  note live = live_roundD [OF assms]
  have acks: "{j. j < 7 \<and> j \<in> mask_set (hr_active_mask (rs_round_id ?s)) \<and> i \<in> mask_set (rs_acknowledgements ?s ! j)} = L"
    if "i \<in> L" for i
    using live(1,3,10) that by (auto simp: live_state_nth split: if_splits)
  have received: "mask_set (rs_received_mask ?s) = L" using live(1) by (simp add: live_state_def)
  have "mask_set (available_mask ?s members) = L"
    unfolding available_mask_set received using acks live(1,5) by auto
  then show available: "available_mask ?s members = mask_of L" using live(1) by (simp add: mask_set_inject [symmetric])
  have "mask_of L \<noteq> 0" using live(1,2,5,6) by (auto simp: mask_eq_0_iff)
  then have "mask_set (certified_presence_candidate_mask ?s members) = L"
    unfolding presence_mask_set available using live(1,3,10) by (auto simp: live_state_nth split: if_splits)
  then show "certified_presence_candidate_mask ?s members = mask_of L" using live(1) by (simp add: mask_set_inject [symmetric])
qed

definition live_finalized :: "crypto \<Rightarrow> HaRoundId \<Rightarrow> (nat \<Rightarrow> Block) \<Rightarrow> nat set \<Rightarrow> nat set \<Rightarrow> HaFinalizedRound" where
  "live_finalized E rid block L C = \<lparr>fr_round_id = rid, fr_candidate = live_candidate E rid block L,
    fr_confirmation_mask = mask_of C, fr_presence_mask = mask_of L,
    fr_ordered_slots = ordered_slots (live_candidate E rid block L)\<rparr>"

definition live_confirmed ::
  "crypto \<Rightarrow> HaMemberSlots \<Rightarrow> HaRoundId \<Rightarrow> (nat \<Rightarrow> Block) \<Rightarrow> nat set \<Rightarrow> nat set \<Rightarrow> bool \<Rightarrow> HaRoundState" where
  "live_confirmed E members rid block L C locked =
    (if card C < ha_majority members then live_state E rid block L L L C locked
     else (live_state E rid block L L L C True)\<lparr>rs_finalized := Some (live_finalized E rid block L C)\<rparr>)"

lemma live_candidate_valid:
  assumes "live_round E K members rid block L"
  shows "candidate_validate E (live_candidate E rid block L) rid = Ok ()"
proof -
  note live = live_roundD [OF assms]
  have "mask_of L \<noteq> 0" using live(1,2,5,6) by (auto simp: mask_eq_0_iff)
  then show ?thesis
    using live(1,3)
    by (auto simp: candidate_validate_def live_candidate_def candidate_from_round_def mask_diff_0_iff
        list_ex_iff MAX_HA_NODES_def live_hashes_def)
qed

lemma live_receive_confirmation:
  assumes "live_round E K members rid block L" "i \<in> L" "C \<subseteq> L" "i \<notin> C"
  shows "round_receive_confirmation E (live_state E rid block L L L C locked) members (live_confirm E rid block L i)
    = Ok (rs_finalized (live_confirmed E members rid block L (insert i C) locked),
        live_confirmed E members rid block L (insert i C) locked)"
proof -
  let ?s = "live_state E rid block L L L C locked" and ?cand = "live_candidate E rid block L"
  let ?t = "live_state E rid block L L L (insert i C) locked"
  note live = live_roundD [OF assms(1)]
  have i: "i < 7" using live(10) [OF assms(2)] .
  have C: "insert i C \<subseteq> {..<7}" "insert i C \<subseteq> L" using assms(2,3) live(1) by auto
  have hashes: "\<not> list_ex (\<lambda>j. mask_has (hc_included_mask ?cand) j \<and> hc_block_hashes ?cand ! j \<noteq> rs_block_hashes ?s ! j) [0..<7]"
    by (simp add: list_ex_iff live_candidate_def candidate_from_round_def live_state_def)
  have none: "rs_confirmations ?s ! i = None" using i assms(4) by (simp add: live_state_def)
  have upd: "?s\<lparr>rs_confirmations := (rs_confirmations ?s)[i := Some (hc_digest ?cand)]\<rparr> = ?t"
    using i by (auto simp: live_state_def map_upt_update)
  have "mask_set (confirmation_mask_for ?t (hc_digest ?cand)) = insert i C"
    unfolding confirmation_mask_set using C live(3) by (auto simp: live_state_nth split: if_splits)
  then have confirmations: "confirmation_mask_for ?t (hc_digest ?cand) = mask_of (insert i C)"
    using C(1) by (simp add: mask_set_inject [symmetric])
  have count: "count_ones (mask_of (insert i C)) = card (insert i C)" using C(1) by (simp add: count_ones_card)
  have cand: "hc_included_mask ?cand = mask_of L" "hc_presence_mask ?cand = mask_of L"
    by (simp_all add: live_candidate_def candidate_from_round_def)
  have true: "(live_state E rid block L L L (insert i C) locked)\<lparr>rs_confirmed_candidate := Some (hc_digest ?cand)\<rparr>
      = live_state E rid block L L L (insert i C) True"
    by (simp add: live_state_def)
  have "round_receive_confirmation E ?s members (live_confirm E rid block L i) =
    (if ha_majority members \<le> count_ones (confirmation_mask_for ?t (hc_digest ?cand))
     then Ok (Some (live_finalized E rid block L (insert i C)), ?t
       \<lparr>rs_confirmed_candidate := Some (hc_digest ?cand), rs_finalized := Some (live_finalized E rid block L (insert i C))\<rparr>)
     else Ok (None, ?t))"
    using live_scope [OF assms(1,2), of ?s] live_candidate_valid [OF assms(1)] hashes none i
      live_available(1) [OF assms(1), of C locked]
    by (simp add: round_receive_confirmation_def Let_def live_confirm_def cand upd confirmations MAX_HA_NODES_def
        live_finalized_def)
  then show ?thesis using true unfolding confirmations count by (simp add: live_confirmed_def)
qed

lemma live_round_confirm:
  assumes "live_round E K members rid block L" "i \<in> L" "C \<subseteq> L" "i \<notin> C"
  shows "round_confirm E (live_state E rid block L L L C False) members (member_slot i)
    = Ok (live_confirm E rid block L i, live_confirmed E members rid block L (insert i C) True)"
proof -
  let ?s = "live_state E rid block L L L C False"
  note live = live_roundD [OF assms(1)]
  have "masked_hashes (mask_of L) (live_hashes block L) = live_hashes block L"
    using live(1) by (simp add: masked_hashes_def live_hashes_def MAX_HA_NODES_def)
  then have own: "candidate_from_round E (rs_round_id ?s) (rs_received_mask ?s) (certified_presence_candidate_mask ?s members)
      (masked_hashes (rs_received_mask ?s) (rs_block_hashes ?s)) = live_candidate E rid block L"
    by (simp add: live_available [OF assms(1)] live_candidate_def)
  have "mask_of L \<noteq> 0" using live(1,2,5,6) by (auto simp: mask_eq_0_iff)
  moreover have "(live_confirmed E members rid block L (insert i C) False)
      \<lparr>rs_confirmed_candidate := Some (hc_digest (live_candidate E rid block L))\<rparr>
      = live_confirmed E members rid block L (insert i C) True"
    by (simp add: live_confirmed_def live_state_def)
  moreover have "live_confirm E rid block L i
      = \<lparr>hf_round_id = rid, hf_sender = member_slot i, hf_candidate = live_candidate E rid block L\<rparr>"
    by (simp add: live_confirm_def)
  ultimately show ?thesis
    using live_receive_confirmation [OF assms, of False] live(8,10) [OF assms(2)] assms(4)
    unfolding round_confirm_def Let_def own
    by (simp add: validate_sender_def live_available [OF assms(1)] live_state_nth)
qed


section \<open>The calls of a live round\<close>

text \<open>The calls at one member: it dispatches its own block and receives those of the others, then
  acknowledges and receives acknowledgements, then confirms and receives confirmations.\<close>

definition live_ack_step ::
  "HaRoundId \<Rightarrow> (nat \<Rightarrow> Block) \<Rightarrow> nat set \<Rightarrow> nat \<Rightarrow> nat \<Rightarrow> HighAvailabilityRuntime \<Rightarrow> HighAvailabilityRuntime" where
  "live_ack_step rid block L self i r =
    (if i = self then snd (acknowledge (\<lambda>_. True) r) else snd (receive_acknowledgement r (live_ack rid block L i)))"

definition live_confirm_step ::
  "crypto \<Rightarrow> ha_codec \<Rightarrow> HaRoundId \<Rightarrow> (nat \<Rightarrow> Block) \<Rightarrow> nat set \<Rightarrow> nat \<Rightarrow> nat \<Rightarrow> HighAvailabilityRuntime
    \<Rightarrow> HighAvailabilityRuntime" where
  "live_confirm_step E K rid block L self i r =
    (if i = self then snd (confirm E K (\<lambda>_. True) r)
     else snd (receive_confirmation E K (\<lambda>_. True) r (live_confirm E rid block L i)))"

definition live_run ::
  "crypto \<Rightarrow> ha_codec \<Rightarrow> HaRoundId \<Rightarrow> (nat \<Rightarrow> Block) \<Rightarrow> nat set \<Rightarrow> nat \<Rightarrow> Transaction list \<Rightarrow> u128
    \<Rightarrow> nat list \<Rightarrow> nat list \<Rightarrow> nat list \<Rightarrow> HighAvailabilityRuntime \<Rightarrow> HighAvailabilityRuntime" where
  "live_run E K rid block L self txs created dispatches acks confirms r =
    fold (live_confirm_step E K rid block L self) confirms
      (fold (live_ack_step rid block L self) acks
        (fold (\<lambda>i r. snd (receive_dispatch E K r (live_dispatch rid block i))) dispatches
          (snd (build_dispatch_with_created E K r txs created))))"

lemma no_amendments:
  "list_all (\<lambda>tx. decode_amendment_transaction K tx = Ok None) txs
    \<Longrightarrow> try_fold (collect_amendment E K s n) acc txs = Ok acc"
  by (induction txs) (auto simp: collect_amendment_def)

lemma persist_always: "\<exists>r'. persist (\<lambda>_. True) r = Ok r' \<and> rt_state r' = rt_state r"
  by (auto simp: persist_def split: option.splits)

lemma run_dispatches:
  assumes "live_round E K (st_members s) rid block L" "rt_state r = s\<lparr>st_round := live_state E rid block L R {} {} False\<rparr>"
    "set is \<subseteq> L" "distinct is" "R \<subseteq> L" "R \<inter> set is = {}"
  shows "rt_state (fold (\<lambda>i r. snd (receive_dispatch E K r (live_dispatch rid block i))) is r)
    = s\<lparr>st_round := live_state E rid block L (R \<union> set is) {} {} False\<rparr>"
  using assms(2-)
proof (induction "is" arbitrary: r R)
  case (Cons i "is")
  have "list_all (\<lambda>tx. decode_amendment_transaction K tx = Ok None) (bb_txs (block_body (block i)))"
    using live_roundD(9) [OF assms(1), of i] Cons.prems by (simp add: good_block_def)
  then have "rt_state (snd (receive_dispatch E K r (live_dispatch rid block i)))
      = s\<lparr>st_round := live_state E rid block L (insert i R) {} {} False\<rparr>"
    using live_dispatched [OF assms(1), of i R "{}" "{}"] Cons.prems no_amendments
    by (simp add: receive_dispatch_def Let_def validate_amendment_transactions_def) (simp add: live_dispatch_def)
  then show ?case using Cons.IH [of _ "insert i R"] Cons.prems by simp
qed simp

lemma run_acks:
  assumes "live_round E K (st_members s) rid block L" "rt_state r = s\<lparr>st_round := live_state E rid block L L A {} False\<rparr>"
    "set is \<subseteq> L" "st_self_slot s = member_slot self" "self \<in> L"
  shows "rt_state (fold (live_ack_step rid block L self) is r)
    = s\<lparr>st_round := live_state E rid block L L (A \<union> set is) {} False\<rparr>"
  using assms(2,3)
proof (induction "is" arbitrary: r A)
  case (Cons i "is")
  have "rt_state (live_ack_step rid block L self i r) = s\<lparr>st_round := live_state E rid block L L (insert i A) {} False\<rparr>"
  proof (cases "i = self")
    case True
    obtain r' where "persist (\<lambda>_. True) (r\<lparr>rt_state := s\<lparr>st_round := live_state E rid block L L (insert i A) {} False\<rparr>\<rparr>) = Ok r'"
      "rt_state r' = s\<lparr>st_round := live_state E rid block L L (insert i A) {} False\<rparr>"
      using persist_always [of "r\<lparr>rt_state := s\<lparr>st_round := live_state E rid block L L (insert i A) {} False\<rparr>\<rparr>"] by auto
    then show ?thesis
      using True live_acknowledge [OF assms(1,5), of A "{}" False] assms(4) Cons.prems
      by (simp add: live_ack_step_def acknowledge_def Let_def)
  next
    case False
    then show ?thesis
      using live_acknowledged [OF assms(1), of i A "{}" False] Cons.prems
      by (simp add: live_ack_step_def receive_acknowledgement_def Let_def) (simp add: live_ack_def)
  qed
  then show ?case using Cons.IH [of _ "insert i A"] Cons.prems by simp
qed simp

text \<open>The epoch that a member commits with the confirmations \<open>C\<close>: only the recorded confirmation mask
  depends on them.\<close>

definition live_epoch ::
  "crypto \<Rightarrow> HighAvailabilityParameters \<Rightarrow> HaRoundId \<Rightarrow> (nat \<Rightarrow> Block) \<Rightarrow> nat set \<Rightarrow> nat set \<Rightarrow> HaEpoch" where
  "live_epoch E parameters rid block L C = epoch_from_finalized E (live_finalized E rid block L C)
    (map (\<lambda>i. if i \<in> L then Some (block i) else None) [0..<7]) parameters"

definition live_committed ::
  "crypto \<Rightarrow> HighAvailabilityRuntimeState \<Rightarrow> HaRoundId \<Rightarrow> (nat \<Rightarrow> Block) \<Rightarrow> nat set \<Rightarrow> HighAvailabilityRuntime \<Rightarrow> bool" where
  "live_committed E s rid block L r \<longleftrightarrow>
    (\<exists>C. st_epochs (rt_state r) = st_epochs s @ [live_epoch E (st_parameters s) rid block L C])
    \<and> hr_nonce (rs_round_id (st_round (rt_state r))) = new_next (hr_nonce rid) \<and> rs_received_mask (st_round (rt_state r)) = 0"

lemma live_ordered:
  assumes "live_round E K members rid block L" "w \<in> set (os_as_slice (ordered_slots (live_candidate E rid block L)))"
  shows "unat w \<in> L" "unat w < 7"
proof -
  obtain i where "w = of_nat i" "i \<in> L" "i < 7"
    using assms(2) live_roundD(1,10) [OF assms(1)]
    by (auto simp: ordered_slots_sorts included_slots_def live_candidate_def candidate_from_round_def MAX_HA_NODES_def)
  then show "unat w \<in> L" "unat w < 7" by (simp_all add: slot_word_less)
qed

lemma live_no_amendments:
  assumes "live_round E K (st_members s) rid block L" "rs_blocks (st_round s) = rs_blocks (live_state E rid block L L L C locked)"
  shows "committed_amendments_of E K s (live_finalized E rid block L C) = Ok []"
proof -
  have "try_fold (\<lambda>committed slot.
      and_then (ok_or (rs_blocks (st_round s) ! unat slot) WireProtocol) (\<lambda>block.
        try_fold (collect_amendment E K s n) committed (bb_txs (block_body block)))) [] ws = Ok []"
    if "set ws \<subseteq> set (os_as_slice (ordered_slots (live_candidate E rid block L)))" for ws n
    using that
  proof (induction ws)
    case (Cons w ws)
    then have w: "unat w \<in> L" "unat w < 7" using live_ordered [OF assms(1)] by auto
    then have "list_all (\<lambda>tx. decode_amendment_transaction K tx = Ok None) (bb_txs (block_body (block (unat w))))"
      using live_roundD(9) [OF assms(1)] by (simp add: good_block_def)
    then show ?case using Cons w assms(2) by (simp add: live_state_nth no_amendments)
  qed simp
  then show ?thesis by (simp add: committed_amendments_of_def live_finalized_def)
qed

lemma live_commit:
  assumes "live_round E K (st_members s) rid block L"
    and "rt_state r = s\<lparr>st_round := live_confirmed E (st_members s) rid block L C locked\<rparr>"
    and "ha_majority (st_members s) \<le> card C"
  obtains r' where "commit_finalized_round E K (\<lambda>_. True) r
      = (Ok (Some (live_epoch E (st_parameters s) rid block L C)), r')" "live_committed E s rid block L r'"
proof -
  let ?s = "s\<lparr>st_round := live_confirmed E (st_members s) rid block L C locked\<rparr>"
  let ?e = "live_epoch E (st_parameters s) rid block L C"
  have confirmed: "live_confirmed E (st_members s) rid block L C locked
      = (live_state E rid block L L L C True)\<lparr>rs_finalized := Some (live_finalized E rid block L C)\<rparr>"
    using assms(3) by (simp add: live_confirmed_def)
  have amendments: "committed_amendments_of E K ?s (live_finalized E rid block L C) = Ok []"
    using live_no_amendments [of E K ?s rid block L C True] assms(1) by (simp add: confirmed)
  have e: "epoch_from_finalized E (live_finalized E rid block L C) (rs_blocks (st_round ?s)) (st_parameters ?s) = ?e"
    by (simp add: confirmed live_epoch_def live_state_def)
  obtain t where t: "round_state_new E (round_extending E ?s ?e) (st_members ?s) = Ok t"
    and fresh: "rs_round_id t = round_extending E ?s ?e" "rs_received_mask t = 0"
    using assms(1) by (simp add: round_state_new_def live_round_def round_validate_for_def round_extending_def)
  have nonce: "hr_nonce (round_extending E ?s ?e) = new_next (hr_nonce rid)"
    by (simp add: round_extending_def live_epoch_def epoch_from_finalized_def live_finalized_def Let_def)
  define s' where "s' = ?s\<lparr>st_presence := observe_epoch (st_presence ?s) (st_members ?s) (ep_presence_mask ?e) (st_parameters ?s),
    st_epochs := st_epochs ?s @ [?e], st_amendments := add_amendments [] (st_amendments ?s), st_round := t\<rparr>"
  obtain r' where r': "persist (\<lambda>_. True) (r\<lparr>rt_state := s'\<rparr>) = Ok r'" "rt_state r' = s'"
    using persist_always [of "r\<lparr>rt_state := s'\<rparr>"] by auto
  have "commit_finalized_round E K (\<lambda>_. True) r = (Ok (Some ?e), r')"
    using amendments e t r'(1) assms(2)
    unfolding commit_finalized_round_def Let_def by (simp add: confirmed s'_def)
  moreover have "live_committed E s rid block L r'"
    using fresh nonce by (auto simp: live_committed_def r'(2) s'_def)
  ultimately show ?thesis by (rule that)
qed

lemma live_commit_step:
  assumes "live_round E K (st_members s) rid block L"
    and "rt_state r = s\<lparr>st_round := live_confirmed E (st_members s) rid block L C locked\<rparr>"
  shows "if card C < ha_majority (st_members s)
    then rt_state (snd (commit_finalized_round E K (\<lambda>_. True) r)) = s\<lparr>st_round := live_state E rid block L L L C locked\<rparr>
    else live_committed E s rid block L (snd (commit_finalized_round E K (\<lambda>_. True) r))"
proof (cases "card C < ha_majority (st_members s)")
  case True
  then show ?thesis using assms(2) by (simp add: commit_finalized_round_def Let_def live_confirmed_def)
next
  case False
  then show ?thesis using live_commit [OF assms, of thesis for thesis] by (metis not_less snd_conv)
qed

lemma live_confirm_step_ok:
  assumes "live_round E K (st_members s) rid block L" "st_self_slot s = member_slot self" "self \<in> L"
    and "rt_state r = s\<lparr>st_round := live_state E rid block L L L C (self \<in> C)\<rparr>"
    and "i \<in> L" "C \<subseteq> L" "i \<notin> C"
  shows "if card (insert i C) < ha_majority (st_members s)
    then rt_state (live_confirm_step E K rid block L self i r)
      = s\<lparr>st_round := live_state E rid block L L L (insert i C) (self \<in> insert i C)\<rparr>
    else live_committed E s rid block L (live_confirm_step E K rid block L self i r)"
proof -
  let ?t = "live_confirmed E (st_members s) rid block L (insert i C) (self \<in> insert i C)"
  show ?thesis
  proof (cases "i = self")
    case True
    obtain r' where r': "persist (\<lambda>_. True) (r\<lparr>rt_state := s\<lparr>st_round := ?t\<rparr>\<rparr>) = Ok r'" "rt_state r' = s\<lparr>st_round := ?t\<rparr>"
      using persist_always [of "r\<lparr>rt_state := s\<lparr>st_round := ?t\<rparr>\<rparr>"] by auto
    have step: "live_confirm_step E K rid block L self i r = snd (commit_finalized_round E K (\<lambda>_. True) r')"
      using True live_round_confirm [OF assms(1,5-7)] assms(2,4,7) r'(1)
      by (simp add: live_confirm_step_def confirm_def Let_def split: prod.splits sum.splits)
    show ?thesis using live_commit_step [OF assms(1) r'(2)] step by simp
  next
    case False
    then have "self \<in> C \<longleftrightarrow> self \<in> insert i C" by blast
    then have recv: "round_receive_confirmation E (live_state E rid block L L L C (self \<in> C)) (st_members s)
        (live_confirm E rid block L i) = Ok (rs_finalized ?t, ?t)"
      using live_receive_confirmation [OF assms(1,5-7), of "self \<in> C"] by simp
    have step: "live_confirm_step E K rid block L self i r
        = snd (commit_finalized_round E K (\<lambda>_. True) (r\<lparr>rt_state := s\<lparr>st_round := ?t\<rparr>\<rparr>))"
      using False recv assms(4)
      by (simp add: live_confirm_step_def receive_confirmation_def Let_def live_confirm_def split: prod.splits sum.splits option.splits)
    show ?thesis using live_commit_step [OF assms(1), of "r\<lparr>rt_state := s\<lparr>st_round := ?t\<rparr>\<rparr>" "insert i C" "self \<in> insert i C"]
      unfolding step by simp
  qed
qed

lemma live_committed_step:
  assumes "live_committed E s rid block L r" "hr_nonce rid < new_next (hr_nonce rid)"
  shows "live_committed E s rid block L (live_confirm_step E K rid block L self i r)"
proof -
  have "round_confirm E (st_round (rt_state r)) (st_members (rt_state r)) (st_self_slot (rt_state r)) \<noteq> Ok x" for x
    using assms(1) by (cases x) (auto simp: live_committed_def round_confirm_def split: if_splits)
  then obtain e where "round_confirm E (st_round (rt_state r)) (st_members (rt_state r)) (st_self_slot (rt_state r)) = Err e"
    by (cases "round_confirm E (st_round (rt_state r)) (st_members (rt_state r)) (st_self_slot (rt_state r))") auto
  then have "snd (confirm E K (\<lambda>_. True) r) = r" by (simp add: confirm_def Let_def)
  moreover have "snd (receive_confirmation E K (\<lambda>_. True) r (live_confirm E rid block L i)) = r"
    using assms by (simp add: live_committed_def receive_confirmation_def Let_def live_confirm_def split: option.splits)
  ultimately show ?thesis using assms(1) by (simp add: live_confirm_step_def)
qed

lemma run_confirms:
  assumes "live_round E K (st_members s) rid block L" "st_self_slot s = member_slot self" "self \<in> L"
    "hr_nonce rid < new_next (hr_nonce rid)"
    and "if card C < ha_majority (st_members s) then rt_state r = s\<lparr>st_round := live_state E rid block L L L C (self \<in> C)\<rparr>
      else live_committed E s rid block L r"
    and "set is \<subseteq> L" "distinct is" "C \<subseteq> L" "C \<inter> set is = {}"
  shows "if card (C \<union> set is) < ha_majority (st_members s)
    then rt_state (fold (live_confirm_step E K rid block L self) is r)
      = s\<lparr>st_round := live_state E rid block L L L (C \<union> set is) (self \<in> C \<union> set is)\<rparr>
    else live_committed E s rid block L (fold (live_confirm_step E K rid block L self) is r)"
  using assms(5-)
proof (induction "is" arbitrary: r C)
  case (Cons i "is")
  let ?r = "live_confirm_step E K rid block L self i r"
  have fin: "finite C" using Cons.prems(4) live_roundD(2) [OF assms(1)] finite_subset by blast
  have "if card (insert i C) < ha_majority (st_members s)
    then rt_state ?r = s\<lparr>st_round := live_state E rid block L L L (insert i C) (self \<in> insert i C)\<rparr>
    else live_committed E s rid block L ?r"
  proof (cases "card C < ha_majority (st_members s)")
    case True
    then show ?thesis using live_confirm_step_ok [OF assms(1-3), of r C i] Cons.prems by simp
  next
    case False
    then have "\<not> card (insert i C) < ha_majority (st_members s)" using fin by (simp add: card_insert_if)
    then show ?thesis using False Cons.prems(1) live_committed_step [OF _ assms(4)] by simp
  qed
  then show ?case using Cons.IH [of "insert i C" ?r] Cons.prems by simp
qed simp

end
