(* ===== verification/HaRounds.thy ===== *)
theory HaRounds
  imports HaLiveness
begin

text \<open>
  The invariant of a round: what a member has stored is verified, and what it finalized is a valid
  candidate with a majority of confirmations. Every operation keeps it, so the epoch that a round
  yields passes the validation that a restored or received epoch has to pass.
\<close>

section \<open>The invariant\<close>

definition stored_block_ok :: "crypto \<Rightarrow> HaRoundState \<Rightarrow> nat \<Rightarrow> bool" where
  "stored_block_ok E t i \<longleftrightarrow> (case rs_blocks t ! i of
      None \<Rightarrow> \<not> mask_has (rs_received_mask t) i
    | Some b \<Rightarrow> mask_has (rs_received_mask t) i \<and> verify_unsigned_integrity_with_hash E b (rs_block_hashes t ! i) = Ok ())"

definition finalized_valid :: "crypto \<Rightarrow> HaMemberSlots \<Rightarrow> HaRoundState \<Rightarrow> HaFinalizedRound \<Rightarrow> bool" where
  "finalized_valid E members t f \<longleftrightarrow>
    fr_round_id f = rs_round_id t \<and> candidate_validate E (fr_candidate f) (rs_round_id t) = Ok ()
    \<and> hc_included_mask (fr_candidate f) = rs_received_mask t
    \<and> (\<forall>i < 7. mask_has (rs_received_mask t) i \<longrightarrow> hc_block_hashes (fr_candidate f) ! i = rs_block_hashes t ! i)
    \<and> fr_confirmation_mask f AND NOT (hr_active_mask (rs_round_id t)) = 0
    \<and> ha_majority members \<le> count_ones (fr_confirmation_mask f)
    \<and> fr_presence_mask f = hc_presence_mask (fr_candidate f) \<and> fr_ordered_slots f = ordered_slots (fr_candidate f)"

definition round_wf :: "crypto \<Rightarrow> HaMemberSlots \<Rightarrow> HaRoundState \<Rightarrow> bool" where
  "round_wf E members t \<longleftrightarrow>
    length (rs_blocks t) = 7 \<and> length (rs_block_hashes t) = 7 \<and> length (rs_acknowledgements t) = 7
    \<and> length (rs_confirmations t) = 7 \<and> member_slots_validate E members = Ok ()
    \<and> round_validate_for (rs_round_id t) members = Ok ()
    \<and> (\<forall>i < 7. stored_block_ok E t i)
    \<and> (\<forall>f. rs_finalized t = Some f \<longrightarrow> rs_confirmed_candidate t \<noteq> None \<and> finalized_valid E members t f)"

lemma round_wf_new:
  assumes "round_state_new E rid members = Ok t"
  shows "round_wf E members t"
  using assms by (auto simp: round_state_new_def round_wf_def stored_block_ok_def MAX_HA_NODES_def mask_has_def)

lemma mask_has_or: "i < 7 \<Longrightarrow> j < 7 \<Longrightarrow> mask_has (w OR 2 ^ i) j \<longleftrightarrow> mask_has w j \<or> i = j"
  by (auto simp: mask_has_bit bit_simps)

lemma round_wf_dispatch:
  assumes "round_wf E members t" "round_receive_dispatch E t members d = Ok (out, t')"
  shows "round_wf E members t'"
proof (cases "t' = t")
  case False
  let ?i = "slot_index (hd_sender d)"
  have i: "?i < 7" "rs_blocks t ! ?i = None" "rs_confirmed_candidate t = None" "rs_finalized t = None"
      "verify_unsigned_integrity_with_hash E (hd_block d) (hd_block_hash d) = Ok ()"
    and t': "t' = t\<lparr>rs_blocks := (rs_blocks t)[?i := Some (hd_block d)],
      rs_block_hashes := (rs_block_hashes t)[?i := hd_block_hash d], rs_received_mask := rs_received_mask t OR 2 ^ ?i\<rparr>"
    using assms(2) False
    by (auto simp: round_receive_dispatch_def Let_def slot_bit_Ok split: option.splits if_splits)
  have "stored_block_ok E t' j" if "j < 7" for j
    using assms(1) that i by (auto simp: round_wf_def stored_block_ok_def t' nth_list_update mask_has_or split: option.splits)
  then show ?thesis using assms(1) i(4) by (simp add: round_wf_def t')
qed (use assms in simp)

lemma round_wf_frame:
  assumes "round_wf E members t" "rs_blocks t' = rs_blocks t" "rs_block_hashes t' = rs_block_hashes t"
    "rs_received_mask t' = rs_received_mask t" "rs_round_id t' = rs_round_id t"
    "length (rs_acknowledgements t') = 7" "length (rs_confirmations t') = 7"
    "\<And>f. rs_finalized t' = Some f \<Longrightarrow> rs_confirmed_candidate t' \<noteq> None \<and> finalized_valid E members t' f"
  shows "round_wf E members t'"
  using assms by (simp add: round_wf_def stored_block_ok_def cong: option.case_cong)

lemma round_wf_acknowledgement:
  assumes "round_wf E members t" "round_receive_acknowledgement t members a = Ok t'"
  shows "round_wf E members t'"
proof -
  have "t' = t\<lparr>rs_acknowledgements := (rs_acknowledgements t)[slot_index (ha_sender a) := ha_received_mask a]\<rparr>"
    using assms(2) by (auto simp: round_receive_acknowledgement_def Let_def split: if_splits)
  then show ?thesis using assms(1) by (intro round_wf_frame [OF assms(1)]) (auto simp: round_wf_def finalized_valid_def)
qed

lemma round_wf_acknowledge:
  assumes "round_wf E members t" "round_acknowledge t members v = Ok (a, t')"
  shows "round_wf E members t'"
  using assms(2) round_wf_acknowledgement [OF assms(1)] by (auto simp: round_acknowledge_def Let_def)

lemma confirmation_step:
  assumes "round_receive_confirmation E t members c = Ok (out, t')"
  obtains (same) "t' = t"
  | (recorded) "candidate_validate E (hf_candidate c) (rs_round_id t) = Ok ()"
      "hc_included_mask (hf_candidate c) = rs_received_mask t"
      "\<And>i. i < 7 \<Longrightarrow> mask_has (rs_received_mask t) i \<Longrightarrow> hc_block_hashes (hf_candidate c) ! i = rs_block_hashes t ! i"
      "t' = t\<lparr>rs_confirmations := (rs_confirmations t)[slot_index (hf_sender c) := Some (hc_digest (hf_candidate c))]\<rparr>"
  | (final) f where "candidate_validate E (hf_candidate c) (rs_round_id t) = Ok ()"
      "hc_included_mask (hf_candidate c) = rs_received_mask t"
      "\<And>i. i < 7 \<Longrightarrow> mask_has (rs_received_mask t) i \<Longrightarrow> hc_block_hashes (hf_candidate c) ! i = rs_block_hashes t ! i"
      "t' = t\<lparr>rs_confirmations := (rs_confirmations t)[slot_index (hf_sender c) := Some (hc_digest (hf_candidate c))],
        rs_confirmed_candidate := Some (hc_digest (hf_candidate c)), rs_finalized := Some f\<rparr>"
      "fr_round_id f = rs_round_id t" "fr_candidate f = hf_candidate c"
      "fr_confirmation_mask f = confirmation_mask_for t' (hc_digest (hf_candidate c))"
      "fr_presence_mask f = hc_presence_mask (hf_candidate c)" "fr_ordered_slots f = ordered_slots (hf_candidate c)"
      "ha_majority members \<le> count_ones (fr_confirmation_mask f)"
proof -
  let ?d = "hc_digest (hf_candidate c)" and ?i = "slot_index (hf_sender c)"
  let ?t = "t\<lparr>rs_confirmations := (rs_confirmations t)[?i := Some ?d]\<rparr>"
  have ok: "candidate_validate E (hf_candidate c) (rs_round_id t) = Ok ()"
    "hc_included_mask (hf_candidate c) = rs_received_mask t"
    "\<And>i. i < 7 \<Longrightarrow> mask_has (rs_received_mask t) i \<Longrightarrow> hc_block_hashes (hf_candidate c) ! i = rs_block_hashes t ! i"
    and cases: "t' = t \<or> (if ha_majority members \<le> count_ones (confirmation_mask_for ?t ?d)
      then t' = ?t\<lparr>rs_confirmed_candidate := Some ?d, rs_finalized := Some \<lparr>fr_round_id = rs_round_id t, fr_candidate = hf_candidate c,
        fr_confirmation_mask = confirmation_mask_for ?t ?d, fr_presence_mask = hc_presence_mask (hf_candidate c),
        fr_ordered_slots = ordered_slots (hf_candidate c)\<rparr>\<rparr> else t' = ?t)"
    using assms
    by (auto simp: round_receive_confirmation_def Let_def MAX_HA_NODES_def list_ex_iff split: option.splits if_splits)
  have frame: "confirmation_mask_for (?t\<lparr>rs_confirmed_candidate := x, rs_finalized := y\<rparr>) ?d = confirmation_mask_for ?t ?d" for x y
    by (simp add: confirmation_mask_for_def)
  show ?thesis
  proof (cases "t' = t")
    case True then show ?thesis by (rule same)
  next
    case False
    show ?thesis
    proof (cases "ha_majority members \<le> count_ones (confirmation_mask_for ?t ?d)")
      case True
      let ?f = "\<lparr>fr_round_id = rs_round_id t, fr_candidate = hf_candidate c,
        fr_confirmation_mask = confirmation_mask_for ?t ?d, fr_presence_mask = hc_presence_mask (hf_candidate c),
        fr_ordered_slots = ordered_slots (hf_candidate c)\<rparr>"
      have "t' = ?t\<lparr>rs_confirmed_candidate := Some ?d, rs_finalized := Some ?f\<rparr>" using True False cases by simp
      then show ?thesis using True by (intro final [OF ok, of ?f]) (simp_all add: frame)
    next
      case no: False
      then show ?thesis using False cases by (intro recorded [OF ok]) simp_all
    qed
  qed
qed

lemma round_wf_confirmation:
  assumes wf: "round_wf E members t" and "round_receive_confirmation E t members c = Ok (out, t')"
  shows "round_wf E members t'"
  using assms(2)
proof (cases rule: confirmation_step)
  case same then show ?thesis using wf by simp
next
  case recorded
  show ?thesis using wf unfolding recorded(4) by (intro round_wf_frame [OF wf]) (auto simp: round_wf_def finalized_valid_def)
next
  case (final f)
  have "mask_set (fr_confirmation_mask f) \<subseteq> mask_set (hr_active_mask (rs_round_id t))"
    unfolding final(7) confirmation_mask_set using final(4) by auto
  then have "finalized_valid E members t' f"
    using final(1-3,5,6,8-10) by (simp add: finalized_valid_def mask_diff_0_iff final(4))
  then show ?thesis using wf by (intro round_wf_frame [OF wf]) (auto simp: round_wf_def final(4))
qed

lemma round_wf_confirm:
  assumes wf: "round_wf E members t" and "round_confirm E t members v = Ok (c, t')"
  shows "round_wf E members t'"
  using assms(2)
proof (cases rule: confirm_cases)
  case again then show ?thesis using wf by simp
next
  case (fresh r u)
  have u: "round_wf E members u" using round_wf_confirmation [OF wf fresh(4)] .
  show ?thesis unfolding fresh(5)
    using u by (intro round_wf_frame [OF u]) (auto simp: round_wf_def finalized_valid_def)
qed

section \<open>Reachable rounds\<close>

inductive round_reach :: "crypto \<Rightarrow> HaMemberSlots \<Rightarrow> HaRoundId \<Rightarrow> HaRoundState \<Rightarrow> bool" for E members rid where
  start: "round_state_new E rid members = Ok t \<Longrightarrow> round_reach E members rid t"
| dispatch: "round_reach E members rid s \<Longrightarrow> round_receive_dispatch E s members d = Ok (out, t) \<Longrightarrow> round_reach E members rid t"
| acknowledge: "round_reach E members rid s \<Longrightarrow> round_acknowledge s members v = Ok (a, t) \<Longrightarrow> round_reach E members rid t"
| acknowledged: "round_reach E members rid s \<Longrightarrow> round_receive_acknowledgement s members a = Ok t \<Longrightarrow> round_reach E members rid t"
| confirm: "round_reach E members rid s \<Longrightarrow> round_confirm E s members v = Ok (c, t) \<Longrightarrow> round_reach E members rid t"
| confirmed: "round_reach E members rid s \<Longrightarrow> round_receive_confirmation E s members c = Ok (f, t) \<Longrightarrow> round_reach E members rid t"

lemma reach_wf: "round_reach E members rid t \<Longrightarrow> round_wf E members t \<and> rs_round_id t = rid"
proof (induction rule: round_reach.induct)
  case (start t)
  then show ?case using round_wf_new by (auto simp: round_state_new_def)
next
  case (dispatch s d out t)
  then show ?case using round_wf_dispatch dispatch_frame(1) by metis
next
  case (acknowledge s v a t)
  then show ?case using round_wf_acknowledge acknowledge_frame(1) by metis
next
  case (acknowledged s a t)
  then show ?case using round_wf_acknowledgement acknowledgement_frame(1) by metis
next
  case (confirm s v c t)
  then show ?case using round_wf_confirm confirm_message(1) by metis
next
  case (confirmed s c f t)
  then show ?case using round_wf_confirmation confirmation_Ok(1) by metis
qed



section \<open>The epoch of a finalized round\<close>

lemma finalized_blocks_ok:
  assumes "round_wf E members t" "finalized_valid E members t f"
  shows "try_fold (\<lambda>_ index.
       if mask_has (hc_included_mask (fr_candidate f)) index
       then and_then (ok_or (rs_blocks t ! index) WireProtocol) (\<lambda>block.
         verify_unsigned_integrity_with_hash E block (hc_block_hashes (fr_candidate f) ! index))
       else if rs_blocks t ! index \<noteq> None then Err WireProtocol
       else Ok ()) () [0..<MAX_HA_NODES] = Ok ()"
proof (rule try_fold_unit)
  fix i assume "i \<in> set [0..<MAX_HA_NODES]"
  then have i: "i < 7" by (simp add: MAX_HA_NODES_def)
  then have "stored_block_ok E t i" using assms(1) by (simp add: round_wf_def)
  moreover have "hc_included_mask (fr_candidate f) = rs_received_mask t"
    "mask_has (rs_received_mask t) i \<Longrightarrow> hc_block_hashes (fr_candidate f) ! i = rs_block_hashes t ! i"
    using assms(2) i by (simp_all add: finalized_valid_def)
  ultimately show "(if mask_has (hc_included_mask (fr_candidate f)) i
       then and_then (ok_or (rs_blocks t ! i) WireProtocol) (\<lambda>block.
         verify_unsigned_integrity_with_hash E block (hc_block_hashes (fr_candidate f) ! i))
       else if rs_blocks t ! i \<noteq> None then Err WireProtocol
       else Ok ()) = Ok ()"
    by (simp add: stored_block_ok_def split: option.splits)
qed

text \<open>C18: an epoch that a round yields passes the validation that restored and received epochs go through:
  for every finalized round that was run with the parameters in force, \<open>HaEpoch::validate\<close> accepts the epoch built
  from it.\<close>

theorem finalized_epoch_validates:
  assumes "round_reach E members rid t" "rs_finalized t = Some f"
    and "ha_parameters_validate parameters = Ok ()" "hr_parameters_hash rid = ha_parameters_hash E parameters"
    and "hr_round rid = 0"
  shows "ha_epoch_validate E (epoch_from_finalized E f (rs_blocks t) parameters) members = Ok ()"
proof -
  have wf: "round_wf E members t" "rs_round_id t = rid" using reach_wf [OF assms(1)] by simp_all
  have f: "finalized_valid E members t f" using wf(1) assms(2) by (simp add: round_wf_def)
  let ?e = "epoch_from_finalized E f (rs_blocks t) parameters"
  have rid: "fr_round_id f = rid" using f wf(2) by (simp add: finalized_valid_def)
  have valid: "round_validate_for rid members = Ok ()" "member_slots_validate E members = Ok ()"
    using wf by (simp_all add: round_wf_def)
  then have mask: "hr_active_mask rid = hm_active_mask members" "hr_fixed_membership_hash rid = hm_fixed_identity_hash members"
      "new_next (hr_previous_epoch_nonce rid) = hr_nonce rid"
    by (auto simp: round_validate_for_def split: if_splits)
  have low: "hm_active_mask members AND NOT (low_bits (hm_member_count members)) = 0"
    using valid(2) by (simp add: member_slots_validate_def Let_def split: if_splits)
  have count: "high_availability_majority (count_ones (hm_active_mask members)) \<le> count_ones (fr_confirmation_mask f)"
    using f members_bound(2) [OF valid(2)] by (simp add: finalized_valid_def count_ones_card)
  have hash: "epoch_compute_hash E ?e = ep_hash ?e"
    by (simp add: epoch_from_finalized_def Let_def epoch_compute_hash_def ha_epoch_bytes_def)
  have e: "ep_parameters ?e = parameters" "ep_parameters_hash ?e = ha_parameters_hash E parameters"
      "ep_fixed_membership_hash ?e = hm_fixed_identity_hash members" "ep_active_mask ?e = hm_active_mask members"
      "ep_previous_epoch_nonce ?e = Some (hr_previous_epoch_nonce rid)" "ep_nonce ?e = hr_nonce rid"
      "ep_candidate ?e = fr_candidate f" "ep_confirmation_mask ?e = fr_confirmation_mask f"
      "ep_presence_mask ?e = fr_presence_mask f" "ep_ordered_slots ?e = fr_ordered_slots f" "ep_blocks ?e = rs_blocks t"
      "ep_group_id ?e = hr_group_id rid" "ep_membership_generation ?e = hr_membership_generation rid"
      "ep_previous_epoch_hash ?e = hr_previous_epoch_hash rid"
    by (simp_all add: epoch_from_finalized_def Let_def rid mask(1,2))
  have same: "\<lparr>hr_group_id = hr_group_id rid, hr_fixed_membership_hash = hm_fixed_identity_hash members,
        hr_membership_generation = hr_membership_generation rid, hr_active_mask = hm_active_mask members,
        hr_parameters_hash = ha_parameters_hash E parameters, hr_previous_epoch_hash = hr_previous_epoch_hash rid,
        hr_previous_epoch_nonce = hr_previous_epoch_nonce rid, hr_nonce = hr_nonce rid, hr_round = 0\<rparr> = rid"
    using mask assms(4,5) by simp
  show ?thesis
    unfolding ha_epoch_validate_def hash e finalized_blocks_ok [OF wf(1) f]
    using assms(3) f wf(2) low count mask same
    by (simp add: finalized_valid_def)
qed


section \<open>Confirming again\<close>

lemma masks_frame:
  assumes "rs_round_id t = rs_round_id s" "rs_received_mask t = rs_received_mask s"
    "rs_acknowledgements t = rs_acknowledgements s"
  shows "available_mask t members = available_mask s members"
    "certified_presence_candidate_mask t members = certified_presence_candidate_mask s members"
  unfolding available_mask_def certified_presence_candidate_mask_def assms by (rule refl)+

lemma confirm_frame:
  assumes "round_confirm E s members v = Ok (c, t)" "t \<noteq> s" "length (rs_confirmations s) = 7"
  shows "rs_round_id t = rs_round_id s" "rs_received_mask t = rs_received_mask s"
    "rs_acknowledgements t = rs_acknowledgements s" "rs_block_hashes t = rs_block_hashes s"
    "rs_confirmations t ! slot_index v = Some (hc_digest (own_candidate E s members))"
    "rs_confirmed_candidate t = Some (hc_digest (own_candidate E s members))"
    "c = \<lparr>hf_round_id = rs_round_id s, hf_sender = v, hf_candidate = own_candidate E s members\<rparr>"
proof -
  obtain r u where u: "is_active members v"
    "c = \<lparr>hf_round_id = rs_round_id s, hf_sender = v, hf_candidate = own_candidate E s members\<rparr>"
    "round_receive_confirmation E s members c = Ok (r, u)"
    "t = u\<lparr>rs_confirmed_candidate := Some (hc_digest (own_candidate E s members))\<rparr>"
    using assms(1,2) by (cases rule: confirm_cases) auto
  show "c = \<lparr>hf_round_id = rs_round_id s, hf_sender = v, hf_candidate = own_candidate E s members\<rparr>" by (rule u(2))
  have "rs_round_id u = rs_round_id s \<and> rs_received_mask u = rs_received_mask s
    \<and> rs_acknowledgements u = rs_acknowledgements s \<and> rs_block_hashes u = rs_block_hashes s"
    using u(3) by (cases rule: confirmation_step) simp_all
  then show "rs_round_id t = rs_round_id s" "rs_received_mask t = rs_received_mask s"
    "rs_acknowledgements t = rs_acknowledgements s" "rs_block_hashes t = rs_block_hashes s" by (simp_all add: u(4))
  have "slot_index v < 7" using u(1) by (simp add: is_active_iff)
  then show "rs_confirmations t ! slot_index v = Some (hc_digest (own_candidate E s members))"
    using confirmation_Ok(8) [OF u(3)] assms(3) by (auto simp: u(2,4))
  show "rs_confirmed_candidate t = Some (hc_digest (own_candidate E s members))" by (simp add: u(4))
qed

text \<open>Confirming is repeatable. A member that confirmed and, after a crash, finds the state it persisted with
  its lock gets exactly the same confirmation from a second call, and the call changes nothing: no second
  candidate is ever created.\<close>

theorem confirm_again:
  assumes "round_reach E members rid s" "round_confirm E s members v = Ok (c, t)"
  shows "round_confirm E t members v = Ok (c, t)"
proof (cases "t = s")
  case False
  have "length (rs_confirmations s) = 7" using reach_wf [OF assms(1)] by (simp add: round_wf_def)
  note t = confirm_frame [OF assms(2) False this]
  have guards: "is_active members v" "rs_received_mask s \<noteq> 0"
    "available_mask s members AND rs_received_mask s = rs_received_mask s"
    using assms(2) by (auto simp: round_confirm_def validate_sender_def Let_def split: if_splits)
  have "candidate_from_round E (rs_round_id t) (rs_received_mask t) (certified_presence_candidate_mask t members)
      (masked_hashes (rs_received_mask t) (rs_block_hashes t)) = own_candidate E s members"
    by (simp add: own_candidate_def t masks_frame [OF t(1-3)])
  then show ?thesis
    using guards t masks_frame [OF t(1-3)] by (simp add: round_confirm_def validate_sender_def)
qed (use assms(2) in simp)

end
