(* ===== verification/HaExample.thy ===== *)
theory HaExample
  imports HaSystem HaRounds
begin

text \<open>
  A run of a group of three members in which an epoch becomes final at one member while another one is a
  confirmation behind and the third was never reached. It instantiates the agreement of the chains with a
  system in which the members differ.
\<close>

section \<open>The group\<close>

definition example_crypto :: crypto where
  "example_crypto = sample_crypto\<lparr>sha256 := \<lambda>_. HashType 1\<rparr>"

definition example_codec :: ha_codec where
  "example_codec = \<lparr>borsh_amendment = \<lambda>_. None, borsh_amendment_from_slice = \<lambda>_. None\<rparr>"

definition example_disk :: disk where
  "example_disk = (\<lambda>_. True)"

definition example_node :: "256 word \<Rightarrow> NodeIdentity" where
  "example_node k = \<lparr>ni_public_key = PubKey k, ni_secret_key = None, ni_protocol = ''tcp'', ni_host = ''h'',
    ni_port = 1, ni_shuffle = False\<rparr>"

definition example_group :: ConsensusGroupId where
  "example_group = ConsensusGroupId (HashType 7)"

definition example_members :: HaMemberSlots where
  "example_members = \<lparr>hm_member_count = 3, hm_active_mask = 7, hm_fixed_identity_hash = HashType 1,
    hm_members = map (Some \<circ> example_node) [1, 2, 3] @ [None, None, None, None]\<rparr>"

definition example_round_id :: "Nonce \<Rightarrow> HaRoundId" where
  "example_round_id n = \<lparr>hr_group_id = example_group, hr_fixed_membership_hash = HashType 1,
    hr_membership_generation = 0, hr_active_mask = 7, hr_parameters_hash = HashType 1,
    hr_previous_epoch_hash = HashType 1, hr_previous_epoch_nonce = n - 1, hr_nonce = n, hr_round = 0\<rparr>"

definition example_block :: Block where
  "example_block = \<lparr>block_hash = HashType 1, block_signature = Signature 0,
    block_body = \<lparr>bb_validator = PubKey 1, bb_last_epoch = HashType 1, bb_nonce = 1, bb_created = 5, bb_dispatched = 0,
      bb_merkle_root = HashType 1, bb_application_state = [], bb_encounter_records = [], bb_node_admissions = [],
      bb_txs = []\<rparr>\<rparr>"

definition example_candidate :: HaCandidate where
  "example_candidate = \<lparr>hc_included_mask = 1, hc_presence_mask = 3,
    hc_block_hashes = HashType 1 # replicate 6 (HashType 0), hc_digest = HashType 1\<rparr>"

definition example_epoch :: HaEpoch where
  "example_epoch = epoch_from_finalized example_crypto
    \<lparr>fr_round_id = example_round_id 1, fr_candidate = example_candidate, fr_confirmation_mask = 3, fr_presence_mask = 3,
     fr_ordered_slots = \<lparr>os_len = 1, os_slots = replicate 7 0\<rparr>\<rparr>
    (Some example_block # replicate 6 None) (ha_parameters_new 4 4)"

text \<open>The round of a member that has the block of the first one, by the acknowledgements and confirmations it
  has.\<close>

definition example_round :: "u8 list \<Rightarrow> HashType option list \<Rightarrow> HashType option \<Rightarrow> HaRoundState" where
  "example_round acks confirms lock = \<lparr>rs_round_id = example_round_id 1,
    rs_blocks = Some example_block # replicate 6 None, rs_block_hashes = HashType 1 # replicate 6 (HashType 0),
    rs_received_mask = 1, rs_acknowledgements = acks @ replicate 5 0, rs_confirmations = confirms @ replicate 5 None,
    rs_confirmed_candidate = lock, rs_finalized = None\<rparr>"

definition example_fresh :: "Nonce \<Rightarrow> HaRoundState" where
  "example_fresh n = \<lparr>rs_round_id = example_round_id n, rs_blocks = replicate 7 None,
    rs_block_hashes = replicate 7 (HashType 0), rs_received_mask = 0, rs_acknowledgements = replicate 7 0,
    rs_confirmations = replicate 7 None, rs_confirmed_candidate = None, rs_finalized = None\<rparr>"

definition example_state :: "u8 \<Rightarrow> HaRoundState \<Rightarrow> HighAvailabilityRuntimeState" where
  "example_state slot round = \<lparr>st_group_id = example_group, st_self_slot = HaMemberSlot slot,
    st_members = example_members, st_membership_generation = 0, st_parameters = ha_parameters_new 4 4,
    st_checkpoint = None,
    st_epochs = [epoch_genesis example_crypto example_group example_members (ha_parameters_new 4 4)],
    st_round = round, st_presence = presence_default, st_membership_vote_lock = None,
    st_membership_votes = replicate 7 None, st_membership_changes = [], st_amendments = []\<rparr>"

definition example_final :: HighAvailabilityRuntimeState where
  "example_final = (example_state 0 (example_fresh 2))
    \<lparr>st_epochs := [epoch_genesis example_crypto example_group example_members (ha_parameters_new 4 4), example_epoch],
     st_presence := \<lparr>pt_missed = [0, 0, 1, 0, 0, 0, 0],
       pt_statuses = [Active, Active, Missing 1, Active, Active, Active, Active]\<rparr>\<rparr>"

definition example_runtime :: "HighAvailabilityRuntimeState \<Rightarrow> HighAvailabilityRuntimeState \<Rightarrow> HighAvailabilityRuntime" where
  "example_runtime stored current = \<lparr>rt_store = Some (Some stored), rt_state = current\<rparr>"

definition example_confirm :: "u8 \<Rightarrow> HaConfirm" where
  "example_confirm slot = \<lparr>hf_round_id = example_round_id 1, hf_sender = HaMemberSlot slot,
    hf_candidate = example_candidate\<rparr>"


section \<open>The calls\<close>

abbreviation "fresh slot \<equiv> example_state slot (example_fresh 1)"
abbreviation "received slot \<equiv> example_state slot (example_round [0, 0] [None, None] None)"
abbreviation "acked slot \<equiv> example_state slot
  (example_round (if slot = 0 then [1, 0] else [0, 1]) [None, None] None)"
abbreviation "available slot \<equiv> example_state slot (example_round [1, 1] [None, None] None)"
abbreviation "locked slot \<equiv> example_state slot
  (example_round [1, 1] (if slot = 0 then [Some (HashType 1), None] else [None, Some (HashType 1)]) (Some (HashType 1)))"


lemma example_create_0:
  "runtime_create example_crypto example_disk True example_group (PubKey 1) (map example_node [1, 2, 3])
    (ha_parameters_new 4 4) = Ok (example_runtime (fresh 0) (fresh 0))"
  by code_simp

lemma example_create_1:
  "runtime_create example_crypto example_disk True example_group (PubKey 2) (map example_node [1, 2, 3])
    (ha_parameters_new 4 4) = Ok (example_runtime (fresh 1) (fresh 1))"
  by code_simp

lemma example_create_2:
  "runtime_create example_crypto example_disk True example_group (PubKey 3) (map example_node [1, 2, 3])
    (ha_parameters_new 4 4) = Ok (example_runtime (fresh 2) (fresh 2))"
  by code_simp

lemma example_dispatch:
  "snd (build_dispatch_with_created example_crypto example_codec (example_runtime (fresh 0) (fresh 0)) [] 5)
    = example_runtime (fresh 0) (received 0)"
  by code_simp

lemma example_dispatched:
  "snd (receive_dispatch example_crypto example_codec (example_runtime (fresh 1) (fresh 1))
    \<lparr>hd_round_id = example_round_id 1, hd_sender = HaMemberSlot 0, hd_block_hash = HashType 1, hd_block = example_block\<rparr>)
    = example_runtime (fresh 1) (received 1)"
  by code_simp

lemma example_acknowledge_0:
  "snd (acknowledge example_disk (example_runtime (fresh 0) (received 0))) = example_runtime (acked 0) (acked 0)"
  by code_simp

lemma example_acknowledge_1:
  "snd (acknowledge example_disk (example_runtime (fresh 1) (received 1))) = example_runtime (acked 1) (acked 1)"
  by code_simp

definition example_ack :: "u8 \<Rightarrow> HaAcknowledge" where
  "example_ack slot = \<lparr>ha_round_id = example_round_id 1, ha_sender = HaMemberSlot slot, ha_received_mask = 1,
    ha_block_hashes = HashType 1 # replicate 6 (HashType 0)\<rparr>"

lemma example_acknowledged_0:
  "snd (receive_acknowledgement (example_runtime (acked 0) (acked 0)) (example_ack 1)) = example_runtime (acked 0) (available 0)"
  by code_simp

lemma example_acknowledged_1:
  "snd (receive_acknowledgement (example_runtime (acked 1) (acked 1)) (example_ack 0)) = example_runtime (acked 1) (available 1)"
  by code_simp

lemma example_confirm_0:
  "snd (HaRuntime.confirm example_crypto example_codec example_disk (example_runtime (acked 0) (available 0)))
    = example_runtime (locked 0) (locked 0)"
  by code_simp

lemma example_confirm_1:
  "snd (HaRuntime.confirm example_crypto example_codec example_disk (example_runtime (acked 1) (available 1)))
    = example_runtime (locked 1) (locked 1)"
  by code_simp

lemma example_emitted_0:
  "emitted_confirms example_crypto example_disk (example_runtime (acked 0) (available 0)) = {example_confirm 0}"
  by code_simp

lemma example_emitted_1:
  "emitted_confirms example_crypto example_disk (example_runtime (acked 1) (available 1)) = {example_confirm 1}"
  by code_simp

lemma example_confirmed:
  "snd (receive_confirmation example_crypto example_codec example_disk (example_runtime (locked 0) (locked 0))
    (example_confirm 1)) = example_runtime example_final example_final"
  by code_simp


section \<open>The run\<close>

abbreviation example_system :: "(nat \<Rightarrow> HighAvailabilityRuntime) \<Rightarrow> HaConfirm set \<Rightarrow> ha_system" where
  "example_system nodes C \<equiv> \<lparr>sys_nodes = nodes, sys_confirms = C, sys_votes = {}\<rparr>"

abbreviation "example_reachable \<equiv> ha_reachable example_crypto example_codec example_group
  (map example_node [1, 2, 3]) (ha_parameters_new 4 4)"

abbreviation three :: "'a \<Rightarrow> 'a \<Rightarrow> 'a \<Rightarrow> nat \<Rightarrow> 'a" where
  "three a b c \<equiv> \<lambda>v. if v = 0 then a else if v = 1 then b else c"

lemma example_step_0:
  assumes "example_reachable (example_system (three a b c) C)" "node_step example_crypto example_codec C {} a C' {} a'"
    "nonce_in_range a'"
  shows "example_reachable (example_system (three a' b c) (C \<union> C'))"
proof -
  have "(three a b c)(0 := a') = three a' b c" by auto
  then show ?thesis
    using ha_reachable.step [OF assms(1) ha_step.intros [of 0]] assms(2,3) by (fastforce simp del: fun_upd_apply)
qed

lemma example_step_1:
  assumes "example_reachable (example_system (three a b c) C)" "node_step example_crypto example_codec C {} b C' {} b'"
    "nonce_in_range b'"
  shows "example_reachable (example_system (three a b' c) (C \<union> C'))"
proof -
  have "(three a b c)(1 := b') = three a b' c" by auto
  then show ?thesis
    using ha_reachable.step [OF assms(1) ha_step.intros [of 1]] assms(2,3) by (fastforce simp del: fun_upd_apply)
qed

lemma example_nonces:
  "nonce_in_range (example_runtime p (example_state slot (example_fresh 1)))"
  "nonce_in_range (example_runtime p (example_state slot (example_round acks confirms lock)))"
  "nonce_in_range (example_runtime p example_final)"
  by (simp_all add: nonce_in_range_def example_runtime_def example_state_def example_fresh_def example_round_def
      example_final_def example_round_id_def)

lemma example_initial:
  "example_reachable (example_system (three (example_runtime (fresh 0) (fresh 0)) (example_runtime (fresh 1) (fresh 1))
    (example_runtime (fresh 2) (fresh 2))) {})"
proof (rule ha_reachable.init)
  have "slot_index (st_self_slot (rt_state (example_runtime p (example_state slot round)))) = unat slot" for p slot round
    by (simp add: example_runtime_def example_state_def slot_index_def)
  then show "ha_initial example_crypto example_group (map example_node [1, 2, 3]) (ha_parameters_new 4 4)
    (example_system (three (example_runtime (fresh 0) (fresh 0)) (example_runtime (fresh 1) (fresh 1))
      (example_runtime (fresh 2) (fresh 2))) {})"
    using example_create_0 example_create_1 example_create_2
    by (auto simp: ha_initial_def less_Suc_eq numeral_3_eq_3)
qed

abbreviation "example_call \<equiv> \<lambda>C r C' r'. node_step example_crypto example_codec C {} r C' {} r'"

lemma example_calls_0:
  "example_call C (example_runtime (fresh 0) (fresh 0)) {} (example_runtime (fresh 0) (received 0))"
  "example_call C (example_runtime (fresh 0) (received 0)) {} (example_runtime (acked 0) (acked 0))"
  "example_call C (example_runtime (acked 0) (acked 0)) {} (example_runtime (acked 0) (available 0))"
  "example_call C (example_runtime (acked 0) (available 0)) {example_confirm 0} (example_runtime (locked 0) (locked 0))"
  "example_confirm 1 \<in> C \<Longrightarrow>
    example_call C (example_runtime (locked 0) (locked 0)) {} (example_runtime example_final example_final)"
  using node_step.dispatch [where E = example_crypto and K = example_codec and r = "example_runtime (fresh 0) (fresh 0)"
      and txs = "[]" and created = 5] node_step.acknowledge [where disk = example_disk and r = "example_runtime (fresh 0) (received 0)"]
    node_step.acknowledged [where r = "example_runtime (acked 0) (acked 0)" and a = "example_ack 1"]
    node_step.confirm [where E = example_crypto and K = example_codec and disk = example_disk
      and r = "example_runtime (acked 0) (available 0)"]
    node_step.confirmed [where E = example_crypto and K = example_codec and disk = example_disk and c = "example_confirm 1"
      and r = "example_runtime (locked 0) (locked 0)"]
  unfolding example_dispatch example_acknowledge_0 example_acknowledged_0 example_confirm_0 example_emitted_0 example_confirmed
  by blast+

lemma example_calls_1:
  "example_call C (example_runtime (fresh 1) (fresh 1)) {} (example_runtime (fresh 1) (received 1))"
  "example_call C (example_runtime (fresh 1) (received 1)) {} (example_runtime (acked 1) (acked 1))"
  "example_call C (example_runtime (acked 1) (acked 1)) {} (example_runtime (acked 1) (available 1))"
  "example_call C (example_runtime (acked 1) (available 1)) {example_confirm 1} (example_runtime (locked 1) (locked 1))"
  using node_step.dispatched [where E = example_crypto and K = example_codec and r = "example_runtime (fresh 1) (fresh 1)"
      and d = "\<lparr>hd_round_id = example_round_id 1, hd_sender = HaMemberSlot 0, hd_block_hash = HashType 1, hd_block = example_block\<rparr>"]
    node_step.acknowledge [where disk = example_disk and r = "example_runtime (fresh 1) (received 1)"]
    node_step.acknowledged [where r = "example_runtime (acked 1) (acked 1)" and a = "example_ack 0"]
    node_step.confirm [where E = example_crypto and K = example_codec and disk = example_disk
      and r = "example_runtime (acked 1) (available 1)"]
  unfolding example_dispatched example_acknowledge_1 example_acknowledged_1 example_confirm_1 example_emitted_1
  by blast+

lemma example_run:
  "example_reachable (example_system (three (example_runtime example_final example_final)
    (example_runtime (locked 1) (locked 1)) (example_runtime (fresh 2) (fresh 2))) {example_confirm 0, example_confirm 1})"
proof -
  note member_0 = example_step_0 [OF _ example_calls_0(1)] example_step_0 [OF _ example_calls_0(2)]
    example_step_0 [OF _ example_calls_0(3)] example_step_0 [OF _ example_calls_0(4)] example_step_0 [OF _ example_calls_0(5)]
  note member_1 = example_step_1 [OF _ example_calls_1(1)] example_step_1 [OF _ example_calls_1(2)]
    example_step_1 [OF _ example_calls_1(3)] example_step_1 [OF _ example_calls_1(4)]
  note dispatched = member_1(1) [OF member_0(1) [OF example_initial example_nonces(2)] example_nonces(2)]
  note acked = member_1(2) [OF member_0(2) [OF dispatched example_nonces(2)] example_nonces(2)]
  note available = member_1(3) [OF member_0(3) [OF acked example_nonces(2)] example_nonces(2)]
  note locked = member_1(4) [OF member_0(4) [OF available example_nonces(2)] example_nonces(2)]
  show ?thesis using member_0(5) [OF locked _ example_nonces(3)] by (simp add: insert_commute)
qed

lemma example_collision_free: "collision_free {example_confirm 0, example_confirm 1} {}"
  by (simp add: collision_free_def example_confirm_def)

lemma example_epoch_keys:
  "epoch_keys example_final = [(1, HashType 1, example_candidate)]" "epoch_keys (example_state slot round) = []"
  by (simp_all add: epoch_keys_def example_final_def example_epoch_def epoch_from_finalized_def Let_def example_state_def
      epoch_compute_hash_def example_crypto_def example_round_id_def)


section \<open>A live majority\<close>

definition example_blocks :: "nat \<Rightarrow> Block" where
  "example_blocks i = (if i = 0 then example_block
    else example_block\<lparr>block_body := (block_body example_block)\<lparr>bb_validator := PubKey (of_nat i + 1)\<rparr>\<rparr>)"

lemma example_live_round:
  "live_round example_crypto example_codec (st_members (rt_state (example_runtime (fresh 0) (fresh 0))))
    (example_round_id 1) example_blocks {0, 1}"
  by code_simp

lemma example_live_fresh:
  "round_state_new example_crypto (example_round_id 1) (st_members (rt_state (example_runtime (fresh 0) (fresh 0))))
    = Ok (st_round (rt_state (example_runtime (fresh 0) (fresh 0))))"
  by code_simp

lemma example_live_dispatch:
  "fst (build_dispatch_with_created example_crypto example_codec (example_runtime (fresh 0) (fresh 0)) [] 5)
    = Ok (live_dispatch (example_round_id 1) example_blocks 0)"
  by code_simp

lemma example_live_slot:
  "st_self_slot (rt_state (example_runtime (fresh 0) (fresh 0))) = member_slot 0"
  "hr_nonce (example_round_id 1) < new_next (hr_nonce (example_round_id 1))"
  by (simp_all add: example_runtime_def example_state_def member_slot_def example_round_id_def new_next_def)

lemma example_live_members:
  "live_round example_crypto example_codec example_members (example_round_id 1) example_blocks {0, 1}"
  using example_live_round by (simp add: example_runtime_def example_state_def)

lemma example_acked_reach:
  "round_reach example_crypto example_members (example_round_id 1)
    (live_state example_crypto (example_round_id 1) example_blocks {0, 1} {0, 1} {0, 1} {} False)"
proof -
  let ?reach = "round_reach example_crypto example_members (example_round_id 1)"
  let ?s = "live_state example_crypto (example_round_id 1) example_blocks {0, 1}"
  note live = example_live_members
  have "?reach (?s {} {} {} False)" by (rule start [OF live_fresh [OF live]])
  then have "?reach (?s {0} {} {} False)" by (rule dispatch) (rule live_dispatched [OF live], simp_all)
  then have "?reach (?s {1, 0} {} {} False)" by (rule dispatch) (rule live_dispatched [OF live], simp_all)
  then have "?reach (?s {0, 1} {} {} False)" by (simp add: insert_commute)
  then have "?reach (?s {0, 1} {0} {} False)" by (rule round_reach.acknowledge) (rule live_acknowledge [OF live], simp)
  then have "?reach (?s {0, 1} {1, 0} {} False)" by (rule acknowledged) (rule live_acknowledged [OF live], simp)
  then show ?thesis by (simp add: insert_commute)
qed

lemma example_live_reach:
  "round_reach example_crypto example_members (example_round_id 1)
    (live_confirmed example_crypto example_members (example_round_id 1) example_blocks {0, 1} {0, 1} True)"
proof -
  let ?reach = "round_reach example_crypto example_members (example_round_id 1)"
  let ?s = "live_state example_crypto (example_round_id 1) example_blocks {0, 1}"
  note live = example_live_members
  have m: "2 \<le> ha_majority example_members" using live_roundD(6) [OF live] .
  have "?reach (live_confirmed example_crypto example_members (example_round_id 1) example_blocks {0, 1} {0} True)"
    using example_acked_reach by (rule round_reach.confirm) (rule live_round_confirm [OF live], simp_all)
  then have "?reach (?s {0, 1} {0, 1} {0} True)" using m by (simp add: live_confirmed_def)
  then have "?reach (live_confirmed example_crypto example_members (example_round_id 1) example_blocks {0, 1} {1, 0} True)"
    by (rule round_reach.confirmed) (rule live_receive_confirmation [OF live], simp_all)
  then show ?thesis by (simp add: insert_commute)
qed


theorem finalized_epoch_validates_witness:
  "ha_epoch_validate example_crypto (epoch_from_finalized example_crypto
      (live_finalized example_crypto (example_round_id 1) example_blocks {0, 1} {0, 1})
      [Some (example_blocks 0), Some (example_blocks 1), None, None, None, None, None] (ha_parameters_new 4 4))
    example_members = Ok ()"
proof -
  let ?t = "live_confirmed example_crypto example_members (example_round_id 1) example_blocks {0, 1} {0, 1} True"
  have "\<not> card {0, 1 :: nat} < ha_majority example_members" by code_simp
  then have t: "rs_finalized ?t = Some (live_finalized example_crypto (example_round_id 1) example_blocks {0, 1} {0, 1})"
    "rs_blocks ?t = [Some (example_blocks 0), Some (example_blocks 1), None, None, None, None, None]"
    by (simp_all add: live_confirmed_def) (simp add: live_state_def upt_conv_Cons)
  have "ha_parameters_validate (ha_parameters_new 4 4) = Ok ()" by code_simp
  moreover have "hr_parameters_hash (example_round_id 1) = ha_parameters_hash example_crypto (ha_parameters_new 4 4)"
    "hr_round (example_round_id 1) = 0"
    by (simp_all add: example_round_id_def ha_parameters_hash_def example_crypto_def)
  ultimately show ?thesis
    using finalized_epoch_validates [OF example_live_reach t(1), of "ha_parameters_new 4 4"] unfolding t(2) by blast
qed

theorem confirm_again_witness:
  "round_confirm example_crypto
      (live_confirmed example_crypto example_members (example_round_id 1) example_blocks {0, 1} {0} True)
      example_members (member_slot 0)
    = Ok (live_confirm example_crypto (example_round_id 1) example_blocks {0, 1} 0,
        live_confirmed example_crypto example_members (example_round_id 1) example_blocks {0, 1} {0} True)"
  by (rule confirm_again [OF example_acked_reach])
    (rule live_round_confirm [OF example_live_members, of 0 "{}"]; simp)

end
