(* ===== verification/Spec2Isabelle.thy ===== *)
theory Spec2Isabelle
  imports TrustedExample Divergence AlgorithmTopology Block RoundSkip Safety Membership Register LocalBlock Quorum HaExample
begin

text \<open>
  Verification of \<open>blossom\<close>, a library for Byzantine and crash-fault-tolerant consensus
  (\<open>src/src\<close>). Definitions are pure translations of the Rust functions that they are named after; theorems state
  what these functions guarantee.

  \<^bold>\<open>The program.\<close> A group of nodes agrees on a chain of epochs. A node closes blocks of transactions
  (\<open>local_block.rs\<close>, \<open>block.rs\<close>), disseminates them through rounds of small quorums (\<open>algorithm.rs\<close>,
  \<open>register.rs\<close>), and votes on the set of blocks of the next epoch. The runtime (\<open>runtime.rs\<close>, \<open>runtime/*.rs\<close>) holds
  the state (\<open>state.rs\<close>), handles the messages of \<open>blossom.rs\<close> and \<open>messages.rs\<close>, and produces them. Two modes share
  it: the verified mode ends an epoch with a certificate of Ed25519 shares, the trusted mode with confirmations
  that each node locks in a durable log (\<open>trusted_log.rs\<close>) first. The high-availability mode
  (\<open>high_availability.rs\<close>, \<open>high_availability/*.rs\<close>) is a separate protocol for crash faults with suspension and
  reactivation of members. Epochs carry the membership (\<open>membership.rs\<close>), which evidence in committed blocks changes
  (\<open>encounter.rs\<close>, \<open>admission.rs\<close>). Signed service records (\<open>address_book.rs\<close>), round skips (\<open>round_skip.rs\<close>),
  safety manifests (\<open>safety.rs\<close>) and the codec of the hot path (\<open>wire.rs\<close>) complete it.

  \<^bold>\<open>Theories and sources.\<close>
  \<^item> \<open>Prelude\<close>: machine integers (\<open>u8\<close> to \<open>u128\<close> are words, \<open>usize\<close> is \<open>nat\<close> with its bound written out where it
    matters), fixed byte arrays with their order and bytes, the error type of \<open>error.rs\<close>, results.
  \<^item> \<open>BTree\<close>: \<open>BTreeMap\<close> and \<open>BTreeSet\<close> as sorted association lists, and the locale \<open>index_tree\<close> with the laws of the
    third-party ordered map that holds the verifiers; a B-tree interprets it.
  \<^item> \<open>Voting\<close>: the locale \<open>quorum_system\<close> of acceptance rules whose accepted sets share an honest voter; interpreted for
    supermajorities in \<open>Algorithm\<close> and for strict majorities in \<open>HaParameters\<close>.
  \<^item> \<open>Algorithm\<close>, \<open>AlgorithmTopology\<close>: \<open>algorithm.rs\<close>. Quorum sizes, thresholds, and the selection of the quorums of every
    round; members of a quorum agree on it, the rounds disseminate every block, the loop that counts rounds ends.
  \<^item> \<open>Crypto\<close>, \<open>Records\<close>: \<open>crypto.rs\<close>, \<open>hash.rs\<close>, \<open>nonce.rs\<close>, \<open>group.rs\<close>, \<open>node.rs\<close>, \<open>encounter.rs\<close>, \<open>admission.rs\<close>. SHA-256
    and Ed25519 are the fields of the parameter \<open>crypto\<close>. Encodings are shown to be self-delimiting.
  \<^item> \<open>Block\<close>: \<open>block.rs\<close>. Integrity, materialisation of filtered transactions, fair ordering; the hash of a block commits to
    its body.
  \<^item> \<open>LocalBlock\<close>, \<open>Register\<close>, \<open>RoundSkip\<close>, \<open>Safety\<close>: the files of these names. The queue of local blocks refines a
    pool; the message matrix reports success on supermajorities only; two certified skips of a round agree; a committee
    that claims tolerance keeps its votes without any one site.
  \<^item> \<open>Membership\<close>: \<open>membership.rs\<close>. The registry and its operations, leases, and the transition of the verifier set from
    committed evidence; removals and admissions need an honest observer.
  \<^item> \<open>Messages\<close>: \<open>blossom.rs\<close>, \<open>messages.rs\<close>. Headers, bodies, signing bytes, signature trees.
  \<^item> \<open>Votes\<close>, \<open>Quorum\<close>, \<open>Epochs\<close>, \<open>State\<close>: \<open>state.rs\<close>. Vote counters, the state of a round, epochs and certificates, the
    chain and the operations that advance it.
  \<^item> \<open>Wire\<close>: \<open>wire.rs\<close>. The codec of dispatches: what is written is read back, and the scan of the trusted mode accepts
    what the decoder accepts.
  \<^item> \<open>AddressBook\<close>: \<open>address_book.rs\<close>. Services and signed service records.
  \<^item> \<open>TrustedLog\<close>, \<open>TrustedHistory\<close>, \<open>TrustedExample\<close>: \<open>trusted_log.rs\<close>. The tables of the durable log and the transactions
    on them; whatever is written and whichever writes fail, reopening the log recovers the acknowledged epochs, and a
    recorded confirmation binds the node until the next epoch. The validation of an epoch disagrees with its construction
    when a member operation takes out a verifier.
  \<^item> \<open>Actions\<close>: the operations of a node as functions from a state to an outcome (a value, an error, a panic) and the
    state left behind; the locale \<open>progress\<close> lifts a reflexive and transitive relation to every combinator. It is
    interpreted for the votes of a round, of an epoch, of the local state and of the node.
  \<^item> \<open>Runtime\<close>, \<open>RuntimeCore\<close>, \<open>RuntimeMessages\<close>, \<open>RuntimeConsensus\<close>, \<open>RuntimeRecovery\<close>: \<open>runtime.rs\<close> and the files of
    \<open>runtime/\<close>. The record \<open>NodeRuntime\<close> is the \<open>RuntimeInner\<close> of the source; each method is one definition.
  \<^item> \<open>VerifiedNode\<close>, \<open>VerifiedSystem\<close>, \<open>VerifiedExample\<close>: the verified mode. One lemma per operation of the runtime says
    that it keeps the votes of the node and extends the chain by certified epochs only; a group of nodes in which
    each runs any requests on any input has chains that agree.
  \<^item> \<open>Submissions\<close>, \<open>Restart\<close>, \<open>Divergence\<close>: sequences of requests to one node. A submitted transaction never leaves the block
    under construction; a snapshot restarts the node with its chain and its live lease watermarks, which let it sign one
    statement per challenge; a late commit vote moves the round back, and a block of an outsider is committed into an epoch
    that no validation accepts.
  \<^item> \<open>HaParameters\<close>, \<open>HaProtocol\<close>, \<open>HaRuntime\<close>: \<open>high_availability/parameters.rs\<close>, \<open>protocol.rs\<close>, \<open>status.rs\<close>, \<open>rounds.rs\<close>,
    \<open>membership.rs\<close>, \<open>engine.rs\<close>, \<open>durable.rs\<close>.
  \<^item> \<open>HaHistory\<close>, \<open>HaSystem\<close>, \<open>HaRounds\<close>, \<open>HaOrder\<close>, \<open>HaLiveness\<close>, \<open>HaExample\<close>: histories of epochs and amendments justified
    by majorities, the group of durable members over an unreliable network with crashes, the invariant of a round,
    the order of execution, and progress of a live majority.

  \<^bold>\<open>State and effects.\<close> A node is a record and an operation returns the record updated. A step of the runtime is atomic:
  the locks that the source releases and takes again inside one call are not visible. What a call reads from outside
  (clocks, the results of writing the snapshot, the log and the block store) is the record \<open>io\<close>. Errors are the values
  of \<open>BlossomError\<close> without their texts. A panic is an outcome of its own. Loops over collections are folds or structural
  recursion; loops with a condition have a termination proof. There is no fuel.

  \<^bold>\<open>Parameters.\<close> Third-party code is a parameter with named hypotheses: SHA-256 (free of collisions on the values in
  question), Ed25519 (signatures of honest keys verify; a share of an honest validator in a certificate was made by it),
  the ordered index map (\<open>index_tree\<close>), the Merkle tree, Borsh (round trip or self-delimiting), the durable stores (a
  write succeeds or leaves the old contents). The agreement of the verified mode is for nodes that do not restart:
  the source keeps no durable record of a share in this mode.

  \<^bold>\<open>Not modelled.\<close>
  \<^item> Sockets, sessions, clients and binaries: \<open>tcp.rs\<close>, \<open>service_client.rs\<close>, \<open>membership_transport.rs\<close>, \<open>harness.rs\<close>,
    \<open>bin/\<close>, \<open>crates/\<close>, \<open>examples/\<close>: input and output around the operations above.
  \<^item> \<open>telemetry.rs\<close>: events for operators; no operation reads them.
  \<^item> \<open>log_store.rs\<close>, \<open>block_store.rs\<close>, \<open>active_passive.rs\<close>, \<open>active_passive/\<close>: durable stores over a third-party database;
    their clients see a write that succeeds or fails.
  \<^item> \<open>active_active.rs\<close>, \<open>active_active/\<close>, \<open>active_active_coordinator.rs\<close>, \<open>active_active_ha.rs\<close>, \<open>parallel_networks.rs\<close>,
    \<open>runtime/multi_group.rs\<close>: application layers above the runtimes.
  \<^item> \<open>trusted_dag.rs\<close>, \<open>subset_gossip.rs\<close>, \<open>propagation.rs\<close>, \<open>propagation/\<close>: experiments and simulations beside the protocol.
  \<^item> \<open>availability.rs\<close> (an optional feature), \<open>latency_topology.rs\<close> (measured latencies in floating point), \<open>overlay.rs\<close> (the
    runtime without consensus; its one pure helper is in \<open>RuntimeCore\<close>).
\<close>


text \<open>C2: the members of a high-availability group never finalize different chains. In every run of a group of
  durable members, over a network that delays, loses, reorders and repeats messages, with members
  that crash, restart from their store, fail to write, and suspend or reactivate each
  other, the finalized epochs of any two members are prefix-comparable: the same nonces, the same epoch hashes, the
  same candidates. The digests of the confirmations and votes cast in the run are free of
  collisions.\<close>

theorem ha_chains_agree:
  assumes "ha_reachable E K group_id nodes parameters y"
    and "collision_free (sys_confirms y) (sys_votes y)"
    and "u < length nodes" "v < length nodes"
  shows "prefix (epoch_keys (rt_state (sys_nodes y u))) (epoch_keys (rt_state (sys_nodes y v)))
    \<or> prefix (epoch_keys (rt_state (sys_nodes y v))) (epoch_keys (rt_state (sys_nodes y u)))"
proof -
  obtain r0 where ok: "system_ok E r0 (length nodes) y" using reachable_ok [OF assms(1,2)] by blast
  have "\<exists>h. justified E (sys_confirms y) (sys_votes y) r0 h \<and> epochs_of E r0 h = epoch_keys (rt_state (sys_nodes y w))"
    if "w < length nodes" for w
    using ok that unfolding system_ok_def runtime_ok_def state_ok_def chain_ok_def by blast
  then obtain h k where "justified E (sys_confirms y) (sys_votes y) r0 h" "epochs_of E r0 h = epoch_keys (rt_state (sys_nodes y u))"
    "justified E (sys_confirms y) (sys_votes y) r0 k" "epochs_of E r0 k = epoch_keys (rt_state (sys_nodes y v))"
    using assms(3,4) by blast
  then show ?thesis
    using histories_agree [of "sys_confirms y" "sys_votes y" E r0 h k] ok assms(2)
    by (simp add: system_ok_def voting_rules_def)
qed

theorem ha_chains_agree_witness:
  "prefix (epoch_keys (example_state 1 (example_round [1, 1] [None, Some (HashType 1)] (Some (HashType 1)))))
      (epoch_keys example_final)
    \<and> epoch_keys example_final = [(1, HashType 1, example_candidate)]"
  using ha_chains_agree [OF example_run, of 0 1] example_collision_free example_epoch_keys
  by (auto simp: example_runtime_def)



end
